(* ===== verification/Prelude.thy ===== *)
theory Prelude
  imports Main "HOL-Library.AList" "HOL-Library.List_Lexorder" "HOL-Library.Char_ord"
    "HOL-Library.Product_Lexorder" "HOL-Library.Signed_Division" "HOL-Library.Monad_Syntax"
begin

text \<open>
  Shared vocabulary of the development: the error codes and the \<open>Result\<close> type of
  \<^verbatim>\<open>libs/foundation\<close>, the reading of \<^verbatim>\<open>std::unordered_map\<close> as an association list
  with distinct keys, \<^verbatim>\<open>std::unique_ptr\<close> as \<open>option\<close>, the steady clock, the character
  classes of \<^verbatim>\<open><cctype>\<close>, and the generic lemmas on association lists, sums and folds
  that the component theories use.

  \<^bold>\<open>Integers.\<close> C++ \<^verbatim>\<open>int\<close> and \<^verbatim>\<open>std::int64_t\<close> values are HOL \<open>int\<close>; signed overflow is
  undefined behaviour in C++, so the guards the code has against it (widening to 64 bits,
  comparison with \<^verbatim>\<open>numeric_limits<int>::max()\<close>, \<^verbatim>\<open>std::clamp\<close>) are written out and the rest is
  exact arithmetic. Monotone \<^verbatim>\<open>std::uint64_t\<close> counters are \<open>nat\<close>.

  \<^bold>\<open>Maps.\<close> The order of the list is the iteration order of the container. The standard leaves
  that order open; a theorem that does not fix the list holds for every order.
\<close>

section \<open>Collections of facts\<close>

named_theorems coord_defs \<open>definitions of the atomic coordinator operations\<close>
named_theorems coord_inv \<open>preservation of the coordinator invariant by an operation\<close>
named_theorems frame \<open>fields an operation leaves unchanged\<close>

section \<open>Errors and results\<close>

datatype error_code =
    OkCode | InvalidArgument | ContextLengthExceeded | NotFound | NotLoaded | AlreadyExists
  | IoError | ParseError | OutOfMemory | ResourceBusy | Timeout | Cancelled | Unavailable
  | Internal

record error =
  err_code :: error_code
  err_message :: string
  err_field :: string

type_synonym 'a result = "error + 'a"

definition Err :: "error_code \<Rightarrow> string \<Rightarrow> 'a result" where
  "Err c m = Inl \<lparr>err_code = c, err_message = m, err_field = []\<rparr>"

abbreviation Ok :: "'a \<Rightarrow> 'a result" where
  "Ok \<equiv> Inr"

abbreviation is_ok :: "'a result \<Rightarrow> bool" where
  "is_ok r \<equiv> \<not> isl r"

definition result_code :: "'a result \<Rightarrow> error_code" where
  "result_code r = (case r of Inl e \<Rightarrow> err_code e | Inr _ \<Rightarrow> OkCode)"

text \<open>A C++ call that may throw: the value of \<^verbatim>\<open>what()\<close>, or nothing for a foreign exception.\<close>

datatype 'a call = Returned 'a | Threw "string option"

text \<open>A function that reports failure by throwing \<^verbatim>\<open>std::invalid_argument\<close>.\<close>

type_synonym 'a throws = "string + 'a"

type_synonym 'a unique_ptr = "'a option"
type_synonym 'v strmap = "(string \<times> 'v) list"

section \<open>Clock, bounds, numbers in messages\<close>

type_synonym time_point = int
type_synonym duration = int

definition time_point_max :: time_point where
  "time_point_max = 9223372036854775807"

abbreviation ms :: "int \<Rightarrow> duration" where
  "ms k \<equiv> k * 1000000"

definition count_seconds :: "duration \<Rightarrow> int" where
  "count_seconds d = d sdiv 1000000000"

definition count_ms :: "duration \<Rightarrow> int" where
  "count_ms d = d sdiv 1000000"

definition INT_MAX :: int where
  "INT_MAX = 2147483647"

definition clamp :: "int \<Rightarrow> int \<Rightarrow> int \<Rightarrow> int" where
  "clamp v lo hi = (if v < lo then lo else if hi < v then hi else v)"

fun string_of_nat :: "nat \<Rightarrow> string" where
  "string_of_nat n =
     (if n < 10 then [char_of (48 + n)]
      else string_of_nat (n div 10) @ [char_of (48 + n mod 10)])"

declare string_of_nat.simps [simp del]

definition string_of_int :: "int \<Rightarrow> string" where
  "string_of_int i =
     (if i < 0 then CHR ''-'' # string_of_nat (nat (- i)) else string_of_nat (nat i))"

section \<open>Characters and strings\<close>

definition byte_of :: "char \<Rightarrow> nat" where
  "byte_of c = of_char c"

definition char_isdigit :: "char \<Rightarrow> bool" where
  "char_isdigit c = (48 \<le> byte_of c \<and> byte_of c \<le> 57)"

definition char_isalnum :: "char \<Rightarrow> bool" where
  "char_isalnum c =
     (char_isdigit c \<or> (65 \<le> byte_of c \<and> byte_of c \<le> 90) \<or> (97 \<le> byte_of c \<and> byte_of c \<le> 122))"

definition char_isxdigit :: "char \<Rightarrow> bool" where
  "char_isxdigit c =
     (char_isdigit c \<or> (65 \<le> byte_of c \<and> byte_of c \<le> 70) \<or> (97 \<le> byte_of c \<and> byte_of c \<le> 102))"

definition char_isspace :: "char \<Rightarrow> bool" where
  "char_isspace c = (byte_of c = 32 \<or> (9 \<le> byte_of c \<and> byte_of c \<le> 13))"

definition char_tolower :: "char \<Rightarrow> char" where
  "char_tolower c =
     (if 65 \<le> byte_of c \<and> byte_of c \<le> 90 then char_of (byte_of c + 32) else c)"

definition starts_with :: "string \<Rightarrow> string \<Rightarrow> bool" where
  "starts_with s p = (take (length p) s = p)"

text \<open>
  \<^verbatim>\<open>std::from_chars\<close> in base 10: the longest run of digits, an error when there is none or when the
  value does not fit; on success the value and the unread rest.
\<close>

definition digits_value :: "string \<Rightarrow> nat" where
  "digits_value ds = foldl (\<lambda>acc c. 10 * acc + (byte_of c - 48)) 0 ds"

definition from_chars_unsigned :: "nat \<Rightarrow> string \<Rightarrow> (nat \<times> string) option" where
  "from_chars_unsigned maximum s =
     (let ds = takeWhile char_isdigit s; v = digits_value ds
      in if ds = [] \<or> maximum < v then None else Some (v, dropWhile char_isdigit s))"

definition from_chars_int :: "string \<Rightarrow> (int \<times> string) option" where
  "from_chars_int s =
     (case s of
        CHR ''-'' # rest \<Rightarrow> map_option (\<lambda>(v, r). (- int v, r)) (from_chars_unsigned 2147483648 rest)
      | _ \<Rightarrow> map_option (\<lambda>(v, r). (int v, r)) (from_chars_unsigned 2147483647 s))"

section \<open>Association lists\<close>

abbreviation lookup :: "('k \<times> 'v) list \<Rightarrow> 'k \<Rightarrow> 'v option" where
  "lookup m k \<equiv> map_of m k"

abbreviation has_key :: "('k \<times> 'v) list \<Rightarrow> 'k \<Rightarrow> bool" where
  "has_key m k \<equiv> map_of m k \<noteq> None"

text \<open>The value \<^verbatim>\<open>operator[]\<close> reads: absent integer entries count as 0.\<close>

definition get0 :: "('k \<times> int) list \<Rightarrow> 'k \<Rightarrow> int" where
  "get0 m k = (case map_of m k of None \<Rightarrow> 0 | Some v \<Rightarrow> v)"

definition add0 :: "'k \<Rightarrow> int \<Rightarrow> ('k \<times> int) list \<Rightarrow> ('k \<times> int) list" where
  "add0 k d m = AList.update k (get0 m k + d) m"

abbreviation keys_distinct :: "('k \<times> 'v) list \<Rightarrow> bool" where
  "keys_distinct m \<equiv> distinct (map fst m)"

text \<open>The sum of a measure over the values of a map that satisfy a predicate.\<close>

definition sum_vals :: "('v \<Rightarrow> int) \<Rightarrow> ('k \<times> 'v) list \<Rightarrow> int" where
  "sum_vals f m = (\<Sum>(k, v) \<leftarrow> m. f v)"

text \<open>Lookups stay lookups: membership in the list is a derived view.\<close>

declare map_of_eq_Some_iff [simp del] Some_eq_map_of_iff [simp del]

lemma map_of_AList_update [simp]:
  "map_of (AList.update k v m) = (map_of m)(k \<mapsto> v)"
  by (rule AList.update_conv')

lemma map_of_AList_delete [simp]:
  "map_of (AList.delete k m) = (map_of m)(k := None)"
  by (rule AList.delete_conv')

lemma keys_distinct_update [simp]:
  "keys_distinct m \<Longrightarrow> keys_distinct (AList.update k v m)"
  by (rule AList.distinct_update)

lemma keys_distinct_delete [simp]:
  "keys_distinct m \<Longrightarrow> keys_distinct (AList.delete k m)"
  by (rule AList.distinct_delete)

lemma get0_simps [simp]:
  "get0 (AList.update k v m) k' = (if k' = k then v else get0 m k')"
  "get0 (AList.delete k m) k' = (if k' = k then 0 else get0 m k')"
  "get0 (add0 k d m) k' = (if k' = k then get0 m k + d else get0 m k')"
  "get0 [] k = 0"
  by (simp_all add: get0_def add0_def)

lemma keys_distinct_add0 [simp]:
  "keys_distinct m \<Longrightarrow> keys_distinct (add0 k d m)"
  by (simp add: add0_def)

lemma sum_vals_simps [simp]:
  "sum_vals f [] = 0"
  "sum_vals f ((k, v) # m) = f v + sum_vals f m"
  by (simp_all add: sum_vals_def)

lemma sum_vals_append [simp]:
  "sum_vals f (m @ m') = sum_vals f m + sum_vals f m'"
  by (simp add: sum_vals_def)

lemma sum_vals_delete:
  assumes "keys_distinct m" and "map_of m k = Some v"
  shows "sum_vals f (AList.delete k m) = sum_vals f m - f v"
  using assms
proof (induction m)
  case Nil
  then show ?case by simp
next
  case (Cons p m)
  obtain k' v' where p: "p = (k', v')" by (cases p)
  show ?case
  proof (cases "k' = k")
    case True
    with Cons.prems p have "AList.delete k m = m"
      by (force simp: AList.delete_eq filter_id_conv image_iff)
    with True Cons.prems p show ?thesis by simp
  next
    case False
    with Cons p show ?thesis by simp
  qed
qed

lemma sum_vals_update_new:
  "map_of m k = None \<Longrightarrow> sum_vals f (AList.update k v m) = sum_vals f m + f v"
  by (induction m) (auto split: if_splits)

lemma length_update_new:
  "map_of m k = None \<Longrightarrow> length (AList.update k v m) = Suc (length m)"
  by (induction m) (auto split: if_splits)

lemma length_delete_Some:
  assumes "keys_distinct m" and "map_of m k = Some v"
  shows "length m = Suc (length (AList.delete k m))"
  using sum_vals_delete [OF assms, of "\<lambda>_. 1"]
  by (simp add: sum_vals_def sum_list_triv split_def)

lemma sum_vals_mono:
  "(\<And>k v. (k, v) \<in> set m \<Longrightarrow> f v \<le> g v) \<Longrightarrow> sum_vals f m \<le> sum_vals g m"
  by (induction m) (force simp: add_mono)+

lemma sum_vals_nonneg:
  "(\<And>k v. (k, v) \<in> set m \<Longrightarrow> 0 \<le> f v) \<Longrightarrow> 0 \<le> sum_vals f m"
  by (induction m) force+

lemma sum_vals_ge_member:
  "(\<And>k v. (k, v) \<in> set m \<Longrightarrow> 0 \<le> f v) \<Longrightarrow> (k, v) \<in> set m \<Longrightarrow> f v \<le> sum_vals f m"
proof (induction m)
  case Nil
  then show ?case by simp
next
  case (Cons p m)
  obtain k' v' where p: "p = (k', v')" by (cases p)
  have "0 \<le> f v'" using Cons.prems(1) [of k' v'] p by simp
  moreover have "0 \<le> sum_vals f m"
    using Cons.prems(1) by (intro sum_vals_nonneg) auto
  moreover have "(k, v) \<in> set m \<Longrightarrow> f v \<le> sum_vals f m"
    using Cons.IH Cons.prems(1) by auto
  ultimately show ?case using Cons.prems(2) p by auto
qed

lemma sum_vals_indicator_pos:
  "0 < sum_vals (\<lambda>v. if P v then 1 else 0) m \<longleftrightarrow> (\<exists>k v. (k, v) \<in> set m \<and> P v)"
proof (induction m)
  case Nil
  then show ?case by simp
next
  case (Cons p m)
  have "0 \<le> sum_vals (\<lambda>v. if P v then 1 else 0) m"
    by (rule sum_vals_nonneg) simp
  with Cons show ?case by (cases p) auto
qed

section \<open>Results and numbers\<close>

lemma Err_simps [simp]:
  "isl (Err c m)" "Err c m \<noteq> Inr x" "Inr x \<noteq> Err c m"
  "result_code (Err c m) = c" "result_code (Inr x) = OkCode"
  by (simp_all add: Err_def result_code_def)

lemma clamp_range: "lo \<le> hi \<Longrightarrow> lo \<le> clamp v lo hi \<and> clamp v lo hi \<le> hi"
  by (simp add: clamp_def)

lemma clamp_id [simp]: "lo \<le> v \<Longrightarrow> v \<le> hi \<Longrightarrow> clamp v lo hi = v"
  by (simp add: clamp_def)

lemma count_seconds_nonneg: "0 \<le> d \<Longrightarrow> count_seconds d = d div 1000000000"
  by (simp add: count_seconds_def signed_divide_int_def sgn_if)

lemma starts_with_append [simp]: "starts_with (p @ s) p"
  by (simp add: starts_with_def)

end
