(* ===== verification/Model_Info.thy ===== *)
theory Model_Info
  imports Prelude
begin

text \<open>
  \<^verbatim>\<open>libs/model/include/model/model_info.hpp\<close> and \<^verbatim>\<open>libs/model/src/model_info.cpp\<close>: the metadata
  of a model, its textual enumerations, and the normalisation and validation of its resource
  description, which every model passes on its way into the registry.
\<close>

section \<open>Data\<close>

datatype model_role = Conversation | Helper | Media | Embedding | Maintenance
datatype model_compute = Cpu | VulkanGpu | CudaGpu | RocmGpu | Mixed
datatype residency_policy = Always | Managed | OnDemand

text \<open>
  The fields of \<^verbatim>\<open>ModelInfo\<close> in the order of the struct. Left out are the floating-point fields
  (prices, \<^verbatim>\<open>mtp_p_min\<close>) and the nested \<^verbatim>\<open>sampling\<close>, \<^verbatim>\<open>reasoning\<close> and \<^verbatim>\<open>optimization\<close> structs,
  which no modelled operation reads or writes.
\<close>

record model_info =
  mi_name :: string
  mi_family :: string
  mi_runtime :: string
  mi_modality :: string
  mi_role :: model_role
  mi_compute :: model_compute
  mi_residency :: residency_policy
  mi_admission_pool :: string
  mi_concurrency_limit :: int
  mi_memory_required_mb :: int
  mi_eviction_eligible :: bool
  mi_resource_metadata_explicit :: bool
  mi_capabilities :: "string list"
  mi_gguf_path :: string
  mi_mmproj_path :: string
  mi_n_slots :: int
  mi_min_slots :: int
  mi_continuation_grace_ms :: int
  mi_request_queue_timeout_seconds :: int
  mi_vram_required_mb :: int
  mi_vram_fixed_mb :: int
  mi_vram_per_slot_mb :: int
  mi_context_size :: int
  mi_default_max_output_tokens :: int
  mi_kv_unified :: bool
  mi_context_pool_size :: int
  mi_context_pool_auto :: bool
  mi_concurrency_auto :: bool
  mi_mtp_enabled :: bool
  mi_mtp_draft_tokens :: int
  mi_mtp_max_active_requests :: int
  mi_has_vision :: bool
  mi_artifacts :: "string strmap"

definition default_model_info :: model_info where
  "default_model_info =
     \<lparr>mi_name = [], mi_family = [], mi_runtime = ''llama_cpp'', mi_modality = ''text'',
      mi_role = Conversation, mi_compute = VulkanGpu, mi_residency = Managed,
      mi_admission_pool = ''conversation'', mi_concurrency_limit = 0,
      mi_memory_required_mb = 0, mi_eviction_eligible = True,
      mi_resource_metadata_explicit = False,
      mi_capabilities = [''chat_completions'', ''responses''],
      mi_gguf_path = [], mi_mmproj_path = [], mi_n_slots = 2, mi_min_slots = 1,
      mi_continuation_grace_ms = 0, mi_request_queue_timeout_seconds = 300,
      mi_vram_required_mb = 0, mi_vram_fixed_mb = 0, mi_vram_per_slot_mb = 0,
      mi_context_size = 65536, mi_default_max_output_tokens = 0, mi_kv_unified = False,
      mi_context_pool_size = 0, mi_context_pool_auto = False, mi_concurrency_auto = False,
      mi_mtp_enabled = False, mi_mtp_draft_tokens = 2, mi_mtp_max_active_requests = 1,
      mi_has_vision = False, mi_artifacts = []\<rparr>"

definition supports :: "model_info \<Rightarrow> string \<Rightarrow> bool" where
  "supports info capability = (capability \<in> set (mi_capabilities info))"

section \<open>Textual enumerations\<close>

fun role_to_string :: "model_role \<Rightarrow> string" where
  "role_to_string Conversation = ''conversation''"
| "role_to_string Helper = ''helper''"
| "role_to_string Media = ''media''"
| "role_to_string Embedding = ''embedding''"
| "role_to_string Maintenance = ''maintenance''"

fun compute_to_string :: "model_compute \<Rightarrow> string" where
  "compute_to_string Cpu = ''cpu''"
| "compute_to_string VulkanGpu = ''vulkan_gpu''"
| "compute_to_string CudaGpu = ''cuda_gpu''"
| "compute_to_string RocmGpu = ''rocm_gpu''"
| "compute_to_string Mixed = ''mixed''"

fun residency_to_string :: "residency_policy \<Rightarrow> string" where
  "residency_to_string Always = ''always''"
| "residency_to_string Managed = ''managed''"
| "residency_to_string OnDemand = ''on_demand''"

definition parse_model_role :: "string \<Rightarrow> model_role option" where
  "parse_model_role v =
     (if v = ''conversation'' then Some Conversation
      else if v = ''helper'' then Some Helper
      else if v = ''media'' then Some Media
      else if v = ''embedding'' then Some Embedding
      else if v = ''maintenance'' then Some Maintenance
      else None)"

definition parse_model_compute :: "string \<Rightarrow> model_compute option" where
  "parse_model_compute v =
     (if v = ''cpu'' then Some Cpu
      else if v = ''vulkan_gpu'' then Some VulkanGpu
      else if v = ''cuda_gpu'' then Some CudaGpu
      else if v = ''rocm_gpu'' then Some RocmGpu
      else if v = ''mixed'' then Some Mixed
      else None)"

definition parse_residency_policy :: "string \<Rightarrow> residency_policy option" where
  "parse_residency_policy v =
     (if v = ''always'' then Some Always
      else if v = ''managed'' then Some Managed
      else if v = ''on_demand'' then Some OnDemand
      else None)"

section \<open>Normalisation and validation\<close>

definition normalized_role :: "model_info \<Rightarrow> model_role" where
  "normalized_role info =
     (if supports info ''audio_speech'' \<or> supports info ''audio_transcription'' \<or>
         supports info ''audio_generation'' \<or> supports info ''image_generation'' \<or>
         supports info ''video_generation'' then Media
      else if supports info ''embeddings'' then Embedding
      else if mi_modality info = ''text'' then Conversation
      else if mi_modality info = ''embedding'' then Embedding
      else Media)"

definition cpu_native :: "model_info \<Rightarrow> bool" where
  "cpu_native info =
     (mi_runtime info = ''whisper_cpp'' \<or> mi_runtime info = ''sherpa_onnx'' \<or>
      mi_runtime info = ''windows_sapi'')"

definition normalized_capabilities :: "model_info \<Rightarrow> string list" where
  "normalized_capabilities info =
     (if mi_modality info = ''audio_speech'' \<and> \<not> supports info ''audio_speech''
        then [''audio_speech'']
      else if mi_modality info = ''audio_transcription'' \<and> \<not> supports info ''audio_transcription''
        then [''audio_transcription'']
      else if mi_modality info = ''audio_generation'' \<and> \<not> supports info ''audio_generation''
        then [''audio_generation'']
      else if mi_modality info = ''image'' \<and> \<not> supports info ''image_generation''
        then [''image_generation'']
      else if mi_modality info = ''video'' \<and> \<not> supports info ''video_generation''
        then [''video_generation'']
      else if mi_modality info = ''embedding'' \<and> \<not> supports info ''embeddings''
        then [''embeddings'']
      else mi_capabilities info)"

definition infer_resource_metadata :: "model_info \<Rightarrow> model_info" where
  "infer_resource_metadata info =
     (let residency = (if cpu_native info then Always else Managed)
      in info\<lparr>mi_role := normalized_role info,
              mi_compute := (if cpu_native info then Cpu else VulkanGpu),
              mi_residency := residency,
              mi_eviction_eligible := residency \<noteq> Always,
              mi_admission_pool := mi_name info,
              mi_capabilities := normalized_capabilities info\<rparr>)"

definition default_admission_pool :: "model_info \<Rightarrow> model_info" where
  "default_admission_pool info =
     (if mi_admission_pool info = []
      then info\<lparr>mi_admission_pool := role_to_string (mi_role info)\<rparr> else info)"

definition default_concurrency_limit :: "model_info \<Rightarrow> model_info" where
  "default_concurrency_limit info =
     (if mi_concurrency_limit info \<le> 0
      then info\<lparr>mi_concurrency_limit := mi_n_slots info\<rparr> else info)"

definition normalize_model_resources :: "model_info \<Rightarrow> model_info" where
  "normalize_model_resources info =
     (let info1 = (if mi_resource_metadata_explicit info then info
                   else infer_resource_metadata info);
          info2 = default_concurrency_limit (default_admission_pool info1)
      in info2\<lparr>mi_memory_required_mb := max 0 (mi_memory_required_mb info2)\<rparr>)"

definition validate_model_resources :: "model_info \<Rightarrow> string option" where
  "validate_model_resources info =
     (if mi_admission_pool info = [] then Some ''admission_pool must not be empty''
      else if mi_concurrency_limit info < 1 \<or> mi_concurrency_limit info > mi_n_slots info
        then Some ''concurrency_limit must be between 1 and n_slots''
      else if mi_memory_required_mb info < 0 then Some ''memory_required_mb cannot be negative''
      else if mi_residency info = Always \<and> mi_eviction_eligible info
        then Some ''always-resident models cannot be eviction eligible''
      else if mi_role info = Conversation \<and> mi_residency info = Always \<and> mi_compute info = Cpu
        then Some ''CPU conversation models cannot be always resident''
      else if mi_role info = Helper \<and> mi_residency info \<noteq> Always
        then Some ''helper models must be always resident''
      else if mi_role info = Helper \<and> mi_compute info \<noteq> Cpu
        then Some ''helper models must use CPU compute''
      else if mi_role info = Embedding \<and> \<not> supports info ''embeddings''
        then Some ''embedding role requires the embeddings capability''
      else None)"

section \<open>Classification used by the coordinator\<close>

definition is_primary_model :: "model_info \<Rightarrow> bool" where
  "is_primary_model info = (mi_role info = Conversation)"

definition is_priority_media_model :: "model_info \<Rightarrow> bool" where
  "is_priority_media_model info =
     (mi_role info = Media \<and>
      (supports info ''audio_speech'' \<or> supports info ''audio_transcription''))"

definition is_independent_sidecar :: "model_info \<Rightarrow> bool" where
  "is_independent_sidecar info = (\<not> is_primary_model info \<and> mi_compute info = Cpu)"

section \<open>Facts\<close>

text \<open>The three enumerations are printed injectively and read back.\<close>

lemma parse_role_to_string [simp]: "parse_model_role (role_to_string r) = Some r"
  by (cases r) (simp_all add: parse_model_role_def)

lemma parse_compute_to_string [simp]: "parse_model_compute (compute_to_string c) = Some c"
  by (cases c) (simp_all add: parse_model_compute_def)

lemma parse_residency_to_string [simp]:
  "parse_residency_policy (residency_to_string p) = Some p"
  by (cases p) (simp_all add: parse_residency_policy_def)

lemma parse_role_Some_iff: "parse_model_role s = Some r \<longleftrightarrow> s = role_to_string r"
  by (cases r) (auto simp: parse_model_role_def split: if_splits)

lemma parse_compute_Some_iff: "parse_model_compute s = Some c \<longleftrightarrow> s = compute_to_string c"
  by (cases c) (auto simp: parse_model_compute_def split: if_splits)

lemma parse_residency_Some_iff:
  "parse_residency_policy s = Some p \<longleftrightarrow> s = residency_to_string p"
  by (cases p) (auto simp: parse_residency_policy_def split: if_splits)

lemma role_to_string_nonempty [simp]: "role_to_string r \<noteq> []"
  by (cases r) simp_all

text \<open>Fields normalisation leaves alone, and the bounds it establishes.\<close>

lemmas normalize_defs =
  normalize_model_resources_def infer_resource_metadata_def default_admission_pool_def
  default_concurrency_limit_def Let_def

lemma normalize_frame [simp]:
  "mi_name (normalize_model_resources info) = mi_name info"
  "mi_runtime (normalize_model_resources info) = mi_runtime info"
  "mi_modality (normalize_model_resources info) = mi_modality info"
  "mi_n_slots (normalize_model_resources info) = mi_n_slots info"
  "mi_context_size (normalize_model_resources info) = mi_context_size info"
  "mi_artifacts (normalize_model_resources info) = mi_artifacts info"
  "mi_resource_metadata_explicit (normalize_model_resources info)
     = mi_resource_metadata_explicit info"
  by (simp_all add: normalize_defs)

lemma normalize_explicit_frame:
  assumes "mi_resource_metadata_explicit info"
  shows "mi_role (normalize_model_resources info) = mi_role info"
    and "mi_compute (normalize_model_resources info) = mi_compute info"
    and "mi_residency (normalize_model_resources info) = mi_residency info"
    and "mi_eviction_eligible (normalize_model_resources info) = mi_eviction_eligible info"
    and "mi_capabilities (normalize_model_resources info) = mi_capabilities info"
  using assms by (simp_all add: normalize_defs)

lemma normalize_bounds:
  "mi_admission_pool (normalize_model_resources info) \<noteq> []"
  "0 \<le> mi_memory_required_mb (normalize_model_resources info)"
  "1 \<le> mi_n_slots info \<Longrightarrow> 1 \<le> mi_concurrency_limit (normalize_model_resources info)"
  by (simp_all add: normalize_defs)

text \<open>
  Running the capability inference on its own output changes nothing: whatever modality the
  entry has, the inferred list supports the capability that modality calls for.
\<close>

lemma normalized_capabilities_idem:
  "normalized_capabilities (info\<lparr>mi_capabilities := normalized_capabilities info\<rparr>)
     = normalized_capabilities info"
  by (simp add: normalized_capabilities_def supports_def)

end
