(* ===== verification/Runtime_Contract.thy ===== *)
theory Runtime_Contract
  imports Model_Info
begin

text \<open>
  \<^verbatim>\<open>libs/model/include/model/runtime_contract.hpp\<close>: which modality and capability combinations a
  runtime declares, and the artifact rules of the \<^verbatim>\<open>vllm_radiance\<close> runtime that registration
  enforces.
\<close>

section \<open>Contracts\<close>

datatype runtime_artifact_policy = Gguf | ArtifactMap | NoArtifacts

record runtime_contract =
  rc_name :: string
  rc_modality_capabilities :: "(string list) strmap"
  rc_artifact_policy :: runtime_artifact_policy
  rc_vision :: bool
  rc_reasoning :: bool
  rc_speculative :: bool

type_synonym contract_registry = "runtime_contract strmap"

definition register_runtime :: "runtime_contract \<Rightarrow> contract_registry \<Rightarrow> contract_registry" where
  "register_runtime c reg = AList.update (rc_name c) c reg"

definition find_contract :: "contract_registry \<Rightarrow> string \<Rightarrow> runtime_contract option" where
  "find_contract reg name = lookup reg name"

fun first_unsupported :: "string list \<Rightarrow> string list \<Rightarrow> string option" where
  "first_unsupported supported [] = None"
| "first_unsupported supported (c # cs) =
     (if c \<in> set supported then first_unsupported supported cs else Some c)"

definition validate_contract ::
  "contract_registry \<Rightarrow> string \<Rightarrow> string \<Rightarrow> string list \<Rightarrow> string option" where
  "validate_contract reg runtime modality capabilities =
     (case find_contract reg runtime of
        None \<Rightarrow> Some (''runtime is not registered: '' @ runtime)
      | Some contract \<Rightarrow>
          (case lookup (rc_modality_capabilities contract) modality of
             None \<Rightarrow> Some (''runtime '' @ runtime @ '' does not support modality '' @ modality)
           | Some supported \<Rightarrow>
               (case first_unsupported supported capabilities of
                  None \<Rightarrow> None
                | Some c \<Rightarrow> Some (''runtime '' @ runtime @ '' modality '' @ modality
                                   @ '' does not support capability '' @ c))))"

definition standard_runtime_contracts :: contract_registry where
  "standard_runtime_contracts =
     fold register_runtime
       [\<lparr>rc_name = ''llama_cpp'',
         rc_modality_capabilities = [(''text'', [''chat_completions'', ''responses'']),
                                     (''embedding'', [''embeddings''])],
         rc_artifact_policy = Gguf, rc_vision = True, rc_reasoning = True,
         rc_speculative = True\<rparr>,
        \<lparr>rc_name = ''vllm_radiance'',
         rc_modality_capabilities = [(''text'', [''chat_completions'', ''responses''])],
         rc_artifact_policy = ArtifactMap, rc_vision = True, rc_reasoning = True,
         rc_speculative = True\<rparr>,
        \<lparr>rc_name = ''stable_diffusion_cpp'',
         rc_modality_capabilities = [(''image'', [''image_generation''])],
         rc_artifact_policy = ArtifactMap, rc_vision = False, rc_reasoning = False,
         rc_speculative = False\<rparr>,
        \<lparr>rc_name = ''ace_step_cpp'',
         rc_modality_capabilities = [(''audio_generation'', [''audio_generation''])],
         rc_artifact_policy = ArtifactMap, rc_vision = False, rc_reasoning = False,
         rc_speculative = False\<rparr>,
        \<lparr>rc_name = ''ltx_video_cpp'',
         rc_modality_capabilities = [(''video'', [''video_generation''])],
         rc_artifact_policy = ArtifactMap, rc_vision = False, rc_reasoning = False,
         rc_speculative = False\<rparr>,
        \<lparr>rc_name = ''whisper_cpp'',
         rc_modality_capabilities = [(''audio_transcription'', [''audio_transcription''])],
         rc_artifact_policy = ArtifactMap, rc_vision = False, rc_reasoning = False,
         rc_speculative = False\<rparr>,
        \<lparr>rc_name = ''sherpa_onnx'',
         rc_modality_capabilities = [(''audio_speech'', [''audio_speech'']),
                                     (''audio_transcription'', [''audio_transcription''])],
         rc_artifact_policy = ArtifactMap, rc_vision = False, rc_reasoning = False,
         rc_speculative = False\<rparr>,
        \<lparr>rc_name = ''windows_sapi'',
         rc_modality_capabilities = [(''audio_speech'', [''audio_speech''])],
         rc_artifact_policy = NoArtifacts, rc_vision = False, rc_reasoning = False,
         rc_speculative = False\<rparr>]
       []"

section \<open>Artifacts of the vllm\_radiance runtime\<close>

definition prefill_selection :: "string strmap \<Rightarrow> string" where
  "prefill_selection artifacts =
     (case lookup artifacts ''prefill_attention'' of None \<Rightarrow> ''r4d'' | Some v \<Rightarrow> v)"

definition int4_kv :: "string strmap \<Rightarrow> bool" where
  "int4_kv artifacts = (lookup artifacts ''kv_cache_dtype'' = Some ''int4_per_token_head'')"

definition is_hex :: "string \<Rightarrow> bool" where
  "is_hex s = list_all char_isxdigit s"

definition validate_decode_dll :: "string strmap \<Rightarrow> string option" where
  "validate_decode_dll artifacts =
     (case (lookup artifacts ''decode_dll'', lookup artifacts ''decode_dll_sha256'') of
        (None, None) \<Rightarrow> None
      | (Some dll, Some digest) \<Rightarrow>
          (if prefill_selection artifacts \<noteq> ''r4d_int4''
             then Some ''vllm_radiance decode DLL artifacts require prefill_attention: r4d_int4''
           else if dll = [] then Some ''vllm_radiance decode_dll must not be empty''
           else if length digest \<noteq> 64
             then Some ''vllm_radiance decode_dll_sha256 must be a 64-character SHA-256 digest''
           else if \<not> is_hex digest
             then Some ''vllm_radiance decode_dll_sha256 must be a SHA-256 hex digest''
           else None)
      | _ \<Rightarrow> Some ''vllm_radiance decode_dll and decode_dll_sha256 must be configured together'')"

fun first_missing_artifact :: "string strmap \<Rightarrow> string list \<Rightarrow> string option" where
  "first_missing_artifact artifacts [] = None"
| "first_missing_artifact artifacts (k # ks) =
     (if lookup artifacts k = None \<or> lookup artifacts k = Some [] then Some k
      else first_missing_artifact artifacts ks)"

definition validate_int4_prefill :: "string strmap \<Rightarrow> string option" where
  "validate_int4_prefill artifacts =
     (if \<not> int4_kv artifacts
        then Some ''vllm_radiance r4d_int4 requires kv_cache_dtype: int4_per_token_head''
      else if lookup artifacts ''decode_dll'' = None
        then Some ''vllm_radiance r4d_int4 requires decode_dll and decode_dll_sha256''
      else (case first_missing_artifact artifacts [''prefill_overlay'', ''prefill_dll''] of
              Some k \<Rightarrow> Some (''vllm_radiance r4d_int4 requires artifact: '' @ k)
            | None \<Rightarrow>
                (case lookup artifacts ''prefill_dll_sha256'' of
                   None \<Rightarrow> Some ''vllm_radiance r4d_int4 requires a 64-character prefill_dll_sha256''
                 | Some digest \<Rightarrow>
                     (if length digest \<noteq> 64
                        then Some ''vllm_radiance r4d_int4 requires a 64-character prefill_dll_sha256''
                      else if \<not> is_hex digest
                        then Some ''vllm_radiance prefill_dll_sha256 must be a SHA-256 hex digest''
                      else None))))"

definition validate_runtime_artifacts :: "string \<Rightarrow> string strmap \<Rightarrow> string option" where
  "validate_runtime_artifacts runtime artifacts =
     (if runtime \<noteq> ''vllm_radiance'' then None
      else let prefill = prefill_selection artifacts in
        if prefill \<noteq> ''r4d'' \<and> prefill \<noteq> ''r4d_int4'' \<and> prefill \<noteq> ''upstream''
          then Some ''vllm_radiance prefill_attention must be r4d, r4d_int4, or upstream''
        else if lookup artifacts ''kv_cache_dtype'' \<notin>
                  {None, Some ''auto'', Some ''int4_per_token_head''}
          then Some ''vllm_radiance kv_cache_dtype must be auto or int4_per_token_head''
        else if has_key artifacts ''gpu_memory_utilization''
          then Some ''vllm_radiance gpu_memory_utilization is not a supported profile setting''
        else (case validate_decode_dll artifacts of
                Some e \<Rightarrow> Some e
              | None \<Rightarrow>
                  (if prefill = ''r4d_int4'' then validate_int4_prefill artifacts
                   else if prefill = ''r4d'' \<and> int4_kv artifacts
                     then Some (''vllm_radiance r4d prefill requires the default BF16 KV cache; ''
                                @ ''use r4d_int4 for INT4 KV'')
                   else None)))"

section \<open>Facts\<close>

lemma first_unsupported_None_iff [simp]:
  "first_unsupported supported cs = None \<longleftrightarrow> set cs \<subseteq> set supported"
  by (induction cs) auto

lemma validate_contract_None_iff:
  "validate_contract reg runtime modality caps = None \<longleftrightarrow>
     (\<exists>c supported. find_contract reg runtime = Some c \<and>
        lookup (rc_modality_capabilities c) modality = Some supported \<and>
        set caps \<subseteq> set supported)"
  by (auto simp: validate_contract_def split: option.split simp flip: first_unsupported_None_iff)

lemma find_register_runtime [simp]:
  "find_contract (register_runtime c reg) n =
     (if n = rc_name c then Some c else find_contract reg n)"
  by (simp add: find_contract_def register_runtime_def)

lemma validate_decode_dll_None:
  "validate_decode_dll artifacts = None \<longleftrightarrow>
     (lookup artifacts ''decode_dll'' = None \<and> lookup artifacts ''decode_dll_sha256'' = None) \<or>
     (\<exists>dll digest. lookup artifacts ''decode_dll'' = Some dll \<and>
        lookup artifacts ''decode_dll_sha256'' = Some digest \<and>
        prefill_selection artifacts = ''r4d_int4'' \<and> dll \<noteq> [] \<and>
        length digest = 64 \<and> is_hex digest)"
  by (auto simp: validate_decode_dll_def split: option.splits)

end
