(* ===== verification/Model_Registry.thy ===== *)
theory Model_Registry
  imports Runtime_Contract
begin

text \<open>
  \<^verbatim>\<open>libs/model/src/model_registry.cpp\<close>: the table of concrete models, the stable aliases that
  point at them and the runtime factories. The class guards every operation with one mutex, so
  each operation is one step on the \<^verbatim>\<open>registry\<close> record. A factory is code outside the registry:
  the type variable stands for the backends it makes.
\<close>

section \<open>State\<close>

record model_alias =
  al_name :: string
  al_target :: string
  al_required_context_size :: int
  al_required_capabilities :: "string list"

type_synonym 'b backend_factory = "model_info \<Rightarrow> 'b unique_ptr"

record 'b registry =
  factories :: "'b backend_factory strmap"
  entries :: "model_info strmap"
  aliases_of :: "model_alias strmap"

definition empty_registry :: "'b registry" where
  "empty_registry = \<lparr>factories = [], entries = [], aliases_of = []\<rparr>"

section \<open>Operations\<close>

text \<open>An empty \<^verbatim>\<open>std::function\<close> is \<open>None\<close>.\<close>

definition register_factory ::
  "string \<Rightarrow> 'b backend_factory option \<Rightarrow> 'b registry \<Rightarrow> 'b registry throws" where
  "register_factory runtime factory reg =
     (case factory of
        None \<Rightarrow> Inl ''ModelRegistry::register_factory: runtime or factory is empty''
      | Some f \<Rightarrow>
          (if runtime = [] then Inl ''ModelRegistry::register_factory: runtime or factory is empty''
           else Inr (reg\<lparr>factories := AList.update runtime f (factories reg)\<rparr>)))"

definition set_factory :: "'b backend_factory option \<Rightarrow> 'b registry \<Rightarrow> 'b registry throws" where
  "set_factory factory reg = register_factory ''llama_cpp'' factory reg"

definition has_factory :: "'b registry \<Rightarrow> string \<Rightarrow> bool" where
  "has_factory reg runtime = has_key (factories reg) runtime"

definition register_model :: "model_info \<Rightarrow> 'b registry \<Rightarrow> 'b registry throws" where
  "register_model raw reg =
     (let info = normalize_model_resources raw;
          prefix = ''ModelRegistry::register_model: ''
      in case validate_runtime_artifacts (mi_runtime info) (mi_artifacts info) of
           Some e \<Rightarrow> Inl (prefix @ mi_name info @ '': '' @ e)
         | None \<Rightarrow>
             (case validate_model_resources info of
                Some e \<Rightarrow> Inl (prefix @ mi_name info @ '': '' @ e)
              | None \<Rightarrow>
                  (if mi_name info = [] then Inl (prefix @ ''name is empty'')
                   else if has_key (aliases_of reg) (mi_name info)
                     then Inl (prefix @ ''name conflicts with alias: '' @ mi_name info)
                   else Inr (reg\<lparr>entries := AList.update (mi_name info) info (entries reg)\<rparr>))))"

fun targeting_alias :: "string \<Rightarrow> model_alias strmap \<Rightarrow> string option" where
  "targeting_alias name [] = None"
| "targeting_alias name ((k, a) # as) =
     (if al_target a = name then Some k else targeting_alias name as)"

definition unregister_model :: "string \<Rightarrow> 'b registry \<Rightarrow> 'b registry throws" where
  "unregister_model name reg =
     (case targeting_alias name (aliases_of reg) of
        Some alias \<Rightarrow> Inl (''model is targeted by alias: '' @ alias)
      | None \<Rightarrow> Inr (reg\<lparr>entries := AList.delete name (entries reg)\<rparr>))"

definition has_model :: "'b registry \<Rightarrow> string \<Rightarrow> bool" where
  "has_model reg name = has_key (entries reg) name"

definition get_info :: "'b registry \<Rightarrow> string \<Rightarrow> model_info throws" where
  "get_info reg name =
     (case lookup (entries reg) name of
        None \<Rightarrow> Inl (''ModelRegistry::get_info: not found: '' @ name)
      | Some info \<Rightarrow> Inr info)"

definition get_info_result :: "'b registry \<Rightarrow> string \<Rightarrow> model_info result" where
  "get_info_result reg name =
     (case lookup (entries reg) name of
        None \<Rightarrow> Err NotFound (''model not registered: '' @ name)
      | Some info \<Rightarrow> Ok info)"

definition list_models :: "'b registry \<Rightarrow> string list" where
  "list_models reg = sort (map fst (entries reg))"

definition registry_size :: "'b registry \<Rightarrow> nat" where
  "registry_size reg = length (entries reg)"

definition alias_char :: "char \<Rightarrow> bool" where
  "alias_char c = (char_isalnum c \<or> c = CHR ''-'' \<or> c = CHR ''_'' \<or> c = CHR ''.'')"

definition alias_contract_valid :: "model_alias \<Rightarrow> bool" where
  "alias_contract_valid a =
     (length (al_name a) \<le> 128 \<and> list_all alias_char (al_name a) \<and>
      0 \<le> al_required_context_size a \<and> [] \<notin> set (al_required_capabilities a))"

text \<open>A new alias takes its contract from the target; an existing one keeps its own.\<close>

definition alias_contract :: "model_alias \<Rightarrow> model_info \<Rightarrow> model_alias option \<Rightarrow> model_alias" where
  "alias_contract a target existing =
     (case existing of
        None \<Rightarrow>
          a\<lparr>al_required_context_size :=
               (if al_required_context_size a \<le> 0 then mi_context_size target
                else al_required_context_size a),
            al_required_capabilities :=
               (if al_required_capabilities a = [] then mi_capabilities target
                else al_required_capabilities a)\<rparr>
      | Some old \<Rightarrow>
          a\<lparr>al_required_context_size := al_required_context_size old,
            al_required_capabilities := al_required_capabilities old\<rparr>)"

definition alias_mismatches :: "model_alias \<Rightarrow> model_info \<Rightarrow> string list" where
  "alias_mismatches a target =
     (if mi_context_size target < al_required_context_size a
      then [''context_size requires at least '' @ string_of_int (al_required_context_size a)]
      else [])
     @ map (\<lambda>c. ''missing capability '' @ c)
         (filter (\<lambda>c. \<not> supports target c) (al_required_capabilities a))"

fun join_comma :: "string list \<Rightarrow> string" where
  "join_comma [] = []"
| "join_comma [x] = x"
| "join_comma (x # xs) = x @ '', '' @ join_comma xs"

definition set_alias :: "model_alias \<Rightarrow> 'b registry \<Rightarrow> model_alias result \<times> 'b registry" where
  "set_alias a reg =
     (if al_name a = [] \<or> al_target a = []
        then (Err InvalidArgument ''alias name and target are required'', reg)
      else if \<not> alias_contract_valid a
        then (Err InvalidArgument ''alias contract is invalid'', reg)
      else if al_name a = al_target a \<or> has_key (entries reg) (al_name a)
        then (Err AlreadyExists ''alias conflicts with a concrete model ID'', reg)
      else case lookup (entries reg) (al_target a) of
             None \<Rightarrow>
               (Err InvalidArgument
                  (if has_key (aliases_of reg) (al_target a)
                   then ''aliases cannot target other aliases''
                   else ''alias target is not a registered concrete model''), reg)
           | Some target \<Rightarrow>
               (let b = alias_contract a target (lookup (aliases_of reg) (al_name a));
                    mismatches = alias_mismatches b target
                in if mismatches \<noteq> []
                     then (Err InvalidArgument
                             (''incompatible alias target: '' @ join_comma mismatches), reg)
                   else (Ok b, reg\<lparr>aliases_of := AList.update (al_name b) b (aliases_of reg)\<rparr>)))"

definition remove_alias :: "string \<Rightarrow> 'b registry \<Rightarrow> unit result \<times> 'b registry" where
  "remove_alias name reg =
     (if has_key (aliases_of reg) name
      then (Ok (), reg\<lparr>aliases_of := AList.delete name (aliases_of reg)\<rparr>)
      else (Err NotFound (''model alias not found: '' @ name), reg))"

definition resolve :: "'b registry \<Rightarrow> string \<Rightarrow> string result" where
  "resolve reg name =
     (if has_key (entries reg) name then Ok name
      else case lookup (aliases_of reg) name of
             Some a \<Rightarrow>
               (if has_key (entries reg) (al_target a) then Ok (al_target a)
                else Err NotFound (''model not registered: '' @ name))
           | None \<Rightarrow> Err NotFound (''model not registered: '' @ name))"

definition list_aliases :: "'b registry \<Rightarrow> model_alias list" where
  "list_aliases reg = sort_key al_name (map snd (aliases_of reg))"

definition has_alias :: "'b registry \<Rightarrow> string \<Rightarrow> bool" where
  "has_alias reg name = has_key (aliases_of reg) name"

definition create_result :: "'b registry \<Rightarrow> string \<Rightarrow> 'b result" where
  "create_result reg name =
     (case lookup (entries reg) name of
        None \<Rightarrow> Err NotFound (''model not registered: '' @ name)
      | Some info \<Rightarrow>
          (case lookup (factories reg) (mi_runtime info) of
             None \<Rightarrow> Err Unavailable (''runtime not registered: '' @ mi_runtime info)
           | Some factory \<Rightarrow>
               (case factory info of
                  None \<Rightarrow> Err Internal (''runtime factory returned no backend: '' @ mi_runtime info)
                | Some b \<Rightarrow> Ok b)))"

definition create_backend :: "'b registry \<Rightarrow> string \<Rightarrow> 'b unique_ptr" where
  "create_backend reg name = (case create_result reg name of Inl _ \<Rightarrow> None | Inr b \<Rightarrow> Some b)"

section \<open>Invariant\<close>

text \<open>An entry as registration leaves it.\<close>

definition entry_ok :: "string \<Rightarrow> model_info \<Rightarrow> bool" where
  "entry_ok n info =
     (mi_name info = n \<and> n \<noteq> [] \<and> validate_model_resources info = None \<and>
      validate_runtime_artifacts (mi_runtime info) (mi_artifacts info) = None)"

text \<open>An alias is named like no concrete model and points directly at one.\<close>

definition alias_ok :: "'b registry \<Rightarrow> string \<Rightarrow> model_alias \<Rightarrow> bool" where
  "alias_ok reg n a =
     (al_name a = n \<and> n \<noteq> [] \<and> length n \<le> 128 \<and> list_all alias_char n \<and>
      lookup (entries reg) n = None \<and> has_key (entries reg) (al_target a))"

definition registry_inv :: "'b registry \<Rightarrow> bool" where
  "registry_inv reg =
     (keys_distinct (factories reg) \<and> keys_distinct (entries reg) \<and>
      keys_distinct (aliases_of reg) \<and>
      (\<forall>n info. lookup (entries reg) n = Some info \<longrightarrow> entry_ok n info) \<and>
      (\<forall>n a. lookup (aliases_of reg) n = Some a \<longrightarrow> alias_ok reg n a))"

section \<open>Facts\<close>

lemma targeting_alias_None_iff:
  "targeting_alias n as = None \<longleftrightarrow> (\<forall>(k, a) \<in> set as. al_target a \<noteq> n)"
  by (induction n as rule: targeting_alias.induct) auto

lemma alias_ok_frame [simp]:
  "alias_ok (reg\<lparr>factories := fs\<rparr>) n a = alias_ok reg n a"
  "alias_ok (reg\<lparr>aliases_of := as\<rparr>) n a = alias_ok reg n a"
  by (simp_all add: alias_ok_def)

lemma registry_inv_empty: "registry_inv empty_registry"
  by (simp add: registry_inv_def empty_registry_def)

lemma register_factory_inv:
  "registry_inv reg \<Longrightarrow> register_factory r f reg = Inr reg' \<Longrightarrow> registry_inv reg'"
  by (auto simp: register_factory_def registry_inv_def split: option.splits if_splits)

lemma register_model_Inr:
  assumes "register_model raw reg = Inr reg'"
  defines "info \<equiv> normalize_model_resources raw"
  shows "entry_ok (mi_name raw) info" "lookup (aliases_of reg) (mi_name raw) = None"
    "reg' = reg\<lparr>entries := AList.update (mi_name raw) info (entries reg)\<rparr>"
  using assms
  by (auto simp: register_model_def entry_ok_def Let_def split: option.splits if_splits)

lemma register_model_inv:
  assumes inv: "registry_inv reg" and reg': "register_model raw reg = Inr reg'"
  shows "registry_inv reg'"
  using inv register_model_Inr [OF reg']
  by (auto simp: registry_inv_def alias_ok_def split: if_splits)

lemma unregister_model_inv:
  assumes inv: "registry_inv reg" and reg': "unregister_model n reg = Inr reg'"
  shows "registry_inv reg'"
proof -
  have eq: "reg' = reg\<lparr>entries := AList.delete n (entries reg)\<rparr>"
    and untargeted: "\<forall>(k, a) \<in> set (aliases_of reg). al_target a \<noteq> n"
    using reg' by (auto simp: unregister_model_def targeting_alias_None_iff split: option.splits)
  have "al_target a \<noteq> n" if "lookup (aliases_of reg) k = Some a" for k a
    using untargeted that by (auto dest: map_of_SomeD)
  with inv eq show ?thesis
    by (auto simp: registry_inv_def alias_ok_def split: if_splits)
qed

lemma set_alias_Ok:
  assumes "set_alias a reg = (Ok b, reg')"
  shows "al_name b = al_name a" "al_target b = al_target a"
    "lookup (entries reg) (al_name a) = None"
    "\<exists>target. lookup (entries reg) (al_target a) = Some target \<and>
       b = alias_contract a target (lookup (aliases_of reg) (al_name a)) \<and>
       al_required_context_size b \<le> mi_context_size target \<and>
       (\<forall>c \<in> set (al_required_capabilities b). supports target c)"
    "al_name a \<noteq> []" "alias_contract_valid a"
    "reg' = reg\<lparr>aliases_of := AList.update (al_name a) b (aliases_of reg)\<rparr>"
  using assms
  by (auto simp: set_alias_def alias_contract_def alias_mismatches_def Let_def filter_empty_conv
      split: option.splits if_splits)

lemma set_alias_inv:
  assumes "registry_inv reg" "set_alias a reg = (r, reg')"
  shows "registry_inv reg'"
proof (cases r)
  case (Inl e)
  with assms show ?thesis
    by (auto simp: set_alias_def Let_def split: option.splits if_splits)
next
  case (Inr b)
  note ok = set_alias_Ok [OF assms(2) [unfolded Inr]]
  then have "alias_ok reg' (al_name a) b"
    by (auto simp: alias_ok_def alias_contract_valid_def)
  with assms(1) ok show ?thesis
    by (auto simp: registry_inv_def alias_ok_def split: if_splits)
qed

lemma remove_alias_inv:
  "registry_inv reg \<Longrightarrow> remove_alias n reg = (r, reg') \<Longrightarrow> registry_inv reg'"
  by (auto simp: remove_alias_def registry_inv_def split: if_splits)

lemma create_result_Ok_iff:
  "create_result reg n = Ok b \<longleftrightarrow>
     (\<exists>info f. lookup (entries reg) n = Some info \<and>
        lookup (factories reg) (mi_runtime info) = Some f \<and> f info = Some b)"
  by (auto simp: create_result_def split: option.splits)

end
