(* ===== verification/Backend.thy ===== *)
theory Backend
  imports Model_Info
begin

text \<open>
  The backend interface of \<^verbatim>\<open>libs/model/include/model/ibackend.hpp\<close> as a table of operations (one
  field per virtual method), its default methods, the slot pool of
  \<^verbatim>\<open>libs/model/include/model/fixed_backend.hpp\<close> that every native media runtime inherits, and the
  whisper runtime built on it (\<^verbatim>\<open>libs/native_runtimes/src/whisper_backend.cpp\<close>). The locale
  \<open>backend_contract\<close> states what the coordinator relies on; it is interpreted on the whisper
  runtime here and on the llama.cpp runtime in \<open>Llama_Contract\<close>.
\<close>

section \<open>Lifecycle control\<close>

text \<open>
  The cancellation callback is a function of the instant it is called and of the coordinator's
  \<^verbatim>\<open>swap_cancel_\<close> flag at that instant (the only shared variable such a callback reads).
\<close>

record lifecycle_control =
  lc_deadline :: time_point
  lc_cancelled :: "(bool \<Rightarrow> time_point \<Rightarrow> bool) option"

definition default_control :: lifecycle_control where
  "default_control = \<lparr>lc_deadline = time_point_max, lc_cancelled = None\<rparr>"

definition is_cancelled :: "lifecycle_control \<Rightarrow> bool \<Rightarrow> time_point \<Rightarrow> bool" where
  "is_cancelled ctl flag now = (case lc_cancelled ctl of None \<Rightarrow> False | Some f \<Rightarrow> f flag now)"

definition is_expired :: "lifecycle_control \<Rightarrow> time_point \<Rightarrow> bool" where
  "is_expired ctl now = (lc_deadline ctl \<le> now)"

text \<open>What a backend call sees of its control when it is entered and before it returns.\<close>

record control_view =
  cv_cancelled_in :: bool
  cv_expired_in :: bool
  cv_cancelled_out :: bool
  cv_expired_out :: bool

section \<open>Request demand\<close>

record request_demand =
  prompt_positions :: int
  output_tokens :: int
  required_context :: int
  required_sequences :: int
  aggregate_context :: int
  aggregate_sequences :: int

section \<open>The interface\<close>

datatype backend_interface =
    IModel | IEmbeddingBackend | IImageBackend | IAudioGenerationBackend | IVideoBackend
  | ISpeechBackend | ITranscriptionBackend

text \<open>
  A call on a backend returns the result and the backend's next state. \<open>bk_implements\<close> is the
  outcome of the \<^verbatim>\<open>dynamic_cast\<close> to a modality interface.
\<close>

record 'b ibackend =
  bk_info :: "'b \<Rightarrow> model_info"
  bk_implements :: "backend_interface \<Rightarrow> 'b \<Rightarrow> bool"
  bk_load :: "control_view \<Rightarrow> 'b \<Rightarrow> unit result \<times> 'b"
  bk_unload :: "control_view \<Rightarrow> 'b \<Rightarrow> unit result \<times> 'b"
  bk_is_loaded :: "'b \<Rightarrow> bool"
  bk_execution_healthy :: "'b \<Rightarrow> bool"
  bk_vram_usage_mb :: "'b \<Rightarrow> int"
  bk_n_slots :: "'b \<Rightarrow> int"
  bk_n_free_slots :: "'b \<Rightarrow> int"
  bk_context_pool_capacity :: "'b \<Rightarrow> int"
  bk_min_slots :: "'b \<Rightarrow> int"
  bk_can_resize_slots :: "'b \<Rightarrow> bool"
  bk_can_reclaim_idle_context :: "'b \<Rightarrow> bool"
  bk_reclaim_idle_context :: "int \<Rightarrow> control_view \<Rightarrow> 'b \<Rightarrow> bool result call \<times> 'b"
  bk_estimate_vram_mb :: "int \<Rightarrow> 'b \<Rightarrow> int"
  bk_additional_vram_reserve_mb :: "'b \<Rightarrow> int"
  bk_live_vram_accounting_complete :: "'b \<Rightarrow> bool"
  bk_resize_slots :: "int \<Rightarrow> control_view \<Rightarrow> 'b \<Rightarrow> unit result \<times> 'b"
  bk_acquire_slot :: "'b \<Rightarrow> int result \<times> 'b"
  bk_release_slot :: "int \<Rightarrow> 'b \<Rightarrow> unit result \<times> 'b"
  bk_slot_busy :: "int \<Rightarrow> 'b \<Rightarrow> bool"
  bk_ensure_request_capacity :: "request_demand \<Rightarrow> control_view \<Rightarrow> 'b \<Rightarrow> unit result call \<times> 'b"

text \<open>The default methods of \<^verbatim>\<open>IBackend\<close> that take a control.\<close>

definition ibackend_load ::
  "('b \<Rightarrow> unit result \<times> 'b) \<Rightarrow> ('b \<Rightarrow> unit result \<times> 'b) \<Rightarrow> control_view \<Rightarrow> 'b \<Rightarrow>
     unit result \<times> 'b" where
  "ibackend_load do_load do_unload cv b =
     (if cv_cancelled_in cv then (Err Cancelled ''backend load cancelled'', b)
      else if cv_expired_in cv then (Err Timeout ''backend load deadline expired'', b)
      else let (r, b1) = do_load b in
        if \<not> is_ok r then (r, b1)
        else if cv_cancelled_out cv
          then (Err Cancelled ''backend load cancelled'', snd (do_unload b1))
        else if cv_expired_out cv
          then (Err Timeout ''backend load deadline expired'', snd (do_unload b1))
        else (r, b1))"

definition ibackend_unload ::
  "('b \<Rightarrow> unit result \<times> 'b) \<Rightarrow> control_view \<Rightarrow> 'b \<Rightarrow> unit result \<times> 'b" where
  "ibackend_unload do_unload cv b =
     (if cv_cancelled_in cv then (Err Cancelled ''backend unload cancelled'', b)
      else if cv_expired_in cv then (Err Timeout ''backend unload deadline expired'', b)
      else do_unload b)"

definition ibackend_resize ::
  "(int \<Rightarrow> 'b \<Rightarrow> unit result \<times> 'b) \<Rightarrow> int \<Rightarrow> control_view \<Rightarrow> 'b \<Rightarrow> unit result \<times> 'b" where
  "ibackend_resize do_resize slots cv b =
     (if cv_cancelled_in cv then (Err Cancelled ''backend resize cancelled'', b)
      else if cv_expired_in cv then (Err Timeout ''backend resize deadline expired'', b)
      else do_resize slots b)"

definition ibackend_resize_slots :: "int \<Rightarrow> 'b \<Rightarrow> unit result \<times> 'b" where
  "ibackend_resize_slots slots b = (Err Unavailable ''backend capacity is fixed'', b)"

section \<open>FixedBackend: the slot pool\<close>

record fixed_backend =
  fb_info :: model_info
  fb_loaded :: bool
  fb_slots :: "bool list"

fun first_free :: "bool list \<Rightarrow> nat \<Rightarrow> nat option" where
  "first_free [] i = None"
| "first_free (busy # rest) i = (if \<not> busy then Some i else first_free rest (Suc i))"

definition fb_set_loaded :: "bool \<Rightarrow> 'a fixed_backend_scheme \<Rightarrow> 'a fixed_backend_scheme" where
  "fb_set_loaded loaded b =
     b\<lparr>fb_loaded := loaded,
       fb_slots := (if loaded then fb_slots b else replicate (length (fb_slots b)) False)\<rparr>"

definition fb_vram_usage_mb :: "'a fixed_backend_scheme \<Rightarrow> int" where
  "fb_vram_usage_mb b = (if fb_loaded b then mi_vram_required_mb (fb_info b) else 0)"

definition fb_n_slots :: "'a fixed_backend_scheme \<Rightarrow> int" where
  "fb_n_slots b = int (length (fb_slots b))"

definition fb_n_free_slots :: "'a fixed_backend_scheme \<Rightarrow> int" where
  "fb_n_free_slots b = int (count_list (fb_slots b) False)"

definition fb_acquire_slot :: "'a fixed_backend_scheme \<Rightarrow> int result \<times> 'a fixed_backend_scheme"
  where
  "fb_acquire_slot b =
     (if \<not> fb_loaded b then (Err NotLoaded ''backend is not loaded'', b)
      else case first_free (fb_slots b) 0 of
             None \<Rightarrow> (Err Unavailable ''no free slots'', b)
           | Some i \<Rightarrow> (Ok (int i), b\<lparr>fb_slots := (fb_slots b)[i := True]\<rparr>))"

definition fb_release_slot ::
  "int \<Rightarrow> 'a fixed_backend_scheme \<Rightarrow> unit result \<times> 'a fixed_backend_scheme" where
  "fb_release_slot slot b =
     (if slot < 0 \<or> length (fb_slots b) \<le> nat slot then (Err InvalidArgument ''invalid slot'', b)
      else (Ok (), b\<lparr>fb_slots := (fb_slots b)[nat slot := False]\<rparr>))"

definition fb_slot_busy :: "int \<Rightarrow> 'a fixed_backend_scheme \<Rightarrow> bool" where
  "fb_slot_busy slot b = (0 \<le> slot \<and> nat slot < length (fb_slots b) \<and> fb_slots b ! nat slot)"

section \<open>WhisperBackend\<close>

text \<open>
  The file system, the hardware and the whisper.cpp library are outside the repository: whether
  a path is a regular file, the hardware concurrency, and whether
  \<^verbatim>\<open>whisper_init_from_file_with_params\<close> returns a context for a path and a GPU flag.
\<close>

record whisper_env =
  we_is_regular_file :: "string \<Rightarrow> bool"
  we_hardware_concurrency :: nat
  we_init_context :: "string \<Rightarrow> bool \<Rightarrow> bool"

record whisper_backend = fixed_backend +
  wb_model_path :: string
  wb_provider :: string
  wb_context :: bool
  wb_n_threads :: int

definition transcription_info :: "model_info \<Rightarrow> model_info" where
  "transcription_info info =
     info\<lparr>mi_runtime := ''whisper_cpp'', mi_modality := ''audio_transcription'',
          mi_capabilities := [''audio_transcription''], mi_n_slots := 1, mi_min_slots := 1\<rparr>"

definition artifact :: "model_info \<Rightarrow> string \<Rightarrow> string" where
  "artifact info key = (case lookup (mi_artifacts info) key of None \<Rightarrow> [] | Some v \<Rightarrow> v)"

definition thread_count :: "whisper_env \<Rightarrow> model_info \<Rightarrow> int result" where
  "thread_count env info =
     (let configured = artifact info ''num_threads'';
          invalid = Err InvalidArgument
            ''whisper.cpp num_threads must be an integer between 1 and 64''
      in if configured = [] then Ok (int (min 4 (max 1 (we_hardware_concurrency env))))
         else case from_chars_int configured of
                None \<Rightarrow> invalid
              | Some (v, rest) \<Rightarrow> if rest \<noteq> [] \<or> v < 1 \<or> 64 < v then invalid else Ok v)"

definition make_whisper_backend :: "model_info \<Rightarrow> whisper_backend" where
  "make_whisper_backend raw =
     (let info = transcription_info raw
      in \<lparr>fb_info = info, fb_loaded = False, fb_slots = replicate (nat (mi_n_slots info)) False,
          wb_model_path = (case lookup (mi_artifacts info) ''model'' of
                             None \<Rightarrow> mi_gguf_path info | Some p \<Rightarrow> p),
          wb_provider = (if artifact info ''provider'' = [] then ''cpu''
                         else artifact info ''provider''),
          wb_context = False, wb_n_threads = 1\<rparr>)"

definition whisper_open_context :: "whisper_env \<Rightarrow> whisper_backend \<Rightarrow> bool" where
  "whisper_open_context env b =
     (let gpu = (wb_provider b \<noteq> ''cpu'')
      in we_init_context env (wb_model_path b) gpu \<or>
         (wb_provider b = ''auto'' \<and> we_init_context env (wb_model_path b) False))"

definition whisper_load :: "whisper_env \<Rightarrow> whisper_backend \<Rightarrow> unit result \<times> whisper_backend" where
  "whisper_load env b0 =
     (let b = (fb_set_loaded False b0)\<lparr>wb_context := False\<rparr>
      in if wb_model_path b = []
           then (Err InvalidArgument ''whisper.cpp model artifact is missing'', b)
         else if wb_provider b \<notin> {''cpu'', ''gpu'', ''auto''}
           then (Err InvalidArgument ''whisper.cpp provider must be cpu, gpu, or auto'', b)
         else if wb_provider b \<noteq> ''cpu'' \<and> mi_vram_required_mb (fb_info b) \<le> 0
           then (Err InvalidArgument
                   ''whisper.cpp GPU providers require positive VRAM accounting'', b)
         else if \<not> we_is_regular_file env (wb_model_path b)
           then (Err NotFound
                   (''whisper.cpp model artifact was not found: '' @ wb_model_path b), b)
         else case thread_count env (fb_info b) of
                Inl e \<Rightarrow> (Err (err_code e) (err_message e), b)
              | Inr n \<Rightarrow>
                  (let c = b\<lparr>wb_n_threads := n\<rparr>
                   in if \<not> whisper_open_context env c
                        then (Err Unavailable ''whisper.cpp failed to load model'', c)
                      else (Ok (), fb_set_loaded True (c\<lparr>wb_context := True\<rparr>))))"

definition whisper_unload :: "whisper_backend \<Rightarrow> unit result \<times> whisper_backend" where
  "whisper_unload b = (Ok (), (fb_set_loaded False b)\<lparr>wb_context := False\<rparr>)"

definition whisper_vt :: "whisper_env \<Rightarrow> whisper_backend ibackend" where
  "whisper_vt env =
     \<lparr>bk_info = fb_info,
      bk_implements = (\<lambda>i b. i = ITranscriptionBackend),
      bk_load = ibackend_load (whisper_load env) whisper_unload,
      bk_unload = ibackend_unload whisper_unload,
      bk_is_loaded = fb_loaded,
      bk_execution_healthy = (\<lambda>b. True),
      bk_vram_usage_mb = fb_vram_usage_mb,
      bk_n_slots = fb_n_slots,
      bk_n_free_slots = fb_n_free_slots,
      bk_context_pool_capacity = (\<lambda>b. 0),
      bk_min_slots = (\<lambda>b. mi_min_slots (fb_info b)),
      bk_can_resize_slots = (\<lambda>b. False),
      bk_can_reclaim_idle_context = (\<lambda>b. False),
      bk_reclaim_idle_context = (\<lambda>reserve cv b. (Returned (Ok False), b)),
      bk_estimate_vram_mb = (\<lambda>slots b. fb_vram_usage_mb b),
      bk_additional_vram_reserve_mb = (\<lambda>b. 0),
      bk_live_vram_accounting_complete = (\<lambda>b. False),
      bk_resize_slots = ibackend_resize ibackend_resize_slots,
      bk_acquire_slot = fb_acquire_slot,
      bk_release_slot = fb_release_slot,
      bk_slot_busy = fb_slot_busy,
      bk_ensure_request_capacity = (\<lambda>demand cv b. (Returned (Ok ()), b))\<rparr>"

section \<open>The contract\<close>

text \<open>Two states of a backend with the same slots in use.\<close>

definition same_slots :: "'b ibackend \<Rightarrow> 'b \<Rightarrow> 'b \<Rightarrow> bool" where
  "same_slots vt b b' = (\<forall>s. bk_slot_busy vt s b' = bk_slot_busy vt s b)"

text \<open>Two states that agree on the metadata, on being loaded and on the number of slots.\<close>

definition same_identity :: "'b ibackend \<Rightarrow> 'b \<Rightarrow> 'b \<Rightarrow> bool" where
  "same_identity vt b b' =
     (bk_info vt b' = bk_info vt b \<and> bk_is_loaded vt b' = bk_is_loaded vt b \<and>
      bk_n_slots vt b' = bk_n_slots vt b)"

text \<open>Two metadata records that differ at most in the number of slots.\<close>

definition same_but_slots :: "model_info \<Rightarrow> model_info \<Rightarrow> bool" where
  "same_but_slots info info' = (info' = info\<lparr>mi_n_slots := mi_n_slots info'\<rparr>)"

lemma same_but_slots_refl [simp]: "same_but_slots info info"
  by (simp add: same_but_slots_def)

text \<open>
  What the coordinator relies on. The metadata of a backend never changes, save that resizing may
  change its number of slots. Acquiring hands out a slot that was free and marks only it; it
  succeeds on a loaded, healthy backend with a free slot. Releasing a slot in use succeeds and
  frees only it. Preparing capacity for a request does not touch the slots in use, and neither it
  nor reclaiming idle context loads or unloads; resizing may lose a loaded model but never loads
  one, and a load that reports success leaves the backend loaded.
\<close>

locale backend_contract =
  fixes vt :: "'b ibackend" and bok :: "'b \<Rightarrow> bool"
  assumes acquire_fresh:
      "bok b \<Longrightarrow> bk_acquire_slot vt b = (Inr s, b') \<Longrightarrow>
         \<not> bk_slot_busy vt s b \<and> bk_slot_busy vt s b' \<and>
         (\<forall>s'. s' \<noteq> s \<longrightarrow> bk_slot_busy vt s' b' = bk_slot_busy vt s' b)"
    and acquire_failed: "bok b \<Longrightarrow> bk_acquire_slot vt b = (Inl e, b') \<Longrightarrow> same_slots vt b b'"
    and acquire_identity: "bok b \<Longrightarrow> bk_acquire_slot vt b = (ra, b') \<Longrightarrow> same_identity vt b b' \<and> bok b'"
    and acquire_available:
      "bok b \<Longrightarrow> bk_is_loaded vt b \<Longrightarrow> bk_execution_healthy vt b \<Longrightarrow>
         0 < bk_n_free_slots vt b \<Longrightarrow> is_ok (fst (bk_acquire_slot vt b))"
    and release_busy:
      "bok b \<Longrightarrow> bk_slot_busy vt s b \<Longrightarrow> bk_release_slot vt s b = (r, b') \<Longrightarrow>
         is_ok r \<and> \<not> bk_slot_busy vt s b' \<and>
         (\<forall>s'. s' \<noteq> s \<longrightarrow> bk_slot_busy vt s' b' = bk_slot_busy vt s' b)"
    and release_identity:
      "bok b \<Longrightarrow> bk_release_slot vt s b = (r, b') \<Longrightarrow> same_identity vt b b' \<and> bok b'"
    and busy_range: "bok b \<Longrightarrow> bk_slot_busy vt s b \<Longrightarrow> 0 \<le> s \<and> s < bk_n_slots vt b"
    and load_outcome:
      "bok b \<Longrightarrow> bk_load vt cv b = (r, b') \<Longrightarrow>
         bk_info vt b' = bk_info vt b \<and> bok b' \<and> (is_ok r \<longrightarrow> bk_is_loaded vt b')"
    and unload_outcome:
      "bok b \<Longrightarrow> bk_unload vt cv b = (r, b') \<Longrightarrow> bk_info vt b' = bk_info vt b \<and> bok b'"
    and resize_outcome:
      "bok b \<Longrightarrow> bk_resize_slots vt n cv b = (r, b') \<Longrightarrow>
         same_but_slots (bk_info vt b) (bk_info vt b') \<and> bok b' \<and>
         (bk_is_loaded vt b' \<longrightarrow> bk_is_loaded vt b)"
    and reclaim_outcome:
      "bok b \<Longrightarrow> bk_reclaim_idle_context vt need cv b = (rc, b') \<Longrightarrow>
         bk_info vt b' = bk_info vt b \<and> bok b' \<and> bk_is_loaded vt b' = bk_is_loaded vt b"
    and ensure_outcome:
      "bok b \<Longrightarrow> bk_ensure_request_capacity vt d cv b = (rr, b') \<Longrightarrow>
         bk_info vt b' = bk_info vt b \<and> bok b' \<and> bk_is_loaded vt b' = bk_is_loaded vt b \<and>
         same_slots vt b b'"
begin

lemma acquire_info: "bok b \<Longrightarrow> bk_acquire_slot vt b = (r, b') \<Longrightarrow> bk_info vt b' = bk_info vt b"
  using acquire_identity by (auto simp: same_identity_def)

lemma acquire_loaded:
  "bok b \<Longrightarrow> bk_acquire_slot vt b = (r, b') \<Longrightarrow> bk_is_loaded vt b' = bk_is_loaded vt b"
  using acquire_identity by (auto simp: same_identity_def)

lemma release_info: "bok b \<Longrightarrow> bk_release_slot vt s b = (r, b') \<Longrightarrow> bk_info vt b' = bk_info vt b"
  using release_identity by (auto simp: same_identity_def)

lemma release_loaded:
  "bok b \<Longrightarrow> bk_release_slot vt s b = (r, b') \<Longrightarrow> bk_is_loaded vt b' = bk_is_loaded vt b"
  using release_identity by (auto simp: same_identity_def)

lemma acquire_keeps_busy:
  assumes "bok b" "bk_acquire_slot vt b = (r, b')" "bk_slot_busy vt s b"
  shows "bk_slot_busy vt s b'"
proof (cases r)
  case (Inl e)
  with assms acquire_failed show ?thesis by (auto simp: same_slots_def)
next
  case (Inr s')
  with assms acquire_fresh show ?thesis by (cases "s = s'") auto
qed

text \<open>A slot acquired and released again leaves the slots as they were.\<close>

lemma acquire_release_same:
  assumes "bok b" "bk_acquire_slot vt b = (Inr s, b')"
  shows "is_ok (fst (bk_release_slot vt s b')) \<and> same_slots vt b (snd (bk_release_slot vt s b'))"
proof -
  have wf': "bok b'" using acquire_identity assms by blast
  note fresh = acquire_fresh [OF assms]
  obtain r b'' where r: "bk_release_slot vt s b' = (r, b'')" by fastforce
  have "is_ok r" "\<not> bk_slot_busy vt s b''"
    "\<And>s'. s' \<noteq> s \<Longrightarrow> bk_slot_busy vt s' b'' = bk_slot_busy vt s' b'"
    using release_busy [OF wf' _ r] fresh by blast+
  with fresh r show ?thesis by (auto simp: same_slots_def) metis+
qed

end

section \<open>Facts about the fixed slot pool\<close>

lemma first_free_Some:
  "first_free xs i = Some j \<Longrightarrow> i \<le> j \<and> j - i < length xs \<and> \<not> xs ! (j - i)"
proof (induction xs i rule: first_free.induct)
  case (2 busy rest i)
  show ?case
  proof (cases busy)
    case True
    with 2 have *: "Suc i \<le> j" "j - Suc i < length rest" "\<not> rest ! (j - Suc i)" by auto
    then have "j - i = Suc (j - Suc i)" by simp
    with * show ?thesis by simp
  next
    case False
    with 2 show ?thesis by simp
  qed
qed simp

lemma first_free_None_iff: "first_free xs i = None \<longleftrightarrow> False \<notin> set xs"
  by (induction xs i rule: first_free.induct) auto

lemma first_free_0: "first_free xs 0 = Some j \<Longrightarrow> j < length xs \<and> \<not> xs ! j"
  using first_free_Some by fastforce

lemma fb_acquire_Ok:
  assumes "fb_acquire_slot b = (Inr s, b')"
  shows "\<exists>i. s = int i \<and> i < length (fb_slots b) \<and> \<not> fb_slots b ! i \<and> fb_loaded b \<and>
     b' = b\<lparr>fb_slots := (fb_slots b)[i := True]\<rparr>"
  using assms by (auto simp: fb_acquire_slot_def dest: first_free_0 split: if_splits option.splits)

lemma count_list_set_True:
  "i < length xs \<Longrightarrow> \<not> xs ! i \<Longrightarrow> count_list xs False = Suc (count_list (xs[i := True]) False)"
  by (induction xs arbitrary: i) (auto simp: nth_Cons split: nat.splits)

lemma fb_acquire_fail: "fb_acquire_slot b = (Inl e, b') \<Longrightarrow> b' = b"
  by (auto simp: fb_acquire_slot_def Err_def split: if_splits option.splits)

lemma fb_release_busy:
  "fb_slot_busy s b \<Longrightarrow>
     fb_release_slot s b = (Inr (), b\<lparr>fb_slots := (fb_slots b)[nat s := False]\<rparr>)"
  by (auto simp: fb_slot_busy_def fb_release_slot_def)

lemma fb_free_available: "fb_loaded b \<Longrightarrow> 0 < fb_n_free_slots b \<Longrightarrow> is_ok (fst (fb_acquire_slot b))"
  using count_list_0_iff [of "fb_slots b" False]
  by (auto simp: fb_n_free_slots_def fb_acquire_slot_def first_free_None_iff
      split: option.splits)

lemma whisper_load_outcome:
  assumes "whisper_load env b = (r, b')"
  shows "fb_info b' = fb_info b" "is_ok r \<longleftrightarrow> fb_loaded b'"
    "length (fb_slots b') = length (fb_slots b)" "wb_context b' = fb_loaded b'"
  using assms
  by (auto simp: whisper_load_def fb_set_loaded_def Let_def Err_def split: if_splits sum.splits)

lemma whisper_unload_outcome:
  assumes "whisper_unload b = (r, b')"
  shows "fb_info b' = fb_info b" "r = Inr ()" "\<not> fb_loaded b'" "\<not> wb_context b'"
    "True \<notin> set (fb_slots b')"
  using assms by (auto simp: whisper_unload_def fb_set_loaded_def)

section \<open>Interpretation\<close>

text \<open>A whisper backend holds a native context exactly while it is loaded.\<close>

definition whisper_wf :: "whisper_backend \<Rightarrow> bool" where
  "whisper_wf b = (wb_context b = fb_loaded b)"

lemma whisper_ctl_load:
  assumes "ibackend_load (whisper_load env) whisper_unload cv b = (r, b')" "whisper_wf b"
  shows "fb_info b' = fb_info b \<and> whisper_wf b' \<and> (is_ok r \<longrightarrow> fb_loaded b')"
proof -
  obtain r1 b1 where l: "whisper_load env b = (r1, b1)" by fastforce
  note l1 = whisper_load_outcome [OF l]
  note u1 = whisper_unload_outcome [OF surjective_pairing [of "whisper_unload b1"]]
  show ?thesis using assms l l1 u1
    by (auto simp: ibackend_load_def whisper_wf_def Err_def split: if_splits)
qed

lemma whisper_ctl_unload:
  assumes "ibackend_unload whisper_unload cv b = (r, b')" "whisper_wf b"
  shows "fb_info b' = fb_info b \<and> whisper_wf b'"
  using assms whisper_unload_outcome [of b r b']
  by (auto simp: ibackend_unload_def whisper_wf_def split: if_splits)

lemmas whisper_vt_defs =
  whisper_vt_def same_slots_def same_identity_def fb_slot_busy_def fb_n_slots_def whisper_wf_def

interpretation whisper: backend_contract "whisper_vt env" whisper_wf for env
proof (unfold_locales, goal_cases)
  case (1 b s b')
  then show ?case by (auto simp: whisper_vt_defs nth_list_update dest!: fb_acquire_Ok)
next
  case (2 b e b')
  then show ?case by (auto simp: whisper_vt_defs dest: fb_acquire_fail)
next
  case (3 b r b')
  then show ?case
    by (cases r) (auto simp: whisper_vt_defs dest: fb_acquire_fail dest!: fb_acquire_Ok)
next
  case (4 b)
  then show ?case by (simp add: whisper_vt_def fb_free_available)
next
  case (5 b s r b')
  then have "fb_slot_busy s b" by (simp add: whisper_vt_def)
  with 5 show ?case
    by (auto simp: whisper_vt_defs fb_release_busy nth_list_update)
next
  case (6 b s r b')
  then show ?case by (auto simp: whisper_vt_defs fb_release_slot_def split: if_splits)
next
  case (7 b s)
  then show ?case by (auto simp: whisper_vt_defs)
next
  case (8 b cv r b')
  then show ?case using whisper_ctl_load [of env cv b r b'] by (simp add: whisper_vt_def)
next
  case (9 b cv r b')
  then show ?case using whisper_ctl_unload [of cv b r b'] by (simp add: whisper_vt_def)
next
  case (10 b n cv r b')
  then show ?case
    by (auto simp: whisper_vt_def ibackend_resize_def ibackend_resize_slots_def split: if_splits)
next
  case (11 b need cv rr b')
  then show ?case by (simp add: whisper_vt_def)
next
  case (12 b d cv rr b')
  then show ?case by (simp add: whisper_vt_def same_slots_def)
qed

end
