(* ===== verification/Coordinator.thy ===== *)
theory Coordinator
  imports Model_Registry Backend
begin

text \<open>
  The state of \<^verbatim>\<open>BackendCoordinator\<close> (\<^verbatim>\<open>libs/model/include/model/backend_coordinator.hpp\<close>) and the
  decisions it takes under its mutex: who may run (\<^verbatim>\<open>admission_pool_allows_locked\<close>,
  \<^verbatim>\<open>request_waits_for_priority_media_locked\<close>), who is next in the queue
  (\<^verbatim>\<open>waiter_is_next_locked\<close>), and the issue and return of slot leases
  (\<^verbatim>\<open>libs/model/src/backend_coordinator_queue.cpp\<close>).

  A function whose name ends in \<open>_locked\<close> is, as in the code, one critical section: it reads the
  clock once (the argument \<open>now\<close>). The mutex makes these sections atomic. \<^verbatim>\<open>cv_.notify_all()\<close> has
  no effect on the state: every waiting loop re-evaluates its condition when it wakes.
\<close>

section \<open>State\<close>

record slot_waiter =
  w_id :: nat
  w_model :: string
  w_priority :: int
  w_enqueued :: time_point
  w_deadline :: time_point
  w_reservation_key :: string
  w_preparing :: bool
  w_prepared :: bool
  w_retry_after_generation :: "nat option"
  w_resource_blocked :: bool
  w_demand_prepared :: bool
  w_capacity_prepared :: bool
  w_demand :: "request_demand option"
  w_max_aggregate_context :: int
  w_max_aggregate_sequences :: int

record active_lease =
  l_model :: string
  l_backend_slot :: int
  l_context_reservation :: int
  l_sequence_reservation :: int
  l_reservation_key :: string
  l_priority :: int
  l_continuation :: bool

record continuation_hold =
  h_key :: string
  h_priority :: int
  h_deadline :: time_point
  h_generation :: nat

record priority_session =
  s_model :: string
  s_deadline :: time_point
  s_token :: nat
  s_active_holds :: nat

record 'b coordinator =
  registry :: "'b registry"
  instances :: "'b unique_ptr strmap"
  current_loaded :: "string option"
  active_requests :: int
  active_requests_by_model :: "int strmap"
  active_leases :: "(int \<times> active_lease) list"
  continuation_holds :: "continuation_hold strmap"
  active_context_reservation_by_model :: "int strmap"
  active_sequence_reservation_by_model :: "int strmap"
  next_lease_id :: int
  draining_models :: "string set"
  resizing_models :: "string set"
  vram_budget_mb :: int
  vram_safety_margin_mb :: int
  observed_vram_used_mb :: int
  observed_vram_total_mb :: int
  observed_vram_at :: time_point
  last_resource_decision :: string
  waiters :: "slot_waiter list"
  next_waiter_id :: nat
  resource_generation :: nat
  max_queue_size :: nat
  priority_sessions :: "priority_session strmap"
  next_priority_session_token :: nat
  swap_in_progress :: bool
  swap_cancel :: bool

definition init_coordinator :: "'b registry \<Rightarrow> 'b coordinator" where
  "init_coordinator reg =
     \<lparr>registry = reg, instances = [], current_loaded = None, active_requests = 0,
      active_requests_by_model = [], active_leases = [], continuation_holds = [],
      active_context_reservation_by_model = [], active_sequence_reservation_by_model = [],
      next_lease_id = 1, draining_models = {}, resizing_models = {}, vram_budget_mb = 0,
      vram_safety_margin_mb = 1024, observed_vram_used_mb = 0, observed_vram_total_mb = 0,
      observed_vram_at = 0, last_resource_decision = [], waiters = [], next_waiter_id = 1,
      resource_generation = 0, max_queue_size = 128, priority_sessions = [],
      next_priority_session_token = 1, swap_in_progress = False, swap_cancel = False\<rparr>"

text \<open>The backend behind a name: absent when there is no entry or the pointer is null.\<close>

definition backend_ptr :: "'b coordinator \<Rightarrow> string \<Rightarrow> 'b option" where
  "backend_ptr c name = (case lookup (instances c) name of Some (Some b) \<Rightarrow> Some b | _ \<Rightarrow> None)"

text \<open>A call on a backend object mutates it in place, behind its pointer.\<close>

definition put_backend :: "string \<Rightarrow> 'b \<Rightarrow> 'b coordinator \<Rightarrow> 'b coordinator" where
  "put_backend name b c = c\<lparr>instances := AList.update name (Some b) (instances c)\<rparr>"

definition resident :: "'b ibackend \<Rightarrow> 'b coordinator \<Rightarrow> string \<Rightarrow> bool" where
  "resident vt c name = (case backend_ptr c name of None \<Rightarrow> False | Some b \<Rightarrow> bk_is_loaded vt b)"

definition healthy :: "'b ibackend \<Rightarrow> 'b coordinator \<Rightarrow> string \<Rightarrow> bool" where
  "healthy vt c name =
     (case backend_ptr c name of None \<Rightarrow> False
      | Some b \<Rightarrow> bk_is_loaded vt b \<and> bk_execution_healthy vt b)"

definition active_of :: "'b coordinator \<Rightarrow> string \<Rightarrow> int" where
  "active_of c name = get0 (active_requests_by_model c) name"

section \<open>Classification of models\<close>

definition find_info :: "'b ibackend \<Rightarrow> 'b coordinator \<Rightarrow> string \<Rightarrow> model_info option" where
  "find_info vt c name =
     (case backend_ptr c name of
        Some b \<Rightarrow> Some (bk_info vt b)
      | None \<Rightarrow> (case get_info_result (registry c) name of Inl _ \<Rightarrow> None | Inr info \<Rightarrow> Some info))"

definition model_is_primary_locked :: "'b ibackend \<Rightarrow> 'b coordinator \<Rightarrow> string \<Rightarrow> bool" where
  "model_is_primary_locked vt c name =
     (case find_info vt c name of None \<Rightarrow> False | Some info \<Rightarrow> is_primary_model info)"

definition model_is_priority_media_locked :: "'b ibackend \<Rightarrow> 'b coordinator \<Rightarrow> string \<Rightarrow> bool" where
  "model_is_priority_media_locked vt c name =
     (case find_info vt c name of None \<Rightarrow> False | Some info \<Rightarrow> is_priority_media_model info)"

definition model_is_independent_sidecar_locked ::
  "'b ibackend \<Rightarrow> 'b coordinator \<Rightarrow> string \<Rightarrow> bool" where
  "model_is_independent_sidecar_locked vt c name =
     (case find_info vt c name of None \<Rightarrow> False | Some info \<Rightarrow> is_independent_sidecar info)"

definition priority_media_active_locked :: "'b ibackend \<Rightarrow> 'b coordinator \<Rightarrow> bool" where
  "priority_media_active_locked vt c =
     list_ex (\<lambda>(name, active).
        0 < active \<and> (case backend_ptr c name of None \<Rightarrow> False
                      | Some b \<Rightarrow> is_priority_media_model (bk_info vt b)))
       (active_requests_by_model c)"

section \<open>Admission\<close>

definition pool_active :: "'b ibackend \<Rightarrow> 'b coordinator \<Rightarrow> string \<Rightarrow> int" where
  "pool_active vt c pool =
     (\<Sum>(name, count) \<leftarrow> active_requests_by_model c.
        if 0 < count \<and> map_option mi_admission_pool (find_info vt c name) = Some pool
        then count else 0)"

definition admission_pool_allows_locked :: "'b ibackend \<Rightarrow> 'b coordinator \<Rightarrow> string \<Rightarrow> bool" where
  "admission_pool_allows_locked vt c name =
     (case find_info vt c name of
        None \<Rightarrow> False
      | Some info \<Rightarrow>
          (if mi_concurrency_auto info
           then (case backend_ptr c name of
                   None \<Rightarrow> True
                 | Some b \<Rightarrow> \<not> bk_is_loaded vt b \<or> active_of c name < bk_n_slots vt b)
           else pool_active vt c (mi_admission_pool info) < mi_concurrency_limit info))"

text \<open>A priority session is live while it is held or before its deadline.\<close>

definition session_live :: "time_point \<Rightarrow> priority_session \<Rightarrow> bool" where
  "session_live now s = (\<not> (s_active_holds s = 0 \<and> s_deadline s \<le> now))"

definition request_waits_for_priority_media_locked ::
  "'b ibackend \<Rightarrow> time_point \<Rightarrow> 'b coordinator \<Rightarrow> string \<Rightarrow> string \<Rightarrow> bool" where
  "request_waits_for_priority_media_locked vt now c name key =
     (let primary = model_is_primary_locked vt c name;
          any_session = list_ex (\<lambda>(k, s). session_live now s) (priority_sessions c);
          matching_session =
            list_ex (\<lambda>(k, s). session_live now s \<and> k = key \<and> s_model s = name)
              (priority_sessions c)
      in if primary \<and> any_session \<and> \<not> matching_session then True
         else primary \<and>
           (priority_media_active_locked vt c \<or>
            list_ex (\<lambda>w. model_is_priority_media_locked vt c (w_model w)) (waiters c)))"

definition continuation_hold_valid_locked ::
  "'b ibackend \<Rightarrow> time_point \<Rightarrow> 'b coordinator \<Rightarrow> string \<Rightarrow> bool" where
  "continuation_hold_valid_locked vt now c name =
     (case lookup (continuation_holds c) name of
        None \<Rightarrow> False
      | Some h \<Rightarrow>
          (if h_deadline h \<le> now \<or> h_generation h \<noteq> resource_generation c \<or>
              name \<in> draining_models c \<or> name \<in> resizing_models c \<or>
              priority_media_active_locked vt c then False
           else (case backend_ptr c name of
                   None \<Rightarrow> False
                 | Some b \<Rightarrow>
                     bk_is_loaded vt b \<and> bk_execution_healthy vt b \<and> bk_n_slots vt b = 1 \<and>
                     mi_runtime (bk_info vt b) = ''vllm_radiance'' \<and>
                     0 < mi_continuation_grace_ms (bk_info vt b))))"

section \<open>Who is next\<close>

definition waiter_is_actionable_locked ::
  "'b ibackend \<Rightarrow> time_point \<Rightarrow> 'b coordinator \<Rightarrow> slot_waiter \<Rightarrow> bool" where
  "waiter_is_actionable_locked vt now c w =
     (if w_model w \<in> draining_models c \<or> w_model w \<in> resizing_models c \<or> w_preparing w \<or>
         w_retry_after_generation w = Some (resource_generation c) then False
      else if request_waits_for_priority_media_locked vt now c (w_model w) (w_reservation_key w)
        then False
      else if \<not> admission_pool_allows_locked vt c (w_model w) \<and> \<not> w_demand_prepared w then False
      else if \<not> healthy vt c (w_model w)
        then model_is_independent_sidecar_locked vt c (w_model w) \<or>
             \<not> list_ex (\<lambda>other. w_id other \<noteq> w_id w \<and>
                  (w_preparing other \<or>
                   (w_prepared other \<and>
                    \<not> request_waits_for_priority_media_locked vt now c
                         (w_model other) (w_reservation_key other))))
                (waiters c)
      else (case backend_ptr c (w_model w) of
              None \<Rightarrow> False
            | Some b \<Rightarrow> 0 < bk_n_free_slots vt b \<or> w_demand_prepared w))"

definition waiter_is_resource_barrier_locked ::
  "'b ibackend \<Rightarrow> 'b coordinator \<Rightarrow> slot_waiter \<Rightarrow> bool" where
  "waiter_is_resource_barrier_locked vt c w =
     (w_resource_blocked w \<and> \<not> model_is_independent_sidecar_locked vt c (w_model w))"

definition score_for :: "time_point \<Rightarrow> slot_waiter \<Rightarrow> int" where
  "score_for now w = w_priority w + count_seconds (now - w_enqueued w)"

text \<open>The selection loop: highest score first, the older ticket on equal scores.\<close>

definition better :: "time_point \<Rightarrow> slot_waiter \<Rightarrow> slot_waiter option \<Rightarrow> bool" where
  "better now w sel =
     (case sel of None \<Rightarrow> True
      | Some s \<Rightarrow> score_for now s < score_for now w \<or>
                  (score_for now w = score_for now s \<and> w_id w < w_id s))"

definition select_best :: "time_point \<Rightarrow> slot_waiter list \<Rightarrow> slot_waiter option" where
  "select_best now ws = fold (\<lambda>w sel. if better now w sel then Some w else sel) ws None"

definition resource_barrier_locked ::
  "'b ibackend \<Rightarrow> time_point \<Rightarrow> 'b coordinator \<Rightarrow> slot_waiter option" where
  "resource_barrier_locked vt now c =
     select_best now (filter (waiter_is_resource_barrier_locked vt c) (waiters c))"

definition waiter_is_candidate_locked ::
  "'b ibackend \<Rightarrow> time_point \<Rightarrow> 'b coordinator \<Rightarrow> slot_waiter \<Rightarrow> bool" where
  "waiter_is_candidate_locked vt now c w =
     (let has_prepared =
            list_ex (\<lambda>v. w_prepared v \<and> waiter_is_actionable_locked vt now c v) (waiters c);
          sidecar = model_is_independent_sidecar_locked vt c (w_model w)
      in waiter_is_actionable_locked vt now c w \<and>
         \<not> (has_prepared \<and> \<not> w_prepared w \<and> \<not> sidecar) \<and>
         (case resource_barrier_locked vt now c of
            None \<Rightarrow> True
          | Some barrier \<Rightarrow>
              \<not> (w_id w \<noteq> w_id barrier \<and> \<not> sidecar \<and> score_for now w < score_for now barrier)))"

definition selected_waiter_locked ::
  "'b ibackend \<Rightarrow> time_point \<Rightarrow> 'b coordinator \<Rightarrow> slot_waiter option" where
  "selected_waiter_locked vt now c =
     select_best now (filter (waiter_is_candidate_locked vt now c) (waiters c))"

definition oldest_ticket :: "slot_waiter list \<Rightarrow> slot_waiter option" where
  "oldest_ticket ws =
     fold (\<lambda>w sel. case sel of None \<Rightarrow> Some w
                    | Some s \<Rightarrow> if w_id w < w_id s then Some w else sel) ws None"

text \<open>
  The waiter that may proceed. A valid continuation hold on the selected model keeps the turn for
  the conversation that just released it, unless a waiter of higher priority is ready.
\<close>

definition next_waiter_locked ::
  "'b ibackend \<Rightarrow> time_point \<Rightarrow> 'b coordinator \<Rightarrow> slot_waiter option" where
  "next_waiter_locked vt now c =
     (case selected_waiter_locked vt now c of
        None \<Rightarrow> None
      | Some sel \<Rightarrow>
          (case lookup (continuation_holds c) (w_model sel) of
             None \<Rightarrow> Some sel
           | Some hold \<Rightarrow>
               if (case resource_barrier_locked vt now c of
                     None \<Rightarrow> True | Some barrier \<Rightarrow> w_model barrier = w_model sel) \<and>
                  \<not> model_is_independent_sidecar_locked vt c (w_model sel) \<and>
                  \<not> model_is_priority_media_locked vt c (w_model sel) \<and>
                  continuation_hold_valid_locked vt now c (w_model sel) \<and>
                  \<not> list_ex (\<lambda>w. h_priority hold < w_priority w \<and>
                                 waiter_is_actionable_locked vt now c w) (waiters c)
               then oldest_ticket
                      (filter (\<lambda>w. w_model w = w_model sel \<and> w_reservation_key w = h_key hold \<and>
                                   waiter_is_actionable_locked vt now c w) (waiters c))
               else Some sel))"

definition waiter_is_next_locked ::
  "'b ibackend \<Rightarrow> time_point \<Rightarrow> 'b coordinator \<Rightarrow> nat \<Rightarrow> bool" where
  "waiter_is_next_locked vt now c wid =
     (case next_waiter_locked vt now c of None \<Rightarrow> False | Some w \<Rightarrow> w_id w = wid)"

section \<open>Queue entries\<close>

definition find_waiter :: "'b coordinator \<Rightarrow> nat \<Rightarrow> slot_waiter option" where
  "find_waiter c wid = find (\<lambda>w. w_id w = wid) (waiters c)"

definition update_waiter ::
  "nat \<Rightarrow> (slot_waiter \<Rightarrow> slot_waiter) \<Rightarrow> 'b coordinator \<Rightarrow> 'b coordinator" where
  "update_waiter wid f c =
     c\<lparr>waiters := map (\<lambda>w. if w_id w = wid then f w else w) (waiters c)\<rparr>"

definition drop_hold :: "slot_waiter \<Rightarrow> continuation_hold strmap \<Rightarrow> continuation_hold strmap" where
  "drop_hold w holds =
     (case lookup holds (w_model w) of
        None \<Rightarrow> holds
      | Some h \<Rightarrow> if h_key h = w_reservation_key w then AList.delete (w_model w) holds else holds)"

definition erase_waiter_locked :: "nat \<Rightarrow> 'b coordinator \<Rightarrow> 'b coordinator" where
  "erase_waiter_locked wid c =
     c\<lparr>waiters := filter (\<lambda>w. w_id w \<noteq> wid) (waiters c),
       continuation_holds :=
         fold drop_hold (filter (\<lambda>w. w_id w = wid) (waiters c)) (continuation_holds c)\<rparr>"

section \<open>Leases\<close>

definition make_lease ::
  "'b ibackend \<Rightarrow> time_point \<Rightarrow> string \<Rightarrow> int \<Rightarrow> request_demand option \<Rightarrow> string \<Rightarrow> int \<Rightarrow>
     'b coordinator \<Rightarrow> active_lease" where
  "make_lease vt now name slot demand key priority c =
     \<lparr>l_model = name, l_backend_slot = slot,
      l_context_reservation = (case demand of None \<Rightarrow> 0 | Some d \<Rightarrow> max 0 (required_context d)),
      l_sequence_reservation = (case demand of None \<Rightarrow> 0 | Some d \<Rightarrow> max 0 (required_sequences d)),
      l_reservation_key = key, l_priority = clamp priority (-100) 100,
      l_continuation =
        (continuation_hold_valid_locked vt now c name \<and>
         (case lookup (continuation_holds c) name of None \<Rightarrow> False | Some h \<Rightarrow> h_key h = key))\<rparr>"

definition add_lease :: "active_lease \<Rightarrow> 'b coordinator \<Rightarrow> 'b coordinator" where
  "add_lease lease c =
     (let name = l_model lease in
      c\<lparr>next_lease_id := next_lease_id c + 1,
        continuation_holds := AList.delete name (continuation_holds c),
        active_leases := AList.update (next_lease_id c) lease (active_leases c),
        active_context_reservation_by_model :=
          add0 name (l_context_reservation lease) (active_context_reservation_by_model c),
        active_sequence_reservation_by_model :=
          add0 name (l_sequence_reservation lease) (active_sequence_reservation_by_model c),
        active_requests := active_requests c + 1,
        active_requests_by_model := add0 name 1 (active_requests_by_model c)\<rparr>)"

definition issue_lease_locked ::
  "'b ibackend \<Rightarrow> time_point \<Rightarrow> string \<Rightarrow> int \<Rightarrow> request_demand option \<Rightarrow> string \<Rightarrow> int \<Rightarrow>
     'b coordinator \<Rightarrow> int result \<times> 'b coordinator" where
  "issue_lease_locked vt now name slot demand key priority c =
     (if name \<in> draining_models c \<or> name \<in> resizing_models c \<or> \<not> healthy vt c name
        then (Err Unavailable (''model is not ready: '' @ name), c)
      else if \<not> admission_pool_allows_locked vt c name
        then (Err ResourceBusy (''admission pool concurrency limit reached: '' @ name), c)
      else if INT_MAX < next_lease_id c
        then (Err Internal ''slot lease id space exhausted'', c)
      else (Ok (next_lease_id c), add_lease (make_lease vt now name slot demand key priority c) c))"

definition backend_slot_for_lease_locked :: "'b coordinator \<Rightarrow> string \<Rightarrow> int \<Rightarrow> int result" where
  "backend_slot_for_lease_locked c name lease_id =
     (case lookup (active_leases c) lease_id of
        None \<Rightarrow> Err InvalidArgument ''invalid slot lease''
      | Some lease \<Rightarrow>
          if l_model lease \<noteq> name then Err InvalidArgument ''invalid slot lease''
          else Ok (l_backend_slot lease))"

text \<open>Acquiring a backend slot and leasing it; a slot that cannot be leased is handed back.\<close>

definition acquire_and_lease ::
  "'b ibackend \<Rightarrow> time_point \<Rightarrow> string \<Rightarrow> request_demand option \<Rightarrow> string \<Rightarrow> int \<Rightarrow>
     'b \<Rightarrow> 'b coordinator \<Rightarrow> int result \<times> bool \<times> 'b coordinator" where
  "acquire_and_lease vt now name demand key priority b c =
     (case bk_acquire_slot vt b of
        (Inl e, b1) \<Rightarrow> (Inl e, False, put_backend name b1 c)
      | (Inr slot, b1) \<Rightarrow>
          (case issue_lease_locked vt now name slot demand key priority (put_backend name b1 c) of
             (Inr lease, c2) \<Rightarrow> (Inr lease, True, c2)
           | (Inl e, c2) \<Rightarrow> (Inl e, True, put_backend name (snd (bk_release_slot vt slot b1)) c2)))"

definition remove_lease :: "int \<Rightarrow> active_lease \<Rightarrow> 'b coordinator \<Rightarrow> 'b coordinator" where
  "remove_lease lease_id lease c =
     (let name = l_model lease in
      c\<lparr>active_leases := AList.delete lease_id (active_leases c),
        active_requests := (if 0 < active_requests c then active_requests c - 1
                            else active_requests c),
        active_context_reservation_by_model :=
          AList.update name
            (max 0 (get0 (active_context_reservation_by_model c) name
                    - l_context_reservation lease))
            (active_context_reservation_by_model c),
        active_sequence_reservation_by_model :=
          AList.update name
            (max 0 (get0 (active_sequence_reservation_by_model c) name
                    - l_sequence_reservation lease))
            (active_sequence_reservation_by_model c),
        active_requests_by_model :=
          (case lookup (active_requests_by_model c) name of
             None \<Rightarrow> active_requests_by_model c
           | Some n \<Rightarrow> if 0 < n then AList.update name (n - 1) (active_requests_by_model c)
                       else active_requests_by_model c)\<rparr>)"

definition openai_cache_prefix :: string where
  "openai_cache_prefix = ''openai-cache:''"

definition leave_continuation_hold ::
  "'b ibackend \<Rightarrow> time_point \<Rightarrow> active_lease \<Rightarrow> 'b \<Rightarrow> 'b coordinator \<Rightarrow> 'b coordinator" where
  "leave_continuation_hold vt now lease b c =
     (let name = l_model lease; info = bk_info vt b in
      if \<not> l_continuation lease \<and> mi_runtime info = ''vllm_radiance'' \<and>
         0 < mi_continuation_grace_ms info \<and> bk_n_slots vt b = 1 \<and>
         starts_with (l_reservation_key lease) openai_cache_prefix \<and>
         13 < length (l_reservation_key lease) \<and>
         name \<notin> draining_models c \<and> name \<notin> resizing_models c
      then c\<lparr>continuation_holds :=
               AList.update name
                 \<lparr>h_key = l_reservation_key lease, h_priority = l_priority lease,
                  h_deadline = now + ms (min 2000 (mi_continuation_grace_ms info)),
                  h_generation = resource_generation c\<rparr>
                 (continuation_holds c)\<rparr>
      else c)"

definition bump_generation :: "'b coordinator \<Rightarrow> 'b coordinator" where
  "bump_generation c = c\<lparr>resource_generation := resource_generation c + 1\<rparr>"

definition release_slot ::
  "'b ibackend \<Rightarrow> time_point \<Rightarrow> string \<Rightarrow> int \<Rightarrow> 'b coordinator \<Rightarrow> unit result \<times> 'b coordinator"
  where
  "release_slot vt now name lease_id c =
     (case lookup (active_leases c) lease_id of
        None \<Rightarrow>
          (if 0 < lease_id \<and> lease_id < next_lease_id c then (Ok (), c)
           else (Err InvalidArgument ''invalid slot lease'', c))
      | Some lease \<Rightarrow>
          (if l_model lease \<noteq> name
             then (Err InvalidArgument ''slot lease belongs to another model'', c)
           else case backend_ptr c name of
                  None \<Rightarrow> (Err NotFound (''model not loaded: '' @ name), c)
                | Some b \<Rightarrow>
                    (case bk_release_slot vt (l_backend_slot lease) b of
                       (Inl e, b1) \<Rightarrow> (Inl e, put_backend name b1 c)
                     | (Inr _, b1) \<Rightarrow>
                         (let c1 = remove_lease lease_id lease (put_backend name b1 c);
                              c2 = (if 0 < bk_estimate_vram_mb vt (bk_n_slots vt b1) b1
                                    then bump_generation c1 else c1)
                          in (Ok (), leave_continuation_hold vt now lease b1 c2)))))"

end
