(* ===== verification/Coordinator_Queue.thy ===== *)
theory Coordinator_Queue
  imports Coordinator
begin

text \<open>
  \<^verbatim>\<open>BackendCoordinator::acquire_slot\<close> and the queue it serves
  (\<^verbatim>\<open>libs/model/src/backend_coordinator_queue.cpp\<close>). The non-blocking call is one critical
  section. The blocking call is a loop: \<open>acquire_enqueue\<close> appends the waiter, and each pass of
  the loop body is \<open>acquire_iteration\<close>, which ends by returning, by waiting on the condition
  variable, by going round again, or by calling one of the caller's callbacks with the mutex
  released. \<open>after_demand\<close>, \<open>after_capacity\<close> and \<open>after_prepare\<close> are the critical sections that
  follow the callbacks. The priority sessions and the queue listing complete the file.
\<close>

section \<open>Options\<close>

text \<open>
  Whether the three preparation callbacks are set; the callbacks themselves run outside the
  mutex, between two critical sections.
\<close>

record acquire_slot_options =
  ao_timeout :: duration
  ao_block :: bool
  ao_priority :: int
  ao_cancelled :: "(time_point \<Rightarrow> bool) option"
  ao_reservation_key :: string
  ao_prepare :: bool
  ao_demand :: bool
  ao_prepare_capacity :: bool

definition default_options :: acquire_slot_options where
  "default_options =
     \<lparr>ao_timeout = ms 30000, ao_block = True, ao_priority = 0, ao_cancelled = None,
      ao_reservation_key = [], ao_prepare = False, ao_demand = False,
      ao_prepare_capacity = False\<rparr>"

definition request_cancelled :: "acquire_slot_options \<Rightarrow> time_point \<Rightarrow> bool" where
  "request_cancelled opts now = (case ao_cancelled opts of None \<Rightarrow> False | Some f \<Rightarrow> f now)"

section \<open>The non-blocking call\<close>

definition hold_blocks :: "'b ibackend \<Rightarrow> time_point \<Rightarrow> acquire_slot_options \<Rightarrow> string \<Rightarrow>
    'b coordinator \<Rightarrow> bool" where
  "hold_blocks vt now opts name c =
     (continuation_hold_valid_locked vt now c name \<and>
      (case lookup (continuation_holds c) name of
         None \<Rightarrow> False
       | Some h \<Rightarrow> h_key h \<noteq> ao_reservation_key opts \<and> ao_priority opts \<le> h_priority h))"

definition acquire_nonblocking ::
  "'b ibackend \<Rightarrow> time_point \<Rightarrow> string \<Rightarrow> acquire_slot_options \<Rightarrow> 'b coordinator \<Rightarrow>
     int result \<times> 'b coordinator" where
  "acquire_nonblocking vt now name opts c =
     (if name \<in> draining_models c
        then (Err Unavailable (''model is draining: '' @ name), c)
      else if name \<in> resizing_models c
        then (Err Unavailable (''model is resizing: '' @ name), c)
      else case backend_ptr c name of
             None \<Rightarrow> (Err NotFound (''model not loaded: '' @ name), c)
           | Some b \<Rightarrow>
               (if \<not> bk_is_loaded vt b then (Err NotFound (''model not loaded: '' @ name), c)
                else if \<not> bk_execution_healthy vt b
                  then (Err Unavailable (''model requires recovery: '' @ name), c)
                else if hold_blocks vt now opts name c \<or> waiters c \<noteq> [] \<or>
                        request_waits_for_priority_media_locked vt now c name
                          (ao_reservation_key opts) \<or>
                        \<not> admission_pool_allows_locked vt c name
                  then (Err Unavailable (''request queue is busy: '' @ name), c)
                else let (r, _, c') = acquire_and_lease vt now name None
                           (ao_reservation_key opts) (ao_priority opts) b c
                     in (r, c')))"

section \<open>The blocking call\<close>

definition new_waiter ::
  "nat \<Rightarrow> string \<Rightarrow> acquire_slot_options \<Rightarrow> time_point \<Rightarrow> slot_waiter" where
  "new_waiter wid name opts now =
     \<lparr>w_id = wid, w_model = name, w_priority = clamp (ao_priority opts) (-100) 100,
      w_enqueued = now, w_deadline = now + ao_timeout opts,
      w_reservation_key = ao_reservation_key opts, w_preparing = False, w_prepared = False,
      w_retry_after_generation = None, w_resource_blocked = False, w_demand_prepared = False,
      w_capacity_prepared = False, w_demand = None, w_max_aggregate_context = 0,
      w_max_aggregate_sequences = 0\<rparr>"

definition acquire_enqueue ::
  "time_point \<Rightarrow> string \<Rightarrow> acquire_slot_options \<Rightarrow> 'b coordinator \<Rightarrow> nat result \<times> 'b coordinator"
  where
  "acquire_enqueue now name opts c =
     (if max_queue_size c \<le> length (waiters c)
        then (Err Unavailable ''request queue is full'', c)
      else let wid = next_waiter_id c in
        (Ok wid, c\<lparr>next_waiter_id := wid + 1,
                    waiters := waiters c @ [new_waiter wid name opts now]\<rparr>))"

datatype acquire_outcome =
    AReturn "int result"
  | AWait
  | AAgain
  | ACallDemand
  | ACallCapacity request_demand nat
  | ACallPrepare nat

definition leave_queue ::
  "nat \<Rightarrow> int result \<Rightarrow> 'b coordinator \<Rightarrow> acquire_outcome \<times> 'b coordinator" where
  "leave_queue wid r c = (AReturn r, erase_waiter_locked wid c)"

definition demand_due ::
  "'b ibackend \<Rightarrow> time_point \<Rightarrow> acquire_slot_options \<Rightarrow> string \<Rightarrow> nat \<Rightarrow> 'b coordinator \<Rightarrow> bool" where
  "demand_due vt now opts name wid c =
     (case find_waiter c wid of
        None \<Rightarrow> False
      | Some w \<Rightarrow>
          resident vt c name \<and> ao_demand opts \<and> \<not> w_demand_prepared w \<and>
          (waiter_is_next_locked vt now c wid \<or>
           (case waiters c of [] \<Rightarrow> False | front # _ \<Rightarrow> w_id w = w_id front)))"

definition capacity_due ::
  "'b ibackend \<Rightarrow> time_point \<Rightarrow> acquire_slot_options \<Rightarrow> string \<Rightarrow> nat \<Rightarrow> 'b coordinator \<Rightarrow> bool" where
  "capacity_due vt now opts name wid c =
     (case find_waiter c wid of
        None \<Rightarrow> False
      | Some w \<Rightarrow>
          resident vt c name \<and> ao_prepare_capacity opts \<and> w_demand_prepared w \<and>
          \<not> w_capacity_prepared w \<and> waiter_is_next_locked vt now c wid)"

definition aggregate_context_for :: "'b coordinator \<Rightarrow> string \<Rightarrow> request_demand \<Rightarrow> int" where
  "aggregate_context_for c name d =
     get0 (active_context_reservation_by_model c) name + required_context d"

definition aggregate_sequences_for :: "'b coordinator \<Rightarrow> string \<Rightarrow> request_demand \<Rightarrow> int" where
  "aggregate_sequences_for c name d =
     get0 (active_sequence_reservation_by_model c) name + required_sequences d"

definition automatic_pool :: "'b ibackend \<Rightarrow> 'b coordinator \<Rightarrow> string \<Rightarrow> bool" where
  "automatic_pool vt c name =
     (case backend_ptr c name of
        None \<Rightarrow> False
      | Some b \<Rightarrow> mi_concurrency_auto (bk_info vt b) \<and> mi_context_pool_auto (bk_info vt b))"

definition acquire_capacity_stage ::
  "'b ibackend \<Rightarrow> string \<Rightarrow> nat \<Rightarrow> slot_waiter \<Rightarrow> request_demand \<Rightarrow> 'b coordinator \<Rightarrow>
     acquire_outcome \<times> 'b coordinator" where
  "acquire_capacity_stage vt name wid w d c =
     (if w_retry_after_generation w = Some (resource_generation c) then (AWait, c)
      else let ctx = aggregate_context_for c name d; seqs = aggregate_sequences_for c name d in
        if INT_MAX < ctx \<or> INT_MAX < seqs
          then leave_queue wid
                 (Err InvalidArgument ''request demand exceeds supported capacity'') c
        else let auto = automatic_pool vt c name;
                 mctx = (if auto then max (w_max_aggregate_context w) ctx else ctx);
                 mseq = (if auto then max (w_max_aggregate_sequences w) seqs else seqs);
                 d' = d\<lparr>aggregate_context := mctx, aggregate_sequences := mseq\<rparr>
             in (ACallCapacity d' (resource_generation c),
                 update_waiter wid
                   (\<lambda>v. v\<lparr>w_retry_after_generation := None, w_preparing := True,
                          w_resource_blocked := True, w_max_aggregate_context := mctx,
                          w_max_aggregate_sequences := mseq, w_demand := Some d'\<rparr>) c))"

definition acquire_load_stage ::
  "'b ibackend \<Rightarrow> time_point \<Rightarrow> acquire_slot_options \<Rightarrow> string \<Rightarrow> nat \<Rightarrow> 'b coordinator \<Rightarrow>
     acquire_outcome \<times> 'b coordinator" where
  "acquire_load_stage vt now opts name wid c =
     (if ao_prepare opts
      then (if waiter_is_next_locked vt now c wid
            then (case find_waiter c wid of
                    None \<Rightarrow> (AWait, c)
                  | Some w \<Rightarrow>
                      if w_retry_after_generation w = Some (resource_generation c) then (AWait, c)
                      else if w_preparing w then (AWait, c)
                      else (ACallPrepare (resource_generation c),
                            update_waiter wid
                              (\<lambda>v. v\<lparr>w_retry_after_generation := None, w_preparing := True,
                                     w_resource_blocked := True, w_prepared := False\<rparr>) c))
            else (AWait, c))
      else if resident vt c name
        then leave_queue wid (Err Unavailable (''model requires recovery: '' @ name)) c
      else leave_queue wid (Err NotFound (''model not loaded: '' @ name)) c)"

text \<open>Capacity that was prepared for a smaller aggregate than the one now needed.\<close>

definition capacity_stale ::
  "acquire_slot_options \<Rightarrow> string \<Rightarrow> nat \<Rightarrow> 'b coordinator \<Rightarrow> bool" where
  "capacity_stale opts name wid c =
     (case find_waiter c wid of
        None \<Rightarrow> False
      | Some w \<Rightarrow>
          (case w_demand w of
             None \<Rightarrow> False
           | Some d \<Rightarrow>
               w_capacity_prepared w \<and> ao_prepare_capacity opts \<and>
               (aggregate_context d < aggregate_context_for c name d \<or>
                aggregate_sequences d < aggregate_sequences_for c name d)))"

definition acquire_grant_stage ::
  "'b ibackend \<Rightarrow> time_point \<Rightarrow> acquire_slot_options \<Rightarrow> string \<Rightarrow> nat \<Rightarrow> 'b coordinator \<Rightarrow>
     acquire_outcome \<times> 'b coordinator" where
  "acquire_grant_stage vt now opts name wid c =
     (if name \<notin> resizing_models c \<and> admission_pool_allows_locked vt c name \<and>
         waiter_is_next_locked vt now c wid
      then (case backend_ptr c name of
              None \<Rightarrow> (AWait, c)
            | Some b \<Rightarrow>
                (let demand = (case find_waiter c wid of
                                 None \<Rightarrow> None
                               | Some w \<Rightarrow> if w_demand_prepared w then w_demand w else None)
                 in case acquire_and_lease vt now name demand (ao_reservation_key opts)
                           (ao_priority opts) b c of
                      (Inr lease, _, c1) \<Rightarrow> leave_queue wid (Inr lease) c1
                    | (Inl e, got_slot, c1) \<Rightarrow>
                        if got_slot \<and> err_code e \<noteq> ResourceBusy then leave_queue wid (Inl e) c1
                        else (AWait, c1)))
      else (AWait, c))"

definition acquire_iteration ::
  "'b ibackend \<Rightarrow> time_point \<Rightarrow> acquire_slot_options \<Rightarrow> string \<Rightarrow> nat \<Rightarrow> time_point \<Rightarrow>
     'b coordinator \<Rightarrow> acquire_outcome \<times> 'b coordinator" where
  "acquire_iteration vt now opts name wid deadline c =
     (if request_cancelled opts now
        then leave_queue wid (Err Cancelled (''request cancelled while queued: '' @ name)) c
      else if deadline \<le> now
        then leave_queue wid (Err Timeout (''timeout waiting in request queue: '' @ name)) c
      else if name \<in> draining_models c \<or> name \<in> resizing_models c then (AWait, c)
      else if demand_due vt now opts name wid c
        then (ACallDemand, update_waiter wid (\<lambda>v. v\<lparr>w_preparing := True\<rparr>) c)
      else if capacity_due vt now opts name wid c
        then (case find_waiter c wid of
                Some w \<Rightarrow>
                  (case w_demand w of
                     Some d \<Rightarrow> acquire_capacity_stage vt name wid w d c
                   | None \<Rightarrow> (AWait, c))
              | None \<Rightarrow> (AWait, c))
      else if \<not> healthy vt c name then acquire_load_stage vt now opts name wid c
      else if capacity_stale opts name wid c
        then (AAgain, update_waiter wid (\<lambda>v. v\<lparr>w_capacity_prepared := False\<rparr>) c)
      else acquire_grant_stage vt now opts name wid c)"

section \<open>After the callbacks\<close>

definition after_demand ::
  "nat \<Rightarrow> request_demand result \<Rightarrow> 'b coordinator \<Rightarrow> acquire_outcome \<times> 'b coordinator" where
  "after_demand wid r c =
     (case r of
        Inl e \<Rightarrow> leave_queue wid (Err (err_code e) (err_message e)) c
      | Inr d \<Rightarrow>
          (AAgain, update_waiter wid
             (\<lambda>v. v\<lparr>w_preparing := False, w_demand := Some d, w_demand_prepared := True\<rparr>) c))"

text \<open>A busy resource is retried after the next resource change; other errors end the wait.\<close>

definition after_busy :: "nat \<Rightarrow> nat \<Rightarrow> 'b coordinator \<Rightarrow> acquire_outcome \<times> 'b coordinator" where
  "after_busy wid generation_before c =
     (AAgain, update_waiter wid
        (\<lambda>v. v\<lparr>w_preparing := False, w_resource_blocked := True,
               w_retry_after_generation :=
                 (if resource_generation c = generation_before then Some generation_before
                  else w_retry_after_generation v)\<rparr>) c)"

definition after_capacity ::
  "nat \<Rightarrow> nat \<Rightarrow> unit result \<Rightarrow> 'b coordinator \<Rightarrow> acquire_outcome \<times> 'b coordinator" where
  "after_capacity wid generation_before r c =
     (case r of
        Inl e \<Rightarrow>
          (if err_code e = ResourceBusy then after_busy wid generation_before c
           else leave_queue wid (Err (err_code e) (err_message e)) c)
      | Inr _ \<Rightarrow>
          (AAgain, update_waiter wid
             (\<lambda>v. v\<lparr>w_preparing := False, w_capacity_prepared := True,
                    w_resource_blocked := False\<rparr>) c))"

definition after_prepare ::
  "nat \<Rightarrow> nat \<Rightarrow> unit result \<Rightarrow> 'b coordinator \<Rightarrow> acquire_outcome \<times> 'b coordinator" where
  "after_prepare wid generation_before r c =
     (case r of
        Inl e \<Rightarrow>
          (if err_code e = ResourceBusy then after_busy wid generation_before c
           else leave_queue wid (Err (err_code e) (err_message e)) c)
      | Inr _ \<Rightarrow>
          (AAgain, update_waiter wid
             (\<lambda>v. v\<lparr>w_preparing := False, w_prepared := True, w_resource_blocked := False\<rparr>) c))"

section \<open>Queue size and listing\<close>

definition set_max_queue_size :: "nat \<Rightarrow> 'b coordinator \<Rightarrow> 'b coordinator" where
  "set_max_queue_size n c = c\<lparr>max_queue_size := max 1 n\<rparr>"

definition queued_request_count :: "'b coordinator \<Rightarrow> nat" where
  "queued_request_count c = length (waiters c)"

record queue_info =
  qi_id :: nat
  qi_model :: string
  qi_priority :: int
  qi_position :: nat
  qi_queued_ms :: int
  qi_remaining_ms :: int

text \<open>The score of the strongest barrier, if there is one.\<close>

definition highest_barrier_score :: "'b ibackend \<Rightarrow> time_point \<Rightarrow> 'b coordinator \<Rightarrow> int option" where
  "highest_barrier_score vt now c =
     fold (\<lambda>w best. if waiter_is_resource_barrier_locked vt c w
                    then Some (case best of None \<Rightarrow> score_for now w
                               | Some s \<Rightarrow> max s (score_for now w))
                    else best) (waiters c) None"

definition queue_order_key ::
  "'b ibackend \<Rightarrow> time_point \<Rightarrow> 'b coordinator \<Rightarrow> slot_waiter \<Rightarrow> nat \<times> bool \<times> int \<times> nat" where
  "queue_order_key vt now c w =
     (let score = score_for now w;
          barrier = waiter_is_resource_barrier_locked vt c w;
          independent = model_is_independent_sidecar_locked vt c (w_model w);
          overtaken = (\<not> independent \<and> \<not> barrier \<and>
             (case highest_barrier_score vt now c of None \<Rightarrow> False | Some s \<Rightarrow> score < s));
          actionable = (waiter_is_actionable_locked vt now c w \<and> \<not> overtaken);
          prepared = (actionable \<and> w_prepared w)
      in (if actionable then 0 else if barrier then 1 else 2, \<not> prepared, - score, w_id w))"

definition queue_entry :: "time_point \<Rightarrow> nat \<times> slot_waiter \<Rightarrow> queue_info" where
  "queue_entry now = (\<lambda>(i, w).
     \<lparr>qi_id = w_id w, qi_model = w_model w, qi_priority = w_priority w, qi_position = i + 1,
      qi_queued_ms = count_ms (now - w_enqueued w),
      qi_remaining_ms = max 0 (count_ms (w_deadline w - now))\<rparr>)"

definition queue :: "'b ibackend \<Rightarrow> time_point \<Rightarrow> 'b coordinator \<Rightarrow> queue_info list" where
  "queue vt now c =
     map (queue_entry now)
       (enumerate 0 (sort_key (queue_order_key vt now c) (waiters c)))"

section \<open>Priority sessions\<close>

definition reserve_priority_session ::
  "time_point \<Rightarrow> string \<Rightarrow> string \<Rightarrow> duration \<Rightarrow> 'b coordinator \<Rightarrow> nat \<times> 'b coordinator" where
  "reserve_priority_session now key model duration c =
     (if key = [] \<or> model = [] \<or> duration \<le> 0 then (0, c)
      else let token = next_priority_session_token c;
               live = filter (\<lambda>(k, s). session_live now s) (priority_sessions c)
           in (token,
               c\<lparr>next_priority_session_token := token + 1,
                 priority_sessions :=
                   AList.update key
                     \<lparr>s_model = model, s_deadline = now + duration, s_token = token,
                      s_active_holds = 0\<rparr> live\<rparr>))"

definition refresh_priority_session ::
  "time_point \<Rightarrow> string \<Rightarrow> nat \<Rightarrow> duration \<Rightarrow> 'b coordinator \<Rightarrow> bool \<times> 'b coordinator" where
  "refresh_priority_session now key token duration c =
     (case lookup (priority_sessions c) key of
        None \<Rightarrow> (False, c)
      | Some s \<Rightarrow>
          if s_token s = token
          then (True, c\<lparr>priority_sessions :=
                  AList.update key (s\<lparr>s_deadline := now + duration\<rparr>) (priority_sessions c)\<rparr>)
          else (False, c))"

definition hold_priority_session ::
  "time_point \<Rightarrow> string \<Rightarrow> string \<Rightarrow> 'b coordinator \<Rightarrow> nat option \<times> 'b coordinator" where
  "hold_priority_session now key model c =
     (case lookup (priority_sessions c) key of
        None \<Rightarrow> (None, c)
      | Some s \<Rightarrow>
          if s_model s \<noteq> model \<or> \<not> session_live now s then (None, c)
          else (Some (s_token s),
                c\<lparr>priority_sessions :=
                    AList.update key (s\<lparr>s_active_holds := s_active_holds s + 1\<rparr>)
                      (priority_sessions c)\<rparr>))"

definition complete_priority_session_hold ::
  "time_point \<Rightarrow> string \<Rightarrow> nat \<Rightarrow> duration \<Rightarrow> 'b coordinator \<Rightarrow> 'b coordinator" where
  "complete_priority_session_hold now key token duration c =
     (case lookup (priority_sessions c) key of
        None \<Rightarrow> c
      | Some s \<Rightarrow>
          if s_token s = token
          then c\<lparr>priority_sessions :=
                   AList.update key
                     (s\<lparr>s_active_holds := s_active_holds s - 1, s_deadline := now + duration\<rparr>)
                     (priority_sessions c)\<rparr>
          else c)"

definition release_priority_session :: "string \<Rightarrow> nat \<Rightarrow> 'b coordinator \<Rightarrow> 'b coordinator" where
  "release_priority_session key token c =
     (case lookup (priority_sessions c) key of
        None \<Rightarrow> c
      | Some s \<Rightarrow>
          if s_token s = token
          then c\<lparr>priority_sessions := AList.delete key (priority_sessions c)\<rparr> else c)"

definition priority_session_matches ::
  "time_point \<Rightarrow> string \<Rightarrow> string \<Rightarrow> 'b coordinator \<Rightarrow> bool" where
  "priority_session_matches now key model c =
     (case lookup (priority_sessions c) key of
        None \<Rightarrow> False
      | Some s \<Rightarrow> s_model s = model \<and> (0 < s_active_holds s \<or> now < s_deadline s))"

end
