(* ===== verification/Coordinator_Invariant.thy ===== *)
theory Coordinator_Invariant
  imports Coordinator_Queue
begin

text \<open>
  The invariant of the coordinator and its preservation by the critical sections of the queue
  (leases, waiters, sessions). \<open>lease_inv\<close> ties the counters to the table of leases, \<open>slot_inv\<close>
  ties the leases to the slots of the backends, \<open>queue_inv\<close> keeps the tickets of the queue
  distinct. The lemmas about \<open>slot_inv\<close> are proved for every backend that satisfies
  \<open>backend_contract\<close>.
\<close>

section \<open>The invariant\<close>

definition leases_of :: "'b coordinator \<Rightarrow> string \<Rightarrow> int" where
  "leases_of c name = sum_vals (\<lambda>l. if l_model l = name then 1 else 0) (active_leases c)"

definition context_of :: "'b coordinator \<Rightarrow> string \<Rightarrow> int" where
  "context_of c name =
     sum_vals (\<lambda>l. if l_model l = name then l_context_reservation l else 0) (active_leases c)"

definition sequences_of :: "'b coordinator \<Rightarrow> string \<Rightarrow> int" where
  "sequences_of c name =
     sum_vals (\<lambda>l. if l_model l = name then l_sequence_reservation l else 0) (active_leases c)"

definition lease_inv :: "'b coordinator \<Rightarrow> bool" where
  "lease_inv c =
     (keys_distinct (active_leases c) \<and> keys_distinct (active_requests_by_model c) \<and>
      active_requests c = int (length (active_leases c)) \<and>
      (\<forall>n. active_of c n = leases_of c n) \<and>
      (\<forall>n. get0 (active_context_reservation_by_model c) n = context_of c n) \<and>
      (\<forall>n. get0 (active_sequence_reservation_by_model c) n = sequences_of c n) \<and>
      (\<forall>i l. lookup (active_leases c) i = Some l \<longrightarrow>
         0 < i \<and> i < next_lease_id c \<and> 0 \<le> l_context_reservation l \<and>
         0 \<le> l_sequence_reservation l) \<and>
      1 \<le> next_lease_id c \<and> next_lease_id c \<le> INT_MAX + 1)"

definition slot_inv :: "'b ibackend \<Rightarrow> ('b \<Rightarrow> bool) \<Rightarrow> 'b coordinator \<Rightarrow> bool" where
  "slot_inv vt bok c =
     (keys_distinct (instances c) \<and>
      (\<forall>n. lookup (instances c) n \<noteq> Some None) \<and>
      (\<forall>n b. backend_ptr c n = Some b \<longrightarrow> bok b) \<and>
      (\<forall>i l. lookup (active_leases c) i = Some l \<longrightarrow>
         (\<exists>b. backend_ptr c (l_model l) = Some b \<and> bk_is_loaded vt b \<and>
              bk_slot_busy vt (l_backend_slot l) b)) \<and>
      (\<forall>i j l m. lookup (active_leases c) i = Some l \<and> lookup (active_leases c) j = Some m \<and>
         i \<noteq> j \<and> l_model l = l_model m \<longrightarrow> l_backend_slot l \<noteq> l_backend_slot m))"

definition queue_inv :: "'b coordinator \<Rightarrow> bool" where
  "queue_inv c =
     (distinct (map w_id (waiters c)) \<and>
      (\<forall>w \<in> set (waiters c). w_id w < next_waiter_id c \<and> \<bar>w_priority w\<bar> \<le> 100 \<and>
         (w_demand_prepared w \<longrightarrow> w_demand w \<noteq> None)))"

definition coordinator_inv :: "'b ibackend \<Rightarrow> ('b \<Rightarrow> bool) \<Rightarrow> 'b coordinator \<Rightarrow> bool" where
  "coordinator_inv vt bok c = (lease_inv c \<and> slot_inv vt bok c \<and> queue_inv c)"

section \<open>Lookup facts\<close>

lemma backend_ptr_put_backend [simp]:
  "backend_ptr (put_backend n b c) m = (if m = n then Some b else backend_ptr c m)"
  by (simp add: backend_ptr_def put_backend_def)

lemma put_backend_frame [simp]:
  "active_leases (put_backend n b c) = active_leases c"
  "active_requests (put_backend n b c) = active_requests c"
  "active_requests_by_model (put_backend n b c) = active_requests_by_model c"
  "active_context_reservation_by_model (put_backend n b c) = active_context_reservation_by_model c"
  "active_sequence_reservation_by_model (put_backend n b c)
     = active_sequence_reservation_by_model c"
  "next_lease_id (put_backend n b c) = next_lease_id c"
  "waiters (put_backend n b c) = waiters c"
  "next_waiter_id (put_backend n b c) = next_waiter_id c"
  "registry (put_backend n b c) = registry c"
  "draining_models (put_backend n b c) = draining_models c"
  "resizing_models (put_backend n b c) = resizing_models c"
  "continuation_holds (put_backend n b c) = continuation_holds c"
  "resource_generation (put_backend n b c) = resource_generation c"
  "priority_sessions (put_backend n b c) = priority_sessions c"
  "current_loaded (put_backend n b c) = current_loaded c"
  by (simp_all add: put_backend_def)

text \<open>The invariant reads only part of the state: steps that leave these fields alone keep it.\<close>

lemma lease_inv_cong:
  assumes "active_leases c' = active_leases c" "active_requests c' = active_requests c"
    "active_requests_by_model c' = active_requests_by_model c"
    "active_context_reservation_by_model c' = active_context_reservation_by_model c"
    "active_sequence_reservation_by_model c' = active_sequence_reservation_by_model c"
    "next_lease_id c' = next_lease_id c"
  shows "lease_inv c' = lease_inv c"
  using assms
  by (simp add: lease_inv_def active_of_def leases_of_def context_of_def sequences_of_def)

lemma slot_inv_cong:
  assumes "active_leases c' = active_leases c" "instances c' = instances c"
  shows "slot_inv vt bok c' = slot_inv vt bok c"
  using assms by (simp add: slot_inv_def backend_ptr_def)

lemma queue_inv_cong:
  assumes "waiters c' = waiters c" "next_waiter_id c' = next_waiter_id c"
  shows "queue_inv c' = queue_inv c"
  using assms by (simp add: queue_inv_def)

lemma coordinator_inv_cong:
  assumes "active_leases c' = active_leases c" "active_requests c' = active_requests c"
    "active_requests_by_model c' = active_requests_by_model c"
    "active_context_reservation_by_model c' = active_context_reservation_by_model c"
    "active_sequence_reservation_by_model c' = active_sequence_reservation_by_model c"
    "next_lease_id c' = next_lease_id c" "instances c' = instances c"
    "waiters c' = waiters c" "next_waiter_id c' = next_waiter_id c"
  shows "coordinator_inv vt bok c' = coordinator_inv vt bok c"
proof -
  have "lease_inv c' = lease_inv c" using assms by (intro lease_inv_cong) auto
  moreover have "slot_inv vt bok c' = slot_inv vt bok c" using assms by (intro slot_inv_cong) auto
  moreover have "queue_inv c' = queue_inv c" using assms by (intro queue_inv_cong) auto
  ultimately show ?thesis by (simp add: coordinator_inv_def)
qed

lemma coordinator_inv_init: "coordinator_inv vt bok (init_coordinator reg)"
  by (simp add: coordinator_inv_def lease_inv_def slot_inv_def queue_inv_def init_coordinator_def
      active_of_def leases_of_def context_of_def sequences_of_def backend_ptr_def INT_MAX_def)

lemma lease_invD:
  assumes "lease_inv c"
  shows "keys_distinct (active_leases c)"
    and "active_requests c = int (length (active_leases c))"
    and "active_of c n = leases_of c n"
    and "get0 (active_context_reservation_by_model c) n = context_of c n"
    and "get0 (active_sequence_reservation_by_model c) n = sequences_of c n"
    and "1 \<le> next_lease_id c"
  using assms by (simp_all add: lease_inv_def)

lemma lease_inv_bounds:
  "lease_inv c \<Longrightarrow> lookup (active_leases c) i = Some l \<Longrightarrow>
     0 < i \<and> i < next_lease_id c \<and> 0 \<le> l_context_reservation l \<and> 0 \<le> l_sequence_reservation l"
  by (simp add: lease_inv_def)

lemma leases_of_pos_iff:
  assumes "lease_inv c"
  shows "0 < leases_of c n \<longleftrightarrow> (\<exists>i l. lookup (active_leases c) i = Some l \<and> l_model l = n)"
  using lease_invD(1) [OF assms]
  by (auto simp: leases_of_def sum_vals_indicator_pos map_of_eq_Some_iff)

section \<open>Leases\<close>

lemma fresh_lease_id:
  "lease_inv c \<Longrightarrow> lookup (active_leases c) (next_lease_id c) = None"
  by (cases "lookup (active_leases c) (next_lease_id c)") (auto dest: lease_inv_bounds)

lemma add_lease_simps [simp]:
  "active_leases (add_lease l c) = AList.update (next_lease_id c) l (active_leases c)"
  "next_lease_id (add_lease l c) = next_lease_id c + 1"
  "active_requests (add_lease l c) = active_requests c + 1"
  "active_requests_by_model (add_lease l c) = add0 (l_model l) 1 (active_requests_by_model c)"
  "active_context_reservation_by_model (add_lease l c)
     = add0 (l_model l) (l_context_reservation l) (active_context_reservation_by_model c)"
  "active_sequence_reservation_by_model (add_lease l c)
     = add0 (l_model l) (l_sequence_reservation l) (active_sequence_reservation_by_model c)"
  "continuation_holds (add_lease l c) = AList.delete (l_model l) (continuation_holds c)"
  "instances (add_lease l c) = instances c" "backend_ptr (add_lease l c) = backend_ptr c"
  "waiters (add_lease l c) = waiters c" "next_waiter_id (add_lease l c) = next_waiter_id c"
  "registry (add_lease l c) = registry c"
  "draining_models (add_lease l c) = draining_models c"
  "resizing_models (add_lease l c) = resizing_models c"
  by (simp_all add: add_lease_def Let_def backend_ptr_def fun_eq_iff)

lemma add_lease_sums:
  assumes "lease_inv c"
  shows "leases_of (add_lease l c) n = leases_of c n + (if l_model l = n then 1 else 0)"
    and "context_of (add_lease l c) n
           = context_of c n + (if l_model l = n then l_context_reservation l else 0)"
    and "sequences_of (add_lease l c) n
           = sequences_of c n + (if l_model l = n then l_sequence_reservation l else 0)"
  by (simp_all add: leases_of_def context_of_def sequences_of_def
      sum_vals_update_new [OF fresh_lease_id [OF assms]])

lemma add_lease_inv:
  assumes inv: "lease_inv c" and "0 \<le> l_context_reservation l" "0 \<le> l_sequence_reservation l"
    and "next_lease_id c \<le> INT_MAX"
  shows "lease_inv (add_lease l c)"
proof -
  have "active_of (add_lease l c) n = leases_of (add_lease l c) n" for n
    using lease_invD(3) [OF inv, of n]
    by (auto simp: active_of_def add_lease_sums [OF inv])
  moreover have "get0 (active_context_reservation_by_model (add_lease l c)) n
                   = context_of (add_lease l c) n" for n
    using lease_invD(4) [OF inv, of n] by (auto simp: add_lease_sums [OF inv])
  moreover have "get0 (active_sequence_reservation_by_model (add_lease l c)) n
                   = sequences_of (add_lease l c) n" for n
    using lease_invD(5) [OF inv, of n] by (auto simp: add_lease_sums [OF inv])
  ultimately show ?thesis
    using assms lease_inv_bounds [OF inv] length_update_new [OF fresh_lease_id [OF inv], of l]
    by (auto simp: lease_inv_def order.strict_implies_order zless_add1_eq)
qed

lemma remove_lease_frame [simp]:
  "active_leases (remove_lease i l c) = AList.delete i (active_leases c)"
  "instances (remove_lease i l c) = instances c"
  "backend_ptr (remove_lease i l c) = backend_ptr c"
  "waiters (remove_lease i l c) = waiters c"
  "next_waiter_id (remove_lease i l c) = next_waiter_id c"
  "next_lease_id (remove_lease i l c) = next_lease_id c"
  "registry (remove_lease i l c) = registry c"
  by (simp_all add: remove_lease_def Let_def backend_ptr_def fun_eq_iff)

lemma remove_lease_sums:
  assumes "lease_inv c" "lookup (active_leases c) i = Some l"
  shows "leases_of (remove_lease i l c) n = leases_of c n - (if l_model l = n then 1 else 0)"
    and "context_of (remove_lease i l c) n
           = context_of c n - (if l_model l = n then l_context_reservation l else 0)"
    and "sequences_of (remove_lease i l c) n
           = sequences_of c n - (if l_model l = n then l_sequence_reservation l else 0)"
  by (simp_all add: leases_of_def context_of_def sequences_of_def
      sum_vals_delete [OF lease_invD(1) [OF assms(1)] assms(2)])

text \<open>The saturating subtractions of the release never saturate.\<close>

lemma lease_share:
  assumes inv: "lease_inv c" and l: "lookup (active_leases c) i = Some l"
  shows "1 \<le> leases_of c (l_model l)" "l_context_reservation l \<le> context_of c (l_model l)"
    "l_sequence_reservation l \<le> sequences_of c (l_model l)" "1 \<le> active_requests c"
proof -
  have mem: "(i, l) \<in> set (active_leases c)" using l by (rule map_of_SomeD)
  have nonneg: "0 \<le> l_context_reservation m \<and> 0 \<le> l_sequence_reservation m"
    if "(j, m) \<in> set (active_leases c)" for j m
    using lease_inv_bounds [OF inv, of j m] that lease_invD(1) [OF inv]
    by (simp add: map_of_eq_Some_iff)
  show "1 \<le> leases_of c (l_model l)"
    using sum_vals_ge_member [OF _ mem, of "\<lambda>m. if l_model m = l_model l then 1 else 0"]
    by (simp add: leases_of_def)
  show "l_context_reservation l \<le> context_of c (l_model l)"
    using sum_vals_ge_member [OF _ mem,
        of "\<lambda>m. if l_model m = l_model l then l_context_reservation m else 0"] nonneg
    by (simp add: context_of_def)
  show "l_sequence_reservation l \<le> sequences_of c (l_model l)"
    using sum_vals_ge_member [OF _ mem,
        of "\<lambda>m. if l_model m = l_model l then l_sequence_reservation m else 0"] nonneg
    by (simp add: sequences_of_def)
  show "1 \<le> active_requests c"
    using lease_invD(2) [OF inv] mem by (cases "active_leases c") auto
qed

lemma remove_lease_inv:
  assumes inv: "lease_inv c" and l: "lookup (active_leases c) i = Some l"
  shows "lease_inv (remove_lease i l c)"
proof -
  note share = lease_share [OF inv l] and sums = remove_lease_sums [OF inv l]
  have active: "active_of (remove_lease i l c) n = leases_of (remove_lease i l c) n" for n
    using lease_invD(3) [OF inv, of n] lease_invD(3) [OF inv, of "l_model l"] share(1)
    by (auto simp: active_of_def sums)
      (auto simp: remove_lease_def Let_def get0_def split: option.splits)
  have "get0 (active_context_reservation_by_model (remove_lease i l c)) n
          = context_of (remove_lease i l c) n" for n
    using lease_invD(4) [OF inv, of n] share(2) unfolding sums
    by (auto simp: remove_lease_def Let_def)
  moreover have "get0 (active_sequence_reservation_by_model (remove_lease i l c)) n
          = sequences_of (remove_lease i l c) n" for n
    using lease_invD(5) [OF inv, of n] share(3) unfolding sums
    by (auto simp: remove_lease_def Let_def)
  moreover have "active_requests (remove_lease i l c)
          = int (length (active_leases (remove_lease i l c)))"
    using lease_invD(2) [OF inv] share(4) length_delete_Some [OF lease_invD(1) [OF inv] l]
    by (simp add: remove_lease_def Let_def)
  moreover have "keys_distinct (active_requests_by_model (remove_lease i l c))"
    using inv by (simp add: lease_inv_def remove_lease_def Let_def split: option.splits)
  ultimately show ?thesis
    using active inv by (auto simp: lease_inv_def split: if_splits)
qed

section \<open>Slots\<close>

lemma slot_inv_lease:
  assumes "slot_inv vt bok c" "lookup (active_leases c) i = Some l"
  shows "\<exists>b. backend_ptr c (l_model l) = Some b \<and> bok b \<and> bk_is_loaded vt b \<and>
     bk_slot_busy vt (l_backend_slot l) b"
  using assms unfolding slot_inv_def by blast

lemma slot_inv_backend: "slot_inv vt bok c \<Longrightarrow> backend_ptr c n = Some b \<Longrightarrow> bok b"
  by (simp add: slot_inv_def)

lemma slot_inv_put:
  assumes inv: "slot_inv vt bok c" and "bok b'"
    and busy: "\<And>i l. lookup (active_leases c) i = Some l \<Longrightarrow> l_model l = n \<Longrightarrow>
      bk_is_loaded vt b' \<and> bk_slot_busy vt (l_backend_slot l) b'"
  shows "slot_inv vt bok (put_backend n b' c)"
proof -
  have "keys_distinct (instances (put_backend n b' c))"
    "\<forall>m. lookup (instances (put_backend n b' c)) m \<noteq> Some None"
    using inv by (auto simp: slot_inv_def put_backend_def)
  moreover have "\<forall>i l. lookup (active_leases c) i = Some l \<longrightarrow>
      (\<exists>b. backend_ptr (put_backend n b' c) (l_model l) = Some b \<and> bk_is_loaded vt b \<and>
        bk_slot_busy vt (l_backend_slot l) b)"
    using slot_inv_lease [OF inv] busy by fastforce
  ultimately show ?thesis
    using assms(2) inv unfolding slot_inv_def by (auto split: if_splits)
qed

lemma coordinator_inv_put:
  assumes "coordinator_inv vt bok c" "slot_inv vt bok (put_backend n b c)"
  shows "coordinator_inv vt bok (put_backend n b c)"
  using assms lease_inv_cong [of "put_backend n b c" c] queue_inv_cong [of "put_backend n b c" c]
  by (simp add: coordinator_inv_def)

lemma slot_inv_add_lease:
  assumes inv: "slot_inv vt bok c" and linv: "lease_inv c"
    and b: "backend_ptr c (l_model l) = Some b" "bk_is_loaded vt b"
      "bk_slot_busy vt (l_backend_slot l) b"
    and fresh: "\<And>i m. lookup (active_leases c) i = Some m \<Longrightarrow> l_model m = l_model l \<Longrightarrow>
      l_backend_slot m \<noteq> l_backend_slot l"
  shows "slot_inv vt bok (add_lease l c)"
  using assms slot_inv_lease [OF inv]
  unfolding slot_inv_def by (auto split: if_splits) metis+

lemma slot_inv_remove_lease:
  "slot_inv vt bok c \<Longrightarrow> slot_inv vt bok (remove_lease i l c)"
  unfolding slot_inv_def by (auto split: if_splits)

lemma make_lease_simps [simp]:
  "l_model (make_lease vt now n s d k p c) = n"
  "l_backend_slot (make_lease vt now n s d k p c) = s"
  "0 \<le> l_context_reservation (make_lease vt now n s d k p c)"
  "0 \<le> l_sequence_reservation (make_lease vt now n s d k p c)"
  by (simp_all add: make_lease_def split: option.splits)

lemma issue_lease_Ok:
  assumes "issue_lease_locked vt now n s d k p c = (Inr i, c')"
  shows "i = next_lease_id c" "c' = add_lease (make_lease vt now n s d k p c) c"
    "next_lease_id c \<le> INT_MAX" "healthy vt c n" "admission_pool_allows_locked vt c n"
    "n \<notin> draining_models c" "n \<notin> resizing_models c"
  using assms by (auto simp: issue_lease_locked_def split: if_splits)

lemma issue_lease_Err:
  "issue_lease_locked vt now n s d k p c = (Inl e, c') \<Longrightarrow> c' = c"
  by (auto simp: issue_lease_locked_def split: if_splits)

lemma bump_generation_frame [simp]:
  "active_leases (bump_generation c) = active_leases c"
  "instances (bump_generation c) = instances c"
  "registry (bump_generation c) = registry c"
  "waiters (bump_generation c) = waiters c"
  "priority_sessions (bump_generation c) = priority_sessions c"
  "active_requests_by_model (bump_generation c) = active_requests_by_model c"
  "draining_models (bump_generation c) = draining_models c"
  "resizing_models (bump_generation c) = resizing_models c"
  "current_loaded (bump_generation c) = current_loaded c"
  "next_lease_id (bump_generation c) = next_lease_id c"
  "resource_generation (bump_generation c) = Suc (resource_generation c)"
  "backend_ptr (bump_generation c) = backend_ptr c"
  by (simp_all add: bump_generation_def backend_ptr_def fun_eq_iff)

lemma coordinator_inv_bump [simp]:
  "coordinator_inv vt bok (bump_generation c) = coordinator_inv vt bok c"
  by (rule coordinator_inv_cong) (simp_all add: bump_generation_def)

lemma coordinator_inv_hold [simp]:
  "coordinator_inv vt bok (leave_continuation_hold vt' now l b c) = coordinator_inv vt bok c"
  by (rule coordinator_inv_cong) (simp_all add: leave_continuation_hold_def Let_def)

section \<open>Queue entries\<close>

lemma erase_waiter_frame [simp]:
  "active_leases (erase_waiter_locked wid c) = active_leases c"
  "active_requests (erase_waiter_locked wid c) = active_requests c"
  "active_requests_by_model (erase_waiter_locked wid c) = active_requests_by_model c"
  "instances (erase_waiter_locked wid c) = instances c"
  "backend_ptr (erase_waiter_locked wid c) = backend_ptr c"
  "draining_models (erase_waiter_locked wid c) = draining_models c"
  "resizing_models (erase_waiter_locked wid c) = resizing_models c"
  "current_loaded (erase_waiter_locked wid c) = current_loaded c"
  "registry (erase_waiter_locked wid c) = registry c"
  "resource_generation (erase_waiter_locked wid c) = resource_generation c"
  by (simp_all add: erase_waiter_locked_def backend_ptr_def fun_eq_iff)

lemma update_waiter_frame [simp]:
  "active_leases (update_waiter wid f c) = active_leases c"
  "active_requests (update_waiter wid f c) = active_requests c"
  "active_requests_by_model (update_waiter wid f c) = active_requests_by_model c"
  "instances (update_waiter wid f c) = instances c"
  "backend_ptr (update_waiter wid f c) = backend_ptr c"
  "draining_models (update_waiter wid f c) = draining_models c"
  "resizing_models (update_waiter wid f c) = resizing_models c"
  "current_loaded (update_waiter wid f c) = current_loaded c"
  "registry (update_waiter wid f c) = registry c"
  "resource_generation (update_waiter wid f c) = resource_generation c"
  by (simp_all add: update_waiter_def backend_ptr_def fun_eq_iff)

lemma erase_waiter_inv [coord_inv]:
  assumes "coordinator_inv vt bok c"
  shows "coordinator_inv vt bok (erase_waiter_locked wid c)"
proof -
  let ?c = "erase_waiter_locked wid c"
  have "lease_inv ?c = lease_inv c" by (rule lease_inv_cong) (simp_all add: erase_waiter_locked_def)
  moreover have "slot_inv vt bok ?c = slot_inv vt bok c" by (rule slot_inv_cong) simp_all
  moreover have "queue_inv c \<Longrightarrow> queue_inv ?c"
    by (auto simp: queue_inv_def erase_waiter_locked_def distinct_map_filter)
  ultimately show ?thesis using assms by (simp add: coordinator_inv_def)
qed

text \<open>An update of a waiter that keeps its ticket, its priority and the meaning of its flags.\<close>

definition waiter_update_ok :: "(slot_waiter \<Rightarrow> slot_waiter) \<Rightarrow> bool" where
  "waiter_update_ok f =
     (\<forall>w. w_id (f w) = w_id w \<and> w_priority (f w) = w_priority w \<and>
        ((w_demand_prepared w \<longrightarrow> w_demand w \<noteq> None) \<longrightarrow>
         (w_demand_prepared (f w) \<longrightarrow> w_demand (f w) \<noteq> None)))"

lemma update_waiter_ids:
  "waiter_update_ok f \<Longrightarrow> map w_id (waiters (update_waiter wid f c)) = map w_id (waiters c)"
  by (simp add: update_waiter_def waiter_update_ok_def)

lemma update_waiter_inv [coord_inv]:
  assumes inv: "coordinator_inv vt bok c" and ok: "waiter_update_ok f"
  shows "coordinator_inv vt bok (update_waiter wid f c)"
proof -
  let ?c = "update_waiter wid f c"
  have "lease_inv ?c = lease_inv c" by (rule lease_inv_cong) (simp_all add: update_waiter_def)
  moreover have "slot_inv vt bok ?c = slot_inv vt bok c" by (rule slot_inv_cong) simp_all
  moreover have "queue_inv ?c" if q: "queue_inv c"
  proof -
    have "distinct (map w_id (waiters ?c))" using q update_waiter_ids [OF ok, of wid c]
      by (simp add: queue_inv_def)
    moreover have "w_id v < next_waiter_id c \<and> \<bar>w_priority v\<bar> \<le> 100 \<and>
        (w_demand_prepared v \<longrightarrow> w_demand v \<noteq> None)" if "v \<in> set (waiters ?c)" for v
    proof -
      from that obtain w where w: "w \<in> set (waiters c)" "v = (if w_id w = wid then f w else w)"
        by (auto simp: update_waiter_def)
      with q have "w_id w < next_waiter_id c" "\<bar>w_priority w\<bar> \<le> 100"
        "w_demand_prepared w \<longrightarrow> w_demand w \<noteq> None" by (auto simp: queue_inv_def)
      with w(2) ok show ?thesis by (simp add: waiter_update_ok_def)
    qed
    ultimately show ?thesis by (simp add: queue_inv_def update_waiter_def)
  qed
  ultimately show ?thesis using inv by (simp add: coordinator_inv_def)
qed

lemma acquire_enqueue_inv [coord_inv]:
  assumes "coordinator_inv vt bok c"
  shows "coordinator_inv vt bok (snd (acquire_enqueue now name opts c))"
proof (cases "max_queue_size c \<le> length (waiters c)")
  case True
  with assms show ?thesis by (simp add: acquire_enqueue_def)
next
  case False
  let ?c = "snd (acquire_enqueue now name opts c)"
  have c': "?c = c\<lparr>next_waiter_id := next_waiter_id c + 1,
      waiters := waiters c @ [new_waiter (next_waiter_id c) name opts now]\<rparr>"
    using False by (simp add: acquire_enqueue_def Let_def)
  have "lease_inv ?c = lease_inv c" unfolding c' by (rule lease_inv_cong) simp_all
  moreover have "slot_inv vt bok ?c = slot_inv vt bok c" unfolding c'
    by (rule slot_inv_cong) simp_all
  moreover have "queue_inv ?c" if "queue_inv c"
    using that clamp_range [of "-100" 100 "ao_priority opts"] unfolding c'
    by (fastforce simp: queue_inv_def new_waiter_def)
  ultimately show ?thesis using assms by (simp add: coordinator_inv_def)
qed

lemma session_ops_inv [coord_inv]:
  assumes "coordinator_inv vt bok c"
  shows "coordinator_inv vt bok (snd (reserve_priority_session now key model d c))"
    and "coordinator_inv vt bok (snd (refresh_priority_session now key token d c))"
    and "coordinator_inv vt bok (snd (hold_priority_session now key model c))"
    and "coordinator_inv vt bok (complete_priority_session_hold now key token d c)"
    and "coordinator_inv vt bok (release_priority_session key token c)"
    and "coordinator_inv vt bok (set_max_queue_size n c)"
proof -
  have cong: "coordinator_inv vt bok (c\<lparr>priority_sessions := s\<rparr>)"
    "coordinator_inv vt bok (c\<lparr>next_priority_session_token := t, priority_sessions := s\<rparr>)"
    "coordinator_inv vt bok (c\<lparr>max_queue_size := m\<rparr>)" for s t m
    using assms coordinator_inv_cong [of "c\<lparr>priority_sessions := s\<rparr>" c]
      coordinator_inv_cong [of "c\<lparr>next_priority_session_token := t, priority_sessions := s\<rparr>" c]
      coordinator_inv_cong [of "c\<lparr>max_queue_size := m\<rparr>" c] by simp_all
  show "coordinator_inv vt bok (snd (reserve_priority_session now key model d c))"
    using assms cong by (simp add: reserve_priority_session_def Let_def)
  show "coordinator_inv vt bok (snd (refresh_priority_session now key token d c))"
    using assms cong by (simp add: refresh_priority_session_def split: option.split)
  show "coordinator_inv vt bok (snd (hold_priority_session now key model c))"
    using assms cong by (simp add: hold_priority_session_def split: option.split)
  show "coordinator_inv vt bok (complete_priority_session_hold now key token d c)"
    using assms cong by (simp add: complete_priority_session_hold_def split: option.split)
  show "coordinator_inv vt bok (release_priority_session key token c)"
    using assms cong by (simp add: release_priority_session_def split: option.split)
  show "coordinator_inv vt bok (set_max_queue_size n c)"
    using cong by (simp add: set_max_queue_size_def)
qed

lemma leave_queue_inv [coord_inv]:
  "coordinator_inv vt bok c \<Longrightarrow> leave_queue wid r c = (out, c') \<Longrightarrow> coordinator_inv vt bok c'"
  by (auto simp: leave_queue_def erase_waiter_inv)

lemma capacity_stage_inv:
  assumes "coordinator_inv vt bok c" "acquire_capacity_stage vt' name wid w d c = (out, c')"
  shows "coordinator_inv vt bok c'"
  using assms erase_waiter_inv [OF assms(1), of wid]
  by (auto simp: acquire_capacity_stage_def leave_queue_def Let_def waiter_update_ok_def
      intro!: update_waiter_inv split: if_splits)

lemma load_stage_inv:
  assumes "coordinator_inv vt bok c" "acquire_load_stage vt' now opts name wid c = (out, c')"
  shows "coordinator_inv vt bok c'"
  using assms erase_waiter_inv [OF assms(1), of wid]
  by (auto simp: acquire_load_stage_def leave_queue_def waiter_update_ok_def
      intro!: update_waiter_inv split: if_splits option.splits)

lemma callbacks_inv [coord_inv]:
  assumes "coordinator_inv vt bok c"
  shows "after_demand wid rd c = (out, c') \<Longrightarrow> coordinator_inv vt bok c'"
    and "after_busy wid g c = (out, c') \<Longrightarrow> coordinator_inv vt bok c'"
    and "after_capacity wid g r c = (out, c') \<Longrightarrow> coordinator_inv vt bok c'"
    and "after_prepare wid g r c = (out, c') \<Longrightarrow> coordinator_inv vt bok c'"
  using assms erase_waiter_inv [OF assms, of wid]
  by (auto simp: after_demand_def after_busy_def after_capacity_def after_prepare_def
      leave_queue_def waiter_update_ok_def intro!: update_waiter_inv split: sum.splits if_splits)

context backend_contract
begin

lemma acquired_put:
  assumes inv: "slot_inv vt bok c" and b: "backend_ptr c n = Some b"
    and acq: "bk_acquire_slot vt b = (r, b')"
  shows "slot_inv vt bok (put_backend n b' c)"
proof (rule slot_inv_put [OF inv])
  have ok: "bok b" using slot_inv_backend [OF inv b] .
  show "bok b'" using acquire_identity [OF ok acq] by blast
  fix i l
  assume l: "lookup (active_leases c) i = Some l" "l_model l = n"
  from slot_inv_lease [OF inv l(1)] l(2) b
  have "bk_is_loaded vt b" "bk_slot_busy vt (l_backend_slot l) b" by auto
  with acquire_loaded [OF ok acq] acquire_keeps_busy [OF ok acq]
  show "bk_is_loaded vt b' \<and> bk_slot_busy vt (l_backend_slot l) b'" by simp
qed

lemma acquired_slot_unleased:
  assumes inv: "slot_inv vt bok c" and b: "backend_ptr c n = Some b"
    and acq: "bk_acquire_slot vt b = (Inr s, b')"
    and l: "lookup (active_leases c) i = Some l" "l_model l = n"
  shows "l_backend_slot l \<noteq> s"
  using slot_inv_lease [OF inv l(1)] acquire_fresh [OF slot_inv_backend [OF inv b] acq] b l(2)
  by auto

lemma acquire_and_lease_inv:
  assumes inv: "coordinator_inv vt bok c" and b: "backend_ptr c n = Some b"
    and step: "acquire_and_lease vt now n d k p b c = (r, g, c')"
  shows "coordinator_inv vt bok c'"
proof -
  have sinv: "slot_inv vt bok c" and linv: "lease_inv c" and qinv: "queue_inv c"
    using inv by (simp_all add: coordinator_inv_def)
  obtain ra b1 where acq: "bk_acquire_slot vt b = (ra, b1)" by fastforce
  let ?c1 = "put_backend n b1 c"
  have sinv1: "slot_inv vt bok ?c1" using acquired_put [OF sinv b acq] .
  have inv1: "coordinator_inv vt bok ?c1" by (rule coordinator_inv_put [OF inv sinv1])
  show ?thesis
  proof (cases ra)
    case (Inl e)
    with step acq inv1 show ?thesis by (auto simp: acquire_and_lease_def)
  next
    case (Inr s)
    note acq' = acq [unfolded Inr]
    have ok1: "bok b1" using slot_inv_backend [OF sinv1, of n b1] by simp
    note fresh = acquired_slot_unleased [OF sinv b acq']
    have busy1: "bk_slot_busy vt s b1"
      using acquire_fresh [OF slot_inv_backend [OF sinv b] acq'] by blast
    obtain ri c2 where iss: "issue_lease_locked vt now n s d k p ?c1 = (ri, c2)" by fastforce
    show ?thesis
    proof (cases ri)
      case (Inl e)
      let ?b2 = "snd (bk_release_slot vt s b1)"
      have rel: "bk_release_slot vt s b1 = (fst (bk_release_slot vt s b1), ?b2)" by simp
      have c2: "c2 = ?c1" using iss Inl by (auto dest: issue_lease_Err)
      have c': "c' = put_backend n ?b2 ?c1"
        using step acq' iss Inl c2 by (simp add: acquire_and_lease_def)
      have "slot_inv vt bok (put_backend n ?b2 ?c1)"
      proof (rule slot_inv_put [OF sinv1])
        show "bok ?b2" using release_identity [OF ok1 rel] by blast
        fix i l
        assume l: "lookup (active_leases ?c1) i = Some l" "l_model l = n"
        then have "bk_is_loaded vt b1" "bk_slot_busy vt (l_backend_slot l) b1"
          using slot_inv_lease [OF sinv1 l(1)] by auto
        moreover have "l_backend_slot l \<noteq> s" using fresh l by simp
        ultimately show "bk_is_loaded vt ?b2 \<and> bk_slot_busy vt (l_backend_slot l) ?b2"
          using release_loaded [OF ok1 rel] release_busy [OF ok1 busy1 rel] by simp
      qed
      then show ?thesis unfolding c' by (rule coordinator_inv_put [OF inv1])
    next
      case (Inr i)
      note iss' = iss [unfolded Inr]
      let ?l = "make_lease vt now n s d k p ?c1"
      have c': "c' = add_lease ?l ?c1"
        using step acq' iss' issue_lease_Ok(2) [OF iss'] by (simp add: acquire_and_lease_def)
      have "lease_inv ?c1" using inv1 by (simp add: coordinator_inv_def)
      then have "lease_inv (add_lease ?l ?c1)"
        using issue_lease_Ok(3) [OF iss'] by (intro add_lease_inv) simp_all
      moreover have "slot_inv vt bok (add_lease ?l ?c1)"
      proof (rule slot_inv_add_lease [OF sinv1 \<open>lease_inv ?c1\<close>])
        show "backend_ptr ?c1 (l_model ?l) = Some b1" by simp
        show "bk_is_loaded vt b1"
          using issue_lease_Ok(4) [OF iss'] by (simp add: healthy_def)
        show "bk_slot_busy vt (l_backend_slot ?l) b1" using busy1 by simp
        show "l_backend_slot m \<noteq> l_backend_slot ?l"
          if "lookup (active_leases ?c1) j = Some m" "l_model m = l_model ?l" for j m
          using that fresh by simp
      qed
      moreover have "queue_inv (add_lease ?l ?c1)"
        using qinv by (simp add: queue_inv_def)
      ultimately show ?thesis unfolding c' coordinator_inv_def by blast
    qed
  qed
qed

lemma release_slot_inv:
  assumes inv: "coordinator_inv vt bok c" and step: "release_slot vt now n i c = (r, c')"
  shows "coordinator_inv vt bok c'"
proof (cases "lookup (active_leases c) i")
  case None
  with inv step show ?thesis by (auto simp: release_slot_def split: if_splits)
next
  case (Some l)
  have sinv: "slot_inv vt bok c" and linv: "lease_inv c" and qinv: "queue_inv c"
    using inv by (simp_all add: coordinator_inv_def)
  from slot_inv_lease [OF sinv Some] obtain b where b: "backend_ptr c (l_model l) = Some b"
    "bok b" "bk_is_loaded vt b" "bk_slot_busy vt (l_backend_slot l) b" by blast
  obtain rr b1 where rel: "bk_release_slot vt (l_backend_slot l) b = (rr, b1)" by fastforce
  note freed = release_busy [OF b(2,4) rel]
  show ?thesis
  proof (cases "l_model l = n")
    case False
    with inv step Some show ?thesis by (auto simp: release_slot_def)
  next
    case True
    let ?c1 = "remove_lease i l (put_backend n b1 c)"
    have other: "bk_is_loaded vt b1 \<and> bk_slot_busy vt (l_backend_slot m) b1"
      if m: "lookup (active_leases c) j = Some m" "l_model m = n" "j \<noteq> i" for j m
    proof -
      have "l_backend_slot m \<noteq> l_backend_slot l"
        using sinv m Some True unfolding slot_inv_def by metis
      then show ?thesis
        using slot_inv_lease [OF sinv m(1)] m(2) b True freed release_loaded [OF b(2) rel] by auto
    qed
    have "slot_inv vt bok (put_backend n b1 (remove_lease i l c))"
    proof (rule slot_inv_put [OF slot_inv_remove_lease [OF sinv]])
      show "bok b1" using release_identity [OF b(2) rel] by blast
    qed (use other in \<open>auto split: if_splits\<close>)
    moreover have "put_backend n b1 (remove_lease i l c) = ?c1"
      by (simp add: put_backend_def remove_lease_def Let_def split: option.splits)
    moreover have "lease_inv ?c1"
      using remove_lease_inv [of "put_backend n b1 c" i l] linv Some
        lease_inv_cong [of "put_backend n b1 c" c] by simp
    moreover have "queue_inv ?c1" using qinv by (simp add: queue_inv_def)
    ultimately have "coordinator_inv vt bok ?c1" by (simp add: coordinator_inv_def)
    with step Some b True rel freed show ?thesis
      by (auto simp: release_slot_def Let_def split: sum.splits if_splits)
  qed
qed

lemma acquire_nonblocking_inv:
  assumes "coordinator_inv vt bok c" "acquire_nonblocking vt now n opts c = (r, c')"
  shows "coordinator_inv vt bok c'"
  using assms acquire_and_lease_inv
  by (auto simp: acquire_nonblocking_def split: if_splits option.splits prod.splits)

lemma grant_stage_inv:
  assumes inv: "coordinator_inv vt bok c"
    and "acquire_grant_stage vt now opts name wid c = (out, c')"
  shows "coordinator_inv vt bok c'"
proof (cases "backend_ptr c name")
  case None
  with assms show ?thesis by (auto simp: acquire_grant_stage_def split: if_splits)
next
  case (Some b)
  define d where "d = (case find_waiter c wid of None \<Rightarrow> None
      | Some w \<Rightarrow> if w_demand_prepared w then w_demand w else None)"
  obtain r g c1 where step: "acquire_and_lease vt now name d (ao_reservation_key opts)
      (ao_priority opts) b c = (r, g, c1)" by (metis prod_cases3)
  note inv1 = acquire_and_lease_inv [OF inv Some step]
  show ?thesis
    using assms(2) inv inv1 erase_waiter_inv [OF inv1, of wid] step Some
    by (auto simp: acquire_grant_stage_def leave_queue_def Let_def d_def [symmetric]
        split: if_splits sum.splits)
qed

lemma acquire_iteration_inv:
  assumes inv: "coordinator_inv vt bok c"
    and step: "acquire_iteration vt now opts name wid deadline c = (out, c')"
  shows "coordinator_inv vt bok c'"
proof -
  have "coordinator_inv vt bok (update_waiter wid (\<lambda>v. v\<lparr>w_preparing := True\<rparr>) c)"
    "coordinator_inv vt bok (update_waiter wid (\<lambda>v. v\<lparr>w_capacity_prepared := False\<rparr>) c)"
    using inv by (auto intro!: update_waiter_inv simp: waiter_update_ok_def)
  with step inv show ?thesis
    by (auto simp: acquire_iteration_def
        intro: leave_queue_inv capacity_stage_inv load_stage_inv grant_stage_inv
        split: if_splits option.splits)
qed

end

end
