(* ===== verification/Coordinator_Residency.thy ===== *)
theory Coordinator_Residency
  imports Coordinator_Invariant
begin

text \<open>
  Residency of the coordinator (\<^verbatim>\<open>libs/model/src/backend_coordinator_residency.cpp\<close>): which models
  are loaded, the VRAM ledger (declared budget, live observation), the choice of the primary
  model, the veto of the priority sessions, and the three choices \<^verbatim>\<open>prepare_capacity_for\<close> takes
  under the mutex (whose idle context to reclaim, whom to shrink, whom to evict).
\<close>

section \<open>Queries\<close>

definition is_ready :: "'b ibackend \<Rightarrow> 'b coordinator \<Rightarrow> string \<Rightarrow> bool" where
  "is_ready vt c name =
     (name \<notin> resizing_models c \<and>
      (case backend_ptr c name of None \<Rightarrow> False
       | Some b \<Rightarrow> bk_is_loaded vt b \<and> bk_execution_healthy vt b))"

text \<open>The loaded instances, in the order of the container.\<close>

definition loaded_instances :: "'b ibackend \<Rightarrow> 'b coordinator \<Rightarrow> (string \<times> 'b) list" where
  "loaded_instances vt c =
     List.map_filter (\<lambda>(name, p). case p of None \<Rightarrow> None
        | Some b \<Rightarrow> if bk_is_loaded vt b then Some (name, b) else None) (instances c)"

record model_identity_snapshot =
  is_requested :: string
  is_resolved :: string
  is_selected :: "string option"
  is_resident :: "string list"
  is_executing :: "string list"

definition identity_snapshot ::
  "'b ibackend \<Rightarrow> string \<Rightarrow> string \<Rightarrow> 'b coordinator \<Rightarrow> model_identity_snapshot" where
  "identity_snapshot vt requested resolved c =
     \<lparr>is_requested = requested, is_resolved = resolved, is_selected = current_loaded c,
      is_resident = sort (map fst (loaded_instances vt c)),
      is_executing = sort (map fst (filter (\<lambda>(n, k). 0 < k) (active_requests_by_model c)))\<rparr>"

definition get_loaded_models :: "'b ibackend \<Rightarrow> 'b coordinator \<Rightarrow> string list" where
  "get_loaded_models vt c = sort (map fst (loaded_instances vt c))"

definition current_estimate :: "'b ibackend \<Rightarrow> 'b \<Rightarrow> int" where
  "current_estimate vt b = bk_estimate_vram_mb vt (bk_n_slots vt b) b"

record residency_info =
  ri_name :: string
  ri_runtime :: string
  ri_modality :: string
  ri_role :: string
  ri_compute :: string
  ri_residency :: string
  ri_admission_pool :: string
  ri_concurrency_limit :: int
  ri_memory_required_mb :: int
  ri_eviction_eligible :: bool
  ri_slots :: int
  ri_free_slots :: int
  ri_active_requests :: int
  ri_estimated_vram_mb :: int
  ri_primary :: bool
  ri_resizing :: bool
  ri_concurrency_auto :: bool
  ri_context_pool_capacity :: int

definition residency_entry :: "'b ibackend \<Rightarrow> 'b coordinator \<Rightarrow> string \<times> 'b \<Rightarrow> residency_info" where
  "residency_entry vt c = (\<lambda>(name, b). let info = bk_info vt b in
     \<lparr>ri_name = name, ri_runtime = mi_runtime info, ri_modality = mi_modality info,
      ri_role = role_to_string (mi_role info), ri_compute = compute_to_string (mi_compute info),
      ri_residency = residency_to_string (mi_residency info),
      ri_admission_pool = mi_admission_pool info,
      ri_concurrency_limit = (if mi_concurrency_auto info then bk_n_slots vt b
                              else mi_concurrency_limit info),
      ri_memory_required_mb = mi_memory_required_mb info,
      ri_eviction_eligible = mi_eviction_eligible info,
      ri_slots = bk_n_slots vt b,
      ri_free_slots = (if name \<in> resizing_models c then 0 else bk_n_free_slots vt b),
      ri_active_requests = active_of c name,
      ri_estimated_vram_mb = current_estimate vt b,
      ri_primary = (current_loaded c = Some name),
      ri_resizing = (name \<in> resizing_models c),
      ri_concurrency_auto = mi_concurrency_auto info,
      ri_context_pool_capacity = bk_context_pool_capacity vt b\<rparr>)"

definition residency :: "'b ibackend \<Rightarrow> 'b coordinator \<Rightarrow> residency_info list" where
  "residency vt c = sort_key ri_name (map (residency_entry vt c) (loaded_instances vt c))"

section \<open>The VRAM ledger\<close>

definition get_vram_usage :: "'b ibackend \<Rightarrow> 'b coordinator \<Rightarrow> int" where
  "get_vram_usage vt c = (\<Sum>(name, b) \<leftarrow> loaded_instances vt c. bk_vram_usage_mb vt b)"

definition set_vram_budget :: "int \<Rightarrow> int \<Rightarrow> 'b coordinator \<Rightarrow> 'b coordinator" where
  "set_vram_budget total_mb safety_margin_mb c =
     (let budget = max 0 total_mb; margin = max 0 safety_margin_mb in
      if budget \<noteq> vram_budget_mb c \<or> margin \<noteq> vram_safety_margin_mb c
      then bump_generation (c\<lparr>vram_budget_mb := budget, vram_safety_margin_mb := margin\<rparr>)
      else c)"

definition live_vram_observation_ttl :: duration where
  "live_vram_observation_ttl = ms 3000"

definition live_vram_observation_fresh_locked :: "time_point \<Rightarrow> 'b coordinator \<Rightarrow> bool" where
  "live_vram_observation_fresh_locked now c =
     (0 < observed_vram_total_mb c \<and> observed_vram_at c \<noteq> 0 \<and>
      now - observed_vram_at c \<le> live_vram_observation_ttl)"

definition live_vram_observation_usable_locked ::
  "'b ibackend \<Rightarrow> time_point \<Rightarrow> 'b coordinator \<Rightarrow> bool" where
  "live_vram_observation_usable_locked vt now c =
     (live_vram_observation_fresh_locked now c \<and>
      \<not> list_ex (\<lambda>(name, b). 0 < current_estimate vt b \<and>
                             \<not> bk_live_vram_accounting_complete vt b)
          (loaded_instances vt c))"

definition invalidate_vram_observation_locked :: "'b coordinator \<Rightarrow> 'b coordinator" where
  "invalidate_vram_observation_locked c = c\<lparr>observed_vram_at := 0\<rparr>"

definition update_vram_observation ::
  "time_point \<Rightarrow> int \<Rightarrow> int \<Rightarrow> 'b coordinator \<Rightarrow> 'b coordinator" where
  "update_vram_observation now used_mb total_mb c =
     (let was_fresh = live_vram_observation_fresh_locked now c in
      if total_mb \<le> 0 \<or> used_mb < 0
      then let changed = (observed_vram_total_mb c \<noteq> 0 \<or> observed_vram_used_mb c \<noteq> 0 \<or>
                          observed_vram_at c \<noteq> 0);
               c1 = c\<lparr>observed_vram_used_mb := 0, observed_vram_total_mb := 0,
                       observed_vram_at := 0\<rparr>
           in (if changed then bump_generation c1 else c1)
      else let used = min used_mb total_mb;
               changed = (\<not> was_fresh \<or> observed_vram_total_mb c \<noteq> total_mb \<or>
                          observed_vram_used_mb c \<noteq> used);
               c1 = c\<lparr>observed_vram_total_mb := total_mb, observed_vram_used_mb := used,
                       observed_vram_at := now\<rparr>
           in (if changed then bump_generation c1 else c1))"

definition estimated_vram_locked :: "'b ibackend \<Rightarrow> 'b coordinator \<Rightarrow> int" where
  "estimated_vram_locked vt c = (\<Sum>(name, b) \<leftarrow> loaded_instances vt c. current_estimate vt b)"

text \<open>What a loaded GPU backend reserves beyond what the live observation already shows.\<close>

definition live_reserve :: "'b ibackend \<Rightarrow> 'b \<Rightarrow> int" where
  "live_reserve vt b =
     (if current_estimate vt b \<le> 0 then 0
      else if bk_live_vram_accounting_complete vt b
        then max 0 (bk_additional_vram_reserve_mb vt b)
      else max 0 (current_estimate vt b))"

definition available_vram_locked :: "'b ibackend \<Rightarrow> time_point \<Rightarrow> 'b coordinator \<Rightarrow> int" where
  "available_vram_locked vt now c =
     (if vram_budget_mb c \<le> 0 then 0
      else let declared_available =
                 max 0 (vram_budget_mb c - vram_safety_margin_mb c - estimated_vram_locked vt c)
           in if live_vram_observation_fresh_locked now c
              then let capacity = min (vram_budget_mb c) (observed_vram_total_mb c);
                       reserved = (\<Sum>(name, b) \<leftarrow> loaded_instances vt c. live_reserve vt b);
                       available = capacity - vram_safety_margin_mb c
                                   - observed_vram_used_mb c - reserved;
                       observed_available = clamp available 0 INT_MAX
                   in (if live_vram_observation_usable_locked vt now c then observed_available
                       else min declared_available observed_available)
              else declared_available)"

section \<open>The primary model\<close>

definition select_primary_step ::
  "'b ibackend \<Rightarrow> string \<times> 'b \<Rightarrow> string option \<times> int \<Rightarrow> string option \<times> int" where
  "select_primary_step vt = (\<lambda>(name, b) (selected, selected_vram).
     if is_primary_model (bk_info vt b)
     then let vram = current_estimate vt b in
       (if vram < selected_vram \<or>
           (vram = selected_vram \<and> (case selected of None \<Rightarrow> False | Some s \<Rightarrow> s < name))
        then (selected, selected_vram) else (Some name, vram))
     else (selected, selected_vram))"

definition select_primary_locked :: "'b ibackend \<Rightarrow> 'b coordinator \<Rightarrow> 'b coordinator" where
  "select_primary_locked vt c =
     c\<lparr>current_loaded := fst (fold (select_primary_step vt) (loaded_instances vt c) (None, -1))\<rparr>"

section \<open>Priority sessions\<close>

definition require_priority_session_allows ::
  "time_point \<Rightarrow> string \<Rightarrow> 'b coordinator \<Rightarrow> unit result \<times> 'b coordinator" where
  "require_priority_session_allows now name c =
     (if list_ex (\<lambda>(key, s). session_live now s \<and> s_model s \<noteq> name) (priority_sessions c)
      then (Err ResourceBusy (''voice session has priority before loading model: '' @ name),
            (bump_generation c)\<lparr>last_resource_decision :=
               ''voice session reserved before loading '' @ name\<rparr>)
      else (Ok (), c))"

section \<open>Candidates for making room\<close>

definition idle :: "'b coordinator \<Rightarrow> string \<Rightarrow> bool" where
  "idle c name = (\<not> 0 < active_of c name)"

definition reclaim_eligible ::
  "'b ibackend \<Rightarrow> string \<Rightarrow> string set \<Rightarrow> 'b coordinator \<Rightarrow> string \<times> 'b \<Rightarrow> bool" where
  "reclaim_eligible vt name attempts c = (\<lambda>(loaded_name, b).
     \<not> (loaded_name = name \<or> loaded_name \<in> resizing_models c \<or> loaded_name \<in> attempts \<or>
        \<not> bk_execution_healthy vt b \<or> \<not> idle c loaded_name \<or> current_estimate vt b \<le> 0 \<or>
        \<not> bk_can_reclaim_idle_context vt b))"

definition reclaim_candidate ::
  "'b ibackend \<Rightarrow> string \<Rightarrow> string set \<Rightarrow> 'b coordinator \<Rightarrow> string option" where
  "reclaim_candidate vt name attempts c =
     map_option fst (find (reclaim_eligible vt name attempts c) (loaded_instances vt c))"

definition shrink_eligible :: "'b ibackend \<Rightarrow> string \<Rightarrow> 'b coordinator \<Rightarrow> string \<times> 'b \<Rightarrow> bool" where
  "shrink_eligible vt name c = (\<lambda>(loaded_name, b).
     \<not> (loaded_name = name \<or> \<not> idle c loaded_name \<or> current_estimate vt b \<le> 0 \<or>
        mi_residency (bk_info vt b) = Always \<or> \<not> bk_can_resize_slots vt b \<or>
        bk_n_slots vt b \<le> bk_min_slots vt b))"

definition shrink_candidate ::
  "'b ibackend \<Rightarrow> string \<Rightarrow> 'b coordinator \<Rightarrow> (string \<times> int) option" where
  "shrink_candidate vt name c =
     map_option (\<lambda>(n, b). (n, bk_n_slots vt b - 1))
       (find (shrink_eligible vt name c) (loaded_instances vt c))"

definition evict_eligible :: "'b ibackend \<Rightarrow> string \<Rightarrow> 'b coordinator \<Rightarrow> string \<times> 'b \<Rightarrow> bool" where
  "evict_eligible vt name c = (\<lambda>(loaded_name, b).
     loaded_name \<noteq> name \<and> mi_eviction_eligible (bk_info vt b) \<and>
     mi_residency (bk_info vt b) \<noteq> Always \<and>
     (\<not> has_key (active_requests_by_model c) loaded_name \<or> active_of c loaded_name = 0))"

definition evict_step ::
  "'b ibackend \<Rightarrow> string \<Rightarrow> 'b coordinator \<Rightarrow> string \<times> 'b \<Rightarrow> string \<times> int \<Rightarrow> string \<times> int" where
  "evict_step vt name c = (\<lambda>(loaded_name, b) (candidate, candidate_vram).
     if evict_eligible vt name c (loaded_name, b) \<and> candidate_vram < current_estimate vt b
     then (loaded_name, current_estimate vt b) else (candidate, candidate_vram))"

text \<open>The largest idle model that may be evicted; the empty name when there is none.\<close>

definition evict_candidate :: "'b ibackend \<Rightarrow> string \<Rightarrow> 'b coordinator \<Rightarrow> string" where
  "evict_candidate vt name c = fst (fold (evict_step vt name c) (loaded_instances vt c) ([], 0))"

text \<open>The active GPU models that keep the room occupied, as listed in the error message.\<close>

definition capacity_blockers :: "'b ibackend \<Rightarrow> 'b coordinator \<Rightarrow> string list" where
  "capacity_blockers vt c =
     map fst (filter (\<lambda>(n, b). 0 < current_estimate vt b \<and> 0 < active_of c n)
                (loaded_instances vt c))"

definition join_names :: "string list \<Rightarrow> string" where
  "join_names ns = fold (\<lambda>n acc. if acc \<noteq> [] then acc @ '','' @ n else n) ns []"

definition capacity_verdict ::
  "'b ibackend \<Rightarrow> time_point \<Rightarrow> string \<Rightarrow> int \<Rightarrow> 'b coordinator \<Rightarrow> unit result \<times> 'b coordinator" where
  "capacity_verdict vt now name required c =
     (let available = available_vram_locked vt now c;
          blockers = capacity_blockers vt c;
          maximum_available = max 0 (vram_budget_mb c - vram_safety_margin_mb c)
      in if blockers \<noteq> [] \<and> required \<le> maximum_available
         then (Err ResourceBusy (''VRAM capacity for '' @ name @
                 '' is temporarily held by active model(s): '' @ join_names blockers),
               c\<lparr>last_resource_decision :=
                   ''waiting for active residency before loading '' @ name\<rparr>)
         else (Err OutOfMemory (''insufficient VRAM for '' @ name @ '': required_mb='' @
                 string_of_int required @ '' available_mb='' @ string_of_int available),
               c\<lparr>last_resource_decision := ''insufficient VRAM for '' @ name\<rparr>))"

end
