(* ===== verification/Coordinator_Steps.thy ===== *)
theory Coordinator_Steps
  imports Coordinator_Residency
begin

text \<open>
  The critical sections that any thread may run at any time, whoever holds the lifecycle mutexes:
  the queue, the leases, the sessions, the VRAM telemetry and the swap-cancel flag. \<open>shared_step\<close>
  is the relation of one such section; \<open>keeps\<close> is what every one of them leaves alone, and so
  what an operation that holds a lifecycle mutex may rely on while it is off the coordinator's
  mutex.
\<close>

section \<open>Swap flags\<close>

definition request_swap_cancel :: "'b coordinator \<Rightarrow> 'b coordinator" where
  "request_swap_cancel c = c\<lparr>swap_cancel := True\<rparr>"

definition reset_swap_cancel :: "'b coordinator \<Rightarrow> 'b coordinator" where
  "reset_swap_cancel c = c\<lparr>swap_cancel := False\<rparr>"

section \<open>The steps\<close>

inductive shared_step :: "'b ibackend \<Rightarrow> 'b coordinator \<Rightarrow> 'b coordinator \<Rightarrow> bool" for vt where
  enqueue: "acquire_enqueue now name opts c = (r, c') \<Longrightarrow> shared_step vt c c'"
| iterate: "acquire_iteration vt now opts name wid deadline c = (out, c') \<Longrightarrow> shared_step vt c c'"
| demanded: "after_demand wid rd c = (out, c') \<Longrightarrow> shared_step vt c c'"
| capacity: "after_capacity wid g r c = (out, c') \<Longrightarrow> shared_step vt c c'"
| prepared: "after_prepare wid g r c = (out, c') \<Longrightarrow> shared_step vt c c'"
| try_acquire: "acquire_nonblocking vt now name opts c = (r, c') \<Longrightarrow> shared_step vt c c'"
| give_back: "release_slot vt now name i c = (r, c') \<Longrightarrow> shared_step vt c c'"
| session_reserve: "shared_step vt c (snd (reserve_priority_session now key model d c))"
| session_refresh: "shared_step vt c (snd (refresh_priority_session now key token d c))"
| session_hold: "shared_step vt c (snd (hold_priority_session now key model c))"
| session_complete: "shared_step vt c (complete_priority_session_hold now key token d c)"
| session_release: "shared_step vt c (release_priority_session key token c)"
| queue_limit: "shared_step vt c (set_max_queue_size n c)"
| budget: "shared_step vt c (set_vram_budget total_mb margin_mb c)"
| telemetry: "shared_step vt c (update_vram_observation now used total_mb c)"
| cancel_swap: "shared_step vt c (request_swap_cancel c)"

section \<open>What they leave alone\<close>

definition keeps :: "'b ibackend \<Rightarrow> 'b coordinator \<Rightarrow> 'b coordinator \<Rightarrow> bool" where
  "keeps vt c c' =
     (draining_models c' = draining_models c \<and> resizing_models c' = resizing_models c \<and>
      current_loaded c' = current_loaded c \<and> registry c' = registry c \<and>
      swap_in_progress c' = swap_in_progress c \<and>
      (\<forall>n. rel_option (same_identity vt) (backend_ptr c n) (backend_ptr c' n)) \<and>
      (\<forall>n. n \<in> draining_models c \<union> resizing_models c \<longrightarrow> leases_of c' n \<le> leases_of c n))"

lemma same_identity_refl [simp]: "same_identity vt b b"
  by (simp add: same_identity_def)

lemma same_identity_trans:
  "same_identity vt a b \<Longrightarrow> same_identity vt b d \<Longrightarrow> same_identity vt a d"
  by (simp add: same_identity_def)

lemma rel_identity_refl [simp]: "rel_option (same_identity vt) p p"
  by (cases p) simp_all

lemma rel_identity_trans:
  "rel_option (same_identity vt) p q \<Longrightarrow> rel_option (same_identity vt) q r \<Longrightarrow>
     rel_option (same_identity vt) p r"
  by (cases p; cases q; cases r) (auto intro: same_identity_trans)

lemma keeps_refl [simp]: "keeps vt c c"
  by (simp add: keeps_def)

lemma keeps_trans: "keeps vt c c' \<Longrightarrow> keeps vt c' c'' \<Longrightarrow> keeps vt c c''"
  unfolding keeps_def by (auto intro: rel_identity_trans order.trans)

lemma keeps_frame:
  assumes "draining_models c' = draining_models c" "resizing_models c' = resizing_models c"
    "current_loaded c' = current_loaded c" "registry c' = registry c"
    "swap_in_progress c' = swap_in_progress c" "instances c' = instances c"
    "active_leases c' = active_leases c"
  shows "keeps vt c c'"
  using assms by (simp add: keeps_def leases_of_def backend_ptr_def)

lemma keeps_ptr:
  "keeps vt c c' \<Longrightarrow> rel_option (same_identity vt) (backend_ptr c n) (backend_ptr c' n)"
  by (simp add: keeps_def)

lemma keeps_resident: "keeps vt c c' \<Longrightarrow> resident vt c' n = resident vt c n"
  using keeps_ptr [of vt c c' n]
  by (cases "backend_ptr c n"; cases "backend_ptr c' n")
    (auto simp: resident_def same_identity_def)

lemma keeps_present: "keeps vt c c' \<Longrightarrow> backend_ptr c' n = None \<longleftrightarrow> backend_ptr c n = None"
  using keeps_ptr [of vt c c' n] by (cases "backend_ptr c n"; cases "backend_ptr c' n") auto

lemma keeps_put_backend:
  assumes "backend_ptr c n = Some b" "same_identity vt b b'"
  shows "keeps vt c (put_backend n b' c)"
  using assms by (simp add: keeps_def leases_of_def) (simp add: put_backend_def)

lemma keeps_erase_waiter [simp]: "keeps vt c (erase_waiter_locked wid c)"
  by (rule keeps_frame) (simp_all add: erase_waiter_locked_def)

lemma keeps_update_waiter [simp]: "keeps vt c (update_waiter wid f c)"
  by (rule keeps_frame) (simp_all add: update_waiter_def)

lemma keeps_bump [simp]: "keeps vt c (bump_generation c)"
  by (rule keeps_frame) (simp_all add: bump_generation_def)

lemma keeps_hold [simp]: "keeps vt c (leave_continuation_hold vt now l b c)"
  by (rule keeps_frame) (simp_all add: leave_continuation_hold_def Let_def)

lemma keeps_after_release:
  "keeps vt c c1 \<Longrightarrow> keeps vt c (leave_continuation_hold vt now l b c1)"
  "keeps vt c c1 \<Longrightarrow> keeps vt c (leave_continuation_hold vt now l b (bump_generation c1))"
  by (erule keeps_trans, simp) (erule keeps_trans, rule keeps_trans [OF keeps_bump keeps_hold])

lemma keeps_leave_queue: "leave_queue wid r c = (out, c') \<Longrightarrow> keeps vt c c'"
  by (auto simp: leave_queue_def)

lemma keeps_add_lease:
  assumes "lease_inv c" "l_model l \<notin> draining_models c" "l_model l \<notin> resizing_models c"
  shows "keeps vt c (add_lease l c)"
proof -
  have "swap_in_progress (add_lease l c) = swap_in_progress c"
    "current_loaded (add_lease l c) = current_loaded c" by (simp_all add: add_lease_def Let_def)
  with assms show ?thesis by (auto simp: keeps_def add_lease_sums)
qed

lemma keeps_remove_lease:
  assumes "lease_inv c" "lookup (active_leases c) i = Some l"
  shows "keeps vt c (remove_lease i l c)"
proof -
  have "swap_in_progress (remove_lease i l c) = swap_in_progress c"
    "current_loaded (remove_lease i l c) = current_loaded c"
    "draining_models (remove_lease i l c) = draining_models c"
    "resizing_models (remove_lease i l c) = resizing_models c"
    by (simp_all add: remove_lease_def Let_def)
  with assms show ?thesis by (simp add: keeps_def remove_lease_sums)
qed

lemma keeps_sessions [simp]:
  "keeps vt c (snd (reserve_priority_session now key model d c))"
  "keeps vt c (snd (refresh_priority_session now key token d c))"
  "keeps vt c (snd (hold_priority_session now key model c))"
  "keeps vt c (complete_priority_session_hold now key token d c)"
  "keeps vt c (release_priority_session key token c)"
  "keeps vt c (set_max_queue_size n c)"
  "keeps vt c (set_vram_budget total_mb margin_mb c)"
  "keeps vt c (update_vram_observation now used total_mb c)"
  "keeps vt c (request_swap_cancel c)"
  "keeps vt c (snd (acquire_enqueue now name opts c))"
  by (rule keeps_frame; simp add: reserve_priority_session_def refresh_priority_session_def
      hold_priority_session_def complete_priority_session_hold_def release_priority_session_def
      set_max_queue_size_def set_vram_budget_def update_vram_observation_def
      request_swap_cancel_def acquire_enqueue_def bump_generation_def Let_def
      split: option.split)+

lemma ledger_ops_inv [coord_inv]:
  assumes "coordinator_inv vt bok c"
  shows "coordinator_inv vt bok (set_vram_budget total_mb margin_mb c)"
    and "coordinator_inv vt bok (update_vram_observation now used total_mb c)"
    and "coordinator_inv vt bok (invalidate_vram_observation_locked c)"
    and "coordinator_inv vt bok (request_swap_cancel c)"
    and "coordinator_inv vt bok (reset_swap_cancel c)"
    and "coordinator_inv vt bok (snd (require_priority_session_allows now name c))"
  using assms
  by (simp_all add: set_vram_budget_def update_vram_observation_def request_swap_cancel_def
      reset_swap_cancel_def invalidate_vram_observation_locked_def
      require_priority_session_allows_def Let_def
      coordinator_inv_cong [of "c\<lparr>vram_budget_mb := _, vram_safety_margin_mb := _\<rparr>" c]
      coordinator_inv_cong [of "c\<lparr>observed_vram_used_mb := _, observed_vram_total_mb := _,
         observed_vram_at := _\<rparr>" c]
      coordinator_inv_cong [of "c\<lparr>observed_vram_total_mb := _, observed_vram_used_mb := _,
         observed_vram_at := _\<rparr>" c]
      coordinator_inv_cong [of "c\<lparr>observed_vram_at := _\<rparr>" c]
      coordinator_inv_cong [of "c\<lparr>swap_cancel := _\<rparr>" c]
      coordinator_inv_cong [of "(bump_generation c)\<lparr>last_resource_decision := _\<rparr>"
         "bump_generation c"])

context backend_contract
begin

lemma acquire_and_lease_keeps:
  assumes inv: "coordinator_inv vt bok c" and b: "backend_ptr c n = Some b"
    and step: "acquire_and_lease vt now n d k p b c = (r, g, c')"
  shows "keeps vt c c'"
proof -
  have ok: "bok b" using inv b by (auto simp: coordinator_inv_def intro: slot_inv_backend)
  obtain ra b1 where acq: "bk_acquire_slot vt b = (ra, b1)" by fastforce
  let ?c1 = "put_backend n b1 c"
  have id1: "same_identity vt b b1" "bok b1" using acquire_identity [OF ok acq] by auto
  have k1: "keeps vt c ?c1" using keeps_put_backend [OF b id1(1)] .
  have linv: "lease_inv ?c1" using inv lease_inv_cong [of ?c1 c] by (simp add: coordinator_inv_def)
  show ?thesis
  proof (cases ra)
    case (Inl e)
    with step acq k1 show ?thesis by (auto simp: acquire_and_lease_def)
  next
    case (Inr s)
    obtain ri c2 where iss: "issue_lease_locked vt now n s d k p ?c1 = (ri, c2)" by fastforce
    show ?thesis
    proof (cases ri)
      case (Inl e)
      let ?b2 = "snd (bk_release_slot vt s b1)"
      have "same_identity vt b1 ?b2"
        using release_identity [OF id1(2), of s "fst (bk_release_slot vt s b1)" ?b2] by simp
      then have "keeps vt ?c1 (put_backend n ?b2 ?c1)" by (intro keeps_put_backend) simp_all
      moreover have "c' = put_backend n ?b2 ?c1"
        using step acq iss Inr Inl issue_lease_Err by (fastforce simp: acquire_and_lease_def)
      ultimately show ?thesis using k1 by (auto intro: keeps_trans)
    next
      case (Inr i)
      note iss' = issue_lease_Ok [OF iss [unfolded Inr]]
      have "c' = c2" using step acq iss Inr \<open>ra = Inr s\<close> by (simp add: acquire_and_lease_def)
      moreover have "keeps vt ?c1 c2" unfolding iss'(2)
        by (rule keeps_add_lease [OF linv]) (use iss' in simp_all)
      ultimately show ?thesis using k1 by (auto intro: keeps_trans)
    qed
  qed
qed

lemma release_slot_keeps:
  assumes inv: "coordinator_inv vt bok c" and step: "release_slot vt now n i c = (r, c')"
  shows "keeps vt c c'"
proof (cases "lookup (active_leases c) i")
  case None
  with step show ?thesis by (auto simp: release_slot_def split: if_splits)
next
  case (Some l)
  show ?thesis
  proof (cases "l_model l = n \<and> backend_ptr c n \<noteq> None")
    case False
    with step Some show ?thesis by (auto simp: release_slot_def split: if_splits)
  next
    case True
    then obtain b where b: "backend_ptr c n = Some b" by blast
    obtain rr b1 where rel: "bk_release_slot vt (l_backend_slot l) b = (rr, b1)" by fastforce
    have "bok b" using inv b by (auto simp: coordinator_inv_def intro: slot_inv_backend)
    then have k1: "keeps vt c (put_backend n b1 c)"
      using release_identity [OF _ rel] b by (auto intro: keeps_put_backend)
    moreover have "keeps vt (put_backend n b1 c) (remove_lease i l (put_backend n b1 c))"
      using inv Some lease_inv_cong [of "put_backend n b1 c" c]
      by (intro keeps_remove_lease) (simp_all add: coordinator_inv_def)
    ultimately have "keeps vt c (remove_lease i l (put_backend n b1 c))" by (rule keeps_trans)
    with k1 step Some b True rel show ?thesis
      by (auto simp: release_slot_def Let_def split: sum.splits if_splits
          intro: keeps_after_release)
  qed
qed

lemma grant_stage_keeps:
  assumes inv: "coordinator_inv vt bok c"
    and step: "acquire_grant_stage vt now opts name wid c = (out, c')"
  shows "keeps vt c c'"
proof (cases "backend_ptr c name")
  case None
  with step show ?thesis by (auto simp: acquire_grant_stage_def split: if_splits)
next
  case (Some b)
  define d where "d = (case find_waiter c wid of None \<Rightarrow> None
      | Some w \<Rightarrow> if w_demand_prepared w then w_demand w else None)"
  obtain r g c1 where al: "acquire_and_lease vt now name d (ao_reservation_key opts)
      (ao_priority opts) b c = (r, g, c1)" by (metis prod_cases3)
  note k1 = acquire_and_lease_keeps [OF inv Some al]
  show ?thesis
    using step k1 al Some keeps_trans [OF k1 keeps_erase_waiter]
    by (auto simp: acquire_grant_stage_def leave_queue_def Let_def d_def [symmetric]
        split: if_splits sum.splits)
qed

lemma acquire_iteration_keeps:
  assumes inv: "coordinator_inv vt bok c"
    and step: "acquire_iteration vt now opts name wid deadline c = (out, c')"
  shows "keeps vt c c'"
  using step
  by (auto simp: acquire_iteration_def acquire_capacity_stage_def acquire_load_stage_def
      leave_queue_def Let_def intro: grant_stage_keeps [OF inv] split: if_splits option.splits)

lemma acquire_nonblocking_keeps:
  assumes inv: "coordinator_inv vt bok c"
    and step: "acquire_nonblocking vt now name opts c = (r, c')"
  shows "keeps vt c c'"
  using step acquire_and_lease_keeps [OF inv]
  by (auto simp: acquire_nonblocking_def split: if_splits option.splits prod.splits)

theorem shared_step_inv:
  assumes "shared_step vt c c'" "coordinator_inv vt bok c"
  shows "coordinator_inv vt bok c' \<and> keeps vt c c'"
  using assms
proof (cases rule: shared_step.cases)
  case (enqueue now name opts r)
  then have "c' = snd (acquire_enqueue now name opts c)" by simp
  with assms(2) show ?thesis by (simp add: acquire_enqueue_inv)
next
  case iterate
  with assms(2) show ?thesis by (blast intro: acquire_iteration_inv acquire_iteration_keeps)
next
  case (demanded wid rd out)
  with assms(2) show ?thesis using callbacks_inv(1) [OF assms(2)]
    by (auto simp: after_demand_def leave_queue_def split: sum.splits)
next
  case (capacity wid g r out)
  with assms(2) show ?thesis using callbacks_inv(3) [OF assms(2)]
    by (auto simp: after_capacity_def after_busy_def leave_queue_def split: sum.splits if_splits)
next
  case (prepared wid g r out)
  with assms(2) show ?thesis using callbacks_inv(4) [OF assms(2)]
    by (auto simp: after_prepare_def after_busy_def leave_queue_def split: sum.splits if_splits)
next
  case try_acquire
  with assms(2) show ?thesis by (blast intro: acquire_nonblocking_inv acquire_nonblocking_keeps)
next
  case give_back
  with assms(2) show ?thesis by (blast intro: release_slot_inv release_slot_keeps)
qed (simp_all add: session_ops_inv ledger_ops_inv assms(2))

lemma shared_steps_inv:
  assumes "(shared_step vt)\<^sup>*\<^sup>* c c'" "coordinator_inv vt bok c"
  shows "coordinator_inv vt bok c' \<and> keeps vt c c'"
  using assms by (induction rule: rtranclp_induct) (auto dest: shared_step_inv intro: keeps_trans)

end

end
