(* ===== verification/Coordinator_Lifecycle.thy ===== *)
theory Coordinator_Lifecycle
  imports Coordinator_Steps
begin

text \<open>
  Loading and unloading (\<^verbatim>\<open>libs/model/src/backend_coordinator_lifecycle.cpp\<close>, up to
  \<^verbatim>\<open>ensure_loaded\<close>). These operations span several critical sections, sleeps, waits on the
  condition variable and calls on a backend made off the mutex.

  \<^bold>\<open>The world.\<close> A \<open>world\<close> is the coordinator, the clock, which lifecycle mutexes other threads
  leave free, and a schedule. Every point at which the operation is off the mutex (a sleep, a
  wait, a backend call, the gap between two critical sections) consumes one \<open>tick\<close> of the
  schedule: how much time passed, what the other threads did to the coordinator, and which
  lifecycle mutexes are free now. A theorem about every schedule is a theorem about every
  interleaving. An operation is a function from worlds to an optional result and world: \<open>None\<close>
  says that the schedule ended before the operation did. Loops are \<^theory_text>\<open>partial_function (option)\<close>,
  so a loop that never ends is \<open>None\<close> as well.

  A backend call made off the mutex takes effect at the end of its tick; what the backend sees of
  its control is read when the call starts and when it ends. The lifecycle mutexes are recursive:
  \<open>held\<close> is the set of those the calling thread already owns.
\<close>

section \<open>The world\<close>

datatype lifecycle_lock = SwapMutex | SidecarMutex

record 'b tick =
  tk_elapsed :: nat
  tk_env :: "'b coordinator \<Rightarrow> 'b coordinator"
  tk_free :: "lifecycle_lock \<Rightarrow> bool"

record 'b world =
  coord :: "'b coordinator"
  clk :: time_point
  lock_free :: "lifecycle_lock \<Rightarrow> bool"
  sched :: "'b tick list"

definition pause :: "'b world \<Rightarrow> 'b world option" where
  "pause w =
     (case sched w of
        [] \<Rightarrow> None
      | t # ts \<Rightarrow> Some \<lparr>coord = tk_env t (coord w), clk = clk w + int (tk_elapsed t),
                       lock_free = tk_free t, sched = ts\<rparr>)"

definition section_of :: "('b coordinator \<Rightarrow> 'b coordinator) \<Rightarrow> 'b world \<Rightarrow> 'b world" where
  "section_of f w = w\<lparr>coord := f (coord w)\<rparr>"

definition cancelled_at :: "lifecycle_control \<Rightarrow> 'b world \<Rightarrow> bool" where
  "cancelled_at ctl w = is_cancelled ctl (swap_cancel (coord w)) (clk w)"

definition expired_at :: "lifecycle_control \<Rightarrow> 'b world \<Rightarrow> bool" where
  "expired_at ctl w = is_expired ctl (clk w)"

definition control_seen :: "lifecycle_control \<Rightarrow> 'b world \<Rightarrow> 'b world \<Rightarrow> control_view" where
  "control_seen ctl w0 w1 =
     \<lparr>cv_cancelled_in = cancelled_at ctl w0, cv_expired_in = expired_at ctl w0,
      cv_cancelled_out = cancelled_at ctl w1, cv_expired_out = expired_at ctl w1\<rparr>"

text \<open>A call on the backend behind a name, off the mutex. A dangling pointer has no outcome.\<close>

definition call_instance ::
  "string \<Rightarrow> (control_view \<Rightarrow> 'b \<Rightarrow> 'a \<times> 'b) \<Rightarrow> lifecycle_control \<Rightarrow> 'b world \<Rightarrow>
     ('a \<times> 'b world) option" where
  "call_instance name f ctl w =
     do { w1 \<leftarrow> pause w;
          b \<leftarrow> backend_ptr (coord w1) name;
          let (r, b') = f (control_seen ctl w w1) b;
          Some (r, section_of (put_backend name b') w1) }"

section \<open>Lifecycle mutexes\<close>

definition lock_of :: "'b coordinator \<Rightarrow> string \<Rightarrow> lifecycle_lock" where
  "lock_of c name =
     (case get_info_result (registry c) name of
        Inl _ \<Rightarrow> SwapMutex
      | Inr info \<Rightarrow> if is_independent_sidecar info then SidecarMutex else SwapMutex)"

definition try_lock :: "lifecycle_lock set \<Rightarrow> lifecycle_lock \<Rightarrow> 'b world \<Rightarrow> bool" where
  "try_lock held l w = (l \<in> held \<or> lock_free w l)"

text \<open>The loop of unloading and swapping: try, then look at the control, then sleep.\<close>

partial_function (option) wait_lifecycle_lock ::
  "lifecycle_lock set \<Rightarrow> lifecycle_lock \<Rightarrow> lifecycle_control \<Rightarrow> string \<Rightarrow> string \<Rightarrow> 'b world \<Rightarrow>
     (unit result \<times> 'b world) option" where
  "wait_lifecycle_lock held l ctl cancelled_message timeout_message w =
     (if try_lock held l w then Some (Ok (), w)
      else if cancelled_at ctl w then Some (Err Cancelled cancelled_message, w)
      else if expired_at ctl w then Some (Err Timeout timeout_message, w)
      else Option.bind (pause w)
             (wait_lifecycle_lock held l ctl cancelled_message timeout_message))"

declare wait_lifecycle_lock.simps [code]

text \<open>The loop of loading: look at the control, then try, then sleep.\<close>

partial_function (option) wait_load_lock ::
  "lifecycle_lock set \<Rightarrow> lifecycle_lock \<Rightarrow> lifecycle_control \<Rightarrow> string \<Rightarrow> 'b world \<Rightarrow>
     (unit result \<times> 'b world) option" where
  "wait_load_lock held l ctl name w =
     (if cancelled_at ctl w then Some (Err Cancelled (''model load cancelled: '' @ name), w)
      else if expired_at ctl w
        then Some (Err Timeout (''timeout waiting to start model load: '' @ name), w)
      else if try_lock held l w then Some (Ok (), w)
      else Option.bind (pause w) (wait_load_lock held l ctl name))"

declare wait_load_lock.simps [code]

section \<open>Unloading\<close>

definition start_draining :: "string \<Rightarrow> 'b coordinator \<Rightarrow> 'b coordinator" where
  "start_draining name c = c\<lparr>draining_models := insert name (draining_models c)\<rparr>"

definition stop_draining :: "string \<Rightarrow> 'b coordinator \<Rightarrow> 'b coordinator" where
  "stop_draining name c = c\<lparr>draining_models := draining_models c - {name}\<rparr>"

definition has_active_requests :: "'b coordinator \<Rightarrow> string \<Rightarrow> bool" where
  "has_active_requests c name = (0 < active_of c name)"

partial_function (option) drain_requests ::
  "string \<Rightarrow> lifecycle_control \<Rightarrow> time_point \<Rightarrow> 'b world \<Rightarrow> 'b world option" where
  "drain_requests name ctl drain_deadline w =
     (if has_active_requests (coord w) name \<and> clk w < drain_deadline \<and> \<not> cancelled_at ctl w
      then Option.bind (pause w) (drain_requests name ctl drain_deadline)
      else Some w)"

declare drain_requests.simps [code]

text \<open>Taking the instance out of the coordinator.\<close>

definition detach_instance :: "'b ibackend \<Rightarrow> string \<Rightarrow> 'b coordinator \<Rightarrow> 'b coordinator" where
  "detach_instance vt name c =
     (let c1 = (if backend_ptr c name = None then c
                else c\<lparr>instances := AList.delete name (instances c)\<rparr>)
      in if current_loaded c1 = Some name
         then select_primary_locked vt (c1\<lparr>current_loaded := None\<rparr>) else c1)"

definition settle_unload ::
  "string \<Rightarrow> unit result \<Rightarrow> 'b option \<Rightarrow> bool \<Rightarrow> int \<Rightarrow> 'b coordinator \<Rightarrow> 'b coordinator" where
  "settle_unload name r instance was_primary released_vram c =
     (let c1 = (case instance of
                  Some b \<Rightarrow> if is_ok r then c
                           else let k = put_backend name b c in
                             (if was_primary then k\<lparr>current_loaded := Some name\<rparr> else k)
                | None \<Rightarrow> c);
          c2 = (if is_ok r then c1\<lparr>active_requests_by_model :=
                                     AList.delete name (active_requests_by_model c1)\<rparr> else c1);
          c3 = stop_draining name c2
      in if is_ok r \<and> 0 < released_vram
         then bump_generation (invalidate_vram_observation_locked c3) else c3)"

definition unload_detached ::
  "'b ibackend \<Rightarrow> string \<Rightarrow> lifecycle_control \<Rightarrow> 'b world \<Rightarrow> (unit result \<times> 'b world) option" where
  "unload_detached vt name ctl w =
     (let c = coord w;
          instance = backend_ptr c name;
          released_vram = (case instance of None \<Rightarrow> 0 | Some b \<Rightarrow> current_estimate vt b);
          was_primary = (current_loaded c = Some name);
          w1 = section_of (detach_instance vt name) w
      in do { w2 \<leftarrow> pause w1;
              let (r, kept) = (case instance of
                     None \<Rightarrow> (Ok (), None)
                   | Some b \<Rightarrow> (case bk_unload vt (control_seen ctl w1 w2) b of
                                 (r, b') \<Rightarrow> (r, Some b')));
              Some (r, section_of (settle_unload name r kept was_primary released_vram) w2) })"

definition unload_with_control ::
  "'b ibackend \<Rightarrow> lifecycle_lock set \<Rightarrow> string \<Rightarrow> lifecycle_control \<Rightarrow> 'b world \<Rightarrow>
     (unit result \<times> 'b world) option" where
  "unload_with_control vt held name ctl w =
     do { (locked, w1) \<leftarrow> wait_lifecycle_lock held (lock_of (coord w) name) ctl
                            (''model unload cancelled: '' @ name)
                            (''timeout waiting to start model unload: '' @ name) w;
          if \<not> is_ok locked then Some (locked, w1)
          else do {
            w2 \<leftarrow> drain_requests name ctl (min (lc_deadline ctl) (clk w1 + ms 30000))
                    (section_of (start_draining name) w1);
            if cancelled_at ctl w2
              then Some (Err Cancelled (''model unload cancelled: '' @ name),
                         section_of (stop_draining name) w2)
            else if has_active_requests (coord w2) name
              then Some (Err Timeout (''timeout draining active requests for: '' @ name),
                         section_of (stop_draining name) w2)
            else unload_detached vt name ctl w2 } }"

definition unload ::
  "'b ibackend \<Rightarrow> lifecycle_lock set \<Rightarrow> string \<Rightarrow> 'b world \<Rightarrow> (unit result \<times> 'b world) option" where
  "unload vt held name w = unload_with_control vt held name default_control w"

definition unload_current ::
  "'b ibackend \<Rightarrow> lifecycle_lock set \<Rightarrow> 'b world \<Rightarrow> (unit result \<times> 'b world) option" where
  "unload_current vt held w =
     (case current_loaded (coord w) of
        None \<Rightarrow> Some (Ok (), w)
      | Some name \<Rightarrow> Option.bind (pause w) (unload vt held name))"

section \<open>Loading\<close>

definition note_load_outcome :: "'b ibackend \<Rightarrow> string \<Rightarrow> 'b coordinator \<Rightarrow> 'b coordinator" where
  "note_load_outcome vt name c =
     (case backend_ptr c name of
        None \<Rightarrow> c
      | Some b \<Rightarrow> if 0 < current_estimate vt b
                  then bump_generation (invalidate_vram_observation_locked c) else c)"

definition note_primary :: "'b ibackend \<Rightarrow> string \<Rightarrow> 'b coordinator \<Rightarrow> 'b coordinator" where
  "note_primary vt name c =
     (case backend_ptr c name of
        None \<Rightarrow> c
      | Some b \<Rightarrow> if is_primary_model (bk_info vt b) then c\<lparr>current_loaded := Some name\<rparr> else c)"

text \<open>Finding the instance to load, or creating it.\<close>

definition obtain_instance :: "string \<Rightarrow> 'b coordinator \<Rightarrow> unit result \<times> 'b coordinator" where
  "obtain_instance name c =
     (case backend_ptr c name of
        Some _ \<Rightarrow> (Ok (), c)
      | None \<Rightarrow> (case create_result (registry c) name of
                   Inl e \<Rightarrow> (Err (err_code e) (err_message e), c)
                 | Inr b \<Rightarrow> (Ok (), put_backend name b c)))"

definition restore_slots ::
  "'b ibackend \<Rightarrow> string \<Rightarrow> int option \<Rightarrow> lifecycle_control \<Rightarrow> 'b world \<Rightarrow>
     (unit result \<times> 'b world) option" where
  "restore_slots vt name recovery_slots ctl w =
     (case (recovery_slots, backend_ptr (coord w) name) of
        (Some slots, Some b) \<Rightarrow>
          if \<not> mi_concurrency_auto (bk_info vt b) \<and> bk_n_slots vt b \<noteq> slots
          then call_instance name (bk_resize_slots vt slots) ctl w
          else Some (Ok (), w)
      | _ \<Rightarrow> Some (Ok (), w))"

definition load_instance ::
  "'b ibackend \<Rightarrow> string \<Rightarrow> int option \<Rightarrow> lifecycle_control \<Rightarrow> 'b world \<Rightarrow>
     (unit result \<times> 'b world) option" where
  "load_instance vt name recovery_slots ctl w =
     (case obtain_instance name (coord w) of
        (Inl e, c) \<Rightarrow> Some (Inl e, w\<lparr>coord := c\<rparr>)
      | (Inr _, c) \<Rightarrow>
          do { (resized, w1) \<leftarrow> restore_slots vt name recovery_slots ctl (w\<lparr>coord := c\<rparr>);
               if \<not> is_ok resized then Some (resized, w1)
               else do {
                 (r, w2) \<leftarrow> call_instance name (bk_load vt) ctl w1;
                 if \<not> is_ok r then Some (r, section_of (note_load_outcome vt name) w2)
                 else Some (Ok (), section_of (note_load_outcome vt name \<circ>
                                               note_primary vt name) w2) } })"

definition load_locked ::
  "'b ibackend \<Rightarrow> lifecycle_lock set \<Rightarrow> string \<Rightarrow> lifecycle_control \<Rightarrow> 'b world \<Rightarrow>
     (unit result \<times> 'b world) option" where
  "load_locked vt held name ctl w =
     (case backend_ptr (coord w) name of
        Some b \<Rightarrow>
          if bk_is_loaded vt b
          then (if bk_execution_healthy vt b
                then Some (Ok (), section_of (note_primary vt name) w)
                else do { w1 \<leftarrow> pause w;
                          (unloaded, w2) \<leftarrow> unload_with_control vt held name ctl w1;
                          if \<not> is_ok unloaded then Some (unloaded, w2)
                          else do { w3 \<leftarrow> pause w2;
                                    load_instance vt name (Some (bk_n_slots vt b)) ctl w3 } })
          else Option.bind (pause w) (load_instance vt name None ctl)
      | None \<Rightarrow> Option.bind (pause w) (load_instance vt name None ctl))"

definition load_with_lock_deadline ::
  "'b ibackend \<Rightarrow> lifecycle_lock set \<Rightarrow> string \<Rightarrow> lifecycle_control \<Rightarrow> 'b world \<Rightarrow>
     (unit result \<times> 'b world) option" where
  "load_with_lock_deadline vt held name ctl w =
     (case get_info_result (registry (coord w)) name of
        Inl e \<Rightarrow> Some (Err (err_code e) (err_message e), w)
      | Inr info \<Rightarrow>
          (let l = (if is_independent_sidecar info then SidecarMutex else SwapMutex) in
           do { (locked, w1) \<leftarrow> wait_load_lock held l ctl name w;
                if \<not> is_ok locked then Some (locked, w1)
                else load_locked vt (insert l held) name ctl w1 }))"

definition load ::
  "'b ibackend \<Rightarrow> lifecycle_lock set \<Rightarrow> string \<Rightarrow> 'b world \<Rightarrow> (unit result \<times> 'b world) option" where
  "load vt held name w = load_with_lock_deadline vt held name default_control w"

definition ensure_loaded ::
  "'b ibackend \<Rightarrow> lifecycle_lock set \<Rightarrow> string \<Rightarrow> 'b world \<Rightarrow> (unit result \<times> 'b world) option" where
  "ensure_loaded vt held name w =
     (if is_ready vt (coord w) name then Some (Ok (), w)
      else Option.bind (pause w) (load vt held name))"

section \<open>Registration\<close>

definition register_existing :: "model_info \<Rightarrow> 'b coordinator \<Rightarrow> unit result \<times> 'b coordinator" where
  "register_existing info c =
     (case register_model info (registry c) of
        Inl what \<Rightarrow> (Err InvalidArgument what, c)
      | Inr reg \<Rightarrow> (Ok (), c\<lparr>registry := reg\<rparr>))"

definition unregister_locked ::
  "'b ibackend \<Rightarrow> string \<Rightarrow> 'b coordinator \<Rightarrow> unit result \<times> 'b coordinator" where
  "unregister_locked vt name c =
     (if resident vt c name
        then (Err AlreadyExists (''cannot unregister loaded model: '' @ name), c)
      else (Ok (), c\<lparr>instances := AList.delete name (instances c)\<rparr>))"

partial_function (option) block_on_lock ::
  "lifecycle_lock set \<Rightarrow> lifecycle_lock \<Rightarrow> 'b world \<Rightarrow> 'b world option" where
  "block_on_lock held l w =
     (if try_lock held l w then Some w else Option.bind (pause w) (block_on_lock held l))"

declare block_on_lock.simps [code]

definition unregister ::
  "'b ibackend \<Rightarrow> lifecycle_lock set \<Rightarrow> string \<Rightarrow> 'b world \<Rightarrow> (unit result \<times> 'b world) option" where
  "unregister vt held name w =
     do { w1 \<leftarrow> block_on_lock held (lock_of (coord w) name) w;
          (case unregister_locked vt name (coord w1) of
             (Inl e, c) \<Rightarrow> Some (Inl e, w1\<lparr>coord := c\<rparr>)
           | (Inr _, c) \<Rightarrow>
               do { w2 \<leftarrow> pause (w1\<lparr>coord := c\<rparr>);
                    (case unregister_model name (registry (coord w2)) of
                       Inl what \<Rightarrow> Some (Err AlreadyExists what, w2)
                     | Inr reg \<Rightarrow> Some (Ok (), w2\<lparr>coord := (coord w2)\<lparr>registry := reg\<rparr>\<rparr>)) }) }"

end
