(* ===== verification/Coordinator_Capacity.thy ===== *)
theory Coordinator_Capacity
  imports Coordinator_Lifecycle
begin

text \<open>
  Making room for a model and swapping to it: \<^verbatim>\<open>prepare_capacity_for\<close>
  (\<^verbatim>\<open>libs/model/src/backend_coordinator_residency.cpp\<close>) reclaims idle context, shrinks idle
  backends and evicts idle models, in this order, until the model fits; \<^verbatim>\<open>swap_to_with_control\<close>
  and \<^verbatim>\<open>swap_to_cancellable\<close> (\<^verbatim>\<open>libs/model/src/backend_coordinator_lifecycle.cpp\<close>) use it and
  restore the previous residency when the load fails.

  A phase of \<^verbatim>\<open>prepare_capacity_for\<close> returns \<open>Some r\<close> when the function returns \<open>r\<close> from inside the
  loop, and \<open>None\<close> when the loop is left for the next phase. Exceptions other than the ones the
  code converts to results (\<^verbatim>\<open>reclaim_idle_context\<close>) are not modelled: allocation failures and
  throwing factories have no outcome here.
\<close>

section \<open>Making room\<close>

definition mark_resizing :: "string \<Rightarrow> 'b coordinator \<Rightarrow> 'b coordinator" where
  "mark_resizing name c = c\<lparr>resizing_models := insert name (resizing_models c)\<rparr>"

definition clear_resizing :: "string \<Rightarrow> 'b coordinator \<Rightarrow> 'b coordinator" where
  "clear_resizing name c = c\<lparr>resizing_models := resizing_models c - {name}\<rparr>"

definition allow_section ::
  "string \<Rightarrow> 'b world \<Rightarrow> unit result \<times> 'b world" where
  "allow_section name w =
     (case require_priority_session_allows (clk w) name (coord w) of
        (r, c) \<Rightarrow> (r, w\<lparr>coord := c\<rparr>))"

definition fits :: "'b ibackend \<Rightarrow> int \<Rightarrow> 'b world \<Rightarrow> bool" where
  "fits vt required w = (required \<le> available_vram_locked vt (clk w) (coord w))"

text \<open>Waiting for the telemetry to show the memory that was given back.\<close>

partial_function (option) await_observation ::
  "time_point \<Rightarrow> int \<Rightarrow> 'b world \<Rightarrow> 'b world option" where
  "await_observation deadline previous_mb w =
     (if live_vram_observation_fresh_locked (clk w) (coord w) \<and>
         observed_vram_used_mb (coord w) < previous_mb then Some w
      else if deadline \<le> clk w then Some w
      else Option.bind (pause w) (await_observation deadline previous_mb))"

declare await_observation.simps [code]

definition reclaim_result :: "bool result call \<Rightarrow> bool result" where
  "reclaim_result rc =
     (case rc of
        Returned r \<Rightarrow> r
      | Threw (Some what) \<Rightarrow> Err Internal (''idle context reclamation failed: '' @ what)
      | Threw None \<Rightarrow> Err Internal ''idle context reclamation failed'')"

definition note_reclaimed :: "string \<Rightarrow> string \<Rightarrow> 'b coordinator \<Rightarrow> 'b coordinator" where
  "note_reclaimed candidate name c =
     bump_generation (invalidate_vram_observation_locked
       (c\<lparr>last_resource_decision :=
            ''reclaimed idle context from '' @ candidate @ '' for '' @ name\<rparr>))"

text \<open>Reclaiming from one candidate, from the backend call to the clearing of its mark.\<close>

definition reclaim_one ::
  "'b ibackend \<Rightarrow> string \<Rightarrow> int \<Rightarrow> lifecycle_control \<Rightarrow> bool \<Rightarrow> int \<Rightarrow> string \<Rightarrow> 'b world \<Rightarrow>
     (bool result \<times> 'b world) option" where
  "reclaim_one vt name required ctl had_observation previous_mb candidate w =
     do { (rc, w1) \<leftarrow> call_instance candidate (bk_reclaim_idle_context vt required) ctl w;
          let reclaimed = reclaim_result rc;
          w2 \<leftarrow> (if reclaimed = Ok True
                 then (let v = section_of (note_reclaimed candidate name) w1 in
                       if had_observation
                       then await_observation
                              (min (lc_deadline ctl) (clk w1 + live_vram_observation_ttl))
                              previous_mb v
                       else Some v)
                 else Some w1);
          Some (reclaimed, section_of (clear_resizing candidate) w2) }"

text \<open>
  One pass of a loop ends by returning from the function, by leaving the loop for the next phase,
  or by going round again.
\<close>

datatype phase_step = Return "unit result" | Leave | Again

definition veto_pass ::
  "string \<Rightarrow> unit result \<Rightarrow> 'b world \<Rightarrow> (phase_step \<times> 'b world) option" where
  "veto_pass candidate allowed w =
     do { w1 \<leftarrow> pause w; Some (Return allowed, section_of (clear_resizing candidate) w1) }"

definition after_reclaim ::
  "'b ibackend \<Rightarrow> int \<Rightarrow> bool result \<Rightarrow> 'b world \<Rightarrow> (phase_step \<times> 'b world) option" where
  "after_reclaim vt required reclaimed w =
     (case reclaimed of
        Inl e \<Rightarrow> Some (Return (Err (err_code e) (err_message e)), w)
      | Inr False \<Rightarrow> Some (Again, w)
      | Inr True \<Rightarrow>
          do { w1 \<leftarrow> pause w;
               Some (if fits vt required w1 then Return (Ok ()) else Again, w1) })"

definition reclaim_from ::
  "'b ibackend \<Rightarrow> string \<Rightarrow> int \<Rightarrow> lifecycle_control \<Rightarrow> string \<Rightarrow> 'b world \<Rightarrow>
     (phase_step \<times> 'b world) option" where
  "reclaim_from vt name required ctl candidate w =
     do { w1 \<leftarrow> pause (section_of (mark_resizing candidate) w);
          (case allow_section name w1 of
             (Inl e, w2) \<Rightarrow> veto_pass candidate (Inl e) w2
           | (Inr _, w2) \<Rightarrow>
               do { (reclaimed, w3) \<leftarrow> reclaim_one vt name required ctl
                        (live_vram_observation_fresh_locked (clk w) (coord w))
                        (observed_vram_used_mb (coord w)) candidate w2;
                    after_reclaim vt required reclaimed w3 }) }"

partial_function (option) reclaim_phase ::
  "'b ibackend \<Rightarrow> string \<Rightarrow> int \<Rightarrow> lifecycle_control \<Rightarrow> bool \<Rightarrow> string set \<Rightarrow> 'b world \<Rightarrow>
     (unit result option \<times> 'b world) option" where
  "reclaim_phase vt name required ctl force attempts w =
     (if cancelled_at ctl w \<or> expired_at ctl w then Some (None, w)
      else if \<not> force \<and> fits vt required w then Some (Some (Ok ()), w)
      else (case reclaim_candidate vt name attempts (coord w) of
              None \<Rightarrow> Some (None, w)
            | Some candidate \<Rightarrow>
                do { (s, w1) \<leftarrow> reclaim_from vt name required ctl candidate w;
                     (case s of
                        Return r \<Rightarrow> Some (Some r, w1)
                      | Leave \<Rightarrow> Some (None, w1)
                      | Again \<Rightarrow> Option.bind (pause w1)
                                  (reclaim_phase vt name required ctl force
                                     (insert candidate attempts))) }))"

declare reclaim_phase.simps [code]

definition note_shrunk :: "string \<Rightarrow> int \<Rightarrow> string \<Rightarrow> 'b coordinator \<Rightarrow> 'b coordinator" where
  "note_shrunk candidate slots name c =
     bump_generation (invalidate_vram_observation_locked
       (c\<lparr>last_resource_decision :=
            ''shrunk '' @ candidate @ '' to '' @ string_of_int slots @ '' slots for '' @ name\<rparr>))"

definition shrink_one ::
  "'b ibackend \<Rightarrow> string \<Rightarrow> lifecycle_control \<Rightarrow> string \<Rightarrow> int \<Rightarrow> 'b world \<Rightarrow>
     (phase_step \<times> 'b world) option" where
  "shrink_one vt name ctl candidate next_slots w =
     do { w1 \<leftarrow> pause (section_of (mark_resizing candidate) w);
          (case allow_section name w1 of
             (Inl e, w2) \<Rightarrow> veto_pass candidate (Inl e) w2
           | (Inr _, w2) \<Rightarrow>
               do { (resized, w3) \<leftarrow> call_instance candidate (bk_resize_slots vt next_slots) ctl w2;
                    Some (if is_ok resized
                          then (Again, section_of (note_shrunk candidate next_slots name \<circ>
                                                   clear_resizing candidate) w3)
                          else (Leave, section_of (clear_resizing candidate) w3)) }) }"

partial_function (option) shrink_phase ::
  "'b ibackend \<Rightarrow> string \<Rightarrow> int \<Rightarrow> lifecycle_control \<Rightarrow> 'b world \<Rightarrow>
     (unit result option \<times> 'b world) option" where
  "shrink_phase vt name required ctl w =
     (if cancelled_at ctl w
        then Some (Some (Err Cancelled (''capacity resize cancelled: '' @ name)), w)
      else if expired_at ctl w
        then Some (Some (Err Timeout (''capacity resize timed out: '' @ name)), w)
      else if fits vt required w then Some (Some (Ok ()), w)
      else (case shrink_candidate vt name (coord w) of
              None \<Rightarrow> Some (None, w)
            | Some (candidate, next_slots) \<Rightarrow>
                do { (s, w1) \<leftarrow> shrink_one vt name ctl candidate next_slots w;
                     (case s of
                        Return r \<Rightarrow> Some (Some r, w1)
                      | Leave \<Rightarrow> Some (None, w1)
                      | Again \<Rightarrow> Option.bind (pause w1) (shrink_phase vt name required ctl)) }))"

declare shrink_phase.simps [code]

definition evict_one ::
  "'b ibackend \<Rightarrow> lifecycle_lock set \<Rightarrow> string \<Rightarrow> lifecycle_control \<Rightarrow> string \<Rightarrow> 'b world \<Rightarrow>
     (phase_step \<times> 'b world) option" where
  "evict_one vt held name ctl candidate w =
     do { w1 \<leftarrow> pause w;
          (case allow_section name w1 of
             (Inl e, w2) \<Rightarrow> Some (Return (Inl e), w2)
           | (Inr _, w2) \<Rightarrow>
               do { (unloaded, w3) \<leftarrow> unload_with_control vt held candidate ctl w2;
                    if \<not> is_ok unloaded then Some (Return unloaded, w3)
                    else do { w4 \<leftarrow> pause w3;
                              Some (Again, section_of (\<lambda>c. c\<lparr>last_resource_decision :=
                                ''evicted idle '' @ candidate @ '' for '' @ name\<rparr>) w4) } }) }"

partial_function (option) evict_phase ::
  "'b ibackend \<Rightarrow> lifecycle_lock set \<Rightarrow> string \<Rightarrow> int \<Rightarrow> lifecycle_control \<Rightarrow> 'b world \<Rightarrow>
     (unit result option \<times> 'b world) option" where
  "evict_phase vt held name required ctl w =
     (if cancelled_at ctl w
        then Some (Some (Err Cancelled (''capacity eviction cancelled: '' @ name)), w)
      else if expired_at ctl w
        then Some (Some (Err Timeout (''capacity eviction timed out: '' @ name)), w)
      else if fits vt required w then Some (Some (Ok ()), w)
      else if evict_candidate vt name (coord w) = [] then Some (None, w)
      else do { (s, w1) \<leftarrow> evict_one vt held name ctl (evict_candidate vt name (coord w)) w;
                (case s of
                   Return r \<Rightarrow> Some (Some r, w1)
                 | Leave \<Rightarrow> Some (None, w1)
                 | Again \<Rightarrow> Option.bind (pause w1) (evict_phase vt held name required ctl)) })"

declare evict_phase.simps [code]

definition verdict_section ::
  "'b ibackend \<Rightarrow> string \<Rightarrow> int \<Rightarrow> 'b world \<Rightarrow> unit result \<times> 'b world" where
  "verdict_section vt name required w =
     (case capacity_verdict vt (clk w) name required (coord w) of (r, c) \<Rightarrow> (r, w\<lparr>coord := c\<rparr>))"

definition make_room ::
  "'b ibackend \<Rightarrow> lifecycle_lock set \<Rightarrow> string \<Rightarrow> int \<Rightarrow> lifecycle_control \<Rightarrow> bool \<Rightarrow> 'b world \<Rightarrow>
     (unit result \<times> 'b world) option" where
  "make_room vt held name required ctl force w =
     do { (r1, w1) \<leftarrow> reclaim_phase vt name required ctl force {} w;
          (case r1 of
             Some r \<Rightarrow> Some (r, w1)
           | None \<Rightarrow>
               if force
               then Some (Err OutOfMemory (''unable to reclaim idle context for '' @ name), w1)
               else do {
                 (r2, w2) \<leftarrow> shrink_phase vt name required ctl w1;
                 (case r2 of
                    Some r \<Rightarrow> Some (r, w2)
                  | None \<Rightarrow>
                      do { (r3, w3) \<leftarrow> evict_phase vt held name required ctl w2;
                           (case r3 of
                              Some r \<Rightarrow> Some (r, w3)
                            | None \<Rightarrow> do { w4 \<leftarrow> pause w3;
                                          Some (verdict_section vt name required w4) }) }) }) }"

definition note_decision :: "string \<Rightarrow> 'b coordinator \<Rightarrow> 'b coordinator" where
  "note_decision s c = c\<lparr>last_resource_decision := s\<rparr>"

definition prepare_capacity_for ::
  "'b ibackend \<Rightarrow> lifecycle_lock set \<Rightarrow> string \<Rightarrow> lifecycle_control \<Rightarrow> bool \<Rightarrow> 'b world \<Rightarrow>
     (unit result \<times> 'b world) option" where
  "prepare_capacity_for vt held name ctl force w =
     (if cancelled_at ctl w
        then Some (Err Cancelled (''capacity preparation cancelled: '' @ name), w)
      else if expired_at ctl w
        then Some (Err Timeout (''capacity preparation timed out: '' @ name), w)
      else (case allow_section name w of
              (Inl e, w1) \<Rightarrow> Some (Inl e, w1)
            | (Inr _, w1) \<Rightarrow>
                (case get_info_result (registry (coord w1)) name of
                   Inl e \<Rightarrow> Some (Err (err_code e) (err_message e), w1)
                 | Inr info \<Rightarrow>
                     (let required = mi_vram_required_mb info in
                      do { w2 \<leftarrow> pause w1;
                           if resident vt (coord w2) name
                           then Some (Ok (), section_of (note_decision
                                               (name @ '' already resident'')) w2)
                           else if \<not> force \<and> (vram_budget_mb (coord w2) \<le> 0 \<or> fits vt required w2)
                           then Some (Ok (), section_of (note_decision
                                  (if live_vram_observation_usable_locked vt (clk w2) (coord w2)
                                   then name @ '' fits live GPU headroom''
                                   else name @ '' fits configured VRAM budget'')) w2)
                           else do { w3 \<leftarrow> pause w2;
                                     make_room vt held name required ctl force w3 } }))))"

section \<open>Swapping\<close>

definition recovery_control :: "'b world \<Rightarrow> lifecycle_control" where
  "recovery_control w = \<lparr>lc_deadline = clk w + ms 30000, lc_cancelled = None\<rparr>"

definition note_restored :: "string \<Rightarrow> string \<Rightarrow> 'b coordinator \<Rightarrow> 'b coordinator" where
  "note_restored name previous c =
     c\<lparr>current_loaded := Some previous,
       last_resource_decision := ''load failed for '' @ name @ ''; previous residency restored''\<rparr>"

text \<open>The swap when no VRAM budget is configured: one model at a time.\<close>

definition swap_without_budget ::
  "'b ibackend \<Rightarrow> lifecycle_lock set \<Rightarrow> string \<Rightarrow> lifecycle_control \<Rightarrow> 'b world \<Rightarrow>
     (unit result \<times> 'b world) option" where
  "swap_without_budget vt held name ctl w =
     (case current_loaded (coord w) of
        None \<Rightarrow> Option.bind (pause w) (load_with_lock_deadline vt held name ctl)
      | Some current \<Rightarrow>
          do { w1 \<leftarrow> pause w;
               (drained, w2) \<leftarrow> unload_with_control vt held current ctl w1;
               if \<not> is_ok drained then Some (drained, w2)
               else do {
                 w3 \<leftarrow> pause w2;
                 (loaded, w4) \<leftarrow> load_with_lock_deadline vt held name ctl w3;
                 if is_ok loaded then Some (loaded, w4)
                 else do {
                   (restored, w5) \<leftarrow> load_with_lock_deadline vt held current
                                      (recovery_control w4) w4;
                   if is_ok restored
                   then do { w6 \<leftarrow> pause w5;
                             Some (loaded, section_of (note_restored name current) w6) }
                   else Some (loaded, w5) } } })"

text \<open>Bringing back the models that were resident before a failed swap.\<close>

fun restore_residency ::
  "'b ibackend \<Rightarrow> lifecycle_lock set \<Rightarrow> lifecycle_control \<Rightarrow> (string \<times> int) list \<Rightarrow> 'b world \<Rightarrow>
     'b world option" where
  "restore_residency vt held ctl [] w = Some w"
| "restore_residency vt held ctl ((prior, slots) # rest) w =
     do { w1 \<leftarrow> pause w;
          (case backend_ptr (coord w1) prior of
             Some b \<Rightarrow>
               if bk_is_loaded vt b \<and> bk_n_slots vt b = slots
               then restore_residency vt held ctl rest w1
               else if bk_is_loaded vt b
               then do { (_, w2) \<leftarrow> unload_with_control vt held prior ctl w1;
                         (_, w3) \<leftarrow> load_with_lock_deadline vt held prior ctl w2;
                         restore_residency vt held ctl rest w3 }
               else do { (_, w3) \<leftarrow> load_with_lock_deadline vt held prior ctl w1;
                         restore_residency vt held ctl rest w3 }
           | None \<Rightarrow> do { (_, w3) \<leftarrow> load_with_lock_deadline vt held prior ctl w1;
                         restore_residency vt held ctl rest w3 }) }"

definition recover_swap ::
  "'b ibackend \<Rightarrow> lifecycle_lock set \<Rightarrow> string \<Rightarrow> (string \<times> int) list \<Rightarrow> string option \<Rightarrow> 'b world \<Rightarrow>
     'b world option" where
  "recover_swap vt held name before previous_primary w =
     (let recovery = recovery_control w in
      do { (_, w1) \<leftarrow> unload_with_control vt held name recovery w;
           w2 \<leftarrow> restore_residency vt held recovery before w1;
           w3 \<leftarrow> pause w2;
           (case previous_primary of
              None \<Rightarrow> Some w3
            | Some p \<Rightarrow> if resident vt (coord w3) p
                        then do { w4 \<leftarrow> pause w3;
                                  Some (section_of (note_restored name p) w4) }
                        else Some w3) })"

text \<open>The second attempt after the backend ran out of memory.\<close>

definition retry_out_of_memory ::
  "'b ibackend \<Rightarrow> lifecycle_lock set \<Rightarrow> string \<Rightarrow> lifecycle_control \<Rightarrow> unit result \<Rightarrow> 'b world \<Rightarrow>
     ((bool \<times> unit result) \<times> 'b world) option" where
  "retry_out_of_memory vt held name ctl loaded w =
     (if result_code loaded = OutOfMemory \<and> \<not> cancelled_at ctl w \<and> \<not> expired_at ctl w
      then do { (_, w1) \<leftarrow> unload_with_control vt held name ctl w;
                (reclaimed, w2) \<leftarrow> prepare_capacity_for vt held name ctl True w1;
                (case reclaimed of
                   Inr _ \<Rightarrow> do { (again, w3) \<leftarrow> load_with_lock_deadline vt held name ctl w2;
                                Some ((is_ok again, again), w3) }
                 | Inl e \<Rightarrow> Some ((err_code e = Cancelled \<or> err_code e = Timeout,
                                  (if err_code e = Cancelled \<or> err_code e = Timeout
                                   then reclaimed else loaded)), w2)) }
      else Some ((False, loaded), w))"

definition swap_with_budget ::
  "'b ibackend \<Rightarrow> lifecycle_lock set \<Rightarrow> string \<Rightarrow> lifecycle_control \<Rightarrow> 'b world \<Rightarrow>
     (unit result \<times> 'b world) option" where
  "swap_with_budget vt held name ctl w =
     (let before = map (\<lambda>r. (ri_name r, ri_slots r)) (residency vt (coord w));
          previous_primary = current_loaded (coord w)
      in do { w1 \<leftarrow> pause w;
              (capacity, w2) \<leftarrow> prepare_capacity_for vt held name ctl False w1;
              if \<not> is_ok capacity then Some (capacity, w2)
              else do {
                w3 \<leftarrow> pause w2;
                (let (allowed, w4) = allow_section name w3 in
                 if \<not> is_ok allowed then Some (allowed, w4)
                 else do {
                   (loaded, w5) \<leftarrow> load_with_lock_deadline vt held name ctl w4;
                   if is_ok loaded then Some (loaded, w5)
                   else do {
                     ((final, result), w6) \<leftarrow> retry_out_of_memory vt held name ctl loaded w5;
                     if final then Some (result, w6)
                     else do { w7 \<leftarrow> recover_swap vt held name before previous_primary w6;
                               Some (result, w7) } } }) } })"

definition swap_locked ::
  "'b ibackend \<Rightarrow> lifecycle_lock set \<Rightarrow> string \<Rightarrow> model_info \<Rightarrow> lifecycle_control \<Rightarrow> 'b world \<Rightarrow>
     (unit result \<times> 'b world) option" where
  "swap_locked vt held name info ctl w =
     (if is_ready vt (coord w) name then Some (Ok (), w)
      else do { w1 \<leftarrow> pause w;
                (let (allowed, w2) = allow_section name w1 in
                 if \<not> is_ok allowed then Some (allowed, w2)
                 else do {
                   w3 \<leftarrow> pause w2;
                   if resident vt (coord w3) name
                     then load_with_lock_deadline vt held name ctl w3
                   else if \<not> has_factory (registry (coord w3)) (mi_runtime info)
                     then Some (Err Unavailable (''runtime not registered: '' @ mi_runtime info), w3)
                   else if vram_budget_mb (coord w3) \<le> 0
                     then swap_without_budget vt held name ctl w3
                   else swap_with_budget vt held name ctl w3 }) })"

definition swap_to_with_control ::
  "'b ibackend \<Rightarrow> lifecycle_lock set \<Rightarrow> string \<Rightarrow> lifecycle_control \<Rightarrow> 'b world \<Rightarrow>
     (unit result \<times> 'b world) option" where
  "swap_to_with_control vt held name ctl w =
     (if is_ready vt (coord w) name then Some (Ok (), w)
      else (case get_info_result (registry (coord w)) name of
              Inl e \<Rightarrow> Some (Err (err_code e) (err_message e), w)
            | Inr info \<Rightarrow>
                if is_independent_sidecar info
                then load_with_lock_deadline vt held name ctl w
                else do { (locked, w1) \<leftarrow> wait_lifecycle_lock held SwapMutex ctl
                              (''model swap cancelled: '' @ name)
                              (''timeout waiting to start model swap: '' @ name) w;
                          if \<not> is_ok locked then Some (locked, w1)
                          else swap_locked vt (insert SwapMutex held) name info ctl w1 }))"

definition swap_control ::
  "duration \<Rightarrow> (time_point \<Rightarrow> bool) option \<Rightarrow> 'b world \<Rightarrow> lifecycle_control" where
  "swap_control timeout cancelled w =
     \<lparr>lc_deadline = clk w + timeout,
      lc_cancelled = Some (\<lambda>flag now. flag \<or> (case cancelled of None \<Rightarrow> False | Some f \<Rightarrow> f now))\<rparr>"

definition set_swap_in_progress :: "bool \<Rightarrow> 'b coordinator \<Rightarrow> 'b coordinator" where
  "set_swap_in_progress v c = c\<lparr>swap_in_progress := v\<rparr>"

definition swap_to_cancellable ::
  "'b ibackend \<Rightarrow> string \<Rightarrow> duration \<Rightarrow> (time_point \<Rightarrow> bool) option \<Rightarrow> 'b world \<Rightarrow>
     (unit result \<times> 'b world) option" where
  "swap_to_cancellable vt name timeout cancelled w =
     (let ctl = swap_control timeout cancelled w in
      case get_info_result (registry (coord w)) name of
        Inl e \<Rightarrow> Some (Err (err_code e) (err_message e), w)
      | Inr info \<Rightarrow>
          if is_independent_sidecar info
          then (if swap_cancel (coord w)
                then Some (Err Cancelled ''swap cancelled before sidecar load'',
                           section_of reset_swap_cancel w)
                else do { (r, w1) \<leftarrow> load_with_lock_deadline vt {} name ctl w;
                          Some (r, section_of reset_swap_cancel w1) })
          else if is_ready vt (coord w) name then Some (Ok (), w)
          else if swap_cancel (coord w)
            then Some (Err Cancelled ''swap cancelled before start'',
                       section_of reset_swap_cancel w)
          else do {
            w1 \<leftarrow> pause (section_of (set_swap_in_progress True) w);
            (r, w2) \<leftarrow> (if swap_cancel (coord w1)
                         then Some (Err Cancelled ''swap cancelled before load'', w1)
                         else swap_to_with_control vt {} name ctl w1);
            Some (r, section_of (reset_swap_cancel \<circ> set_swap_in_progress False) w2) })"

end
