(* ===== verification/Lifecycle_Safety.thy ===== *)
theory Lifecycle_Safety
  imports Coordinator_Lifecycle
begin

text \<open>
  Safety of loading and unloading under interference. \<open>world_ok\<close> says that the coordinator
  satisfies its invariant, that the registered factories make well-formed unloaded backends and
  that what the other threads do at each tick is a sequence of shared steps. Every operation
  keeps it, touches no other model (\<open>others_kept\<close>), and never has a lease on the backend it takes
  away.
\<close>

section \<open>The rely condition\<close>

definition factories_ok :: "'b ibackend \<Rightarrow> ('b \<Rightarrow> bool) \<Rightarrow> 'b registry \<Rightarrow> bool" where
  "factories_ok vt bok reg =
     (\<forall>runtime f info b. lookup (factories reg) runtime = Some f \<longrightarrow> f info = Some b \<longrightarrow>
        bok b \<and> \<not> bk_is_loaded vt b)"

definition world_ok :: "'b ibackend \<Rightarrow> ('b \<Rightarrow> bool) \<Rightarrow> 'b world \<Rightarrow> bool" where
  "world_ok vt bok w =
     (coordinator_inv vt bok (coord w) \<and> factories_ok vt bok (registry (coord w)) \<and>
      (\<forall>t \<in> set (sched w). \<forall>c. (shared_step vt)\<^sup>*\<^sup>* c (tk_env t c)))"

text \<open>Two states that differ, apart from leases and queue, only on the models of a set.\<close>

definition others_kept :: "'b ibackend \<Rightarrow> string set \<Rightarrow> 'b coordinator \<Rightarrow> 'b coordinator \<Rightarrow> bool" where
  "others_kept vt N c c' =
     (registry c' = registry c \<and> swap_in_progress c' = swap_in_progress c \<and>
      draining_models c' - N = draining_models c - N \<and>
      resizing_models c' - N = resizing_models c - N \<and>
      (\<forall>n. n \<notin> N \<longrightarrow> rel_option (same_identity vt) (backend_ptr c n) (backend_ptr c' n)))"

lemma others_kept_refl [simp]: "others_kept vt N c c"
  by (simp add: others_kept_def)

lemma others_kept_trans:
  "others_kept vt N c c' \<Longrightarrow> others_kept vt N c' c'' \<Longrightarrow> others_kept vt N c c''"
  unfolding others_kept_def by (auto intro: rel_identity_trans)

lemma others_kept_mono: "others_kept vt N c c' \<Longrightarrow> N \<subseteq> M \<Longrightarrow> others_kept vt M c c'"
  unfolding others_kept_def by blast

lemma others_kept_resident:
  assumes "others_kept vt N c c'" "n \<notin> N"
  shows "resident vt c' n = resident vt c n"
proof -
  have "rel_option (same_identity vt) (backend_ptr c n) (backend_ptr c' n)"
    using assms by (simp add: others_kept_def)
  then show ?thesis
    by (cases "backend_ptr c n"; cases "backend_ptr c' n") (auto simp: resident_def same_identity_def)
qed

lemma keeps_others: "keeps vt c c' \<Longrightarrow> others_kept vt N c c'"
  by (simp add: keeps_def others_kept_def)

lemma keeps_others_trans:
  "keeps vt c c' \<Longrightarrow> others_kept vt N c' c'' \<Longrightarrow> others_kept vt N c c''"
  by (rule others_kept_trans [OF keeps_others])

lemma keeps_resizing: "keeps vt c c' \<Longrightarrow> resizing_models c' = resizing_models c"
  by (simp add: keeps_def)

lemma section_of_simps [simp]:
  "coord (section_of f w) = f (coord w)" "clk (section_of f w) = clk w"
  "sched (section_of f w) = sched w" "lock_free (section_of f w) = lock_free w"
  by (simp_all add: section_of_def)

lemma world_ok_section:
  assumes "world_ok vt bok w" "coordinator_inv vt bok (f (coord w))"
    "registry (f (coord w)) = registry (coord w)"
  shows "world_ok vt bok (section_of f w)"
  using assms by (simp add: world_ok_def)

lemma world_okD:
  "world_ok vt bok w \<Longrightarrow> coordinator_inv vt bok (coord w)"
  "world_ok vt bok w \<Longrightarrow> lease_inv (coord w)"
  "world_ok vt bok w \<Longrightarrow> slot_inv vt bok (coord w)"
  by (simp_all add: world_ok_def coordinator_inv_def)

section \<open>Critical sections of the lifecycle\<close>

lemma start_draining_frame [simp]:
  "instances (start_draining n c) = instances c" "backend_ptr (start_draining n c) = backend_ptr c"
  "draining_models (start_draining n c) = insert n (draining_models c)"
  "resizing_models (start_draining n c) = resizing_models c"
  "registry (start_draining n c) = registry c"
  "swap_in_progress (start_draining n c) = swap_in_progress c"
  "current_loaded (start_draining n c) = current_loaded c"
  "active_leases (start_draining n c) = active_leases c"
  by (simp_all add: start_draining_def backend_ptr_def fun_eq_iff)

lemma stop_draining_frame [simp]:
  "instances (stop_draining n c) = instances c" "backend_ptr (stop_draining n c) = backend_ptr c"
  "draining_models (stop_draining n c) = draining_models c - {n}"
  "resizing_models (stop_draining n c) = resizing_models c"
  "registry (stop_draining n c) = registry c"
  "swap_in_progress (stop_draining n c) = swap_in_progress c"
  "current_loaded (stop_draining n c) = current_loaded c"
  "active_leases (stop_draining n c) = active_leases c"
  by (simp_all add: stop_draining_def backend_ptr_def fun_eq_iff)

lemma draining_inv [simp]:
  "coordinator_inv vt bok (start_draining n c) = coordinator_inv vt bok c"
  "coordinator_inv vt bok (stop_draining n c) = coordinator_inv vt bok c"
  by (rule coordinator_inv_cong; simp add: start_draining_def stop_draining_def)+

lemma no_lease_when_idle:
  assumes "lease_inv c" "\<not> has_active_requests c n" "lookup (active_leases c) i = Some l"
  shows "l_model l \<noteq> n"
  using assms lease_share(1) [OF assms(1,3)] lease_invD(3) [OF assms(1), of n]
  by (auto simp: has_active_requests_def)

lemma no_lease_when_absent:
  assumes "slot_inv vt bok c" "\<not> resident vt c n" "lookup (active_leases c) i = Some l"
  shows "l_model l \<noteq> n"
  using slot_inv_lease [OF assms(1,3)] assms(2) by (auto simp: resident_def)

lemma leases_of_0_absent:
  assumes "lease_inv c" "\<And>i l. lookup (active_leases c) i = Some l \<Longrightarrow> l_model l \<noteq> n"
  shows "leases_of c n = 0"
proof -
  have "0 \<le> leases_of c n" unfolding leases_of_def by (rule sum_vals_nonneg) simp
  with leases_of_pos_iff [OF assms(1), of n] assms(2) show ?thesis by fastforce
qed

lemma slot_inv_delete:
  assumes inv: "slot_inv vt bok c"
    and none: "\<And>i l. lookup (active_leases c) i = Some l \<Longrightarrow> l_model l \<noteq> n"
  shows "slot_inv vt bok (c\<lparr>instances := AList.delete n (instances c)\<rparr>)"
proof -
  let ?c = "c\<lparr>instances := AList.delete n (instances c)\<rparr>"
  have ptr: "backend_ptr ?c m = (if m = n then None else backend_ptr c m)" for m
    by (simp add: backend_ptr_def)
  have "keys_distinct (instances ?c)" "\<forall>m. lookup (instances ?c) m \<noteq> Some None"
    using inv by (auto simp: slot_inv_def)
  moreover have "\<exists>b. backend_ptr ?c (l_model l) = Some b \<and> bk_is_loaded vt b \<and>
      bk_slot_busy vt (l_backend_slot l) b" if "lookup (active_leases c) i = Some l" for i l
    using slot_inv_lease [OF inv that] none [OF that] ptr by auto
  ultimately show ?thesis using inv by (auto simp: slot_inv_def ptr split: if_splits)
qed

lemma detach_ptr [simp]:
  "backend_ptr (detach_instance vt n c) m = (if m = n then None else backend_ptr c m)"
  by (simp add: detach_instance_def Let_def select_primary_locked_def backend_ptr_def
      split: option.splits)

lemma detach_frame [simp]:
  "draining_models (detach_instance vt n c) = draining_models c"
  "resizing_models (detach_instance vt n c) = resizing_models c"
  "registry (detach_instance vt n c) = registry c"
  "swap_in_progress (detach_instance vt n c) = swap_in_progress c"
  by (simp_all add: detach_instance_def Let_def select_primary_locked_def)

lemma detach_inv:
  assumes inv: "coordinator_inv vt bok c" and idle: "\<not> has_active_requests c n"
  shows "coordinator_inv vt bok (detach_instance vt n c)"
proof -
  let ?d = "c\<lparr>instances := AList.delete n (instances c)\<rparr>"
  have "lease_inv c" using inv by (simp add: coordinator_inv_def)
  then have "slot_inv vt bok ?d"
    using inv no_lease_when_idle [OF _ idle] by (intro slot_inv_delete) (auto simp: coordinator_inv_def)
  then have "coordinator_inv vt bok ?d"
    using inv lease_inv_cong [of ?d c] queue_inv_cong [of ?d c] by (simp add: coordinator_inv_def)
  moreover have "coordinator_inv vt bok (select_primary_locked vt (k\<lparr>current_loaded := x\<rparr>))
      = coordinator_inv vt bok k" for k x
    by (rule coordinator_inv_cong) (simp_all add: select_primary_locked_def)
  ultimately show ?thesis using inv by (simp add: detach_instance_def Let_def)
qed

lemma erase_count_inv:
  assumes "coordinator_inv vt bok c" "leases_of c n = 0"
  shows "coordinator_inv vt bok
     (c\<lparr>active_requests_by_model := AList.delete n (active_requests_by_model c)\<rparr>)"
proof -
  let ?c = "c\<lparr>active_requests_by_model := AList.delete n (active_requests_by_model c)\<rparr>"
  have "lease_inv ?c" using assms
    by (auto simp: coordinator_inv_def lease_inv_def active_of_def leases_of_def context_of_def
        sequences_of_def)
  moreover have "slot_inv vt bok ?c" using assms slot_inv_cong [of ?c c]
    by (simp add: coordinator_inv_def)
  moreover have "queue_inv ?c" using assms queue_inv_cong [of ?c c] by (simp add: coordinator_inv_def)
  ultimately show ?thesis by (simp add: coordinator_inv_def)
qed

lemma put_unleased_inv:
  assumes inv: "coordinator_inv vt bok c" and "bok b"
    and none: "\<And>i l. lookup (active_leases c) i = Some l \<Longrightarrow> l_model l \<noteq> n"
  shows "coordinator_inv vt bok (put_backend n b c)"
proof (rule coordinator_inv_put [OF inv])
  show "slot_inv vt bok (put_backend n b c)"
    using inv assms(2) none by (intro slot_inv_put) (auto simp: coordinator_inv_def)
qed

lemma coordinator_inv_fields [simp]:
  "coordinator_inv vt bok (c\<lparr>current_loaded := x\<rparr>) = coordinator_inv vt bok c"
  "coordinator_inv vt bok (c\<lparr>last_resource_decision := s\<rparr>) = coordinator_inv vt bok c"
  "coordinator_inv vt bok (c\<lparr>resizing_models := R\<rparr>) = coordinator_inv vt bok c"
  "coordinator_inv vt bok (c\<lparr>swap_in_progress := q\<rparr>) = coordinator_inv vt bok c"
  "coordinator_inv vt bok (c\<lparr>registry := reg\<rparr>) = coordinator_inv vt bok c"
  "coordinator_inv vt bok (invalidate_vram_observation_locked c) = coordinator_inv vt bok c"
  by (rule coordinator_inv_cong; simp add: invalidate_vram_observation_locked_def)+

lemma settle_inv:
  assumes inv: "coordinator_inv vt bok c" and absent: "backend_ptr c n = None"
    and kept: "\<And>b. kept = Some b \<Longrightarrow> bok b"
  shows "coordinator_inv vt bok (settle_unload n r kept was_primary released c)"
proof -
  have sinv: "slot_inv vt bok c" and linv: "lease_inv c" using inv by (simp_all add: coordinator_inv_def)
  have none: "l_model l \<noteq> n" if "lookup (active_leases c) i = Some l" for i l
    using no_lease_when_absent [OF sinv _ that, of n] absent by (simp add: resident_def)
  show ?thesis
  proof (cases "is_ok r")
    case True
    have "leases_of c n = 0" using none by (rule leases_of_0_absent [OF linv])
    from erase_count_inv [OF inv this] True show ?thesis
      by (auto simp: settle_unload_def Let_def split: option.splits)
  next
    case False
    with inv put_unleased_inv [OF inv kept none] show ?thesis
      by (auto simp: settle_unload_def Let_def split: option.splits)
  qed
qed

lemma settle_frame:
  "draining_models (settle_unload n r kept p v c) = draining_models c - {n}"
  "resizing_models (settle_unload n r kept p v c) = resizing_models c"
  "registry (settle_unload n r kept p v c) = registry c"
  "swap_in_progress (settle_unload n r kept p v c) = swap_in_progress c"
  "backend_ptr (settle_unload n r kept p v c) m =
     (if m = n \<and> \<not> is_ok r \<and> kept \<noteq> None then kept else backend_ptr c m)"
  by (auto simp: settle_unload_def Let_def bump_generation_def
      invalidate_vram_observation_locked_def stop_draining_def backend_ptr_def put_backend_def
      split: option.splits)

section \<open>Models nobody can be using\<close>

text \<open>
  A model is quiet when it has no lease and cannot get one: it is not loaded, or it is marked as
  draining or resizing.
\<close>

definition quiet :: "'b ibackend \<Rightarrow> 'b coordinator \<Rightarrow> string \<Rightarrow> bool" where
  "quiet vt c n =
     (\<not> resident vt c n \<or> (n \<in> draining_models c \<union> resizing_models c \<and> leases_of c n = 0))"

lemma quiet_no_lease:
  assumes "coordinator_inv vt bok c" "quiet vt c n" "lookup (active_leases c) i = Some l"
  shows "l_model l \<noteq> n"
  using assms no_lease_when_absent [of vt bok c n i l] lease_share(1) [of c i l]
  by (auto simp: quiet_def coordinator_inv_def)

lemma quiet_keeps:
  assumes "keeps vt c c'" "quiet vt c n" "lease_inv c'"
  shows "quiet vt c' n"
proof -
  have "0 \<le> leases_of c' n" unfolding leases_of_def by (rule sum_vals_nonneg) simp
  with assms show ?thesis
    using keeps_resident [OF assms(1), of n] by (auto simp: quiet_def keeps_def)
qed

section \<open>Operations\<close>

lemma pause_Some:
  assumes "pause w = Some w'"
  shows "\<exists>t. sched w = t # sched w' \<and> coord w' = tk_env t (coord w) \<and>
     clk w' = clk w + int (tk_elapsed t) \<and> lock_free w' = tk_free t"
  using assms by (auto simp: pause_def split: list.splits)

context backend_contract
begin

lemma pause_ok:
  assumes "world_ok vt bok w" "pause w = Some w'"
  shows "world_ok vt bok w' \<and> keeps vt (coord w) (coord w')"
proof -
  obtain t where t: "sched w = t # sched w'" "coord w' = tk_env t (coord w)"
    using pause_Some [OF assms(2)] by blast
  have "(shared_step vt)\<^sup>*\<^sup>* (coord w) (coord w')" using assms(1) t by (simp add: world_ok_def)
  from shared_steps_inv [OF this] assms(1) have
    "coordinator_inv vt bok (coord w') \<and> keeps vt (coord w) (coord w')" by (simp add: world_ok_def)
  with assms(1) t show ?thesis by (auto simp: world_ok_def keeps_def)
qed

lemma wait_lifecycle_lock_ok:
  assumes "wait_lifecycle_lock held l ctl m1 m2 w = Some y" "world_ok vt bok w"
  shows "world_ok vt bok (snd y) \<and> keeps vt (coord w) (coord (snd y))"
  using assms
proof (induction rule: wait_lifecycle_lock.raw_induct [rotated, consumes 1])
  case (1 f held l ctl m1 m2 w y)
  show ?case
  proof (cases "try_lock held l w \<or> cancelled_at ctl w \<or> expired_at ctl w")
    case True
    with 1(2,3) show ?thesis by (auto split: if_splits)
  next
    case False
    with 1(2) obtain w1 where w1: "pause w = Some w1" "f held l ctl m1 m2 w1 = Some y"
      by (auto simp: Option.bind_eq_Some_conv)
    from pause_ok [OF 1(3) w1(1)] 1(1) [OF w1(2)] show ?thesis by (auto intro: keeps_trans)
  qed
qed

lemma wait_load_lock_ok:
  assumes "wait_load_lock held l ctl name w = Some y" "world_ok vt bok w"
  shows "world_ok vt bok (snd y) \<and> keeps vt (coord w) (coord (snd y))"
  using assms
proof (induction rule: wait_load_lock.raw_induct [rotated, consumes 1])
  case (1 f held l ctl name w y)
  show ?case
  proof (cases "try_lock held l w \<or> cancelled_at ctl w \<or> expired_at ctl w")
    case True
    with 1(2,3) show ?thesis by (auto split: if_splits)
  next
    case False
    with 1(2) obtain w1 where w1: "pause w = Some w1" "f held l ctl name w1 = Some y"
      by (auto simp: Option.bind_eq_Some_conv)
    from pause_ok [OF 1(3) w1(1)] 1(1) [OF w1(2)] show ?thesis by (auto intro: keeps_trans)
  qed
qed

lemma drain_requests_ok:
  assumes "drain_requests name ctl dl w = Some w'" "world_ok vt bok w"
  shows "world_ok vt bok w' \<and> keeps vt (coord w) (coord w') \<and>
     (\<not> cancelled_at ctl w' \<and> has_active_requests (coord w') name \<longrightarrow> dl \<le> clk w')"
  using assms
proof (induction rule: drain_requests.raw_induct [rotated, consumes 1])
  case (1 f name ctl dl w w')
  show ?case
  proof (cases "has_active_requests (coord w) name \<and> clk w < dl \<and> \<not> cancelled_at ctl w")
    case False
    with 1(2,3) show ?thesis by auto
  next
    case True
    with 1(2) obtain w1 where w1: "pause w = Some w1" "f name ctl dl w1 = Some w'"
      by (auto simp: Option.bind_eq_Some_conv)
    from pause_ok [OF 1(3) w1(1)] 1(1) [OF w1(2)] show ?thesis by (auto intro: keeps_trans)
  qed
qed

lemma unload_detached_ok:
  assumes ok: "world_ok vt bok w" and idle: "\<not> has_active_requests (coord w) name"
    and run: "unload_detached vt name ctl w = Some (r, w')"
  shows "world_ok vt bok w' \<and> others_kept vt {name} (coord w) (coord w') \<and>
     name \<notin> draining_models (coord w') \<and>
     resizing_models (coord w') = resizing_models (coord w) \<and>
     (is_ok r \<longrightarrow> backend_ptr (coord w') name = None) \<and>
     (\<not> is_ok r \<longrightarrow> (backend_ptr (coord w') name = None) = (backend_ptr (coord w) name = None))"
proof -
  let ?w1 = "section_of (detach_instance vt name) w"
  have inv: "coordinator_inv vt bok (coord w)" using ok by (rule world_okD)
  obtain w2 where w2: "pause ?w1 = Some w2"
    using run by (auto simp: unload_detached_def Let_def Option.bind_eq_Some_conv)
  have ok1: "world_ok vt bok ?w1"
    using ok detach_inv [OF inv idle] by (intro world_ok_section) simp_all
  from pause_ok [OF ok1 w2] have ok2: "world_ok vt bok w2"
    and k: "keeps vt (detach_instance vt name (coord w)) (coord w2)" by simp_all
  have absent: "backend_ptr (coord w2) name = None" using keeps_present [OF k, of name] by simp
  define kept where "kept = map_option (\<lambda>b. snd (bk_unload vt (control_seen ctl ?w1 w2) b))
      (backend_ptr (coord w) name)"
  have good: "bok b" if "kept = Some b" for b
  proof -
    from that obtain b0 where b0: "backend_ptr (coord w) name = Some b0"
      "b = snd (bk_unload vt (control_seen ctl ?w1 w2) b0)" by (auto simp: kept_def)
    have "bok b0" using slot_inv_backend [OF world_okD(3) [OF ok] b0(1)] .
    then show ?thesis
      using unload_outcome [of b0 "control_seen ctl ?w1 w2" "fst (bk_unload vt (control_seen ctl ?w1 w2) b0)" b]
        b0(2) by simp
  qed
  define v where "v = (case backend_ptr (coord w) name of None \<Rightarrow> 0 | Some b \<Rightarrow> current_estimate vt b)"
  define p where "p = (current_loaded (coord w) = Some name)"
  have fin: "w' = section_of (settle_unload name r kept p v) w2 \<and>
      (backend_ptr (coord w) name = None \<longrightarrow> r = Ok ())"
  proof (cases "backend_ptr (coord w) name")
    case None
    with run w2 show ?thesis
      by (auto simp: unload_detached_def Let_def kept_def p_def v_def)
  next
    case (Some b)
    obtain r1 b1 where "bk_unload vt (control_seen ctl ?w1 w2) b = (r1, b1)" by fastforce
    with Some run w2 show ?thesis
      by (auto simp: unload_detached_def Let_def kept_def p_def v_def)
  qed
  then have w': "w' = section_of (settle_unload name r kept p v) w2"
    and r: "backend_ptr (coord w) name = None \<Longrightarrow> r = Ok ()" by auto
  have "world_ok vt bok w'" unfolding w'
    using ok2 settle_inv [OF world_okD(1) [OF ok2] absent good]
    by (intro world_ok_section) (simp_all add: settle_frame)
  moreover have "others_kept vt {name} (detach_instance vt name (coord w)) (coord w')"
    using keeps_others [OF k, of "{name}"] unfolding w'
    by (auto simp: others_kept_def settle_frame)
  then have "others_kept vt {name} (coord w) (coord w')" by (simp add: others_kept_def)
  moreover have "kept = None \<longleftrightarrow> backend_ptr (coord w) name = None" by (simp add: kept_def)
  ultimately show ?thesis using absent k r unfolding w' by (auto simp: settle_frame keeps_def)
qed

theorem unload_with_control_ok:
  assumes ok: "world_ok vt bok w" and run: "unload_with_control vt held name ctl w = Some (r, w')"
  shows "world_ok vt bok w' \<and> others_kept vt {name} (coord w) (coord w') \<and>
     resizing_models (coord w') = resizing_models (coord w) \<and>
     (is_ok r \<longrightarrow> backend_ptr (coord w') name = None) \<and>
     (\<not> is_ok r \<longrightarrow> (backend_ptr (coord w') name = None) = (backend_ptr (coord w) name = None))"
proof -
  obtain l1 w1 where w1: "wait_lifecycle_lock held (lock_of (coord w) name) ctl
      (''model unload cancelled: '' @ name)
      (''timeout waiting to start model unload: '' @ name) w = Some (l1, w1)"
    using run by (auto simp: unload_with_control_def Option.bind_eq_Some_conv)
  from wait_lifecycle_lock_ok [OF w1 ok] have ok1: "world_ok vt bok w1"
    and k1: "keeps vt (coord w) (coord w1)" by simp_all
  note o1 = keeps_others [OF k1, of "{name}"] and p1 = keeps_present [OF k1, of name]
  show ?thesis
  proof (cases "is_ok l1")
    case False
    with run w1 have "w' = w1" "r = l1" by (auto simp: unload_with_control_def)
    with ok1 o1 p1 k1 False show ?thesis by (auto simp: keeps_def)
  next
    case True
    let ?s = "section_of (start_draining name) w1"
    have oks: "world_ok vt bok ?s"
      using ok1 world_okD(1) [OF ok1] by (intro world_ok_section) simp_all
    define dl where "dl = min (lc_deadline ctl) (clk w1 + ms 30000)"
    obtain w2 where w2: "drain_requests name ctl dl ?s = Some w2"
      using run w1 True by (auto simp: unload_with_control_def Option.bind_eq_Some_conv dl_def)
    from drain_requests_ok [OF w2 oks] have ok2: "world_ok vt bok w2"
      and k2: "keeps vt (start_draining name (coord w1)) (coord w2)" by simp_all
    have o2: "others_kept vt {name} (coord w1) (coord w2)"
      using keeps_others [OF k2, of "{name}"] by (simp add: others_kept_def)
    have p2: "(backend_ptr (coord w2) name = None) = (backend_ptr (coord w1) name = None)"
      using keeps_present [OF k2, of name] by simp
    note o12 = others_kept_trans [OF o1 o2]
    have z2: "resizing_models (coord w2) = resizing_models (coord w)"
      using k1 k2 by (simp add: keeps_def)
    show ?thesis
    proof (cases "cancelled_at ctl w2 \<or> has_active_requests (coord w2) name")
      case stop: True
      have "w' = section_of (stop_draining name) w2" "\<not> is_ok r"
        using run w1 True w2 stop
        by (auto simp: unload_with_control_def dl_def split: if_splits)
      moreover have "world_ok vt bok (section_of (stop_draining name) w2)"
        using ok2 world_okD(1) [OF ok2] by (intro world_ok_section) simp_all
      moreover have "others_kept vt {name} (coord w2) (stop_draining name (coord w2))"
        by (simp add: others_kept_def)
      ultimately show ?thesis using o12 p1 p2 z2 by (auto intro: others_kept_trans)
    next
      case False
      with run w1 True w2 have fin: "unload_detached vt name ctl w2 = Some (r, w')"
        by (auto simp: unload_with_control_def dl_def split: if_splits)
      from unload_detached_ok [OF ok2 _ fin] False o12 p1 p2 z2 show ?thesis
        by (auto intro: others_kept_trans)
    qed
  qed
qed

text \<open>A call made off the mutex on the backend of a quiet model.\<close>

lemma call_instance_ok:
  assumes ok: "world_ok vt bok w" and q: "quiet vt (coord w) name"
    and f: "\<And>cv b. bok b \<Longrightarrow> bok (snd (f cv b))"
    and run: "call_instance name f ctl w = Some (r, w')"
  shows "\<exists>b cv. bok b \<and> f cv b = (r, the (backend_ptr (coord w') name)) \<and>
     backend_ptr (coord w') name \<noteq> None \<and> bk_is_loaded vt b = resident vt (coord w) name \<and>
     rel_option (same_identity vt) (backend_ptr (coord w) name) (Some b) \<and>
     world_ok vt bok w' \<and> others_kept vt {name} (coord w) (coord w') \<and>
     draining_models (coord w') = draining_models (coord w) \<and>
     resizing_models (coord w') = resizing_models (coord w) \<and>
     leases_of (coord w') name = 0"
proof -
  obtain w1 b where w1: "pause w = Some w1" and b: "backend_ptr (coord w1) name = Some b"
    using run by (auto simp: call_instance_def Option.bind_eq_Some_conv)
  let ?cv = "control_seen ctl w w1"
  obtain b' where fb: "f ?cv b = (r, b')" and w': "w' = section_of (put_backend name b') w1"
    using run w1 b by (auto simp: call_instance_def Let_def split: prod.splits)
  from pause_ok [OF ok w1] have ok1: "world_ok vt bok w1" and k: "keeps vt (coord w) (coord w1)"
    by auto
  note inv1 = world_okD(1) [OF ok1]
  have q1: "quiet vt (coord w1) name" using quiet_keeps [OF k q world_okD(2) [OF ok1]] .
  have bok_b: "bok b" using slot_inv_backend [OF world_okD(3) [OF ok1] b] .
  have "coordinator_inv vt bok (put_backend name b' (coord w1))"
    using f [OF bok_b, of ?cv] fb quiet_no_lease [OF inv1 q1]
    by (intro put_unleased_inv [OF inv1]) auto
  then have "world_ok vt bok w'" unfolding w' using ok1 by (intro world_ok_section) simp_all
  moreover have "others_kept vt {name} (coord w1) (coord w')" unfolding w'
    by (simp add: others_kept_def) (simp add: put_backend_def)
  with keeps_others [OF k, of "{name}"] have "others_kept vt {name} (coord w) (coord w')"
    by (blast intro: others_kept_trans)
  moreover have "bk_is_loaded vt b = resident vt (coord w) name"
    using keeps_resident [OF k, of name] b by (simp add: resident_def)
  moreover have "leases_of (coord w') name = 0"
    using leases_of_0_absent [OF world_okD(2) [OF ok1] quiet_no_lease [OF inv1 q1]]
    unfolding w' by (simp add: leases_of_def)
  moreover have "rel_option (same_identity vt) (backend_ptr (coord w) name) (Some b)"
    using keeps_ptr [OF k, of name] b by simp
  ultimately show ?thesis using bok_b fb k unfolding w'
    by (intro exI [of _ b] exI [of _ ?cv]) (auto simp: keeps_def)
qed

lemma obtain_instance_ok:
  assumes ok: "world_ok vt bok w" and absent: "\<not> resident vt (coord w) name"
    and run: "obtain_instance name (coord w) = (r, c)"
  shows "world_ok vt bok (w\<lparr>coord := c\<rparr>) \<and> others_kept vt {name} (coord w) c \<and>
     \<not> resident vt c name \<and> (is_ok r \<longrightarrow> backend_ptr c name \<noteq> None) \<and>
     resizing_models c = resizing_models (coord w) \<and>
     (\<not> is_ok r \<longrightarrow> c = coord w)"
proof (cases "\<exists>b. backend_ptr (coord w) name = None \<and> create_result (registry (coord w)) name = Inr b")
  case False
  with run have "c = coord w" "is_ok r \<longrightarrow> backend_ptr c name \<noteq> None"
    by (auto simp: obtain_instance_def split: option.splits sum.splits)
  with ok absent show ?thesis by simp
next
  case True
  then obtain b where b: "backend_ptr (coord w) name = None"
    "create_result (registry (coord w)) name = Inr b" by blast
  then have c: "c = put_backend name b (coord w)" "is_ok r"
    using run by (auto simp: obtain_instance_def)
  have fresh: "bok b" "\<not> bk_is_loaded vt b"
    using b(2) ok
    by (auto simp: create_result_def world_ok_def factories_ok_def split: option.splits)
  have q: "quiet vt (coord w) name" using absent by (simp add: quiet_def)
  have "coordinator_inv vt bok c"
    using put_unleased_inv [OF world_okD(1) [OF ok] fresh(1) quiet_no_lease [OF world_okD(1) [OF ok] q]]
    by (simp add: c)
  with ok fresh show ?thesis
    by (auto simp: c world_ok_def others_kept_def resident_def) (simp_all add: put_backend_def)
qed

lemma restore_slots_ok:
  assumes ok: "world_ok vt bok w" and absent: "\<not> resident vt (coord w) name"
    and run: "restore_slots vt name rs ctl w = Some (r, w')"
  shows "world_ok vt bok w' \<and> others_kept vt {name} (coord w) (coord w') \<and>
     \<not> resident vt (coord w') name \<and>
     resizing_models (coord w') = resizing_models (coord w)"
proof (cases "r = Ok () \<and> w' = w")
  case True
  with ok absent show ?thesis by simp
next
  case False
  with run obtain slots where call: "call_instance name (bk_resize_slots vt slots) ctl w = Some (r, w')"
    by (auto simp: restore_slots_def split: option.splits if_splits)
  have q: "quiet vt (coord w) name" using absent by (simp add: quiet_def)
  have f: "bok (snd (bk_resize_slots vt slots cv b))" if "bok b" for cv b
    using resize_outcome [OF that surjective_pairing] by blast
  from call_instance_ok [OF ok q f call] obtain b cv where
    b: "bok b" "bk_resize_slots vt slots cv b = (r, the (backend_ptr (coord w') name))"
      "backend_ptr (coord w') name \<noteq> None" "bk_is_loaded vt b = resident vt (coord w) name"
    and rest: "world_ok vt bok w'" "others_kept vt {name} (coord w) (coord w')"
      "resizing_models (coord w') = resizing_models (coord w)" by blast
  from resize_outcome [OF b(1,2)] b(3,4) absent have "\<not> resident vt (coord w') name"
    by (auto simp: resident_def)
  with rest show ?thesis by blast
qed

lemma note_frame [simp]:
  "backend_ptr (note_load_outcome vt n c) = backend_ptr c"
  "backend_ptr (note_primary vt n c) = backend_ptr c"
  "registry (note_load_outcome vt n c) = registry c"
  "registry (note_primary vt n c) = registry c"
  "draining_models (note_load_outcome vt n c) = draining_models c"
  "draining_models (note_primary vt n c) = draining_models c"
  "resizing_models (note_load_outcome vt n c) = resizing_models c"
  "resizing_models (note_primary vt n c) = resizing_models c"
  "swap_in_progress (note_load_outcome vt n c) = swap_in_progress c"
  "swap_in_progress (note_primary vt n c) = swap_in_progress c"
  "coordinator_inv vt bok (note_load_outcome vt n c) = coordinator_inv vt bok c"
  "coordinator_inv vt bok (note_primary vt n c) = coordinator_inv vt bok c"
  by (auto simp: note_load_outcome_def note_primary_def bump_generation_def
      invalidate_vram_observation_locked_def backend_ptr_def split: option.splits)
    (auto simp: coordinator_inv_cong [of "c\<lparr>observed_vram_at := 0, resource_generation := _\<rparr>" c]
      coordinator_inv_cong [of "c\<lparr>current_loaded := _\<rparr>" c])

lemma load_instance_ok:
  assumes ok: "world_ok vt bok w" and absent: "\<not> resident vt (coord w) name"
    and run: "load_instance vt name rs ctl w = Some (r, w')"
  shows "world_ok vt bok w' \<and> others_kept vt {name} (coord w) (coord w') \<and>
     resizing_models (coord w') = resizing_models (coord w) \<and>
     (is_ok r \<longrightarrow> resident vt (coord w') name)"
proof -
  obtain ro c where ro: "obtain_instance name (coord w) = (ro, c)" by fastforce
  note o = obtain_instance_ok [OF ok absent ro]
  show ?thesis
  proof (cases ro)
    case (Inl e)
    with run ro have "r = Inl e" "w' = w\<lparr>coord := c\<rparr>" by (auto simp: load_instance_def)
    with o show ?thesis by simp
  next
    case (Inr u)
    let ?w = "w\<lparr>coord := c\<rparr>"
    obtain rr w1 where w1: "restore_slots vt name rs ctl ?w = Some (rr, w1)"
      using run ro Inr by (auto simp: load_instance_def Option.bind_eq_Some_conv)
    have "world_ok vt bok ?w" "\<not> resident vt (coord ?w) name" using o by auto
    note s = restore_slots_ok [OF this w1]
    have o1: "others_kept vt {name} (coord w) (coord w1)"
      using o s by (auto intro: others_kept_trans)
    show ?thesis
    proof (cases "is_ok rr")
      case False
      with run ro Inr w1 have "r = rr" "w' = w1" by (auto simp: load_instance_def)
      with s o o1 False show ?thesis by auto
    next
      case True
      obtain r2 w2 where w2: "call_instance name (bk_load vt) ctl w1 = Some (r2, w2)"
        using run ro Inr w1 True by (auto simp: load_instance_def Option.bind_eq_Some_conv)
      have q: "quiet vt (coord w1) name" using s by (simp add: quiet_def)
      have f: "bok (snd (bk_load vt cv b))" if "bok b" for cv b
        using load_outcome [OF that surjective_pairing] by blast
      from call_instance_ok [OF _ q f w2] s obtain b cv where
        b: "bok b" "bk_load vt cv b = (r2, the (backend_ptr (coord w2) name))"
          "backend_ptr (coord w2) name \<noteq> None"
        and rest: "world_ok vt bok w2" "others_kept vt {name} (coord w1) (coord w2)"
          "resizing_models (coord w2) = resizing_models (coord w1)" by blast
      define g where "g = (if is_ok r2 then note_load_outcome vt name \<circ> note_primary vt name
          else note_load_outcome vt name)"
      have fin: "w' = section_of g w2" "is_ok r = is_ok r2"
        using run ro Inr w1 True w2 by (auto simp: load_instance_def g_def split: if_splits)
      have "world_ok vt bok w'" unfolding fin(1)
        using rest(1) world_okD(1) [OF rest(1)] by (intro world_ok_section) (simp_all add: g_def)
      moreover have "others_kept vt {name} (coord w) (coord w')"
        using others_kept_trans [OF o1 rest(2)] unfolding fin(1)
        by (auto simp: others_kept_def g_def)
      moreover have "is_ok r2 \<longrightarrow> resident vt (coord w2) name"
        using load_outcome [OF b(1,2)] b(3) by (auto simp: resident_def)
      then have "is_ok r \<longrightarrow> resident vt (coord w') name"
        by (simp add: fin g_def resident_def)
      ultimately show ?thesis using rest s o by (auto simp: fin g_def)
    qed
  qed
qed

lemma load_locked_ok:
  assumes ok: "world_ok vt bok w" and run: "load_locked vt held name ctl w = Some (r, w')"
  shows "world_ok vt bok w' \<and> others_kept vt {name} (coord w) (coord w') \<and>
     resizing_models (coord w') = resizing_models (coord w) \<and>
     (is_ok r \<longrightarrow> resident vt (coord w') name)"
proof (cases "resident vt (coord w) name")
  case False
  then obtain w1 where w1: "pause w = Some w1" "load_instance vt name None ctl w1 = Some (r, w')"
    using run by (auto simp: load_locked_def resident_def Option.bind_eq_Some_conv
        split: option.splits)
  from pause_ok [OF ok w1(1)] have ok1: "world_ok vt bok w1" and k: "keeps vt (coord w) (coord w1)"
    by auto
  have "\<not> resident vt (coord w1) name" using keeps_resident [OF k] False by simp
  from load_instance_ok [OF ok1 this w1(2)] keeps_others_trans [OF k] keeps_resizing [OF k]
  show ?thesis by simp
next
  case True
  then obtain b where b: "backend_ptr (coord w) name = Some b" "bk_is_loaded vt b"
    by (auto simp: resident_def split: option.splits)
  show ?thesis
  proof (cases "bk_execution_healthy vt b")
    case healthy: True
    with run b have fin: "r = Ok ()" "w' = section_of (note_primary vt name) w"
      by (auto simp: load_locked_def)
    have "world_ok vt bok w'" unfolding fin
      using ok world_okD(1) [OF ok] by (intro world_ok_section) simp_all
    with True show ?thesis by (simp add: fin others_kept_def resident_def)
  next
    case False
    from run b False obtain w1 ru w2 where w1: "pause w = Some w1"
      and w2: "unload_with_control vt held name ctl w1 = Some (ru, w2)"
      by (auto simp: load_locked_def Option.bind_eq_Some_conv)
    from pause_ok [OF ok w1] have ok1: "world_ok vt bok w1" and k1: "keeps vt (coord w) (coord w1)"
      by auto
    note u = unload_with_control_ok [OF ok1 w2]
    have o2: "others_kept vt {name} (coord w) (coord w2)"
      using keeps_others [OF k1] u by (blast intro: others_kept_trans)
    have z2: "resizing_models (coord w2) = resizing_models (coord w)"
      using u k1 by (simp add: keeps_def)
    show ?thesis
    proof (cases "is_ok ru")
      case nok: False
      with run b False w1 w2 have "r = ru" "w' = w2" by (auto simp: load_locked_def)
      with u o2 z2 nok show ?thesis by simp
    next
      case uok: True
      with run b False w1 w2 obtain w3 where w3: "pause w2 = Some w3"
        "load_instance vt name (Some (bk_n_slots vt b)) ctl w3 = Some (r, w')"
        by (auto simp: load_locked_def Option.bind_eq_Some_conv)
      from pause_ok [OF _ w3(1)] u have ok3: "world_ok vt bok w3"
        and k3: "keeps vt (coord w2) (coord w3)" by auto
      have "\<not> resident vt (coord w3) name"
        using keeps_present [OF k3, of name] u uok by (auto simp: resident_def split: option.splits)
      from load_instance_ok [OF ok3 this w3(2)] keeps_others_trans [OF k3]
        others_kept_trans [OF o2] z2 keeps_resizing [OF k3]
      show ?thesis by simp
    qed
  qed
qed

theorem load_with_lock_deadline_ok:
  assumes ok: "world_ok vt bok w"
    and run: "load_with_lock_deadline vt held name ctl w = Some (r, w')"
  shows "world_ok vt bok w' \<and> others_kept vt {name} (coord w) (coord w') \<and>
     resizing_models (coord w') = resizing_models (coord w) \<and>
     (is_ok r \<longrightarrow> resident vt (coord w') name)"
proof (cases "get_info_result (registry (coord w)) name")
  case (Inl e)
  with run ok show ?thesis by (auto simp: load_with_lock_deadline_def)
next
  case (Inr info)
  let ?l = "if is_independent_sidecar info then SidecarMutex else SwapMutex"
  obtain rl w1 where w1: "wait_load_lock held ?l ctl name w = Some (rl, w1)"
    using run Inr by (auto simp: load_with_lock_deadline_def Let_def Option.bind_eq_Some_conv)
  from wait_load_lock_ok [OF w1 ok] have ok1: "world_ok vt bok w1"
    and k1: "keeps vt (coord w) (coord w1)" by auto
  show ?thesis
  proof (cases "is_ok rl")
    case False
    with run Inr w1 have "r = rl" "w' = w1" by (auto simp: load_with_lock_deadline_def Let_def)
    with ok1 keeps_others [OF k1] k1 False show ?thesis by (simp add: keeps_def)
  next
    case True
    with run Inr w1 have "load_locked vt (insert ?l held) name ctl w1 = Some (r, w')"
      by (simp add: load_with_lock_deadline_def Let_def)
    from load_locked_ok [OF ok1 this] keeps_others_trans [OF k1] keeps_resizing [OF k1]
    show ?thesis by simp
  qed
qed

end

end
