(* ===== verification/Capacity_Safety.thy ===== *)
theory Capacity_Safety
  imports Coordinator_Capacity Lifecycle_Safety
begin

text \<open>
  Correctness of making room and of swapping. When \<^verbatim>\<open>prepare_capacity_for\<close> reports success there is
  room for the model; it keeps the invariant under interference, leaves no resizing mark behind and
  never unloads a model whose residency policy is \<^verbatim>\<open>always\<close>. A swap that reports success has loaded
  the model.
\<close>

section \<open>Single passes\<close>

lemma allow_section_Ok: "allow_section name w = (Inr u, w') \<Longrightarrow> w' = w"
  by (auto simp: allow_section_def require_priority_session_allows_def split: if_splits)

lemma veto_pass_cases:
  assumes "veto_pass cand allowed w = Some (s, w')"
  obtains w1 where "pause w = Some w1" "s = Return allowed"
    "w' = section_of (clear_resizing cand) w1"
  using assms by (auto simp: veto_pass_def Option.bind_eq_Some_conv)

lemma after_reclaim_cases:
  assumes "after_reclaim vt required rc w = Some (s, w')"
  obtains e where "rc = Inl e" "s = Return (Err (err_code e) (err_message e))" "w' = w"
    | "rc = Inr False" "s = Again" "w' = w"
    | "rc = Inr True" "pause w = Some w'"
        "s = (if fits vt required w' then Return (Ok ()) else Again)"
  using assms
  by (cases rc) (auto simp: after_reclaim_def Option.bind_eq_Some_conv split: bool.splits)

lemma reclaim_from_cases:
  assumes "reclaim_from vt name required ctl cand w = Some (s, w')"
  obtains w1 e w2 where "pause (section_of (mark_resizing cand) w) = Some w1"
      "allow_section name w1 = (Inl e, w2)" "veto_pass cand (Inl e) w2 = Some (s, w')"
    | w1 rc w3 where "pause (section_of (mark_resizing cand) w) = Some w1"
        "reclaim_one vt name required ctl (live_vram_observation_fresh_locked (clk w) (coord w))
           (observed_vram_used_mb (coord w)) cand w1 = Some (rc, w3)"
        "after_reclaim vt required rc w3 = Some (s, w')"
proof -
  obtain w1 where w1: "pause (section_of (mark_resizing cand) w) = Some w1"
    using assms by (auto simp: reclaim_from_def Option.bind_eq_Some_conv)
  obtain a w2 where a: "allow_section name w1 = (a, w2)" by fastforce
  show thesis
  proof (cases a)
    case (Inl e)
    with assms w1 a that(1) show thesis by (auto simp: reclaim_from_def)
  next
    case (Inr u)
    with assms w1 a allow_section_Ok [of name w1 u w2] that(2) show thesis
      by (auto simp: reclaim_from_def Option.bind_eq_Some_conv)
  qed
qed

lemma shrink_one_cases:
  assumes "shrink_one vt name ctl cand k w = Some (s, w')"
  obtains w1 e w2 where "pause (section_of (mark_resizing cand) w) = Some w1"
      "allow_section name w1 = (Inl e, w2)" "veto_pass cand (Inl e) w2 = Some (s, w')"
    | w1 r w3 where "pause (section_of (mark_resizing cand) w) = Some w1"
        "call_instance cand (bk_resize_slots vt k) ctl w1 = Some (r, w3)"
        "s = (if is_ok r then Again else Leave)"
        "w' = section_of ((if is_ok r then note_shrunk cand k name else id)
                          \<circ> clear_resizing cand) w3"
proof -
  obtain w1 where w1: "pause (section_of (mark_resizing cand) w) = Some w1"
    using assms by (auto simp: shrink_one_def Option.bind_eq_Some_conv)
  obtain a w2 where a: "allow_section name w1 = (a, w2)" by fastforce
  show thesis
  proof (cases a)
    case (Inl e)
    with assms w1 a that(1) show thesis by (auto simp: shrink_one_def)
  next
    case (Inr u)
    with assms w1 a allow_section_Ok [of name w1 u w2] that(2) show thesis
      by (auto simp: shrink_one_def Option.bind_eq_Some_conv split: if_splits)
  qed
qed

lemma evict_one_cases:
  assumes "evict_one vt held name ctl cand w = Some (s, w')"
  obtains w1 e where "pause w = Some w1" "allow_section name w1 = (Inl e, w')" "s = Return (Inl e)"
    | w1 r where "pause w = Some w1" "unload_with_control vt held cand ctl w1 = Some (r, w')"
        "\<not> is_ok r" "s = Return r"
    | w1 r w3 w4 where "pause w = Some w1"
        "unload_with_control vt held cand ctl w1 = Some (r, w3)" "is_ok r" "pause w3 = Some w4"
        "s = Again" "w' = section_of (\<lambda>c. c\<lparr>last_resource_decision :=
           ''evicted idle '' @ cand @ '' for '' @ name\<rparr>) w4"
proof -
  obtain w1 where w1: "pause w = Some w1"
    using assms by (auto simp: evict_one_def Option.bind_eq_Some_conv)
  obtain a w2 where a: "allow_section name w1 = (a, w2)" by fastforce
  show thesis
  proof (cases a)
    case (Inl e)
    with assms w1 a that(1) show thesis by (auto simp: evict_one_def)
  next
    case (Inr u)
    then have w2: "w2 = w1" using a allow_section_Ok [of name w1 u w2] by simp
    obtain r w3 where u: "unload_with_control vt held cand ctl w1 = Some (r, w3)"
      using assms w1 a Inr w2 by (auto simp: evict_one_def Option.bind_eq_Some_conv)
    show thesis
    proof (cases "is_ok r")
      case False
      with assms w1 a Inr w2 u that(2) show thesis by (auto simp: evict_one_def)
    next
      case True
      with assms w1 a Inr w2 u that(3) show thesis
        by (auto simp: evict_one_def Option.bind_eq_Some_conv)
    qed
  qed
qed

lemma drive_cases:
  assumes "(case s of Return r \<Rightarrow> Some (Some r, w1) | Leave \<Rightarrow> Some (None, w1)
            | Again \<Rightarrow> Option.bind (pause w1) g) = Some y"
  obtains r where "s = Return r" "y = (Some r, w1)"
    | "s = Leave" "y = (None, w1)"
    | w2 where "s = Again" "pause w1 = Some w2" "g w2 = Some y"
  using assms by (cases s) (auto simp: Option.bind_eq_Some_conv)

section \<open>What making room leaves alone\<close>

text \<open>A loaded model that the policy keeps resident, with its metadata.\<close>

definition pinned :: "'b ibackend \<Rightarrow> 'b coordinator \<Rightarrow> string \<Rightarrow> model_info \<Rightarrow> bool" where
  "pinned vt c n info =
     (mi_residency info = Always \<and>
      (case backend_ptr c n of None \<Rightarrow> False
       | Some b \<Rightarrow> bk_is_loaded vt b \<and> bk_info vt b = info))"

definition room_rel :: "'b ibackend \<Rightarrow> 'b coordinator \<Rightarrow> 'b coordinator \<Rightarrow> bool" where
  "room_rel vt c c' =
     (registry c' = registry c \<and> swap_in_progress c' = swap_in_progress c \<and>
      resizing_models c' \<subseteq> resizing_models c \<and>
      (\<forall>n info. pinned vt c n info \<longrightarrow> pinned vt c' n info))"

lemma room_rel_refl [simp]: "room_rel vt c c"
  by (simp add: room_rel_def)

lemma room_rel_trans: "room_rel vt c c' \<Longrightarrow> room_rel vt c' c'' \<Longrightarrow> room_rel vt c c''"
  by (auto simp: room_rel_def)

lemma same_identity_pinned:
  "rel_option (same_identity vt) (backend_ptr c n) (backend_ptr c' n) \<Longrightarrow> pinned vt c n info \<Longrightarrow>
     pinned vt c' n info"
  by (cases "backend_ptr c n"; cases "backend_ptr c' n") (auto simp: pinned_def same_identity_def)

lemma keeps_room: "keeps vt c c' \<Longrightarrow> room_rel vt c c'"
  by (simp add: room_rel_def) (simp add: keeps_def, blast intro: same_identity_pinned)

lemma room_keeps_trans: "room_rel vt c c' \<Longrightarrow> keeps vt c' c'' \<Longrightarrow> room_rel vt c c''"
  by (blast intro: room_rel_trans keeps_room)

text \<open>A change confined to one model that is not pinned, or that stays so.\<close>

lemma others_room:
  assumes "others_kept vt {n} c c'" "resizing_models c' \<subseteq> resizing_models c"
    and "\<And>info. pinned vt c n info \<Longrightarrow> pinned vt c' n info"
  shows "room_rel vt c c'"
proof -
  have "pinned vt c' m info" if "pinned vt c m info" for m info
  proof (cases "m = n")
    case True
    with that assms(3) show ?thesis by blast
  next
    case False
    with assms(1) that show ?thesis
      by (intro same_identity_pinned [of vt c m c']) (simp_all add: others_kept_def)
  qed
  with assms(1,2) show ?thesis by (simp add: room_rel_def others_kept_def)
qed

lemma marks_frame [simp]:
  "backend_ptr (mark_resizing n c) = backend_ptr c"
  "backend_ptr (clear_resizing n c) = backend_ptr c"
  "registry (mark_resizing n c) = registry c" "registry (clear_resizing n c) = registry c"
  "swap_in_progress (mark_resizing n c) = swap_in_progress c"
  "swap_in_progress (clear_resizing n c) = swap_in_progress c"
  "draining_models (mark_resizing n c) = draining_models c"
  "draining_models (clear_resizing n c) = draining_models c"
  "resizing_models (mark_resizing n c) = insert n (resizing_models c)"
  "resizing_models (clear_resizing n c) = resizing_models c - {n}"
  "leases_of (mark_resizing n c) = leases_of c"
  "coordinator_inv vt bok (mark_resizing n c) = coordinator_inv vt bok c"
  "coordinator_inv vt bok (clear_resizing n c) = coordinator_inv vt bok c"
  by (simp_all add: mark_resizing_def clear_resizing_def backend_ptr_def leases_of_def fun_eq_iff)

lemma loaded_instances_iff:
  assumes "keys_distinct (instances c)"
  shows "(n, b) \<in> set (loaded_instances vt c) \<longleftrightarrow> backend_ptr c n = Some b \<and> bk_is_loaded vt b"
proof -
  have "(n, b) \<in> set (loaded_instances vt c) \<longleftrightarrow> (n, Some b) \<in> set (instances c) \<and> bk_is_loaded vt b"
    by (force simp: loaded_instances_def List.map_filter_def split: option.splits if_splits)
  also have "(n, Some b) \<in> set (instances c) \<longleftrightarrow> lookup (instances c) n = Some (Some b)"
    using assms by (simp add: map_of_eq_Some_iff)
  also have "\<dots> \<longleftrightarrow> backend_ptr c n = Some b" by (simp add: backend_ptr_def split: option.split)
  finally show ?thesis .
qed

lemma reclaim_candidate_Some:
  assumes "reclaim_candidate vt name att c = Some n" "slot_inv vt bok c"
  shows "resident vt c n" "n \<notin> resizing_models c" "idle c n" "n \<noteq> name"
proof -
  obtain b where b: "find (reclaim_eligible vt name att c) (loaded_instances vt c) = Some (n, b)"
    using assms(1) by (auto simp: reclaim_candidate_def)
  then have e: "reclaim_eligible vt name att c (n, b)" "(n, b) \<in> set (loaded_instances vt c)"
    by (auto simp: find_Some_iff)
  with assms(2) have "backend_ptr c n = Some b" "bk_is_loaded vt b"
    by (auto simp: loaded_instances_iff slot_inv_def)
  then show "resident vt c n" by (simp add: resident_def)
  show "n \<notin> resizing_models c" "idle c n" "n \<noteq> name" using e(1) by (auto simp: reclaim_eligible_def)
qed

lemma shrink_candidate_Some:
  assumes "shrink_candidate vt name c = Some (n, k)" "slot_inv vt bok c"
  shows "\<exists>b. backend_ptr c n = Some b \<and> bk_is_loaded vt b \<and> idle c n \<and> n \<noteq> name \<and>
     mi_residency (bk_info vt b) \<noteq> Always \<and> k = bk_n_slots vt b - 1 \<and> bk_min_slots vt b \<le> k"
proof -
  obtain b where b: "find (shrink_eligible vt name c) (loaded_instances vt c) = Some (n, b)"
    "k = bk_n_slots vt b - 1"
    using assms(1) by (auto simp: shrink_candidate_def)
  then have e: "shrink_eligible vt name c (n, b)" "(n, b) \<in> set (loaded_instances vt c)"
    by (auto simp: find_Some_iff)
  with assms(2) have "backend_ptr c n = Some b" "bk_is_loaded vt b"
    by (auto simp: loaded_instances_iff slot_inv_def)
  with e(1) b(2) show ?thesis by (auto simp: shrink_eligible_def)
qed

lemma evict_fold:
  assumes "fold (evict_step vt name c) xs (n0, v0) = (n, v)"
  shows "(n, v) = (n0, v0) \<or>
     (\<exists>b. (n, b) \<in> set xs \<and> evict_eligible vt name c (n, b) \<and> v = current_estimate vt b \<and> v0 < v)"
  using assms
proof (induction xs arbitrary: n0 v0)
  case (Cons x xs)
  obtain m b where x: "x = (m, b)" by fastforce
  let ?s = "evict_step vt name c (m, b) (n0, v0)"
  have "fold (evict_step vt name c) xs (fst ?s, snd ?s) = (n, v)" using Cons.prems x by simp
  from Cons.IH [OF this] show ?case
    by (auto simp: x evict_step_def split: if_splits)
qed simp

lemma evict_candidate_eligible:
  assumes "evict_candidate vt name c \<noteq> []" "slot_inv vt bok c"
  shows "\<exists>b. backend_ptr c (evict_candidate vt name c) = Some b \<and> bk_is_loaded vt b \<and>
     mi_eviction_eligible (bk_info vt b) \<and> mi_residency (bk_info vt b) \<noteq> Always \<and>
     \<not> 0 < active_of c (evict_candidate vt name c) \<and> evict_candidate vt name c \<noteq> name"
proof -
  let ?n = "evict_candidate vt name c"
  obtain v where f: "fold (evict_step vt name c) (loaded_instances vt c) ([], 0) = (?n, v)"
    by (metis evict_candidate_def prod.collapse)
  from evict_fold [OF f] assms(1) obtain b where
    b: "(?n, b) \<in> set (loaded_instances vt c)" "evict_eligible vt name c (?n, b)" by blast
  then have "backend_ptr c ?n = Some b" "bk_is_loaded vt b"
    using assms(2) by (auto simp: loaded_instances_iff slot_inv_def)
  with b(2) show ?thesis
    by (auto simp: evict_eligible_def active_of_def get0_def split: option.splits)
qed

section \<open>The phases\<close>

lemma idle_no_leases: "lease_inv c \<Longrightarrow> idle c n \<Longrightarrow> leases_of c n = 0"
proof -
  assume a: "lease_inv c" "idle c n"
  have "0 \<le> leases_of c n" unfolding leases_of_def by (rule sum_vals_nonneg) simp
  with a lease_invD(3) [OF a(1), of n] show ?thesis by (simp add: idle_def)
qed

lemma note_fields [simp]:
  "coordinator_inv vt bok (note_reclaimed a b c) = coordinator_inv vt bok c"
  "coordinator_inv vt bok (note_shrunk a k b c) = coordinator_inv vt bok c"
  "coordinator_inv vt bok (note_decision d c) = coordinator_inv vt bok c"
  "coordinator_inv vt bok (note_restored a b c) = coordinator_inv vt bok c"
  "backend_ptr (note_reclaimed a b c) = backend_ptr c"
  "backend_ptr (note_shrunk a k b c) = backend_ptr c"
  "backend_ptr (note_decision d c) = backend_ptr c"
  "backend_ptr (note_restored a b c) = backend_ptr c"
  "backend_ptr (c\<lparr>last_resource_decision := d\<rparr>) = backend_ptr c"
  "registry (note_reclaimed a b c) = registry c" "registry (note_shrunk a k b c) = registry c"
  "registry (note_decision d c) = registry c" "registry (note_restored a b c) = registry c"
  "resizing_models (note_reclaimed a b c) = resizing_models c"
  "resizing_models (note_shrunk a k b c) = resizing_models c"
  "resizing_models (note_decision d c) = resizing_models c"
  "resizing_models (note_restored a b c) = resizing_models c"
  "draining_models (note_reclaimed a b c) = draining_models c"
  "draining_models (note_shrunk a k b c) = draining_models c"
  "swap_in_progress (note_reclaimed a b c) = swap_in_progress c"
  "swap_in_progress (note_shrunk a k b c) = swap_in_progress c"
  "swap_in_progress (note_decision d c) = swap_in_progress c"
  "swap_in_progress (note_restored a b c) = swap_in_progress c"
  by (simp_all add: note_reclaimed_def note_shrunk_def note_decision_def note_restored_def
      bump_generation_def invalidate_vram_observation_locked_def backend_ptr_def fun_eq_iff)
    (rule coordinator_inv_cong; simp)+

lemma fits_note_decision: "fits vt required (section_of (note_decision d) w) = fits vt required w"
proof -
  let ?c = "note_decision d (coord w)"
  have "loaded_instances vt ?c = loaded_instances vt (coord w)"
    "live_vram_observation_fresh_locked (clk w) ?c
       = live_vram_observation_fresh_locked (clk w) (coord w)"
    "vram_budget_mb ?c = vram_budget_mb (coord w)"
    "vram_safety_margin_mb ?c = vram_safety_margin_mb (coord w)"
    "observed_vram_total_mb ?c = observed_vram_total_mb (coord w)"
    "observed_vram_used_mb ?c = observed_vram_used_mb (coord w)"
    by (simp_all add: note_decision_def loaded_instances_def live_vram_observation_fresh_locked_def)
  then show ?thesis
    by (simp add: fits_def available_vram_locked_def estimated_vram_locked_def Let_def
        live_vram_observation_usable_locked_def)
qed

lemma pinned_cong: "backend_ptr c' n = backend_ptr c n \<Longrightarrow> pinned vt c' n info = pinned vt c n info"
  by (simp add: pinned_def)

lemma allow_section_frame:
  assumes "allow_section name w = (r, w')"
  shows "sched w' = sched w \<and> clk w' = clk w \<and> instances (coord w') = instances (coord w) \<and>
     active_leases (coord w') = active_leases (coord w) \<and>
     draining_models (coord w') = draining_models (coord w) \<and>
     resizing_models (coord w') = resizing_models (coord w) \<and>
     registry (coord w') = registry (coord w) \<and>
     swap_in_progress (coord w') = swap_in_progress (coord w) \<and>
     current_loaded (coord w') = current_loaded (coord w)"
  using assms
  by (auto simp: allow_section_def require_priority_session_allows_def bump_generation_def
      split: if_splits)

lemma allow_section_ok:
  assumes "allow_section name w = (r, w')" "world_ok vt bok w"
  shows "world_ok vt bok w'" "keeps vt (coord w) (coord w')"
proof -
  have c': "coord w' = snd (require_priority_session_allows (clk w) name (coord w))"
    using assms(1) by (auto simp: allow_section_def split: prod.splits)
  show "keeps vt (coord w) (coord w')"
    using allow_section_frame [OF assms(1)] by (intro keeps_frame) auto
  show "world_ok vt bok w'"
    using assms(2) ledger_ops_inv(6) [of vt bok "coord w" "clk w" name]
      allow_section_frame [OF assms(1)] c' by (simp add: world_ok_def)
qed

context backend_contract
begin

lemma await_observation_ok:
  assumes "await_observation dl prev w = Some w'" "world_ok vt bok w"
  shows "world_ok vt bok w' \<and> keeps vt (coord w) (coord w')"
  using assms
proof (induction rule: await_observation.raw_induct [rotated, consumes 1])
  case (1 f dl prev w w')
  show ?case
  proof (cases "\<exists>w1. pause w = Some w1 \<and> f dl prev w1 = Some w'")
    case True
    then obtain w1 where w1: "pause w = Some w1" "f dl prev w1 = Some w'" by blast
    from pause_ok [OF 1(3) w1(1)] 1(1) [OF w1(2)] show ?thesis by (auto intro: keeps_trans)
  next
    case False
    with 1(2,3) show ?thesis by (auto simp: Option.bind_eq_Some_conv split: if_splits)
  qed
qed

text \<open>Marking an idle model and waiting for the mutex: from then on nobody can use it.\<close>

lemma mark_ok:
  assumes ok: "world_ok vt bok w" and idle: "idle (coord w) n"
    and run: "pause (section_of (mark_resizing n) w) = Some w1"
  shows "world_ok vt bok w1 \<and> quiet vt (coord w1) n \<and>
     keeps vt (mark_resizing n (coord w)) (coord w1)"
proof -
  let ?m = "section_of (mark_resizing n) w"
  have okm: "world_ok vt bok ?m"
    using ok world_okD(1) [OF ok] by (intro world_ok_section) simp_all
  have "quiet vt (coord ?m) n"
    using idle_no_leases [OF world_okD(2) [OF ok] idle] by (simp add: quiet_def)
  with pause_ok [OF okm run] show ?thesis by (auto intro: quiet_keeps dest: world_okD(2))
qed

lemma veto_ok:
  assumes ok: "world_ok vt bok w" and idle: "idle (coord w) n"
    and run: "pause (section_of (mark_resizing n) w) = Some w1"
      "allow_section name w1 = (a, w2)" "veto_pass n r w2 = Some (s, w')"
  shows "world_ok vt bok w' \<and> room_rel vt (coord w) (coord w')"
proof -
  note m = mark_ok [OF ok idle run(1)]
  have ok2: "world_ok vt bok w2" and k2: "keeps vt (coord w1) (coord w2)"
    using allow_section_ok [OF run(2)] m by auto
  obtain w3 where w3: "pause w2 = Some w3" "w' = section_of (clear_resizing n) w3"
    using run(3) by (rule veto_pass_cases) blast
  from pause_ok [OF ok2 w3(1)] have ok3: "world_ok vt bok w3" and k3: "keeps vt (coord w2) (coord w3)"
    by auto
  have k: "keeps vt (mark_resizing n (coord w)) (coord w3)"
    using m k2 k3 by (blast intro: keeps_trans)
  have "world_ok vt bok w'" unfolding w3(2)
    using ok3 world_okD(1) [OF ok3] by (intro world_ok_section) simp_all
  moreover have "room_rel vt (coord w) (coord w')"
    using keeps_room [OF k] keeps_resizing [OF k] unfolding w3(2)
    by (auto simp: room_rel_def pinned_def)
  ultimately show ?thesis by blast
qed

text \<open>A backend call on a marked model, then the clearing of the mark.\<close>

lemma marked_call_ok:
  assumes ok: "world_ok vt bok w" and idle: "idle (coord w) n"
    and run: "pause (section_of (mark_resizing n) w) = Some w1"
      "call_instance n f ctl w1 = Some (r, w2)"
    and f: "\<And>cv b. bok b \<Longrightarrow> bok (snd (f cv b))"
    and keep: "\<And>cv b. \<exists>info. pinned vt (coord w) n info \<Longrightarrow> bok b \<Longrightarrow>
      bk_info vt (snd (f cv b)) = bk_info vt b \<and>
      bk_is_loaded vt (snd (f cv b)) = bk_is_loaded vt b"
  shows "world_ok vt bok w2 \<and> registry (coord w2) = registry (coord w) \<and>
     swap_in_progress (coord w2) = swap_in_progress (coord w) \<and>
     resizing_models (coord w2) = insert n (resizing_models (coord w)) \<and>
     (\<forall>m info. pinned vt (coord w) m info \<longrightarrow> pinned vt (coord w2) m info)"
proof -
  note m = mark_ok [OF ok idle run(1)]
  from call_instance_ok [OF _ _ f run(2)] m obtain b cv where
    b: "bok b" "f cv b = (r, the (backend_ptr (coord w2) n))" "backend_ptr (coord w2) n \<noteq> None"
      "rel_option (same_identity vt) (backend_ptr (coord w1) n) (Some b)"
    and rest: "world_ok vt bok w2" "others_kept vt {n} (coord w1) (coord w2)"
      "resizing_models (coord w2) = resizing_models (coord w1)" by blast
  have was: "pinned vt (coord w) n info" if "pinned vt (coord w1) n info" for info
    using that m keeps_ptr [of vt "mark_resizing n (coord w)" "coord w1" n]
    by (cases "backend_ptr (coord w) n"; cases "backend_ptr (coord w1) n")
      (auto simp: pinned_def same_identity_def)
  have "pinned vt (coord w2) n info" if "pinned vt (coord w1) n info" for info
  proof -
    have "bk_info vt (snd (f cv b)) = bk_info vt b" "bk_is_loaded vt (snd (f cv b)) = bk_is_loaded vt b"
      using keep [of b cv] was [OF that] b(1) by blast+
    with that b show ?thesis by (auto simp: pinned_def same_identity_def split: option.splits)
  qed
  with rest have "room_rel vt (coord w1) (coord w2)" by (intro others_room [of vt n]) auto
  moreover have "room_rel vt (mark_resizing n (coord w)) (coord w1)" using m by (simp add: keeps_room)
  ultimately show ?thesis using m rest
    by (auto simp: room_rel_def keeps_def pinned_def others_kept_def)
qed

lemma reclaim_one_ok:
  assumes ok: "world_ok vt bok w" and idle: "idle (coord w) n"
    and mark: "pause (section_of (mark_resizing n) w) = Some w1"
    and run: "reclaim_one vt name required ctl h prev n w1 = Some (rc, w')"
  shows "world_ok vt bok w' \<and> room_rel vt (coord w) (coord w')"
proof -
  obtain r0 w2 where w2: "call_instance n (bk_reclaim_idle_context vt required) ctl w1 = Some (r0, w2)"
    using run by (auto simp: reclaim_one_def Option.bind_eq_Some_conv)
  have f: "bok (snd (bk_reclaim_idle_context vt required cv b)) \<and>
      bk_info vt (snd (bk_reclaim_idle_context vt required cv b)) = bk_info vt b \<and>
      bk_is_loaded vt (snd (bk_reclaim_idle_context vt required cv b)) = bk_is_loaded vt b"
    if "bok b" for cv b
    using reclaim_outcome [OF that surjective_pairing] by blast
  have f1: "bok (snd (bk_reclaim_idle_context vt required cv b))" if "bok b" for cv b
    using f [OF that] by blast
  have f2: "bk_info vt (snd (bk_reclaim_idle_context vt required cv b)) = bk_info vt b \<and>
      bk_is_loaded vt (snd (bk_reclaim_idle_context vt required cv b)) = bk_is_loaded vt b"
    if "\<exists>info. pinned vt (coord w) n info" "bok b" for cv b
    using f [OF that(2)] by blast
  note m = marked_call_ok [OF ok idle mark w2 f1 f2]
  define v where "v = section_of (note_reclaimed n name) w2"
  have okv: "world_ok vt bok v" unfolding v_def
    using m world_okD(1) by (intro world_ok_section) auto
  have "\<exists>w3. world_ok vt bok w3 \<and> w' = section_of (clear_resizing n) w3 \<and>
      (keeps vt (coord w2) (coord w3) \<or> keeps vt (coord v) (coord w3))"
  proof (cases "reclaim_result r0 = Ok True \<and> h")
    case True
    then obtain w3 where "await_observation (min (lc_deadline ctl)
        (clk w2 + live_vram_observation_ttl)) prev v = Some w3"
      "w' = section_of (clear_resizing n) w3"
      using run w2 by (auto simp: reclaim_one_def Option.bind_eq_Some_conv Let_def v_def)
    with await_observation_ok [OF _ okv] show ?thesis by blast
  next
    case False
    then have "w' = section_of (clear_resizing n) v \<or> w' = section_of (clear_resizing n) w2"
      using run w2 by (auto simp: reclaim_one_def Let_def v_def split: if_splits)
    with okv m show ?thesis by auto
  qed
  then obtain w3 where w3: "world_ok vt bok w3" "w' = section_of (clear_resizing n) w3"
    "keeps vt (coord w2) (coord w3) \<or> keeps vt (coord v) (coord w3)" by blast
  have "room_rel vt (coord w2) (coord w3)"
    using w3(3) by (auto dest!: keeps_room simp: v_def room_rel_def pinned_def)
  then have "room_rel vt (coord w) (coord w')"
    using m unfolding w3(2) by (auto simp: room_rel_def pinned_def)
  moreover have "world_ok vt bok w'" unfolding w3(2)
    using w3(1) world_okD(1) [OF w3(1)] by (intro world_ok_section) simp_all
  ultimately show ?thesis by blast
qed

lemma after_reclaim_ok:
  assumes "world_ok vt bok w" "after_reclaim vt required rc w = Some (s, w')"
  shows "world_ok vt bok w' \<and> room_rel vt (coord w) (coord w') \<and>
     (s = Return (Ok ()) \<longrightarrow> fits vt required w')"
  using assms(2)
proof (cases rule: after_reclaim_cases)
  case 3
  with pause_ok [OF assms(1) 3(2)] show ?thesis by (auto intro: keeps_room)
qed (use assms(1) in auto)

lemma reclaim_from_ok:
  assumes ok: "world_ok vt bok w" and idle: "idle (coord w) n"
    and run: "reclaim_from vt name required ctl n w = Some (s, w')"
  shows "world_ok vt bok w' \<and> room_rel vt (coord w) (coord w') \<and>
     (s = Return (Ok ()) \<longrightarrow> fits vt required w')"
  using run
proof (cases rule: reclaim_from_cases)
  case (1 w1 e w2)
  from veto_ok [OF ok idle 1] 1(3) show ?thesis by (auto elim: veto_pass_cases)
next
  case (2 w1 rc w3)
  note r = reclaim_one_ok [OF ok idle 2(1,2)]
  with after_reclaim_ok [OF _ 2(3)] show ?thesis by (auto intro: room_rel_trans)
qed

lemma shrink_one_ok:
  assumes ok: "world_ok vt bok w" and idle: "idle (coord w) n"
    and cand: "\<And>info. \<not> pinned vt (coord w) n info"
    and run: "shrink_one vt name ctl n k w = Some (s, w')"
  shows "world_ok vt bok w' \<and> room_rel vt (coord w) (coord w') \<and> s \<noteq> Return (Ok ())"
  using run
proof (cases rule: shrink_one_cases)
  case (1 w1 e w2)
  from veto_ok [OF ok idle 1] 1(3) show ?thesis by (auto elim: veto_pass_cases)
next
  case (2 w1 r w3)
  have f: "bok (snd (bk_resize_slots vt k cv b))" if "bok b" for cv b
    using resize_outcome [OF that surjective_pairing] by blast
  have keep: "bk_info vt (snd (bk_resize_slots vt k cv b)) = bk_info vt b \<and>
      bk_is_loaded vt (snd (bk_resize_slots vt k cv b)) = bk_is_loaded vt b"
    if "\<exists>info. pinned vt (coord w) n info" for cv b
    using that cand by blast
  note m = marked_call_ok [OF ok idle 2(1,2) f keep]
  have "world_ok vt bok w'" unfolding 2(4)
    using m world_okD(1) by (intro world_ok_section) auto
  with m cand 2(3,4) show ?thesis by (auto simp: room_rel_def pinned_def)
qed

lemma evict_one_ok:
  assumes ok: "world_ok vt bok w" and cand: "\<And>info. \<not> pinned vt (coord w) n info"
    and run: "evict_one vt held name ctl n w = Some (s, w')"
  shows "world_ok vt bok w' \<and> room_rel vt (coord w) (coord w') \<and> s \<noteq> Return (Ok ())"
proof -
  have evicted: "world_ok vt bok w1 \<and> room_rel vt (coord w) (coord w1) \<and>
      (unload_with_control vt held n ctl w1 = Some (r, w2) \<longrightarrow>
        world_ok vt bok w2 \<and> room_rel vt (coord w) (coord w2))"
    if w1: "pause w = Some w1" for w1 r w2
  proof -
    from pause_ok [OF ok w1] have ok1: "world_ok vt bok w1" and k: "keeps vt (coord w) (coord w1)"
      by auto
    have "\<not> pinned vt (coord w1) n info" for info
      using cand keeps_ptr [OF k, of n]
      by (cases "backend_ptr (coord w) n"; cases "backend_ptr (coord w1) n")
        (auto simp: pinned_def same_identity_def)
    then have "room_rel vt (coord w1) (coord w2)" "world_ok vt bok w2"
      if "unload_with_control vt held n ctl w1 = Some (r, w2)"
      using unload_with_control_ok [OF ok1 that] by (auto intro: others_room [of vt n])
    with ok1 keeps_room [OF k] show ?thesis by (blast intro: room_rel_trans)
  qed
  from run show ?thesis
  proof (cases rule: evict_one_cases)
    case (1 w1 e)
    from evicted [OF 1(1)] have "world_ok vt bok w1" "room_rel vt (coord w) (coord w1)" by auto
    with allow_section_ok [OF 1(2) this(1)] room_keeps_trans 1(3) show ?thesis by blast
  next
    case (2 w1 r)
    with evicted [OF 2(1)] show ?thesis by auto
  next
    case (3 w1 r w3 w4)
    from evicted [OF 3(1)] 3(2) have ok3: "world_ok vt bok w3" "room_rel vt (coord w) (coord w3)"
      by auto
    from pause_ok [OF ok3(1) 3(4)] have ok4: "world_ok vt bok w4" "keeps vt (coord w3) (coord w4)"
      by auto
    have "world_ok vt bok w'" unfolding 3(6)
      using ok4(1) world_okD(1) [OF ok4(1)] by (intro world_ok_section) simp_all
    moreover have "room_rel vt (coord w4) (coord w')" unfolding 3(6)
      by (simp add: room_rel_def pinned_def)
    ultimately show ?thesis
      using room_keeps_trans [OF ok3(2) ok4(2)] 3(5) by (auto dest: room_rel_trans)
  qed
qed

text \<open>Each phase keeps the world well-formed, and returns success only when the model fits.\<close>

definition phase_good :: "int \<Rightarrow> 'b world \<Rightarrow> unit result option \<times> 'b world \<Rightarrow> bool" where
  "phase_good required w y =
     (world_ok vt bok (snd y) \<and> room_rel vt (coord w) (coord (snd y)) \<and>
      (fst y = Some (Ok ()) \<longrightarrow> fits vt required (snd y)))"

lemma phase_drive:
  assumes step: "world_ok vt bok w1" "room_rel vt (coord w) (coord w1)"
      "s = Return (Ok ()) \<longrightarrow> fits vt required w1"
    and run: "(case s of Return r \<Rightarrow> Some (Some r, w1) | Leave \<Rightarrow> Some (None, w1)
            | Again \<Rightarrow> Option.bind (pause w1) g) = Some y"
    and IH: "\<And>w2. g w2 = Some y \<Longrightarrow> world_ok vt bok w2 \<Longrightarrow> phase_good required w2 y"
  shows "phase_good required w y"
  using run
proof (cases rule: drive_cases)
  case (3 w2)
  from pause_ok [OF step(1) 3(2)] have "world_ok vt bok w2" "room_rel vt (coord w) (coord w2)"
    using room_keeps_trans [OF step(2)] by auto
  with IH [OF 3(3)] room_rel_trans [of vt "coord w" "coord w2"] show ?thesis
    by (auto simp: phase_good_def)
qed (use step in \<open>auto simp: phase_good_def\<close>)

lemma reclaim_phase_ok:
  assumes "reclaim_phase vt' name required ctl force attempts w = Some y" "vt' = vt"
    "world_ok vt bok w"
  shows "phase_good required w y"
  using assms
proof (induction rule: reclaim_phase.raw_induct [rotated, consumes 1])
  case (1 f vt' name required ctl force attempts w y)
  from 1(2) [unfolded 1(3)] consider "fst y \<noteq> Some (Ok ())" "snd y = w" | "fits vt required w" "snd y = w"
    | cand s w1 where "reclaim_candidate vt name attempts (coord w) = Some cand"
        "reclaim_from vt name required ctl cand w = Some (s, w1)"
        "(case s of Return r \<Rightarrow> Some (Some r, w1) | Leave \<Rightarrow> Some (None, w1)
          | Again \<Rightarrow> Option.bind (pause w1) (f vt name required ctl force (insert cand attempts))) = Some y"
    by (auto simp: Option.bind_eq_Some_conv split: if_splits option.splits)
  then show ?case
  proof cases
    case (3 cand s w1)
    have "idle (coord w) cand" using reclaim_candidate_Some(3) [OF 3(1) world_okD(3) [OF 1(4)]] .
    from reclaim_from_ok [OF 1(4) this 3(2)]
    show ?thesis by (intro phase_drive [OF _ _ _ 3(3) 1(1) [OF _ refl]]) auto
  qed (use 1(4) in \<open>simp_all add: phase_good_def\<close>)
qed

lemma shrink_phase_ok:
  assumes "shrink_phase vt' name required ctl w = Some y" "vt' = vt" "world_ok vt bok w"
  shows "phase_good required w y"
  using assms
proof (induction rule: shrink_phase.raw_induct [rotated, consumes 1])
  case (1 f vt' name required ctl w y)
  from 1(2) [unfolded 1(3)] consider "fst y \<noteq> Some (Ok ())" "snd y = w" | "fits vt required w" "snd y = w"
    | cand k s w1 where "shrink_candidate vt name (coord w) = Some (cand, k)"
        "shrink_one vt name ctl cand k w = Some (s, w1)"
        "(case s of Return r \<Rightarrow> Some (Some r, w1) | Leave \<Rightarrow> Some (None, w1)
          | Again \<Rightarrow> Option.bind (pause w1) (f vt name required ctl)) = Some y"
    by (auto simp: Option.bind_eq_Some_conv split: if_splits option.splits)
  then show ?case
  proof cases
    case (3 cand k s w1)
    have "idle (coord w) cand" "\<And>info. \<not> pinned vt (coord w) cand info"
      using shrink_candidate_Some [OF 3(1) world_okD(3) [OF 1(4)]] by (auto simp: pinned_def)
    from shrink_one_ok [OF 1(4) this 3(2)]
    show ?thesis by (intro phase_drive [OF _ _ _ 3(3) 1(1) [OF _ refl]]) auto
  qed (use 1(4) in \<open>simp_all add: phase_good_def\<close>)
qed

lemma evict_phase_ok:
  assumes "evict_phase vt' held name required ctl w = Some y" "vt' = vt" "world_ok vt bok w"
  shows "phase_good required w y"
  using assms
proof (induction rule: evict_phase.raw_induct [rotated, consumes 1])
  case (1 f vt' held name required ctl w y)
  let ?n = "evict_candidate vt name (coord w)"
  from 1(2) [unfolded 1(3)] consider "fst y \<noteq> Some (Ok ())" "snd y = w" | "fits vt required w" "snd y = w"
    | s w1 where "?n \<noteq> []" "evict_one vt held name ctl ?n w = Some (s, w1)"
        "(case s of Return r \<Rightarrow> Some (Some r, w1) | Leave \<Rightarrow> Some (None, w1)
          | Again \<Rightarrow> Option.bind (pause w1) (f vt held name required ctl)) = Some y"
    by (auto simp: Option.bind_eq_Some_conv split: if_splits option.splits)
  then show ?case
  proof cases
    case (3 s w1)
    have "\<not> pinned vt (coord w) ?n info" for info
      using evict_candidate_eligible [OF 3(1) world_okD(3) [OF 1(4)]] by (auto simp: pinned_def)
    from evict_one_ok [OF 1(4) this 3(2)]
    show ?thesis by (intro phase_drive [OF _ _ _ 3(3) 1(1) [OF _ refl]]) auto
  qed (use 1(4) in \<open>simp_all add: phase_good_def\<close>)
qed

lemma verdict_section_ok:
  assumes "world_ok vt bok w"
  shows "world_ok vt bok (snd (verdict_section vt name required w)) \<and>
     room_rel vt (coord w) (coord (snd (verdict_section vt name required w))) \<and>
     fst (verdict_section vt name required w) \<noteq> Ok ()"
  using assms world_okD(1) [OF assms]
  by (auto simp: verdict_section_def capacity_verdict_def Let_def world_ok_def room_rel_def pinned_def)

lemma make_room_ok:
  assumes ok: "world_ok vt bok w"
    and run: "make_room vt held name required ctl force w = Some (r, w')"
  shows "world_ok vt bok w' \<and> room_rel vt (coord w) (coord w') \<and> (r = Ok () \<longrightarrow> fits vt required w')"
proof -
  obtain r1 w1 where 1: "reclaim_phase vt name required ctl force {} w = Some (r1, w1)"
    using run by (auto simp: make_room_def Option.bind_eq_Some_conv)
  note g1 = reclaim_phase_ok [OF 1 refl ok, unfolded phase_good_def, simplified]
  show ?thesis
  proof (cases "r1 \<noteq> None \<or> force")
    case True
    with run 1 g1 show ?thesis by (auto simp: make_room_def split: option.splits)
  next
    case False
    then obtain r2 w2 where 2: "shrink_phase vt name required ctl w1 = Some (r2, w2)"
      using run 1 by (auto simp: make_room_def Option.bind_eq_Some_conv)
    note g2 = shrink_phase_ok [OF 2 refl conjunct1 [OF g1], unfolded phase_good_def, simplified]
    have rel2: "room_rel vt (coord w) (coord w2)" using g1 g2 by (blast intro: room_rel_trans)
    show ?thesis
    proof (cases r2)
      case (Some r')
      with run 1 2 g2 False rel2 show ?thesis by (auto simp: make_room_def)
    next
      case None
      then obtain r3 w3 where 3: "evict_phase vt held name required ctl w2 = Some (r3, w3)"
        using run 1 2 False by (auto simp: make_room_def Option.bind_eq_Some_conv)
      note g3 = evict_phase_ok [OF 3 refl conjunct1 [OF g2], unfolded phase_good_def, simplified]
      have rel3: "room_rel vt (coord w) (coord w3)" using g3 rel2 by (blast intro: room_rel_trans)
      show ?thesis
      proof (cases r3)
        case (Some r')
        with run 1 2 3 g3 None False rel3 show ?thesis by (auto simp: make_room_def)
      next
        case none3: None
        then obtain w4 where 4: "pause w3 = Some w4" "verdict_section vt name required w4 = (r, w')"
          using run 1 2 3 None False by (auto simp: make_room_def Option.bind_eq_Some_conv)
        from pause_ok [OF conjunct1 [OF g3] 4(1)] have
          ok4: "world_ok vt bok w4" "keeps vt (coord w3) (coord w4)" by auto
        from verdict_section_ok [OF ok4(1), of name required] 4(2)
          room_rel_trans [OF room_keeps_trans [OF rel3 ok4(2)]] show ?thesis by auto
      qed
    qed
  qed
qed

theorem prepare_capacity_for_ok:
  assumes ok: "world_ok vt bok w"
    and run: "prepare_capacity_for vt held name ctl force w = Some (r, w')"
  shows "world_ok vt bok w' \<and> room_rel vt (coord w) (coord w') \<and>
     (r = Ok () \<longrightarrow>
        resident vt (coord w') name \<or> (\<not> force \<and> vram_budget_mb (coord w') \<le> 0) \<or>
        (\<exists>info. get_info_result (registry (coord w')) name = Inr info \<and>
                fits vt (mi_vram_required_mb info) w'))"
proof (cases "cancelled_at ctl w \<or> expired_at ctl w")
  case True
  with run ok show ?thesis by (auto simp: prepare_capacity_for_def split: if_splits)
next
  case False
  obtain a w1 where a: "allow_section name w = (a, w1)" by fastforce
  note ok1 = allow_section_ok [OF a ok]
  show ?thesis
  proof (cases "\<exists>info. a = Ok () \<and> get_info_result (registry (coord w1)) name = Inr info")
    case no: False
    then have "w' = w1 \<and> r \<noteq> Ok ()"
      using run False a
      by (cases a; cases "get_info_result (registry (coord w1)) name")
        (auto simp: prepare_capacity_for_def)
    with ok1 keeps_room [OF ok1(2)] show ?thesis by simp
  next
    case True
    then obtain info where info: "a = Ok ()" "get_info_result (registry (coord w1)) name = Inr info"
      by blast
    let ?req = "mi_vram_required_mb info"
    obtain w2 where w2: "pause w1 = Some w2"
      using run False a info
      by (auto simp: prepare_capacity_for_def Let_def Option.bind_eq_Some_conv)
    from pause_ok [OF ok1(1) w2] have ok2: "world_ok vt bok w2" "keeps vt (coord w1) (coord w2)"
      by auto
    have rel2: "room_rel vt (coord w) (coord w2)"
      using room_keeps_trans [OF keeps_room [OF ok1(2)] ok2(2)] .
    have reg2: "get_info_result (registry (coord w2)) name = Inr info"
      using info(2) ok2(2) by (simp add: keeps_def)
    show ?thesis
    proof (cases "resident vt (coord w2) name \<or> \<not> force \<and> (vram_budget_mb (coord w2) \<le> 0 \<or> fits vt ?req w2)")
      case yes: True
      then obtain d where d: "w' = section_of (note_decision d) w2" "r = Ok ()"
        using run False a info w2 by (auto simp: prepare_capacity_for_def Let_def split: if_splits)
      have "world_ok vt bok w'" unfolding d(1)
        using ok2(1) world_okD(1) [OF ok2(1)] by (intro world_ok_section) simp_all
      moreover have "room_rel vt (coord w) (coord w')"
        using rel2 by (simp add: d room_rel_def pinned_def)
      moreover have "fits vt ?req w' = fits vt ?req w2"
        "vram_budget_mb (coord w') = vram_budget_mb (coord w2)"
        "resident vt (coord w') name = resident vt (coord w2) name"
        by (simp_all add: d fits_note_decision resident_def) (simp add: note_decision_def)
      ultimately show ?thesis using yes reg2 by (auto simp: d)
    next
      case no: False
      then obtain w3 where w3: "pause w2 = Some w3"
        "make_room vt held name ?req ctl force w3 = Some (r, w')"
        using run False a info w2
        by (auto simp: prepare_capacity_for_def Let_def Option.bind_eq_Some_conv split: if_splits)
      from pause_ok [OF ok2(1) w3(1)] have ok3: "world_ok vt bok w3" "keeps vt (coord w2) (coord w3)"
        by auto
      note g = make_room_ok [OF ok3(1) w3(2)]
      have "registry (coord w') = registry (coord w2)"
        using g ok3(2) by (simp add: room_rel_def keeps_def)
      with g reg2 room_rel_trans [OF room_keeps_trans [OF rel2 ok3(2)]] show ?thesis by auto
    qed
  qed
qed

text \<open>Swapping.\<close>

lemma swap_without_budget_ok:
  assumes ok: "world_ok vt bok w"
    and run: "swap_without_budget vt held name ctl w = Some (r, w')"
  shows "world_ok vt bok w' \<and> swap_in_progress (coord w') = swap_in_progress (coord w) \<and>
     (is_ok r \<longrightarrow> resident vt (coord w') name)"
proof (cases "current_loaded (coord w)")
  case None
  with run obtain w1 where w1: "pause w = Some w1"
    "load_with_lock_deadline vt held name ctl w1 = Some (r, w')"
    by (auto simp: swap_without_budget_def Option.bind_eq_Some_conv)
  from pause_ok [OF ok w1(1)] load_with_lock_deadline_ok [OF _ w1(2)] show ?thesis
    by (auto simp: keeps_def others_kept_def)
next
  case (Some current)
  with run obtain w1 rd w2 where w1: "pause w = Some w1"
    and w2: "unload_with_control vt held current ctl w1 = Some (rd, w2)"
    by (auto simp: swap_without_budget_def Option.bind_eq_Some_conv)
  note p1 = pause_ok [OF ok w1]
  note u = unload_with_control_ok [OF conjunct1 [OF p1] w2]
  show ?thesis
  proof (cases "is_ok rd")
    case False
    with run Some w1 w2 have "r = rd" "w' = w2" by (auto simp: swap_without_budget_def)
    with u p1 False show ?thesis by (simp add: keeps_def others_kept_def)
  next
    case True
    with run Some w1 w2 obtain w3 rl w4 where w3: "pause w2 = Some w3"
      and w4: "load_with_lock_deadline vt held name ctl w3 = Some (rl, w4)"
      by (auto simp: swap_without_budget_def Option.bind_eq_Some_conv)
    note p3 = pause_ok [OF conjunct1 [OF u] w3]
    note l = load_with_lock_deadline_ok [OF conjunct1 [OF p3] w4]
    have flag: "swap_in_progress (coord w4) = swap_in_progress (coord w)"
      using p1 u p3 l by (simp add: keeps_def others_kept_def)
    show ?thesis
    proof (cases "is_ok rl")
      case lok: True
      with run Some w1 w2 True w3 w4 have "r = rl" "w' = w4"
        by (auto simp: swap_without_budget_def)
      with l flag show ?thesis by simp
    next
      case lbad: False
      with run Some w1 w2 True w3 w4 obtain rr w5 where
        w5: "load_with_lock_deadline vt held current (recovery_control w4) w4 = Some (rr, w5)"
        by (auto simp: swap_without_budget_def Option.bind_eq_Some_conv)
      note q = load_with_lock_deadline_ok [OF conjunct1 [OF l] w5]
      have flag5: "swap_in_progress (coord w5) = swap_in_progress (coord w)"
        using flag q by (simp add: others_kept_def)
      have "\<not> is_ok r \<and> (w' = w5 \<or> (\<exists>w6. pause w5 = Some w6 \<and>
          w' = section_of (note_restored name current) w6))"
        using run Some w1 w2 True w3 w4 lbad w5
        by (auto simp: swap_without_budget_def Option.bind_eq_Some_conv split: if_splits)
      moreover have "world_ok vt bok (section_of (note_restored name current) w6) \<and>
          swap_in_progress (coord w6) = swap_in_progress (coord w5)" if "pause w5 = Some w6" for w6
        using pause_ok [OF conjunct1 [OF q] that] world_okD(1)
        by (auto intro!: world_ok_section simp: keeps_def)
      ultimately show ?thesis using q flag5 by auto
    qed
  qed
qed

lemma restore_residency_ok:
  assumes "restore_residency vt held ctl ps w = Some w'" "world_ok vt bok w"
  shows "world_ok vt bok w' \<and> swap_in_progress (coord w') = swap_in_progress (coord w)"
  using assms
proof (induction ps arbitrary: w)
  case (Cons p ps)
  obtain prior slots where p: "p = (prior, slots)" by fastforce
  obtain w1 where w1: "pause w = Some w1" using Cons.prems p by (auto simp: Option.bind_eq_Some_conv)
  note p1 = pause_ok [OF Cons.prems(2) w1]
  have load: "world_ok vt bok w3 \<and> swap_in_progress (coord w3) = swap_in_progress (coord w2)"
    if "load_with_lock_deadline vt held prior ctl w2 = Some (x, w3)" "world_ok vt bok w2" for w2 x w3
    using load_with_lock_deadline_ok [OF that(2,1)] by (simp add: others_kept_def)
  have unl: "world_ok vt bok w2 \<and> swap_in_progress (coord w2) = swap_in_progress (coord w1)"
    if "unload_with_control vt held prior ctl w1 = Some (x, w2)" for x w2
    using unload_with_control_ok [OF conjunct1 [OF p1] that] by (simp add: others_kept_def)
  obtain w3 where w3: "restore_residency vt held ctl ps w3 = Some w'"
    "world_ok vt bok w3" "swap_in_progress (coord w3) = swap_in_progress (coord w1)"
  proof (cases "resident vt (coord w1) prior")
    case False
    then obtain x w3 where "load_with_lock_deadline vt held prior ctl w1 = Some (x, w3)"
      "restore_residency vt held ctl ps w3 = Some w'"
      using Cons.prems p w1
      by (auto simp: Option.bind_eq_Some_conv resident_def split: option.splits if_splits)
    with load [of w1 x w3] p1 that show thesis by auto
  next
    case True
    then obtain b where b: "backend_ptr (coord w1) prior = Some b" "bk_is_loaded vt b"
      by (auto simp: resident_def split: option.splits)
    show thesis
    proof (cases "bk_n_slots vt b = slots")
      case True
      with Cons.prems p w1 b that p1 show thesis by (auto split: if_splits)
    next
      case False
      then obtain x w2 y w3 where "unload_with_control vt held prior ctl w1 = Some (x, w2)"
        "load_with_lock_deadline vt held prior ctl w2 = Some (y, w3)"
        "restore_residency vt held ctl ps w3 = Some w'"
        using Cons.prems p w1 b by (auto simp: Option.bind_eq_Some_conv)
      with unl load that show thesis by metis
    qed
  qed
  from Cons.IH [OF w3(1,2)] w3(3) p1 show ?case by (simp add: keeps_def)
qed simp

lemma recover_swap_ok:
  assumes ok: "world_ok vt bok w" and run: "recover_swap vt held name before prev w = Some w'"
  shows "world_ok vt bok w' \<and> swap_in_progress (coord w') = swap_in_progress (coord w)"
proof -
  obtain x w1 w2 w3 where
    w1: "unload_with_control vt held name (recovery_control w) w = Some (x, w1)"
    and w2: "restore_residency vt held (recovery_control w) before w1 = Some w2"
    and w3: "pause w2 = Some w3"
    using run by (auto simp: recover_swap_def Let_def Option.bind_eq_Some_conv)
  note u = unload_with_control_ok [OF ok w1]
  note q = restore_residency_ok [OF w2 conjunct1 [OF u]]
  note p = pause_ok [OF conjunct1 [OF q] w3]
  have flag: "swap_in_progress (coord w3) = swap_in_progress (coord w)"
    using u q p by (simp add: others_kept_def keeps_def)
  have "w' = w3 \<or> (\<exists>n w4. pause w3 = Some w4 \<and> w' = section_of (note_restored name n) w4)"
    using run w1 w2 w3
    by (auto simp: recover_swap_def Let_def Option.bind_eq_Some_conv split: option.splits if_splits)
  moreover have "world_ok vt bok (section_of (note_restored name n) w4) \<and>
      swap_in_progress (coord w4) = swap_in_progress (coord w3)" if "pause w3 = Some w4" for n w4
    using pause_ok [OF conjunct1 [OF p] that] world_okD(1)
    by (auto intro!: world_ok_section simp: keeps_def)
  ultimately show ?thesis using p flag by auto
qed

lemma retry_ok:
  assumes ok: "world_ok vt bok w" and bad: "\<not> is_ok loaded"
    and run: "retry_out_of_memory vt held name ctl loaded w = Some ((final, r), w')"
  shows "world_ok vt bok w' \<and> swap_in_progress (coord w') = swap_in_progress (coord w) \<and>
     (is_ok r \<longrightarrow> final \<and> resident vt (coord w') name)"
proof (cases "result_code loaded = OutOfMemory \<and> \<not> cancelled_at ctl w \<and> \<not> expired_at ctl w")
  case False
  with run ok bad show ?thesis by (auto simp: retry_out_of_memory_def)
next
  case True
  with run obtain x w1 rc w2 where
    w1: "unload_with_control vt held name ctl w = Some (x, w1)"
    and w2: "prepare_capacity_for vt held name ctl True w1 = Some (rc, w2)"
    by (auto simp: retry_out_of_memory_def Option.bind_eq_Some_conv)
  note u = unload_with_control_ok [OF ok w1]
  note q = prepare_capacity_for_ok [OF conjunct1 [OF u] w2]
  have flag: "swap_in_progress (coord w2) = swap_in_progress (coord w)"
    using u q by (simp add: others_kept_def room_rel_def)
  show ?thesis
  proof (cases rc)
    case (Inl e)
    with run True w1 w2 q flag bad show ?thesis
      by (auto simp: retry_out_of_memory_def split: if_splits)
  next
    case (Inr v)
    with run True w1 w2 have "load_with_lock_deadline vt held name ctl w2 = Some (r, w')"
      "final = is_ok r"
      by (auto simp: retry_out_of_memory_def Option.bind_eq_Some_conv)
    with load_with_lock_deadline_ok [OF conjunct1 [OF q]] flag show ?thesis
      by (auto simp: others_kept_def)
  qed
qed

lemma swap_with_budget_ok:
  assumes ok: "world_ok vt bok w"
    and run: "swap_with_budget vt held name ctl w = Some (r, w')"
  shows "world_ok vt bok w' \<and> swap_in_progress (coord w') = swap_in_progress (coord w) \<and>
     (is_ok r \<longrightarrow> resident vt (coord w') name)"
proof -
  define before where "before = map (\<lambda>r. (ri_name r, ri_slots r)) (residency vt (coord w))"
  obtain w1 rc w2 where w1: "pause w = Some w1"
    and w2: "prepare_capacity_for vt held name ctl False w1 = Some (rc, w2)"
    using run by (auto simp: swap_with_budget_def Let_def Option.bind_eq_Some_conv)
  note p1 = pause_ok [OF ok w1]
  note q = prepare_capacity_for_ok [OF conjunct1 [OF p1] w2]
  have flag2: "swap_in_progress (coord w2) = swap_in_progress (coord w)"
    using p1 q by (simp add: keeps_def room_rel_def)
  show ?thesis
  proof (cases "is_ok rc")
    case False
    with run w1 w2 have "r = rc" "w' = w2" by (auto simp: swap_with_budget_def Let_def)
    with q flag2 False show ?thesis by simp
  next
    case True
    with run w1 w2 obtain w3 where w3: "pause w2 = Some w3"
      by (auto simp: swap_with_budget_def Let_def Option.bind_eq_Some_conv)
    note p3 = pause_ok [OF conjunct1 [OF q] w3]
    obtain a w4 where a: "allow_section name w3 = (a, w4)" by fastforce
    note ok4 = allow_section_ok [OF a conjunct1 [OF p3]]
    have flag4: "swap_in_progress (coord w4) = swap_in_progress (coord w)"
      using p3 ok4(2) flag2 by (simp add: keeps_def)
    show ?thesis
    proof (cases "is_ok a")
      case bad: False
      with run w1 w2 True w3 a have "r = a" "w' = w4" by (auto simp: swap_with_budget_def Let_def)
      with ok4 flag4 bad show ?thesis by simp
    next
      case aok: True
      with run w1 w2 True w3 a obtain rl w5 where
        w5: "load_with_lock_deadline vt held name ctl w4 = Some (rl, w5)"
        by (auto simp: swap_with_budget_def Let_def Option.bind_eq_Some_conv)
      note l = load_with_lock_deadline_ok [OF ok4(1) w5]
      have flag5: "swap_in_progress (coord w5) = swap_in_progress (coord w)"
        using l flag4 by (simp add: others_kept_def)
      show ?thesis
      proof (cases "is_ok rl")
        case lok: True
        with run w1 w2 True w3 a aok w5 have "r = rl" "w' = w5"
          by (auto simp: swap_with_budget_def Let_def)
        with l flag5 show ?thesis by simp
      next
        case lbad: False
        with run w1 w2 True w3 a aok w5 obtain fin w6 where
          w6: "retry_out_of_memory vt held name ctl rl w5 = Some ((fin, r), w6)"
          and rest: "if fin then w' = w6
            else recover_swap vt held name before (current_loaded (coord w)) w6 = Some w'"
          by (auto simp: swap_with_budget_def Let_def Option.bind_eq_Some_conv before_def
              split: if_splits)
        note t = retry_ok [OF conjunct1 [OF l] lbad w6]
        from rest t recover_swap_ok [OF conjunct1 [OF t]] flag5 show ?thesis
          by (cases fin) auto
      qed
    qed
  qed
qed

lemma ready_resident: "is_ready vt c n \<Longrightarrow> resident vt c n"
  by (auto simp: is_ready_def resident_def split: option.splits)

lemma swap_locked_ok:
  assumes ok: "world_ok vt bok w" and run: "swap_locked vt held name info ctl w = Some (r, w')"
  shows "world_ok vt bok w' \<and> swap_in_progress (coord w') = swap_in_progress (coord w) \<and>
     (is_ok r \<longrightarrow> resident vt (coord w') name)"
proof (cases "is_ready vt (coord w) name")
  case True
  with run ok ready_resident show ?thesis by (auto simp: swap_locked_def)
next
  case False
  with run obtain w1 where w1: "pause w = Some w1"
    by (auto simp: swap_locked_def Option.bind_eq_Some_conv)
  note p1 = pause_ok [OF ok w1]
  obtain a w2 where a: "allow_section name w1 = (a, w2)" by fastforce
  note ok2 = allow_section_ok [OF a conjunct1 [OF p1]]
  show ?thesis
  proof (cases "is_ok a")
    case bad: False
    with run False w1 a have "r = a" "w' = w2" by (auto simp: swap_locked_def)
    with ok2 p1 bad show ?thesis by (simp add: keeps_def)
  next
    case aok: True
    with run False w1 a obtain w3 where w3: "pause w2 = Some w3"
      by (auto simp: swap_locked_def Option.bind_eq_Some_conv)
    note p3 = pause_ok [OF ok2(1) w3]
    have flag: "swap_in_progress (coord w3) = swap_in_progress (coord w)"
      using p1 ok2(2) p3 by (simp add: keeps_def)
    from run False w1 a aok w3 consider
      "load_with_lock_deadline vt held name ctl w3 = Some (r, w')"
      | "\<not> is_ok r" "w' = w3"
      | "swap_without_budget vt held name ctl w3 = Some (r, w')"
      | "swap_with_budget vt held name ctl w3 = Some (r, w')"
      by (auto simp: swap_locked_def split: if_splits)
    then show ?thesis
      using flag p3 load_with_lock_deadline_ok [OF conjunct1 [OF p3]]
        swap_without_budget_ok [OF conjunct1 [OF p3]] swap_with_budget_ok [OF conjunct1 [OF p3]]
      by cases (auto simp: others_kept_def)
  qed
qed

theorem swap_to_with_control_ok:
  assumes ok: "world_ok vt bok w"
    and run: "swap_to_with_control vt held name ctl w = Some (r, w')"
  shows "world_ok vt bok w' \<and> swap_in_progress (coord w') = swap_in_progress (coord w) \<and>
     (is_ok r \<longrightarrow> resident vt (coord w') name)"
proof (cases "is_ready vt (coord w) name")
  case True
  with run ok ready_resident show ?thesis by (auto simp: swap_to_with_control_def)
next
  case False
  show ?thesis
  proof (cases "get_info_result (registry (coord w)) name")
    case (Inl e)
    with run False ok show ?thesis by (auto simp: swap_to_with_control_def)
  next
    case (Inr info)
    show ?thesis
    proof (cases "is_independent_sidecar info")
      case True
      with run False Inr load_with_lock_deadline_ok [OF ok] show ?thesis
        by (auto simp: swap_to_with_control_def others_kept_def)
    next
      case main: False
      with run False Inr obtain rl w1 where w1: "wait_lifecycle_lock held SwapMutex ctl
          (''model swap cancelled: '' @ name)
          (''timeout waiting to start model swap: '' @ name) w = Some (rl, w1)"
        and rest: "if is_ok rl then swap_locked vt (insert SwapMutex held) name info ctl w1 = Some (r, w')
          else r = rl \<and> w' = w1"
        by (auto simp: swap_to_with_control_def Option.bind_eq_Some_conv split: if_splits)
      from wait_lifecycle_lock_ok [OF w1 ok] have
        l: "world_ok vt bok w1" "keeps vt (coord w) (coord w1)" by auto
      with rest swap_locked_ok [OF l(1)] show ?thesis
        by (cases "is_ok rl") (auto simp: keeps_def)
    qed
  qed
qed

theorem swap_to_cancellable_ok:
  assumes ok: "world_ok vt bok w"
    and run: "swap_to_cancellable vt name timeout cancelled w = Some (r, w')"
  shows "world_ok vt bok w' \<and> (is_ok r \<longrightarrow> resident vt (coord w') name)"
proof -
  let ?ctl = "swap_control timeout cancelled w"
  let ?p = "section_of (set_swap_in_progress True) w"
  have good: "world_ok vt bok (section_of reset_swap_cancel v) \<and>
      world_ok vt bok (section_of (reset_swap_cancel \<circ> set_swap_in_progress False) v) \<and>
      world_ok vt bok (section_of (set_swap_in_progress True) v)"
    if "world_ok vt bok v" for v
    using world_okD(1) [OF that] that ledger_ops_inv(5)
    by (auto intro!: world_ok_section simp: set_swap_in_progress_def reset_swap_cancel_def
        coordinator_inv_cong [of "c\<lparr>swap_cancel := False\<rparr>" c for c])
  have res: "resident vt (reset_swap_cancel c) name = resident vt c name"
    "resident vt (set_swap_in_progress b c) name = resident vt c name" for c b
    by (simp_all add: resident_def backend_ptr_def reset_swap_cancel_def set_swap_in_progress_def)
  show ?thesis
  proof (cases "get_info_result (registry (coord w)) name")
    case (Inl e)
    with run ok show ?thesis by (auto simp: swap_to_cancellable_def)
  next
    case (Inr info)
    from run Inr consider
      "\<not> is_ok r" "w' = section_of reset_swap_cancel w"
      | w1 where "load_with_lock_deadline vt {} name ?ctl w = Some (r, w1)"
          "w' = section_of reset_swap_cancel w1"
      | "is_ready vt (coord w) name" "w' = w"
      | w1 where "pause ?p = Some w1" "\<not> is_ok r"
          "w' = section_of (reset_swap_cancel \<circ> set_swap_in_progress False) w1"
      | w1 w2 where "pause ?p = Some w1" "swap_to_with_control vt {} name ?ctl w1 = Some (r, w2)"
          "w' = section_of (reset_swap_cancel \<circ> set_swap_in_progress False) w2"
      by (auto simp: swap_to_cancellable_def Let_def Option.bind_eq_Some_conv split: if_splits)
    then show ?thesis
    proof cases
      case 1
      with good [OF ok] show ?thesis by simp
    next
      case (2 w1)
      with load_with_lock_deadline_ok [OF ok 2(1)] good [of w1] show ?thesis by (simp add: res)
    next
      case 3
      with ok ready_resident show ?thesis by simp
    next
      case (4 w1)
      from pause_ok [OF _ 4(1)] good [OF ok] good [of w1] 4 show ?thesis by simp
    next
      case (5 w1 w2)
      from pause_ok [OF _ 5(1)] good [OF ok] have ok1: "world_ok vt bok w1" by blast
      from swap_to_with_control_ok [OF ok1 5(2)] good [of w2] 5(3) show ?thesis by (simp add: res)
    qed
  qed
qed

theorem swap_flag_down:
  assumes ok: "world_ok vt bok w" and down: "\<not> swap_in_progress (coord w)"
    and run: "swap_to_cancellable vt name timeout cancelled w = Some (r, w')"
  shows "\<not> swap_in_progress (coord w')"
proof -
  have kept: "\<not> swap_in_progress (coord w1)"
    if "load_with_lock_deadline vt held name ctl w = Some (r1, w1)" for held ctl r1 w1
    using load_with_lock_deadline_ok [OF ok that] down by (simp add: others_kept_def)
  show ?thesis
    using run kept down
    by (auto simp: swap_to_cancellable_def Let_def reset_swap_cancel_def set_swap_in_progress_def
        Option.bind_eq_Some_conv split: sum.splits if_splits)
qed

end

end
