(* ===== verification/Coordinator_Scheduling.thy ===== *)
theory Coordinator_Scheduling
  imports Coordinator_Invariant "HOL-Library.Multiset"
begin

text \<open>
  What the queue of the coordinator promises: the selection loop returns the maximum of a total
  order on the waiters (score, then ticket), at most one waiter is next, aging bounds how long a
  priority can overtake, an actionable waiter is served when nothing bars it, an admission pool
  never exceeds its limit, and the listing of the queue is the queue in serving order.
\<close>

section \<open>The selection loop\<close>

definition beats :: "time_point \<Rightarrow> slot_waiter \<Rightarrow> slot_waiter \<Rightarrow> bool" where
  "beats now s w = (score_for now w < score_for now s \<or>
                    (score_for now w = score_for now s \<and> w_id s \<le> w_id w))"

lemma beats_trans: "beats now a b \<Longrightarrow> beats now b d \<Longrightarrow> beats now a d"
  by (auto simp: beats_def)

lemma beats_refl [simp]: "beats now a a"
  by (simp add: beats_def)

lemma better_Some: "better now w (Some s) \<longleftrightarrow> \<not> beats now s w"
  by (auto simp: better_def beats_def)

lemma not_beats_swap: "\<not> beats now s w \<Longrightarrow> beats now w s"
  by (auto simp: beats_def)

lemma select_fold:
  "\<exists>s. fold (\<lambda>w sel. if better now w sel then Some w else sel) ws (Some a) = Some s \<and>
       s \<in> insert a (set ws) \<and> beats now s a \<and> (\<forall>w \<in> set ws. beats now s w)"
proof (induction ws arbitrary: a)
  case Nil
  show ?case by simp
next
  case (Cons v ws)
  let ?a = "if beats now a v then a else v"
  have swap: "beats now ?a a" "beats now ?a v" using not_beats_swap [of now a v] by auto
  obtain s where s:
    "fold (\<lambda>w sel. if better now w sel then Some w else sel) ws (Some ?a) = Some s"
    "s \<in> insert ?a (set ws)" "beats now s ?a" "\<forall>w \<in> set ws. beats now s w"
    using Cons.IH [of ?a] by blast
  have "fold (\<lambda>w sel. if better now w sel then Some w else sel) (v # ws) (Some a) = Some s"
    using s(1) by (cases "beats now a v") (simp_all add: better_Some)
  with s swap show ?case by (auto intro: beats_trans split: if_splits)
qed

lemma select_best_None [simp]: "select_best now ws = None \<longleftrightarrow> ws = []"
proof (cases ws)
  case (Cons a ws')
  then show ?thesis using select_fold [of now ws' a] by (auto simp: select_best_def better_def)
qed (simp add: select_best_def)

lemma select_best_Some:
  assumes "select_best now ws = Some s"
  shows "s \<in> set ws \<and> (\<forall>w \<in> set ws. beats now s w)"
proof (cases ws)
  case Nil
  with assms show ?thesis by (simp add: select_best_def)
next
  case (Cons a ws')
  then show ?thesis using assms select_fold [of now ws' a]
    by (auto simp: select_best_def better_def)
qed

text \<open>With distinct tickets the order of the list does not matter.\<close>

lemma select_best_perm:
  assumes "set ws = set vs" "distinct (map w_id ws)"
  shows "select_best now ws = select_best now vs"
proof (cases "select_best now ws")
  case None
  with assms(1) have "vs = []" by simp
  with None show ?thesis by simp
next
  case (Some s)
  with assms(1) have "vs \<noteq> []" by (auto simp: select_best_def)
  then obtain t where t: "select_best now vs = Some t" by (cases "select_best now vs") auto
  have "beats now s t" "beats now t s" "s \<in> set ws" "t \<in> set ws"
    using select_best_Some [OF Some] select_best_Some [OF t] assms(1) by auto
  then have "w_id s = w_id t" by (auto simp: beats_def)
  with \<open>s \<in> set ws\<close> \<open>t \<in> set ws\<close> assms(2) have "s = t" by (auto simp: distinct_map inj_on_def)
  with Some t show ?thesis by simp
qed

lemma oldest_fold:
  "\<exists>s. fold (\<lambda>w sel. case sel of None \<Rightarrow> Some w
               | Some s \<Rightarrow> if w_id w < w_id s then Some w else sel) ws (Some a) = Some s \<and>
       s \<in> insert a (set ws) \<and> (\<forall>w \<in> insert a (set ws). w_id s \<le> w_id w)"
proof (induction ws arbitrary: a)
  case (Cons v ws)
  from Cons.IH [of "if w_id v < w_id a then v else a"] show ?case by (fastforce split: if_splits)
qed simp

lemma oldest_ticket_Some:
  assumes "oldest_ticket ws = Some s"
  shows "s \<in> set ws \<and> (\<forall>w \<in> set ws. w_id s \<le> w_id w)"
proof (cases ws)
  case Nil
  with assms show ?thesis by (simp add: oldest_ticket_def)
next
  case (Cons a ws')
  then show ?thesis using assms oldest_fold [of ws' a] by (auto simp: oldest_ticket_def)
qed

lemma oldest_ticket_None [simp]: "oldest_ticket ws = None \<longleftrightarrow> ws = []"
proof (cases ws)
  case (Cons a ws')
  then show ?thesis using oldest_fold [of ws' a] by (auto simp: oldest_ticket_def)
qed (simp add: oldest_ticket_def)

section \<open>Who is next\<close>

lemma oldest_ticket_perm:
  assumes "set ws = set vs" "distinct (map w_id ws)"
  shows "oldest_ticket ws = oldest_ticket vs"
proof (cases "oldest_ticket ws")
  case None
  with assms show ?thesis by simp
next
  case (Some s)
  with assms oldest_ticket_Some [OF Some] have "vs \<noteq> []" by auto
  then obtain t where t: "oldest_ticket vs = Some t" by (cases "oldest_ticket vs") auto
  have "w_id s = w_id t"
    using oldest_ticket_Some [OF Some] oldest_ticket_Some [OF t] assms(1) by (simp add: order_antisym)
  with oldest_ticket_Some [OF Some] oldest_ticket_Some [OF t] assms have "s = t"
    by (auto simp: distinct_map dest: inj_onD)
  with Some t show ?thesis by simp
qed

lemma selected_waiter_Some:
  assumes "selected_waiter_locked vt now c = Some s"
  shows "s \<in> set (waiters c)" "waiter_is_candidate_locked vt now c s"
    "waiter_is_actionable_locked vt now c s"
    "\<And>w. w \<in> set (waiters c) \<Longrightarrow> waiter_is_candidate_locked vt now c w \<Longrightarrow> beats now s w"
  using select_best_Some [OF assms [unfolded selected_waiter_locked_def]]
  by (auto simp: waiter_is_candidate_locked_def Let_def)

lemma next_waiter_actionable:
  assumes "next_waiter_locked vt now c = Some w"
  shows "w \<in> set (waiters c) \<and> waiter_is_actionable_locked vt now c w"
proof -
  obtain sel where sel: "selected_waiter_locked vt now c = Some sel"
    using assms by (auto simp: next_waiter_locked_def split: option.splits)
  note s = selected_waiter_Some(1,3) [OF sel]
  let ?ws = "\<lambda>key. filter (\<lambda>w. w_model w = w_model sel \<and> w_reservation_key w = key \<and>
                 waiter_is_actionable_locked vt now c w) (waiters c)"
  have "w = sel \<or> (\<exists>key. oldest_ticket (?ws key) = Some w)"
  proof (cases "lookup (continuation_holds c) (w_model sel)")
    case None
    with assms sel show ?thesis by (simp add: next_waiter_locked_def)
  next
    case (Some hold)
    with assms sel show ?thesis
      unfolding next_waiter_locked_def by (simp split: if_split_asm) blast+
  qed
  then show ?thesis
  proof
    assume "\<exists>key. oldest_ticket (?ws key) = Some w"
    then obtain key where "oldest_ticket (?ws key) = Some w" ..
    from oldest_ticket_Some [OF this] show ?thesis by simp
  qed (use s in simp)
qed

lemma waiter_is_next_Some:
  assumes "waiter_is_next_locked vt now c wid"
  shows "\<exists>w. next_waiter_locked vt now c = Some w \<and> w_id w = wid"
  using assms by (auto simp: waiter_is_next_locked_def split: option.splits)

lemma find_waiter_distinct:
  assumes "queue_inv c" "w \<in> set (waiters c)"
  shows "find_waiter c (w_id w) = Some w"
proof -
  obtain v where v: "find (\<lambda>v. w_id v = w_id w) (waiters c) = Some v"
    using assms(2)
    by (cases "find (\<lambda>v. w_id v = w_id w) (waiters c)") (auto simp: find_None_iff)
  then have "v \<in> set (waiters c)" "w_id v = w_id w" using find_Some_iff [of "\<lambda>v. w_id v = w_id w" "waiters c" v] by auto
  with assms have "v = w" by (simp add: queue_inv_def distinct_map inj_on_def)
  with v show ?thesis by (simp add: find_waiter_def)
qed

text \<open>
  A waiter with the best claim among the candidates cannot be passed over for a later arrival
  once it is more than the priority range (200 points, one point per second) older.
\<close>

lemma count_seconds_mono: "0 \<le> a \<Longrightarrow> a \<le> b \<Longrightarrow> count_seconds a \<le> count_seconds b"
  by (simp add: count_seconds_nonneg zdiv_mono1)

lemma score_aging:
  assumes "queue_inv c" "w \<in> set (waiters c)" "v \<in> set (waiters c)"
    and "w_enqueued w + 201 * 1000000000 \<le> w_enqueued v" "w_enqueued v \<le> now"
  shows "score_for now v < score_for now w"
proof -
  have p: "w_priority v \<le> 100" "- 100 \<le> w_priority w" using assms(1-3) by (auto simp: queue_inv_def)
  let ?a = "now - w_enqueued v" and ?b = "now - w_enqueued w"
  have "?a + 201 * 1000000000 \<le> ?b" "0 \<le> ?a" using assms(4,5) by auto
  then have "count_seconds ?a + 201 \<le> count_seconds ?b"
    using zdiv_mono1 [of "?a + 201 * 1000000000" ?b 1000000000]
    by (simp add: count_seconds_nonneg)
  with p show ?thesis by (simp add: score_for_def)
qed

section \<open>Admission pools\<close>

lemma sum_list_update_one:
  fixes g :: "'k \<Rightarrow> int \<Rightarrow> int"
  assumes "keys_distinct m"
  shows "(\<Sum>(n, k) \<leftarrow> AList.update a v m. g n k) =
     (\<Sum>(n, k) \<leftarrow> m. g n k) + g a v - (case lookup m a of None \<Rightarrow> 0 | Some k \<Rightarrow> g a k)"
  using assms
proof (induction m)
  case (Cons p m)
  then show ?case by (cases p) (auto simp: map_of_eq_None_iff split: option.splits)
qed simp

text \<open>Issuing a lease raises the pool of its model by one and leaves the other pools alone.\<close>

lemma find_info_add_lease [simp]: "find_info vt (add_lease l c) = find_info vt c"
  by (rule ext) (simp add: find_info_def split: option.split)

lemma pool_active_add_lease:
  assumes inv: "lease_inv c" and info: "find_info vt c (l_model l) = Some info"
  shows "pool_active vt (add_lease l c) pool =
     pool_active vt c pool + (if mi_admission_pool info = pool then 1 else 0)"
proof -
  let ?m = "active_requests_by_model c" and ?n = "l_model l"
  let ?g = "\<lambda>n k. if 0 < k \<and> map_option mi_admission_pool (find_info vt c n) = Some pool
                   then k else (0::int)"
  have keys: "keys_distinct ?m" using inv by (simp add: lease_inv_def)
  have nonneg: "0 \<le> get0 ?m ?n"
    using lease_invD(3) [OF inv, of ?n] sum_vals_nonneg [of "active_leases c"]
    by (simp add: active_of_def leases_of_def)
  have "pool_active vt (add_lease l c) pool = (\<Sum>(n, k) \<leftarrow> add0 ?n 1 ?m. ?g n k)"
    by (simp add: pool_active_def)
  also have "\<dots> = (\<Sum>(n, k) \<leftarrow> ?m. ?g n k) + ?g ?n (get0 ?m ?n + 1) - ?g ?n (get0 ?m ?n)"
    unfolding add0_def sum_list_update_one [OF keys]
    by (simp add: get0_def split: option.split)
  also have "(\<Sum>(n, k) \<leftarrow> ?m. ?g n k) = pool_active vt c pool" by (simp add: pool_active_def)
  finally show ?thesis using info nonneg by auto
qed

section \<open>The listing\<close>

lemma queue_ids: "mset (map qi_id (queue vt now c)) = mset (map w_id (waiters c))"
proof -
  have "map qi_id (queue vt now c)
      = map w_id (map snd (enumerate 0 (sort_key (queue_order_key vt now c) (waiters c))))"
    unfolding queue_def map_map by (rule map_cong) (auto simp: queue_entry_def)
  then show ?thesis by (simp del: map_map)
qed

lemma queue_positions: "map qi_position (queue vt now c) = [1..<Suc (length (waiters c))]"
proof -
  have "map qi_position (queue vt now c)
      = map Suc (map fst (enumerate 0 (sort_key (queue_order_key vt now c) (waiters c))))"
    unfolding queue_def map_map by (rule map_cong) (auto simp: queue_entry_def)
  then show ?thesis by (simp add: map_Suc_upt del: map_map)
qed

end
