(* ===== verification/Coordinator_Acquire.thy ===== *)
theory Coordinator_Acquire
  imports Capacity_Safety Coordinator_Scheduling
begin

text \<open>
  The whole of \<^verbatim>\<open>BackendCoordinator::acquire_slot\<close>: the loop around \<open>acquire_iteration\<close>, with the
  caller's callbacks run off the mutex, in the world of \<open>Coordinator_Lifecycle\<close>. The callbacks are
  parameters (the gateway passes closures that swap models and grow the context pool); what they
  return decides how the loop goes on.
\<close>

section \<open>The loop\<close>

record 'b acquire_callbacks =
  cb_demand :: "'b world \<Rightarrow> (request_demand result \<times> 'b world) option"
  cb_prepare_capacity ::
    "request_demand \<Rightarrow> lifecycle_control \<Rightarrow> 'b world \<Rightarrow> (unit result \<times> 'b world) option"
  cb_prepare :: "'b world \<Rightarrow> (unit result \<times> 'b world) option"

definition request_control :: "acquire_slot_options \<Rightarrow> time_point \<Rightarrow> lifecycle_control" where
  "request_control opts deadline =
     \<lparr>lc_deadline = deadline, lc_cancelled = map_option (\<lambda>f flag now. f now) (ao_cancelled opts)\<rparr>"

text \<open>Running a callback between two critical sections; the second one settles its result.\<close>

definition run_callback ::
  "('b world \<Rightarrow> ('r \<times> 'b world) option) \<Rightarrow>
   ('r \<Rightarrow> 'b coordinator \<Rightarrow> acquire_outcome \<times> 'b coordinator) \<Rightarrow> 'b world \<Rightarrow>
     (acquire_outcome \<times> 'b world) option" where
  "run_callback cb settle w =
     do { (r, w1) \<leftarrow> cb w;
          (case settle r (coord w1) of (out, c) \<Rightarrow> Some (out, w1\<lparr>coord := c\<rparr>)) }"

definition acquire_round ::
  "'b ibackend \<Rightarrow> 'b acquire_callbacks \<Rightarrow> acquire_slot_options \<Rightarrow> string \<Rightarrow> nat \<Rightarrow> time_point \<Rightarrow>
     'b world \<Rightarrow> (acquire_outcome \<times> 'b world) option" where
  "acquire_round vt cbs opts name wid deadline w =
     (case acquire_iteration vt (clk w) opts name wid deadline (coord w) of
        (out, c) \<Rightarrow>
          (let w1 = w\<lparr>coord := c\<rparr> in
           case out of
             ACallDemand \<Rightarrow> run_callback (cb_demand cbs) (after_demand wid) w1
           | ACallCapacity d g \<Rightarrow>
               run_callback (cb_prepare_capacity cbs d (request_control opts deadline))
                 (after_capacity wid g) w1
           | ACallPrepare g \<Rightarrow> run_callback (cb_prepare cbs) (after_prepare wid g) w1
           | _ \<Rightarrow> Some (out, w1)))"

partial_function (option) acquire_loop ::
  "'b ibackend \<Rightarrow> 'b acquire_callbacks \<Rightarrow> acquire_slot_options \<Rightarrow> string \<Rightarrow> nat \<Rightarrow> time_point \<Rightarrow>
     'b world \<Rightarrow> (int result \<times> 'b world) option" where
  "acquire_loop vt cbs opts name wid deadline w =
     do { (out, w1) \<leftarrow> acquire_round vt cbs opts name wid deadline w;
          (case out of
             AReturn r \<Rightarrow> Some (r, w1)
           | AWait \<Rightarrow> Option.bind (pause w1) (acquire_loop vt cbs opts name wid deadline)
           | _ \<Rightarrow> acquire_loop vt cbs opts name wid deadline w1) }"

declare acquire_loop.simps [code]

definition acquire_slot ::
  "'b ibackend \<Rightarrow> 'b acquire_callbacks \<Rightarrow> string \<Rightarrow> acquire_slot_options \<Rightarrow> 'b world \<Rightarrow>
     (int result \<times> 'b world) option" where
  "acquire_slot vt cbs name opts w =
     (if \<not> ao_block opts
      then (case acquire_nonblocking vt (clk w) name opts (coord w) of
              (r, c) \<Rightarrow> Some (r, w\<lparr>coord := c\<rparr>))
      else (case acquire_enqueue (clk w) name opts (coord w) of
              (Inl e, c) \<Rightarrow> Some (Inl e, w\<lparr>coord := c\<rparr>)
            | (Inr wid, c) \<Rightarrow>
                acquire_loop vt cbs opts name wid (clk w + ao_timeout opts) (w\<lparr>coord := c\<rparr>)))"

section \<open>Returning\<close>

text \<open>Whenever the loop returns, its waiter is out of the queue.\<close>

definition not_queued :: "nat \<Rightarrow> 'b coordinator \<Rightarrow> bool" where
  "not_queued wid c = (wid \<notin> w_id ` set (waiters c))"

lemma erase_not_queued [simp]: "not_queued wid (erase_waiter_locked wid c)"
  by (auto simp: not_queued_def erase_waiter_locked_def)

lemma leave_queue_simps [simp]:
  "fst (leave_queue wid r c) = AReturn r" "snd (leave_queue wid r c) = erase_waiter_locked wid c"
  by (simp_all add: leave_queue_def)

lemma grant_stage_return:
  assumes "acquire_grant_stage vt now opts name wid c = (AReturn r, c')"
  shows "not_queued wid c'"
  using assms
  by (auto simp: acquire_grant_stage_def leave_queue_def Let_def
      split: if_splits option.splits prod.splits sum.splits)

lemma iteration_return_not_queued:
  assumes "acquire_iteration vt now opts name wid deadline c = (AReturn r, c')"
  shows "not_queued wid c'"
  using assms
  by (auto simp: acquire_iteration_def acquire_capacity_stage_def acquire_load_stage_def
      leave_queue_def Let_def dest: grant_stage_return split: if_splits option.splits)

lemma after_callbacks_return:
  "after_demand wid rd c = (AReturn r, c') \<Longrightarrow> not_queued wid c'"
  "after_capacity wid g rc c = (AReturn r, c') \<Longrightarrow> not_queued wid c'"
  "after_prepare wid g rc c = (AReturn r, c') \<Longrightarrow> not_queued wid c'"
  by (auto simp: after_demand_def after_capacity_def after_prepare_def after_busy_def leave_queue_def
      split: sum.splits if_splits)

lemma run_callback_Some:
  assumes "run_callback cb settle w = Some (out, w')"
  obtains r w1 c where "cb w = Some (r, w1)" "settle r (coord w1) = (out, c)" "w' = w1\<lparr>coord := c\<rparr>"
proof -
  obtain r w1 where cb: "cb w = Some (r, w1)"
    using assms by (auto simp: run_callback_def Option.bind_eq_Some_conv)
  obtain o1 c where "settle r (coord w1) = (o1, c)" by fastforce
  with assms cb that show thesis by (auto simp: run_callback_def)
qed

lemma loop_body_cases:
  assumes "(case out of AReturn r \<Rightarrow> Some (r, w1) | AWait \<Rightarrow> Option.bind (pause w1) g
            | _ \<Rightarrow> g w1) = Some y"
  obtains r where "out = AReturn r" "y = (r, w1)"
    | w2 where "g w2 = Some y" "w2 = w1 \<or> pause w1 = Some w2"
  using assms by (cases out) (auto simp: Option.bind_eq_Some_conv)

lemma acquire_round_cases:
  assumes "acquire_round vt cbs opts name wid deadline w = Some (out, w')"
  obtains c where "acquire_iteration vt (clk w) opts name wid deadline (coord w) = (out, c)"
      "w' = w\<lparr>coord := c\<rparr>" "\<not> (\<exists>d g. out \<in> {ACallDemand, ACallCapacity d g, ACallPrepare g})"
    | c where "acquire_iteration vt (clk w) opts name wid deadline (coord w) = (ACallDemand, c)"
        "run_callback (cb_demand cbs) (after_demand wid) (w\<lparr>coord := c\<rparr>) = Some (out, w')"
    | d g c where
        "acquire_iteration vt (clk w) opts name wid deadline (coord w) = (ACallCapacity d g, c)"
        "run_callback (cb_prepare_capacity cbs d (request_control opts deadline))
           (after_capacity wid g) (w\<lparr>coord := c\<rparr>) = Some (out, w')"
    | g c where
        "acquire_iteration vt (clk w) opts name wid deadline (coord w) = (ACallPrepare g, c)"
        "run_callback (cb_prepare cbs) (after_prepare wid g) (w\<lparr>coord := c\<rparr>) = Some (out, w')"
proof -
  obtain o1 c where it: "acquire_iteration vt (clk w) opts name wid deadline (coord w) = (o1, c)"
    by fastforce
  with assms that show thesis by (cases o1) (auto simp: acquire_round_def Let_def)
qed

lemma acquire_round_return:
  assumes "acquire_round vt cbs opts name wid deadline w = Some (AReturn r, w')"
  shows "not_queued wid (coord w')"
  using assms
  by (cases rule: acquire_round_cases)
    (auto elim!: run_callback_Some dest: iteration_return_not_queued after_callbacks_return)

lemma acquire_loop_not_queued:
  assumes "acquire_loop vt cbs opts name wid deadline w = Some y"
  shows "not_queued wid (coord (snd y))"
  using assms
proof (induction rule: acquire_loop.raw_induct [rotated, consumes 1])
  case (1 f vt cbs opts name wid deadline w y)
  note IH = 1(1)
  from 1(2) obtain out w1 where r: "acquire_round vt cbs opts name wid deadline w = Some (out, w1)"
    and rest: "(case out of AReturn r \<Rightarrow> Some (r, w1)
           | AWait \<Rightarrow> Option.bind (pause w1) (f vt cbs opts name wid deadline)
           | _ \<Rightarrow> f vt cbs opts name wid deadline w1) = Some y"
    by (auto simp: Option.bind_eq_Some_conv)
  from rest show ?case
  proof (cases rule: loop_body_cases)
    case (1 r')
    with r acquire_round_return show ?thesis by auto
  next
    case (2 w2)
    from IH [OF 2(1)] show ?thesis .
  qed
qed

section \<open>Granting\<close>

lemma acquire_and_lease_Ok:
  assumes "acquire_and_lease vt now n d k p b c = (Inr i, g, c')"
  shows "\<exists>s b1. bk_acquire_slot vt b = (Inr s, b1) \<and>
     c' = add_lease (make_lease vt now n s d k p (put_backend n b1 c)) (put_backend n b1 c) \<and>
     i = next_lease_id c \<and> healthy vt (put_backend n b1 c) n \<and>
     admission_pool_allows_locked vt (put_backend n b1 c) n \<and>
     n \<notin> draining_models c \<and> n \<notin> resizing_models c"
proof -
  obtain s b1 where acq: "bk_acquire_slot vt b = (Inr s, b1)"
    using assms by (auto simp: acquire_and_lease_def split: prod.splits sum.splits)
  then have "issue_lease_locked vt now n s d k p (put_backend n b1 c) = (Inr i, c')"
    using assms by (auto simp: acquire_and_lease_def split: prod.splits sum.splits)
  from issue_lease_Ok [OF this] acq show ?thesis by auto
qed

text \<open>What is true when a pass of the loop grants a lease.\<close>

lemma iteration_grant:
  assumes "acquire_iteration vt now opts name wid deadline c = (AReturn (Inr i), c')"
  shows "\<not> request_cancelled opts now \<and> now < deadline \<and> healthy vt c name \<and>
     name \<notin> draining_models c \<and> name \<notin> resizing_models c \<and>
     admission_pool_allows_locked vt c name \<and> waiter_is_next_locked vt now c wid \<and>
     (\<exists>b d g c1. backend_ptr c name = Some b \<and>
        acquire_and_lease vt now name d (ao_reservation_key opts) (ao_priority opts) b c
          = (Inr i, g, c1) \<and> c' = erase_waiter_locked wid c1)"
proof -
  have grant: "acquire_grant_stage vt now opts name wid c = (AReturn (Inr i), c')"
    and pre: "\<not> request_cancelled opts now" "now < deadline" "healthy vt c name"
      "name \<notin> draining_models c" "name \<notin> resizing_models c"
    using assms
    by (auto simp: acquire_iteration_def acquire_capacity_stage_def acquire_load_stage_def
        leave_queue_def Let_def split: if_splits option.splits)
  then have "admission_pool_allows_locked vt c name" "waiter_is_next_locked vt now c wid"
    and "\<exists>b d g c1. backend_ptr c name = Some b \<and>
        acquire_and_lease vt now name d (ao_reservation_key opts) (ao_priority opts) b c
          = (Inr i, g, c1) \<and> c' = erase_waiter_locked wid c1"
    by (auto simp: acquire_grant_stage_def leave_queue_def Let_def
        split: if_splits option.splits prod.splits sum.splits)
  with pre show ?thesis by blast
qed

lemma after_callbacks_no_grant:
  "after_demand wid rd c \<noteq> (AReturn (Inr i), c')"
  "after_capacity wid g rc c \<noteq> (AReturn (Inr i), c')"
  "after_prepare wid g rc c \<noteq> (AReturn (Inr i), c')"
  by (auto simp: after_demand_def after_capacity_def after_prepare_def after_busy_def leave_queue_def
      split: sum.splits if_splits)

text \<open>What holds of the world in which the loop returned a lease.\<close>

definition lease_granted :: "string \<Rightarrow> time_point \<Rightarrow> int \<Rightarrow> 'b world \<Rightarrow> bool" where
  "lease_granted name deadline i w =
     ((\<exists>l. lookup (active_leases (coord w)) i = Some l \<and> l_model l = name) \<and> clk w < deadline)"

lemma acquire_round_grant:
  assumes "acquire_round vt cbs opts name wid deadline w = Some (AReturn (Inr i), w')"
  shows "lease_granted name deadline i w'"
  using assms
proof (cases rule: acquire_round_cases)
  case (1 c)
  from iteration_grant [OF 1(1)] obtain b d g c1 where
    al: "acquire_and_lease vt (clk w) name d (ao_reservation_key opts) (ao_priority opts) b (coord w)
          = (Inr i, g, c1)" and c: "c = erase_waiter_locked wid c1" and t: "clk w < deadline" by blast
  from acquire_and_lease_Ok [OF al] c t show ?thesis unfolding 1(2)
    by (auto simp: lease_granted_def)
qed (auto elim!: run_callback_Some simp: after_callbacks_no_grant)

lemma acquire_loop_granted:
  assumes "acquire_loop vt cbs opts name wid deadline w = Some y" "fst y = Inr i"
  shows "lease_granted name deadline i (snd y)"
  using assms
proof (induction rule: acquire_loop.raw_induct [rotated, consumes 1])
  case (1 f vt cbs opts name wid deadline w y)
  note IH = 1(1) and granted = 1(3)
  from 1(2) obtain out w1 where r: "acquire_round vt cbs opts name wid deadline w = Some (out, w1)"
    and rest: "(case out of AReturn r \<Rightarrow> Some (r, w1)
           | AWait \<Rightarrow> Option.bind (pause w1) (f vt cbs opts name wid deadline)
           | _ \<Rightarrow> f vt cbs opts name wid deadline w1) = Some y"
    by (auto simp: Option.bind_eq_Some_conv)
  from rest show ?case
  proof (cases rule: loop_body_cases)
    case (1 r')
    with r granted acquire_round_grant show ?thesis by auto
  next
    case (2 w2)
    from IH [OF 2(1) granted] show ?thesis .
  qed
qed

section \<open>Safety\<close>

text \<open>Callbacks that keep the world well-formed.\<close>

definition callbacks_ok :: "'b ibackend \<Rightarrow> ('b \<Rightarrow> bool) \<Rightarrow> 'b acquire_callbacks \<Rightarrow> bool" where
  "callbacks_ok vt bok cbs =
     ((\<forall>w r w'. world_ok vt bok w \<longrightarrow> cb_demand cbs w = Some (r, w') \<longrightarrow> world_ok vt bok w') \<and>
      (\<forall>d ctl w r w'. world_ok vt bok w \<longrightarrow> cb_prepare_capacity cbs d ctl w = Some (r, w') \<longrightarrow>
         world_ok vt bok w') \<and>
      (\<forall>w r w'. world_ok vt bok w \<longrightarrow> cb_prepare cbs w = Some (r, w') \<longrightarrow> world_ok vt bok w'))"

lemma world_ok_coord:
  assumes "world_ok vt bok w" "coordinator_inv vt bok c" "registry c = registry (coord w)"
  shows "world_ok vt bok (w\<lparr>coord := c\<rparr>)"
  using assms by (simp add: world_ok_def)

lemma after_callbacks_registry:
  "after_demand wid rd c = (out, c') \<Longrightarrow> registry c' = registry c"
  "after_capacity wid g r c = (out, c') \<Longrightarrow> registry c' = registry c"
  "after_prepare wid g r c = (out, c') \<Longrightarrow> registry c' = registry c"
  by (auto simp: after_demand_def after_capacity_def after_prepare_def after_busy_def leave_queue_def
      split: sum.splits if_splits)

context backend_contract
begin

lemma acquire_round_ok:
  assumes cbs: "callbacks_ok vt bok cbs" and ok: "world_ok vt bok w"
    and run: "acquire_round vt cbs opts name wid deadline w = Some (out, w')"
  shows "world_ok vt bok w'"
proof -
  have it: "world_ok vt bok (w\<lparr>coord := c\<rparr>)"
    if "acquire_iteration vt (clk w) opts name wid deadline (coord w) = (o1, c)" for o1 c
    using ok acquire_iteration_inv [OF world_okD(1) [OF ok] that]
      acquire_iteration_keeps [OF world_okD(1) [OF ok] that]
    by (intro world_ok_coord) (auto simp: keeps_def)
  from run show ?thesis
  proof (cases rule: acquire_round_cases)
    case (1 c)
    with it show ?thesis by simp
  next
    case (2 c)
    from 2(2) obtain r w1 d where cb: "cb_demand cbs (w\<lparr>coord := c\<rparr>) = Some (r, w1)"
      "after_demand wid r (coord w1) = (out, d)" "w' = w1\<lparr>coord := d\<rparr>" by (rule run_callback_Some)
    have ok1: "world_ok vt bok w1" using cbs it [OF 2(1)] cb(1) unfolding callbacks_ok_def by blast
    show ?thesis unfolding cb(3)
      by (rule world_ok_coord [OF ok1 callbacks_inv(1) [OF world_okD(1) [OF ok1] cb(2)]
            after_callbacks_registry(1) [OF cb(2)]])
  next
    case (3 d g c)
    from 3(2) obtain r w1 c1 where cb:
      "cb_prepare_capacity cbs d (request_control opts deadline) (w\<lparr>coord := c\<rparr>) = Some (r, w1)"
      "after_capacity wid g r (coord w1) = (out, c1)" "w' = w1\<lparr>coord := c1\<rparr>"
      by (rule run_callback_Some)
    have ok1: "world_ok vt bok w1" using cbs it [OF 3(1)] cb(1) unfolding callbacks_ok_def by blast
    show ?thesis unfolding cb(3)
      by (rule world_ok_coord [OF ok1 callbacks_inv(3) [OF world_okD(1) [OF ok1] cb(2)]
            after_callbacks_registry(2) [OF cb(2)]])
  next
    case (4 g c)
    from 4(2) obtain r w1 c1 where cb: "cb_prepare cbs (w\<lparr>coord := c\<rparr>) = Some (r, w1)"
      "after_prepare wid g r (coord w1) = (out, c1)" "w' = w1\<lparr>coord := c1\<rparr>"
      by (rule run_callback_Some)
    have ok1: "world_ok vt bok w1" using cbs it [OF 4(1)] cb(1) unfolding callbacks_ok_def by blast
    show ?thesis unfolding cb(3)
      by (rule world_ok_coord [OF ok1 callbacks_inv(4) [OF world_okD(1) [OF ok1] cb(2)]
            after_callbacks_registry(3) [OF cb(2)]])
  qed
qed

lemma acquire_loop_ok:
  assumes "acquire_loop vt' cbs opts name wid deadline w = Some y" "vt' = vt"
    "callbacks_ok vt bok cbs" "world_ok vt bok w"
  shows "world_ok vt bok (snd y)"
  using assms
proof (induction rule: acquire_loop.raw_induct [rotated, consumes 1])
  case (1 f vt' cbs opts name wid deadline w y)
  from 1(2) [unfolded 1(3)] obtain out w1 where
    r: "acquire_round vt cbs opts name wid deadline w = Some (out, w1)"
    and rest: "(case out of AReturn r \<Rightarrow> Some (r, w1)
           | AWait \<Rightarrow> Option.bind (pause w1) (f vt cbs opts name wid deadline)
           | _ \<Rightarrow> f vt cbs opts name wid deadline w1) = Some y"
    by (auto simp: Option.bind_eq_Some_conv)
  have ok1: "world_ok vt bok w1" using acquire_round_ok [OF 1(4,5) r] .
  note IH = 1(1) [OF _ refl 1(4)]
  show ?case
  proof (cases out)
    case AWait
    with rest obtain w2 where "pause w1 = Some w2" "f vt cbs opts name wid deadline w2 = Some y"
      by (auto simp: Option.bind_eq_Some_conv)
    with IH pause_ok [OF ok1] show ?thesis by blast
  qed (use rest ok1 IH in auto)
qed

theorem acquire_slot_ok:
  assumes cbs: "callbacks_ok vt bok cbs" and ok: "world_ok vt bok w"
    and run: "acquire_slot vt cbs name opts w = Some (r, w')"
  shows "world_ok vt bok w'"
proof (cases "ao_block opts")
  case False
  obtain r1 c where n: "acquire_nonblocking vt (clk w) name opts (coord w) = (r1, c)" by fastforce
  with run False have "w' = w\<lparr>coord := c\<rparr>" by (simp add: acquire_slot_def)
  with ok acquire_nonblocking_inv [OF world_okD(1) [OF ok] n]
    acquire_nonblocking_keeps [OF world_okD(1) [OF ok] n]
  show ?thesis by (auto intro!: world_ok_coord simp: keeps_def)
next
  case True
  obtain re c where e: "acquire_enqueue (clk w) name opts (coord w) = (re, c)" by fastforce
  have "coordinator_inv vt bok c" "registry c = registry (coord w)"
    using acquire_enqueue_inv [OF world_okD(1) [OF ok], of "clk w" name opts]
      keeps_sessions(10) [of vt "coord w" "clk w" name opts] e by (auto simp: keeps_def)
  then have okc: "world_ok vt bok (w\<lparr>coord := c\<rparr>)" using ok by (intro world_ok_coord)
  with run True e acquire_loop_ok [OF _ refl cbs okc] show ?thesis
    by (cases re) (auto simp: acquire_slot_def)
qed

end

section \<open>Termination\<close>

text \<open>A request without callbacks returns once the schedule lasts until its deadline.\<close>

definition no_callbacks :: "acquire_slot_options \<Rightarrow> bool" where
  "no_callbacks opts = (\<not> ao_prepare opts \<and> \<not> ao_demand opts \<and> \<not> ao_prepare_capacity opts)"

lemma plain_iteration:
  assumes "no_callbacks opts"
    "acquire_iteration vt now opts name wid deadline c = (out, c')"
  shows "out = AWait \<or> (\<exists>r. out = AReturn r)"
  using assms
  by (auto simp: no_callbacks_def acquire_iteration_def demand_due_def capacity_due_def
      acquire_load_stage_def capacity_stale_def acquire_grant_stage_def leave_queue_def Let_def
      split: if_splits option.splits prod.splits sum.splits)

lemma due_iteration:
  assumes "deadline \<le> now"
  shows "\<exists>r c'. acquire_iteration vt now opts name wid deadline c = (AReturn r, c')"
  using assms by (simp add: acquire_iteration_def leave_queue_def)

lemma acquire_loop_returns:
  assumes "no_callbacks opts" "deadline \<le> clk w + (\<Sum>t \<leftarrow> sched w. int (tk_elapsed t))"
  shows "\<exists>y. acquire_loop vt cbs opts name wid deadline w = Some y"
  using assms(2)
proof (induction "sched w" arbitrary: w)
  case Nil
  then have "deadline \<le> clk w" by (simp flip: Nil(1))
  from due_iteration [OF this, of vt opts name wid "coord w"] show ?case
    by (subst acquire_loop.simps) (auto simp: acquire_round_def)
next
  case (Cons t ts)
  obtain out c where it: "acquire_iteration vt (clk w) opts name wid deadline (coord w) = (out, c)"
    by fastforce
  show ?case
  proof (cases "out = AWait")
    case False
    with plain_iteration [OF assms(1) it] it show ?thesis
      by (subst acquire_loop.simps) (auto simp: acquire_round_def)
  next
    case True
    let ?w = "w\<lparr>coord := c\<rparr>"
    let ?v = "\<lparr>coord = tk_env t c, clk = clk w + int (tk_elapsed t), lock_free = tk_free t, sched = ts\<rparr>"
    have v: "pause ?w = Some ?v" using Cons.hyps(2) by (simp add: pause_def flip: Cons.hyps(2))
    have "\<exists>y. acquire_loop vt cbs opts name wid deadline ?v = Some y"
      by (rule Cons.hyps(1)) (use Cons.prems Cons.hyps(2) [symmetric] in simp_all)
    with it True v show ?thesis by (subst acquire_loop.simps) (simp add: acquire_round_def)
  qed
qed

end
