(* ===== verification/Coordinator_Execution.thy ===== *)
theory Coordinator_Execution
  imports Coordinator_Acquire
begin

text \<open>
  Running requests (\<^verbatim>\<open>libs/model/src/backend_coordinator_execution.cpp\<close>): growing a model for a
  request, dispatching a request to the slot its lease stands for, and draining. The modality
  methods themselves (\<^verbatim>\<open>predict_cancellable\<close>, \<^verbatim>\<open>embed\<close>, ...) belong to the runtimes: a dispatch takes
  the method as a parameter, which it calls with the backend and the slot.
\<close>

section \<open>Demand and capacity of a request\<close>

definition generation_model ::
  "'b ibackend \<Rightarrow> string \<Rightarrow> 'b coordinator \<Rightarrow> 'b result" where
  "generation_model vt name c =
     (case backend_ptr c name of
        None \<Rightarrow> Err NotFound (''model not loaded: '' @ name)
      | Some b \<Rightarrow>
          if \<not> bk_is_loaded vt b then Err NotFound (''model not loaded: '' @ name)
          else if \<not> bk_implements vt IModel b
            then Err InvalidArgument (''backend is not a generation model: '' @ name)
          else Ok b)"

definition estimate_request_demand ::
  "'b ibackend \<Rightarrow> ('b \<Rightarrow> request_demand result) \<Rightarrow> lifecycle_lock set \<Rightarrow> string \<Rightarrow> 'b world \<Rightarrow>
     (request_demand result \<times> 'b world) option" where
  "estimate_request_demand vt estimate held name w =
     do { w1 \<leftarrow> block_on_lock held SwapMutex w;
          (case generation_model vt name (coord w1) of
             Inl e \<Rightarrow> Some (Inl e, w1)
           | Inr b \<Rightarrow> do { w2 \<leftarrow> pause w1; Some (estimate b, w2) }) }"

definition capacity_admission ::
  "'b ibackend \<Rightarrow> string \<Rightarrow> 'b coordinator \<Rightarrow> unit result \<times> 'b coordinator" where
  "capacity_admission vt name c =
     (case backend_ptr c name of
        None \<Rightarrow> (Err NotFound (''model not loaded: '' @ name), c)
      | Some b \<Rightarrow>
          if \<not> bk_is_loaded vt b then (Err NotFound (''model not loaded: '' @ name), c)
          else if name \<in> resizing_models c
            then (Err ResourceBusy (''request capacity is already being prepared: '' @ name), c)
          else if \<not> bk_implements vt IModel b
            then (Err InvalidArgument (''backend is not a generation model: '' @ name), c)
          else (Ok (), mark_resizing name c))"

definition capacity_result :: "unit result call \<Rightarrow> unit result" where
  "capacity_result rc =
     (case rc of
        Returned r \<Rightarrow> r
      | Threw (Some what) \<Rightarrow> Err Internal (''request capacity preparation threw: '' @ what)
      | Threw None \<Rightarrow> Err Internal ''request capacity preparation threw'')"

definition settle_capacity ::
  "'b ibackend \<Rightarrow> string \<Rightarrow> unit result \<Rightarrow> 'b coordinator \<Rightarrow> 'b coordinator" where
  "settle_capacity vt name r c0 =
     (let c = clear_resizing name c0 in
      if \<not> is_ok r then c
      else (case (lookup (continuation_holds c) name, backend_ptr c name) of
              (Some h, Some b) \<Rightarrow>
                (if h_generation h = resource_generation c \<and>
                    mi_runtime (bk_info vt b) = ''vllm_radiance'' \<and> bk_n_slots vt b = 1
                 then (bump_generation c)\<lparr>continuation_holds :=
                        AList.update name (h\<lparr>h_generation := resource_generation c + 1\<rparr>)
                          (continuation_holds c)\<rparr>
                 else bump_generation c)
            | _ \<Rightarrow> bump_generation c))"

definition prepare_request_capacity ::
  "'b ibackend \<Rightarrow> lifecycle_lock set \<Rightarrow> string \<Rightarrow> request_demand \<Rightarrow> lifecycle_control \<Rightarrow> 'b world \<Rightarrow>
     (unit result \<times> 'b world) option" where
  "prepare_request_capacity vt held name demand ctl w =
     do { w1 \<leftarrow> block_on_lock held SwapMutex w;
          (case capacity_admission vt name (coord w1) of
             (Inl e, c) \<Rightarrow> Some (Inl e, w1\<lparr>coord := c\<rparr>)
           | (Inr _, c) \<Rightarrow>
               do { (rc, w2) \<leftarrow> call_instance name (bk_ensure_request_capacity vt demand) ctl
                                   (w1\<lparr>coord := c\<rparr>);
                    let r = capacity_result rc;
                    Some (r, section_of (settle_capacity vt name r) w2) }) }"

section \<open>Dispatch\<close>

text \<open>The slot a request runs on: the lease must be live and belong to the model.\<close>

definition dispatch_target ::
  "'b ibackend \<Rightarrow> backend_interface \<Rightarrow> string \<Rightarrow> string \<Rightarrow> string \<Rightarrow> int \<Rightarrow> 'b coordinator \<Rightarrow>
     ('b \<times> int) result" where
  "dispatch_target vt iface capability refusal name lease_id c =
     (case backend_ptr c name of
        None \<Rightarrow> Err NotFound (''model not loaded: '' @ name)
      | Some b \<Rightarrow>
          if \<not> bk_implements vt iface b \<or> \<not> supports (bk_info vt b) capability
            then Err InvalidArgument (refusal @ name)
          else (case backend_slot_for_lease_locked c name lease_id of
                  Inl e \<Rightarrow> Err (err_code e) (err_message e)
                | Inr slot \<Rightarrow> Ok (b, slot)))"

definition predict_target ::
  "'b ibackend \<Rightarrow> string \<Rightarrow> int \<Rightarrow> 'b coordinator \<Rightarrow> ('b \<times> int) result" where
  "predict_target vt =
     dispatch_target vt IModel ''chat_completions'' ''backend does not support text generation: ''"

text \<open>The method is called off the mutex, with the backend and slot found under it.\<close>

definition run_target :: "('b \<Rightarrow> int \<Rightarrow> 'r result) \<Rightarrow> ('b \<times> int) result \<Rightarrow> 'r result" where
  "run_target call target =
     (case target of Inl e \<Rightarrow> Inl e | Inr (b, slot) \<Rightarrow> call b slot)"

definition predict ::
  "'b ibackend \<Rightarrow> ('b \<Rightarrow> int \<Rightarrow> 'r result) \<Rightarrow> string \<Rightarrow> int \<Rightarrow> 'b coordinator \<Rightarrow>
     'r result \<times> int option" where
  "predict vt predict_cancellable name lease_id c =
     (let target = predict_target vt name lease_id c
      in (run_target predict_cancellable target,
          (case target of Inl _ \<Rightarrow> None | Inr (b, slot) \<Rightarrow> Some slot)))"

definition predict_stream ::
  "'b ibackend \<Rightarrow> ('b \<Rightarrow> int \<Rightarrow> 'r result) \<Rightarrow> string \<Rightarrow> int \<Rightarrow> 'b coordinator \<Rightarrow>
     'r result \<times> int option" where
  "predict_stream vt stream name lease_id c =
     (let target = predict_target vt name lease_id c
      in (run_target stream target,
          (case target of Inl _ \<Rightarrow> None | Inr (b, slot) \<Rightarrow> Some slot)))"

definition embed ::
  "'b ibackend \<Rightarrow> ('b \<Rightarrow> int \<Rightarrow> 'r result) \<Rightarrow> string \<Rightarrow> int \<Rightarrow> 'b coordinator \<Rightarrow> 'r result" where
  "embed vt call name lease_id c =
     run_target call (dispatch_target vt IEmbeddingBackend ''embeddings''
       ''backend does not support embeddings: '' name lease_id c)"

definition generate_images ::
  "'b ibackend \<Rightarrow> ('b \<Rightarrow> int \<Rightarrow> 'r result) \<Rightarrow> string \<Rightarrow> int \<Rightarrow> 'b coordinator \<Rightarrow> 'r result" where
  "generate_images vt call name lease_id c =
     run_target call (dispatch_target vt IImageBackend ''image_generation''
       ''backend does not support image generation: '' name lease_id c)"

definition generate_audio ::
  "'b ibackend \<Rightarrow> ('b \<Rightarrow> int \<Rightarrow> 'r result) \<Rightarrow> string \<Rightarrow> int \<Rightarrow> 'b coordinator \<Rightarrow> 'r result" where
  "generate_audio vt call name lease_id c =
     run_target call (dispatch_target vt IAudioGenerationBackend ''audio_generation''
       ''backend does not support audio generation: '' name lease_id c)"

definition generate_video ::
  "'b ibackend \<Rightarrow> ('b \<Rightarrow> int \<Rightarrow> 'r result) \<Rightarrow> string \<Rightarrow> int \<Rightarrow> 'b coordinator \<Rightarrow> 'r result" where
  "generate_video vt call name lease_id c =
     run_target call (dispatch_target vt IVideoBackend ''video_generation''
       ''backend does not support video generation: '' name lease_id c)"

definition synthesize ::
  "'b ibackend \<Rightarrow> ('b \<Rightarrow> int \<Rightarrow> 'r result) \<Rightarrow> string \<Rightarrow> int \<Rightarrow> 'b coordinator \<Rightarrow> 'r result" where
  "synthesize vt call name lease_id c =
     run_target call (dispatch_target vt ISpeechBackend ''audio_speech''
       ''backend does not support speech synthesis: '' name lease_id c)"

definition transcribe ::
  "'b ibackend \<Rightarrow> ('b \<Rightarrow> int \<Rightarrow> 'r result) \<Rightarrow> string \<Rightarrow> int \<Rightarrow> 'b coordinator \<Rightarrow> 'r result" where
  "transcribe vt call name lease_id c =
     run_target call (dispatch_target vt ITranscriptionBackend ''audio_transcription''
       ''backend does not support transcription: '' name lease_id c)"

text \<open>Validation needs no lease: it asks a fresh backend made by the factory.\<close>

definition validate_speech_request ::
  "'b ibackend \<Rightarrow> ('b \<Rightarrow> unit result) \<Rightarrow> string \<Rightarrow> 'b coordinator \<Rightarrow> unit result" where
  "validate_speech_request vt validate name c =
     (case create_result (registry c) name of
        Inl e \<Rightarrow> Err (err_code e) (err_message e)
      | Inr b \<Rightarrow>
          if \<not> bk_implements vt ISpeechBackend b \<or> \<not> supports (bk_info vt b) ''audio_speech''
            then Err InvalidArgument (''backend does not support speech synthesis: '' @ name)
          else validate b)"

section \<open>Draining\<close>

partial_function (option) drain_until :: "time_point \<Rightarrow> 'b world \<Rightarrow> 'b world option" where
  "drain_until deadline w =
     (if 0 < active_requests (coord w) \<and> clk w < deadline
      then Option.bind (pause w) (drain_until deadline) else Some w)"

declare drain_until.simps [code]

definition drain_active :: "duration \<Rightarrow> 'b world \<Rightarrow> 'b world option" where
  "drain_active timeout w = drain_until (clk w + timeout) w"

definition active_request_count :: "'b coordinator \<Rightarrow> int" where
  "active_request_count c = active_requests c"

definition active_request_count_of :: "'b coordinator \<Rightarrow> string \<Rightarrow> int" where
  "active_request_count_of c name = active_of c name"

section \<open>Facts\<close>

lemma dispatch_target_Ok:
  assumes "dispatch_target vt iface cap refusal name i c = Inr (b, slot)"
  shows "backend_ptr c name = Some b \<and> bk_implements vt iface b \<and> supports (bk_info vt b) cap \<and>
     (\<exists>l. lookup (active_leases c) i = Some l \<and> l_model l = name \<and> l_backend_slot l = slot)"
  using assms
  by (auto simp: dispatch_target_def backend_slot_for_lease_locked_def
      split: option.splits if_splits sum.splits)

lemma drain_until_returns:
  assumes "deadline \<le> clk w + (\<Sum>t \<leftarrow> sched w. int (tk_elapsed t))"
  shows "\<exists>w'. drain_until deadline w = Some w' \<and>
     (active_requests (coord w') \<le> 0 \<or> deadline \<le> clk w')"
  using assms
proof (induction "sched w" arbitrary: w)
  case Nil
  then have "deadline \<le> clk w" by (simp flip: Nil(1))
  then show ?case by (subst drain_until.simps) simp
next
  case (Cons t ts)
  let ?v = "\<lparr>coord = tk_env t (coord w), clk = clk w + int (tk_elapsed t), lock_free = tk_free t,
      sched = ts\<rparr>"
  have v: "pause w = Some ?v" by (simp add: pause_def flip: Cons.hyps(2))
  have "\<exists>w'. drain_until deadline ?v = Some w' \<and> (active_requests (coord w') \<le> 0 \<or> deadline \<le> clk w')"
    by (rule Cons.hyps(1)) (use Cons.prems Cons.hyps(2) [symmetric] in simp_all)
  with v show ?case by (subst drain_until.simps) auto
qed

context backend_contract
begin

lemma block_on_lock_ok:
  assumes "block_on_lock held l w = Some w'" "world_ok vt bok w"
  shows "world_ok vt bok w' \<and> keeps vt (coord w) (coord w')"
  using assms
proof (induction rule: block_on_lock.raw_induct [rotated, consumes 1])
  case (1 f held l w w')
  show ?case
  proof (cases "try_lock held l w")
    case True
    with 1(2,3) show ?thesis by simp
  next
    case False
    with 1(2) obtain w1 where w1: "pause w = Some w1" "f held l w1 = Some w'"
      by (auto simp: Option.bind_eq_Some_conv)
    from pause_ok [OF 1(3) w1(1)] 1(1) [OF w1(2)] show ?thesis by (auto intro: keeps_trans)
  qed
qed

text \<open>Growing a model for a request leaves the slots in use alone, so live leases survive.\<close>

lemma ensure_call_ok:
  assumes ok: "world_ok vt bok w"
    and run: "call_instance name (bk_ensure_request_capacity vt d) ctl w = Some (rc, w')"
  shows "world_ok vt bok w' \<and> resizing_models (coord w') = resizing_models (coord w) \<and>
     registry (coord w') = registry (coord w)"
proof -
  obtain w1 b where w1: "pause w = Some w1" and b: "backend_ptr (coord w1) name = Some b"
    using run by (auto simp: call_instance_def Option.bind_eq_Some_conv)
  let ?cv = "control_seen ctl w w1"
  obtain b' where fb: "bk_ensure_request_capacity vt d ?cv b = (rc, b')"
    and w': "w' = section_of (put_backend name b') w1"
    using run w1 b by (auto simp: call_instance_def Let_def split: prod.splits)
  from pause_ok [OF ok w1] have ok1: "world_ok vt bok w1" and k: "keeps vt (coord w) (coord w1)"
    by auto
  have sinv: "slot_inv vt bok (coord w1)" using ok1 by (rule world_okD)
  have bok_b: "bok b" using slot_inv_backend [OF sinv b] .
  note e = ensure_outcome [OF bok_b fb]
  have "slot_inv vt bok (put_backend name b' (coord w1))"
  proof (rule slot_inv_put [OF sinv])
    fix i l assume l: "lookup (active_leases (coord w1)) i = Some l" "l_model l = name"
    from slot_inv_lease [OF sinv l(1)] l(2) b e
    show "bk_is_loaded vt b' \<and> bk_slot_busy vt (l_backend_slot l) b'" by (simp add: same_slots_def)
  qed (use e in simp)
  from coordinator_inv_put [OF world_okD(1) [OF ok1] this] have "world_ok vt bok w'"
    unfolding w' using ok1 by (intro world_ok_section) simp_all
  with k show ?thesis unfolding w' by (simp add: keeps_def)
qed

lemma settle_capacity_inv [simp]:
  "coordinator_inv vt bok (settle_capacity vt' name r c) = coordinator_inv vt bok c"
  "registry (settle_capacity vt' name r c) = registry c"
  "resizing_models (settle_capacity vt' name r c) = resizing_models c - {name}"
proof -
  have holds: "coordinator_inv vt bok (k\<lparr>continuation_holds := h\<rparr>) = coordinator_inv vt bok k" for k h
    by (rule coordinator_inv_cong) simp_all
  show "coordinator_inv vt bok (settle_capacity vt' name r c) = coordinator_inv vt bok c"
    by (simp add: settle_capacity_def Let_def holds split: option.split)
  show "registry (settle_capacity vt' name r c) = registry c"
    "resizing_models (settle_capacity vt' name r c) = resizing_models c - {name}"
    by (simp_all add: settle_capacity_def Let_def split: option.split)
qed

theorem prepare_request_capacity_ok:
  assumes ok: "world_ok vt bok w"
    and run: "prepare_request_capacity vt held name d ctl w = Some (r, w')"
  shows "world_ok vt bok w' \<and> resizing_models (coord w') = resizing_models (coord w)"
proof -
  obtain w1 where w1: "block_on_lock held SwapMutex w = Some w1"
    using run by (auto simp: prepare_request_capacity_def Option.bind_eq_Some_conv)
  from block_on_lock_ok [OF w1 ok] have ok1: "world_ok vt bok w1"
    and k1: "keeps vt (coord w) (coord w1)" by auto
  obtain a c where a: "capacity_admission vt name (coord w1) = (a, c)" by fastforce
  show ?thesis
  proof (cases a)
    case (Inl e)
    then have "c = coord w1" using a
      by (auto simp: capacity_admission_def split: option.splits if_splits)
    with run w1 a Inl ok1 keeps_resizing [OF k1] show ?thesis
      by (auto simp: prepare_request_capacity_def)
  next
    case (Inr u)
    then have c: "c = mark_resizing name (coord w1)" and new: "name \<notin> resizing_models (coord w1)"
      using a by (auto simp: capacity_admission_def split: option.splits if_splits)
    have okc: "world_ok vt bok (w1\<lparr>coord := c\<rparr>)"
      using ok1 world_okD(1) [OF ok1] by (intro world_ok_coord) (simp_all add: c)
    obtain rc w2 where w2: "call_instance name (bk_ensure_request_capacity vt d) ctl
        (w1\<lparr>coord := c\<rparr>) = Some (rc, w2)"
      and w': "w' = section_of (settle_capacity vt name r) w2"
      using run w1 a Inr
      by (auto simp: prepare_request_capacity_def Option.bind_eq_Some_conv Let_def)
    note e = ensure_call_ok [OF okc w2]
    have "world_ok vt bok w'" unfolding w'
      using e world_okD(1) by (intro world_ok_section) auto
    with e new keeps_resizing [OF k1] show ?thesis by (auto simp: w' c)
  qed
qed

end

end
