(* ===== verification/Example_Deployment.thy ===== *)
theory Example_Deployment
  imports Coordinator_Execution
begin

text \<open>
  A small deployment on which the properties of the coordinator are instantiated: three whisper
  models, one on the CPU (an always-resident sidecar) and two on the GPU that do not fit the VRAM
  budget together, a coordinator over their registry and a schedule in which nothing else happens.
  Every value is computed by the operations of the model.
\<close>

section \<open>Models, registry, world\<close>

definition ex_env :: whisper_env where
  "ex_env = \<lparr>we_is_regular_file = (\<lambda>p. p = ''w.bin''), we_hardware_concurrency = 8,
             we_init_context = (\<lambda>p gpu. True)\<rparr>"

abbreviation ex_vt :: "whisper_backend ibackend" where
  "ex_vt \<equiv> whisper_vt ex_env"

definition ex_cpu_model :: model_info where
  "ex_cpu_model =
     default_model_info\<lparr>mi_name := ''cpu'', mi_runtime := ''whisper_cpp'',
       mi_modality := ''audio_transcription'', mi_n_slots := 1,
       mi_artifacts := [(''model'', ''w.bin'')]\<rparr>"

definition ex_gpu_model :: "string \<Rightarrow> int \<Rightarrow> model_info" where
  "ex_gpu_model name vram =
     default_model_info\<lparr>mi_name := name, mi_runtime := ''whisper_cpp'',
       mi_modality := ''audio_transcription'', mi_resource_metadata_explicit := True,
       mi_role := Media, mi_compute := VulkanGpu, mi_residency := Managed,
       mi_capabilities := [''audio_transcription''], mi_admission_pool := name, mi_n_slots := 1,
       mi_vram_required_mb := vram,
       mi_artifacts := [(''model'', ''w.bin''), (''provider'', ''gpu'')]\<rparr>"

definition ex_register :: "model_info \<Rightarrow> whisper_backend registry \<Rightarrow> whisper_backend registry" where
  "ex_register info reg = (case register_model info reg of Inl _ \<Rightarrow> reg | Inr reg' \<Rightarrow> reg')"

definition ex_registry :: "whisper_backend registry" where
  "ex_registry =
     fold ex_register [ex_cpu_model, ex_gpu_model ''a'' 3000, ex_gpu_model ''b'' 3000]
       (empty_registry\<lparr>factories := [(''whisper_cpp'', \<lambda>info. Some (make_whisper_backend info))]\<rparr>)"

definition ex_tick :: "whisper_backend tick" where
  "ex_tick = \<lparr>tk_elapsed = 5, tk_env = (\<lambda>c. c), tk_free = (\<lambda>l. True)\<rparr>"

definition ex_world :: "nat \<Rightarrow> whisper_backend world" where
  "ex_world n =
     \<lparr>coord = set_vram_budget 4000 0 (init_coordinator ex_registry), clk = 1000000000,
      lock_free = (\<lambda>l. True), sched = replicate n ex_tick\<rparr>"

text \<open>The deployment after loading a model.\<close>

definition ex_loaded :: "string \<Rightarrow> nat \<Rightarrow> whisper_backend world" where
  "ex_loaded name n = snd (the (load ex_vt {} name (ex_world n)))"

section \<open>Well-formedness\<close>

lemma register_model_factories:
  "factories (ex_register info reg) = factories reg"
  by (auto simp: ex_register_def register_model_def Let_def split: option.splits sum.splits if_splits)

lemma ex_world_ok: "world_ok ex_vt whisper_wf (ex_world n)"
proof -
  have reg: "registry (coord (ex_world n)) = ex_registry"
    by (simp add: ex_world_def set_vram_budget_def init_coordinator_def bump_generation_def Let_def)
  have "factories ex_registry = [(''whisper_cpp'', \<lambda>info. Some (make_whisper_backend info))]"
    by (simp add: ex_registry_def register_model_factories)
  then have "factories_ok ex_vt whisper_wf ex_registry"
    by (auto simp: factories_ok_def whisper_vt_def whisper_wf_def make_whisper_backend_def Let_def
        split: if_splits)
  moreover have "coordinator_inv ex_vt whisper_wf (coord (ex_world n))"
    by (simp add: ex_world_def ledger_ops_inv coordinator_inv_init)
  ultimately show ?thesis
    by (simp add: world_ok_def reg) (simp add: ex_world_def ex_tick_def)
qed

lemma ex_loaded_ok:
  assumes "load ex_vt {} name (ex_world n) \<noteq> None"
  shows "world_ok ex_vt whisper_wf (ex_loaded name n)"
proof -
  from assms obtain r w where run: "load ex_vt {} name (ex_world n) = Some (r, w)" by auto
  then have "world_ok ex_vt whisper_wf w"
    using whisper.load_with_lock_deadline_ok [OF ex_world_ok] by (simp add: load_def)
  with run show ?thesis by (simp add: ex_loaded_def)
qed

lemma ex_a_ok: "world_ok ex_vt whisper_wf (ex_loaded ''a'' 40)"
  by (rule ex_loaded_ok) code_simp

lemma ex_cpu_ok: "world_ok ex_vt whisper_wf (ex_loaded ''cpu'' 40)"
  by (rule ex_loaded_ok) code_simp

text \<open>Reading off the outcome of a computed run.\<close>

lemma pair_ok: "case p of (r, c) \<Rightarrow> is_ok r \<Longrightarrow> \<exists>x c. p = (Inr x, c)"
  by (cases p; cases "fst p") auto

lemma run_ok:
  "case p of None \<Rightarrow> False | Some (r, w) \<Rightarrow> is_ok r \<and> P w \<Longrightarrow> \<exists>x w. p = Some (Inr x, w) \<and> P w"
  by (cases p; cases "fst (the p)") auto

section \<open>Requests\<close>

definition ex_options :: acquire_slot_options where
  "ex_options = default_options\<lparr>ao_timeout := 60\<rparr>"

definition ex_callbacks :: "'b acquire_callbacks" where
  "ex_callbacks = \<lparr>cb_demand = (\<lambda>w. None), cb_prepare_capacity = (\<lambda>d ctl w. None),
                   cb_prepare = (\<lambda>w. None)\<rparr>"

lemma ex_callbacks_ok: "callbacks_ok vt bok ex_callbacks"
  by (simp add: callbacks_ok_def ex_callbacks_def)

text \<open>The deployment with one request running on model \<open>a\<close>.\<close>

definition ex_busy :: "whisper_backend world" where
  "ex_busy = snd (the (acquire_slot ex_vt ex_callbacks ''a'' ex_options (ex_loaded ''a'' 40)))"

lemma ex_busy_run:
  "acquire_slot ex_vt ex_callbacks ''a'' ex_options (ex_loaded ''a'' 40) = Some (Inr 1, ex_busy)"
proof -
  have "case acquire_slot ex_vt ex_callbacks ''a'' ex_options (ex_loaded ''a'' 40) of
      None \<Rightarrow> False | Some (r, w) \<Rightarrow> r = Inr 1" by code_simp
  then show ?thesis by (auto simp: ex_busy_def split: option.splits)
qed

lemma ex_busy_ok: "world_ok ex_vt whisper_wf ex_busy"
  by (rule whisper.acquire_slot_ok [OF ex_callbacks_ok ex_a_ok ex_busy_run])

text \<open>A queue entry, and the two that wait behind the running request.\<close>

definition ex_waiter :: "nat \<Rightarrow> int \<Rightarrow> time_point \<Rightarrow> slot_waiter" where
  "ex_waiter i priority at = new_waiter i ''a'' (ex_options\<lparr>ao_priority := priority\<rparr>) at"

definition ex_queue :: "whisper_backend coordinator" where
  "ex_queue = (coord (ex_loaded ''a'' 40))
     \<lparr>waiters := [ex_waiter 1 0 0, ex_waiter 2 5 0], next_waiter_id := 3\<rparr>"

end
