(* ===== verification/Coordinator_Properties.thy ===== *)
theory Coordinator_Properties
  imports Example_Deployment
begin

text \<open>
  What the coordinator promises to its callers: slots are leased exclusively, admission pools are
  never exceeded, the queue is fair and is left on every return, lifecycle operations touch only
  their own model and never one with a running request, and making room never costs an
  always-resident model. Each property is stated for every backend that satisfies
  \<open>backend_contract\<close> and every interleaving of shared steps, and instantiated on the deployment of
  \<open>Example_Deployment\<close>.
\<close>

section \<open>Shared facts\<close>




lemma release_slot_Ok:
  assumes "release_slot vt now name i c = (Ok (), c')"
  shows "lookup (active_leases c') i = None" "next_lease_id c' = next_lease_id c"
    "lookup (active_leases c) i = None \<longrightarrow> 0 < i \<and> i < next_lease_id c"
  using assms
  by (auto simp: release_slot_def leave_continuation_hold_def Let_def
      split: option.splits if_splits prod.splits sum.splits)

text \<open>What the admission decisions read of the coordinator besides its queue.\<close>

lemma find_info_waiters: "find_info vt (c\<lparr>waiters := ws\<rparr>) = find_info vt c"
  by (rule ext) (simp add: find_info_def backend_ptr_def split: option.split)

lemma backend_ptr_waiters [simp]: "backend_ptr (c\<lparr>waiters := ws\<rparr>) = backend_ptr c"
  by (rule ext) (simp add: backend_ptr_def)

lemma model_waiters:
  "model_is_independent_sidecar_locked vt (c\<lparr>waiters := ws\<rparr>) = model_is_independent_sidecar_locked vt c"
  "model_is_priority_media_locked vt (c\<lparr>waiters := ws\<rparr>) = model_is_priority_media_locked vt c"
  "model_is_primary_locked vt (c\<lparr>waiters := ws\<rparr>) = model_is_primary_locked vt c"
  "priority_media_active_locked vt (c\<lparr>waiters := ws\<rparr>) = priority_media_active_locked vt c"
  "admission_pool_allows_locked vt (c\<lparr>waiters := ws\<rparr>) = admission_pool_allows_locked vt c"
  "healthy vt (c\<lparr>waiters := ws\<rparr>) = healthy vt c"
  by (auto simp: fun_eq_iff model_is_independent_sidecar_locked_def model_is_priority_media_locked_def
      model_is_primary_locked_def priority_media_active_locked_def admission_pool_allows_locked_def
      pool_active_def active_of_def healthy_def find_info_waiters cong: option.case_cong)

lemma hold_waiters:
  "continuation_hold_valid_locked vt now (c\<lparr>waiters := ws\<rparr>) = continuation_hold_valid_locked vt now c"
  by (rule ext) (simp add: continuation_hold_valid_locked_def model_waiters cong: option.case_cong)

lemma actionable_waiters:
  "set ws = set (waiters c) \<Longrightarrow>
     request_waits_for_priority_media_locked vt now (c\<lparr>waiters := ws\<rparr>) n k =
     request_waits_for_priority_media_locked vt now c n k"
  by (simp add: request_waits_for_priority_media_locked_def model_waiters list_ex_iff)

section \<open>Leases and slots\<close>





text \<open>
  \<^bold>\<open>C26.\<close> A lease is issued only within the limits: afterwards the model's admission pool runs at
  most \<open>concurrency_limit\<close> requests, or, with automatic concurrency, the model runs at most as many
  as its backend has slots.
\<close>

theorem issue_lease_within_limit:
  assumes "lease_inv c" "issue_lease_locked vt now name slot demand key priority c = (Inr i, c')"
    and "find_info vt c name = Some info"
  shows "(\<not> mi_concurrency_auto info \<longrightarrow>
            pool_active vt c' (mi_admission_pool info) \<le> mi_concurrency_limit info) \<and>
     (mi_concurrency_auto info \<longrightarrow>
        (\<exists>b. backend_ptr c' name = Some b \<and> active_of c' name \<le> bk_n_slots vt b))"
proof -
  note ok = issue_lease_Ok [OF assms(2)]
  let ?l = "make_lease vt now name slot demand key priority c"
  have "active_of (add_lease ?l c) name = active_of c name + 1"
    by (simp add: active_of_def add_lease_def Let_def)
  moreover have "pool_active vt (add_lease ?l c) (mi_admission_pool info) =
      pool_active vt c (mi_admission_pool info) + 1"
    using pool_active_add_lease [OF assms(1), of vt ?l info] assms(3) by simp
  ultimately show ?thesis
    using ok assms(3) by (auto simp: admission_pool_allows_locked_def healthy_def split: option.splits)
qed

theorem issue_lease_within_limit_witness:
  "\<exists>i c'. issue_lease_locked ex_vt 0 ''a'' 0 None [] 0 (coord (ex_loaded ''a'' 40)) = (Inr i, c') \<and>
     pool_active ex_vt c' ''a'' \<le> 1"
proof -
  let ?c = "coord (ex_loaded ''a'' 40)"
  have "case issue_lease_locked ex_vt 0 ''a'' 0 None [] 0 ?c of (r, c) \<Rightarrow> is_ok r" by code_simp
  from pair_ok [OF this] obtain i c'
    where run: "issue_lease_locked ex_vt 0 ''a'' 0 None [] 0 ?c = (Inr i, c')" by (elim exE)
  have "case find_info ex_vt ?c ''a'' of None \<Rightarrow> False | Some info \<Rightarrow>
      \<not> mi_concurrency_auto info \<and> mi_admission_pool info = ''a'' \<and> mi_concurrency_limit info = 1"
    by code_simp
  then obtain info where "find_info ex_vt ?c ''a'' = Some info" "\<not> mi_concurrency_auto info"
    "mi_admission_pool info = ''a''" "mi_concurrency_limit info = 1" by (auto split: option.splits)
  with issue_lease_within_limit [OF world_okD(2) [OF ex_a_ok] run] run show ?thesis by auto
qed

text \<open>
  \<open>release_slot\<close> is idempotent: when it succeeded, the lease is gone and releasing it again
  succeeds without changing anything; an identifier that was never issued is refused and changes
  nothing.
\<close>

theorem release_slot_idempotent:
  assumes "lease_inv c"
  shows "(\<forall>c'. release_slot vt now name i c = (Ok (), c') \<longrightarrow>
            lookup (active_leases c') i = None \<and>
            release_slot vt now' name i c' = (Ok (), c')) \<and>
     (i \<le> 0 \<or> next_lease_id c \<le> i \<longrightarrow>
        release_slot vt now name i c = (Err InvalidArgument ''invalid slot lease'', c))"
proof (intro conjI allI impI)
  have range: "0 < i \<and> i < next_lease_id c" if "lookup (active_leases c) i = Some l" for l
    using assms that by (auto simp: lease_inv_def)
  {
    fix c' assume "release_slot vt now name i c = (Ok (), c')"
    note ok = release_slot_Ok [OF this]
    show "lookup (active_leases c') i = None" by (rule ok(1))
    have "0 < i \<and> i < next_lease_id c'"
      using ok range by (cases "lookup (active_leases c) i") auto
    with ok(1) show "release_slot vt now' name i c' = (Ok (), c')" by (simp add: release_slot_def)
  }
  assume unknown: "i \<le> 0 \<or> next_lease_id c \<le> i"
  then have "lookup (active_leases c) i = None" using range by (cases "lookup (active_leases c) i") auto
  with unknown show "release_slot vt now name i c = (Err InvalidArgument ''invalid slot lease'', c)"
    by (auto simp: release_slot_def)
qed

theorem release_slot_idempotent_witness:
  "case release_slot ex_vt 5 ''a'' 1 (coord ex_busy) of
     (r, c') \<Rightarrow> r = Ok () \<and> lookup (active_leases c') 1 = None \<and>
       release_slot ex_vt 9 ''a'' 1 c' = (Ok (), c')"
proof -
  have "case release_slot ex_vt 5 ''a'' 1 (coord ex_busy) of (r, c') \<Rightarrow> r = Ok ()" by code_simp
  then show ?thesis
    using release_slot_idempotent [OF world_okD(2) [OF ex_busy_ok], of ex_vt 5 "''a''" 1 9]
    by (auto split: prod.splits)
qed

section \<open>The queue\<close>

text \<open>
  \<^bold>\<open>C8.\<close> A blocking \<open>acquire_slot\<close> never leaves its ticket behind: on every return, with a lease or
  with an error, the waiter it enqueued is out of the queue.
\<close>

theorem acquire_slot_leaves_queue:
  assumes "queue_inv (coord w)" "ao_block opts" "acquire_slot vt cbs name opts w = Some (r, w')"
  shows "next_waiter_id (coord w) \<notin> w_id ` set (waiters (coord w'))"
proof (cases "max_queue_size (coord w) \<le> length (waiters (coord w))")
  case True
  then have "w' = w" using assms(2,3) by (auto simp: acquire_slot_def acquire_enqueue_def Err_def)
  with assms(1) show ?thesis by (auto simp: queue_inv_def)
next
  case False
  let ?c = "snd (acquire_enqueue (clk w) name opts (coord w))"
  from False have "acquire_loop vt cbs opts name (next_waiter_id (coord w)) (clk w + ao_timeout opts)
      (w\<lparr>coord := ?c\<rparr>) = Some (r, w')"
    using assms(2,3) by (simp add: acquire_slot_def acquire_enqueue_def Let_def)
  from acquire_loop_not_queued [OF this] show ?thesis by (simp add: not_queued_def)
qed

theorem acquire_slot_leaves_queue_witness:
  "next_waiter_id (coord (ex_loaded ''a'' 40)) \<notin> w_id ` set (waiters (coord ex_busy))"
proof (rule acquire_slot_leaves_queue [OF _ _ ex_busy_run])
  show "queue_inv (coord (ex_loaded ''a'' 40))"
    using world_okD(1) [OF ex_a_ok] by (simp add: coordinator_inv_def)
  show "ao_block ex_options" by (simp add: ex_options_def default_options_def)
qed

text \<open>
  \<^bold>\<open>C7.\<close> \<open>acquire_slot\<close> returns: for every schedule that reaches the caller's deadline, whatever the
  other threads do, a call without preparation callbacks has a result.
\<close>

theorem acquire_slot_returns:
  assumes "no_callbacks opts" "ao_timeout opts \<le> (\<Sum>t \<leftarrow> sched w. int (tk_elapsed t))"
  shows "\<exists>r w'. acquire_slot vt cbs name opts w = Some (r, w')"
proof (cases "ao_block opts")
  case True
  obtain r c where eq: "acquire_enqueue (clk w) name opts (coord w) = (r, c)" by fastforce
  have "\<exists>y. acquire_loop vt cbs opts name wid (clk w + ao_timeout opts) (w\<lparr>coord := c\<rparr>) = Some y"
    for wid using assms by (intro acquire_loop_returns) auto
  with eq True show ?thesis by (cases r) (auto simp: acquire_slot_def)
qed (auto simp: acquire_slot_def split: prod.splits)

theorem acquire_slot_returns_witness:
  "\<exists>r w'. acquire_slot ex_vt ex_callbacks ''b'' ex_options (ex_world 12) = Some (r, w')"
  by (rule acquire_slot_returns) (code_simp, code_simp)

text \<open>
  \<^bold>\<open>C27.\<close> The ticket that may proceed is actionable and, unless a continuation hold reserves its model,
  beats every other candidate: a higher score, or the same score and an older ticket.
\<close>

theorem next_waiter_best:
  assumes "next_waiter_locked vt now c = Some w"
  shows "w \<in> set (waiters c) \<and> waiter_is_actionable_locked vt now c w \<and>
     (lookup (continuation_holds c) (w_model w) = None \<longrightarrow>
        (\<forall>v \<in> set (waiters c). waiter_is_candidate_locked vt now c v \<longrightarrow>
           score_for now v < score_for now w \<or>
           (score_for now v = score_for now w \<and> w_id w \<le> w_id v)))"
proof -
  have "selected_waiter_locked vt now c = Some w" if "lookup (continuation_holds c) (w_model w) = None"
  proof -
    from assms obtain sel where sel: "selected_waiter_locked vt now c = Some sel"
      by (auto simp: next_waiter_locked_def split: option.splits)
    show ?thesis
    proof (cases "lookup (continuation_holds c) (w_model sel)")
      case None
      with assms sel show ?thesis by (simp add: next_waiter_locked_def)
    next
      case (Some hold)
      with assms sel that have "w = sel"
        by (auto simp: next_waiter_locked_def dest: oldest_ticket_Some split: if_splits)
      with sel show ?thesis by simp
    qed
  qed
  with next_waiter_actionable [OF assms] show ?thesis
    using selected_waiter_Some(4) unfolding beats_def by blast
qed

theorem next_waiter_best_witness:
  "\<exists>w. next_waiter_locked ex_vt 100 ex_queue = Some w \<and> w_id w = 2 \<and> score_for 100 w = 5 \<and>
     (\<forall>v \<in> set (waiters ex_queue). waiter_is_candidate_locked ex_vt 100 ex_queue v \<longrightarrow>
        score_for 100 v < 5 \<or> (score_for 100 v = 5 \<and> 2 \<le> w_id v))"
proof -
  have "next_waiter_locked ex_vt 100 ex_queue = Some (ex_waiter 2 5 0)"
    "lookup (continuation_holds ex_queue) (w_model (ex_waiter 2 5 0)) = None"
    "score_for 100 (ex_waiter 2 5 0) = 5" "w_id (ex_waiter 2 5 0) = 2"
    by (code_simp, code_simp, code_simp, code_simp)
  with next_waiter_best [of ex_vt 100 ex_queue] show ?thesis by simp
qed

text \<open>
  The choice does not depend on the order of the queue: any permutation of the same tickets
  selects the same waiter.
\<close>

theorem next_waiter_order_independent:
  assumes "queue_inv c" "mset ws = mset (waiters c)"
  shows "next_waiter_locked vt now (c\<lparr>waiters := ws\<rparr>) = next_waiter_locked vt now c"
proof -
  let ?d = "c\<lparr>waiters := ws\<rparr>"
  have set: "set ws = set (waiters c)" using assms(2) by (rule mset_eq_setD)
  have ids: "distinct (map w_id ws)"
    using assms by (metis mset_eq_imp_distinct_iff mset_map queue_inv_def)
  have sel: "select_best now (filter P ws) = select_best now (filter P (waiters c))" for P
    using set ids by (intro select_best_perm) (auto simp: distinct_map_filter)
  have old: "oldest_ticket (filter P ws) = oldest_ticket (filter P (waiters c))" for P
    using set ids by (intro oldest_ticket_perm) (auto simp: distinct_map_filter)
  note waiters_frame [simp] = find_info_waiters model_waiters hold_waiters
  have ex: "list_ex P ws = list_ex P (waiters c)" for P by (simp add: list_ex_iff set)
  have act: "waiter_is_actionable_locked vt now ?d = waiter_is_actionable_locked vt now c"
    by (rule ext) (simp add: waiter_is_actionable_locked_def ex set actionable_waiters)
  have bar: "resource_barrier_locked vt now ?d = resource_barrier_locked vt now c"
    by (simp add: resource_barrier_locked_def sel waiter_is_resource_barrier_locked_def [abs_def])
  have cand: "waiter_is_candidate_locked vt now ?d = waiter_is_candidate_locked vt now c"
    by (rule ext) (simp add: waiter_is_candidate_locked_def act bar ex)
  show ?thesis
    by (simp add: next_waiter_locked_def selected_waiter_locked_def act bar cand sel old ex
        cong: option.case_cong if_cong)
qed

theorem next_waiter_order_independent_witness:
  "next_waiter_locked ex_vt 100 (ex_queue\<lparr>waiters := [ex_waiter 2 5 0, ex_waiter 1 0 0]\<rparr>)
     = Some (ex_waiter 2 5 0)"
proof -
  have "next_waiter_locked ex_vt 100 ex_queue = Some (ex_waiter 2 5 0)"
    "waiters ex_queue = [ex_waiter 1 0 0, ex_waiter 2 5 0]" "next_waiter_id ex_queue = 3"
    by (code_simp, code_simp, code_simp)
  moreover from this have "queue_inv ex_queue"
    by (simp add: queue_inv_def ex_waiter_def new_waiter_def ex_options_def default_options_def)
  ultimately show ?thesis
    using next_waiter_order_independent [of ex_queue "[ex_waiter 2 5 0, ex_waiter 1 0 0]" ex_vt 100]
    by simp
qed



text \<open>
  The listing of the queue shows every ticket exactly once, at positions 1, 2, ..., with
  the ticket that may proceed among the actionable ones first: the entries are sorted by the order
  the coordinator serves them in.
\<close>

theorem queue_lists_every_ticket:
  "mset (map qi_id (queue vt now c)) = mset (map w_id (waiters c)) \<and>
   map qi_position (queue vt now c) = [1..<Suc (length (waiters c))] \<and>
   (\<exists>ws. map qi_id (queue vt now c) = map w_id ws \<and> mset ws = mset (waiters c) \<and>
         sorted (map (queue_order_key vt now c) ws))"
proof -
  let ?ws = "sort_key (queue_order_key vt now c) (waiters c)"
  have "map qi_id (queue vt now c) = map w_id (map snd (enumerate 0 ?ws))"
    unfolding queue_def map_map by (rule map_cong) (auto simp: queue_entry_def)
  then have "map qi_id (queue vt now c) = map w_id ?ws" by (simp del: map_map)
  then show ?thesis using queue_ids queue_positions by (metis mset_sort sorted_sort_key)
qed

text \<open>
  The non-blocking call never jumps the queue: it returns a lease only when nobody waits, the
  model is loaded and healthy, is neither draining nor resizing, does not have to make way for
  priority media and is not held for another conversation of at least the same priority.
\<close>

theorem nonblocking_never_overtakes:
  assumes "acquire_nonblocking vt now name opts c = (Inr i, c')"
  shows "waiters c = [] \<and> healthy vt c name \<and> name \<notin> draining_models c \<and> name \<notin> resizing_models c \<and>
     admission_pool_allows_locked vt c name \<and>
     \<not> request_waits_for_priority_media_locked vt now c name (ao_reservation_key opts) \<and>
     \<not> hold_blocks vt now opts name c"
  using assms
  by (auto simp: acquire_nonblocking_def healthy_def split: if_splits option.splits)

theorem nonblocking_never_overtakes_witness:
  "waiters (coord (ex_loaded ''a'' 40)) = [] \<and> healthy ex_vt (coord (ex_loaded ''a'' 40)) ''a''"
proof -
  have "case acquire_nonblocking ex_vt 7 ''a'' default_options (coord (ex_loaded ''a'' 40)) of
      (r, c) \<Rightarrow> is_ok r" by code_simp
  from pair_ok [OF this] obtain i c' where
    "acquire_nonblocking ex_vt 7 ''a'' default_options (coord (ex_loaded ''a'' 40)) = (Inr i, c')"
    by (elim exE)
  from nonblocking_never_overtakes [OF this] show ?thesis by blast
qed

section \<open>Priority sessions\<close>

text \<open>
  A reserved voice session answers only to its own token: it matches its model until its
  deadline, and refreshing, completing or releasing it with any other token, such as one from an
  earlier reservation of the same key, changes nothing.
\<close>

theorem session_answers_to_its_token:
  assumes "key \<noteq> []" "model \<noteq> []" "0 < d" "t \<noteq> next_priority_session_token c"
    and "reserve_priority_session now key model d c = (token, c')"
  shows "token = next_priority_session_token c \<and>
     (\<forall>at < now + d. priority_session_matches at key model c') \<and>
     release_priority_session key t c' = c' \<and>
     refresh_priority_session at' key t d' c' = (False, c') \<and>
     complete_priority_session_hold at' key t d' c' = c' \<and>
     (\<forall>m. priority_session_matches at' key m (release_priority_session key token c') = False)"
proof -
  have token: "token = next_priority_session_token c"
    and sess: "lookup (priority_sessions c') key =
      Some \<lparr>s_model = model, s_deadline = now + d, s_token = token, s_active_holds = 0\<rparr>"
    using assms by (auto simp: reserve_priority_session_def Let_def)
  have "release_priority_session key t c' = c'" "refresh_priority_session at' key t d' c' = (False, c')"
    "complete_priority_session_hold at' key t d' c' = c'"
    using sess token assms(4)
    by (simp_all add: release_priority_session_def refresh_priority_session_def
        complete_priority_session_hold_def)
  moreover have "priority_session_matches at key model c'" if "at < now + d" for at
    using sess that by (simp add: priority_session_matches_def)
  moreover have "lookup (priority_sessions (release_priority_session key token c')) key = None"
    using sess by (simp add: release_priority_session_def)
  ultimately show ?thesis using token by (simp add: priority_session_matches_def)
qed

theorem session_answers_to_its_token_witness:
  "\<exists>c'. reserve_priority_session 0 ''voice'' ''a'' 10 ex_queue = (1, c') \<and>
     release_priority_session ''voice'' 7 c' = c' \<and> priority_session_matches 5 ''voice'' ''a'' c'"
proof -
  have tok: "next_priority_session_token ex_queue = 1" by code_simp
  obtain t c' where run: "reserve_priority_session 0 ''voice'' ''a'' 10 ex_queue = (t, c')"
    by (cases "reserve_priority_session 0 ''voice'' ''a'' 10 ex_queue")
  from session_answers_to_its_token [OF _ _ _ _ run, of 7 0 0] run tok show ?thesis by simp
qed

end
