(* ===== verification/Lifecycle_Properties.thy ===== *)
theory Lifecycle_Properties
  imports Example_Deployment
begin

text \<open>
  What loading, unloading, making room, swapping and dispatching promise, under every interleaving
  with the shared steps of the other threads, and two places where the code falls short of its
  documentation.
\<close>

section \<open>Shared facts\<close>

lemma evict_step_mono: "v \<le> snd (evict_step vt name c x (n, v))"
  by (cases x) (simp add: evict_step_def)

lemma evict_fold_mono: "fold (evict_step vt name c) xs (n0, v0) = (n, v) \<Longrightarrow> v0 \<le> v"
proof (induction xs arbitrary: n0 v0)
  case (Cons x xs)
  obtain n1 v1 where "evict_step vt name c x (n0, v0) = (n1, v1)" by fastforce
  with Cons evict_step_mono [of v0 vt name c x n0] show ?case by fastforce
qed simp

lemma evict_fold_ge:
  assumes "fold (evict_step vt name c) xs (n0, v0) = (n, v)" "(m, d) \<in> set xs"
    "evict_eligible vt name c (m, d)"
  shows "current_estimate vt d \<le> v"
  using assms
proof (induction xs arbitrary: n0 v0)
  case (Cons x xs)
  obtain n1 v1 where step: "evict_step vt name c x (n0, v0) = (n1, v1)" by fastforce
  with Cons.prems have rest: "fold (evict_step vt name c) xs (n1, v1) = (n, v)" by simp
  show ?case
  proof (cases "x = (m, d)")
    case True
    with step Cons.prems have "current_estimate vt d \<le> v1"
      by (auto simp: evict_step_def split: if_splits)
    with evict_fold_mono [OF rest] show ?thesis by simp
  next
    case False
    with Cons rest show ?thesis by auto
  qed
qed simp

text \<open>The primary selection: the pair it carries beats what it has seen.\<close>

definition outranks :: "string option \<times> int \<Rightarrow> string \<times> int \<Rightarrow> bool" where
  "outranks s x = (snd x < snd s \<or> (snd x = snd s \<and> (case fst s of None \<Rightarrow> False | Some n \<Rightarrow> n \<le> fst x)))"

lemma select_primary_step_outranks:
  assumes "select_primary_step vt (m, d) s = s'"
  shows "(is_primary_model (bk_info vt d) \<longrightarrow> outranks s' (m, current_estimate vt d)) \<and>
     (\<forall>x. outranks s x \<longrightarrow> outranks s' x) \<and>
     (s' = s \<or> (is_primary_model (bk_info vt d) \<and> s' = (Some m, current_estimate vt d)))"
  using assms
  by (cases s) (auto simp: select_primary_step_def outranks_def Let_def split: if_splits option.splits)

lemma select_primary_fold_gen:
  assumes "fold (select_primary_step vt) xs s = s'"
  shows "(\<forall>m d. (m, d) \<in> set xs \<and> is_primary_model (bk_info vt d) \<longrightarrow>
            outranks s' (m, current_estimate vt d)) \<and>
     (\<forall>x. outranks s x \<longrightarrow> outranks s' x) \<and>
     (s' = s \<or> (\<exists>m d. (m, d) \<in> set xs \<and> is_primary_model (bk_info vt d) \<and>
        s' = (Some m, current_estimate vt d)))"
  using assms
proof (induction xs arbitrary: s)
  case (Cons x xs)
  obtain m d where x: "x = (m, d)" by (cases x)
  obtain s1 where s1: "select_primary_step vt (m, d) s = s1" by simp
  with Cons.prems x have "fold (select_primary_step vt) xs s1 = s'" by simp
  from Cons.IH [OF this] select_primary_step_outranks [OF s1] x show ?case by fastforce
qed simp

lemma select_primary_fold:
  assumes "fold (select_primary_step vt) xs (None, -1) = (Some n, v)"
  shows "(\<exists>b. (n, b) \<in> set xs \<and> is_primary_model (bk_info vt b) \<and> v = current_estimate vt b) \<and>
     (\<forall>m d. (m, d) \<in> set xs \<and> is_primary_model (bk_info vt d) \<longrightarrow>
        current_estimate vt d < v \<or> (current_estimate vt d = v \<and> n \<le> m))"
  using select_primary_fold_gen [OF assms] by (auto simp: outranks_def)

section \<open>Unloading and loading\<close>

text \<open>
  \<^bold>\<open>C3.\<close> \<open>unload\<close> never takes a backend away from a running request: when it succeeds the model is
  absent and holds no lease; when it fails the model is there exactly if it was before. Either way
  the coordinator stays consistent and every other model keeps its backend, loaded as before.
\<close>

theorem unload_safe:
  assumes "backend_contract vt bok" "world_ok vt bok w"
    and "unload_with_control vt held name ctl w = Some (r, w')"
  shows "coordinator_inv vt bok (coord w') \<and>
     (is_ok r \<longrightarrow> backend_ptr (coord w') name = None \<and>
        (\<forall>i l. lookup (active_leases (coord w')) i = Some l \<longrightarrow> l_model l \<noteq> name)) \<and>
     (\<not> is_ok r \<longrightarrow> (backend_ptr (coord w') name = None) = (backend_ptr (coord w) name = None)) \<and>
     (\<forall>n. n \<noteq> name \<longrightarrow> resident vt (coord w') n = resident vt (coord w) n)"
proof -
  note ok = backend_contract.unload_with_control_ok [OF assms]
  then have inv: "slot_inv vt bok (coord w')" "coordinator_inv vt bok (coord w')"
    using world_okD by blast+
  have "l_model l \<noteq> name" if "backend_ptr (coord w') name = None"
    "lookup (active_leases (coord w')) i = Some l" for i l
    using no_lease_when_absent [OF inv(1) _ that(2), of name] that(1) by (simp add: resident_def)
  moreover have "resident vt (coord w') n = resident vt (coord w) n" if "n \<noteq> name" for n
    using ok that others_kept_resident [of vt "{name}" "coord w" "coord w'" n] by simp
  ultimately show ?thesis using ok inv by blast
qed

theorem unload_safe_witness:
  "\<exists>w'. unload_with_control ex_vt {} ''a'' default_control (ex_loaded ''a'' 40) = Some (Ok (), w') \<and>
     backend_ptr (coord w') ''a'' = None"
proof -
  have "case unload_with_control ex_vt {} ''a'' default_control (ex_loaded ''a'' 40) of
      None \<Rightarrow> False | Some (r, w) \<Rightarrow> is_ok r \<and> True" by code_simp
  from run_ok [OF this] obtain x w' where run:
    "unload_with_control ex_vt {} ''a'' default_control (ex_loaded ''a'' 40) = Some (Inr x, w')"
    by (elim exE conjE)
  from unload_safe [OF whisper.backend_contract_axioms ex_a_ok run] run show ?thesis by auto
qed

text \<open>
  \<^bold>\<open>C29.\<close> When \<open>load\<close> succeeds the model is resident; it changes no other model and leaves the
  coordinator consistent, also when it fails or recovers an unhealthy backend.
\<close>

theorem load_makes_resident:
  assumes "backend_contract vt bok" "world_ok vt bok w"
    and "load_with_lock_deadline vt held name ctl w = Some (r, w')"
  shows "coordinator_inv vt bok (coord w') \<and> (is_ok r \<longrightarrow> resident vt (coord w') name) \<and>
     (\<forall>n. n \<noteq> name \<longrightarrow> resident vt (coord w') n = resident vt (coord w) n)"
proof -
  note ok = backend_contract.load_with_lock_deadline_ok [OF assms]
  moreover have "resident vt (coord w') n = resident vt (coord w) n" if "n \<noteq> name" for n
    using ok that others_kept_resident [of vt "{name}" "coord w" "coord w'" n] by simp
  ultimately show ?thesis using world_okD(1) by blast
qed

theorem load_makes_resident_witness:
  "\<exists>w'. load_with_lock_deadline ex_vt {} ''b'' default_control (ex_loaded ''a'' 40) = Some (Ok (), w') \<and>
     resident ex_vt (coord w') ''b''"
proof -
  have "case load_with_lock_deadline ex_vt {} ''b'' default_control (ex_loaded ''a'' 40) of
      None \<Rightarrow> False | Some (r, w) \<Rightarrow> is_ok r \<and> True" by code_simp
  from run_ok [OF this] obtain x w' where run:
    "load_with_lock_deadline ex_vt {} ''b'' default_control (ex_loaded ''a'' 40) = Some (Inr x, w')"
    by (elim exE conjE)
  from load_makes_resident [OF whisper.backend_contract_axioms ex_a_ok run] run show ?thesis by auto
qed

section \<open>Making room\<close>

text \<open>
  \<^bold>\<open>C5.\<close> When \<open>prepare_capacity_for\<close> succeeds, there is room: the model is resident already, no VRAM
  budget is configured (and no forced reclaim was asked for), or its declared VRAM fits what the
  ledger has available at that moment.
\<close>

theorem prepare_capacity_makes_room:
  assumes "backend_contract vt bok" "world_ok vt bok w"
    and "prepare_capacity_for vt held name ctl force w = Some (Ok (), w')"
  shows "coordinator_inv vt bok (coord w') \<and>
     (resident vt (coord w') name \<or> (\<not> force \<and> vram_budget_mb (coord w') \<le> 0) \<or>
      (\<exists>info. get_info_result (registry (coord w')) name = Inr info \<and>
         mi_vram_required_mb info \<le> available_vram_locked vt (clk w') (coord w')))"
  using backend_contract.prepare_capacity_for_ok [OF assms] world_okD(1)
  by (auto simp: fits_def)

theorem prepare_capacity_makes_room_witness:
  "\<exists>w'. prepare_capacity_for ex_vt {SwapMutex} ''b'' default_control False (ex_loaded ''a'' 40)
          = Some (Ok (), w') \<and>
     \<not> resident ex_vt (coord w') ''a'' \<and> coordinator_inv ex_vt whisper_wf (coord w')"
proof -
  have "case prepare_capacity_for ex_vt {SwapMutex} ''b'' default_control False (ex_loaded ''a'' 40) of
      None \<Rightarrow> False | Some (r, w) \<Rightarrow> is_ok r \<and> \<not> resident ex_vt (coord w) ''a''" by code_simp
  from run_ok [OF this] obtain x w' where run:
    "prepare_capacity_for ex_vt {SwapMutex} ''b'' default_control False (ex_loaded ''a'' 40)
       = Some (Inr x, w')" and absent: "\<not> resident ex_vt (coord w') ''a''"
    by (elim exE conjE)
  from run have "prepare_capacity_for ex_vt {SwapMutex} ''b'' default_control False
      (ex_loaded ''a'' 40) = Some (Ok (), w')" by simp
  from prepare_capacity_makes_room [OF whisper.backend_contract_axioms ex_a_ok this] this absent
  show ?thesis by blast
qed

text \<open>
  \<^bold>\<open>C6.\<close> Making room never costs an always-resident model: whatever the outcome, every loaded model
  with residency \<open>Always\<close> is still loaded, and no model is left marked as resizing.
\<close>

theorem prepare_capacity_keeps_pinned:
  assumes "backend_contract vt bok" "world_ok vt bok w"
    and "prepare_capacity_for vt held name ctl force w = Some (r, w')"
    and "backend_ptr (coord w) n = Some b" "bk_is_loaded vt b" "mi_residency (bk_info vt b) = Always"
  shows "(\<exists>b'. backend_ptr (coord w') n = Some b' \<and> bk_is_loaded vt b' \<and> bk_info vt b' = bk_info vt b) \<and>
     resizing_models (coord w') \<subseteq> resizing_models (coord w)"
proof -
  have "room_rel vt (coord w) (coord w')"
    using backend_contract.prepare_capacity_for_ok [OF assms(1-3)] by blast
  moreover have "pinned vt (coord w) n (bk_info vt b)" using assms(4-6) by (simp add: pinned_def)
  ultimately have "pinned vt (coord w') n (bk_info vt b)"
    "resizing_models (coord w') \<subseteq> resizing_models (coord w)" by (simp_all add: room_rel_def)
  then show ?thesis by (cases "backend_ptr (coord w') n") (simp_all add: pinned_def)
qed

theorem prepare_capacity_keeps_pinned_witness:
  "\<exists>r w' b'. prepare_capacity_for ex_vt {SwapMutex} ''b'' default_control False
       (ex_loaded ''cpu'' 40) = Some (r, w') \<and>
     backend_ptr (coord w') ''cpu'' = Some b' \<and> bk_is_loaded ex_vt b'"
proof -
  have "case prepare_capacity_for ex_vt {SwapMutex} ''b'' default_control False (ex_loaded ''cpu'' 40) of
      None \<Rightarrow> False | Some (r, w) \<Rightarrow> is_ok r \<and> True" by code_simp
  from run_ok [OF this] obtain x w' where run:
    "prepare_capacity_for ex_vt {SwapMutex} ''b'' default_control False (ex_loaded ''cpu'' 40)
       = Some (Inr x, w')" by (elim exE conjE)
  have "case backend_ptr (coord (ex_loaded ''cpu'' 40)) ''cpu'' of None \<Rightarrow> False
      | Some b \<Rightarrow> bk_is_loaded ex_vt b \<and> mi_residency (bk_info ex_vt b) = Always" by code_simp
  then obtain b where "backend_ptr (coord (ex_loaded ''cpu'' 40)) ''cpu'' = Some b"
    "bk_is_loaded ex_vt b" "mi_residency (bk_info ex_vt b) = Always" by (auto split: option.splits)
  from prepare_capacity_keeps_pinned [OF whisper.backend_contract_axioms ex_cpu_ok run this] run
  show ?thesis by blast
qed

text \<open>
  The model chosen for eviction is loaded, idle, eviction eligible, not always resident and
  not the model room is made for; and no other evictable model would free more VRAM.
\<close>

theorem evict_candidate_largest:
  assumes "slot_inv vt bok c" "evict_candidate vt name c = n" "n \<noteq> []"
  shows "\<exists>b. backend_ptr c n = Some b \<and> bk_is_loaded vt b \<and> evict_eligible vt name c (n, b) \<and>
     (\<forall>m d. backend_ptr c m = Some d \<and> bk_is_loaded vt d \<and> evict_eligible vt name c (m, d) \<longrightarrow>
        current_estimate vt d \<le> current_estimate vt b)"
proof -
  obtain v where fold: "fold (evict_step vt name c) (loaded_instances vt c) ([], 0) = (n, v)"
    using assms(2) by (metis evict_candidate_def prod.collapse)
  have mem: "(m, d) \<in> set (loaded_instances vt c) \<longleftrightarrow> backend_ptr c m = Some d \<and> bk_is_loaded vt d"
    for m d using assms(1) by (intro loaded_instances_iff) (simp add: slot_inv_def)
  from evict_fold [OF fold] assms(3) obtain b where b: "(n, b) \<in> set (loaded_instances vt c)"
    "evict_eligible vt name c (n, b)" "v = current_estimate vt b" by auto
  have "current_estimate vt d \<le> v"
    if "(m, d) \<in> set (loaded_instances vt c)" "evict_eligible vt name c (m, d)" for m d
    using evict_fold_ge [OF fold] that by blast
  with b mem show ?thesis by blast
qed

theorem evict_candidate_largest_witness:
  "\<exists>b. backend_ptr (coord (ex_loaded ''a'' 40)) ''a'' = Some b \<and> bk_is_loaded ex_vt b \<and>
     evict_eligible ex_vt ''b'' (coord (ex_loaded ''a'' 40)) (''a'', b)"
proof -
  have "evict_candidate ex_vt ''b'' (coord (ex_loaded ''a'' 40)) = ''a''" by code_simp
  from evict_candidate_largest [OF world_okD(3) [OF ex_a_ok] this] show ?thesis by auto
qed

text \<open>
  The VRAM the ledger offers never overcommits: with the safety margin and what the loaded
  models account for it stays within the budget, and, while the telemetry is fresh, within the
  memory it observed. It is never negative.
\<close>

theorem available_vram_within_budget:
  "0 \<le> available_vram_locked vt now c \<and>
   (0 < available_vram_locked vt now c \<longrightarrow>
      (\<not> live_vram_observation_usable_locked vt now c \<longrightarrow>
         available_vram_locked vt now c + vram_safety_margin_mb c + estimated_vram_locked vt c
           \<le> vram_budget_mb c) \<and>
      (live_vram_observation_fresh_locked now c \<longrightarrow>
         available_vram_locked vt now c + vram_safety_margin_mb c + observed_vram_used_mb c
           + (\<Sum>(n, b) \<leftarrow> loaded_instances vt c. live_reserve vt b)
           \<le> min (vram_budget_mb c) (observed_vram_total_mb c)))"
  by (auto simp: available_vram_locked_def clamp_def INT_MAX_def Let_def
      live_vram_observation_usable_locked_def)

theorem available_vram_within_budget_witness:
  "available_vram_locked ex_vt 7 (coord (ex_loaded ''a'' 40)) = 1000 \<and>
   available_vram_locked ex_vt 7 (coord (ex_loaded ''a'' 40))
     + vram_safety_margin_mb (coord (ex_loaded ''a'' 40))
     + estimated_vram_locked ex_vt (coord (ex_loaded ''a'' 40))
     \<le> vram_budget_mb (coord (ex_loaded ''a'' 40))"
proof -
  have "available_vram_locked ex_vt 7 (coord (ex_loaded ''a'' 40)) = 1000"
    "\<not> live_vram_observation_usable_locked ex_vt 7 (coord (ex_loaded ''a'' 40))"
    by (code_simp, code_simp)
  with available_vram_within_budget [of ex_vt 7 "coord (ex_loaded ''a'' 40)"] show ?thesis by simp
qed

text \<open>
  The primary model is the loaded conversation model with the largest VRAM estimate, the
  alphabetically first among equals, whatever order the container lists the models in.
\<close>

theorem select_primary_largest:
  assumes "keys_distinct (instances c)" "current_loaded (select_primary_locked vt c) = Some n"
  shows "\<exists>b. backend_ptr c n = Some b \<and> bk_is_loaded vt b \<and> is_primary_model (bk_info vt b) \<and>
     (\<forall>m d. backend_ptr c m = Some d \<and> bk_is_loaded vt d \<and> is_primary_model (bk_info vt d) \<longrightarrow>
        current_estimate vt d < current_estimate vt b \<or>
        (current_estimate vt d = current_estimate vt b \<and> n \<le> m))"
proof -
  obtain v where fold:
    "fold (select_primary_step vt) (loaded_instances vt c) (None, -1) = (Some n, v)"
    using assms(2) by (cases "fold (select_primary_step vt) (loaded_instances vt c) (None, -1)")
      (simp add: select_primary_locked_def)
  have mem: "(m, d) \<in> set (loaded_instances vt c) \<longleftrightarrow> backend_ptr c m = Some d \<and> bk_is_loaded vt d"
    for m d by (rule loaded_instances_iff [OF assms(1)])
  from select_primary_fold [OF fold] obtain b where "(n, b) \<in> set (loaded_instances vt c)"
    "is_primary_model (bk_info vt b)" "v = current_estimate vt b" by auto
  moreover have "current_estimate vt d < v \<or> (current_estimate vt d = v \<and> n \<le> m)"
    if "(m, d) \<in> set (loaded_instances vt c)" "is_primary_model (bk_info vt d)" for m d
    using select_primary_fold [OF fold] that by auto
  ultimately show ?thesis using mem by blast
qed

definition ex_conversation :: "string \<Rightarrow> int \<Rightarrow> whisper_backend" where
  "ex_conversation name vram =
     (make_whisper_backend (default_model_info\<lparr>mi_name := name, mi_vram_required_mb := vram\<rparr>))
       \<lparr>fb_loaded := True, wb_context := True\<rparr>"

definition ex_primaries :: "whisper_backend coordinator" where
  "ex_primaries = (init_coordinator ex_registry)\<lparr>instances :=
     [(''p'', Some (ex_conversation ''p'' 10)), (''q'', Some (ex_conversation ''q'' 20)),
      (''r'', Some (ex_conversation ''r'' 20))]\<rparr>"

theorem select_primary_largest_witness:
  "\<exists>b. backend_ptr ex_primaries ''q'' = Some b \<and>
     (\<forall>m d. backend_ptr ex_primaries m = Some d \<and> bk_is_loaded ex_vt d \<and>
        is_primary_model (bk_info ex_vt d) \<longrightarrow>
        current_estimate ex_vt d < current_estimate ex_vt b \<or>
        (current_estimate ex_vt d = current_estimate ex_vt b \<and> ''q'' \<le> m))"
proof -
  have "keys_distinct (instances ex_primaries)"
    "current_loaded (select_primary_locked ex_vt ex_primaries) = Some ''q''"
    by (code_simp, code_simp)
  from select_primary_largest [OF this] show ?thesis by blast
qed

section \<open>Swapping\<close>

text \<open>
  \<^bold>\<open>C4.\<close> When a swap succeeds the target is resident; success or not, the coordinator is consistent
  and the swap-in-progress flag is down again.
\<close>

theorem swap_makes_resident:
  assumes "backend_contract vt bok" "world_ok vt bok w" "\<not> swap_in_progress (coord w)"
    and "swap_to_cancellable vt name timeout cancelled w = Some (r, w')"
  shows "coordinator_inv vt bok (coord w') \<and> \<not> swap_in_progress (coord w') \<and>
     (is_ok r \<longrightarrow> resident vt (coord w') name)"
  using backend_contract.swap_to_cancellable_ok [OF assms(1,2,4)]
    backend_contract.swap_flag_down [OF assms] world_okD(1) by blast

theorem swap_makes_resident_witness:
  "\<exists>w'. swap_to_cancellable ex_vt ''b'' 100000 None (ex_loaded ''a'' 40) = Some (Ok (), w') \<and>
     resident ex_vt (coord w') ''b'' \<and> \<not> resident ex_vt (coord w') ''a''"
proof -
  have "case swap_to_cancellable ex_vt ''b'' 100000 None (ex_loaded ''a'' 40) of
      None \<Rightarrow> False | Some (r, w) \<Rightarrow> is_ok r \<and> \<not> resident ex_vt (coord w) ''a''" by code_simp
  from run_ok [OF this] obtain x w' where run:
    "swap_to_cancellable ex_vt ''b'' 100000 None (ex_loaded ''a'' 40) = Some (Inr x, w')"
    and gone: "\<not> resident ex_vt (coord w') ''a''" by (elim exE conjE)
  have "\<not> swap_in_progress (coord (ex_loaded ''a'' 40))" by code_simp
  from swap_makes_resident [OF whisper.backend_contract_axioms ex_a_ok this run] run gone
  show ?thesis by auto
qed

text \<open>
  A swap that runs out of time between the eviction and the load leaves neither model resident: the
  evicted model is not brought back, although the design promises to preserve or restore the
  previous usable residency.
\<close>

theorem failed_swap_loses_residency:
  "case swap_to_cancellable ex_vt ''b'' 40 None (ex_loaded ''a'' 40) of
     None \<Rightarrow> False
   | Some (r, w) \<Rightarrow> result_code r = Timeout \<and> resident ex_vt (coord (ex_loaded ''a'' 40)) ''a'' \<and>
       \<not> resident ex_vt (coord w) ''a'' \<and> \<not> resident ex_vt (coord w) ''b''"
  by code_simp

text \<open>
  A cancellation that arrives after a swap to a ready model was answered stays pending and cancels
  the next swap before it starts.
\<close>

theorem stale_cancel_hits_next_swap:
  "case swap_to_cancellable ex_vt ''a'' 100000 None
        (section_of request_swap_cancel (ex_loaded ''a'' 40)) of
     None \<Rightarrow> False
   | Some (r, w) \<Rightarrow> is_ok r \<and>
       (case swap_to_cancellable ex_vt ''b'' 100000 None w of
          None \<Rightarrow> False | Some (r', w') \<Rightarrow> result_code r' = Cancelled)"
  by code_simp

section \<open>Dispatching and draining\<close>

text \<open>
  \<^bold>\<open>C31.\<close> A request runs only on the slot its lease stands for: whatever modality method \<open>call\<close> is
  dispatched, it is called on the model's loaded backend with a slot that is in use for exactly
  this lease. In every other case the answer is an error that does not depend on the method.
\<close>

theorem dispatch_on_leased_slot:
  fixes dispatch :: "('b \<Rightarrow> int \<Rightarrow> 'r result) \<Rightarrow> string \<Rightarrow> int \<Rightarrow> 'b coordinator \<Rightarrow> 'r result"
  assumes "slot_inv vt bok c"
    and "dispatch \<in> {\<lambda>call n i c. fst (predict vt call n i c),
       \<lambda>call n i c. fst (predict_stream vt call n i c), embed vt, generate_images vt,
       generate_audio vt, generate_video vt, synthesize vt, transcribe vt}"
  shows "(\<exists>b l. backend_ptr c name = Some b \<and> bk_is_loaded vt b \<and>
            lookup (active_leases c) i = Some l \<and> l_model l = name \<and>
            bk_slot_busy vt (l_backend_slot l) b \<and>
            (\<forall>call. dispatch call name i c = call b (l_backend_slot l))) \<or>
     (\<exists>e. \<forall>call. dispatch call name i c = Inl e)"
proof -
  define G where "G = (\<lambda>iface cap refusal (call :: 'b \<Rightarrow> int \<Rightarrow> 'r result) n i c.
     run_target call (dispatch_target vt iface cap refusal n i c))"
  note defs = G_def predict_def predict_stream_def predict_target_def embed_def generate_images_def
    generate_audio_def generate_video_def synthesize_def transcribe_def fun_eq_iff Let_def
  have shapes:
    "(\<lambda>call n i c. fst (predict vt call n i c))
       = G IModel ''chat_completions'' ''backend does not support text generation: ''"
    "(\<lambda>call n i c. fst (predict_stream vt call n i c))
       = G IModel ''chat_completions'' ''backend does not support text generation: ''"
    "embed vt = G IEmbeddingBackend ''embeddings'' ''backend does not support embeddings: ''"
    "generate_images vt
       = G IImageBackend ''image_generation'' ''backend does not support image generation: ''"
    "generate_audio vt
       = G IAudioGenerationBackend ''audio_generation'' ''backend does not support audio generation: ''"
    "generate_video vt
       = G IVideoBackend ''video_generation'' ''backend does not support video generation: ''"
    "synthesize vt
       = G ISpeechBackend ''audio_speech'' ''backend does not support speech synthesis: ''"
    "transcribe vt
       = G ITranscriptionBackend ''audio_transcription'' ''backend does not support transcription: ''"
    by (simp_all add: defs)
  have "\<exists>iface cap refusal. dispatch = G iface cap refusal"
    using assms(2) unfolding shapes by blast
  then obtain iface cap refusal where
    d: "dispatch = (\<lambda>call n i c. run_target call (dispatch_target vt iface cap refusal n i c))"
    by (auto simp: G_def)
  show ?thesis
  proof (cases "dispatch_target vt iface cap refusal name i c")
    case (Inl e)
    then show ?thesis by (auto simp: d run_target_def)
  next
    case (Inr t)
    obtain b slot where t: "t = (b, slot)" by (cases t)
    from dispatch_target_Ok [OF Inr [unfolded t]] obtain l where
      l: "backend_ptr c name = Some b" "lookup (active_leases c) i = Some l" "l_model l = name"
        "l_backend_slot l = slot" by blast
    moreover from slot_inv_lease [OF assms(1) l(2)] l(1,3,4)
    have "bk_is_loaded vt b" "bk_slot_busy vt slot b" by auto
    moreover have "dispatch call name i c = call b slot" for call
      using Inr t by (simp add: d run_target_def)
    ultimately show ?thesis by blast
  qed
qed

theorem dispatch_on_leased_slot_witness:
  "\<exists>b l. lookup (active_leases (coord ex_busy)) 1 = Some l \<and>
     bk_slot_busy ex_vt (l_backend_slot l) b \<and>
     (\<forall>call :: whisper_backend \<Rightarrow> int \<Rightarrow> int result.
        transcribe ex_vt call ''a'' 1 (coord ex_busy) = call b (l_backend_slot l))"
proof -
  have runs: "transcribe ex_vt (\<lambda>b s. Ok s) ''a'' 1 (coord ex_busy) = Ok 0" by code_simp
  have "\<not> (\<exists>e. \<forall>call :: whisper_backend \<Rightarrow> int \<Rightarrow> int result.
      transcribe ex_vt call ''a'' 1 (coord ex_busy) = Inl e)"
    using runs by (metis Inl_Inr_False)
  with dispatch_on_leased_slot [OF world_okD(3) [OF ex_busy_ok], of "transcribe ex_vt" "''a''" 1]
  show ?thesis by blast
qed

text \<open>
  Growing a model for a request keeps the coordinator consistent and always takes its resizing
  mark off again, also when the backend throws.
\<close>

theorem prepare_request_capacity_unmarks:
  assumes "backend_contract vt bok" "world_ok vt bok w"
    and "prepare_request_capacity vt held name demand ctl w = Some (r, w')"
  shows "coordinator_inv vt bok (coord w') \<and> resizing_models (coord w') = resizing_models (coord w)"
  using backend_contract.prepare_request_capacity_ok [OF assms] world_okD(1) by blast

theorem prepare_request_capacity_unmarks_witness:
  "\<exists>r w'. prepare_request_capacity ex_vt {} ''a''
       \<lparr>prompt_positions = 1, output_tokens = 1, required_context = 2, required_sequences = 1,
        aggregate_context = 2, aggregate_sequences = 1\<rparr> default_control (ex_loaded ''a'' 40)
       = Some (r, w') \<and> result_code r = InvalidArgument \<and>
     resizing_models (coord w') = resizing_models (coord (ex_loaded ''a'' 40))"
proof -
  let ?run = "prepare_request_capacity ex_vt {} ''a''
       \<lparr>prompt_positions = 1, output_tokens = 1, required_context = 2, required_sequences = 1,
        aggregate_context = 2, aggregate_sequences = 1\<rparr> default_control (ex_loaded ''a'' 40)"
  have "case ?run of None \<Rightarrow> False | Some (r, w) \<Rightarrow> result_code r = InvalidArgument" by code_simp
  then obtain r w' where run: "?run = Some (r, w')" "result_code r = InvalidArgument"
    by (cases ?run) auto
  from prepare_request_capacity_unmarks [OF whisper.backend_contract_axioms ex_a_ok run(1)] run
  show ?thesis by blast
qed

text \<open>
  \<open>drain_active\<close> returns on every schedule that reaches its timeout, and when it does, no
  request is running or the timeout has passed.
\<close>

theorem drain_active_returns:
  assumes "timeout \<le> (\<Sum>t \<leftarrow> sched w. int (tk_elapsed t))"
  shows "\<exists>w'. drain_active timeout w = Some w' \<and>
     (active_request_count (coord w') \<le> 0 \<or> clk w + timeout \<le> clk w')"
  using drain_until_returns [of "clk w + timeout" w] assms
  by (simp add: drain_active_def active_request_count_def)

theorem drain_active_returns_witness:
  "\<exists>w'. drain_active 20 ex_busy = Some w' \<and>
     (active_request_count (coord w') \<le> 0 \<or> clk ex_busy + 20 \<le> clk w')"
  by (rule drain_active_returns) code_simp

end
