(* ===== verification/Streaming_Sanitizer.thy ===== *)
theory Streaming_Sanitizer
  imports Prelude
begin

text \<open>
  Cleaning of streamed text (\<^verbatim>\<open>libs/gateway/src/streaming_sanitizer.cpp\<close>): the UTF-8 buffer that
  holds back an incomplete multi-byte sequence, the per-field buffers of a generation delta, and
  the sanitizer that strips chat-template tags and reasoning blocks.
\<close>

section \<open>Utf8StreamBuffer\<close>

definition is_utf8_continuation :: "char \<Rightarrow> bool" where
  "is_utf8_continuation c = (128 \<le> byte_of c \<and> byte_of c < 192)"

definition utf8_sequence_length :: "char \<Rightarrow> nat" where
  "utf8_sequence_length c =
     (let lead = byte_of c in
      if 194 \<le> lead \<and> lead \<le> 223 then 2
      else if 224 \<le> lead \<and> lead \<le> 239 then 3
      else if 240 \<le> lead \<and> lead \<le> 244 then 4
      else 0)"

text \<open>The backward scan over at most three continuation bytes; the list is read from its end.\<close>

fun trailing_continuations :: "nat \<Rightarrow> string \<Rightarrow> nat" where
  "trailing_continuations 0 xs = 0"
| "trailing_continuations (Suc k) [] = 0"
| "trailing_continuations (Suc k) (c # cs) =
     (if is_utf8_continuation c then Suc (trailing_continuations k cs) else 0)"

definition incomplete_utf8_suffix :: "string \<Rightarrow> nat" where
  "incomplete_utf8_suffix value =
     (let continuation_count = trailing_continuations 3 (rev value);
          lead_pos = length value - continuation_count
      in if lead_pos = 0 then length value
         else if utf8_sequence_length (value ! (lead_pos - 1)) > continuation_count + 1
              then lead_pos - 1 else length value)"

definition on_chunk :: "string \<Rightarrow> string \<Rightarrow> string \<times> string" where
  "on_chunk pending chunk =
     (let p = pending @ chunk; suffix = incomplete_utf8_suffix p
      in if suffix = length p then (p, []) else (take suffix p, drop suffix p))"

definition finish_buffer :: "string \<Rightarrow> string \<times> string" where
  "finish_buffer pending = (pending, [])"

section \<open>InferenceDeltaUtf8Buffer\<close>

text \<open>Token log-probabilities are passed through untouched; their type is a parameter.\<close>

record tool_call_delta =
  tc_index :: nat
  tc_id :: string
  tc_type :: string
  tc_function_name :: string
  tc_function_arguments :: string

record 'lp inference_delta =
  d_content :: string
  d_reasoning_text :: string
  d_tool_calls :: "tool_call_delta list"
  d_logprobs :: "'lp list"

record tool_call_buffers =
  tb_id :: string
  tb_type :: string
  tb_function_name :: string
  tb_function_arguments :: string

record delta_buffer =
  db_content :: string
  db_reasoning :: string
  db_tool_calls :: "(nat \<times> tool_call_buffers) list"

definition empty_tool_buffers :: tool_call_buffers where
  "empty_tool_buffers =
     \<lparr>tb_id = [], tb_type = [], tb_function_name = [], tb_function_arguments = []\<rparr>"

definition empty_delta_buffer :: delta_buffer where
  "empty_delta_buffer = \<lparr>db_content = [], db_reasoning = [], db_tool_calls = []\<rparr>"

definition blank_call :: "tool_call_delta \<Rightarrow> bool" where
  "blank_call call =
     (tc_id call = [] \<and> tc_type call = [] \<and> tc_function_name call = [] \<and>
      tc_function_arguments call = [])"

definition clean_call ::
  "tool_call_delta \<Rightarrow> tool_call_buffers \<Rightarrow> tool_call_delta \<times> tool_call_buffers" where
  "clean_call call buffers =
     (let (i, bi) = on_chunk (tb_id buffers) (tc_id call);
          (t, bt) = on_chunk (tb_type buffers) (tc_type call);
          (n, bn) = on_chunk (tb_function_name buffers) (tc_function_name call);
          (a, ba) = on_chunk (tb_function_arguments buffers) (tc_function_arguments call)
      in (\<lparr>tc_index = tc_index call, tc_id = i, tc_type = t, tc_function_name = n,
           tc_function_arguments = a\<rparr>,
          \<lparr>tb_id = bi, tb_type = bt, tb_function_name = bn, tb_function_arguments = ba\<rparr>))"

fun clean_calls ::
  "tool_call_delta list \<Rightarrow> (nat \<times> tool_call_buffers) list \<Rightarrow>
     tool_call_delta list \<times> (nat \<times> tool_call_buffers) list" where
  "clean_calls [] m = ([], m)"
| "clean_calls (call # rest) m =
     (let buffers = (case lookup m (tc_index call) of None \<Rightarrow> empty_tool_buffers | Some b \<Rightarrow> b);
          (clean, b') = clean_call call buffers;
          (outs, m') = clean_calls rest (AList.update (tc_index call) b' m)
      in (if blank_call clean then outs else clean # outs, m'))"

definition on_delta :: "'lp inference_delta \<Rightarrow> delta_buffer \<Rightarrow> 'lp inference_delta \<times> delta_buffer" where
  "on_delta input b =
     (let (content, bc) = on_chunk (db_content b) (d_content input);
          (reasoning, br) = on_chunk (db_reasoning b) (d_reasoning_text input);
          (calls, m) = clean_calls (d_tool_calls input) (db_tool_calls b)
      in (\<lparr>d_content = content, d_reasoning_text = reasoning, d_tool_calls = calls,
           d_logprobs = (if content = d_content input then d_logprobs input else [])\<rparr>,
          \<lparr>db_content = bc, db_reasoning = br, db_tool_calls = m\<rparr>))"

definition flush_call :: "nat \<times> tool_call_buffers \<Rightarrow> tool_call_delta" where
  "flush_call = (\<lambda>(index, b).
     \<lparr>tc_index = index, tc_id = tb_id b, tc_type = tb_type b,
      tc_function_name = tb_function_name b, tc_function_arguments = tb_function_arguments b\<rparr>)"

definition finish_delta :: "delta_buffer \<Rightarrow> 'lp inference_delta \<times> delta_buffer" where
  "finish_delta b =
     (\<lparr>d_content = db_content b, d_reasoning_text = db_reasoning b,
       d_tool_calls = filter (\<lambda>c. \<not> blank_call c)
                        (map flush_call (sort_key fst (db_tool_calls b))),
       d_logprobs = []\<rparr>,
      \<lparr>db_content = [], db_reasoning = [],
       db_tool_calls = map (\<lambda>(i, _). (i, empty_tool_buffers)) (db_tool_calls b)\<rparr>)"

section \<open>StreamingSanitizer\<close>

datatype tag_kind = OpenThink | OpenChannel | Remove

definition sanitizer_tags :: "(string \<times> tag_kind) list" where
  "sanitizer_tags =
     [(''<think>'', OpenThink),
      (''<|channel|>analysis<|message|>'', OpenChannel),
      (''<|im_start|>assistant'', Remove),
      (''<|im_start|>system'', Remove),
      (''<|im_start|>user'', Remove),
      (''<|im_start|>'', Remove),
      (''<|channel|>final<|message|>'', Remove),
      (''<|channel|>commentary<|message|>'', Remove),
      (''<|start|>assistant'', Remove),
      (''<|start|>system'', Remove),
      (''<|start|>user'', Remove),
      (''<|start|>'', Remove),
      (''<|channel|>analysis'', Remove),
      (''<|channel|>final'', Remove),
      (''<|channel|>commentary'', Remove),
      (''<|channel|>'', Remove),
      (''<|message|>'', Remove),
      (''<|end|>'', Remove)]"

record sanitizer =
  sz_buffer :: string
  sz_think_depth :: nat
  sz_channel_depth :: nat
  sz_total_raw :: nat
  sz_total_clean :: nat

definition new_sanitizer :: sanitizer where
  "new_sanitizer =
     \<lparr>sz_buffer = [], sz_think_depth = 0, sz_channel_depth = 0, sz_total_raw = 0,
      sz_total_clean = 0\<rparr>"

text \<open>\<^verbatim>\<open>std::string::find\<close> from the start of a suffix.\<close>

fun find_sub :: "string \<Rightarrow> string \<Rightarrow> nat option" where
  "find_sub pat [] = (if pat = [] then Some 0 else None)"
| "find_sub pat (c # cs) =
     (if starts_with (c # cs) pat then Some 0 else map_option Suc (find_sub pat cs))"

definition matching_tag :: "string \<Rightarrow> (string \<times> tag_kind) option" where
  "matching_tag rest = find (\<lambda>(text, kind). starts_with rest text) sanitizer_tags"

lemma matching_tag_nonempty: "matching_tag rest = Some (tag, kind) \<Longrightarrow> tag \<noteq> []"
  by (auto simp: matching_tag_def sanitizer_tags_def split: if_splits)

definition tag_prefix :: "string \<Rightarrow> bool" where
  "tag_prefix rest =
     list_ex (\<lambda>(text, kind). let k = min (length text) (length rest) in
                0 < k \<and> take k rest = take k text) sanitizer_tags"

text \<open>
  The scan of \<^verbatim>\<open>flush\<close> over the unread part \<open>rest\<close> of the buffer. It ends by leaving the loop with
  what is still unread, or by the early \<^verbatim>\<open>return\<close> inside an open block (\<open>None\<close>), which skips the
  erasure of the consumed prefix.
\<close>

function flush_scan ::
  "bool \<Rightarrow> nat \<Rightarrow> nat \<Rightarrow> string \<Rightarrow> string \<Rightarrow> string \<times> nat \<times> nat \<times> string option" where
  "flush_scan force think channel rest out =
     (if rest = [] then (out, think, channel, Some [])
      else if 0 < think
      then (case find_sub ''</think>'' rest of
              None \<Rightarrow> if force then (out, think, channel, Some []) else (out, think, channel, None)
            | Some p \<Rightarrow> flush_scan force (think - 1) channel (drop (p + 8) rest) out)
      else if 0 < channel
      then (case find_sub ''<|end|>'' rest of
              None \<Rightarrow> if force then (out, think, channel, Some []) else (out, think, channel, None)
            | Some p \<Rightarrow> flush_scan force think (channel - 1) (drop (p + 7) rest) out)
      else let plain = takeWhile (\<lambda>c. c \<noteq> CHR ''<'') rest;
               tail = dropWhile (\<lambda>c. c \<noteq> CHR ''<'') rest
           in if tail = [] then (out @ plain, think, channel, Some [])
              else (case matching_tag tail of
                      Some (tag, kind) \<Rightarrow>
                        flush_scan force
                          (if kind = OpenThink then think + 1 else think)
                          (if kind = OpenChannel then channel + 1 else channel)
                          (drop (length tag) tail) (out @ plain)
                    | None \<Rightarrow>
                        if tag_prefix tail \<and> \<not> force then (out @ plain, think, channel, Some tail)
                        else flush_scan force think channel (tl tail) (out @ plain @ ''<'')))"
  by pat_completeness auto

termination
proof (relation "measure (\<lambda>(force, think, channel, rest, out). length rest)", goal_cases)
  case (4 force think channel rest out plain tail)
  have "length tail \<le> length rest" "tail \<noteq> []" using 4 by (simp_all add: length_dropWhile_le)
  then show ?case by (cases tail) auto
next
  case (5 force think channel rest out plain tail tagged tag kind)
  have "length tail \<le> length rest" "tail \<noteq> []" using 5 by (simp_all add: length_dropWhile_le)
  moreover have "0 < length tag" using matching_tag_nonempty [of tail tag kind] 5 by simp
  moreover have "0 < length tail" using calculation(2) by simp
  ultimately have "length tail - length tag < length rest" by linarith
  then show ?case by simp
qed auto

declare flush_scan.simps [simp del]

definition flush :: "bool \<Rightarrow> sanitizer \<Rightarrow> string \<times> sanitizer" where
  "flush force s =
     (case flush_scan force (sz_think_depth s) (sz_channel_depth s) (sz_buffer s) [] of
        (out, think, channel, rest) \<Rightarrow>
          (out, s\<lparr>sz_think_depth := think, sz_channel_depth := channel,
                  sz_buffer := (case rest of None \<Rightarrow> sz_buffer s | Some r \<Rightarrow> r)\<rparr>))"

definition on_token :: "string \<Rightarrow> sanitizer \<Rightarrow> string \<times> sanitizer" where
  "on_token token s =
     (let (out, s1) = flush False (s\<lparr>sz_total_raw := sz_total_raw s + length token,
                                      sz_buffer := sz_buffer s @ token\<rparr>)
      in (out, s1\<lparr>sz_total_clean := sz_total_clean s1 + length out\<rparr>))"

definition finish :: "sanitizer \<Rightarrow> string \<times> sanitizer" where
  "finish s =
     (let (out, s1) = flush True s
      in (out, s1\<lparr>sz_total_clean := sz_total_clean s1 + length out, sz_buffer := [],
                  sz_think_depth := 0, sz_channel_depth := 0\<rparr>))"

text \<open>A whole stream: the outputs of its tokens, and the final state.\<close>

fun on_tokens :: "string list \<Rightarrow> sanitizer \<Rightarrow> string list \<times> sanitizer" where
  "on_tokens [] s = ([], s)"
| "on_tokens (t # ts) s =
     (let (out, s1) = on_token t s; (outs, s2) = on_tokens ts s1 in (out # outs, s2))"

section \<open>The UTF-8 buffer\<close>

text \<open>
  A reference reading of UTF-8 framing: a sequence is one ASCII byte, or a lead byte followed by as
  many continuation bytes as it announces.
\<close>

definition utf8_sequence :: "string \<Rightarrow> bool" where
  "utf8_sequence s =
     (case s of [] \<Rightarrow> False
      | c # cs \<Rightarrow> (byte_of c < 128 \<and> cs = []) \<or>
                  (utf8_sequence_length c = length s \<and> list_all is_utf8_continuation cs))"

definition utf8_text :: "string \<Rightarrow> bool" where
  "utf8_text s = (\<exists>ss. s = concat ss \<and> list_all utf8_sequence ss)"

text \<open>The unfinished head of a sequence.\<close>

definition utf8_partial :: "string \<Rightarrow> bool" where
  "utf8_partial s =
     (case s of [] \<Rightarrow> True
      | c # cs \<Rightarrow> length s < utf8_sequence_length c \<and> list_all is_utf8_continuation cs)"

lemma sequence_length_le: "utf8_sequence_length c \<le> 4"
  by (simp add: utf8_sequence_length_def Let_def)

lemma lead_not_continuation:
  "0 < utf8_sequence_length c \<or> byte_of c < 128 \<Longrightarrow> \<not> is_utf8_continuation c"
  by (auto simp: utf8_sequence_length_def is_utf8_continuation_def Let_def split: if_splits)

lemma trailing_continuations_le: "trailing_continuations k xs \<le> k"
  by (induction k xs rule: trailing_continuations.induct) auto

lemma trailing_continuations_lead:
  "list_all is_utf8_continuation cs \<Longrightarrow> \<not> is_utf8_continuation c \<Longrightarrow> length cs \<le> k \<Longrightarrow>
     trailing_continuations k (cs @ c # xs) = length cs"
proof (induction cs arbitrary: k)
  case Nil
  then show ?case by (cases k) auto
next
  case (Cons b cs)
  then obtain j where "k = Suc j" by (cases k) auto
  with Cons show ?case by simp
qed

lemma suffix_at_lead:
  assumes "list_all is_utf8_continuation cs" "\<not> is_utf8_continuation c" "length cs \<le> 3"
  shows "incomplete_utf8_suffix (t @ c # cs) =
     (if utf8_sequence_length c > length cs + 1 then length t else length (t @ c # cs))"
proof -
  have "trailing_continuations 3 (rev (t @ c # cs)) = length cs"
    using trailing_continuations_lead [of "rev cs" c 3 "rev t"] assms by simp
  then show ?thesis by (simp add: incomplete_utf8_suffix_def Let_def nth_append)
qed

lemma suffix_partial:
  assumes "utf8_text t" "utf8_partial p"
  shows "incomplete_utf8_suffix (t @ p) = length t"
proof (cases p)
  case (Cons c cs)
  then have "list_all is_utf8_continuation cs" "Suc (length cs) < utf8_sequence_length c"
    using assms(2) by (auto simp: utf8_partial_def)
  with sequence_length_le [of c] lead_not_continuation [of c] Cons show ?thesis
    by (subst Cons, subst suffix_at_lead) auto
next
  case Nil
  obtain ss where ss: "t = concat ss" "list_all utf8_sequence ss"
    using assms(1) by (auto simp: utf8_text_def)
  show ?thesis
  proof (cases ss rule: rev_cases)
    case empty: Nil
    with ss Nil show ?thesis by (simp add: incomplete_utf8_suffix_def)
  next
    case (snoc ss' q)
    then have q: "utf8_sequence q" using ss by simp
    then obtain c cs where cs: "q = c # cs" by (cases q) (auto simp: utf8_sequence_def)
    then have "list_all is_utf8_continuation cs" "length cs \<le> 3" "\<not> is_utf8_continuation c"
      "\<not> length cs + 1 < utf8_sequence_length c"
      using q sequence_length_le [of c] lead_not_continuation [of c]
      by (auto simp: utf8_sequence_def utf8_sequence_length_def Let_def split: if_splits)
    with ss snoc cs Nil show ?thesis using suffix_at_lead [of cs c "concat ss'"] by simp
  qed
qed

lemma on_chunk_append: "on_chunk p ch = (out, p') \<Longrightarrow> out @ p' = p @ ch"
  by (auto simp: on_chunk_def Let_def simp del: take_append drop_append split: if_splits)

lemma incomplete_suffix_short:
  "length s - incomplete_utf8_suffix s \<le> 3"
proof -
  let ?n = "trailing_continuations 3 (rev s)"
  have "?n \<le> 3" by (rule trailing_continuations_le)
  show ?thesis
  proof (cases "length s - ?n = 0 \<or> \<not> utf8_sequence_length (s ! (length s - ?n - 1)) > ?n + 1")
    case True
    then have "incomplete_utf8_suffix s = length s"
      by (auto simp: incomplete_utf8_suffix_def Let_def)
    then show ?thesis by simp
  next
    case False
    with sequence_length_le [of "s ! (length s - ?n - 1)"] have "?n \<le> 2" by linarith
    moreover have "incomplete_utf8_suffix s = length s - ?n - 1"
      using False by (simp add: incomplete_utf8_suffix_def Let_def)
    ultimately show ?thesis by linarith
  qed
qed

text \<open>The outputs of a sequence of chunks.\<close>

fun on_chunks :: "string \<Rightarrow> string list \<Rightarrow> string list \<times> string" where
  "on_chunks p [] = ([], p)"
| "on_chunks p (ch # chs) =
     (let (out, p1) = on_chunk p ch; (outs, p2) = on_chunks p1 chs in (out # outs, p2))"

lemma on_chunks_append: "on_chunks p chs = (outs, p') \<Longrightarrow> concat outs @ p' = p @ concat chs"
proof (induction chs arbitrary: p outs)
  case (Cons ch chs)
  obtain out p1 where o1: "on_chunk p ch = (out, p1)" by fastforce
  obtain outs2 where o2: "on_chunks p1 chs = (outs2, p')" "outs = out # outs2"
    using Cons.prems o1 by (auto split: prod.splits)
  have "concat outs @ p' = out @ (p1 @ concat chs)" using Cons.IH [OF o2(1)] o2(2) by simp
  also have "\<dots> = (out @ p1) @ concat chs" by simp
  also have "\<dots> = p @ concat (ch # chs)" using on_chunk_append [OF o1] by simp
  finally show ?case .
qed simp

lemma utf8_text_append: "utf8_text s \<Longrightarrow> utf8_text t \<Longrightarrow> utf8_text (s @ t)"
  unfolding utf8_text_def by (metis concat_append list_all_append)

text \<open>A prefix of a text splits into whole sequences and an unfinished one.\<close>

lemma partial_of_sequence:
  assumes "utf8_sequence (p @ r)" "r \<noteq> []"
  shows "utf8_partial p"
proof (cases p)
  case (Cons c cs)
  with assms show ?thesis
    by (cases r) (auto simp: utf8_sequence_def utf8_partial_def)
qed (simp add: utf8_partial_def)

lemma text_prefix_split:
  assumes "utf8_text (s @ r)"
  shows "\<exists>t p. s = t @ p \<and> utf8_text t \<and> utf8_partial p"
proof -
  obtain ss where "s @ r = concat ss" "list_all utf8_sequence ss"
    using assms by (auto simp: utf8_text_def)
  then show ?thesis
  proof (induction ss arbitrary: s)
    case Nil
    then show ?case
      by (intro exI [of _ "[]"]) (auto simp: utf8_text_def utf8_partial_def intro: exI [of _ "[]"])
  next
    case (Cons q ss)
    show ?case
    proof (cases "length q \<le> length s")
      case True
      have "q = take (length q) s" using Cons.prems(1) True
        by (metis append_eq_conv_conj concat.simps(2) take_append take_all_iff
            diff_is_0_eq append_Nil2 take_eq_Nil)
      then obtain s' where s': "s = q @ s'" by (metis append_take_drop_id)
      with Cons.prems have "s' @ r = concat ss" "list_all utf8_sequence ss" by auto
      from Cons.IH [OF this] obtain t p where tp: "s' = t @ p" "utf8_text t" "utf8_partial p"
        by blast
      have "utf8_text q" using Cons.prems(2) by (auto simp: utf8_text_def intro: exI [of _ "[q]"])
      with tp s' show ?thesis
        by (intro exI [of _ "q @ t"] exI [of _ p]) (simp add: utf8_text_append)
    next
      case False
      then have "s = take (length s) q" using Cons.prems(1)
        by (metis append_eq_append_conv_if concat.simps(2) less_imp_le nat_le_linear)
      then obtain r' where q: "q = s @ r'" by (metis append_take_drop_id)
      have "r' \<noteq> []" using False q by auto
      with Cons.prems(2) q have "utf8_partial s" by (auto intro: partial_of_sequence)
      then show ?thesis
        by (intro exI [of _ "[]"] exI [of _ s]) (auto simp: utf8_text_def intro: exI [of _ "[]"])
    qed
  qed
qed

lemma on_chunk_text:
  assumes "utf8_text ((p @ ch) @ r)"
  shows "utf8_text (fst (on_chunk p ch)) \<and> utf8_partial (snd (on_chunk p ch))"
proof -
  obtain t q where tq: "p @ ch = t @ q" "utf8_text t" "utf8_partial q"
    using text_prefix_split [OF assms] by blast
  have "incomplete_utf8_suffix (p @ ch) = length t" using suffix_partial [OF tq(2,3)] tq(1) by simp
  then have "on_chunk p ch = (t, q)" using tq(1) by (auto simp: on_chunk_def Let_def)
  with tq show ?thesis by simp
qed

lemma utf8_text_cancel:
  assumes "utf8_text t" "utf8_text (t @ s)"
  shows "utf8_text s"
proof -
  obtain ss where "t = concat ss" "list_all utf8_sequence ss" using assms(1) by (auto simp: utf8_text_def)
  moreover obtain us where "t @ s = concat us" "list_all utf8_sequence us"
    using assms(2) by (auto simp: utf8_text_def)
  ultimately show ?thesis
  proof (induction ss arbitrary: t us)
    case Nil
    then show ?case by (auto simp: utf8_text_def)
  next
    case (Cons q ss)
    then obtain u us' where us: "us = u # us'"
      by (cases us) (auto simp: utf8_sequence_def split: list.splits)
    have uq: "utf8_sequence q" "utf8_sequence u" using Cons.prems us by auto
    have same: "q @ (concat ss @ s) = u @ concat us'" using Cons.prems us by simp
    have "length q = length u"
    proof -
      obtain c cs d ds where cd: "q = c # cs" "u = d # ds"
        using uq by (cases q; cases u) (auto simp: utf8_sequence_def)
      then have "c = d" using same by simp
      then show ?thesis using uq cd
        by (auto simp: utf8_sequence_def utf8_sequence_length_def Let_def split: if_splits)
    qed
    with same have "q = u" "concat ss @ s = concat us'" by auto
    with Cons us show ?case by auto
  qed
qed

lemma on_chunks_text:
  assumes "utf8_text (p @ concat chs)" "on_chunks p chs = (outs, p')"
  shows "list_all utf8_text outs"
  using assms
proof (induction chs arbitrary: p outs)
  case (Cons ch chs)
  obtain out p1 where o1: "on_chunk p ch = (out, p1)" by fastforce
  obtain outs2 where o2: "on_chunks p1 chs = (outs2, p')" and eq: "outs = out # outs2"
    using Cons.prems o1 by (auto split: prod.splits)
  have t: "utf8_text out" using on_chunk_text [of p ch "concat chs"] Cons.prems(1) o1 by simp
  have "p @ concat (ch # chs) = out @ (p1 @ concat chs)"
    using on_chunk_append [OF o1] by (metis append.assoc concat.simps(2))
  then have "utf8_text (out @ (p1 @ concat chs))" using Cons.prems(1) by metis
  from utf8_text_cancel [OF t this] have "utf8_text (p1 @ concat chs)" .
  from Cons.IH [OF this o2] t show ?case by (simp add: eq)
qed simp

section \<open>The sanitizer\<close>

lemma find_takeWhile_all:
  "CHR ''<'' \<notin> set s \<Longrightarrow> takeWhile (\<lambda>c. c \<noteq> CHR ''<'') s = s \<and> dropWhile (\<lambda>c. c \<noteq> CHR ''<'') s = []"
  by (auto simp: takeWhile_eq_all_conv dropWhile_eq_Nil_conv)

lemma flush_scan_plain:
  "CHR ''<'' \<notin> set s \<Longrightarrow> flush_scan force 0 0 s out = (out @ s, 0, 0, Some [])"
  by (subst flush_scan.simps) (simp add: find_takeWhile_all Let_def)

text \<open>What is left unread after a flush is the beginning of a tag, or an open block.\<close>

lemma tag_prefix_short:
  assumes "matching_tag rest = None" "tag_prefix rest"
  shows "length rest < 32"
proof -
  obtain tag kind where t: "(tag, kind) \<in> set sanitizer_tags"
    "take (min (length tag) (length rest)) rest = take (min (length tag) (length rest)) tag"
    using assms(2) by (auto simp: tag_prefix_def list_ex_iff Let_def)
  have "\<not> length tag \<le> length rest"
  proof
    assume le: "length tag \<le> length rest"
    with t(2) have "starts_with rest tag" by (simp add: starts_with_def min_absorb1)
    with t(1) assms(1) show False
      unfolding matching_tag_def find_None_iff by auto
  qed
  moreover have "length tag \<le> 32" using t(1) by (auto simp: sanitizer_tags_def)
  ultimately show ?thesis by simp
qed

lemma flush_scan_end:
  assumes "flush_scan force think channel rest out = (out', t, c, res)"
  shows "case res of None \<Rightarrow> 0 < t \<or> 0 < c | Some r \<Rightarrow> length r < 32"
  using assms
proof (induction force think channel rest out rule: flush_scan.induct)
  case (1 force think channel rest out)
  note IH1 = 1(1) and IH2 = 1(2)
  show ?case
  proof (cases "rest = [] \<or> 0 < think \<or> 0 < channel")
    case True
    note run = 1(5) [unfolded flush_scan.simps [of force think channel rest out]]
    consider "rest = []" | "rest \<noteq> []" "0 < think" | "rest \<noteq> []" "\<not> 0 < think" "0 < channel"
      using True by blast
    then show ?thesis
    proof cases
      case 1
      with run show ?thesis by auto
    next
      case 2
      with run IH1 show ?thesis by (auto split: if_splits option.splits)
    next
      case 3
      with run IH2 show ?thesis by (auto split: if_splits option.splits)
    qed
  next
    case False
    define tail where "tail = dropWhile (\<lambda>c. c \<noteq> CHR ''<'') rest"
    define plain where "plain = takeWhile (\<lambda>c. c \<noteq> CHR ''<'') rest"
    note IH = 1(3,4) [OF _ _ _ plain_def tail_def]
    have run: "(if tail = [] then (out @ plain, think, channel, Some [])
        else (case matching_tag tail of
                Some (tag, kind) \<Rightarrow>
                  flush_scan force (if kind = OpenThink then think + 1 else think)
                    (if kind = OpenChannel then channel + 1 else channel)
                    (drop (length tag) tail) (out @ plain)
              | None \<Rightarrow>
                  if tag_prefix tail \<and> \<not> force then (out @ plain, think, channel, Some tail)
                  else flush_scan force think channel (tl tail) (out @ plain @ ''<'')))
        = (out', t, c, res)"
      using 1(5) [unfolded flush_scan.simps [of force think channel rest out]] False
      by (simp only: Let_def tail_def plain_def if_False if_True simp_thms de_Morgan_disj)
    show ?thesis
    proof (cases "tail = []")
      case True
      with run show ?thesis by auto
    next
      case tail: False
      show ?thesis
      proof (cases "matching_tag tail")
        case None
        show ?thesis
        proof (cases "tag_prefix tail \<and> \<not> force")
          case True
          with tail None run have "res = Some tail" by auto
          with tag_prefix_short [OF None] True show ?thesis by simp
        next
          case nopre: False
          with tail None run have
            "flush_scan force think channel (tl tail) (out @ plain @ ''<'') = (out', t, c, res)"
            by simp
          from IH(1) [OF _ _ _ tail None nopre this] False show ?thesis by simp
        qed
      next
        case (Some tk)
        obtain tag kind where tk: "tk = (tag, kind)" by fastforce
        have "flush_scan force (if kind = OpenThink then think + 1 else think)
            (if kind = OpenChannel then channel + 1 else channel) (drop (length tag) tail)
            (out @ plain) = (out', t, c, res)"
          using run tail Some tk by simp
        from IH(2) [OF _ _ _ tail Some tk [symmetric] this] False show ?thesis by simp
      qed
    qed
  qed
qed

lemma flush_scan_rest:
  "flush_scan force think channel rest out = (out', t, c, Some r) \<Longrightarrow> length r < 32"
  using flush_scan_end by fastforce

lemma flush_scan_open:
  "flush_scan force think channel rest out = (out', t, c, None) \<Longrightarrow> 0 < t \<or> 0 < c"
  using flush_scan_end by fastforce

section \<open>Whole streams\<close>

lemma on_chunk_pending: "length (snd (on_chunk p ch)) \<le> 3"
  using incomplete_suffix_short [of "p @ ch"] by (simp add: on_chunk_def Let_def del: drop_append)

lemma on_chunks_pending: "on_chunks p chs = (outs, p') \<Longrightarrow> length p \<le> 3 \<Longrightarrow> length p' \<le> 3"
proof (induction chs arbitrary: p outs)
  case (Cons ch chs)
  then show ?case using on_chunk_pending [of p ch] by (auto simp: Let_def split: prod.splits)
qed simp

lemma on_chunks_pending_text:
  assumes "utf8_text (p @ concat chs)" "on_chunks p chs = (outs, p')" "utf8_partial p"
  shows "p' = []"
  using assms
proof (induction chs arbitrary: p outs)
  case Nil
  have "utf8_text []" unfolding utf8_text_def by (rule exI [of _ "[]"]) simp
  moreover have "utf8_partial []" by (simp add: utf8_partial_def)
  ultimately have "incomplete_utf8_suffix ([] @ p) = 0" "incomplete_utf8_suffix (p @ []) = length p"
    using suffix_partial [of "[]" p] suffix_partial [of p "[]"] Nil by simp_all
  with Nil show ?case by simp
next
  case (Cons ch chs)
  obtain out p1 where c: "on_chunk p ch = (out, p1)" by fastforce
  obtain outs1 where rest: "on_chunks p1 chs = (outs1, p')"
    using Cons.prems(2) c by (auto split: prod.splits)
  have split: "utf8_text out \<and> utf8_partial p1"
    using on_chunk_text [of p ch "concat chs"] c Cons.prems(1) by simp
  have "(out @ p1) @ concat chs = p @ concat (ch # chs)" using on_chunk_append [OF c] by simp
  then have "utf8_text (out @ (p1 @ concat chs))" using Cons.prems(1) by (metis append_assoc)
  then have "utf8_text (p1 @ concat chs)" using split utf8_text_cancel by blast
  from Cons.IH [OF this rest] split show ?case by simp
qed

lemma on_token_short:
  assumes "sz_think_depth (snd (on_token token s)) = 0" "sz_channel_depth (snd (on_token token s)) = 0"
  shows "length (sz_buffer (snd (on_token token s))) < 32"
proof -
  obtain out t c rest where scan: "flush_scan False (sz_think_depth s) (sz_channel_depth s)
      (sz_buffer s @ token) [] = (out, t, c, rest)" using prod_cases4 by blast
  with assms have "t = 0" "c = 0" by (auto simp: on_token_def flush_def Let_def)
  with flush_scan_open [of False "sz_think_depth s" "sz_channel_depth s" "sz_buffer s @ token" "[]" out]
    scan obtain r where r: "rest = Some r" by (cases rest) auto
  from flush_scan_rest [OF scan [unfolded r]] scan r show ?thesis
    by (simp add: on_token_def flush_def Let_def)
qed

lemma on_token_plain:
  assumes "CHR ''<'' \<notin> set t" "sz_buffer s = []" "sz_think_depth s = 0" "sz_channel_depth s = 0"
  shows "fst (on_token t s) = t \<and> sz_buffer (snd (on_token t s)) = [] \<and>
     sz_think_depth (snd (on_token t s)) = 0 \<and> sz_channel_depth (snd (on_token t s)) = 0"
  using assms flush_scan_plain [OF assms(1), of False "[]"]
  by (simp add: on_token_def flush_def Let_def)

lemma on_tokens_plain_gen:
  assumes "list_all (\<lambda>t. CHR ''<'' \<notin> set t) ts" "sz_buffer s = []" "sz_think_depth s = 0"
    "sz_channel_depth s = 0"
  shows "fst (on_tokens ts s) = ts \<and> sz_buffer (snd (on_tokens ts s)) = []"
  using assms
proof (induction ts arbitrary: s)
  case (Cons t ts)
  then show ?case using on_token_plain [of t s] by (auto simp: Let_def split_def)
qed simp

lemma on_tokens_plain:
  "list_all (\<lambda>t. CHR ''<'' \<notin> set t) ts \<Longrightarrow>
     fst (on_tokens ts new_sanitizer) = ts \<and> sz_buffer (snd (on_tokens ts new_sanitizer)) = []"
  by (rule on_tokens_plain_gen) (simp_all add: new_sanitizer_def)

end
