(* ===== verification/Context_Pool.thy ===== *)
theory Context_Pool
  imports Prelude
begin

text \<open>
  Sizing the shared context pool of a llama.cpp model
  (\<^verbatim>\<open>libs/llama_cpp_wrapper/src/context_pool_fit.cpp\<close>): the memory a context needs, whether it fits
  next to the safety margins, and the two searches for the largest pool that fits.

  llama.cpp and ggml are outside the repository. What the code asks of them is the record \<open>llama\<close>:
  every answer is a function of a number that grows with the probes, because the memory that is free
  and the state of the request's control change while the search runs: number 0 is the state before
  the metadata model is loaded, number \<open>k + 1\<close> the state after \<open>k\<close> probes. Exceptions thrown inside
  the library, which the code turns into an \<^verbatim>\<open>Internal\<close> error, are not modelled.
\<close>

section \<open>Memory requirements\<close>

definition SIZE_MAX :: nat where
  "SIZE_MAX = 18446744073709551615"

definition kMib :: nat where
  "kMib = 1048576"

definition kGib :: nat where
  "kGib = 1024 * kMib"

definition checked_add :: "nat \<Rightarrow> nat \<Rightarrow> nat result" where
  "checked_add left right =
     (if SIZE_MAX - left < right then Err OutOfMemory ''context pool memory estimate overflowed''
      else Ok (left + right))"

text \<open>One entry of the memory breakdown of a context: its buffer type and its two sizes.\<close>

datatype 'd buffer_type = HostBuffer | DeviceBuffer "'d option"

record 'd memory_entry =
  me_buffer :: "'d buffer_type"
  me_context :: nat
  me_compute :: nat

record 'd requirements =
  rq_host :: nat
  rq_devices :: "('d \<times> nat) list"

definition no_requirements :: "'d requirements" where
  "no_requirements = \<lparr>rq_host = 0, rq_devices = []\<rparr>"

definition device_requirement :: "'d requirements \<Rightarrow> 'd \<Rightarrow> nat" where
  "device_requirement r d = (case lookup (rq_devices r) d of None \<Rightarrow> 0 | Some n \<Rightarrow> n)"

definition add_entry :: "'d memory_entry \<Rightarrow> 'd requirements \<Rightarrow> 'd requirements result" where
  "add_entry e r =
     (case checked_add (me_context e) (me_compute e) of
        Inl err \<Rightarrow> Inl err
      | Inr combined \<Rightarrow>
          if combined = 0 then Ok r
          else (case me_buffer e of
                  HostBuffer \<Rightarrow>
                    (case checked_add (rq_host r) combined of
                       Inl err \<Rightarrow> Inl err
                     | Inr n \<Rightarrow> Ok (r\<lparr>rq_host := n\<rparr>))
                | DeviceBuffer None \<Rightarrow>
                    Err Internal ''context pool estimate contains an unmapped non-host buffer''
                | DeviceBuffer (Some d) \<Rightarrow>
                    (case checked_add (device_requirement r d) combined of
                       Inl err \<Rightarrow> Inl err
                     | Inr n \<Rightarrow> Ok (r\<lparr>rq_devices := AList.update d n (rq_devices r)\<rparr>))))"

fun add_breakdown :: "'d memory_entry list \<Rightarrow> 'd requirements \<Rightarrow> 'd requirements result" where
  "add_breakdown [] r = Ok r"
| "add_breakdown (e # es) r =
     (case add_entry e r of Inl err \<Rightarrow> Inl err | Inr r1 \<Rightarrow> add_breakdown es r1)"

record available_memory =
  am_free :: nat
  am_total :: nat

section \<open>Does it fit?\<close>

text \<open>The answer for one memory: the credit is what unloading the present contexts gives back.\<close>

definition memory_fits :: "nat \<Rightarrow> nat \<Rightarrow> nat \<Rightarrow> available_memory \<Rightarrow> string \<Rightarrow> bool result" where
  "memory_fits required credit margin available unknown =
     (if am_free available = 0 \<and> am_total available = 0 then Err Internal unknown
      else case checked_add (am_free available) credit of
             Inl err \<Rightarrow> Inl err
           | Inr credited \<Rightarrow>
               let free = min (am_total available) credited
               in Ok (margin \<le> free \<and> required \<le> free - margin))"

fun devices_fit ::
  "('d \<times> nat) list \<Rightarrow> 'd requirements \<Rightarrow> nat \<Rightarrow> ('d \<Rightarrow> available_memory) \<Rightarrow> bool \<Rightarrow> bool result"
  where
  "devices_fit [] reclaimable margin available acc = Ok acc"
| "devices_fit ((d, required) # rest) reclaimable margin available acc =
     (case memory_fits required (device_requirement reclaimable d) margin (available d)
             ''device memory availability is unknown'' of
        Inl err \<Rightarrow> Inl err
      | Inr f \<Rightarrow> devices_fit rest reclaimable margin available (acc \<and> f))"

definition check_available ::
  "'d requirements \<Rightarrow> int \<Rightarrow> 'd requirements \<Rightarrow> 'd option \<Rightarrow> ('d \<Rightarrow> available_memory) \<Rightarrow> bool result"
  where
  "check_available req vram_safety_margin_mb reclaimable cpu available =
     (let margin = nat vram_safety_margin_mb * kMib;
          host = (if 0 < rq_host req
                  then (case cpu of
                          None \<Rightarrow> Err Internal ''host memory device is unavailable''
                        | Some dev \<Rightarrow> memory_fits (rq_host req) (rq_host reclaimable) (2 * kGib)
                                        (available dev) ''host memory availability is unknown'')
                  else Ok True)
      in case host of
           Inl err \<Rightarrow> Inl err
         | Inr f \<Rightarrow> devices_fit (rq_devices req) reclaimable margin available f)"

definition sum_devices :: "('d \<times> nat) list \<Rightarrow> nat result" where
  "sum_devices ds =
     fold (\<lambda>(d, n) acc. case acc of Inl e \<Rightarrow> Inl e | Inr t \<Rightarrow> checked_add t n) ds (Ok 0)"

definition context_pool_device_memory_bytes ::
  "'d memory_entry list option \<Rightarrow> 'd memory_entry list option \<Rightarrow> nat result" where
  "context_pool_device_memory_bytes target draft =
     (case add_breakdown (case target of None \<Rightarrow> [] | Some es \<Rightarrow> es) no_requirements of
        Inl err \<Rightarrow> Inl err
      | Inr r1 \<Rightarrow>
          (case add_breakdown (case draft of None \<Rightarrow> [] | Some es \<Rightarrow> es) r1 of
             Inl err \<Rightarrow> Inl err
           | Inr r2 \<Rightarrow> sum_devices (rq_devices r2)))"

section \<open>Probing\<close>

record 'd llama =
  ll_cancelled :: "nat \<Rightarrow> bool"
  ll_expired :: "nat \<Rightarrow> bool"
  ll_model_loads :: bool
  ll_cpu :: "'d option"
  ll_memory :: "nat \<Rightarrow> 'd \<Rightarrow> available_memory"
  ll_target :: "nat \<Rightarrow> int \<Rightarrow> int \<Rightarrow> 'd memory_entry list option"
  ll_draft :: "nat \<Rightarrow> int \<Rightarrow> int \<Rightarrow> 'd memory_entry list option"
  ll_n_ctx :: "nat \<Rightarrow> int \<Rightarrow> int \<Rightarrow> int"
  ll_max_parallel_sequences :: int

record 'd fit_request =
  fr_mtp :: bool
  fr_minimum_capacity :: int
  fr_maximum_capacity :: int
  fr_vram_safety_margin_mb :: int
  fr_n_batch :: int
  fr_reclaimable_target :: "'d memory_entry list option"
  fr_reclaimable_draft :: "'d memory_entry list option"
  fr_automatic :: bool

record probe_state =
  ps_probe_count :: nat
  ps_selected_actual :: int

definition check_lifecycle :: "'d llama \<Rightarrow> nat \<Rightarrow> unit result" where
  "check_lifecycle ll k =
     (if ll_cancelled ll k then Err Cancelled ''context pool fitting cancelled''
      else if ll_expired ll k then Err Timeout ''context pool fitting deadline expired''
      else Ok ())"

definition probe_alloc_failure :: "'d fit_request \<Rightarrow> int \<Rightarrow> string \<Rightarrow> bool result" where
  "probe_alloc_failure fr sequences message =
     (if fr_automatic fr \<and> 1 < sequences then Ok False
      else Err (if fr_reclaimable_target fr \<noteq> None then ResourceBusy else OutOfMemory) message)"

definition probe_requirements ::
  "'d llama \<Rightarrow> 'd fit_request \<Rightarrow> nat \<Rightarrow> int \<Rightarrow> int \<Rightarrow> (bool + 'd requirements) result" where
  "probe_requirements ll fr k capacity sequences =
     (case ll_target ll k capacity sequences of
        None \<Rightarrow> map_sum id Inl (probe_alloc_failure fr sequences
                 ''target context memory probe cannot allocate temporary state'')
      | Some target \<Rightarrow>
          (case add_breakdown target no_requirements of
             Inl err \<Rightarrow> Inl err
           | Inr r1 \<Rightarrow>
               if \<not> fr_mtp fr then Ok (Inr r1)
               else (case ll_draft ll k capacity sequences of
                       None \<Rightarrow> map_sum id Inl (probe_alloc_failure fr sequences
                                ''draft context memory probe cannot allocate temporary state'')
                     | Some draft \<Rightarrow> map_sum id Inr (add_breakdown draft r1))))"

definition probe ::
  "'d llama \<Rightarrow> 'd fit_request \<Rightarrow> 'd requirements \<Rightarrow> int \<Rightarrow> int \<Rightarrow> probe_state \<Rightarrow>
     bool result \<times> probe_state" where
  "probe ll fr reclaimable capacity sequences s =
     (case check_lifecycle ll (ps_probe_count s + 1) of
        Inl err \<Rightarrow> (Inl err, s)
      | Inr _ \<Rightarrow>
          (let k = ps_probe_count s + 1; s1 = s\<lparr>ps_probe_count := k\<rparr>
           in case probe_requirements ll fr k capacity sequences of
                Inl err \<Rightarrow> (Inl err, s1)
              | Inr (Inl f) \<Rightarrow> (Ok f, s1)
              | Inr (Inr req) \<Rightarrow>
                  if rq_host req = 0 \<and> rq_devices req = []
                    then (Err Internal ''context pool memory estimate is empty'', s1)
                  else (case check_available req (fr_vram_safety_margin_mb fr) reclaimable
                               (ll_cpu ll) (ll_memory ll k) of
                          Inr True \<Rightarrow>
                            (let actual = ll_n_ctx ll k capacity sequences in
                             if INT_MAX < actual
                             then (Err InvalidArgument
                                     ''rounded context capacity exceeds supported range'', s1)
                             else (Ok True, s1\<lparr>ps_selected_actual :=
                                               max (ps_selected_actual s1) actual\<rparr>))
                        | r \<Rightarrow> (r, s1))))"

section \<open>The searches\<close>

text \<open>
  Both searches probe points between a value that fits and one that does not. The probe is a
  function on a state; the loops stop at its first error.
\<close>

partial_function (option) grow ::
  "(int \<Rightarrow> 's \<Rightarrow> bool result \<times> 's) \<Rightarrow> int \<Rightarrow> int \<Rightarrow> int \<Rightarrow> 's \<Rightarrow> ((int \<times> int) result \<times> 's) option" where
  "grow p limit best upper s =
     (if limit < upper then Some (Ok (best, upper), s)
      else (case p upper s of
              (Inl err, s1) \<Rightarrow> Some (Inl err, s1)
            | (Inr f, s1) \<Rightarrow>
                if \<not> f then Some (Ok (best, upper), s1)
                else grow p limit upper (min (limit + 1) (upper * 2)) s1))"

declare grow.simps [code]

partial_function (option) bisect ::
  "(int \<Rightarrow> 's \<Rightarrow> bool result \<times> 's) \<Rightarrow> int \<Rightarrow> int \<Rightarrow> 's \<Rightarrow> (int result \<times> 's) option" where
  "bisect p best upper s =
     (if upper \<le> best + 1 then Some (Ok best, s)
      else (let candidate = best + (upper - best) div 2
            in case p candidate s of
                 (Inl err, s1) \<Rightarrow> Some (Inl err, s1)
               | (Inr f, s1) \<Rightarrow> if f then bisect p candidate upper s1
                               else bisect p best candidate s1))"

declare bisect.simps [code]

definition search_max ::
  "(int \<Rightarrow> 's \<Rightarrow> bool result \<times> 's) \<Rightarrow> int \<Rightarrow> int \<Rightarrow> int \<Rightarrow> 's \<Rightarrow> (int result \<times> 's) option" where
  "search_max p limit best upper s =
     do { (r, s1) \<leftarrow> grow p limit best upper s;
          (case r of
             Inl err \<Rightarrow> Some (Inl err, s1)
           | Inr (b, u) \<Rightarrow> bisect p b u s1) }"

text \<open>The bounded bisection of the plain search.\<close>

fun bounded_bisect ::
  "nat \<Rightarrow> 'd llama \<Rightarrow> (int \<Rightarrow> probe_state \<Rightarrow> bool result \<times> probe_state) \<Rightarrow> int \<Rightarrow> int \<Rightarrow> probe_state \<Rightarrow>
     int result \<times> probe_state" where
  "bounded_bisect 0 ll p selected first_failure s = (Ok selected, s)"
| "bounded_bisect (Suc n) ll p selected first_failure s =
     (if first_failure \<le> selected + 1 then (Ok selected, s)
      else case check_lifecycle ll (ps_probe_count s + 1) of
             Inl err \<Rightarrow> (Inl err, s)
           | Inr _ \<Rightarrow>
               (let midpoint = selected + (first_failure - selected) div 2
                in case p midpoint s of
                     (Inl err, s1) \<Rightarrow> (Inl err, s1)
                   | (Inr True, s1) \<Rightarrow> bounded_bisect n ll p midpoint first_failure s1
                   | (Inr False, s1) \<Rightarrow> bounded_bisect n ll p selected midpoint s1))"

section \<open>Fitting\<close>

definition reclaimable_requirements :: "'d fit_request \<Rightarrow> 'd requirements result" where
  "reclaimable_requirements fr =
     (case add_breakdown (case fr_reclaimable_target fr of None \<Rightarrow> [] | Some es \<Rightarrow> es)
             no_requirements of
        Inl err \<Rightarrow> Inl err
      | Inr r1 \<Rightarrow> add_breakdown (case fr_reclaimable_draft fr of None \<Rightarrow> [] | Some es \<Rightarrow> es) r1)"

fun reserve_fits :: "nat \<Rightarrow> ('d \<Rightarrow> available_memory) \<Rightarrow> ('d \<times> nat) list \<Rightarrow> unit result" where
  "reserve_fits margin memory [] = Ok ()"
| "reserve_fits margin memory ((d, bytes) # rest) =
     (case checked_add (am_free (memory d)) bytes of
        Inl err \<Rightarrow> Inl err
      | Inr recoverable \<Rightarrow>
          if min (am_total (memory d)) recoverable \<le> margin
          then Err OutOfMemory ''requested reserve cannot fit after context reclamation''
          else reserve_fits margin memory rest)"

definition maximum_sequences :: "'d llama \<Rightarrow> 'd fit_request \<Rightarrow> int" where
  "maximum_sequences ll fr =
     min (ll_max_parallel_sequences ll)
       (min (max 1 (fr_n_batch fr)) (INT_MAX div fr_minimum_capacity fr))"

text \<open>The result carries the pool and, in the automatic mode, the number of sequences.\<close>

definition fit_automatic ::
  "'d llama \<Rightarrow> 'd fit_request \<Rightarrow> 'd requirements \<Rightarrow> probe_state \<Rightarrow>
     ((int \<times> int) result \<times> probe_state) option" where
  "fit_automatic ll fr reclaimable s0 =
     (let minimum = fr_minimum_capacity fr; limit = maximum_sequences ll fr in
      case probe ll fr reclaimable minimum 1 s0 of
        (Inl err, s1) \<Rightarrow> Some (Inl err, s1)
      | (Inr False, s1) \<Rightarrow> Some (Err OutOfMemory ''one full request context does not fit'', s1)
      | (Inr True, s1) \<Rightarrow>
          do { (rf, s2) \<leftarrow> search_max (\<lambda>k. probe ll fr reclaimable (k * minimum) k) limit 1
                            (min 2 (limit + 1)) s1;
               (case rf of
                  Inl err \<Rightarrow> Some (Inl err, s2)
                | Inr full_requests \<Rightarrow>
                    do { (rs, s3) \<leftarrow> search_max (probe ll fr reclaimable (full_requests * minimum))
                                       limit full_requests
                                       (min (limit + 1) (full_requests * 2)) s2;
                         (case rs of
                            Inl err \<Rightarrow> Some (Inl err, s3)
                          | Inr sequences \<Rightarrow>
                              (case probe ll fr reclaimable (full_requests * minimum) sequences
                                      (s3\<lparr>ps_selected_actual := 0\<rparr>) of
                                 (Inl err, s4) \<Rightarrow> Some (Inl err, s4)
                               | (Inr False, s4) \<Rightarrow>
                                   Some (Err OutOfMemory
                                     ''memory availability changed during concurrency fitting'', s4)
                               | (Inr True, s4) \<Rightarrow>
                                   Some (Ok (ps_selected_actual s4, sequences), s4))) }) })"

definition fit_plain ::
  "'d llama \<Rightarrow> 'd fit_request \<Rightarrow> 'd requirements \<Rightarrow> probe_state \<Rightarrow> int result \<times> probe_state" where
  "fit_plain ll fr reclaimable s0 =
     (let p = (\<lambda>capacity. probe ll fr reclaimable capacity 0);
          minimum = fr_minimum_capacity fr; maximum = fr_maximum_capacity fr
      in case p minimum s0 of
           (Inl err, s1) \<Rightarrow> (Inl err, s1)
         | (Inr False, s1) \<Rightarrow> (Err OutOfMemory ''minimum shared context pool does not fit'', s1)
         | (Inr True, s1) \<Rightarrow>
             if maximum = minimum then (Ok (ps_selected_actual s1), s1)
             else (case p maximum s1 of
                     (Inl err, s2) \<Rightarrow> (Inl err, s2)
                   | (Inr True, s2) \<Rightarrow> (Ok (ps_selected_actual s2), s2)
                   | (Inr False, s2) \<Rightarrow>
                       (case bounded_bisect 12 ll p minimum maximum s2 of
                          (Inl err, s3) \<Rightarrow> (Inl err, s3)
                        | (Inr _, s3) \<Rightarrow> (Ok (ps_selected_actual s3), s3))))"

definition fit_context_pool ::
  "'d llama \<Rightarrow> string \<Rightarrow> 'd fit_request \<Rightarrow> (int \<times> int option) result option" where
  "fit_context_pool ll model_path fr =
     (if model_path = [] \<or> fr_minimum_capacity fr \<le> 0 \<or>
         fr_maximum_capacity fr < fr_minimum_capacity fr \<or> fr_vram_safety_margin_mb fr < 0
        then Some (Err InvalidArgument ''invalid context pool fitting bounds'')
      else if 4294967295 < fr_maximum_capacity fr
        then Some (Err InvalidArgument ''context pool capacity exceeds llama limits'')
      else case check_lifecycle ll 0 of
             Inl err \<Rightarrow> Some (Inl err)
           | Inr _ \<Rightarrow>
               if \<not> ll_model_loads ll
               then (case check_lifecycle ll 1 of
                       Inl err \<Rightarrow> Some (Inl err)
                     | Inr _ \<Rightarrow> Some (Err Internal ''context pool metadata model load failed''))
               else (case reclaimable_requirements fr of
                       Inl err \<Rightarrow> Some (Inl err)
                     | Inr reclaimable \<Rightarrow>
                         (case reserve_fits (nat (fr_vram_safety_margin_mb fr) * kMib)
                                 (ll_memory ll 0) (rq_devices reclaimable) of
                            Inl err \<Rightarrow> Some (Inl err)
                          | Inr _ \<Rightarrow>
                              (let s0 = \<lparr>ps_probe_count = 0, ps_selected_actual = 0\<rparr> in
                               if fr_automatic fr
                               then map_option (\<lambda>(r, s). map_sum id (\<lambda>(c, n). (c, Some n)) r)
                                      (fit_automatic ll fr reclaimable s0)
                               else Some (map_sum id (\<lambda>c. (c, None))
                                      (fst (fit_plain ll fr reclaimable s0)))))))"

section \<open>The searches find the largest fitting value\<close>

text \<open>A probe that always answers, with an answer that does not depend on its state.\<close>

definition steady :: "(int \<Rightarrow> 's \<Rightarrow> bool result \<times> 's) \<Rightarrow> (int \<Rightarrow> bool) \<Rightarrow> bool" where
  "steady p fits = (\<forall>k s. fst (p k s) = Ok (fits k))"

lemma steadyD: "steady p fits \<Longrightarrow> \<exists>s1. p k s = (Ok (fits k), s1)"
  by (metis steady_def prod.collapse)

lemma bisect_steady:
  assumes "steady p fits" "fits best" "\<not> fits upper" "best < upper"
  shows "\<exists>k s'. bisect p best upper s = Some (Ok k, s') \<and> best \<le> k \<and> k < upper \<and> fits k \<and> \<not> fits (k + 1)"
  using assms(2-4)
proof (induction "nat (upper - best)" arbitrary: best upper s rule: less_induct)
  case less
  show ?case
  proof (cases "upper \<le> best + 1")
    case True
    with less.prems have "upper = best + 1" by simp
    with less.prems show ?thesis by (subst bisect.simps) auto
  next
    case False
    define m where "m = best + (upper - best) div 2"
    have m: "best < m" "m < upper" using False by (auto simp: m_def)
    obtain s1 where s1: "p m s = (Ok (fits m), s1)" using steadyD [OF assms(1)] by blast
    have step: "bisect p best upper s = (if fits m then bisect p m upper s1 else bisect p best m s1)"
      using False s1 by (subst bisect.simps) (simp add: Let_def m_def)
    show ?thesis
    proof (cases "fits m")
      case True
      from less.hyps [of upper m s1] m True less.prems step show ?thesis by fastforce
    next
      case no: False
      from less.hyps [of m best s1] m no less.prems step show ?thesis by fastforce
    qed
  qed
qed

lemma grow_steady:
  assumes "steady p fits" "fits best" "best < upper" "upper \<le> limit + 1" "1 \<le> upper" "best \<le> limit"
  shows "\<exists>b u s'. grow p limit best upper s = Some (Ok (b, u), s') \<and> fits b \<and> best \<le> b \<and> b < u \<and>
     b \<le> limit \<and> u \<le> limit + 1 \<and> (u \<le> limit \<longrightarrow> \<not> fits u)"
  using assms(2-6)
proof (induction "nat (limit + 1 - upper)" arbitrary: best upper s rule: less_induct)
  case less
  show ?case
  proof (cases "limit < upper")
    case True
    with less.prems show ?thesis by (subst grow.simps) auto
  next
    case False
    obtain s1 where s1: "p upper s = (Ok (fits upper), s1)" using steadyD [OF assms(1)] by blast
    let ?u = "min (limit + 1) (upper * 2)"
    show ?thesis
    proof (cases "fits upper")
      case True
      have "\<exists>b u s'. grow p limit upper ?u s1 = Some (Ok (b, u), s') \<and> fits b \<and> upper \<le> b \<and> b < u \<and>
          b \<le> limit \<and> u \<le> limit + 1 \<and> (u \<le> limit \<longrightarrow> \<not> fits u)"
        using False True less.prems by (intro less.hyps) auto
      with False True s1 less.prems show ?thesis by (subst grow.simps) fastforce
    next
      case no: False
      with False s1 less.prems show ?thesis by (subst grow.simps) auto
    qed
  qed
qed

text \<open>On a probe that fails from some point on, the search returns the last value that fits.\<close>

lemma search_max_steady:
  assumes p: "steady p fits" and fits: "fits best" "\<not> fits (limit + 1)"
    and rng: "best < upper" "upper \<le> limit + 1" "1 \<le> upper" "best \<le> limit"
    and mono: "\<And>j k. j \<le> k \<Longrightarrow> fits k \<Longrightarrow> fits j"
  shows "\<exists>k s'. search_max p limit best upper s = Some (Ok k, s') \<and> fits k \<and> best \<le> k \<and> k \<le> limit \<and>
     (\<forall>j. fits j \<longrightarrow> j \<le> k)"
proof -
  obtain b u s1 where g: "grow p limit best upper s = Some (Ok (b, u), s1)" "fits b" "best \<le> b"
    "b < u" "b \<le> limit" "u \<le> limit + 1" "u \<le> limit \<longrightarrow> \<not> fits u"
    using grow_steady [OF p fits(1) rng] by blast
  have "\<not> fits u"
  proof (cases "u \<le> limit")
    case False
    with g(6) have "u = limit + 1" by simp
    with fits(2) show ?thesis by simp
  qed (use g(7) in simp)
  from bisect_steady [OF p g(2) this g(4)] obtain k s2 where
    k: "bisect p b u s1 = Some (Ok k, s2)" "b \<le> k" "k < u" "fits k" "\<not> fits (k + 1)" by blast
  have "j \<le> k" if "fits j" for j
    using mono [of "k + 1" j] that k(5) by (cases "j \<le> k") auto
  moreover have "best \<le> k" "k \<le> limit" using g k by simp_all
  moreover have "search_max p limit best upper s = Some (Ok k, s2)"
    using g(1) k(1) by (simp add: search_max_def)
  ultimately show ?thesis using k(4) by blast
qed

lemma bounded_bisect_steady:
  assumes "steady p fits" "\<And>k. \<not> ll_cancelled ll k \<and> \<not> ll_expired ll k"
    and "fits selected" "\<not> fits failure" "selected < failure"
  shows "\<exists>k s'. bounded_bisect n ll p selected failure s = (Ok k, s') \<and> selected \<le> k \<and> k < failure \<and>
     fits k \<and> (\<exists>u. k < u \<and> u \<le> failure \<and> \<not> fits u \<and> (u - k) * 2 ^ n \<le> failure - selected + 2 ^ n - 1)"
  using assms(3-5)
proof (induction n arbitrary: selected failure s)
  case 0
  then show ?case by auto
next
  case (Suc n)
  show ?case
  proof (cases "failure \<le> selected + 1")
    case True
    with Suc.prems have "failure = selected + 1" by simp
    with Suc.prems show ?thesis by (auto intro: exI [of _ failure])
  next
    case False
    define m where "m = selected + (failure - selected) div 2"
    have m: "selected < m" "m < failure" "2 * (m - selected) \<le> failure - selected"
      "2 * (failure - m) \<le> failure - selected + 1"
      using False by (auto simp: m_def)
    obtain s1 where s1: "p m s = (Ok (fits m), s1)" using steadyD [OF assms(1)] by blast
    have step: "bounded_bisect (Suc n) ll p selected failure s =
        (if fits m then bounded_bisect n ll p m failure s1 else bounded_bisect n ll p selected m s1)"
      using False s1 assms(2) by (simp add: check_lifecycle_def Let_def m_def)
    show ?thesis
    proof (cases "fits m")
      case True
      from Suc.IH [OF True Suc.prems(2) m(2), of s1] obtain k s' u where
        "bounded_bisect n ll p m failure s1 = (Ok k, s')" "m \<le> k" "k < failure" "fits k"
        "k < u" "u \<le> failure" "\<not> fits u" "(u - k) * 2 ^ n \<le> failure - m + 2 ^ n - 1" by blast
      with True m step show ?thesis
        by (intro exI [of _ k] exI [of _ s']) (auto intro!: exI [of _ u])
    next
      case no: False
      from Suc.IH [OF Suc.prems(1) no m(1), of s1] obtain k s' u where
        "bounded_bisect n ll p selected m s1 = (Ok k, s')" "selected \<le> k" "k < m" "fits k"
        "k < u" "u \<le> m" "\<not> fits u" "(u - k) * 2 ^ n \<le> m - selected + 2 ^ n - 1" by blast
      with no m step show ?thesis
        by (intro exI [of _ k] exI [of _ s']) (auto intro!: exI [of _ u])
    qed
  qed
qed

section \<open>Memory accounting\<close>

lemma checked_add_Ok: "a \<le> SIZE_MAX \<Longrightarrow> checked_add a b = Inr n \<longleftrightarrow> n = a + b \<and> n \<le> SIZE_MAX"
  by (auto simp: checked_add_def)

lemma memory_fits_Ok:
  assumes "memory_fits required credit margin available unknown = Ok True"
  shows "margin + required \<le> min (am_total available) (am_free available + credit)"
proof -
  let ?free = "min (am_total available) (am_free available + credit)"
  have "margin \<le> ?free" "required \<le> ?free - margin"
    using assms
    by (auto simp: memory_fits_def checked_add_def Let_def Err_def split: if_splits)
  then show ?thesis by linarith
qed

lemma devices_fit_Ok:
  "devices_fit ds reclaimable margin available acc = Ok True \<Longrightarrow>
     acc \<and> (\<forall>(d, required) \<in> set ds.
       margin + required \<le> min (am_total (available d))
         (am_free (available d) + device_requirement reclaimable d))"
proof (induction ds arbitrary: acc)
  case (Cons p ds)
  obtain d required where p: "p = (d, required)" by fastforce
  obtain f where f: "memory_fits required (device_requirement reclaimable d) margin (available d)
      ''device memory availability is unknown'' = Ok f"
    "devices_fit ds reclaimable margin available (acc \<and> f) = Ok True"
    using Cons.prems p by (auto split: sum.splits)
  from Cons.IH [OF f(2)] have IH: "acc" "f" "\<forall>(d, required) \<in> set ds.
       margin + required \<le> min (am_total (available d))
         (am_free (available d) + device_requirement reclaimable d)" by auto
  have "margin + required \<le> min (am_total (available d))
      (am_free (available d) + device_requirement reclaimable d)"
    using f(1) IH(2) by (intro memory_fits_Ok) simp
  with IH p show ?case by auto
qed simp

lemma check_available_True:
  assumes "check_available req margin_mb reclaimable cpu available = Ok True"
  shows "(\<forall>(d, required) \<in> set (rq_devices req). nat margin_mb * kMib + required
       \<le> min (am_total (available d)) (am_free (available d) + device_requirement reclaimable d)) \<and>
     (0 < rq_host req \<longrightarrow> (\<exists>dev. cpu = Some dev \<and>
        2 * kGib + rq_host req \<le> min (am_total (available dev))
          (am_free (available dev) + rq_host reclaimable)))"
proof -
  from assms obtain f where f: "devices_fit (rq_devices req) reclaimable (nat margin_mb * kMib)
      available f = Ok True" and host: "0 < rq_host req \<longrightarrow> (\<exists>dev. cpu = Some dev \<and>
        memory_fits (rq_host req) (rq_host reclaimable) (2 * kGib) (available dev)
          ''host memory availability is unknown'' = Ok f)"
    by (auto simp: check_available_def Let_def split: if_splits option.splits sum.splits)
  from devices_fit_Ok [OF f] have f_True: f
    and devices: "\<forall>(d, required) \<in> set (rq_devices req). nat margin_mb * kMib + required
       \<le> min (am_total (available d)) (am_free (available d) + device_requirement reclaimable d)"
    by blast+
  from host f_True memory_fits_Ok devices show ?thesis by fastforce
qed

lemma probe_True:
  fixes ll :: "'d llama"
  assumes "probe ll fr reclaimable capacity sequences s = (Ok True, s')"
  shows "\<exists>req. probe_requirements ll fr (ps_probe_count s + 1) capacity sequences = Ok (Inr req) \<and>
     check_available req (fr_vram_safety_margin_mb fr) reclaimable (ll_cpu ll)
       (ll_memory ll (ps_probe_count s + 1)) = Ok True"
proof -
  have alloc: "probe_alloc_failure fr n m \<noteq> Ok True" for n m by (simp add: probe_alloc_failure_def)
  have conv: "map_sum id Inr r \<noteq> Ok (Inl True)" "map_sum id Inl r' = Ok (Inl True) \<longleftrightarrow> r' = Ok True"
    for r :: "'d requirements result" and r' :: "bool result" by (cases r; simp) (cases r'; simp)
  have refused: "probe_requirements ll fr k capacity sequences \<noteq> Ok (Inl True)" for k
    using alloc conv by (auto simp: probe_requirements_def split: option.splits sum.splits if_splits)
  show ?thesis
  proof (cases "probe_requirements ll fr (ps_probe_count s + 1) capacity sequences")
    case (Inl e)
    with assms show ?thesis by (auto simp: probe_def Let_def split: sum.splits)
  next
    case (Inr x)
    show ?thesis
    proof (cases x)
      case (Inl f)
      with assms Inr refused show ?thesis by (auto simp: probe_def Let_def split: sum.splits)
    next
      case r: (Inr req)
      with assms \<open>probe_requirements ll fr _ capacity sequences = Inr x\<close>
      show ?thesis
        by (auto simp: probe_def Let_def split: sum.splits if_splits bool.splits)
    qed
  qed
qed

end
