(* ===== verification/Component_Properties.thy ===== *)
theory Component_Properties
  imports Model_Registry Backend Streaming_Sanitizer Context_Pool
begin

text \<open>
  Properties of the components around the coordinator: the model registry and its metadata, the
  whisper runtime's slot pool, the streaming filters and the sizing of the context pool.
\<close>

section \<open>Registry\<close>

text \<open>One successful operation of the registry.\<close>

inductive registry_step :: "'b registry \<Rightarrow> 'b registry \<Rightarrow> bool" where
  "register_factory runtime f reg = Inr reg' \<Longrightarrow> registry_step reg reg'"
| "register_model info reg = Inr reg' \<Longrightarrow> registry_step reg reg'"
| "unregister_model name reg = Inr reg' \<Longrightarrow> registry_step reg reg'"
| "set_alias a reg = (r, reg') \<Longrightarrow> registry_step reg reg'"
| "remove_alias name reg = (r', reg') \<Longrightarrow> registry_step reg reg'"

text \<open>
  \<^bold>\<open>C32.\<close> Every registry the operations can build is well-formed: entries are stored under their own
  non-empty name and pass the resource and artifact rules, no alias shadows a model, and every
  alias points directly at a registered model.
\<close>

theorem registry_always_wellformed:
  assumes "registry_step\<^sup>*\<^sup>* empty_registry reg"
  shows "registry_inv reg"
  using assms
proof induction
  case base
  show ?case by (rule registry_inv_empty)
next
  case (step reg reg')
  from step.hyps(2) step.IH show ?case
    by cases (blast intro: register_factory_inv register_model_inv unregister_model_inv
        set_alias_inv remove_alias_inv)+
qed

definition ex_model :: "string \<Rightarrow> int \<Rightarrow> model_info" where
  "ex_model name context = default_model_info\<lparr>mi_name := name, mi_context_size := context\<rparr>"

definition ex_models :: "nat registry" where
  "ex_models = (case register_model (ex_model ''m'' 8192) empty_registry of
     Inl _ \<Rightarrow> empty_registry | Inr reg \<Rightarrow> reg)"

definition ex_alias :: model_alias where
  "ex_alias = \<lparr>al_name = ''best'', al_target = ''m'', al_required_context_size = 0,
               al_required_capabilities = []\<rparr>"

lemma ex_models_run: "register_model (ex_model ''m'' 8192) empty_registry = Inr ex_models"
proof -
  have "case register_model (ex_model ''m'' 8192) (empty_registry :: nat registry) of
      Inl _ \<Rightarrow> False | Inr reg \<Rightarrow> True" by code_simp
  then show ?thesis by (auto simp: ex_models_def split: sum.splits)
qed

lemma ex_models_reachable: "registry_step\<^sup>*\<^sup>* empty_registry ex_models"
  using ex_models_run by (blast intro: r_into_rtranclp registry_step.intros)

theorem registry_always_wellformed_witness:
  "registry_inv (snd (set_alias ex_alias ex_models))"
proof (rule registry_always_wellformed)
  obtain r reg where "set_alias ex_alias ex_models = (r, reg)" by fastforce
  then have "registry_step ex_models (snd (set_alias ex_alias ex_models))"
    by (simp add: registry_step.intros(4))
  with ex_models_reachable show "registry_step\<^sup>*\<^sup>* empty_registry (snd (set_alias ex_alias ex_models))"
    by (rule rtranclp.rtrancl_into_rtrancl)
qed

text \<open>
  Resolution ends after one step at a registered model: a name resolves to itself or to the
  target of its alias, the result resolves to itself, and an alias just set resolves to its target.
\<close>

theorem resolve_reaches_model:
  assumes "registry_inv reg"
  shows "(\<forall>m. resolve reg n = Ok m \<longrightarrow> has_model reg m \<and> resolve reg m = Ok m) \<and>
     (is_ok (resolve reg n) \<longleftrightarrow> has_model reg n \<or> has_alias reg n) \<and>
     (\<forall>b reg'. set_alias a reg = (Ok b, reg') \<longrightarrow> resolve reg' (al_name a) = Ok (al_target a))"
proof (intro conjI allI impI)
  fix m assume "resolve reg n = Ok m"
  then show "has_model reg m" "resolve reg m = Ok m"
    by (auto simp: resolve_def has_model_def split: if_splits option.splits)
next
  show "is_ok (resolve reg n) \<longleftrightarrow> has_model reg n \<or> has_alias reg n"
    using assms by (auto simp: resolve_def has_model_def has_alias_def registry_inv_def alias_ok_def
        split: option.splits)
next
  fix b reg' assume "set_alias a reg = (Ok b, reg')"
  from set_alias_Ok [OF this] show "resolve reg' (al_name a) = Ok (al_target a)"
    by (auto simp: resolve_def)
qed

theorem resolve_reaches_model_witness:
  "resolve (snd (set_alias ex_alias ex_models)) ''best'' = Ok ''m''"
proof -
  have "case set_alias ex_alias ex_models of (r, reg) \<Rightarrow> is_ok r" by code_simp
  then obtain b reg where run: "set_alias ex_alias ex_models = (Ok b, reg)"
    by (cases "set_alias ex_alias ex_models"; cases "fst (set_alias ex_alias ex_models)") auto
  have "registry_inv ex_models" by (rule register_model_inv [OF registry_inv_empty ex_models_run])
  from resolve_reaches_model [OF this, of "''m''" ex_alias] run show ?thesis
    by (simp add: ex_alias_def)
qed

text \<open>
  An alias is accepted only when its target honours its contract: the context size and every
  capability it requires; and an alias that exists keeps the contract it was created with.
\<close>

theorem set_alias_respects_contract:
  assumes "set_alias a reg = (Ok b, reg')"
  shows "\<exists>target. lookup (entries reg) (al_target a) = Some target \<and>
     al_required_context_size b \<le> mi_context_size target \<and>
     (\<forall>c \<in> set (al_required_capabilities b). supports target c) \<and>
     (\<forall>old. lookup (aliases_of reg) (al_name a) = Some old \<longrightarrow>
        al_required_context_size b = al_required_context_size old \<and>
        al_required_capabilities b = al_required_capabilities old)"
  using set_alias_Ok(4) [OF assms] by (auto simp: alias_contract_def)

theorem set_alias_respects_contract_witness:
  "\<exists>b reg'. set_alias ex_alias ex_models = (Ok b, reg') \<and>
     (\<exists>target. lookup (entries ex_models) ''m'' = Some target \<and>
        al_required_context_size b \<le> mi_context_size target)"
proof -
  have "case set_alias ex_alias ex_models of (r, reg) \<Rightarrow> is_ok r" by code_simp
  then obtain b reg where run: "set_alias ex_alias ex_models = (Ok b, reg)"
    by (cases "set_alias ex_alias ex_models"; cases "fst (set_alias ex_alias ex_models)") auto
  from set_alias_respects_contract [OF run] run show ?thesis by (auto simp: ex_alias_def)
qed

text \<open>
  Registering a model again under its name may break the contract of an alias that points at it:
  the alias keeps resolving to a model smaller than it requires.
\<close>

theorem reregistration_breaks_alias:
  "case register_model (ex_model ''m'' 4096) (snd (set_alias ex_alias ex_models)) of
     Inl _ \<Rightarrow> False
   | Inr reg \<Rightarrow> resolve reg ''best'' = Ok ''m'' \<and>
       (case (lookup (aliases_of reg) ''best'', lookup (entries reg) ''m'') of
          (Some a, Some info) \<Rightarrow> mi_context_size info < al_required_context_size a
        | _ \<Rightarrow> False)"
  by code_simp

section \<open>Model metadata\<close>

text \<open>
  The three enumerations are printed and parsed faithfully: a text parses to a value exactly
  when it is the text that value prints as.
\<close>

theorem enumerations_round_trip:
  "(parse_model_role s = Some r \<longleftrightarrow> s = role_to_string r) \<and>
   (parse_model_compute s = Some c \<longleftrightarrow> s = compute_to_string c) \<and>
   (parse_residency_policy s = Some p \<longleftrightarrow> s = residency_to_string p)"
  by (simp add: parse_role_Some_iff parse_compute_Some_iff parse_residency_Some_iff)

text \<open>
  A model registered without explicit resource metadata gets metadata that passes validation,
  provided its slots are sensible, its capabilities do not contradict its modality and a CPU runtime
  is not asked to serve conversations.
\<close>

theorem inferred_metadata_valid:
  assumes "\<not> mi_resource_metadata_explicit info" "1 \<le> mi_n_slots info" "mi_name info \<noteq> []"
    and "mi_concurrency_limit info \<le> mi_n_slots info"
    and "normalized_role info = Embedding \<longrightarrow> mi_modality info \<in> {''text'', ''embedding''}"
    and "normalized_role info = Conversation \<longrightarrow> \<not> cpu_native info"
  shows "validate_model_resources (normalize_model_resources info) = None"
proof -
  let ?n = "normalize_model_resources info"
  have fields: "mi_role ?n = normalized_role info" "mi_admission_pool ?n = mi_name info"
    "mi_residency ?n = (if cpu_native info then Always else Managed)"
    "mi_compute ?n = (if cpu_native info then Cpu else VulkanGpu)"
    "mi_eviction_eligible ?n = (\<not> cpu_native info)"
    "mi_capabilities ?n = normalized_capabilities info"
    "mi_concurrency_limit ?n =
       (if mi_concurrency_limit info \<le> 0 then mi_n_slots info else mi_concurrency_limit info)"
    using assms(1,3) by (simp_all add: normalize_defs)
  have "normalized_role info \<noteq> Helper" by (simp add: normalized_role_def)
  moreover have "supports ?n ''embeddings''" if "normalized_role info = Embedding"
    using assms(5) that fields(6)
    by (auto simp: supports_def normalized_role_def normalized_capabilities_def split: if_splits)
  moreover have "0 \<le> mi_memory_required_mb ?n" by (rule normalize_bounds)
  ultimately show ?thesis
    using assms(2-4,6) by (simp add: validate_model_resources_def fields)
qed

theorem inferred_metadata_valid_witness:
  "validate_model_resources (normalize_model_resources (ex_model ''m'' 8192)) = None"
  by (rule inferred_metadata_valid)
    (simp_all add: ex_model_def default_model_info_def cpu_native_def normalized_role_def supports_def)

section \<open>Runtimes\<close>

text \<open>
  The slot pool of the fixed backends hands out a free slot in range, takes exactly one away
  from the free ones, and gets back to where it was when the slot is released.
\<close>

theorem fixed_slots_round_trip:
  assumes "fb_acquire_slot b = (Ok s, b')"
  shows "0 \<le> s \<and> s < fb_n_slots b \<and> \<not> fb_slot_busy s b \<and> fb_slot_busy s b' \<and>
     fb_n_free_slots b' = fb_n_free_slots b - 1 \<and> fb_release_slot s b' = (Ok (), b)"
proof -
  from fb_acquire_Ok [OF assms] obtain i where i: "s = int i" "i < length (fb_slots b)"
    "\<not> fb_slots b ! i" "b' = b\<lparr>fb_slots := (fb_slots b)[i := True]\<rparr>" by blast
  have same: "(fb_slots b)[i := False] = fb_slots b" using i by (simp add: list_update_same_conv)
  have "count_list (fb_slots b) False = Suc (count_list ((fb_slots b)[i := True]) False)"
    using i by (simp add: count_list_set_True)
  with i same show ?thesis
    by (simp add: fb_n_slots_def fb_slot_busy_def fb_n_free_slots_def fb_release_slot_def)
qed

definition ex_whisper :: "bool list \<Rightarrow> whisper_backend" where
  "ex_whisper slots = (make_whisper_backend default_model_info)\<lparr>fb_loaded := True, fb_slots := slots\<rparr>"

theorem fixed_slots_round_trip_witness:
  "\<exists>b'. fb_acquire_slot (ex_whisper [True, False]) = (Ok 1, b') \<and>
     fb_release_slot 1 b' = (Ok (), ex_whisper [True, False])"
proof -
  have "fst (fb_acquire_slot (ex_whisper [True, False])) = Ok 1" by code_simp
  then obtain b' where run: "fb_acquire_slot (ex_whisper [True, False]) = (Ok 1, b')"
    by (metis prod.collapse)
  with fixed_slots_round_trip [OF run] show ?thesis by blast
qed

text \<open>
  The whisper runtime loads exactly under its documented conditions, is loaded exactly when it
  reported success, keeps its slots, and holds a native context exactly while it is loaded.
\<close>

theorem whisper_load_exact:
  assumes "whisper_load env b = (r, b')"
  shows "(is_ok r \<longleftrightarrow>
       wb_model_path b \<noteq> [] \<and> wb_provider b \<in> {''cpu'', ''gpu'', ''auto''} \<and>
       (wb_provider b \<noteq> ''cpu'' \<longrightarrow> 0 < mi_vram_required_mb (fb_info b)) \<and>
       we_is_regular_file env (wb_model_path b) \<and> is_ok (thread_count env (fb_info b)) \<and>
       whisper_open_context env b) \<and>
     (is_ok r \<longleftrightarrow> fb_loaded b') \<and> wb_context b' = fb_loaded b' \<and>
     length (fb_slots b') = length (fb_slots b) \<and> True \<notin> set (fb_slots b')"
proof -
  have "whisper_open_context env (c\<lparr>wb_n_threads := n\<rparr>) = whisper_open_context env c"
    "whisper_open_context env ((fb_set_loaded False b)\<lparr>wb_context := False\<rparr>)
       = whisper_open_context env b" for n c
    by (simp_all add: whisper_open_context_def fb_set_loaded_def)
  then show ?thesis
    using assms whisper_load_outcome [OF assms]
    by (auto simp: whisper_load_def fb_set_loaded_def Let_def Err_def split: if_splits sum.splits)
qed

definition ex_whisper_env :: whisper_env where
  "ex_whisper_env = \<lparr>we_is_regular_file = (\<lambda>p. p = ''w.bin''), we_hardware_concurrency = 8,
                     we_init_context = (\<lambda>p gpu. \<not> gpu)\<rparr>"

theorem whisper_load_exact_witness:
  "fb_loaded (snd (whisper_load ex_whisper_env
     ((ex_whisper [True])\<lparr>wb_model_path := ''w.bin''\<rparr>))) \<and>
   True \<notin> set (fb_slots (snd (whisper_load ex_whisper_env
     ((ex_whisper [True])\<lparr>wb_model_path := ''w.bin''\<rparr>))))"
proof -
  let ?run = "whisper_load ex_whisper_env ((ex_whisper [True])\<lparr>wb_model_path := ''w.bin''\<rparr>)"
  have "is_ok (fst ?run)" by code_simp
  with whisper_load_exact [of ex_whisper_env _ "fst ?run" "snd ?run"] show ?thesis by simp
qed

section \<open>Streaming\<close>

text \<open>
  \<^bold>\<open>C33.\<close> The UTF-8 buffer loses nothing, adds nothing and delays almost nothing: however a text is cut
  into chunks, the outputs followed by what is pending are the input, and at most three bytes are
  pending.
\<close>

theorem utf8_buffer_lossless:
  assumes "on_chunks [] chunks = (outs, pending)"
  shows "concat outs @ fst (finish_buffer pending) = concat chunks \<and> length pending \<le> 3"
proof -
  have "length pending \<le> 3" using on_chunks_pending [OF assms] by simp
  with on_chunks_append [OF assms] show ?thesis by (simp add: finish_buffer_def)
qed

theorem utf8_buffer_lossless_witness:
  "on_chunks [] [[CHR 0x61, CHR 0xE2], [CHR 0x82], [CHR 0xAC]]
     = ([[CHR 0x61], [], [CHR 0xE2, CHR 0x82, CHR 0xAC]], []) \<and>
   concat [[CHR 0x61], [], [CHR 0xE2, CHR 0x82, CHR 0xAC]]
     = concat [[CHR 0x61, CHR 0xE2], [CHR 0x82], [CHR 0xAC]]"
proof -
  have run: "on_chunks [] [[CHR 0x61, CHR 0xE2], [CHR 0x82], [CHR 0xAC]]
      = ([[CHR 0x61], [], [CHR 0xE2, CHR 0x82, CHR 0xAC]], [])" by code_simp
  from utf8_buffer_lossless [OF run] run show ?thesis by (simp add: finish_buffer_def)
qed

text \<open>
  When the whole stream is UTF-8, every output of the buffer is UTF-8 by itself: no character is
  ever split across two outputs, and nothing is pending at the end.
\<close>

theorem utf8_buffer_never_splits:
  assumes "utf8_text (concat chunks)" "on_chunks [] chunks = (outs, pending)"
  shows "list_all utf8_text outs \<and> pending = []"
proof
  show outs: "list_all utf8_text outs" using on_chunks_text [of "[]"] assms by simp
  show "pending = []" using on_chunks_pending_text [of "[]"] assms by (simp add: utf8_partial_def)
qed

theorem utf8_buffer_never_splits_witness:
  "list_all utf8_text (fst (on_chunks [] [[CHR 0x61, CHR 0xE2], [CHR 0x82], [CHR 0xAC]]))"
proof -
  let ?run = "on_chunks [] [[CHR 0x61, CHR 0xE2], [CHR 0x82], [CHR 0xAC]]"
  have "list_all utf8_sequence [[CHR 0x61], [CHR 0xE2, CHR 0x82, CHR 0xAC]]" by code_simp
  then have "utf8_text (concat [[CHR 0x61, CHR 0xE2], [CHR 0x82], [CHR 0xAC]])"
    unfolding utf8_text_def by (intro exI [of _ "[[CHR 0x61], [CHR 0xE2, CHR 0x82, CHR 0xAC]]"]) simp
  from utf8_buffer_never_splits [OF this, of "fst ?run" "snd ?run"] show ?thesis by simp
qed

text \<open>
  The sanitizer is transparent for text without an angle bracket, token by token, and outside
  an open block it never holds back more than 31 characters of what it has read.
\<close>

theorem sanitizer_transparent_and_prompt:
  "(list_all (\<lambda>t. CHR ''<'' \<notin> set t) tokens \<longrightarrow>
      fst (on_tokens tokens new_sanitizer) = tokens \<and>
      sz_buffer (snd (on_tokens tokens new_sanitizer)) = []) \<and>
   (sz_think_depth (snd (on_token token s)) = 0 \<and> sz_channel_depth (snd (on_token token s)) = 0 \<longrightarrow>
      length (sz_buffer (snd (on_token token s))) < 32)"
  using on_tokens_plain [of tokens] on_token_short [of token s] by simp

theorem sanitizer_transparent_and_prompt_witness:
  "fst (on_tokens [''Hello, '', ''world''] new_sanitizer) = [''Hello, '', ''world'']"
proof -
  have "list_all (\<lambda>t. CHR ''<'' \<notin> set t) [''Hello, '', ''world'']" by code_simp
  with sanitizer_transparent_and_prompt [of "[''Hello, '', ''world'']" "[]" new_sanitizer]
  show ?thesis by blast
qed

text \<open>
  The early return inside an open block keeps the consumed text in the buffer: what was already sent
  is sent again, and a depth that was already counted is counted again.
\<close>

theorem sanitizer_repeats_output:
  "fst (on_tokens [''a<think>b'', ''</think>y<think>z'', ''</think>w''] new_sanitizer)
     = [''a'', ''y'', ''yw''] "
  by code_simp

text \<open>What is removed depends on how the model's text was cut into tokens.\<close>

theorem sanitizer_depends_on_chunking:
  "concat (fst (on_tokens [''<|im_start|>assistant''] new_sanitizer)) = [] \<and>
   concat (fst (on_tokens [''<|im_start|>'', ''assistant''] new_sanitizer)) = ''assistant''"
  by code_simp

section \<open>Context pool\<close>

text \<open>
  The search for the number of requests finds the optimum: when the probe answers steadily and
  fitting is monotone, it ends with the largest value within the limit that fits.
\<close>

theorem search_finds_maximum:
  assumes "steady p fits" "fits best" "best < upper" "upper \<le> limit + 1" "1 \<le> upper" "best \<le> limit"
    and "\<not> fits (limit + 1)" "\<And>j k. j \<le> k \<Longrightarrow> fits k \<Longrightarrow> fits j"
  shows "\<exists>k s'. search_max p limit best upper s = Some (Ok k, s') \<and> best \<le> k \<and> k \<le> limit \<and> fits k \<and>
     (\<forall>j. fits j \<longrightarrow> j \<le> k)"
proof -
  have mono: "\<And>j k. j \<le> k \<Longrightarrow> fits k \<Longrightarrow> fits j" by (rule assms(8))
  from search_max_steady [of p fits best limit upper s] assms(1-7) mono show ?thesis by blast
qed

theorem search_finds_maximum_witness:
  "\<exists>k s'. search_max (\<lambda>n (s :: unit). (Ok (n \<le> 37), s)) 100 1 2 () = Some (Ok k, s') \<and> k = 37"
proof -
  have "\<exists>k s'. search_max (\<lambda>n (s :: unit). (Ok (n \<le> 37), s)) 100 1 2 () = Some (Ok k, s') \<and>
      1 \<le> k \<and> k \<le> 100 \<and> k \<le> 37 \<and> (\<forall>j. j \<le> 37 \<longrightarrow> j \<le> k)"
    by (rule search_finds_maximum [where fits = "\<lambda>n. n \<le> 37"]) (auto simp: steady_def)
  then obtain k s' where "search_max (\<lambda>n (s :: unit). (Ok (n \<le> 37), s)) 100 1 2 () = Some (Ok k, s')"
    "k \<le> 37" "37 \<le> k" by auto
  then show ?thesis by auto
qed

text \<open>
  The bounded bisection of the plain search returns a fitting size and is within one part in
  \<open>2 ^ n\<close> of the interval, plus one, of a size that does not fit; twelve rounds are what the code
  runs.
\<close>

theorem bounded_bisection_accuracy:
  assumes "steady p fits" "\<And>k. \<not> ll_cancelled ll k \<and> \<not> ll_expired ll k"
    and "fits selected" "\<not> fits failure" "selected < failure"
  shows "\<exists>k s'. bounded_bisect n ll p selected failure s = (Ok k, s') \<and> selected \<le> k \<and> k < failure \<and>
     fits k \<and> (\<exists>u. k < u \<and> u \<le> failure \<and> \<not> fits u \<and> (u - k) * 2 ^ n \<le> failure - selected + 2 ^ n - 1)"
  by (rule bounded_bisect_steady [OF assms])

definition ex_llama :: "unit llama" where
  "ex_llama = \<lparr>ll_cancelled = (\<lambda>k. False), ll_expired = (\<lambda>k. False), ll_model_loads = True,
     ll_cpu = None, ll_memory = (\<lambda>k d. \<lparr>am_free = 100, am_total = 200\<rparr>),
     ll_target = (\<lambda>k c n. Some [\<lparr>me_buffer = DeviceBuffer (Some ()), me_context = nat c,
                                  me_compute = 0\<rparr>]),
     ll_draft = (\<lambda>k c n. None), ll_n_ctx = (\<lambda>k c n. c), ll_max_parallel_sequences = 8\<rparr>"

theorem bounded_bisection_accuracy_witness:
  "\<exists>k s'. bounded_bisect 3 ex_llama (\<lambda>n s. (Ok (n \<le> 37), s)) 0 80
        \<lparr>ps_probe_count = 0, ps_selected_actual = 0\<rparr> = (Ok k, s') \<and> k \<le> 37 \<and> 27 \<le> k"
proof -
  have "\<exists>k s'. bounded_bisect 3 ex_llama (\<lambda>n s. (Ok (n \<le> 37), s)) 0 80
        \<lparr>ps_probe_count = 0, ps_selected_actual = 0\<rparr> = (Ok k, s') \<and> 0 \<le> k \<and> k < 80 \<and> k \<le> 37 \<and>
        (\<exists>u. k < u \<and> u \<le> 80 \<and> \<not> u \<le> 37 \<and> (u - k) * 2 ^ 3 \<le> 80 - 0 + 2 ^ 3 - 1)"
    by (rule bounded_bisection_accuracy) (auto simp: steady_def ex_llama_def)
  then show ?thesis by fastforce
qed

text \<open>
  A probe answers yes only when the memory is there: at that moment, on every device the
  context needs, the requirement and the configured safety margin fit the total memory and what is
  free plus what the contexts being replaced give back; on the host the margin is two gibibytes.
\<close>

theorem probe_respects_margins:
  assumes "probe ll fr reclaimable capacity sequences s = (Ok True, s')"
  shows "\<exists>req. probe_requirements ll fr (ps_probe_count s + 1) capacity sequences = Ok (Inr req) \<and>
     (\<forall>(d, required) \<in> set (rq_devices req).
        nat (fr_vram_safety_margin_mb fr) * kMib + required
          \<le> min (am_total (ll_memory ll (ps_probe_count s + 1) d))
              (am_free (ll_memory ll (ps_probe_count s + 1) d) + device_requirement reclaimable d)) \<and>
     (0 < rq_host req \<longrightarrow> (\<exists>dev. ll_cpu ll = Some dev \<and>
        2 * kGib + rq_host req \<le> min (am_total (ll_memory ll (ps_probe_count s + 1) dev))
          (am_free (ll_memory ll (ps_probe_count s + 1) dev) + rq_host reclaimable)))"
proof -
  let ?k = "ps_probe_count s + 1"
  from assms obtain req where req: "probe_requirements ll fr ?k capacity sequences = Ok (Inr req)"
    and av: "check_available req (fr_vram_safety_margin_mb fr) reclaimable (ll_cpu ll) (ll_memory ll ?k)
      = Ok True"
    using probe_True by blast
  from req check_available_True [OF av] show ?thesis by (intro exI [of _ req] conjI) simp_all
qed

theorem probe_respects_margins_witness:
  "\<exists>s'. probe ex_llama \<lparr>fr_mtp = False, fr_minimum_capacity = 1, fr_maximum_capacity = 9,
         fr_vram_safety_margin_mb = 0, fr_n_batch = 1, fr_reclaimable_target = None,
         fr_reclaimable_draft = None, fr_automatic = False\<rparr> no_requirements 9 1
         \<lparr>ps_probe_count = 0, ps_selected_actual = 0\<rparr> = (Ok True, s') \<and> (9 :: nat) \<le> min 200 (100 + 0)"
proof -
  let ?fr = "\<lparr>fr_mtp = False, fr_minimum_capacity = 1, fr_maximum_capacity = 9,
         fr_vram_safety_margin_mb = 0, fr_n_batch = 1, fr_reclaimable_target = None,
         fr_reclaimable_draft = None, fr_automatic = False\<rparr> :: unit fit_request"
  let ?s = "\<lparr>ps_probe_count = 0, ps_selected_actual = 0\<rparr>"
  have "fst (probe ex_llama ?fr no_requirements 9 1 ?s) = Ok True"
    by (simp add: probe_def check_lifecycle_def probe_requirements_def ex_llama_def add_entry_def
        checked_add_def SIZE_MAX_def no_requirements_def device_requirement_def check_available_def
        memory_fits_def INT_MAX_def Let_def)
  then obtain s' where run: "probe ex_llama ?fr no_requirements 9 1 ?s = (Ok True, s')"
    by (metis prod.collapse)
  from probe_respects_margins [OF run] run show ?thesis
    by (auto simp: probe_requirements_def ex_llama_def add_entry_def checked_add_def SIZE_MAX_def
        no_requirements_def device_requirement_def Let_def)
qed

end
