(* ===== verification/Api_Key_Format.thy ===== *)
theory Api_Key_Format
  imports Prelude "HOL-Library.Word"
begin

text \<open>
  The format of API keys (\<^verbatim>\<open>libs/gateway/src/api_key_store.cpp\<close>, the helpers of its anonymous
  namespace): names and priorities, the hexadecimal and base64url encodings at the width of the
  code, the parser of the \<^verbatim>\<open>Authorization\<close> header and the comparison of digests. The main lemma is
  that the parser accepts exactly the keys the encoder builds (\<open>parse_bearer_api_key\<close>).
\<close>

unbundle bit_operations_syntax

type_synonym byte = "8 word"
type_synonym hash = "byte list"

definition valid_name :: "string \<Rightarrow> bool" where
  "valid_name name =
     (name \<noteq> [] \<and> length name \<le> 80 \<and>
      list_all (\<lambda>c. \<not> byte_of c < 0x20 \<and> byte_of c \<noteq> 0x7f) name \<and>
      list_ex (\<lambda>c. \<not> char_isspace c) name)"

definition valid_priority :: "int \<Rightarrow> bool" where
  "valid_priority priority = (- 100 \<le> priority \<and> priority \<le> 100)"

definition hex_digit :: "nat \<Rightarrow> char" where
  "hex_digit n = ''0123456789abcdef'' ! n"

definition hex_encode :: "byte list \<Rightarrow> string" where
  "hex_encode bytes =
     concat (map (\<lambda>b. [hex_digit (unat b div 16), hex_digit (unat b mod 16)]) bytes)"

definition base64_alphabet :: string where
  "base64_alphabet = ''ABCDEFGHIJKLMNOPQRSTUVWXYZabcdefghijklmnopqrstuvwxyz0123456789-_''"

definition base64_chunk :: "byte \<Rightarrow> byte \<Rightarrow> byte \<Rightarrow> 32 word" where
  "base64_chunk first second third =
     (push_bit 16 (ucast first) OR push_bit 8 (ucast second)) OR ucast third"

definition base64_char :: "32 word \<Rightarrow> nat \<Rightarrow> char" where
  "base64_char chunk shift = base64_alphabet ! unat (drop_bit shift chunk AND 0x3f)"

fun base64url_encode :: "byte list \<Rightarrow> string" where
  "base64url_encode [] = []"
| "base64url_encode [a] =
     (let chunk = base64_chunk a 0 0 in [base64_char chunk 18, base64_char chunk 12])"
| "base64url_encode [a, b] =
     (let chunk = base64_chunk a b 0
      in [base64_char chunk 18, base64_char chunk 12, base64_char chunk 6])"
| "base64url_encode (a # b # c # rest) =
     (let chunk = base64_chunk a b c
      in [base64_char chunk 18, base64_char chunk 12, base64_char chunk 6, base64_char chunk 0]
           @ base64url_encode rest)"

text \<open>The key handed to the client, built by \<^verbatim>\<open>ApiKeyStore::create\<close> from two random draws.\<close>

definition api_key_text :: "byte list \<Rightarrow> byte list \<Rightarrow> string" where
  "api_key_text identifier_bytes secret_bytes =
     ''idk_'' @ hex_encode identifier_bytes @ ''_'' @ base64url_encode secret_bytes"

definition lower_hex :: "char \<Rightarrow> bool" where
  "lower_hex c = (char_isdigit c \<or> (CHR ''a'' \<le> c \<and> c \<le> CHR ''f''))"

definition secret_char :: "char \<Rightarrow> bool" where
  "secret_char c = (char_isalnum c \<or> c = CHR ''-'' \<or> c = CHR ''_'')"

text \<open>The identifier and the whole token of a well-formed bearer header.\<close>

definition parse_bearer :: "string \<Rightarrow> (string \<times> string) option" where
  "parse_bearer authorization =
     (if \<not> starts_with authorization ''Bearer '' then None
      else let token = drop 7 authorization in
        if length token \<noteq> 4 + 32 + 1 + 43 \<or> \<not> starts_with token ''idk_'' \<or>
           token ! (4 + 32) \<noteq> CHR ''_'' then None
        else let identifier = take 32 (drop 4 token); secret = drop (5 + 32) token in
          if \<not> list_all lower_hex identifier then None
          else if \<not> list_all secret_char secret then None
          else Some (identifier, token))"

definition constant_time_equal :: "hash \<Rightarrow> hash \<Rightarrow> bool" where
  "constant_time_equal left right =
     (foldl (\<lambda>difference (l, r). difference OR (l XOR r)) 0 (zip left right) = 0)"

section \<open>Lemmas\<close>

lemma or_word_eq_0 [simp]: "(a OR b = 0) = (a = 0 \<and> b = (0 :: 'a :: len word))"
  by (rule or_eq_0_iff)

lemma xor_word_eq_0 [simp]: "(a XOR b = 0) = (a = (b :: 'a :: len word))"
proof
  assume "a XOR b = 0"
  then have "(a XOR b) XOR b = b" by simp
  then show "a = b" by (simp add: xor.assoc)
qed simp

lemma fold_difference_0:
  "(foldl (\<lambda>d (l, r). d OR (l XOR r)) d0 ps = (0 :: 'a :: len word))
     = (d0 = 0 \<and> list_all (\<lambda>(l, r). l = r) ps)"
  by (induction ps arbitrary: d0) (simp_all add: split_beta conj_assoc)

lemma constant_time_equal_iff:
  assumes "length left = length right"
  shows "constant_time_equal left right = (left = right)"
  using assms unfolding constant_time_equal_def fold_difference_0
  by (induction left right rule: list_induct2) auto

lemma length_hex_encode [simp]: "length (hex_encode bytes) = 2 * length bytes"
  by (induction bytes) (simp_all add: hex_encode_def)

lemma lower_hex_digit: "n < 16 \<Longrightarrow> lower_hex (hex_digit n)"
proof -
  have "list_all (\<lambda>n. lower_hex (hex_digit n)) [0..<16]" by code_simp
  then show "n < 16 \<Longrightarrow> lower_hex (hex_digit n)" by (simp add: list_all_iff)
qed

lemma unat_byte_less: "unat (b :: byte) < 256"
  using unsigned_less [of b] by simp

lemma hex_encode_lower: "list_all lower_hex (hex_encode bytes)"
proof (induction bytes)
  case Nil
  then show ?case by (simp add: hex_encode_def)
next
  case (Cons b bytes)
  have "unat b div 16 < 16" using unat_byte_less [of b] by simp
  then have "lower_hex (hex_digit (unat b div 16))" "lower_hex (hex_digit (unat b mod 16))"
    by (simp_all add: lower_hex_digit)
  with Cons show ?case by (simp add: hex_encode_def)
qed

lemma secret_char_base64: "secret_char (base64_char chunk shift)"
proof -
  have "list_all secret_char base64_alphabet" "length base64_alphabet = 64" by code_simp+
  moreover have "unat (drop_bit shift chunk AND 0x3f) \<le> unat (0x3f :: 32 word)"
    by (rule word_and_le1 [THEN word_le_nat_alt [THEN iffD1]])
  ultimately show ?thesis by (simp add: base64_char_def list_all_length)
qed

lemma base64url_encode_chars: "list_all secret_char (base64url_encode bytes)"
  by (induction bytes rule: base64url_encode.induct) (simp_all add: Let_def secret_char_base64)

lemma length_base64url_encode:
  "length (base64url_encode bytes) = (4 * length bytes + 2) div 3"
  by (induction bytes rule: base64url_encode.induct) (simp_all add: Let_def)

lemma starts_with_split: "starts_with s p \<Longrightarrow> s = p @ drop (length p) s"
  by (metis starts_with_def append_take_drop_id)

lemma parse_bearer_token:
  assumes "parse_bearer h = Some (identifier, token)"
  shows "h = ''Bearer '' @ token" "length identifier = 32"
proof -
  from assms have "starts_with h ''Bearer ''" "token = drop 7 h"
    by (auto simp: parse_bearer_def Let_def split: if_splits)
  then show "h = ''Bearer '' @ token" using starts_with_split [of h "''Bearer ''"] by (simp add: eval_nat_numeral)
  from assms show "length identifier = 32"
    by (auto simp: parse_bearer_def Let_def split: if_splits)
qed

lemma parse_bearer_api_key:
  assumes "length identifier_bytes = 16" "length secret_bytes = 32"
  shows "parse_bearer (''Bearer '' @ api_key_text identifier_bytes secret_bytes)
    = Some (hex_encode identifier_bytes, api_key_text identifier_bytes secret_bytes)"
proof -
  let ?i = "hex_encode identifier_bytes" and ?s = "base64url_encode secret_bytes"
  have i: "length ?i = 32" and s: "length ?s = 43"
    using assms by (simp_all add: length_base64url_encode)
  have chars: "list_all lower_hex ?i" "list_all secret_char ?s"
    by (rule hex_encode_lower, rule base64url_encode_chars)
  have "token = ''idk_'' @ ?i @ ''_'' @ ?s \<Longrightarrow>
      length token = 80 \<and> token ! 36 = CHR ''_'' \<and> take 32 (drop 4 token) = ?i \<and> drop 37 token = ?s"
    for token using i s by (simp add: nth_append)
  with chars i s show ?thesis
    by (simp add: parse_bearer_def api_key_text_def starts_with_def Let_def)
qed

end
