(* ===== verification/Api_Key_Store.thy ===== *)
theory Api_Key_Store
  imports Api_Key_Format "HOL-Library.Multiset"
begin

text \<open>
  \<^verbatim>\<open>libs/gateway/src/api_key_store.cpp\<close>: API keys and the background lease, kept in two SQLite tables
  and cached in memory. SQLite itself is a parameter (\<open>sqlite\<close>): the statements of the source are
  the datatype \<open>sql\<close>, the documented meaning of each of them on the two tables is \<open>sql_effect\<close>, and
  the locale \<open>sqlite_contract\<close> says that a statement either fails and changes nothing or has that
  effect, and that a rollback restores the tables of the matching \<^verbatim>\<open>BEGIN\<close>. SHA-256 and the random
  generator (BCrypt) are parameters too. The invariant \<open>store_inv\<close> says that the cache is exactly
  the view of the keys that are not revoked and that a lease belongs to such a key.
\<close>

section \<open>Records\<close>

record api_key_record =
  ak_id :: string
  ak_name :: string
  ak_prefix :: string
  ak_priority :: int
  ak_created :: int
  ak_updated :: int
  ak_revoked :: "int option"

record created_api_key =
  ck_record :: api_key_record
  ck_key :: string

record authenticated_api_key =
  au_id :: string
  au_name :: string
  au_priority :: int

record background_lease =
  bl_id :: string
  bl_owner :: string
  bl_acquired :: int
  bl_expires :: int

datatype lease_state = Acquired | Existing | Occupied

text \<open>A cached key, and a row of \<^verbatim>\<open>api_keys\<close>: the columns are the record and the digest.\<close>

record active_api_key =
  aa_record :: api_key_record
  aa_hash :: hash

abbreviation row_id :: "active_api_key \<Rightarrow> string" where
  "row_id r \<equiv> ak_id (aa_record r)"

abbreviation row_live :: "active_api_key \<Rightarrow> bool" where
  "row_live r \<equiv> ak_revoked (aa_record r) = None"

section \<open>The database\<close>

text \<open>
  The schema: \<^verbatim>\<open>api_keys\<close> with primary key \<^verbatim>\<open>id\<close> and a check of the priority, and
  \<^verbatim>\<open>background_leases\<close>, whose primary key is always 1, so that it holds at most one row.
\<close>

record tables =
  t_keys :: "active_api_key list"
  t_lease :: "background_lease option"

datatype sql =
    SelectActive
  | InsertKey active_api_key
  | ListKeys
  | UpdateKey string string int int
  | LookupKey string
  | RevokeKey string int
  | DeleteOwnerLease string
  | DeleteExpired int
  | SelectLease
  | InsertLease background_lease
  | RenewLease string string int
  | DeleteLease string string

text \<open>
  What preparing and stepping a statement yields: \<^verbatim>\<open>SQLITE_DONE\<close> with the number of changed rows, the
  rows of a query, \<^verbatim>\<open>SQLITE_CONSTRAINT\<close>, or a failure.
\<close>

datatype reply =
    PrepareFailed | StepFailed | Constraint | Done nat
  | KeyRows "active_api_key list" | RevokedColumn "int option" | LeaseRow background_lease

definition key_named :: "string \<Rightarrow> active_api_key \<Rightarrow> bool" where
  "key_named i r = (row_id r = i)"

definition live_named :: "string \<Rightarrow> active_api_key \<Rightarrow> bool" where
  "live_named i r = (row_id r = i \<and> row_live r)"

definition update_rows ::
  "(active_api_key \<Rightarrow> bool) \<Rightarrow> (api_key_record \<Rightarrow> api_key_record) \<Rightarrow> tables \<Rightarrow> reply \<times> tables" where
  "update_rows P f t =
     (Done (length (filter P (t_keys t))),
      t\<lparr>t_keys := map (\<lambda>r. if P r then aa_record_update f r else r) (t_keys t)\<rparr>)"

definition delete_lease_if :: "(background_lease \<Rightarrow> bool) \<Rightarrow> tables \<Rightarrow> reply \<times> tables" where
  "delete_lease_if P t =
     (case t_lease t of
        Some l \<Rightarrow> if P l then (Done 1, t\<lparr>t_lease := None\<rparr>) else (Done 0, t)
      | None \<Rightarrow> (Done 0, t))"

fun sql_effect :: "sql \<Rightarrow> tables \<Rightarrow> reply \<times> tables" where
  "sql_effect SelectActive t = (KeyRows (filter row_live (t_keys t)), t)"
| "sql_effect (InsertKey r) t =
     (if list_ex (key_named (row_id r)) (t_keys t) \<or> \<not> valid_priority (ak_priority (aa_record r))
      then (Constraint, t) else (Done 1, t\<lparr>t_keys := t_keys t @ [r]\<rparr>))"
| "sql_effect ListKeys t =
     (KeyRows (sort_key (\<lambda>r. (- ak_created (aa_record r), row_id r)) (t_keys t)), t)"
| "sql_effect (UpdateKey i name priority now) t =
     (if list_ex (live_named i) (t_keys t) \<and> \<not> valid_priority priority then (Constraint, t)
      else update_rows (live_named i)
             (\<lambda>k. k\<lparr>ak_name := name, ak_priority := priority, ak_updated := now\<rparr>) t)"
| "sql_effect (LookupKey i) t =
     (case find (key_named i) (t_keys t) of
        None \<Rightarrow> (Done 0, t)
      | Some r \<Rightarrow> (RevokedColumn (ak_revoked (aa_record r)), t))"
| "sql_effect (RevokeKey i now) t =
     update_rows (live_named i) (\<lambda>k. k\<lparr>ak_revoked := Some now, ak_updated := now\<rparr>) t"
| "sql_effect (DeleteOwnerLease owner) t = delete_lease_if (\<lambda>l. bl_owner l = owner) t"
| "sql_effect (DeleteExpired now) t = delete_lease_if (\<lambda>l. bl_expires l \<le> now) t"
| "sql_effect SelectLease t =
     (case t_lease t of None \<Rightarrow> (Done 0, t) | Some l \<Rightarrow> (LeaseRow l, t))"
| "sql_effect (InsertLease l) t =
     (if t_lease t \<noteq> None \<or> \<not> list_ex (key_named (bl_owner l)) (t_keys t) then (Constraint, t)
      else (Done 1, t\<lparr>t_lease := Some l\<rparr>))"
| "sql_effect (RenewLease i owner expires) t =
     (case t_lease t of
        Some l \<Rightarrow>
          if bl_id l = i \<and> bl_owner l = owner
          then (Done 1, t\<lparr>t_lease := Some (l\<lparr>bl_expires := expires\<rparr>)\<rparr>) else (Done 0, t)
      | None \<Rightarrow> (Done 0, t))"
| "sql_effect (DeleteLease i owner) t = delete_lease_if (\<lambda>l. bl_id l = i \<and> bl_owner l = owner) t"

text \<open>The order of the rows of a query without \<^verbatim>\<open>ORDER BY\<close> is open.\<close>

fun reply_matches :: "sql \<Rightarrow> reply \<Rightarrow> reply \<Rightarrow> bool" where
  "reply_matches SelectActive (KeyRows rows) (KeyRows rows') = (mset rows = mset rows')"
| "reply_matches _ r r' = (r = r')"

record 'd sqlite =
  sq_open :: "string \<Rightarrow> 'd option"
  sq_schema :: "'d \<Rightarrow> bool \<times> 'd"
  sq_run :: "sql \<Rightarrow> 'd \<Rightarrow> reply \<times> 'd"
  sq_begin :: "'d \<Rightarrow> bool \<times> 'd"
  sq_commit :: "'d \<Rightarrow> bool \<times> 'd"
  sq_rollback :: "'d \<Rightarrow> 'd"
  sq_errmsg :: "'d \<Rightarrow> string"

section \<open>The store\<close>

record 'd key_store =
  ks_database :: "'d option"
  ks_is_healthy :: bool
  ks_active :: "active_api_key strmap"

text \<open>
  One draw of \<^verbatim>\<open>secure_random\<close> for the identifier and one for the secret, and the wall clock at the
  time of an attempt; \<^verbatim>\<open>sha256\<close> is a function argument of the operations.
\<close>

record key_draw =
  kd_identifier :: "byte list result"
  kd_secret :: "byte list result"
  kd_now :: int

definition emplace :: "'k \<Rightarrow> 'v \<Rightarrow> ('k \<times> 'v) list \<Rightarrow> ('k \<times> 'v) list" where
  "emplace k v m = (if has_key m k then m else m @ [(k, v)])"

definition exec_sql :: "'d sqlite \<Rightarrow> sql \<Rightarrow> 'd key_store \<Rightarrow> reply \<times> 'd key_store" where
  "exec_sql vt s st =
     (case ks_database st of
        None \<Rightarrow> (PrepareFailed, st)
      | Some d \<Rightarrow> map_prod id (\<lambda>d'. st\<lparr>ks_database := Some d'\<rparr>) (sq_run vt s d))"

definition begin_tx :: "'d sqlite \<Rightarrow> 'd key_store \<Rightarrow> bool \<times> 'd key_store" where
  "begin_tx vt st =
     (case ks_database st of
        None \<Rightarrow> (False, st)
      | Some d \<Rightarrow> map_prod id (\<lambda>d'. st\<lparr>ks_database := Some d'\<rparr>) (sq_begin vt d))"

definition commit_tx :: "'d sqlite \<Rightarrow> 'd key_store \<Rightarrow> bool \<times> 'd key_store" where
  "commit_tx vt st =
     (case ks_database st of
        None \<Rightarrow> (False, st)
      | Some d \<Rightarrow> map_prod id (\<lambda>d'. st\<lparr>ks_database := Some d'\<rparr>) (sq_commit vt d))"

definition rollback_tx :: "'d sqlite \<Rightarrow> 'd key_store \<Rightarrow> 'd key_store" where
  "rollback_tx vt st = st\<lparr>ks_database := map_option (sq_rollback vt) (ks_database st)\<rparr>"

text \<open>
  The scope of a \<^verbatim>\<open>SqliteTransaction\<close>: the body says whether its commit succeeded; if it did not, the
  destructor rolls back.
\<close>

definition with_transaction ::
  "'d sqlite \<Rightarrow> ('d key_store \<Rightarrow> 'a) \<Rightarrow> ('d key_store \<Rightarrow> 'a \<times> bool \<times> 'd key_store) \<Rightarrow>
     'd key_store \<Rightarrow> 'a \<times> 'd key_store" where
  "with_transaction vt not_started body st =
     (let (started, st1) = begin_tx vt st
      in if \<not> started then (not_started st1, st1)
         else let (r, committed, st2) = body st1
              in (r, if committed then st2 else rollback_tx vt st2))"

definition finish_tx ::
  "'d sqlite \<Rightarrow> ('d key_store \<Rightarrow> 'a) \<Rightarrow> 'a \<Rightarrow> 'd key_store \<Rightarrow> 'a \<times> bool \<times> 'd key_store" where
  "finish_tx vt failure success st =
     (let (ok, st1) = commit_tx vt st in (if ok then success else failure st1, ok, st1))"

definition sqlite_failure :: "'d sqlite \<Rightarrow> string \<Rightarrow> 'd key_store \<Rightarrow> 'a result" where
  "sqlite_failure vt operation st =
     Err IoError (operation @ '': '' @
       (case ks_database st of None \<Rightarrow> ''database unavailable'' | Some d \<Rightarrow> sq_errmsg vt d))"

subsection \<open>Opening\<close>

text \<open>A row whose digest is missing or has the wrong size stops the loading.\<close>

definition load_active :: "'d sqlite \<Rightarrow> 'd key_store \<Rightarrow> bool \<times> 'd key_store" where
  "load_active vt st =
     (case exec_sql vt SelectActive st of
        (KeyRows rows, st1) \<Rightarrow>
          let good = takeWhile (\<lambda>r. length (aa_hash r) = 32) rows
          in (good = rows,
              st1\<lparr>ks_active := fold (\<lambda>r m. emplace (row_id r) r m) good (ks_active st1)\<rparr>)
      | (_, st1) \<Rightarrow> (False, st1))"

definition closed_store :: "'d key_store" where
  "closed_store = \<lparr>ks_database = None, ks_is_healthy = False, ks_active = []\<rparr>"

definition open_store :: "'d sqlite \<Rightarrow> bool \<Rightarrow> string \<Rightarrow> 'd key_store" where
  "open_store vt directories_created path =
     (if path = [] then closed_store
      else if path \<noteq> '':memory:'' \<and> \<not> directories_created then closed_store
      else case sq_open vt path of
        None \<Rightarrow> closed_store
      | Some d \<Rightarrow>
          let (schema_ok, d1) = sq_schema vt d
          in if \<not> schema_ok then closed_store
             else let (loaded, st) = load_active vt (closed_store\<lparr>ks_database := Some d1\<rparr>)
                  in if \<not> loaded then closed_store else st\<lparr>ks_is_healthy := True\<rparr>)"

subsection \<open>Keys\<close>

definition bad_name :: "'a result" where
  "bad_name = Inl \<lparr>err_code = InvalidArgument,
     err_message = ''API key name must contain 1 to 80 printable characters'', err_field = ''name''\<rparr>"

definition bad_priority :: "'a result" where
  "bad_priority = Inl \<lparr>err_code = InvalidArgument,
     err_message = ''API key priority must be between -100 and 100'', err_field = ''priority''\<rparr>"

definition store_unavailable :: "'a result" where
  "store_unavailable = Err Unavailable ''API key store is unavailable''"

definition new_record :: "string \<Rightarrow> string \<Rightarrow> string \<Rightarrow> int \<Rightarrow> int \<Rightarrow> api_key_record" where
  "new_record identifier key name priority now =
     \<lparr>ak_id = identifier, ak_name = name, ak_prefix = take 16 key, ak_priority = priority,
      ak_created = now, ak_updated = now, ak_revoked = None\<rparr>"

primrec create_attempts ::
  "'d sqlite \<Rightarrow> (string \<Rightarrow> hash result) \<Rightarrow> string \<Rightarrow> int \<Rightarrow> key_draw list \<Rightarrow> 'd key_store \<Rightarrow>
     created_api_key result \<times> 'd key_store" where
  "create_attempts vt sha name priority [] st =
     (Err AlreadyExists ''could not allocate a unique API key identifier'', st)"
| "create_attempts vt sha name priority (draw # draws) st =
     (case kd_identifier draw of
        Inl e \<Rightarrow> (Err (err_code e) (err_message e), st)
      | Inr identifier_bytes \<Rightarrow>
     (case kd_secret draw of
        Inl e \<Rightarrow> (Err (err_code e) (err_message e), st)
      | Inr secret_bytes \<Rightarrow>
     (let identifier = hex_encode identifier_bytes;
          key = api_key_text identifier_bytes secret_bytes
      in case sha key of
        Inl e \<Rightarrow> (Err (err_code e) (err_message e), st)
      | Inr digest \<Rightarrow>
     (let row = \<lparr>aa_record = new_record identifier key name priority (kd_now draw), aa_hash = digest\<rparr>
      in case exec_sql vt (InsertKey row) st of
        (PrepareFailed, st1) \<Rightarrow> (Err IoError ''cannot prepare API key creation'', st1)
      | (Constraint, st1) \<Rightarrow> create_attempts vt sha name priority draws st1
      | (Done _, st1) \<Rightarrow>
          (Ok \<lparr>ck_record = aa_record row, ck_key = key\<rparr>,
           st1\<lparr>ks_active := emplace identifier row (ks_active st1)\<rparr>)
      | (_, st1) \<Rightarrow> (Err IoError ''cannot persist API key'', st1)))))"

definition create ::
  "'d sqlite \<Rightarrow> (string \<Rightarrow> hash result) \<Rightarrow> (nat \<Rightarrow> key_draw) \<Rightarrow> string \<Rightarrow> int \<Rightarrow> 'd key_store \<Rightarrow>
     created_api_key result \<times> 'd key_store" where
  "create vt sha draw name priority st =
     (if \<not> valid_name name then (bad_name, st)
      else if \<not> valid_priority priority then (bad_priority, st)
      else if \<not> ks_is_healthy st then (store_unavailable, st)
      else create_attempts vt sha name priority (map draw [0..<4]) st)"

definition list_keys :: "'d sqlite \<Rightarrow> 'd key_store \<Rightarrow> api_key_record list result \<times> 'd key_store" where
  "list_keys vt st =
     (if \<not> ks_is_healthy st then (store_unavailable, st)
      else case exec_sql vt ListKeys st of
        (PrepareFailed, st1) \<Rightarrow> (Err IoError ''cannot list API keys'', st1)
      | (KeyRows rows, st1) \<Rightarrow> (Ok (map aa_record rows), st1)
      | (_, st1) \<Rightarrow> (Err IoError ''cannot complete API key listing'', st1))"

definition changed_record ::
  "string option \<Rightarrow> int option \<Rightarrow> int \<Rightarrow> api_key_record \<Rightarrow> api_key_record" where
  "changed_record name priority now k =
     k\<lparr>ak_name := (case name of None \<Rightarrow> ak_name k | Some n \<Rightarrow> n),
       ak_priority := (case priority of None \<Rightarrow> ak_priority k | Some p \<Rightarrow> p),
       ak_updated := now\<rparr>"

definition update_key ::
  "'d sqlite \<Rightarrow> int \<Rightarrow> string \<Rightarrow> string option \<Rightarrow> int option \<Rightarrow> 'd key_store \<Rightarrow>
     api_key_record result \<times> 'd key_store" where
  "update_key vt now i name priority st =
     (if name = None \<and> priority = None
        then (Err InvalidArgument ''name or priority is required'', st)
      else if (case name of None \<Rightarrow> False | Some n \<Rightarrow> \<not> valid_name n) then (bad_name, st)
      else if (case priority of None \<Rightarrow> False | Some p \<Rightarrow> \<not> valid_priority p) then (bad_priority, st)
      else if \<not> ks_is_healthy st then (store_unavailable, st)
      else case lookup (ks_active st) i of
        None \<Rightarrow> (Err NotFound ''active API key not found'', st)
      | Some active \<Rightarrow>
          let updated = changed_record name priority now (aa_record active)
          in case exec_sql vt (UpdateKey i (ak_name updated) (ak_priority updated) now) st of
               (PrepareFailed, st1) \<Rightarrow> (Err IoError ''cannot prepare API key update'', st1)
             | (r, st1) \<Rightarrow>
                 if r = Done 1
                 then (Ok updated,
                       st1\<lparr>ks_active :=
                             AList.update i (active\<lparr>aa_record := updated\<rparr>) (ks_active st1)\<rparr>)
                 else (Err IoError ''cannot update API key'', st1))"

text \<open>Revoking: the row is marked and the lease of the key is released, in one transaction.\<close>

definition revoke_live ::
  "'d sqlite \<Rightarrow> int \<Rightarrow> string \<Rightarrow> 'd key_store \<Rightarrow> unit result \<times> bool \<times> 'd key_store" where
  "revoke_live vt now i st =
     (case exec_sql vt (RevokeKey i now) st of
        (PrepareFailed, st1) \<Rightarrow>
          (sqlite_failure vt ''cannot prepare API key revocation'' st1, False, st1)
      | (r, st1) \<Rightarrow>
          if r \<noteq> Done 1 then (sqlite_failure vt ''cannot revoke API key'' st1, False, st1)
          else case exec_sql vt (DeleteOwnerLease i) st1 of
            (PrepareFailed, st2) \<Rightarrow>
              (sqlite_failure vt ''cannot prepare revoked key lease release'' st2, False, st2)
          | (Done _, st2) \<Rightarrow>
              (let (res, committed, st3) =
                     finish_tx vt (sqlite_failure vt ''cannot complete API key revocation'') (Ok ()) st2
               in (res, committed,
                   if committed then st3\<lparr>ks_active := AList.delete i (ks_active st3)\<rparr> else st3))
          | (_, st2) \<Rightarrow>
              (sqlite_failure vt ''cannot release revoked key lease'' st2, False, st2))"

definition revoke :: "'d sqlite \<Rightarrow> int \<Rightarrow> string \<Rightarrow> 'd key_store \<Rightarrow> unit result \<times> 'd key_store" where
  "revoke vt now i st =
     (if \<not> ks_is_healthy st then (store_unavailable, st)
      else with_transaction vt (sqlite_failure vt ''cannot begin API key revocation'')
        (\<lambda>st1. case exec_sql vt (LookupKey i) st1 of
            (PrepareFailed, st2) \<Rightarrow> (sqlite_failure vt ''cannot inspect API key'' st2, False, st2)
          | (Done _, st2) \<Rightarrow> (Err NotFound ''API key not found'', False, st2)
          | (RevokedColumn revoked_at, st2) \<Rightarrow>
              if revoked_at \<noteq> None
              then finish_tx vt (sqlite_failure vt ''cannot complete API key revocation'') (Ok ()) st2
              else revoke_live vt now i st2
          | (_, st2) \<Rightarrow> (sqlite_failure vt ''cannot inspect API key'' st2, False, st2)) st)"

definition authenticate_bearer ::
  "(string \<Rightarrow> hash result) \<Rightarrow> string \<Rightarrow> 'd key_store \<Rightarrow> authenticated_api_key option" where
  "authenticate_bearer sha authorization st =
     (case parse_bearer authorization of
        None \<Rightarrow> None
      | Some (identifier, token) \<Rightarrow>
          (case sha token of
             Inl _ \<Rightarrow> None
           | Inr digest \<Rightarrow>
               if \<not> ks_is_healthy st then None
               else case lookup (ks_active st) identifier of
                 None \<Rightarrow> None
               | Some active \<Rightarrow>
                   if constant_time_equal (aa_hash active) digest
                   then Some \<lparr>au_id = row_id active, au_name = ak_name (aa_record active),
                              au_priority = ak_priority (aa_record active)\<rparr>
                   else None))"

definition public_request_priority :: int where
  "public_request_priority = - 999999"

definition resolve_request_priority ::
  "(string \<Rightarrow> hash result) \<Rightarrow> 'd key_store option \<Rightarrow> string \<Rightarrow> int \<Rightarrow> bool \<Rightarrow> int" where
  "resolve_request_priority sha store authorization requested public_request =
     (case Option.bind store (authenticate_bearer sha authorization) of
        Some caller \<Rightarrow> au_priority caller
      | None \<Rightarrow>
          if public_request then public_request_priority else clamp requested (- 100) 100)"

definition credential_fingerprint :: "(string \<Rightarrow> hash result) \<Rightarrow> string \<Rightarrow> string" where
  "credential_fingerprint sha credential =
     (case sha credential of Inl _ \<Rightarrow> [] | Inr digest \<Rightarrow> hex_encode digest)"

subsection \<open>The background lease\<close>

definition INT64_MAX :: int where
  "INT64_MAX = 9223372036854775807"

definition valid_lease_window :: "int \<Rightarrow> int \<Rightarrow> bool" where
  "valid_lease_window now duration = (0 \<le> now \<and> 0 < duration \<and> now \<le> INT64_MAX - duration)"

definition read_active_background_lease ::
  "'d sqlite \<Rightarrow> int \<Rightarrow> 'd key_store \<Rightarrow> background_lease option result \<times> 'd key_store" where
  "read_active_background_lease vt now st =
     (case exec_sql vt (DeleteExpired now) st of
        (PrepareFailed, st1) \<Rightarrow>
          (Err IoError ''cannot prepare expired background lease cleanup'', st1)
      | (Done _, st1) \<Rightarrow>
          (case exec_sql vt SelectLease st1 of
             (PrepareFailed, st2) \<Rightarrow> (Err IoError ''cannot inspect background lease'', st2)
           | (Done _, st2) \<Rightarrow> (Ok None, st2)
           | (LeaseRow l, st2) \<Rightarrow> (Ok (Some l), st2)
           | (_, st2) \<Rightarrow> (Err IoError ''cannot read background lease'', st2))
      | (_, st1) \<Rightarrow> (Err IoError ''cannot remove expired background lease'', st1))"

definition active_background_lease ::
  "'d sqlite \<Rightarrow> int \<Rightarrow> 'd key_store \<Rightarrow> background_lease option result \<times> 'd key_store" where
  "active_background_lease vt now st =
     (if now < 0 then (Err InvalidArgument ''lease time must not be negative'', st)
      else if \<not> ks_is_healthy st then (store_unavailable, st)
      else with_transaction vt (\<lambda>_. Err IoError ''cannot begin background lease inspection'')
        (\<lambda>st1. let (lease, st2) = read_active_background_lease vt now st1
          in if \<not> is_ok lease then (lease, False, st2)
             else finish_tx vt (\<lambda>_. Err IoError ''cannot complete background lease inspection'')
                    lease st2) st)"

definition new_lease :: "string \<Rightarrow> string \<Rightarrow> int \<Rightarrow> int \<Rightarrow> background_lease" where
  "new_lease i owner now duration =
     \<lparr>bl_id = i, bl_owner = owner, bl_acquired = now, bl_expires = now + duration\<rparr>"

definition insert_lease ::
  "'d sqlite \<Rightarrow> background_lease \<Rightarrow> 'd key_store \<Rightarrow>
     (lease_state \<times> background_lease) result \<times> bool \<times> 'd key_store" where
  "insert_lease vt lease st =
     (case exec_sql vt (InsertLease lease) st of
        (PrepareFailed, st1) \<Rightarrow>
          (Err IoError ''cannot prepare background lease acquisition'', False, st1)
      | (Done _, st1) \<Rightarrow>
          finish_tx vt (\<lambda>_. Err IoError ''cannot persist background lease'') (Ok (Acquired, lease)) st1
      | (_, st1) \<Rightarrow> (Err IoError ''cannot persist background lease'', False, st1))"

definition acquire_background_lease ::
  "'d sqlite \<Rightarrow> byte list result \<Rightarrow> string \<Rightarrow> int \<Rightarrow> int \<Rightarrow> 'd key_store \<Rightarrow>
     (lease_state \<times> background_lease) result \<times> 'd key_store" where
  "acquire_background_lease vt random owner now duration st =
     (if \<not> valid_lease_window now duration
        then (Err InvalidArgument ''background lease window is invalid'', st)
      else if \<not> ks_is_healthy st then (store_unavailable, st)
      else if \<not> has_key (ks_active st) owner
        then (Err NotFound ''active API key not found'', st)
      else with_transaction vt (\<lambda>_. Err IoError ''cannot begin background lease acquisition'')
        (\<lambda>st1. case read_active_background_lease vt now st1 of
            (Inl e, st2) \<Rightarrow> (Err (err_code e) (err_message e), False, st2)
          | (Inr (Some l), st2) \<Rightarrow>
              finish_tx vt (\<lambda>_. Err IoError ''cannot complete background lease acquisition'')
                (Ok (if bl_owner l = owner then Existing else Occupied, l)) st2
          | (Inr None, st2) \<Rightarrow>
              (case random of
                 Inl e \<Rightarrow> (Err (err_code e) (err_message e), False, st2)
               | Inr bytes \<Rightarrow>
                   insert_lease vt (new_lease (hex_encode bytes) owner now duration) st2)) st)"

definition renew_background_lease ::
  "'d sqlite \<Rightarrow> string \<Rightarrow> string \<Rightarrow> int \<Rightarrow> int \<Rightarrow> 'd key_store \<Rightarrow>
     background_lease result \<times> 'd key_store" where
  "renew_background_lease vt owner lease_id now duration st =
     (if \<not> valid_lease_window now duration
        then (Err InvalidArgument ''background lease window is invalid'', st)
      else if \<not> ks_is_healthy st then (store_unavailable, st)
      else if \<not> has_key (ks_active st) owner
        then (Err NotFound ''background lease not found'', st)
      else with_transaction vt (\<lambda>_. Err IoError ''cannot begin background lease renewal'')
        (\<lambda>st1. case read_active_background_lease vt now st1 of
            (Inl e, st2) \<Rightarrow> (Err (err_code e) (err_message e), False, st2)
          | (Inr current, st2) \<Rightarrow>
              (case current of
                 Some l \<Rightarrow>
                   if bl_owner l = owner \<and> bl_id l = lease_id
                   then let renewed = l\<lparr>bl_expires := now + duration\<rparr>
                        in case exec_sql vt (RenewLease (bl_id l) owner (now + duration)) st2 of
                             (PrepareFailed, st3) \<Rightarrow>
                               (Err IoError ''cannot prepare background lease renewal'', False, st3)
                           | (r, st3) \<Rightarrow>
                               if r \<noteq> Done 1
                               then (Err IoError ''cannot renew background lease'', False, st3)
                               else finish_tx vt
                                      (\<lambda>_. Err IoError ''cannot renew background lease'')
                                      (Ok renewed) st3
                   else finish_tx vt
                          (\<lambda>_. Err IoError ''cannot complete background lease renewal'')
                          (Err NotFound ''background lease not found'') st2
               | None \<Rightarrow>
                   finish_tx vt
                     (\<lambda>_. Err IoError ''cannot complete background lease renewal'')
                     (Err NotFound ''background lease not found'') st2)) st)"

definition release_background_lease ::
  "'d sqlite \<Rightarrow> string \<Rightarrow> string \<Rightarrow> 'd key_store \<Rightarrow> unit result \<times> 'd key_store" where
  "release_background_lease vt owner lease_id st =
     (if \<not> ks_is_healthy st then (store_unavailable, st)
      else with_transaction vt (\<lambda>_. Err IoError ''cannot begin background lease release'')
        (\<lambda>st1. case exec_sql vt (DeleteLease lease_id owner) st1 of
            (PrepareFailed, st2) \<Rightarrow>
              (Err IoError ''cannot prepare background lease release'', False, st2)
          | (Done _, st2) \<Rightarrow>
              finish_tx vt (\<lambda>_. Err IoError ''cannot release background lease'') (Ok ()) st2
          | (_, st2) \<Rightarrow> (Err IoError ''cannot release background lease'', False, st2)) st)"

end
