(* ===== verification/Api_Key_Safety.thy ===== *)
theory Api_Key_Safety
  imports Api_Key_Store
begin

text \<open>
  Safety of the API key store. \<open>ring_step\<close> is the abstract specification: what may happen to the two
  tables. Each operation of the store, on any database that satisfies \<open>sqlite_contract\<close>, either
  fails and leaves tables and cache alone or does one such step, and the cache stays the view of the
  live keys.
\<close>

section \<open>The abstract specification\<close>

definition live_row :: "tables \<Rightarrow> string \<Rightarrow> active_api_key option" where
  "live_row t i = find (live_named i) (t_keys t)"

definition row_ok :: "active_api_key \<Rightarrow> bool" where
  "row_ok r = (valid_priority (ak_priority (aa_record r)) \<and> valid_name (ak_name (aa_record r)) \<and>
     length (aa_hash r) = 32)"

definition table_inv :: "tables \<Rightarrow> bool" where
  "table_inv t =
     (distinct (map row_id (t_keys t)) \<and> list_all row_ok (t_keys t) \<and>
      (case t_lease t of None \<Rightarrow> True | Some l \<Rightarrow> live_row t (bl_owner l) \<noteq> None))"

definition edit_row :: "string \<Rightarrow> (api_key_record \<Rightarrow> api_key_record) \<Rightarrow> tables \<Rightarrow> tables" where
  "edit_row i f t = snd (update_rows (live_named i) f t)"

definition drop_lease :: "(background_lease \<Rightarrow> bool) \<Rightarrow> tables \<Rightarrow> tables" where
  "drop_lease P t = snd (delete_lease_if P t)"

inductive ring_step :: "tables \<Rightarrow> tables \<Rightarrow> bool" where
  Issue: "\<not> list_ex (key_named (row_id r)) (t_keys t) \<Longrightarrow> row_live r \<Longrightarrow> row_ok r \<Longrightarrow>
    ring_step t (t\<lparr>t_keys := t_keys t @ [r]\<rparr>)"
| Edit: "valid_name n \<Longrightarrow> valid_priority p \<Longrightarrow>
    ring_step t (edit_row i (\<lambda>k. k\<lparr>ak_name := n, ak_priority := p, ak_updated := now\<rparr>) t)"
| Revoke: "ring_step t
    (drop_lease (\<lambda>l. bl_owner l = i) (edit_row i (\<lambda>k. k\<lparr>ak_revoked := Some now, ak_updated := now\<rparr>) t))"
| Expire: "ring_step t (drop_lease (\<lambda>l. bl_expires l \<le> now) t)"
| Release: "ring_step t (drop_lease (\<lambda>l. bl_id l = i \<and> bl_owner l = owner) t)"
| Grant: "t_lease (drop_lease (\<lambda>l. bl_expires l \<le> now) t) = None \<Longrightarrow> live_row t owner \<noteq> None \<Longrightarrow>
    ring_step t (t\<lparr>t_lease := Some (new_lease i owner now duration)\<rparr>)"
| Renew: "t_lease t = Some l \<Longrightarrow> now < bl_expires l \<Longrightarrow>
    ring_step t (t\<lparr>t_lease := Some (l\<lparr>bl_expires := now + duration\<rparr>)\<rparr>)"

lemma find_map_if:
  assumes "\<And>r. Q (f r) \<longleftrightarrow> Q r"
  shows "find Q (map f rs) = map_option f (find Q rs)"
  using assms by (induction rs) auto

lemma find_append:
  "find P (xs @ ys) = (case find P xs of None \<Rightarrow> find P ys | Some x \<Rightarrow> Some x)"
  by (induction xs) auto

lemma drop_lease_keys [simp]:
  "t_keys (drop_lease P t) = t_keys t"
  "t_lease (drop_lease P t) = (case t_lease t of Some l \<Rightarrow> if P l then None else Some l | None \<Rightarrow> None)"
  "live_row (drop_lease P t) = live_row t"
  by (auto simp: drop_lease_def delete_lease_if_def live_row_def fun_eq_iff split: option.split)

lemma drop_lease_keep:
  "t_lease t = Some l \<Longrightarrow> \<not> P l \<Longrightarrow> drop_lease P t = t"
  "t_lease t = None \<Longrightarrow> drop_lease P t = t"
  by (simp_all add: drop_lease_def delete_lease_if_def)

lemma drop_lease_set [simp]: "(drop_lease P t)\<lparr>t_lease := x\<rparr> = t\<lparr>t_lease := x\<rparr>"
  by (auto simp: drop_lease_def delete_lease_if_def split: option.split)

lemma live_row_lease [simp]: "live_row (t\<lparr>t_lease := x\<rparr>) = live_row t"
  by (simp add: live_row_def fun_eq_iff)

lemma delete_lease_effect: "\<exists>n. delete_lease_if P t = (Done n, drop_lease P t)"
  by (auto simp: drop_lease_def delete_lease_if_def split: option.split)

lemma edit_row_lease [simp]: "t_lease (edit_row i f t) = t_lease t"
  by (simp add: edit_row_def update_rows_def)

lemma edit_row_keys:
  "t_keys (edit_row i f t)
     = map (\<lambda>r. if live_named i r then aa_record_update f r else r) (t_keys t)"
  by (simp add: edit_row_def update_rows_def)

lemma edit_row_ids [simp]:
  "(\<And>k. ak_id (f k) = ak_id k) \<Longrightarrow> map row_id (t_keys (edit_row i f t)) = map row_id (t_keys t)"
  by (simp add: edit_row_keys)

lemma named_in_ids: "list_ex (key_named i) rs = (i \<in> set (map row_id rs))"
  by (auto simp: list_ex_iff key_named_def)

lemma edit_row_named [simp]:
  assumes "\<And>k. ak_id (f k) = ak_id k"
  shows "list_ex (key_named i) (t_keys (edit_row j f t)) = list_ex (key_named i) (t_keys t)"
  unfolding named_in_ids edit_row_ids [OF assms] ..

lemma edit_row_ok:
  "list_all row_ok (t_keys t) \<Longrightarrow> (\<And>r. row_ok r \<Longrightarrow> row_ok (aa_record_update f r)) \<Longrightarrow>
     list_all row_ok (t_keys (edit_row i f t))"
  by (auto simp: edit_row_keys list_all_iff)

lemma live_row_Some:
  "live_row t i = Some r \<Longrightarrow> r \<in> set (t_keys t) \<and> row_id r = i \<and> row_live r"
  unfolding live_row_def by (auto simp: live_named_def find_Some_iff in_set_conv_nth)

lemma live_row_iff:
  assumes "distinct (map row_id (t_keys t))"
  shows "live_row t i = Some r \<longleftrightarrow> r \<in> set (t_keys t) \<and> row_id r = i \<and> row_live r"
proof
  assume r: "r \<in> set (t_keys t) \<and> row_id r = i \<and> row_live r"
  then have "live_row t i \<noteq> None"
    by (auto simp: live_row_def find_None_iff live_named_def)
  then obtain r' where r': "live_row t i = Some r'" by blast
  with live_row_Some [OF r'] r assms have "r' = r" by (auto simp: distinct_map inj_on_def)
  with r' show "live_row t i = Some r" by simp
qed (rule live_row_Some)

lemma filter_live_named:
  assumes "live_row t i = Some r" "distinct (map row_id (t_keys t))"
  shows "filter (live_named i) (t_keys t) = [r]"
proof -
  have "find (live_named i) rs = Some r \<Longrightarrow> distinct (map row_id rs) \<Longrightarrow> filter (live_named i) rs = [r]" for rs
    by (induction rs) (auto simp: live_named_def filter_empty_conv image_iff split: if_splits)
  with assms show ?thesis by (simp add: live_row_def)
qed

lemma live_row_named:
  assumes "find (key_named i) (t_keys t) = Some r" "distinct (map row_id (t_keys t))"
  shows "live_row t i = (if row_live r then Some r else None)"
proof -
  have "find (key_named i) rs = Some r \<Longrightarrow> distinct (map row_id rs) \<Longrightarrow>
      find (live_named i) rs = (if row_live r then Some r else None)" for rs
    by (induction rs)
      (auto simp: live_named_def key_named_def find_None_iff image_iff split: if_splits)
  with assms show ?thesis by (simp add: live_row_def)
qed

lemma live_row_edit:
  assumes "\<And>k. ak_id (f k) = ak_id k" "\<And>k. ak_revoked (f k) = ak_revoked k"
  shows "live_row (edit_row i f t) j
    = (if j = i then map_option (aa_record_update f) (live_row t j) else live_row t j)"
proof -
  have "live_row (edit_row i f t) j
      = map_option (\<lambda>r. if live_named i r then aa_record_update f r else r) (live_row t j)"
    unfolding live_row_def edit_row_keys
    by (rule find_map_if) (simp add: live_named_def assms)
  then show ?thesis
    using live_row_Some [of t j] by (cases "live_row t j") (auto simp: live_named_def)
qed

lemma live_row_revoke:
  assumes "\<And>k. ak_id (f k) = ak_id k" "\<And>k. ak_revoked (f k) = Some v"
  shows "live_row (edit_row i f t) j = (if j = i then None else live_row t j)"
proof (cases "j = i")
  case True
  have "\<not> live_named i (aa_record_update f r)" for r
    using assms(2) by (simp add: live_named_def)
  with True show ?thesis by (auto simp: live_row_def edit_row_keys find_None_iff)
next
  case False
  have "live_row (edit_row i f t) j
      = map_option (\<lambda>r. if live_named i r then aa_record_update f r else r) (live_row t j)"
    unfolding live_row_def edit_row_keys
    by (rule find_map_if) (use False assms(1) in \<open>simp add: live_named_def\<close>)
  with False show ?thesis
    using live_row_Some [of t j] by (cases "live_row t j") (auto simp: live_named_def)
qed

theorem ring_step_inv:
  assumes "ring_step t t'" "table_inv t"
  shows "table_inv t'"
  using assms
proof (induction rule: ring_step.induct)
  case (Issue r t)
  then show ?case
    by (auto simp: table_inv_def live_row_def find_append list_ex_iff key_named_def split: option.splits)
next
  case (Edit n p t i now)
  then show ?case
    unfolding table_inv_def by (intro conjI edit_row_ok)
      (auto simp: live_row_edit row_ok_def split: option.splits)
next
  case (Revoke t i now)
  then show ?case
    unfolding table_inv_def drop_lease_keys by (intro conjI edit_row_ok)
      (auto simp: live_row_revoke row_ok_def split: option.splits)
next
  case (Expire t now)
  then show ?case by (auto simp: table_inv_def split: option.splits)
next
  case (Release t i owner)
  then show ?case by (auto simp: table_inv_def split: option.splits)
next
  case (Grant now t owner i duration)
  then show ?case by (simp add: table_inv_def live_row_def new_lease_def)
next
  case (Renew t l now duration)
  then show ?case by (simp add: table_inv_def live_row_def)
qed

section \<open>The database contract\<close>

definition failed :: "reply \<Rightarrow> bool" where
  "failed r = (r = PrepareFailed \<or> r = StepFailed)"

locale sqlite_contract =
  fixes vt :: "'d sqlite" and tb :: "'d \<Rightarrow> tables" and saved :: "'d \<Rightarrow> tables option"
  assumes run_failed: "sq_run vt s d = (r, d') \<Longrightarrow> failed r \<Longrightarrow> tb d' = tb d"
    and run_done: "sq_run vt s d = (r, d') \<Longrightarrow> \<not> failed r \<Longrightarrow>
      \<exists>r0. sql_effect s (tb d) = (r0, tb d') \<and> reply_matches s r r0"
    and run_saved: "sq_run vt s d = (r, d') \<Longrightarrow> saved d' = saved d"
    and begin_tables: "sq_begin vt d = (ok, d') \<Longrightarrow> tb d' = tb d"
    and begin_saves: "sq_begin vt d = (True, d') \<Longrightarrow> saved d' = Some (tb d)"
    and commit_tables: "sq_commit vt d = (ok, d') \<Longrightarrow> tb d' = tb d"
    and commit_failed: "sq_commit vt d = (False, d') \<Longrightarrow> saved d' = saved d"
    and rollback: "saved d = Some t \<Longrightarrow> tb (sq_rollback vt d) = t"

text \<open>The connection shows the tables \<open>t\<close>, with a transaction open since \<open>sv\<close>.\<close>

definition db_at ::
  "('d \<Rightarrow> tables) \<Rightarrow> ('d \<Rightarrow> tables option) \<Rightarrow> 'd key_store \<Rightarrow> tables \<Rightarrow> tables option \<Rightarrow> bool" where
  "db_at tb saved st t sv =
     (case ks_database st of None \<Rightarrow> False | Some d \<Rightarrow> tb d = t \<and> saved d = sv)"

definition same_cache :: "'d key_store \<Rightarrow> 'd key_store \<Rightarrow> bool" where
  "same_cache st st' = (ks_is_healthy st' = ks_is_healthy st \<and> ks_active st' = ks_active st)"

text \<open>A healthy store over the tables \<open>t\<close>: the cache is the view of the live keys.\<close>

definition store_at :: "('d \<Rightarrow> tables) \<Rightarrow> 'd key_store \<Rightarrow> tables \<Rightarrow> bool" where
  "store_at tb st t =
     (ks_is_healthy st \<and> map_option tb (ks_database st) = Some t \<and>
      map_of (ks_active st) = live_row t)"

definition store_inv :: "('d \<Rightarrow> tables) \<Rightarrow> 'd key_store \<Rightarrow> bool" where
  "store_inv tb st = (ks_is_healthy st \<longrightarrow> (\<exists>t. store_at tb st t \<and> table_inv t))"

text \<open>SHA-256 digests have 32 bytes.\<close>

definition sha_size :: "(string \<Rightarrow> hash result) \<Rightarrow> bool" where
  "sha_size sha = (\<forall>k h. sha k = Inr h \<longrightarrow> length h = 32)"

lemma same_cache_refl [simp, intro]: "same_cache st st"
  by (simp add: same_cache_def)

lemma same_cache_trans: "same_cache a b \<Longrightarrow> same_cache b c \<Longrightarrow> same_cache a c"
  by (simp add: same_cache_def)

lemma store_at_db: "store_at tb st t \<Longrightarrow> \<exists>sv. db_at tb saved st t sv"
  by (auto simp: store_at_def db_at_def)

lemma store_at_cache:
  "store_at tb st t \<Longrightarrow> same_cache st st' \<Longrightarrow> db_at tb saved st' t' sv \<Longrightarrow> live_row t' = live_row t \<Longrightarrow>
     store_at tb st' t'"
  by (auto simp: store_at_def db_at_def same_cache_def split: option.splits)

context sqlite_contract
begin

abbreviation "at_db \<equiv> db_at tb saved"

lemma exec_sql_spec:
  assumes "at_db st t sv" "exec_sql vt s st = (r, st')" "s \<noteq> SelectActive"
  shows "same_cache st st'"
    and "failed r \<Longrightarrow> at_db st' t sv"
    and "\<not> failed r \<Longrightarrow> \<exists>t'. sql_effect s t = (r, t') \<and> at_db st' t' sv"
proof -
  from assms(1) obtain d where d: "ks_database st = Some d" "tb d = t" "saved d = sv"
    by (auto simp: db_at_def split: option.splits)
  obtain d' where run: "sq_run vt s d = (r, d')" and st': "st' = st\<lparr>ks_database := Some d'\<rparr>"
    using assms(2) d(1) by (cases "sq_run vt s d") (auto simp: exec_sql_def)
  show "same_cache st st'" by (simp add: st' same_cache_def)
  show "failed r \<Longrightarrow> at_db st' t sv"
    using run_failed [OF run] run_saved [OF run] d by (simp add: st' db_at_def)
  have "reply_matches s r r0 \<Longrightarrow> r0 = r" for r0
    using assms(3) by (cases s; cases r; cases r0) auto
  then show "\<not> failed r \<Longrightarrow> \<exists>t'. sql_effect s t = (r, t') \<and> at_db st' t' sv"
    using run_done [OF run] run_saved [OF run] d by (auto simp: st' db_at_def)
qed

lemma begin_tx_spec:
  assumes "at_db st t sv" "begin_tx vt st = (ok, st')"
  shows "same_cache st st'" "\<exists>sv'. at_db st' t sv'" "ok \<Longrightarrow> at_db st' t (Some t)"
proof -
  from assms(1) obtain d where d: "ks_database st = Some d" "tb d = t" "saved d = sv"
    by (auto simp: db_at_def split: option.splits)
  obtain d' where run: "sq_begin vt d = (ok, d')" and st': "st' = st\<lparr>ks_database := Some d'\<rparr>"
    using assms(2) d(1) by (cases "sq_begin vt d") (auto simp: begin_tx_def)
  show "same_cache st st'" "\<exists>sv'. at_db st' t sv'" "ok \<Longrightarrow> at_db st' t (Some t)"
    using run begin_tables [OF run] begin_saves d by (auto simp: st' same_cache_def db_at_def)
qed

lemma finish_tx_spec:
  assumes "at_db st t' (Some t)" "finish_tx vt failure success st = (r, c, st')"
  shows "same_cache st st'" "c \<Longrightarrow> r = success \<and> (\<exists>sv. at_db st' t' sv)"
    "\<not> c \<Longrightarrow> r = failure st' \<and> at_db st' t' (Some t)"
proof -
  from assms(1) obtain d where d: "ks_database st = Some d" "tb d = t'" "saved d = Some t"
    by (auto simp: db_at_def split: option.splits)
  obtain d' where run: "sq_commit vt d = (c, d')" and st': "st' = st\<lparr>ks_database := Some d'\<rparr>"
    and r: "r = (if c then success else failure st')"
    using assms(2) d(1) by (cases "sq_commit vt d") (auto simp: finish_tx_def commit_tx_def)
  show "same_cache st st'" "c \<Longrightarrow> r = success \<and> (\<exists>sv. at_db st' t' sv)"
    "\<not> c \<Longrightarrow> r = failure st' \<and> at_db st' t' (Some t)"
    using run commit_tables [OF run] commit_failed d r by (auto simp: st' same_cache_def db_at_def)
qed

text \<open>
  The rule for a transaction: what the body establishes when it commits holds at the end; in every
  other case the tables and the cache are those of the start.
\<close>

lemma with_transaction_spec:
  assumes "at_db st t sv" "with_transaction vt not_started body st = (r, st')"
    and "\<And>s. \<not> is_ok (not_started s)"
    and body: "\<And>st1 r c st2. same_cache st st1 \<Longrightarrow> at_db st1 t (Some t) \<Longrightarrow> body st1 = (r, c, st2) \<Longrightarrow>
      if c then Q r st2 else \<not> is_ok r \<and> same_cache st st2 \<and> (\<exists>t'. at_db st2 t' (Some t))"
  shows "Q r st' \<or> (\<not> is_ok r \<and> same_cache st st' \<and> (\<exists>sv. at_db st' t sv))"
proof -
  obtain started st1 where tx: "begin_tx vt st = (started, st1)" by (cases "begin_tx vt st")
  note start = begin_tx_spec [OF assms(1) tx]
  show ?thesis
  proof (cases started)
    case False
    with assms(2,3) tx start(1,2) show ?thesis by (auto simp: with_transaction_def)
  next
    case True
    obtain r0 c st2 where b: "body st1 = (r0, c, st2)" by (cases "body st1")
    from assms(2) tx True b have r: "r = r0" "st' = (if c then st2 else rollback_tx vt st2)"
      by (simp_all add: with_transaction_def)
    from body [OF start(1) start(3) [OF True] b] r show ?thesis
      by (auto simp: db_at_def rollback_tx_def same_cache_def rollback split: if_splits option.splits)
  qed
qed

lemma transaction_or_nothing:
  assumes "with_transaction vt not_started body st = (r, st')" "store_at tb st t"
    and "\<And>s. \<not> is_ok (not_started s)"
    and "\<And>st1 r c st2. same_cache st st1 \<Longrightarrow> at_db st1 t (Some t) \<Longrightarrow> body st1 = (r, c, st2) \<Longrightarrow>
      if c then Q r st2 else \<not> is_ok r \<and> same_cache st st2 \<and> (\<exists>t'. at_db st2 t' (Some t))"
  shows "Q r st' \<or> (\<not> is_ok r \<and> store_at tb st' t)"
proof -
  obtain sv where sv: "at_db st t sv" using store_at_db [OF assms(2)] by blast
  have "Q r st' \<or> (\<not> is_ok r \<and> same_cache st st' \<and> (\<exists>sv. at_db st' t sv))"
    using assms(3,4) by (rule with_transaction_spec [OF sv assms(1)])
  then show ?thesis using store_at_cache [OF assms(2)] by blast
qed

text \<open>Creating a key: one fresh row, cached under its identifier.\<close>

lemma exec_insert_key:
  assumes "store_at tb st t" "exec_sql vt (InsertKey row) st = (r, st1)" "row_live row"
  shows "(failed r \<or> r = Constraint) \<and> store_at tb st1 t \<or>
    r = Done 1 \<and> \<not> list_ex (key_named (row_id row)) (t_keys t) \<and> live_row t (row_id row) = None \<and>
      store_at tb (st1\<lparr>ks_active := emplace (row_id row) row (ks_active st1)\<rparr>)
        (t\<lparr>t_keys := t_keys t @ [row]\<rparr>)"
proof -
  obtain sv where sv: "at_db st t sv" using store_at_db [OF assms(1)] by blast
  note run = exec_sql_spec [OF sv assms(2), simplified]
  show ?thesis
  proof (cases "failed r \<or> r = Constraint")
    case True
    then have "at_db st1 t sv" using run by (auto simp: failed_def split: if_splits)
    with True show ?thesis using store_at_cache [OF assms(1) run(1)] by blast
  next
    case False
    then obtain t' where eff: "sql_effect (InsertKey row) t = (r, t')" "at_db st1 t' sv" using run by auto
    with False have r: "r = Done 1" "t' = t\<lparr>t_keys := t_keys t @ [row]\<rparr>"
      and fresh: "\<not> list_ex (key_named (row_id row)) (t_keys t)" by (auto split: if_splits)
    have none: "live_row t (row_id row) = None"
      using fresh by (auto simp: live_row_def find_None_iff list_ex_iff live_named_def key_named_def)
    then have "live_row t' = (live_row t)(row_id row \<mapsto> row)"
      using assms(3) by (auto simp: r(2) live_row_def find_append fun_eq_iff live_named_def split: option.split)
    then show ?thesis
      using assms(1) run(1) eff(2) none r fresh
      by (auto simp: store_at_def same_cache_def db_at_def emplace_def map_add_def fun_eq_iff
          split: option.splits)
  qed
qed

lemma create_attempts_spec:
  assumes "create_attempts vt sha name priority draws st = (res, st')"
    and "store_at tb st t" "valid_name name" "valid_priority priority"
    and sha: "sha_size sha"
  shows "(\<not> is_ok res \<and> store_at tb st' t) \<or>
    (\<exists>draw ib sb h row. draw \<in> set draws \<and> kd_identifier draw = Inr ib \<and> kd_secret draw = Inr sb \<and>
       sha (api_key_text ib sb) = Inr h \<and>
       row = \<lparr>aa_record = new_record (hex_encode ib) (api_key_text ib sb) name priority (kd_now draw),
              aa_hash = h\<rparr> \<and>
       res = Ok \<lparr>ck_record = aa_record row, ck_key = api_key_text ib sb\<rparr> \<and>
       live_row t (hex_encode ib) = None \<and> ring_step t (t\<lparr>t_keys := t_keys t @ [row]\<rparr>) \<and> store_at tb st' (t\<lparr>t_keys := t_keys t @ [row]\<rparr>))"
  using assms(1,2)
proof (induction draws arbitrary: st)
  case Nil
  then show ?case by auto
next
  case (Cons draw draws)
  show ?case
  proof (cases "\<exists>ib sb h. kd_identifier draw = Inr ib \<and> kd_secret draw = Inr sb \<and>
      sha (api_key_text ib sb) = Inr h")
    case False
    with Cons.prems show ?thesis
      by (cases "kd_identifier draw"; cases "kd_secret draw") (auto simp: Let_def split: sum.splits)
  next
    case True
    then obtain ib sb h where draw: "kd_identifier draw = Inr ib" "kd_secret draw = Inr sb"
      "sha (api_key_text ib sb) = Inr h" by blast
    let ?row = "\<lparr>aa_record = new_record (hex_encode ib) (api_key_text ib sb) name priority (kd_now draw),
        aa_hash = h\<rparr>"
    obtain r st1 where e: "exec_sql vt (InsertKey ?row) st = (r, st1)" by (cases "exec_sql vt (InsertKey ?row) st")
    have row: "row_live ?row" "row_id ?row = hex_encode ib" "row_ok ?row"
      using assms(3,4) sha draw(3) by (simp_all add: new_record_def row_ok_def sha_size_def)
    from exec_insert_key [OF Cons.prems(2) e row(1)] consider
        "r = Constraint" "store_at tb st1 t" | "failed r" "store_at tb st1 t"
      | "r = Done 1" "live_row t (hex_encode ib) = None" "ring_step t (t\<lparr>t_keys := t_keys t @ [?row]\<rparr>)"
        "store_at tb (st1\<lparr>ks_active := emplace (hex_encode ib) ?row (ks_active st1)\<rparr>)
          (t\<lparr>t_keys := t_keys t @ [?row]\<rparr>)"
      using ring_step.Issue [OF _ row(1,3)] row(2) by auto
    then show ?thesis
    proof cases
      case 1
      with Cons.prems(1) draw e have "create_attempts vt sha name priority draws st1 = (res, st')"
        by (simp add: Let_def)
      from Cons.IH [OF this 1(2)] show ?thesis by auto
    next
      case 2
      with Cons.prems(1) draw e show ?thesis by (auto simp: Let_def failed_def)
    next
      case 3
      with Cons.prems(1) draw e show ?thesis by (auto simp: Let_def)
    qed
  qed
qed

lemma create_spec:
  assumes "create vt sha draw name priority st = (res, st')" "store_at tb st t"
    and "sha_size sha"
  shows "(\<not> is_ok res \<and> store_at tb st' t) \<or>
    (\<exists>n ib sb h row. kd_identifier (draw n) = Inr ib \<and> kd_secret (draw n) = Inr sb \<and>
       sha (api_key_text ib sb) = Inr h \<and>
       row = \<lparr>aa_record = new_record (hex_encode ib) (api_key_text ib sb) name priority (kd_now (draw n)),
              aa_hash = h\<rparr> \<and>
       res = Ok \<lparr>ck_record = aa_record row, ck_key = api_key_text ib sb\<rparr> \<and>
       live_row t (hex_encode ib) = None \<and> ring_step t (t\<lparr>t_keys := t_keys t @ [row]\<rparr>) \<and> store_at tb st' (t\<lparr>t_keys := t_keys t @ [row]\<rparr>))"
proof (cases "valid_name name \<and> valid_priority priority")
  case True
  with assms(1,2) have run: "create_attempts vt sha name priority (map draw [0..<4]) st = (res, st')"
    by (simp add: create_def store_at_def)
  show ?thesis
    using create_attempts_spec [OF run assms(2) _ _ assms(3)] True by (fastforce simp: image_iff)
next
  case False
  with assms(1,2) show ?thesis
    by (auto simp: create_def bad_name_def bad_priority_def split: if_splits)
qed

lemma update_key_spec:
  assumes "update_key vt now i name priority st = (res, st')" "store_at tb st t" "table_inv t"
  shows "(\<not> is_ok res \<and> store_at tb st' t) \<or>
    (\<exists>t' k. ring_step t t' \<and> store_at tb st' t' \<and> res = Ok k \<and>
       map_option aa_record (live_row t' i) = Some k)"
proof (cases "\<exists>active. lookup (ks_active st) i = Some active \<and> ks_is_healthy st \<and>
    (name \<noteq> None \<or> priority \<noteq> None) \<and> (\<forall>n. name = Some n \<longrightarrow> valid_name n) \<and>
    (\<forall>p. priority = Some p \<longrightarrow> valid_priority p)")
  case False
  with assms(1,2) show ?thesis
    by (auto simp: update_key_def bad_name_def bad_priority_def store_unavailable_def
        split: if_splits option.splits)
next
  case True
  then obtain active where active: "lookup (ks_active st) i = Some active" by blast
  let ?u = "changed_record name priority now (aa_record active)"
  let ?s = "UpdateKey i (ak_name ?u) (ak_priority ?u) now"
  let ?f = "\<lambda>k. k\<lparr>ak_name := ak_name ?u, ak_priority := ak_priority ?u, ak_updated := now\<rparr>"
  from active assms(2) have row: "live_row t i = Some active" by (simp add: store_at_def)
  have "row_ok active" using live_row_Some [OF row] assms(3) by (auto simp: table_inv_def list_all_iff)
  with True have valid: "valid_name (ak_name ?u)" "valid_priority (ak_priority ?u)"
    by (auto simp: changed_record_def row_ok_def split: option.split)
  obtain sv where sv: "at_db st t sv" using store_at_db [OF assms(2)] by blast
  obtain r st1 where e: "exec_sql vt ?s st = (r, st1)" by (cases "exec_sql vt ?s st")
  note run = exec_sql_spec [OF sv e, simplified]
  from assms(1) True active e have res:
    "(res, st') = (if r = Done 1
       then (Ok ?u, st1\<lparr>ks_active := AList.update i (active\<lparr>aa_record := ?u\<rparr>) (ks_active st1)\<rparr>)
       else (if r = PrepareFailed then Err IoError ''cannot prepare API key update''
             else Err IoError ''cannot update API key'', st1))"
    by (cases r) (auto simp: update_key_def Let_def split: if_splits option.splits)
  have f: "?f (aa_record active) = ?u" by (cases "aa_record active") (simp add: changed_record_def)
  have live: "live_row (edit_row i ?f t) = (live_row t)(i \<mapsto> active\<lparr>aa_record := ?u\<rparr>)"
    using row f by (auto simp: live_row_edit fun_eq_iff)
  have eff: "\<not> failed r \<Longrightarrow> at_db st1 (edit_row i ?f t) sv"
    using run(3) valid by (auto simp: edit_row_def)
  have one: "\<not> failed r \<Longrightarrow> r = Done 1"
    using run(3) valid filter_live_named [OF row] assms(3) by (auto simp: update_rows_def table_inv_def)
  show ?thesis
  proof (cases "failed r")
    case True
    then show ?thesis
      using res store_at_cache [OF assms(2) run(1) run(2)] by (auto simp: failed_def)
  next
    case False
    then have "store_at tb st' (edit_row i ?f t)"
      using assms(2) run(1) eff live res one
      by (auto simp: store_at_def same_cache_def db_at_def split: option.splits)
    moreover have "ring_step t (edit_row i ?f t)" using valid by (rule ring_step.Edit)
    ultimately show ?thesis using res one [OF False] live by auto
  qed
qed

text \<open>Revoking a key: marked, uncached, and its lease gone, or nothing at all.\<close>

lemma revoke_live_spec:
  assumes "revoke_live vt now i st = (r, c, st')" "at_db st t (Some t0)" "table_inv t" "live_row t i = Some row"
  shows "if c then r = Ok () \<and> ks_is_healthy st' = ks_is_healthy st \<and>
           ks_active st' = AList.delete i (ks_active st) \<and>
           (\<exists>sv. at_db st' (drop_lease (\<lambda>l. bl_owner l = i)
              (edit_row i (\<lambda>k. k\<lparr>ak_revoked := Some now, ak_updated := now\<rparr>) t)) sv)
         else \<not> is_ok r \<and> same_cache st st' \<and> (\<exists>t'. at_db st' t' (Some t0))"
proof -
  let ?t1 = "edit_row i (\<lambda>k. k\<lparr>ak_revoked := Some now, ak_updated := now\<rparr>) t"
  obtain r1 st1 where e1: "exec_sql vt (RevokeKey i now) st = (r1, st1)" by (cases "exec_sql vt (RevokeKey i now) st")
  note run1 = exec_sql_spec [OF assms(2) e1, simplified]
  show ?thesis
  proof (cases "failed r1")
    case True
    with assms(1) e1 run1(1) run1(2) show ?thesis
      by (auto simp: revoke_live_def failed_def sqlite_failure_def)
  next
    case False
    with run1(3) filter_live_named [OF assms(4)] assms(3) have one: "r1 = Done 1" and db1: "at_db st1 ?t1 (Some t0)"
      by (auto simp: update_rows_def edit_row_def table_inv_def)
    obtain r2 st2 where e2: "exec_sql vt (DeleteOwnerLease i) st1 = (r2, st2)"
      by (cases "exec_sql vt (DeleteOwnerLease i) st1")
    note run2 = exec_sql_spec [OF db1 e2, simplified]
    note cache = same_cache_trans [OF run1(1) run2(1)]
    show ?thesis
    proof (cases "failed r2")
      case True
      with assms(1) e1 one e2 cache run2(2) show ?thesis
        by (auto simp: revoke_live_def failed_def sqlite_failure_def)
    next
      case False
      then obtain n where r2: "r2 = Done n"
        and db2: "at_db st2 (drop_lease (\<lambda>l. bl_owner l = i) ?t1) (Some t0)"
        using run2(3) by (auto simp: drop_lease_def delete_lease_if_def split: option.splits if_splits)
      let ?failure = "sqlite_failure vt ''cannot complete API key revocation''"
      obtain r3 c3 st3 where e3: "finish_tx vt ?failure (Ok ()) st2 = (r3, c3, st3)"
        by (cases "finish_tx vt ?failure (Ok ()) st2")
      note fin = finish_tx_spec [OF db2 e3]
      from assms(1) e1 one e2 r2 e3 have "r = r3" "c = c3"
        "st' = (if c3 then st3\<lparr>ks_active := AList.delete i (ks_active st3)\<rparr> else st3)"
        by (auto simp: revoke_live_def)
      with fin cache show ?thesis
        by (auto simp: same_cache_def sqlite_failure_def db_at_def split: option.splits)
    qed
  qed
qed

lemma revoke_spec:
  assumes "revoke vt now i st = (res, st')" "store_at tb st t" "table_inv t"
  shows "(\<not> is_ok res \<and> store_at tb st' t) \<or>
    (res = Ok () \<and> live_row t i = None \<and> list_ex (key_named i) (t_keys t) \<and> store_at tb st' t) \<or>
    (\<exists>t'. res = Ok () \<and> live_row t i \<noteq> None \<and> store_at tb st' t' \<and>
       t' = drop_lease (\<lambda>l. bl_owner l = i)
              (edit_row i (\<lambda>k. k\<lparr>ak_revoked := Some now, ak_updated := now\<rparr>) t))"
proof -
  let ?t1 = "drop_lease (\<lambda>l. bl_owner l = i)
              (edit_row i (\<lambda>k. k\<lparr>ak_revoked := Some now, ak_updated := now\<rparr>) t)"
  let ?nf = "sqlite_failure vt ''cannot begin API key revocation''"
  let ?Q = "\<lambda>res st'. res = Ok () \<and>
    (live_row t i = None \<and> list_ex (key_named i) (t_keys t) \<and> store_at tb st' t \<or>
     live_row t i \<noteq> None \<and> store_at tb st' ?t1)"
  obtain body where body: "with_transaction vt ?nf body st = (res, st')"
    and body_def: "body = (\<lambda>st1. case exec_sql vt (LookupKey i) st1 of
            (PrepareFailed, st2) \<Rightarrow> (sqlite_failure vt ''cannot inspect API key'' st2, False, st2)
          | (Done _, st2) \<Rightarrow> (Err NotFound ''API key not found'', False, st2)
          | (RevokedColumn revoked_at, st2) \<Rightarrow>
              if revoked_at \<noteq> None
              then finish_tx vt (sqlite_failure vt ''cannot complete API key revocation'') (Ok ()) st2
              else revoke_live vt now i st2
          | (_, st2) \<Rightarrow> (sqlite_failure vt ''cannot inspect API key'' st2, False, st2))"
    using assms(1,2) by (simp add: revoke_def store_at_def)
  have step: "if c then ?Q r st2 else \<not> is_ok r \<and> same_cache st st2 \<and> (\<exists>t'. at_db st2 t' (Some t))"
    if "same_cache st st1" "at_db st1 t (Some t)" "body st1 = (r, c, st2)" for st1 r c st2
  proof -
    obtain r1 sta where e: "exec_sql vt (LookupKey i) st1 = (r1, sta)" by (cases "exec_sql vt (LookupKey i) st1")
    note run = exec_sql_spec [OF that(2) e, simplified]
    note cache = same_cache_trans [OF that(1) run(1)]
    consider "failed r1" | "r1 = Done 0" "at_db sta t (Some t)"
      | row where "find (key_named i) (t_keys t) = Some row"
          "r1 = RevokedColumn (ak_revoked (aa_record row))" "at_db sta t (Some t)"
      using run(3) by (cases "failed r1"; cases "find (key_named i) (t_keys t)") auto
    then show ?thesis
    proof cases
      case 1
      with that(3) e run(2) cache show ?thesis by (auto simp: body_def failed_def sqlite_failure_def)
    next
      case 2
      with that(3) e cache show ?thesis by (auto simp: body_def)
    next
      case (3 row)
      have row: "live_row t i = (if row_live row then Some row else None)" "list_ex (key_named i) (t_keys t)"
        using live_row_named [OF 3(1)] assms(3) 3(1)
        by (auto simp: table_inv_def find_Some_iff list_ex_length)
      show ?thesis
      proof (cases "row_live row")
        case False
        with that(3) e 3 have
          "finish_tx vt (sqlite_failure vt ''cannot complete API key revocation'') (Ok ()) sta = (r, c, st2)"
          by (auto simp: body_def)
        note fin = finish_tx_spec [OF 3(3) this]
        show ?thesis using fin False row same_cache_trans [OF cache fin(1)] store_at_cache [OF assms(2)]
          by (auto simp: sqlite_failure_def)
      next
        case True
        with that(3) e 3 have "revoke_live vt now i sta = (r, c, st2)" by (auto simp: body_def)
        note rl = revoke_live_spec [OF this 3(3) assms(3)]
        have "live_row ?t1 = (live_row t)(i := None)" by (auto simp: live_row_revoke fun_eq_iff)
        with rl True row cache assms(2) show ?thesis
          by (auto simp: same_cache_def store_at_def db_at_def split: option.splits if_splits)
      qed
    qed
  qed
  have "?Q res st' \<or> (\<not> is_ok res \<and> store_at tb st' t)"
    by (rule transaction_or_nothing [OF body assms(2)], simp add: sqlite_failure_def) (rule step)
  then show ?thesis by blast
qed

text \<open>The background lease: its operations never touch the keys.\<close>

lemma finish_lease:
  assumes "finish_tx vt failure success sta = (r, c, st2)" "store_at tb st t" "same_cache st sta"
    "at_db sta t' (Some t)" "live_row t' = live_row t" "\<And>s. \<not> is_ok (failure s)"
  shows "if c then r = success \<and> store_at tb st2 t'
    else \<not> is_ok r \<and> same_cache st st2 \<and> (\<exists>t'. at_db st2 t' (Some t))"
proof -
  note fin = finish_tx_spec [OF assms(4,1)]
  note cache = same_cache_trans [OF assms(3) fin(1)]
  show ?thesis
    using fin(2,3) cache store_at_cache [OF assms(2) cache _ assms(5)] assms(6) by auto
qed

lemma read_lease_spec:
  assumes "read_active_background_lease vt now st = (r, st')" "at_db st t sv"
  shows "same_cache st st'" "\<exists>t'. at_db st' t' sv"
    "r = Ok lease \<Longrightarrow> at_db st' (drop_lease (\<lambda>l. bl_expires l \<le> now) t) sv \<and>
       lease = t_lease (drop_lease (\<lambda>l. bl_expires l \<le> now) t)"
proof -
  let ?t1 = "drop_lease (\<lambda>l. bl_expires l \<le> now) t"
  obtain r1 st1 where e1: "exec_sql vt (DeleteExpired now) st = (r1, st1)"
    by (cases "exec_sql vt (DeleteExpired now) st")
  note run1 = exec_sql_spec [OF assms(2) e1, simplified]
  have "same_cache st st' \<and> (\<exists>t'. at_db st' t' sv) \<and>
      (r = Ok lease \<longrightarrow> at_db st' ?t1 sv \<and> lease = t_lease ?t1)" for lease
  proof (cases "failed r1")
    case True
    with assms(1) e1 run1 show ?thesis by (auto simp: read_active_background_lease_def failed_def)
  next
    case False
    then obtain n where r1: "r1 = Done n" and db1: "at_db st1 ?t1 sv"
      using run1(3) delete_lease_effect [of "\<lambda>l. bl_expires l \<le> now" t] by auto
    obtain r2 st2 where e2: "exec_sql vt SelectLease st1 = (r2, st2)" by (cases "exec_sql vt SelectLease st1")
    have "SelectLease \<noteq> SelectActive" by simp
    note run2 = exec_sql_spec [OF db1 e2 this]
    note cache = same_cache_trans [OF run1(1) run2(1)]
    consider "failed r2" | "r2 = Done 0" "t_lease ?t1 = None" "at_db st2 ?t1 sv"
      | l where "r2 = LeaseRow l" "t_lease ?t1 = Some l" "at_db st2 ?t1 sv"
      using run2(3) by (cases "failed r2"; cases "t_lease ?t1") (auto simp del: drop_lease_keys)
    then show ?thesis
      by cases (use assms(1) e1 r1 e2 cache run2(2) in
        \<open>auto simp: read_active_background_lease_def failed_def simp del: drop_lease_keys\<close>)
  qed
  then show "same_cache st st'" "\<exists>t'. at_db st' t' sv"
    "r = Ok lease \<Longrightarrow> at_db st' ?t1 sv \<and> lease = t_lease ?t1" by blast+
qed

lemma release_spec:
  assumes "release_background_lease vt owner lease_id st = (res, st')" "store_at tb st t"
  shows "(\<not> is_ok res \<and> store_at tb st' t) \<or>
    (res = Ok () \<and> store_at tb st' (drop_lease (\<lambda>l. bl_id l = lease_id \<and> bl_owner l = owner) t))"
proof -
  let ?t1 = "drop_lease (\<lambda>l. bl_id l = lease_id \<and> bl_owner l = owner) t"
  let ?nf = "\<lambda>_. Err IoError ''cannot begin background lease release''"
  obtain body where body: "with_transaction vt ?nf body st = (res, st')"
    and body_def: "body = (\<lambda>st1. case exec_sql vt (DeleteLease lease_id owner) st1 of
            (PrepareFailed, st2) \<Rightarrow>
              (Err IoError ''cannot prepare background lease release'', False, st2)
          | (Done _, st2) \<Rightarrow>
              finish_tx vt (\<lambda>_. Err IoError ''cannot release background lease'') (Ok ()) st2
          | (_, st2) \<Rightarrow> (Err IoError ''cannot release background lease'', False, st2))"
    using assms by (simp add: release_background_lease_def store_at_def)
  have step: "if c then r = Ok () \<and> store_at tb st2 ?t1
      else \<not> is_ok r \<and> same_cache st st2 \<and> (\<exists>t'. at_db st2 t' (Some t))"
    if "same_cache st st1" "at_db st1 t (Some t)" "body st1 = (r, c, st2)" for st1 r c st2
  proof -
    obtain r1 sta where e: "exec_sql vt (DeleteLease lease_id owner) st1 = (r1, sta)"
      by (cases "exec_sql vt (DeleteLease lease_id owner) st1")
    note run = exec_sql_spec [OF that(2) e, simplified]
    note cache = same_cache_trans [OF that(1) run(1)]
    show ?thesis
    proof (cases "failed r1")
      case True
      with that(3) e run(2) cache show ?thesis by (auto simp: body_def failed_def)
    next
      case False
      then obtain n where "r1 = Done n" and db: "at_db sta ?t1 (Some t)"
        using run(3) delete_lease_effect [of "\<lambda>l. bl_id l = lease_id \<and> bl_owner l = owner" t] by auto
      with that(3) e have
        "finish_tx vt (\<lambda>_. Err IoError ''cannot release background lease'') (Ok ()) sta = (r, c, st2)"
        by (simp add: body_def)
      from finish_lease [OF this assms(2) cache db] show ?thesis by simp
    qed
  qed
  have "(res = Ok () \<and> store_at tb st' ?t1) \<or> (\<not> is_ok res \<and> store_at tb st' t)"
    by (rule transaction_or_nothing [OF body assms(2)], simp) (rule step)
  then show ?thesis by blast
qed

lemma insert_lease_spec:
  assumes "insert_lease vt l sta = (r, c, st2)" "store_at tb st t" "same_cache st sta"
    "at_db sta t1 (Some t)" "live_row t1 = live_row t" "t_lease t1 = None" "live_row t (bl_owner l) \<noteq> None"
  shows "if c then r = Ok (Acquired, l) \<and> store_at tb st2 (t1\<lparr>t_lease := Some l\<rparr>)
    else \<not> is_ok r \<and> same_cache st st2 \<and> (\<exists>t'. at_db st2 t' (Some t))"
proof -
  obtain r1 stb where e: "exec_sql vt (InsertLease l) sta = (r1, stb)" by (cases "exec_sql vt (InsertLease l) sta")
  note run = exec_sql_spec [OF assms(4) e, simplified]
  note cache = same_cache_trans [OF assms(3) run(1)]
  from assms(5,7) have "list_ex (key_named (bl_owner l)) (t_keys t1)"
    using live_row_Some [of t1] by (auto simp: list_ex_iff key_named_def)
  then have ok: "\<not> failed r1 \<Longrightarrow> r1 = Done 1 \<and> at_db stb (t1\<lparr>t_lease := Some l\<rparr>) (Some t)"
    using run(3) assms(6) by auto
  show ?thesis
  proof (cases "failed r1")
    case True
    with assms(1) e run(2) cache show ?thesis by (auto simp: insert_lease_def failed_def)
  next
    case False
    with ok have r1: "r1 = Done 1" and db: "at_db stb (t1\<lparr>t_lease := Some l\<rparr>) (Some t)" by simp_all
    from r1 assms(1) e have
      "finish_tx vt (\<lambda>_. Err IoError ''cannot persist background lease'') (Ok (Acquired, l)) stb = (r, c, st2)"
      by (simp add: insert_lease_def)
    from finish_lease [OF this assms(2) cache db] assms(5) show ?thesis by simp
  qed
qed

lemma acquire_spec:
  assumes "acquire_background_lease vt random owner now duration st = (res, st')" "store_at tb st t"
  shows "(\<not> is_ok res \<and> store_at tb st' t) \<or>
    (\<exists>l. t_lease t = Some l \<and> now < bl_expires l \<and> store_at tb st' t \<and>
       res = Ok (if bl_owner l = owner then Existing else Occupied, l)) \<or>
    (\<exists>bytes. random = Inr bytes \<and> t_lease (drop_lease (\<lambda>l. bl_expires l \<le> now) t) = None \<and>
       live_row t owner \<noteq> None \<and>
       res = Ok (Acquired, new_lease (hex_encode bytes) owner now duration) \<and>
       store_at tb st' (t\<lparr>t_lease := Some (new_lease (hex_encode bytes) owner now duration)\<rparr>))"
    (is "_ \<or> ?Q res st'")
proof (cases "valid_lease_window now duration \<and> has_key (ks_active st) owner")
  case False
  with assms show ?thesis
    by (auto simp: acquire_background_lease_def store_unavailable_def split: if_splits)
next
  case True
  let ?t1 = "drop_lease (\<lambda>l. bl_expires l \<le> now) t"
  have owner: "live_row t owner \<noteq> None" using True assms(2) by (simp add: store_at_def)
  obtain body where
    body: "with_transaction vt (\<lambda>_. Err IoError ''cannot begin background lease acquisition'') body st
      = (res, st')"
    and body_def: "body = (\<lambda>st1. case read_active_background_lease vt now st1 of
            (Inl e, st2) \<Rightarrow> (Err (err_code e) (err_message e), False, st2)
          | (Inr (Some l), st2) \<Rightarrow>
              finish_tx vt (\<lambda>_. Err IoError ''cannot complete background lease acquisition'')
                (Ok (if bl_owner l = owner then Existing else Occupied, l)) st2
          | (Inr None, st2) \<Rightarrow>
              (case random of
                 Inl e \<Rightarrow> (Err (err_code e) (err_message e), False, st2)
               | Inr bytes \<Rightarrow>
                   insert_lease vt (new_lease (hex_encode bytes) owner now duration) st2))"
    using assms True by (simp add: acquire_background_lease_def store_at_def)
  have step: "if c then ?Q r st2 else \<not> is_ok r \<and> same_cache st st2 \<and> (\<exists>t'. at_db st2 t' (Some t))"
    if "same_cache st st1" "at_db st1 t (Some t)" "body st1 = (r, c, st2)" for st1 r c st2
  proof -
    obtain r1 sta where e: "read_active_background_lease vt now st1 = (r1, sta)"
      by (cases "read_active_background_lease vt now st1")
    note read = read_lease_spec [OF e that(2)]
    note cache = same_cache_trans [OF that(1) read(1)]
    consider er where "r1 = Inl er" | l where "r1 = Inr (Some l)" | "r1 = Inr None"
      by (cases r1) (auto split: option.splits)
    then show ?thesis
    proof cases
      case (1 er)
      with that(3) e cache read(2) show ?thesis by (auto simp: body_def)
    next
      case (2 l)
      from read(3) [OF 2] have l: "t_lease t = Some l" "now < bl_expires l" and db: "at_db sta t (Some t)"
        by (auto simp: drop_lease_keep split: option.splits if_splits)
      from that(3) e 2 have "finish_tx vt (\<lambda>_. Err IoError ''cannot complete background lease acquisition'')
          (Ok (if bl_owner l = owner then Existing else Occupied, l)) sta = (r, c, st2)"
        by (simp add: body_def)
      from finish_lease [OF this assms(2) cache db] l show ?thesis by auto
    next
      case 3
      from read(3) [OF 3] have none: "t_lease ?t1 = None" and db: "at_db sta ?t1 (Some t)" by simp_all
      show ?thesis
      proof (cases random)
        case (Inl er)
        with that(3) e 3 cache read(2) show ?thesis by (auto simp: body_def)
      next
        case (Inr bytes)
        with that(3) e 3 have
          "insert_lease vt (new_lease (hex_encode bytes) owner now duration) sta = (r, c, st2)"
          by (simp add: body_def)
        from insert_lease_spec [OF this assms(2) cache db _ none] owner Inr none show ?thesis
          by (auto simp: new_lease_def)
      qed
    qed
  qed
  have "?Q res st' \<or> (\<not> is_ok res \<and> store_at tb st' t)"
    by (rule transaction_or_nothing [OF body assms(2)], simp) (rule step)
  then show ?thesis by blast
qed

lemma renew_step_spec:
  assumes "store_at tb st t" "same_cache st sta" "at_db sta t (Some t)" "t_lease t = Some l" "bl_owner l = owner"
    and "exec_sql vt (RenewLease (bl_id l) owner e) sta = (r1, stb)"
    and "(r, c, st2) = (if r1 = Done 1 then
        finish_tx vt (\<lambda>_. Err IoError ''cannot renew background lease'') (Ok (l\<lparr>bl_expires := e\<rparr>)) stb
      else (if r1 = PrepareFailed then Err IoError ''cannot prepare background lease renewal''
            else Err IoError ''cannot renew background lease'', False, stb))"
  shows "if c then r = Ok (l\<lparr>bl_expires := e\<rparr>) \<and>
      store_at tb st2 (t\<lparr>t_lease := Some (l\<lparr>bl_expires := e\<rparr>)\<rparr>)
    else \<not> is_ok r \<and> same_cache st st2 \<and> (\<exists>t'. at_db st2 t' (Some t))"
proof -
  note run = exec_sql_spec [OF assms(3,6), simplified]
  note cache = same_cache_trans [OF assms(2) run(1)]
  have ok: "\<not> failed r1 \<Longrightarrow> r1 = Done 1 \<and> at_db stb (t\<lparr>t_lease := Some (l\<lparr>bl_expires := e\<rparr>)\<rparr>) (Some t)"
    using run(3) assms(4,5) by auto
  show ?thesis
  proof (cases "failed r1")
    case True
    with assms(7) run(2) cache show ?thesis by (auto simp: failed_def)
  next
    case False
    with ok have r1: "r1 = Done 1"
      and db: "at_db stb (t\<lparr>t_lease := Some (l\<lparr>bl_expires := e\<rparr>)\<rparr>) (Some t)" by simp_all
    from r1 assms(7) have "finish_tx vt (\<lambda>_. Err IoError ''cannot renew background lease'')
        (Ok (l\<lparr>bl_expires := e\<rparr>)) stb = (r, c, st2)" by simp
    from finish_lease [OF this assms(1) cache db] show ?thesis by simp
  qed
qed

lemma renew_spec:
  assumes "renew_background_lease vt owner lease_id now duration st = (res, st')" "store_at tb st t"
  shows "(\<not> is_ok res \<and> (store_at tb st' t \<or> store_at tb st' (drop_lease (\<lambda>l. bl_expires l \<le> now) t))) \<or>
    (\<exists>l. t_lease t = Some l \<and> now < bl_expires l \<and> bl_owner l = owner \<and> bl_id l = lease_id \<and>
       res = Ok (l\<lparr>bl_expires := now + duration\<rparr>) \<and>
       store_at tb st' (t\<lparr>t_lease := Some (l\<lparr>bl_expires := now + duration\<rparr>)\<rparr>))"
    (is "_ \<or> ?R res st'")
proof (cases "valid_lease_window now duration \<and> has_key (ks_active st) owner")
  case False
  with assms show ?thesis
    by (auto simp: renew_background_lease_def store_unavailable_def split: if_splits)
next
  case True
  let ?t1 = "drop_lease (\<lambda>l. bl_expires l \<le> now) t"
  let ?Q = "\<lambda>res st'. ?R res st' \<or> (\<not> is_ok res \<and> store_at tb st' ?t1)"
  obtain body where
    body: "with_transaction vt (\<lambda>_. Err IoError ''cannot begin background lease renewal'') body st
      = (res, st')"
    and body_def: "body = (\<lambda>st1. case read_active_background_lease vt now st1 of
            (Inl e, st2) \<Rightarrow> (Err (err_code e) (err_message e), False, st2)
          | (Inr current, st2) \<Rightarrow>
              (case current of
                 Some l \<Rightarrow>
                   if bl_owner l = owner \<and> bl_id l = lease_id
                   then let renewed = l\<lparr>bl_expires := now + duration\<rparr>
                        in case exec_sql vt (RenewLease (bl_id l) owner (now + duration)) st2 of
                             (PrepareFailed, st3) \<Rightarrow>
                               (Err IoError ''cannot prepare background lease renewal'', False, st3)
                           | (r, st3) \<Rightarrow>
                               if r \<noteq> Done 1
                               then (Err IoError ''cannot renew background lease'', False, st3)
                               else finish_tx vt
                                      (\<lambda>_. Err IoError ''cannot renew background lease'')
                                      (Ok renewed) st3
                   else finish_tx vt
                          (\<lambda>_. Err IoError ''cannot complete background lease renewal'')
                          (Err NotFound ''background lease not found'') st2
               | None \<Rightarrow>
                   finish_tx vt
                     (\<lambda>_. Err IoError ''cannot complete background lease renewal'')
                     (Err NotFound ''background lease not found'') st2))"
    using assms True by (simp add: renew_background_lease_def store_at_def)
  have step: "if c then ?Q r st2 else \<not> is_ok r \<and> same_cache st st2 \<and> (\<exists>t'. at_db st2 t' (Some t))"
    if "same_cache st st1" "at_db st1 t (Some t)" "body st1 = (r, c, st2)" for st1 r c st2
  proof -
    obtain r1 sta where e: "read_active_background_lease vt now st1 = (r1, sta)"
      by (cases "read_active_background_lease vt now st1")
    note read = read_lease_spec [OF e that(2)]
    note cache = same_cache_trans [OF that(1) read(1)]
    consider er where "r1 = Inl er"
      | l where "r1 = Inr (Some l)" "bl_owner l = owner" "bl_id l = lease_id"
      | lo where "r1 = Inr lo" "\<forall>l. lo = Some l \<longrightarrow> \<not> (bl_owner l = owner \<and> bl_id l = lease_id)"
      by (cases r1) (auto split: option.splits)
    then show ?thesis
    proof cases
      case (1 er)
      with that(3) e cache read(2) show ?thesis by (auto simp: body_def)
    next
      case (2 l)
      from read(3) [OF 2(1)] have l: "t_lease t = Some l" "now < bl_expires l" and db: "at_db sta t (Some t)"
        by (auto simp: drop_lease_keep split: option.splits if_splits)
      obtain r3 stb where e3: "exec_sql vt (RenewLease (bl_id l) owner (now + duration)) sta = (r3, stb)"
        by (cases "exec_sql vt (RenewLease (bl_id l) owner (now + duration)) sta")
      with that(3) e 2 have "(r, c, st2) = (if r3 = Done 1 then
          finish_tx vt (\<lambda>_. Err IoError ''cannot renew background lease'') (Ok (l\<lparr>bl_expires := now + duration\<rparr>)) stb
        else (if r3 = PrepareFailed then Err IoError ''cannot prepare background lease renewal''
              else Err IoError ''cannot renew background lease'', False, stb))"
        by (cases r3) (auto simp: body_def Let_def)
      from renew_step_spec [OF assms(2) cache db l(1) 2(2) e3 this] 2 l show ?thesis by auto
    next
      case (3 lo)
      with that(3) e have "finish_tx vt (\<lambda>_. Err IoError ''cannot complete background lease renewal'')
          (Err NotFound ''background lease not found'') sta = (r, c, st2)"
        by (auto simp: body_def split: option.splits)
      from finish_lease [OF this assms(2) cache] read(3) [OF 3(1)] show ?thesis by auto
    qed
  qed
  have "?Q res st' \<or> (\<not> is_ok res \<and> store_at tb st' t)"
    by (rule transaction_or_nothing [OF body assms(2)], simp) (rule step)
  then show ?thesis by blast
qed

lemma active_lease_spec:
  assumes "active_background_lease vt now st = (res, st')" "store_at tb st t"
  shows "(\<not> is_ok res \<and> store_at tb st' t) \<or>
    (res = Ok (t_lease (drop_lease (\<lambda>l. bl_expires l \<le> now) t)) \<and>
       store_at tb st' (drop_lease (\<lambda>l. bl_expires l \<le> now) t))"
proof (cases "now < 0")
  case True
  with assms show ?thesis by (auto simp: active_background_lease_def)
next
  case False
  let ?t1 = "drop_lease (\<lambda>l. bl_expires l \<le> now) t"
  let ?Q = "\<lambda>res st'. res = Ok (t_lease ?t1) \<and> store_at tb st' ?t1"
  obtain body where
    body: "with_transaction vt (\<lambda>_. Err IoError ''cannot begin background lease inspection'') body st
      = (res, st')"
    and body_def: "body = (\<lambda>st1. let (lease, st2) = read_active_background_lease vt now st1
          in if \<not> is_ok lease then (lease, False, st2)
             else finish_tx vt (\<lambda>_. Err IoError ''cannot complete background lease inspection'')
                    lease st2)"
    using assms False by (simp add: active_background_lease_def store_at_def)
  have step: "if c then ?Q r st2 else \<not> is_ok r \<and> same_cache st st2 \<and> (\<exists>t'. at_db st2 t' (Some t))"
    if "same_cache st st1" "at_db st1 t (Some t)" "body st1 = (r, c, st2)" for st1 r c st2
  proof -
    obtain r1 sta where e: "read_active_background_lease vt now st1 = (r1, sta)"
      by (cases "read_active_background_lease vt now st1")
    note read = read_lease_spec [OF e that(2)]
    note cache = same_cache_trans [OF that(1) read(1)]
    show ?thesis
    proof (cases r1)
      case (Inl er)
      with that(3) e cache read(2) show ?thesis by (auto simp: body_def)
    next
      case (Inr lo)
      with that(3) e have "finish_tx vt (\<lambda>_. Err IoError ''cannot complete background lease inspection'')
          (Ok lo) sta = (r, c, st2)" by (simp add: body_def)
      from finish_lease [OF this assms(2) cache] read(3) [OF Inr] show ?thesis by auto
    qed
  qed
  have "?Q res st' \<or> (\<not> is_ok res \<and> store_at tb st' t)"
    by (rule transaction_or_nothing [OF body assms(2)], simp) (rule step)
  then show ?thesis by blast
qed

lemma list_keys_spec:
  assumes "list_keys vt st = (res, st')" "store_at tb st t"
  shows "store_at tb st' t \<and> (\<forall>ks. res = Ok ks \<longrightarrow> mset ks = mset (map aa_record (t_keys t)))"
proof -
  obtain sv where sv: "at_db st t sv" using store_at_db [OF assms(2)] by blast
  obtain r st1 where e: "exec_sql vt ListKeys st = (r, st1)" by (cases "exec_sql vt ListKeys st")
  note run = exec_sql_spec [OF sv e, simplified]
  have res: "st' = st1" "\<forall>ks. res = Ok ks \<longrightarrow> (\<exists>rows. r = KeyRows rows \<and> ks = map aa_record rows)"
    using assms e by (cases r; auto simp: list_keys_def store_at_def)+
  have "at_db st1 t sv" using run by (cases "failed r") auto
  with assms(2) run(1) have "store_at tb st1 t" by (rule store_at_cache) simp
  with res run(3) show ?thesis
    by (force simp: failed_def mset_map)
qed

lemma load_active_spec:
  assumes "load_active vt st = (True, st')" "at_db st t sv" "ks_active st = []" "table_inv t"
  shows "at_db st' t sv" "map_of (ks_active st') = live_row t"
proof -
  obtain rows st1 where e: "exec_sql vt SelectActive st = (KeyRows rows, st1)"
    and st': "st' = st1\<lparr>ks_active := fold (\<lambda>r m. emplace (row_id r) r m) rows (ks_active st1)\<rparr>"
    using assms(1) by (cases "exec_sql vt SelectActive st")
      (auto simp: load_active_def Let_def simp del: takeWhile_eq_all_conv split: reply.splits)
  from assms(2) obtain d where d: "ks_database st = Some d" "tb d = t" "saved d = sv"
    by (auto simp: db_at_def split: option.splits)
  obtain d' where run: "sq_run vt SelectActive d = (KeyRows rows, d')" and st1: "st1 = st\<lparr>ks_database := Some d'\<rparr>"
    using e d(1) by (cases "sq_run vt SelectActive d") (auto simp: exec_sql_def)
  from run_done [OF run] d have rows: "mset rows = mset (filter row_live (t_keys t))" and t: "tb d' = t"
    by (auto simp: failed_def)
  show "at_db st' t sv" using t run_saved [OF run] d by (simp add: st' st1 db_at_def)
  have dist: "distinct (map row_id rows)"
  proof -
    have "distinct (map row_id (filter row_live (t_keys t)))"
      using assms(4) by (simp add: table_inv_def distinct_map_filter)
    moreover have "mset (map row_id rows) = mset (map row_id (filter row_live (t_keys t)))"
      using rows by (simp only: mset_map)
    ultimately show ?thesis by (metis mset_eq_imp_distinct_iff)
  qed
  have fold: "map_of (fold (\<lambda>r m. emplace (row_id r) r m) rs m) i
      = (case map_of m i of Some v \<Rightarrow> Some v | None \<Rightarrow> find (\<lambda>r. row_id r = i) rs)" for rs m i
    by (induction rs arbitrary: m) (auto simp: emplace_def map_add_def split: option.split)
  have "find (\<lambda>r. row_id r = i) rows = Some r \<longleftrightarrow> live_row t i = Some r" for i r
  proof -
    have "find (\<lambda>r. row_id r = i) rows = Some r \<longleftrightarrow> r \<in> set rows \<and> row_id r = i"
      using dist by (induction rows) (auto simp: image_iff)
    also have "set rows = {r \<in> set (t_keys t). row_live r}" using mset_eq_setD [OF rows] by auto
    finally show ?thesis using live_row_iff assms(4) by (auto simp: table_inv_def)
  qed
  then have "find (\<lambda>r. row_id r = i) rows = live_row t i" for i by (metis option.exhaust)
  then show "map_of (ks_active st') = live_row t"
    by (simp add: st' st1 fold assms(3) fun_eq_iff)
qed

lemma open_store_spec:
  assumes "\<And>d d1. sq_open vt path = Some d \<Longrightarrow> sq_schema vt d = (True, d1) \<Longrightarrow> table_inv (tb d1)"
  shows "store_inv tb (open_store vt dirs path)"
proof (cases "ks_is_healthy (open_store vt dirs path)")
  case False
  then show ?thesis by (simp add: store_inv_def)
next
  case True
  then obtain d d1 st where d: "sq_open vt path = Some d" "sq_schema vt d = (True, d1)"
    and load: "load_active vt (closed_store\<lparr>ks_database := Some d1\<rparr>) = (True, st)"
    and st: "open_store vt dirs path = st\<lparr>ks_is_healthy := True\<rparr>"
    by (auto simp: open_store_def closed_store_def Let_def split: if_splits option.splits prod.splits)
  have "at_db (closed_store\<lparr>ks_database := Some d1\<rparr>) (tb d1) (saved d1)" by (simp add: db_at_def)
  from load_active_spec [OF load this] assms [OF d] st
  have "store_at tb (open_store vt dirs path) (tb d1)"
    by (auto simp: closed_store_def store_at_def db_at_def split: option.splits)
  with assms [OF d] show ?thesis by (auto simp: store_inv_def)
qed

end

section \<open>Reachable stores\<close>

text \<open>Any call of any operation, with any arguments, any random draws and any clock.\<close>

inductive key_step :: "'d sqlite \<Rightarrow> (string \<Rightarrow> hash result) \<Rightarrow> 'd key_store \<Rightarrow> 'd key_store \<Rightarrow> bool"
  for vt sha where
  Create: "create vt sha draw name priority st = (res, st') \<Longrightarrow> key_step vt sha st st'"
| List: "list_keys vt st = (res, st') \<Longrightarrow> key_step vt sha st st'"
| Update: "update_key vt now i newname newpriority st = (res, st') \<Longrightarrow> key_step vt sha st st'"
| Revoke: "revoke vt now i st = (res, st') \<Longrightarrow> key_step vt sha st st'"
| Inspect: "active_background_lease vt now st = (res, st') \<Longrightarrow> key_step vt sha st st'"
| Acquire: "acquire_background_lease vt random owner now duration st = (res, st') \<Longrightarrow>
    key_step vt sha st st'"
| Renew: "renew_background_lease vt owner lease_id now duration st = (res, st') \<Longrightarrow>
    key_step vt sha st st'"
| Release: "release_background_lease vt owner lease_id st = (res, st') \<Longrightarrow> key_step vt sha st st'"

context sqlite_contract
begin

lemma key_step_refines:
  assumes "key_step vt sha st st'" "store_at tb st t" "table_inv t" "sha_size sha"
  shows "\<exists>t'. store_at tb st' t' \<and> (t' = t \<or> ring_step t t')"
  using assms(1)
proof cases
  case Create
  then show ?thesis using create_spec [OF _ assms(2,4)] by blast
next
  case List
  then show ?thesis using list_keys_spec [OF _ assms(2)] by blast
next
  case Update
  then show ?thesis using update_key_spec [OF _ assms(2,3)] by blast
next
  case Revoke
  then show ?thesis using revoke_spec [OF _ assms(2,3)] ring_step.Revoke by blast
next
  case Inspect
  then show ?thesis using active_lease_spec [OF _ assms(2)] ring_step.Expire by blast
next
  case (Acquire random owner now duration res)
  from acquire_spec [OF Acquire assms(2)] show ?thesis
    using ring_step.Grant [where t = t and now = now and owner = owner] by blast
next
  case (Renew owner lease_id now duration res)
  from renew_spec [OF Renew assms(2)] show ?thesis
    using ring_step.Expire [of t now] ring_step.Renew [of t _ now duration] by blast
next
  case Release
  then show ?thesis using release_spec [OF _ assms(2)] ring_step.Release by blast
qed

lemma key_step_unhealthy:
  assumes "key_step vt sha st st'" "\<not> ks_is_healthy st"
  shows "st' = st"
  using assms by (cases)
    (auto simp: create_def list_keys_def update_key_def revoke_def active_background_lease_def
      acquire_background_lease_def renew_background_lease_def release_background_lease_def split: if_splits)

lemma key_step_inv:
  assumes "key_step vt sha st st'" "store_inv tb st" "sha_size sha"
  shows "store_inv tb st'"
proof (cases "ks_is_healthy st")
  case True
  then obtain t where t: "store_at tb st t" "table_inv t" using assms(2) by (auto simp: store_inv_def)
  from key_step_refines [OF assms(1) t assms(3)] ring_step_inv t show ?thesis
    by (auto simp: store_inv_def)
next
  case False
  with key_step_unhealthy [OF assms(1)] assms(2) show ?thesis by simp
qed

lemma key_steps_refine:
  assumes "(key_step vt sha)\<^sup>*\<^sup>* st st'" "store_at tb st t" "table_inv t" "sha_size sha"
  shows "\<exists>t'. store_at tb st' t' \<and> table_inv t' \<and> ring_step\<^sup>*\<^sup>* t t'"
  using assms
proof (induction rule: rtranclp_induct)
  case base
  then show ?case by blast
next
  case (step y z)
  then obtain t1 where t1: "store_at tb y t1" "table_inv t1" "ring_step\<^sup>*\<^sup>* t t1" by blast
  from key_step_refines [OF step.hyps(2) t1(1,2) assms(4)] obtain t2 where
    "store_at tb z t2" "t2 = t1 \<or> ring_step t1 t2" by blast
  with t1 ring_step_inv show ?case by (meson rtranclp.rtrancl_into_rtrancl)
qed

end

section \<open>An in-memory database\<close>

text \<open>
  The contract on a database that keeps the tables in memory and fails whenever its list of faults
  says so.
\<close>

record mem_db =
  md_tables :: tables
  md_saved :: "tables option"
  md_faults :: "bool list"

definition mem_fault :: "mem_db \<Rightarrow> bool \<times> mem_db" where
  "mem_fault d = (case md_faults d of [] \<Rightarrow> (False, d) | f # fs \<Rightarrow> (f, d\<lparr>md_faults := fs\<rparr>))"

definition mem_sqlite :: "bool list \<Rightarrow> mem_db sqlite" where
  "mem_sqlite faults =
     \<lparr>sq_open = (\<lambda>_. Some \<lparr>md_tables = \<lparr>t_keys = [], t_lease = None\<rparr>, md_saved = None, md_faults = faults\<rparr>),
      sq_schema = (\<lambda>d. (True, d)),
      sq_run = (\<lambda>s d. let (f, d1) = mem_fault d
        in if f then (StepFailed, d1)
           else let (r, t) = sql_effect s (md_tables d1) in (r, d1\<lparr>md_tables := t\<rparr>)),
      sq_begin = (\<lambda>d. let (f, d1) = mem_fault d
        in if f then (False, d1) else (True, d1\<lparr>md_saved := Some (md_tables d1)\<rparr>)),
      sq_commit = (\<lambda>d. let (f, d1) = mem_fault d
        in if f then (False, d1) else (True, d1\<lparr>md_saved := None\<rparr>)),
      sq_rollback = (\<lambda>d. d\<lparr>md_tables := (case md_saved d of None \<Rightarrow> md_tables d | Some t \<Rightarrow> t),
                           md_saved := None\<rparr>),
      sq_errmsg = (\<lambda>_. ''database is locked'')\<rparr>"

lemma sql_effect_not_failed: "\<not> failed (fst (sql_effect s t))"
  by (cases s) (auto simp: failed_def update_rows_def delete_lease_if_def split: option.split)

lemma reply_matches_refl: "reply_matches s r r"
  by (cases s; cases r) auto

lemma mem_fault_tables:
  "mem_fault d = (f, d1) \<Longrightarrow> md_tables d1 = md_tables d \<and> md_saved d1 = md_saved d"
  by (auto simp: mem_fault_def split: list.splits)

interpretation mem: sqlite_contract "mem_sqlite faults" md_tables md_saved
proof
  fix s d r d'
  assume run: "sq_run (mem_sqlite faults) s d = (r, d')"
  show "md_saved d' = md_saved d"
    using run mem_fault_tables [of d] by (auto simp: mem_sqlite_def split: prod.splits if_splits)
  show "failed r \<Longrightarrow> md_tables d' = md_tables d"
    using run mem_fault_tables [of d] sql_effect_not_failed [of s "md_tables d"]
    by (auto simp: mem_sqlite_def split: prod.splits if_splits)
  show "\<not> failed r \<Longrightarrow> \<exists>r0. sql_effect s (md_tables d) = (r0, md_tables d') \<and> reply_matches s r r0"
    using run mem_fault_tables [of d] reply_matches_refl [of s r]
    by (auto simp: mem_sqlite_def failed_def split: prod.splits if_splits)
next
  fix d ok d'
  show "sq_begin (mem_sqlite faults) d = (ok, d') \<Longrightarrow> md_tables d' = md_tables d"
    "sq_commit (mem_sqlite faults) d = (ok, d') \<Longrightarrow> md_tables d' = md_tables d"
    using mem_fault_tables [of d] by (auto simp: mem_sqlite_def split: prod.splits if_splits)
  show "sq_begin (mem_sqlite faults) d = (True, d') \<Longrightarrow> md_saved d' = Some (md_tables d)"
    "sq_commit (mem_sqlite faults) d = (False, d') \<Longrightarrow> md_saved d' = md_saved d"
    using mem_fault_tables [of d] by (auto simp: mem_sqlite_def split: prod.splits if_splits)
qed (simp add: mem_sqlite_def)

end
