(* ===== verification/Gateway_Security.thy ===== *)
theory Gateway_Security
  imports Api_Key_Store
begin

text \<open>
  Who may call what (\<^verbatim>\<open>libs/gateway/include/gateway/auth.hpp\<close>, \<^verbatim>\<open>route_manifest.hpp\<close>,
  \<^verbatim>\<open>request_security.hpp\<close>, \<^verbatim>\<open>cors.hpp\<close>): the bearer check, loopback detection, the principal of a
  route, the limits on a request and the CORS headers. The \<^verbatim>\<open>httplib\<close> request is the list of values
  of each header and the body; \<^verbatim>\<open>get_header_value\<close> is the first of them or the empty string.
\<close>

section \<open>The bearer check\<close>

record auth_config =
  ac_required :: bool
  ac_token :: string

definition byte64 :: "char \<Rightarrow> 64 word" where
  "byte64 c = of_nat (byte_of c)"

text \<open>The loop that collects the differing bits; a missing character counts as 0.\<close>

definition token_difference :: "string \<Rightarrow> string \<Rightarrow> 64 word" where
  "token_difference presented token =
     fold (\<lambda>index difference.
             difference OR
               ((if index < length presented then byte64 (presented ! index) else 0)
                 XOR byte64 (token ! index)))
       [0..<length token] (of_nat (length presented) XOR of_nat (length token))"

definition auth_check :: "auth_config \<Rightarrow> string \<Rightarrow> bool" where
  "auth_check cfg auth_header =
     (if \<not> ac_required cfg then True
      else if ac_token cfg = [] then False
      else if length auth_header < 7 then False
      else if take 7 auth_header \<noteq> ''Bearer '' then False
      else token_difference (drop 7 auth_header) (ac_token cfg) = 0)"

section \<open>Loopback\<close>

definition is_loopback :: "string \<Rightarrow> bool" where
  "is_loopback address =
     (address = ''::1'' \<or> address = ''[::1]'' \<or> address = ''localhost'' \<or>
      starts_with address ''127.'' \<or> starts_with address ''::ffff:127.'')"

text \<open>The whole text as a number of type \<^verbatim>\<open>unsigned\<close>.\<close>

definition parse_unsigned :: "string \<Rightarrow> nat option" where
  "parse_unsigned s =
     (case from_chars_unsigned 4294967295 s of Some (v, []) \<Rightarrow> Some v | _ \<Rightarrow> None)"

definition valid_port :: "string \<Rightarrow> bool" where
  "valid_port s =
     (s \<noteq> [] \<and> (case parse_unsigned s of None \<Rightarrow> False | Some port \<Rightarrow> 0 < port \<and> port \<le> 65535))"

definition parse_octet :: "string \<Rightarrow> nat option" where
  "parse_octet field =
     (if field = [] then None
      else case parse_unsigned field of Some v \<Rightarrow> if 255 < v then None else Some v | None \<Rightarrow> None)"

text \<open>The octets of an address: \<open>n\<close> that end at a dot, then one that ends the text.\<close>

primrec parse_octets :: "nat \<Rightarrow> string \<Rightarrow> nat list option" where
  "parse_octets 0 address = map_option (\<lambda>v. [v]) (parse_octet address)"
| "parse_octets (Suc n) address =
     (case dropWhile (\<lambda>c. c \<noteq> CHR ''.'') address of
        [] \<Rightarrow> None
      | _ # rest \<Rightarrow>
          (case parse_octet (takeWhile (\<lambda>c. c \<noteq> CHR ''.'') address) of
             None \<Rightarrow> None
           | Some v \<Rightarrow> map_option (\<lambda>vs. v # vs) (parse_octets n rest)))"

definition is_loopback_authority :: "string \<Rightarrow> bool" where
  "is_loopback_authority authority =
     (let lowered = map char_tolower authority
      in if lowered = ''localhost'' \<or> starts_with lowered ''localhost:''
         then (let port = drop 9 lowered in port = [] \<or> valid_port (drop 1 port))
         else if lowered = ''[::1]'' then True
         else if starts_with lowered ''[::1]:'' then valid_port (drop 6 lowered)
         else let address = takeWhile (\<lambda>c. c \<noteq> CHR '':'') lowered;
                  colon = dropWhile (\<lambda>c. c \<noteq> CHR '':'') lowered
              in if colon \<noteq> [] \<and> \<not> valid_port (tl colon) then False
                 else (case parse_octets 3 address of
                         Some (first # _) \<Rightarrow> first = 127
                       | _ \<Rightarrow> False))"

definition is_direct_loopback :: "string \<Rightarrow> string \<Rightarrow> bool \<Rightarrow> bool" where
  "is_direct_loopback address host proxy_indicated =
     (\<not> proxy_indicated \<and> is_loopback address \<and> is_loopback_authority host)"

section \<open>Authorization\<close>

datatype route_principal =
  PublicStatus | OpenAIDataPlane | ManagedClient | DashboardSession | ControlRead | ControlWrite

datatype authorization_status = Granted | AuthenticationRequired | Forbidden

record route_auth_config =
  ra_data_plane :: auth_config
  ra_control_allow_remote :: bool
  ra_control_allow_data_plane_token :: bool
  ra_control_token :: string

definition authorize ::
  "(string \<Rightarrow> hash result) \<Rightarrow> 'd key_store option \<Rightarrow> route_auth_config \<Rightarrow> route_principal \<Rightarrow> string \<Rightarrow>
     string \<Rightarrow> string \<Rightarrow> bool \<Rightarrow> authorization_status" where
  "authorize sha api_keys cfg who auth_header remote_address host proxy_indicated =
     (let key_ok = (case api_keys of
                      None \<Rightarrow> False
                    | Some st \<Rightarrow> authenticate_bearer sha auth_header st \<noteq> None)
      in if who = PublicStatus then Granted
         else if who = OpenAIDataPlane
           then (if key_ok then Granted
                 else if auth_check (ra_data_plane cfg) auth_header then Granted
                 else AuthenticationRequired)
         else if who = ManagedClient
           then (if key_ok then Granted else AuthenticationRequired)
         else if is_direct_loopback remote_address host proxy_indicated then Granted
         else if \<not> ra_control_allow_remote cfg then Forbidden
         else if auth_check \<lparr>ac_required = True, ac_token = ra_control_token cfg\<rparr> auth_header then Granted
         else if ra_control_allow_data_plane_token cfg \<and> ac_required (ra_data_plane cfg) \<and>
                 auth_check (ra_data_plane cfg) auth_header then Granted
         else AuthenticationRequired)"

record route_manifest_entry =
  rm_method :: string
  rm_path :: string

definition strict_openai_routes :: "route_manifest_entry list" where
  "strict_openai_routes =
    [\<lparr>rm_method = ''GET'', rm_path = ''/v1/models''\<rparr>,
     \<lparr>rm_method = ''POST'', rm_path = ''/v1/chat/completions''\<rparr>,
     \<lparr>rm_method = ''POST'', rm_path = ''/v1/responses''\<rparr>,
     \<lparr>rm_method = ''POST'', rm_path = ''/v1/embeddings''\<rparr>,
     \<lparr>rm_method = ''POST'', rm_path = ''/v1/images/generations''\<rparr>,
     \<lparr>rm_method = ''POST'', rm_path = ''/v1/audio/speech''\<rparr>,
     \<lparr>rm_method = ''POST'', rm_path = ''/v1/audio/transcriptions''\<rparr>]"

definition is_strict_openai_route :: "string \<Rightarrow> string \<Rightarrow> bool" where
  "is_strict_openai_route verb path =
     list_ex (\<lambda>route. rm_method route = verb \<and> rm_path route = path) strict_openai_routes"

definition classify_route :: "string \<Rightarrow> string \<Rightarrow> route_principal" where
  "classify_route verb path =
     (if is_strict_openai_route verb path then OpenAIDataPlane
      else if starts_with path ''/v1/'' then OpenAIDataPlane
      else if starts_with path ''/compat/openai-derivative/v1/'' then OpenAIDataPlane
      else if path = ''/api/inferdeck/v1/audio/generations'' \<or>
              path = ''/api/inferdeck/v1/video/generations'' then OpenAIDataPlane
      else if path = ''/api/inferdeck/v1/background/availability'' \<or>
              path = ''/api/inferdeck/v1/background/lease'' \<or>
              starts_with path ''/api/inferdeck/v1/background/lease/'' then ManagedClient
      else if path = ''/api/inferdeck/v1/status'' \<or>
              path = ''/api/inferdeck/v1/pricing'' \<or>
              path = ''/api/inferdeck/v1/events/stream'' then DashboardSession
      else if starts_with path ''/api/''
        then (if verb = ''GET'' \<or> verb = ''HEAD'' then ControlRead else ControlWrite)
      else PublicStatus)"

function cookie_value :: "string \<Rightarrow> string \<Rightarrow> string" where
  "cookie_value header name =
     (if header = [] then []
      else let start = dropWhile (\<lambda>c. c = CHR '' '' \<or> c = CHR '';'') header;
               field = takeWhile (\<lambda>c. c \<noteq> CHR '';'') start;
               after = dropWhile (\<lambda>c. c \<noteq> CHR '';'') start;
               separator = dropWhile (\<lambda>c. c \<noteq> CHR ''='') field
           in if separator \<noteq> [] \<and> takeWhile (\<lambda>c. c \<noteq> CHR ''='') field = name then tl separator
              else if after = [] then []
              else cookie_value (tl after) name)"
  by pat_completeness auto

lemma length_dropWhile_twice_less:
  "xs \<noteq> [] \<Longrightarrow> length (dropWhile P (dropWhile Q xs)) - Suc 0 < length xs"
  using length_dropWhile_le [of P "dropWhile Q xs"] length_dropWhile_le [of Q xs]
  by (cases xs) auto

termination cookie_value
  by (relation "measure (\<lambda>(header, _). length header)") (auto simp: length_dropWhile_twice_less)

declare cookie_value.simps [simp del]

section \<open>Limits on requests\<close>

definition json_body_limit :: nat where "json_body_limit = 16 * 1024 * 1024"
definition control_body_limit :: nat where "control_body_limit = 2 * 1024 * 1024"
definition audio_body_limit :: nat where "audio_body_limit = 26 * 1024 * 1024"
definition server_body_limit :: nat where "server_body_limit = audio_body_limit"

datatype content_policy = NoContent | Json | Multipart

datatype validation_status =
  Allowed | BodyNotAllowed | PayloadTooLarge | UnsupportedMediaType | InvalidContentLength
  | UnsupportedTransferEncoding

record request_policy =
  rp_max_body_bytes :: nat
  rp_content :: content_policy
  rp_require_content_type :: bool
  rp_allow_chunked :: bool

definition request_policy_for :: "string \<Rightarrow> string \<Rightarrow> bool \<Rightarrow> request_policy" where
  "request_policy_for verb path control_write =
     (if verb = ''GET'' \<or> verb = ''HEAD'' \<or> verb = ''OPTIONS''
        then \<lparr>rp_max_body_bytes = 0, rp_content = NoContent, rp_require_content_type = False,
              rp_allow_chunked = False\<rparr>
      else if path = ''/v1/audio/transcriptions''
        then \<lparr>rp_max_body_bytes = audio_body_limit, rp_content = Multipart,
              rp_require_content_type = False, rp_allow_chunked = True\<rparr>
      else if path = ''/api/inferdeck/v1/video/generations''
        then \<lparr>rp_max_body_bytes = json_body_limit, rp_content = Json,
              rp_require_content_type = False, rp_allow_chunked = False\<rparr>
      else if starts_with path ''/api/''
        then \<lparr>rp_max_body_bytes = control_body_limit, rp_content = Json,
              rp_require_content_type = control_write, rp_allow_chunked = False\<rparr>
      else \<lparr>rp_max_body_bytes = json_body_limit, rp_content = Json,
            rp_require_content_type = control_write, rp_allow_chunked = False\<rparr>)"

record http_request =
  rq_headers :: "string \<Rightarrow> string list"
  rq_body :: string

definition get_header_value :: "http_request \<Rightarrow> string \<Rightarrow> string" where
  "get_header_value req name = (case rq_headers req name of [] \<Rightarrow> [] | v # _ \<Rightarrow> v)"

definition has_header :: "http_request \<Rightarrow> string \<Rightarrow> bool" where
  "has_header req name = (rq_headers req name \<noteq> [])"

definition normalized_media_type :: "http_request \<Rightarrow> string" where
  "normalized_media_type req =
     (let value = takeWhile (\<lambda>c. c \<noteq> CHR '';'') (get_header_value req ''Content-Type'');
          trimmed = rev (dropWhile char_isspace (rev value))
      in map char_tolower (dropWhile char_isspace trimmed))"

definition media_type_verdict :: "request_policy \<Rightarrow> http_request \<Rightarrow> validation_status" where
  "media_type_verdict policy req =
     (if rp_content policy = Json \<and> normalized_media_type req \<noteq> ''application/json''
        then UnsupportedMediaType
      else if rp_content policy = Multipart \<and> normalized_media_type req \<noteq> ''multipart/form-data''
        then UnsupportedMediaType
      else Allowed)"

definition is_chunked :: "http_request \<Rightarrow> request_policy \<Rightarrow> bool" where
  "is_chunked req policy =
     (has_header req ''Transfer-Encoding'' \<and> rp_allow_chunked policy \<and>
      map char_tolower (get_header_value req ''Transfer-Encoding'') = ''chunked'' \<and>
      length (rq_headers req ''Transfer-Encoding'') = 1 \<and> \<not> has_header req ''Content-Length'')"

definition SIZE_MAX :: nat where
  "SIZE_MAX = 18446744073709551615"

text \<open>The declared length: 0 without the header, nothing when it is not a number.\<close>

definition declared_length :: "http_request \<Rightarrow> nat option" where
  "declared_length req =
     (let value = get_header_value req ''Content-Length''
      in if value = [] then Some 0
         else case from_chars_unsigned SIZE_MAX value of Some (v, []) \<Rightarrow> Some v | _ \<Rightarrow> None)"

definition validate_request_headers :: "http_request \<Rightarrow> request_policy \<Rightarrow> validation_status" where
  "validate_request_headers req policy =
     (let chunked = is_chunked req policy
      in if has_header req ''Transfer-Encoding'' \<and> \<not> chunked then UnsupportedTransferEncoding
         else case declared_length req of
           None \<Rightarrow> InvalidContentLength
         | Some content_length \<Rightarrow>
             if rp_max_body_bytes policy = 0 \<and> 0 < content_length then BodyNotAllowed
             else if rp_max_body_bytes policy < content_length then PayloadTooLarge
             else if content_length = 0 \<and> \<not> rp_require_content_type policy \<and> \<not> chunked then Allowed
             else media_type_verdict policy req)"

definition validate_request :: "http_request \<Rightarrow> request_policy \<Rightarrow> validation_status" where
  "validate_request req policy =
     (if rq_body req = [] \<and> \<not> rp_require_content_type policy then Allowed
      else if rp_max_body_bytes policy = 0 then BodyNotAllowed
      else if rp_max_body_bytes policy < length (rq_body req) then PayloadTooLarge
      else media_type_verdict policy req)"

section \<open>CORS\<close>

definition allows_origin :: "string list \<Rightarrow> string \<Rightarrow> bool" where
  "allows_origin origins origin = (origin \<in> set origins)"

definition allows_wildcard :: "string list \<Rightarrow> bool" where
  "allows_wildcard origins = (''*'' \<in> set origins)"

definition handles_options :: "string list \<Rightarrow> bool" where
  "handles_options origins = (origins \<noteq> [])"

text \<open>The headers set on the response, in order.\<close>

definition cors_apply :: "string list \<Rightarrow> http_request \<Rightarrow> (string \<times> string) list" where
  "cors_apply origins req =
     (let origin = get_header_value req ''Origin'';
          rest = [(''Vary'', ''Origin''),
                  (''Access-Control-Allow-Methods'', ''GET, POST, PUT, DELETE, OPTIONS''),
                  (''Access-Control-Allow-Headers'',
                   ''Authorization, Content-Type, X-Request-Id, OpenAI-Beta'')]
      in if origins = [] then []
         else if origin = [] then []
         else if allows_wildcard origins then (''Access-Control-Allow-Origin'', ''*'') # rest
         else if allows_origin origins origin
           then (''Access-Control-Allow-Origin'', origin) # rest
         else [])"

section \<open>Lemmas\<close>

lemma of_nat_word64_inject:
  "m < 2 ^ 64 \<Longrightarrow> n < 2 ^ 64 \<Longrightarrow> ((of_nat m :: 64 word) = of_nat n) = (m = n)"
  by (simp add: word_of_nat_eq_iff take_bit_nat_eq_self)

lemma byte64_inject: "byte64 a = byte64 b \<longleftrightarrow> a = b"
proof -
  have "byte_of c < 2 ^ 64" for c
    unfolding byte_of_def by (rule less_trans [OF nat_of_char_less_256]) simp
  then show ?thesis by (simp add: byte64_def of_nat_word64_inject) (simp add: byte_of_def)
qed

lemma fold_or_zero:
  "(fold (\<lambda>i d. d OR f i) is d = (0 :: 'a :: len word)) = (d = 0 \<and> list_all (\<lambda>i. f i = 0) is)"
  by (induction "is" arbitrary: d) (simp_all add: conj_assoc)

lemma token_difference_zero:
  assumes "length presented < 2 ^ 64" "length token < 2 ^ 64"
  shows "token_difference presented token = 0 \<longleftrightarrow> presented = token"
proof
  assume "token_difference presented token = 0"
  then have len: "length presented = length token"
    and all: "\<forall>i < length token. (if i < length presented then byte64 (presented ! i) else 0) = byte64 (token ! i)"
    using of_nat_word64_inject [OF assms]
    by (auto simp: token_difference_def fold_or_zero list_all_iff)
  then show "presented = token" by (intro nth_equalityI) (simp_all add: byte64_inject)
qed (simp add: token_difference_def fold_or_zero list_all_iff)

lemma length_Bearer: "length ''Bearer '' = 7"
  by simp

lemma append_split: "(s = p @ t) = (take (length p) s = p \<and> drop (length p) s = t)"
  by (metis append_eq_conv_conj)

lemma auth_check_iff:
  assumes "length header < 2 ^ 64" "length (ac_token cfg) < 2 ^ 64"
  shows "auth_check cfg header \<longleftrightarrow>
    \<not> ac_required cfg \<or> ac_token cfg \<noteq> [] \<and> header = ''Bearer '' @ ac_token cfg"
proof -
  have "length (drop 7 header) < 2 ^ 64" using assms(1) by simp
  note diff = token_difference_zero [OF this assms(2)]
  note split = append_split [of header "''Bearer ''" "ac_token cfg", unfolded length_Bearer]
  have "take 7 header = ''Bearer '' \<Longrightarrow> 7 \<le> length header"
    using length_Bearer by (metis length_take min.cobounded1)
  then have "length header < 7 \<Longrightarrow> take 7 header \<noteq> ''Bearer ''" by linarith
  then show ?thesis unfolding auth_check_def diff split by (auto simp only: if_True if_False split: if_splits)
qed

end
