(* ===== verification/Generation_Session.thy ===== *)
theory Generation_Session
  imports Coordinator_Queue Streaming_Sanitizer "HOL-Library.Word"
begin

text \<open>
  A generation in progress (\<^verbatim>\<open>libs/gateway/src/generation_session.cpp\<close>) and the two ends of its
  stream: the inference thread pushes deltas into a bounded queue, the content provider of the chat
  route (\<^verbatim>\<open>chat_routes.ipp\<close>) or of the responses route drains it and writes to the client. Both
  count bytes in \<^verbatim>\<open>size_t\<close>, so \<open>gs_pending_bytes\<close> is a 64-bit word. JSON encoding is a parameter; the
  HTTP sink is the list of the outcomes of its writes. Also here: the mapping of errors to HTTP
  (\<^verbatim>\<open>openai_error.cpp\<close>), the tracker of background swaps (\<^verbatim>\<open>swap_tracker.hpp\<close>) and the shutdown
  sequence (\<^verbatim>\<open>shutdown_state.hpp\<close>).
\<close>

section \<open>Deltas and their sizes\<close>

record top_token_logprob =
  tp_token :: string
  tp_bytes :: "8 word list"

record token_logprob =
  tl_token :: string
  tl_bytes :: "8 word list"
  tl_top_logprobs :: "top_token_logprob list"

type_synonym delta = "token_logprob inference_delta"

definition call_size :: "tool_call_delta \<Rightarrow> nat" where
  "call_size call =
     length (tc_id call) + length (tc_type call) + length (tc_function_name call) +
     length (tc_function_arguments call)"

text \<open>The size the producer counts (\<^verbatim>\<open>generation_session.cpp\<close>).\<close>

definition delta_size :: "delta \<Rightarrow> nat" where
  "delta_size d =
     length (d_content d) + length (d_reasoning_text d) + sum_list (map call_size (d_tool_calls d))"

definition logprob_size :: "token_logprob \<Rightarrow> nat" where
  "logprob_size t =
     length (tl_token t) + length (tl_bytes t) +
     sum_list (map (\<lambda>c. length (tp_token c) + length (tp_bytes c)) (tl_top_logprobs t))"

text \<open>The size the chat consumer counts (\<^verbatim>\<open>chat_stream_serialization.ipp\<close>).\<close>

definition chat_delta_size :: "delta \<Rightarrow> nat" where
  "chat_delta_size d = delta_size d + sum_list (map logprob_size (d_logprobs d))"

section \<open>The session\<close>

definition max_pending_stream_deltas :: nat where
  "max_pending_stream_deltas = 128"

definition max_pending_stream_bytes :: "64 word" where
  "max_pending_stream_bytes = 1048576"

record 'r gen_session =
  gs_delta_queue :: "delta list"
  gs_pending_bytes :: "64 word"
  gs_inference_done :: bool
  gs_inference_error :: bool
  gs_error_code :: error_code
  gs_error_msg :: string
  gs_final_result :: "'r option"
  gs_aborted :: bool
  gs_cleanup_done :: bool
  gs_slot_id :: int
  gs_model_name :: string
  gs_requested_model :: string
  gs_reservation_key :: string
  gs_voice_session_token :: nat
  gs_voice_session_grace_ms :: int
  gs_utf8 :: delta_buffer

definition new_session :: "int \<Rightarrow> string \<Rightarrow> string \<Rightarrow> string \<Rightarrow> nat \<Rightarrow> int \<Rightarrow> 'r gen_session" where
  "new_session slot requested resolved key token grace =
     \<lparr>gs_delta_queue = [], gs_pending_bytes = 0, gs_inference_done = False,
      gs_inference_error = False, gs_error_code = Internal, gs_error_msg = [],
      gs_final_result = None, gs_aborted = False, gs_cleanup_done = False, gs_slot_id = slot,
      gs_model_name = resolved, gs_requested_model = requested, gs_reservation_key = key,
      gs_voice_session_token = token, gs_voice_session_grace_ms = grace,
      gs_utf8 = empty_delta_buffer\<rparr>"

subsection \<open>The inference thread\<close>

definition stream_has_room :: "64 word \<Rightarrow> 'r gen_session \<Rightarrow> bool" where
  "stream_has_room bytes s =
     (gs_aborted s \<or>
      (length (gs_delta_queue s) < max_pending_stream_deltas \<and>
       (gs_delta_queue s = [] \<or>
        (bytes \<le> max_pending_stream_bytes \<and>
         gs_pending_bytes s \<le> max_pending_stream_bytes - bytes))))"

text \<open>The token callback: \<open>None\<close> while it waits for room, else whether generation goes on.\<close>

definition push_delta :: "delta \<Rightarrow> 'r gen_session \<Rightarrow> (bool \<times> 'r gen_session) option" where
  "push_delta d s =
     (let bytes = of_nat (delta_size d)
      in if gs_aborted s then Some (False, s)
         else if \<not> stream_has_room bytes s then None
         else Some (True, s\<lparr>gs_delta_queue := gs_delta_queue s @ [d],
                            gs_pending_bytes := gs_pending_bytes s + bytes\<rparr>))"

text \<open>How the thread ends: with a result, with an error, or with an exception.\<close>

definition complete_inference :: "'r result call \<Rightarrow> 'r gen_session \<Rightarrow> 'r gen_session" where
  "complete_inference outcome s =
     (case outcome of
        Returned (Inr r) \<Rightarrow> s\<lparr>gs_final_result := Some r, gs_inference_done := True\<rparr>
      | Returned (Inl e) \<Rightarrow>
          s\<lparr>gs_inference_error := True, gs_error_code := err_code e, gs_error_msg := err_message e,
            gs_inference_done := True\<rparr>
      | Threw what \<Rightarrow>
          s\<lparr>gs_inference_error := True,
            gs_error_msg := (case what of Some w \<Rightarrow> w | None \<Rightarrow> ''unknown exception''),
            gs_inference_done := True\<rparr>)"

text \<open>
  The blocking run of a request that is not streamed: \<open>cancelled\<close> says whether one of the polls of
  the cancellation callback answered yes.
\<close>

definition run_session :: "bool \<Rightarrow> 'r result call \<Rightarrow> 'r gen_session \<Rightarrow> 'r result option \<times> 'r gen_session" where
  "run_session cancelled outcome s =
     (let s1 = complete_inference outcome
                 (s\<lparr>gs_aborted := gs_aborted s \<or> cancelled\<rparr>)
      in (if gs_aborted s1 then Some (Err Cancelled ''request cancelled'')
          else if gs_inference_error s1 then Some (Err (gs_error_code s1) (gs_error_msg s1))
          else map_option Ok (gs_final_result s1), s1))"

subsection \<open>Finishing\<close>

text \<open>
  \<^verbatim>\<open>finish_once\<close>: the first caller aborts the thread if asked to, joins it (\<open>outcome\<close> is how it ends, if
  there is one and it has not ended yet), records the status, releases the slot and completes the
  hold of a voice session; later callers return at once.
\<close>

definition finish_status :: "bool \<Rightarrow> int \<Rightarrow> 'r gen_session \<Rightarrow> int" where
  "finish_status aborted fallback s =
     (if gs_final_result s \<noteq> None \<and> \<not> aborted \<and> \<not> gs_inference_error s then 200
      else if aborted then 499
      else if gs_inference_error s \<and> fallback < 400 then 500
      else fallback)"

definition join_thread :: "'r result call option \<Rightarrow> 'r gen_session \<Rightarrow> 'r gen_session" where
  "join_thread outcome s =
     (case outcome of
        Some out \<Rightarrow> if gs_inference_done s then s else complete_inference out s
      | None \<Rightarrow> s)"

definition finish_once ::
  "'b ibackend \<Rightarrow> time_point \<Rightarrow> 'r result call option \<Rightarrow> bool \<Rightarrow> int \<Rightarrow> 'r gen_session \<times> 'b coordinator \<Rightarrow>
     int option \<times> 'r gen_session \<times> 'b coordinator" where
  "finish_once vt now outcome aborted_stream fallback = (\<lambda>(s, c).
     if gs_cleanup_done s then (None, s, c)
     else let aborted = aborted_stream \<or> gs_aborted s;
              s1 = s\<lparr>gs_cleanup_done := True, gs_aborted := aborted\<rparr>;
              s2 = join_thread outcome s1;
              status = finish_status aborted fallback s2;
              c1 = snd (release_slot vt now (gs_model_name s) (gs_slot_id s) c);
              c2 = (if gs_voice_session_token s \<noteq> 0
                    then complete_priority_session_hold now (gs_reservation_key s)
                           (gs_voice_session_token s) (ms (gs_voice_session_grace_ms s)) c1
                    else c1)
          in (Some status, s2, c2))"

section \<open>The content provider\<close>

record openai_error_mapping =
  oe_status :: int
  oe_type :: string
  oe_code :: string
  oe_parameter :: string

definition map_openai_error :: "error_code \<Rightarrow> string \<Rightarrow> openai_error_mapping" where
  "map_openai_error code parameter =
     (case code of
        InvalidArgument \<Rightarrow>
          \<lparr>oe_status = 400, oe_type = ''invalid_request_error'', oe_code = ''invalid_request_error'',
           oe_parameter = parameter\<rparr>
      | ParseError \<Rightarrow>
          \<lparr>oe_status = 400, oe_type = ''invalid_request_error'', oe_code = ''invalid_request_error'',
           oe_parameter = parameter\<rparr>
      | ContextLengthExceeded \<Rightarrow>
          \<lparr>oe_status = 400, oe_type = ''invalid_request_error'',
           oe_code = ''context_length_exceeded'', oe_parameter = parameter\<rparr>
      | NotFound \<Rightarrow>
          \<lparr>oe_status = 404, oe_type = ''invalid_request_error'', oe_code = ''model_not_found'',
           oe_parameter = parameter\<rparr>
      | Cancelled \<Rightarrow>
          \<lparr>oe_status = 499, oe_type = ''server_error'', oe_code = ''cancelled'',
           oe_parameter = parameter\<rparr>
      | Timeout \<Rightarrow>
          \<lparr>oe_status = 504, oe_type = ''server_error'', oe_code = ''timeout'',
           oe_parameter = parameter\<rparr>
      | Unavailable \<Rightarrow>
          \<lparr>oe_status = 503, oe_type = ''server_error'', oe_code = ''unavailable'',
           oe_parameter = parameter\<rparr>
      | NotLoaded \<Rightarrow>
          \<lparr>oe_status = 503, oe_type = ''server_error'', oe_code = ''unavailable'',
           oe_parameter = parameter\<rparr>
      | _ \<Rightarrow>
          \<lparr>oe_status = 500, oe_type = ''server_error'', oe_code = ''inference_error'',
           oe_parameter = parameter\<rparr>)"

text \<open>The sink: the outcomes of the coming writes (all succeed once the list is empty).\<close>

record sink =
  sk_outcomes :: "bool list"
  sk_writable :: bool
  sk_written :: "string list"

definition sink_write :: "string \<Rightarrow> sink \<Rightarrow> bool \<times> sink" where
  "sink_write out sk =
     (case sk_outcomes sk of
        [] \<Rightarrow> (True, sk\<lparr>sk_written := sk_written sk @ [out]\<rparr>)
      | ok # rest \<Rightarrow>
          (ok, sk\<lparr>sk_outcomes := rest,
                  sk_written := (if ok then sk_written sk @ [out] else sk_written sk)\<rparr>))"

text \<open>
  The JSON texts: of a delta (nothing when its object is empty), of an error and of the end of the
  stream.
\<close>

record 'r encoder =
  en_delta :: "delta \<Rightarrow> string option"
  en_error :: "error_code \<Rightarrow> string \<Rightarrow> string"
  en_terminal :: "'r option \<Rightarrow> string"

datatype finish_call = FinishOnce bool int string

definition drain_queue :: "'r gen_session \<Rightarrow> delta list \<times> 'r gen_session" where
  "drain_queue s =
     (gs_delta_queue s,
      s\<lparr>gs_delta_queue := [],
        gs_pending_bytes :=
          foldl (\<lambda>p d. p - of_nat (chat_delta_size d)) (gs_pending_bytes s) (gs_delta_queue s)\<rparr>)"

definition responses_drain :: "'r gen_session \<Rightarrow> delta list \<times> 'r gen_session" where
  "responses_drain s = (gs_delta_queue s, s\<lparr>gs_delta_queue := [], gs_pending_bytes := 0\<rparr>)"

primrec heartbeats :: "nat \<Rightarrow> sink \<Rightarrow> bool \<times> sink" where
  "heartbeats 0 sk = (True, sk)"
| "heartbeats (Suc n) sk =
     (let (ok, sk1) = sink_write ('': '' @ [CHR 10, CHR 10]) sk
      in if ok then heartbeats n sk1 else (False, sk1))"

primrec write_deltas ::
  "'r encoder \<Rightarrow> delta list \<Rightarrow> delta_buffer \<Rightarrow> sink \<Rightarrow> bool \<times> delta_buffer \<times> sink" where
  "write_deltas en [] u sk = (True, u, sk)"
| "write_deltas en (d # ds) u sk =
     (let (clean, u1) = on_delta d u
      in case en_delta en clean of
           None \<Rightarrow> write_deltas en ds u1 sk
         | Some out \<Rightarrow>
             let (ok, sk1) = sink_write out sk
             in if ok then write_deltas en ds u1 sk1 else (False, u1, sk1))"

definition write_trailing :: "'r encoder \<Rightarrow> delta \<Rightarrow> sink \<Rightarrow> bool \<times> sink" where
  "write_trailing en trailing sk =
     (case en_delta en trailing of None \<Rightarrow> (True, sk) | Some out \<Rightarrow> sink_write out sk)"

text \<open>The end of the stream: the bytes still buffered, then the error or the terminal event.\<close>

definition provider_end ::
  "'r encoder \<Rightarrow> 'r gen_session \<Rightarrow> sink \<Rightarrow> bool \<times> finish_call option \<times> 'r gen_session \<times> sink" where
  "provider_end en s sk =
     (let (trailing, u) = finish_delta (gs_utf8 s);
          s1 = s\<lparr>gs_utf8 := u\<rparr>;
          (ok, sk1) = write_trailing en trailing sk
      in if \<not> ok then (False, Some (FinishOnce True 499 ''trailing_chunk_write_failed''), s1, sk1)
         else if gs_inference_error s
         then let (ok2, sk2) = sink_write (en_error en (gs_error_code s) (gs_error_msg s)) sk1
              in if \<not> ok2 then (False, Some (FinishOnce True 499 ''error_write_failed''), s1, sk2)
                 else (True, Some (FinishOnce False (oe_status (map_openai_error (gs_error_code s) []))
                                     ''inference_error''), s1, sk2)
         else let (ok2, sk2) = sink_write (en_terminal en (gs_final_result s)) sk1
              in if \<not> ok2 then (False, Some (FinishOnce True 499 ''done_write_failed''), s1, sk2)
                 else (True, Some (FinishOnce False 200 ''completed''), s1, sk2))"

text \<open>One call of the provider, after \<open>n\<close> waits of two seconds that ended without news.\<close>

definition chat_provider ::
  "'r encoder \<Rightarrow> nat \<Rightarrow> 'r gen_session \<Rightarrow> sink \<Rightarrow>
     bool \<times> finish_call option \<times> 'r gen_session \<times> sink" where
  "chat_provider en n s sk =
     (let (alive, sk1) = heartbeats n sk
      in if \<not> alive then (False, Some (FinishOnce True 499 ''heartbeat_write_failed''), s, sk1)
         else if gs_aborted s \<and> \<not> gs_inference_done s \<and> gs_delta_queue s = []
           then (False, Some (FinishOnce True 499 ''aborted''), s, sk1)
         else if gs_delta_queue s \<noteq> []
           then let (deltas, s1) = drain_queue s
                in if \<not> sk_writable sk1
                   then (False, Some (FinishOnce True 499 ''sink_not_writable''), s1, sk1)
                   else let (ok, u, sk2) = write_deltas en deltas (gs_utf8 s1) sk1
                        in (ok, if ok then None else Some (FinishOnce True 499 ''chunk_write_failed''),
                            s1\<lparr>gs_utf8 := u\<rparr>, sk2)
         else provider_end en s sk1)"

text \<open>What the server calls when it drops the provider.\<close>

definition resource_releaser :: "bool \<Rightarrow> finish_call" where
  "resource_releaser success =
     (if \<not> success then FinishOnce True 499 ''resource_releaser''
      else FinishOnce False 200 ''resource_releaser_success'')"

section \<open>Swaps in the background\<close>

record swap_snapshot =
  ss_swapping :: bool
  ss_target :: string
  ss_from :: string
  ss_last_error :: string
  ss_last_error_code :: error_code
  ss_last_cancelled :: bool
  ss_last_deferred :: bool
  ss_started_unix_ms :: int

record swap_tracker =
  st_state :: swap_snapshot
  st_worker :: bool

datatype start_result = Started | Busy | StartFailed

definition new_swap_tracker :: swap_tracker where
  "new_swap_tracker =
     \<lparr>st_state = \<lparr>ss_swapping = False, ss_target = [], ss_from = [], ss_last_error = [],
        ss_last_error_code = OkCode, ss_last_cancelled = False, ss_last_deferred = False,
        ss_started_unix_ms = 0\<rparr>, st_worker = False\<rparr>"

definition swap_end :: "bool \<Rightarrow> string \<Rightarrow> bool \<Rightarrow> error_code \<Rightarrow> bool \<Rightarrow> swap_tracker \<Rightarrow> swap_tracker" where
  "swap_end success error cancelled code deferred t =
     t\<lparr>st_state := (st_state t)
         \<lparr>ss_swapping := False,
          ss_last_error := (if success then [] else error),
          ss_last_error_code := (if success then OkCode else code),
          ss_last_cancelled := (\<not> success \<and> cancelled),
          ss_last_deferred := (\<not> success \<and> deferred)\<rparr>\<rparr>"

text \<open>Starting: \<open>launch\<close> is how the construction of the thread ends.\<close>

definition swap_start ::
  "string \<Rightarrow> string \<Rightarrow> int \<Rightarrow> unit call \<Rightarrow> swap_tracker \<Rightarrow> start_result \<times> string \<times> swap_tracker" where
  "swap_start from target now launch t =
     (if ss_swapping (st_state t) then (Busy, [], t)
      else let t1 = t\<lparr>st_worker := False,
                      st_state := (st_state t)
                        \<lparr>ss_swapping := True, ss_from := from, ss_target := target,
                         ss_started_unix_ms := now, ss_last_error := [],
                         ss_last_error_code := OkCode, ss_last_cancelled := False,
                         ss_last_deferred := False\<rparr>\<rparr>
           in case launch of
                Returned _ \<Rightarrow> (Started, [], t1\<lparr>st_worker := True\<rparr>)
              | Threw what \<Rightarrow>
                  let error = (case what of Some w \<Rightarrow> w | None \<Rightarrow> ''unknown thread launch failure'')
                  in (StartFailed, error, swap_end False error False Internal False t1))"

text \<open>A task that throws ends the swap itself; one that returns has ended it before.\<close>

definition swap_task_exit :: "unit call \<Rightarrow> swap_tracker \<Rightarrow> swap_tracker" where
  "swap_task_exit outcome t =
     (case outcome of
        Returned _ \<Rightarrow> t
      | Threw (Some w) \<Rightarrow> swap_end False w False Internal False t
      | Threw None \<Rightarrow> swap_end False ''swap task threw unknown exception'' False Internal False t)"

definition swap_join :: "swap_tracker \<Rightarrow> swap_tracker" where
  "swap_join t = t\<lparr>st_worker := False\<rparr>"

section \<open>Shutting down\<close>

datatype shutdown_phase = Running | Cancelling | Draining | Complete | TimedOut

text \<open>
  The polling loop: each entry of the schedule is the answer of \<^verbatim>\<open>quiescent()\<close> and the clock read after
  it; \<open>None\<close> when the schedule ends first. The sleep is what makes the next clock later.
\<close>

primrec shutdown_poll :: "time_point \<Rightarrow> (bool \<times> time_point) list \<Rightarrow> shutdown_phase option" where
  "shutdown_poll deadline [] = None"
| "shutdown_poll deadline (p # ps) =
     (case p of (quiescent, now) \<Rightarrow>
        if quiescent then Some Complete
        else if deadline \<le> now then Some TimedOut
        else shutdown_poll deadline ps)"

section \<open>The channel between the thread and the client\<close>

text \<open>
  What can happen to a stream, with the deltas produced and delivered so far as ghost state: the
  specification is an unbounded sequence of deltas of which a prefix has been delivered. The drain
  of the consumer is a parameter, so that both routes are instances.
\<close>

definition total_size :: "delta list \<Rightarrow> nat" where
  "total_size ds = sum_list (map delta_size ds)"

inductive channel_step ::
  "('r gen_session \<Rightarrow> delta list \<times> 'r gen_session) \<Rightarrow> delta list \<times> 'r gen_session \<times> delta list \<Rightarrow>
     delta list \<times> 'r gen_session \<times> delta list \<Rightarrow> bool"
  for drain where
  Push: "push_delta d s = Some (True, s') \<Longrightarrow> delta_size d < 2 ^ 64 \<Longrightarrow>
    channel_step drain (p, s, out) (p @ [d], s', out)"
| Drain: "drain s = (ds, s') \<Longrightarrow> channel_step drain (p, s, out) (p, s', out @ ds)"
| Finish: "\<not> gs_inference_done s \<Longrightarrow>
    channel_step drain (p, s, out) (p, complete_inference outcome s, out)"
| Abort: "channel_step drain (p, s, out) (p, s\<lparr>gs_aborted := True\<rparr>, out)"

definition channel_inv :: "delta list \<times> 'r gen_session \<times> delta list \<Rightarrow> bool" where
  "channel_inv = (\<lambda>(p, s, out).
     p = out @ gs_delta_queue s \<and>
     length (gs_delta_queue s) \<le> max_pending_stream_deltas \<and>
     gs_pending_bytes s = of_nat (total_size (gs_delta_queue s)) \<and>
     total_size (gs_delta_queue s) < 2 ^ 64 \<and>
     (total_size (gs_delta_queue s) \<le> 1048576 \<or> length (gs_delta_queue s) \<le> 1))"

text \<open>
  What a consumer owes the channel: it takes the whole queue and leaves the byte count at 0 when the
  count was right.
\<close>

locale stream_consumer =
  fixes drain :: "'r gen_session \<Rightarrow> delta list \<times> 'r gen_session" and ok :: "delta \<Rightarrow> bool"
  assumes drain_all: "drain s = (ds, s') \<Longrightarrow> ds = gs_delta_queue s \<and> gs_delta_queue s' = []"
    and drain_count: "drain s = (ds, s') \<Longrightarrow> list_all ok (gs_delta_queue s) \<Longrightarrow>
      gs_pending_bytes s = of_nat (total_size (gs_delta_queue s)) \<Longrightarrow> gs_pending_bytes s' = 0"

lemma total_size_snoc [simp]: "total_size (ds @ [d]) = total_size ds + delta_size d"
  by (simp add: total_size_def)

lemma total_size_Nil [simp]: "total_size [] = 0"
  by (simp add: total_size_def)

lemma complete_inference_queue [simp]:
  "gs_delta_queue (complete_inference out s) = gs_delta_queue s"
  "gs_pending_bytes (complete_inference out s) = gs_pending_bytes s"
  by (auto simp: complete_inference_def split: call.split sum.split)

lemma room_bound:
  assumes "of_nat m \<le> max_pending_stream_bytes - (of_nat n :: 64 word)"
    "(of_nat n :: 64 word) \<le> max_pending_stream_bytes" "m < 2 ^ 64" "n < 2 ^ 64"
  shows "m + n \<le> 1048576"
proof -
  have u: "unat (of_nat k :: 64 word) = k" if "k < 2 ^ 64" for k
    using that by (simp add: unat_of_nat)
  have "n \<le> 1048576"
    using assms(2,4) u [of n] by (simp add: max_pending_stream_bytes_def word_le_nat_alt)
  moreover have "unat (max_pending_stream_bytes - (of_nat n :: 64 word)) = 1048576 - n"
    using unat_sub [OF assms(2)] u [OF assms(4)] by (simp add: max_pending_stream_bytes_def)
  ultimately show ?thesis using assms(1,3) u [of m] by (simp add: word_le_nat_alt)
qed

lemma push_delta_inv:
  assumes "push_delta d s = Some (True, s')" "delta_size d < 2 ^ 64" "channel_inv (p, s, out)"
  shows "channel_inv (p @ [d], s', out)"
proof -
  let ?q = "gs_delta_queue s"
  from assms(1) have s': "s' = s\<lparr>gs_delta_queue := ?q @ [d],
      gs_pending_bytes := gs_pending_bytes s + of_nat (delta_size d)\<rparr>"
    and room: "length ?q < max_pending_stream_deltas"
    and bytes: "?q = [] \<or> of_nat (delta_size d) \<le> max_pending_stream_bytes \<and>
      gs_pending_bytes s \<le> max_pending_stream_bytes - of_nat (delta_size d)"
    by (auto simp: push_delta_def Let_def stream_has_room_def split: if_splits)
  from assms(3) have inv: "p = out @ ?q" "gs_pending_bytes s = of_nat (total_size ?q)"
    "total_size ?q < 2 ^ 64" by (simp_all add: channel_inv_def)
  have "?q = [] \<or> total_size ?q + delta_size d \<le> 1048576"
    using bytes inv(2,3) assms(2) room_bound [of "total_size ?q" "delta_size d"] by auto
  then show ?thesis using inv room assms(2) by (auto simp: channel_inv_def s')
qed

context stream_consumer
begin

lemma channel_step_inv:
  assumes "channel_step drain x y" "channel_inv x" "list_all ok (fst x)"
  shows "channel_inv y"
  using assms
proof (induction rule: channel_step.induct)
  case (Push d s s' p out)
  then show ?case by (simp add: push_delta_inv)
next
  case (Drain s ds s' p out)
  then have "list_all ok (gs_delta_queue s)" by (auto simp: channel_inv_def)
  with Drain drain_all [OF Drain.hyps] drain_count [OF Drain.hyps] show ?case
    by (auto simp: channel_inv_def)
qed (auto simp: channel_inv_def)

lemma channel_steps_inv:
  assumes "(channel_step drain)\<^sup>*\<^sup>* x y" "channel_inv x" "list_all ok (fst y)"
  shows "channel_inv y"
  using assms
proof (induction rule: rtranclp_induct)
  case base
  then show ?case by simp
next
  case (step y z)
  from step.hyps(2) step.prems(2) have "list_all ok (fst y)" by cases auto
  with step channel_step_inv [OF step.hyps(2)] show ?case by blast
qed

end

text \<open>
  The responses route satisfies this for every delta, the chat route for deltas without token
  log-probabilities.
\<close>

interpretation responses: stream_consumer responses_drain "\<lambda>_. True"
  by standard (auto simp: responses_drain_def)

lemma foldl_minus: "foldl (\<lambda>p d. p - f d) x ds = x - sum_list (map f ds)" for x :: "'a :: ab_group_add"
  by (induction ds arbitrary: x) (simp_all add: algebra_simps)

lemma of_nat_total_size:
  "list_all (\<lambda>d. d_logprobs d = []) ds \<Longrightarrow>
     sum_list (map (\<lambda>d. of_nat (chat_delta_size d)) ds) = (of_nat (total_size ds) :: 'a :: semiring_1)"
  by (induction ds) (simp_all add: total_size_def chat_delta_size_def)

interpretation chat: stream_consumer drain_queue "\<lambda>d. d_logprobs d = []"
proof
  fix s s' :: "'r gen_session" and ds
  assume d: "drain_queue s = (ds, s')"
  then show "ds = gs_delta_queue s \<and> gs_delta_queue s' = []" by (auto simp: drain_queue_def)
  assume "list_all (\<lambda>d. d_logprobs d = []) (gs_delta_queue s)"
    and "gs_pending_bytes s = of_nat (total_size (gs_delta_queue s))"
  with d show "gs_pending_bytes s' = 0"
    by (auto simp: drain_queue_def foldl_minus of_nat_total_size)
qed

section \<open>Finishing once\<close>

lemma finish_once_twice:
  assumes "finish_once vt now out a f (s, c) = (st, s', c')"
  shows "gs_cleanup_done s'" "finish_once vt now' out' a' f' (s', c') = (None, s', c')"
proof -
  show "gs_cleanup_done s'"
    using assms by (auto simp: finish_once_def Let_def join_thread_def complete_inference_def
        split: if_splits option.splits call.splits sum.splits)
  then show "finish_once vt now' out' a' f' (s', c') = (None, s', c')" by (simp add: finish_once_def)
qed

end
