(* ===== verification/Gateway_Properties.thy ===== *)
theory Gateway_Properties
  imports Api_Key_Safety Gateway_Security Generation_Session Coordinator_Properties
begin

text \<open>
  Properties of the gateway around the coordinator: the API keys and the background lease, access
  control and request limits, and the streaming of a generation.
\<close>

section \<open>API keys\<close>

lemma dead_key_stays:
  assumes "ring_step t t'" "list_ex (key_named i) (t_keys t)" "live_row t i = None"
  shows "list_ex (key_named i) (t_keys t') \<and> live_row t' i = None"
  using assms
proof (induction rule: ring_step.induct)
  case (Issue r t)
  then show ?case by (auto simp: live_row_def find_append live_named_def key_named_def list_ex_iff)
next
  case (Edit n p t j now)
  then show ?case by (auto simp: live_row_edit)
next
  case (Revoke t j now)
  then show ?case by (simp add: live_row_revoke)
qed (simp_all add: live_row_def)

lemma dead_key_stays_rtrancl:
  assumes "ring_step\<^sup>*\<^sup>* t t'" "list_ex (key_named i) (t_keys t)" "live_row t i = None"
  shows "live_row t' i = None"
proof -
  have "list_ex (key_named i) (t_keys t') \<and> live_row t' i = None"
    using assms by (induction rule: rtranclp_induct) (auto dest: dead_key_stays)
  then show ?thesis ..
qed

lemma live_row_named_ex: "live_row t i = Some r \<Longrightarrow> list_ex (key_named i) (t_keys t)"
  using live_row_Some [of t i r] by (auto simp: list_ex_iff key_named_def)

lemma authenticate_uncached:
  assumes "lookup (ks_active st) i = None" "parse_bearer header = Some (i, token)"
  shows "authenticate_bearer sha header st = None"
  using assms by (simp add: authenticate_bearer_def split: sum.split)

text \<open>A store over the in-memory database, with one key, for the instances below.\<close>

definition ex_sha :: "string \<Rightarrow> hash result" where
  "ex_sha k = Inr (replicate 32 (of_nat (length k)))"

definition ex_draw :: "nat \<Rightarrow> key_draw" where
  "ex_draw n = \<lparr>kd_identifier = Inr (replicate 16 (of_nat n)), kd_secret = Inr (replicate 32 1), kd_now = 5\<rparr>"

definition ex_store :: "mem_db key_store" where
  "ex_store = open_store (mem_sqlite []) True ''keys.db''"

definition ex_create :: "created_api_key result \<times> mem_db key_store" where
  "ex_create = create (mem_sqlite []) ex_sha ex_draw ''ops'' 7 ex_store"

abbreviation "no_tables \<equiv> \<lparr>t_keys = [], t_lease = None\<rparr>"

lemma ex_sha_size: "sha_size ex_sha"
  by (auto simp: sha_size_def ex_sha_def)

lemma ex_store_at: "store_at md_tables ex_store no_tables"
proof -
  have eq: "ex_store = \<lparr>ks_database = Some \<lparr>md_tables = no_tables, md_saved = None, md_faults = []\<rparr>,
      ks_is_healthy = True, ks_active = []\<rparr>" by code_simp
  show ?thesis unfolding eq by (simp add: store_at_def live_row_def fun_eq_iff)
qed

lemma no_tables_inv: "table_inv no_tables"
  by (simp add: table_inv_def)

lemma ex_create_step: "key_step (mem_sqlite []) ex_sha ex_store (snd ex_create)"
  by (rule key_step.Create [of _ _ ex_draw "''ops''" 7 _ "fst ex_create"]) (simp add: ex_create_def)

lemma ex_create_ok: "\<exists>ck. ex_create = (Ok ck, snd ex_create)"
proof -
  have "is_ok (fst ex_create)" by code_simp
  then obtain ck where "fst ex_create = Ok ck" by (cases "fst ex_create") auto
  then show ?thesis by (metis prod.collapse)
qed

text \<open>
  \<^bold>\<open>C36.\<close> The key store implements its specification on any database that keeps the contract of
  SQLite, whatever statements fail: every sequence of operations is a sequence of abstract steps
  on the two tables, the tables stay well formed (unique keys, priorities in range, the lease owned
  by a live key), and the cache is always exactly the live keys.
\<close>

theorem key_store_refines_tables:
  assumes "sqlite_contract vt tb saved" "sha_size sha" "store_at tb st t" "table_inv t"
    and "(key_step vt sha)\<^sup>*\<^sup>* st st'"
  shows "\<exists>t'. ring_step\<^sup>*\<^sup>* t t' \<and> table_inv t' \<and> store_at tb st' t'"
  using sqlite_contract.key_steps_refine [OF assms(1,5,3,4,2)] by blast

theorem key_store_refines_tables_witness:
  "\<exists>t'. ring_step\<^sup>*\<^sup>* no_tables t' \<and> table_inv t' \<and> store_at md_tables (snd ex_create) t'"
  by (rule key_store_refines_tables [OF mem.sqlite_contract_axioms ex_sha_size ex_store_at no_tables_inv])
    (rule r_into_rtranclp, rule ex_create_step)

text \<open>
  \<^bold>\<open>C34.\<close> A key that \<open>create\<close> hands out authenticates: the bearer header with this key is recognised
  as the new identity, with the name and the priority it was created with.
\<close>

theorem created_key_authenticates:
  assumes "sqlite_contract vt tb saved" "sha_size sha" "store_at tb st t"
    and "\<And>n bytes. kd_identifier (draw n) = Inr bytes \<Longrightarrow> length bytes = 16"
    and "\<And>n bytes. kd_secret (draw n) = Inr bytes \<Longrightarrow> length bytes = 32"
    and "create vt sha draw name priority st = (Ok ck, st')"
  shows "authenticate_bearer sha (''Bearer '' @ ck_key ck) st'
    = Some \<lparr>au_id = ak_id (ck_record ck), au_name = name, au_priority = priority\<rparr>"
proof -
  from sqlite_contract.create_spec [OF assms(1,6,3,2)] obtain n ib sb h row where
    draw: "kd_identifier (draw n) = Inr ib" "kd_secret (draw n) = Inr sb" "sha (api_key_text ib sb) = Inr h"
    and row: "row = \<lparr>aa_record = new_record (hex_encode ib) (api_key_text ib sb) name priority (kd_now (draw n)),
                  aa_hash = h\<rparr>"
    and ck: "ck = \<lparr>ck_record = aa_record row, ck_key = api_key_text ib sb\<rparr>"
    and new: "live_row t (hex_encode ib) = None"
    and st': "store_at tb st' (t\<lparr>t_keys := t_keys t @ [row]\<rparr>)"
    by auto
  have "parse_bearer (''Bearer '' @ api_key_text ib sb) = Some (hex_encode ib, api_key_text ib sb)"
    using assms(4) [OF draw(1)] assms(5) [OF draw(2)] by (rule parse_bearer_api_key)
  moreover have "lookup (ks_active st') (hex_encode ib) = Some row"
  proof -
    from new have "live_row (t\<lparr>t_keys := t_keys t @ [row]\<rparr>) (hex_encode ib) = Some row"
      by (simp add: live_row_def find_append live_named_def row new_record_def)
    with st' show ?thesis by (simp add: store_at_def)
  qed
  ultimately show ?thesis
    using st' draw(3) constant_time_equal_iff [of h h]
    by (simp add: authenticate_bearer_def ck row new_record_def store_at_def)
qed

theorem created_key_authenticates_witness:
  "\<exists>ck. ex_create = (Ok ck, snd ex_create) \<and>
     authenticate_bearer ex_sha (''Bearer '' @ ck_key ck) (snd ex_create)
       = Some \<lparr>au_id = ak_id (ck_record ck), au_name = ''ops'', au_priority = 7\<rparr>"
proof -
  obtain ck where ck: "ex_create = (Ok ck, snd ex_create)" using ex_create_ok by blast
  then have run: "create (mem_sqlite []) ex_sha ex_draw ''ops'' 7 ex_store = (Ok ck, snd ex_create)"
    unfolding ex_create_def .
  have "authenticate_bearer ex_sha (''Bearer '' @ ck_key ck) (snd ex_create)
       = Some \<lparr>au_id = ak_id (ck_record ck), au_name = ''ops'', au_priority = 7\<rparr>"
    by (rule created_key_authenticates [OF mem.sqlite_contract_axioms ex_sha_size ex_store_at _ _ run])
      (auto simp: ex_draw_def)
  with ck show ?thesis by blast
qed

text \<open>
  \<^bold>\<open>C35.\<close> Revocation is final: once \<open>revoke\<close> has succeeded, no header for that key is accepted any
  more, whatever operations follow; in particular the identifier is never issued again.
\<close>

theorem revoked_key_stays_refused:
  assumes "sqlite_contract vt tb saved" "sha_size sha" "store_at tb st t" "table_inv t"
    and "revoke vt now i st = (Ok (), st1)" "(key_step vt sha)\<^sup>*\<^sup>* st1 st2"
    and "parse_bearer header = Some (i, token)"
  shows "authenticate_bearer sha header st2 = None"
proof -
  let ?t1 = "drop_lease (\<lambda>l. bl_owner l = i)
     (edit_row i (\<lambda>k. k\<lparr>ak_revoked := Some now, ak_updated := now\<rparr>) t)"
  from sqlite_contract.revoke_spec [OF assms(1,5,3,4)] obtain t1 where
    t1: "store_at tb st1 t1" "t1 = t \<and> live_row t i = None \<and> list_ex (key_named i) (t_keys t) \<or>
      t1 = ?t1 \<and> live_row t i \<noteq> None" by auto
  have dead: "live_row t1 i = None" "list_ex (key_named i) (t_keys t1)"
    using t1(2) live_row_named_ex by (auto simp: live_row_revoke)
  have "table_inv t1" using t1(2) assms(4) ring_step_inv [OF ring_step.Revoke assms(4)] by auto
  from sqlite_contract.key_steps_refine [OF assms(1,6) t1(1) this assms(2)] obtain t2 where
    "store_at tb st2 t2" "ring_step\<^sup>*\<^sup>* t1 t2" by blast
  with dead have "lookup (ks_active st2) i = None"
    using dead_key_stays_rtrancl by (simp add: store_at_def)
  then show ?thesis using assms(7) by (rule authenticate_uncached)
qed

definition ex_key_id :: string where
  "ex_key_id = hex_encode (replicate 16 0)"

definition ex_revoke :: "unit result \<times> mem_db key_store" where
  "ex_revoke = revoke (mem_sqlite []) 9 ex_key_id (snd ex_create)"

lemma ex_create_at: "\<exists>t. store_at md_tables (snd ex_create) t \<and> table_inv t"
proof -
  from mem.key_step_refines [OF ex_create_step ex_store_at no_tables_inv ex_sha_size] obtain t where
    "store_at md_tables (snd ex_create) t" "t = no_tables \<or> ring_step no_tables t" by blast
  with no_tables_inv ring_step_inv show ?thesis by blast
qed

theorem revoked_key_stays_refused_witness:
  "fst ex_revoke = Ok () \<and>
   authenticate_bearer ex_sha (''Bearer '' @ api_key_text (replicate 16 0) (replicate 32 1)) (snd ex_revoke)
     = None"
proof -
  have ok: "fst ex_revoke = Ok ()" by code_simp
  then have run: "revoke (mem_sqlite []) 9 ex_key_id (snd ex_create) = (Ok (), snd ex_revoke)"
    unfolding ex_revoke_def by (metis prod.collapse)
  obtain t where t: "store_at md_tables (snd ex_create) t" "table_inv t" using ex_create_at by blast
  have "parse_bearer (''Bearer '' @ api_key_text (replicate 16 0) (replicate 32 1))
      = Some (ex_key_id, api_key_text (replicate 16 0) (replicate 32 1))"
    unfolding ex_key_id_def by (rule parse_bearer_api_key) simp_all
  from revoked_key_stays_refused [OF mem.sqlite_contract_axioms ex_sha_size t run rtranclp.rtrancl_refl this] ok
  show ?thesis by blast
qed

text \<open>
  The background lease is exclusive: a lease in force is never replaced. A successful call
  reports the lease that is in force afterwards, which has not expired; it is the caller's unless
  the answer is \<open>Occupied\<close>, and it is a new one only when there was none or it had expired.
\<close>

theorem background_lease_exclusive:
  assumes "sqlite_contract vt tb saved" "store_at tb st t"
    and "acquire_background_lease vt random owner now duration st = (Ok (state, l), st')"
  shows "store_at tb st' (t\<lparr>t_lease := Some l\<rparr>) \<and> now < bl_expires l \<and>
    (state = Occupied \<longleftrightarrow> bl_owner l \<noteq> owner) \<and>
    (state = Acquired \<longleftrightarrow> (case t_lease t of None \<Rightarrow> True | Some old \<Rightarrow> bl_expires old \<le> now)) \<and>
    (state \<noteq> Acquired \<longrightarrow> t_lease t = Some l)"
proof -
  have window: "0 < duration"
    using assms(3) by (auto simp: acquire_background_lease_def valid_lease_window_def split: if_splits)
  have keep: "t_lease t = Some l \<Longrightarrow> t\<lparr>t_lease := Some l\<rparr> = t" by (cases t) simp
  from sqlite_contract.acquire_spec [OF assms(1,3,2)] consider
      "t_lease t = Some l" "now < bl_expires l" "store_at tb st' t"
      "state = (if bl_owner l = owner then Existing else Occupied)"
    | bytes where "state = Acquired" "l = new_lease (hex_encode bytes) owner now duration"
      "store_at tb st' (t\<lparr>t_lease := Some l\<rparr>)" "t_lease (drop_lease (\<lambda>l. bl_expires l \<le> now) t) = None"
    by auto
  then show ?thesis
  proof cases
    case 1
    with keep have "store_at tb st' (t\<lparr>t_lease := Some l\<rparr>)" by metis
    with 1 show ?thesis by auto
  next
    case 2
    with window show ?thesis by (auto simp: new_lease_def split: option.splits if_splits)
  qed
qed

definition ex_lease :: "(lease_state \<times> background_lease) result \<times> mem_db key_store" where
  "ex_lease = acquire_background_lease (mem_sqlite []) (Inr (replicate 16 2)) ex_key_id 3 4 (snd ex_create)"

theorem background_lease_exclusive_witness:
  "\<exists>l. fst ex_lease = Ok (Acquired, l) \<and> 3 < bl_expires l \<and> bl_owner l = ex_key_id"
proof -
  have "(case fst ex_lease of Inr (Acquired, _) \<Rightarrow> True | _ \<Rightarrow> False)" by code_simp
  then obtain l where l: "fst ex_lease = Ok (Acquired, l)"
    by (auto split: sum.splits prod.splits lease_state.splits)
  then have run: "acquire_background_lease (mem_sqlite []) (Inr (replicate 16 2)) ex_key_id 3 4 (snd ex_create)
      = (Ok (Acquired, l), snd ex_lease)"
    unfolding ex_lease_def by (metis prod.collapse)
  obtain t where t: "store_at md_tables (snd ex_create) t" using ex_create_at by blast
  from background_lease_exclusive [OF mem.sqlite_contract_axioms t run] l show ?thesis by auto
qed

text \<open>
  An operation that reports an error has not happened: whatever database statement failed,
  the tables and the cache of the store are what they were before.
\<close>

theorem failed_key_operation_changes_nothing:
  assumes "sqlite_contract vt tb saved" "sha_size sha" "store_at tb st t" "table_inv t"
    and "(\<exists>draw name priority. create vt sha draw name priority st = (Inl e, st')) \<or>
      (\<exists>now i name priority. update_key vt now i name priority st = (Inl e, st')) \<or>
      (\<exists>now i. revoke vt now i st = (Inl e, st')) \<or>
      (\<exists>random owner now duration. acquire_background_lease vt random owner now duration st = (Inl e, st')) \<or>
      (\<exists>owner i. release_background_lease vt owner i st = (Inl e, st'))"
  shows "store_at tb st' t"
  using assms(5)
proof (elim disjE exE)
  fix draw name priority assume "create vt sha draw name priority st = (Inl e, st')"
  from sqlite_contract.create_spec [OF assms(1) this assms(3,2)] show ?thesis by auto
next
  fix now i name priority assume "update_key vt now i name priority st = (Inl e, st')"
  from sqlite_contract.update_key_spec [OF assms(1) this assms(3,4)] show ?thesis by auto
next
  fix now i assume "revoke vt now i st = (Inl e, st')"
  from sqlite_contract.revoke_spec [OF assms(1) this assms(3,4)] show ?thesis by auto
next
  fix random owner now duration
  assume "acquire_background_lease vt random owner now duration st = (Inl e, st')"
  from sqlite_contract.acquire_spec [OF assms(1) this assms(3)] show ?thesis by auto
next
  fix owner i assume "release_background_lease vt owner i st = (Inl e, st')"
  from sqlite_contract.release_spec [OF assms(1) this assms(3)] show ?thesis by auto
qed

definition ex_faulty :: "mem_db key_store" where
  "ex_faulty = open_store (mem_sqlite [False, True]) True ''keys.db''"

theorem failed_key_operation_changes_nothing_witness:
  "\<exists>e st'. create (mem_sqlite [False, True]) ex_sha ex_draw ''ops'' 7 ex_faulty = (Inl e, st') \<and>
     store_at md_tables st' no_tables"
proof -
  have "isl (fst (create (mem_sqlite [False, True]) ex_sha ex_draw ''ops'' 7 ex_faulty))" by code_simp
  then obtain e st' where run: "create (mem_sqlite [False, True]) ex_sha ex_draw ''ops'' 7 ex_faulty = (Inl e, st')"
    by (cases "create (mem_sqlite [False, True]) ex_sha ex_draw ''ops'' 7 ex_faulty") (auto simp: isl_def)
  have eq: "ex_faulty = \<lparr>ks_database = Some \<lparr>md_tables = no_tables, md_saved = None, md_faults = [True]\<rparr>,
      ks_is_healthy = True, ks_active = []\<rparr>" by code_simp
  have at: "store_at md_tables ex_faulty no_tables"
    unfolding eq by (simp add: store_at_def live_row_def fun_eq_iff)
  have "store_at md_tables st' no_tables"
    by (rule failed_key_operation_changes_nothing
          [OF mem.sqlite_contract_axioms ex_sha_size at no_tables_inv]) (use run in blast)
  with run show ?thesis by blast
qed

section \<open>Access control\<close>

text \<open>
  \<^bold>\<open>C38.\<close> The bearer check, with its comparison in constant time, accepts exactly the configured
  token: when a token is required, the header must be \<^verbatim>\<open>Bearer\<close>, a space and the token, and an
  unset token is never matched.
\<close>

theorem bearer_check_exact:
  assumes "length header < 2 ^ 64" "length (ac_token cfg) < 2 ^ 64"
  shows "auth_check cfg header \<longleftrightarrow>
    \<not> ac_required cfg \<or> ac_token cfg \<noteq> [] \<and> header = ''Bearer '' @ ac_token cfg"
  using assms by (rule auth_check_iff)

theorem bearer_check_exact_witness:
  "auth_check \<lparr>ac_required = True, ac_token = ''s3cret''\<rparr> ''Bearer s3cret'' \<and>
   \<not> auth_check \<lparr>ac_required = True, ac_token = ''s3cret''\<rparr> ''Bearer s3cre''"
  using bearer_check_exact [of "''Bearer s3cret''" "\<lparr>ac_required = True, ac_token = ''s3cret''\<rparr>"]
    bearer_check_exact [of "''Bearer s3cre''" "\<lparr>ac_required = True, ac_token = ''s3cret''\<rparr>"]
  by simp







text \<open>
  The limits on requests hold: a request that passes both checks has a body within the limit
  of its route, never more than the server's limit; \<^verbatim>\<open>GET\<close>, \<^verbatim>\<open>HEAD\<close> and \<^verbatim>\<open>OPTIONS\<close> carry none; a body
  that is not empty has the media type of the route; and a declared length is within the limit.
\<close>

theorem accepted_requests_within_limits:
  assumes "policy = request_policy_for verb path control_write"
    and "validate_request_headers req policy = Allowed" "validate_request req policy = Allowed"
  shows "length (rq_body req) \<le> rp_max_body_bytes policy \<and> rp_max_body_bytes policy \<le> server_body_limit \<and>
    (verb \<in> {''GET'', ''HEAD'', ''OPTIONS''} \<longrightarrow> rq_body req = []) \<and>
    (rq_body req \<noteq> [] \<longrightarrow>
       normalized_media_type req = (if path = ''/v1/audio/transcriptions'' then ''multipart/form-data''
                                    else ''application/json'')) \<and>
    (\<exists>n. declared_length req = Some n \<and> n \<le> rp_max_body_bytes policy)"
proof -
  have "rp_max_body_bytes policy \<le> server_body_limit"
    by (simp add: assms(1) request_policy_for_def server_body_limit_def audio_body_limit_def
        json_body_limit_def control_body_limit_def)
  moreover have "length (rq_body req) \<le> rp_max_body_bytes policy"
    using assms(3) by (auto simp: validate_request_def split: if_splits)
  moreover have "verb \<in> {''GET'', ''HEAD'', ''OPTIONS''} \<longrightarrow> rp_max_body_bytes policy = 0"
    by (auto simp: assms(1) request_policy_for_def)
  moreover have "rq_body req \<noteq> [] \<longrightarrow>
      normalized_media_type req = (if path = ''/v1/audio/transcriptions'' then ''multipart/form-data''
                                   else ''application/json'')"
    using assms(3)
    by (auto simp: validate_request_def media_type_verdict_def assms(1) request_policy_for_def split: if_splits)
  moreover have "\<exists>n. declared_length req = Some n \<and> n \<le> rp_max_body_bytes policy"
    using assms(2) by (auto simp: validate_request_headers_def Let_def split: if_splits option.splits)
  ultimately show ?thesis by auto
qed

definition ex_request :: http_request where
  "ex_request = \<lparr>rq_headers = (\<lambda>name.
       if name = ''Content-Type'' then ['' Application/JSON ; charset=utf-8''] else
       if name = ''Content-Length'' then [''2''] else []),
     rq_body = ''{}''\<rparr>"

theorem accepted_requests_within_limits_witness:
  "validate_request ex_request (request_policy_for ''POST'' ''/v1/chat/completions'' False) = Allowed \<and>
   2 \<le> rp_max_body_bytes (request_policy_for ''POST'' ''/v1/chat/completions'' False) \<and>
   normalized_media_type ex_request = ''application/json''"
proof -
  let ?p = "request_policy_for ''POST'' ''/v1/chat/completions'' False"
  have max: "rp_max_body_bytes ?p = 16777216" "rp_content ?p = Json" "\<not> rp_require_content_type ?p"
    "\<not> rp_allow_chunked ?p"
    by (simp_all add: request_policy_for_def starts_with_def json_body_limit_def)
  have len: "declared_length ex_request = Some 2"
    by (simp add: declared_length_def get_header_value_def ex_request_def from_chars_unsigned_def
        digits_value_def char_isdigit_def byte_of_def SIZE_MAX_def)
  have req: "normalized_media_type ex_request = ''application/json''"
    "\<not> has_header ex_request ''Transfer-Encoding''" "length (rq_body ex_request) = 2"
    by code_simp+
  have "validate_request_headers ex_request ?p = Allowed" "validate_request ex_request ?p = Allowed"
    using max req len by (auto simp: validate_request_headers_def validate_request_def is_chunked_def
        media_type_verdict_def Let_def)
  with accepted_requests_within_limits [OF refl this] req(3) show ?thesis by (auto simp: ex_request_def)
qed

section \<open>Streaming\<close>


definition ex_delta :: "string \<Rightarrow> token_logprob list \<Rightarrow> delta" where
  "ex_delta content lps = \<lparr>d_content = content, d_reasoning_text = [], d_tool_calls = [], d_logprobs = lps\<rparr>"

definition ex_session :: "nat gen_session" where
  "ex_session = new_session 1 ''chat'' ''a'' ''key'' 0 0"



text \<open>
  With token log-probabilities the two ends of a chat stream count differently: the consumer
  subtracts more than the producer added, the byte count wraps below zero, and from then on a second
  delta is refused although the queue holds a single one of one byte.
\<close>

definition ex_logprob :: token_logprob where
  "ex_logprob = \<lparr>tl_token = ''hi'', tl_bytes = [104, 105], tl_top_logprobs = []\<rparr>"

lemma logprobs_break_the_byte_count:
  "\<exists>s1 s2 s3. push_delta (ex_delta ''hi'' [ex_logprob]) ex_session = Some (True, s1) \<and>
    drain_queue s1 = ([ex_delta ''hi'' [ex_logprob]], s2) \<and>
    gs_delta_queue s2 = [] \<and> gs_pending_bytes s2 = - 4 \<and>
    push_delta (ex_delta ''x'' []) s2 = Some (True, s3) \<and>
    push_delta (ex_delta ''y'' []) s3 = None"
  by (simp add: push_delta_def ex_session_def new_session_def stream_has_room_def drain_queue_def
      delta_size_def chat_delta_size_def logprob_size_def ex_delta_def ex_logprob_def Let_def
      max_pending_stream_deltas_def max_pending_stream_bytes_def)



end
