(* ===== verification/Batch_Scheduler.thy ===== *)
theory Batch_Scheduler
  imports Prelude "HOL-Library.Word"
begin

text \<open>
  The continuous batching scheduler of \<^verbatim>\<open>libs/llama_cpp_wrapper\<close>: the types of
  \<^verbatim>\<open>continuous_batch_scheduler.hpp\<close>, its \<^verbatim>\<open>detail\<close> functions, and the operations of
  \<^verbatim>\<open>ContinuousBatchScheduler\<close> that the loop of \<open>Batch_Loop\<close> is made of: submission, the token
  channel, the start of a task on its cached prefix, admission to the bounded context pool.

  \<^bold>\<open>llama.cpp\<close> is not part of the repository. Its functions are the fields of the record \<open>llama\<close>
  over an abstract state \<open>'m\<close> (contexts, samplers, the speculative decoder, the steady clock),
  an argument of every definition that calls them.

  \<^bold>\<open>Tasks\<close> are objects of the callers, reached by pointer: the state holds a store of tasks by
  handle, the scheduler's vectors are lists of handles. \<open>tk_out_queue\<close> is everything that was
  pushed; what the caller has popped so far is its own affair. Times are ticks of the steady
  clock; the code's conversion of a difference to floating point milliseconds is left out.
  Probabilities are only copied and compared with zero; they are integers in some unit.
\<close>

section \<open>Tasks, events, batches\<close>

type_synonym token = int
type_synonym bytes = "8 word list"
type_synonym handle = nat

definition LLAMA_TOKEN_NULL :: token where
  "LLAMA_TOKEN_NULL = - 1"

record token_event =
  ev_id :: token
  ev_probability :: int
  ev_top_probabilities :: "(token \<times> int) list"
  ev_is_done :: bool
  ev_is_error :: bool
  ev_error_msg :: string

definition TokenEvent :: token_event where
  "TokenEvent = \<lparr>ev_id = 0, ev_probability = 0, ev_top_probabilities = [], ev_is_done = False,
     ev_is_error = False, ev_error_msg = []\<rparr>"

definition done_event :: token_event where
  "done_event = TokenEvent\<lparr>ev_is_done := True\<rparr>"

definition error_event :: "string \<Rightarrow> token_event" where
  "error_event msg = TokenEvent\<lparr>ev_is_done := True, ev_is_error := True, ev_error_msg := msg\<rparr>"

record media_chunk =
  mc_token_start :: int
  mc_token_count :: int
  mc_position_count :: int
  mc_data :: "nat option"

record request_progress =
  pg_phase :: int
  pg_prompt_tokens :: int
  pg_processed_tokens :: int
  pg_cached_tokens :: int
  pg_output_tokens :: int
  pg_prompt_ticks :: duration
  pg_generation_ticks :: duration

record slot_task =
  tk_progress :: "request_progress option"
  tk_slot_id :: int
  tk_prompt_tokens :: "token list"
  tk_media_chunks :: "media_chunk list"
  tk_prompt_position_count :: int
  tk_last_prompt_tokens :: "token list"
  tk_recurrent_checkpoint :: "bytes option"
  tk_recurrent_draft_checkpoint :: "bytes option"
  tk_recurrent_replay_checkpoint :: "bytes option"
  tk_checkpoint_pos :: int
  tk_checkpoint_capture_pos :: int
  tk_sampler :: "nat option"
  tk_max_tokens :: int
  tk_stop_tokens :: "token list"
  tk_ext_cancel :: "bool option"
  tk_caller_cancel :: bool
  tk_caller_stop :: bool
  tk_mtp_cache_synced :: bool
  tk_capture_probabilities :: bool
  tk_top_probabilities :: int
  tk_initialized :: bool
  tk_prompt_pos :: int
  tk_prompt_done :: bool
  tk_n_pos :: int
  tk_n_generated :: int
  tk_i_batch :: int
  tk_last_token :: token
  tk_spec_draft :: "token list"
  tk_spec_i_batch :: "int list"
  tk_spec_draft_checkpoint :: bytes
  tk_spec_draft_pos_max :: int
  tk_n_drafted :: int
  tk_n_draft_accepted :: int
  tk_mtp_eligible :: bool
  tk_admitted :: bool
  tk_reserved_positions :: int
  tk_started_at :: time_point
  tk_generation_started :: bool
  tk_generation_started_at :: time_point
  tk_out_cached_prompt_tokens :: int
  tk_out_recurrent_checkpoint :: "bytes option"
  tk_out_recurrent_draft_checkpoint :: "bytes option"
  tk_out_recurrent_replay_checkpoint :: "bytes option"
  tk_out_checkpoint_pos :: int
  tk_out_mtp_cache_synced :: bool
  tk_out_prompt_duration :: duration
  tk_out_prompt_decode_duration :: duration
  tk_out_prompt_decode_tokens :: int
  tk_out_prompt_decode_invalid :: bool
  tk_out_generation_duration :: duration
  tk_out_first_token_duration :: duration
  tk_out_queue :: "token_event list"

text \<open>The default member initializers.\<close>

definition SlotTask :: slot_task where
  "SlotTask = \<lparr>tk_progress = None, tk_slot_id = - 1, tk_prompt_tokens = [], tk_media_chunks = [],
     tk_prompt_position_count = 0, tk_last_prompt_tokens = [], tk_recurrent_checkpoint = None,
     tk_recurrent_draft_checkpoint = None, tk_recurrent_replay_checkpoint = None,
     tk_checkpoint_pos = 0, tk_checkpoint_capture_pos = 0, tk_sampler = None,
     tk_max_tokens = 512, tk_stop_tokens = [], tk_ext_cancel = None, tk_caller_cancel = False,
     tk_caller_stop = False, tk_mtp_cache_synced = True, tk_capture_probabilities = False,
     tk_top_probabilities = 0, tk_initialized = False, tk_prompt_pos = 0,
     tk_prompt_done = False, tk_n_pos = 0, tk_n_generated = 0, tk_i_batch = - 1,
     tk_last_token = 0, tk_spec_draft = [], tk_spec_i_batch = [], tk_spec_draft_checkpoint = [],
     tk_spec_draft_pos_max = - 1, tk_n_drafted = 0, tk_n_draft_accepted = 0,
     tk_mtp_eligible = False, tk_admitted = False, tk_reserved_positions = 0,
     tk_started_at = 0, tk_generation_started = False, tk_generation_started_at = 0,
     tk_out_cached_prompt_tokens = 0, tk_out_recurrent_checkpoint = None,
     tk_out_recurrent_draft_checkpoint = None, tk_out_recurrent_replay_checkpoint = None,
     tk_out_checkpoint_pos = 0, tk_out_mtp_cache_synced = True, tk_out_prompt_duration = 0,
     tk_out_prompt_decode_duration = 0, tk_out_prompt_decode_tokens = 0,
     tk_out_prompt_decode_invalid = False, tk_out_generation_duration = 0,
     tk_out_first_token_duration = 0, tk_out_queue = []\<rparr>"

record batch_entry =
  be_token :: token
  be_pos :: int
  be_seq_id :: int
  be_logits :: bool

type_synonym batch = "batch_entry list"

section \<open>The functions of llama.cpp\<close>

datatype llama_ctx = Target | Draft

text \<open>
  The two contexts are \<^verbatim>\<open>ctx_\<close> and \<^verbatim>\<open>draft_ctx_\<close>; \<open>has_memory\<close> says whether
  \<^verbatim>\<open>llama_get_memory\<close> returns an object. \<open>common_speculative_draft\<close> writes through the result
  pointers registered by \<open>set_draft_params\<close>: its value is what it wrote, by the handle of the task
  whose \<^verbatim>\<open>spec_draft\<close> the pointer names.
\<close>

record 'm llama =
  has_memory :: "'m \<Rightarrow> llama_ctx \<Rightarrow> bool"
  seq_pos_max :: "'m \<Rightarrow> llama_ctx \<Rightarrow> int \<Rightarrow> int"
  seq_rm :: "llama_ctx \<Rightarrow> int \<Rightarrow> int \<Rightarrow> 'm \<Rightarrow> bool \<times> 'm"
  n_seq_max :: "'m \<Rightarrow> nat"
  state_seq_get_size :: "'m \<Rightarrow> llama_ctx \<Rightarrow> int \<Rightarrow> nat"
  state_seq_get_data :: "'m \<Rightarrow> llama_ctx \<Rightarrow> nat \<Rightarrow> int \<Rightarrow> nat \<times> bytes"
  state_seq_set_data :: "llama_ctx \<Rightarrow> bytes \<Rightarrow> int \<Rightarrow> 'm \<Rightarrow> nat \<times> 'm"
  llama_decode :: "batch \<Rightarrow> 'm \<Rightarrow> int \<times> 'm"
  llama_synchronize :: "'m \<Rightarrow> 'm"
  eval_chunk_single :: "nat \<Rightarrow> int \<Rightarrow> int \<Rightarrow> int \<Rightarrow> 'm \<Rightarrow> (int \<times> int) \<times> 'm"
  sampler_free :: "nat \<Rightarrow> 'm \<Rightarrow> 'm"
  sampler_sample :: "nat option \<Rightarrow> int \<Rightarrow> 'm \<Rightarrow> token \<times> 'm"
  sampler_candidates :: "nat option \<Rightarrow> 'm \<Rightarrow> (token \<times> int) list \<times> 'm"
  sampler_accept :: "nat option \<Rightarrow> token \<Rightarrow> 'm \<Rightarrow> 'm"
  sample_and_accept_n :: "nat option \<Rightarrow> int list \<Rightarrow> token list \<Rightarrow> 'm \<Rightarrow> token list \<times> 'm"
  vocab_is_eog :: "token \<Rightarrow> bool"
  drafting_off :: "int \<Rightarrow> 'm \<Rightarrow> 'm"
  set_draft_params :: "int \<Rightarrow> int \<Rightarrow> token \<Rightarrow> token list \<Rightarrow> handle \<Rightarrow> 'm \<Rightarrow> 'm"
  speculative_draft :: "'m \<Rightarrow> (handle \<Rightarrow> token list) \<times> 'm"
  speculative_process :: "batch \<Rightarrow> 'm \<Rightarrow> bool \<times> 'm"
  speculative_begin :: "int \<Rightarrow> token list \<Rightarrow> 'm \<Rightarrow> 'm"
  speculative_accept :: "int \<Rightarrow> nat \<Rightarrow> 'm \<Rightarrow> 'm"
  steady_now :: "'m \<Rightarrow> time_point \<times> 'm"

section \<open>The \<^verbatim>\<open>detail\<close> functions\<close>

definition generation_limit_reached :: "int \<Rightarrow> int \<Rightarrow> bool" where
  "generation_limit_reached generated_before_sample max_tokens \<longleftrightarrow>
     max_tokens \<le> 0 \<or> generated_before_sample \<ge> max_tokens - 1"

definition recurrent_checkpoint_usable :: "nat \<Rightarrow> int \<Rightarrow> int \<Rightarrow> int \<Rightarrow> bool" where
  "recurrent_checkpoint_usable checkpoint_bytes checkpoint_pos common_prefix_tokens prompt_tokens
     \<longleftrightarrow> checkpoint_bytes > 0 \<and> checkpoint_pos > 0 \<and> checkpoint_pos \<le> common_prefix_tokens \<and>
         checkpoint_pos \<le> prompt_tokens"

text \<open>The loop over two vectors up to the first difference, here and in \<^verbatim>\<open>init_task\<close>.\<close>

fun common_tokens :: "token list \<Rightarrow> token list \<Rightarrow> nat" where
  "common_tokens (x # xs) (y # ys) = (if x = y then Suc (common_tokens xs ys) else 0)"
| "common_tokens _ _ = 0"

definition recurrent_checkpoint_capture_pos :: "token list \<Rightarrow> token list \<Rightarrow> int" where
  "recurrent_checkpoint_capture_pos prompt_tokens stable_prefix_tokens =
     int (common_tokens prompt_tokens stable_prefix_tokens)"

definition adaptive_mtp_enabled :: "bool \<Rightarrow> nat \<Rightarrow> int \<Rightarrow> bool" where
  "adaptive_mtp_enabled available runnable_requests max_active_requests \<longleftrightarrow>
     available \<and> runnable_requests > 0 \<and> max_active_requests > 0 \<and>
     runnable_requests \<le> nat max_active_requests"

definition adaptive_mtp_request_eligible :: "bool \<Rightarrow> bool \<Rightarrow> nat \<Rightarrow> int \<Rightarrow> bool" where
  "adaptive_mtp_request_eligible request_eligible available runnable_requests max_active_requests
     \<longleftrightarrow> request_eligible \<and>
         adaptive_mtp_enabled available runnable_requests max_active_requests"

definition bounded_pool_reservation :: "int \<Rightarrow> int \<Rightarrow> int \<Rightarrow> int" where
  "bounded_pool_reservation prompt_positions max_tokens draft_margin =
     max 0 prompt_positions + max 0 max_tokens + max 0 draft_margin"

definition bounded_pool_can_admit :: "int \<Rightarrow> int \<Rightarrow> int \<Rightarrow> bool" where
  "bounded_pool_can_admit reserved_positions candidate_positions capacity \<longleftrightarrow>
     reserved_positions \<ge> 0 \<and> candidate_positions \<ge> 0 \<and> capacity > 0 \<and>
     reserved_positions \<le> capacity - candidate_positions"

text \<open>\<^verbatim>\<open>should_cancel\<close>, and with \<^verbatim>\<open>caller_stop\<close> the condition under which a task is left out.\<close>

definition should_cancel :: "slot_task \<Rightarrow> bool" where
  "should_cancel task \<longleftrightarrow> tk_caller_cancel task \<or> tk_ext_cancel task = Some True"

definition is_live :: "slot_task \<Rightarrow> bool" where
  "is_live task \<longleftrightarrow> \<not> should_cancel task \<and> \<not> tk_caller_stop task"

subsection \<open>Order and quota of a batch\<close>

definition decode_need :: "slot_task \<Rightarrow> int" where
  "decode_need task = 1 + int (length (tk_spec_draft task))"

definition decode_tokens :: "(handle \<Rightarrow> slot_task) \<Rightarrow> handle list \<Rightarrow> int" where
  "decode_tokens store tasks =
     (\<Sum>t\<leftarrow>filter (\<lambda>t. is_live (store t) \<and> tk_prompt_done (store t)) tasks. decode_need (store t))"

definition prompt_count :: "(handle \<Rightarrow> slot_task) \<Rightarrow> handle list \<Rightarrow> int" where
  "prompt_count store tasks =
     int (length (filter (\<lambda>t. is_live (store t) \<and> \<not> tk_prompt_done (store t)) tasks))"

definition mixed_prefill_budget :: int where
  "mixed_prefill_budget = 1024"

definition prefill_available :: "int \<Rightarrow> int \<Rightarrow> int \<Rightarrow> int" where
  "prefill_available capacity decode prompts =
     (let available = max 0 (capacity - decode)
      in if decode > 0 \<and> prompts > 0
         then min available (max 1 (mixed_prefill_budget div prompts) * prompts)
         else available)"

text \<open>Runnable tasks hold different slots, so the code's sort by slot has one result.\<close>

definition by_slot :: "(handle \<Rightarrow> slot_task) \<Rightarrow> handle list \<Rightarrow> handle list" where
  "by_slot store = sort_key (\<lambda>t. tk_slot_id (store t))"

definition prepare_batch_order ::
  "(handle \<Rightarrow> slot_task) \<Rightarrow> handle list \<Rightarrow> int \<Rightarrow> nat \<Rightarrow> int \<times> handle list" where
  "prepare_batch_order store tasks capacity turn =
     (if tasks = [] then (0, [])
      else let rotated = rotate (turn mod length tasks) tasks;
               decoding = filter (\<lambda>t. tk_prompt_done (store t)) rotated;
               prompting = filter (\<lambda>t. \<not> tk_prompt_done (store t)) rotated;
               decode = decode_tokens store rotated;
               prompts = prompt_count store rotated;
               decoding' = (if decode \<le> capacity then by_slot store decoding else decoding);
               available = prefill_available capacity decode prompts;
               prompting' = (if prompts > 0 \<and> available \<ge> prompts \<and> available mod prompts = 0
                             then by_slot store prompting else prompting)
           in (if prompts > 0 then (available + prompts - 1) div prompts else 0,
               decoding' @ prompting'))"

text \<open>A duration in ticks is finite; what is left of the test is that it is positive.\<close>

definition record_prompt_decode :: "int \<Rightarrow> int \<Rightarrow> duration \<Rightarrow> slot_task \<Rightarrow> slot_task" where
  "record_prompt_decode prompt_tokens batch_tokens elapsed task =
     (if tk_out_prompt_decode_invalid task then task
      else let exclusive_prompt = (batch_tokens > 0 \<and> prompt_tokens = batch_tokens);
               measured = (if elapsed > 0 then elapsed else 0)
           in if \<not> exclusive_prompt \<or> measured = 0 \<or> tk_media_chunks task \<noteq> [] \<or>
                 tk_out_prompt_decode_tokens task > INT_MAX - prompt_tokens
              then task\<lparr>tk_out_prompt_decode_invalid := True, tk_out_prompt_decode_tokens := 0,
                        tk_out_prompt_decode_duration := 0\<rparr>
              else task\<lparr>tk_out_prompt_decode_tokens :=
                          tk_out_prompt_decode_tokens task + prompt_tokens,
                        tk_out_prompt_decode_duration :=
                          tk_out_prompt_decode_duration task + measured\<rparr>)"

section \<open>State of the scheduler\<close>

record sched_config =
  sc_has_draft :: bool
  sc_has_speculative :: bool
  sc_has_mtmd :: bool
  sc_ctx_other_is_target :: bool
  sc_n_batch :: int
  sc_mtp_max_active_requests :: int
  sc_draft_seq_rm_full :: bool
  sc_bounded_pool :: bool
  sc_context_capacity :: int
  sc_draft_context_capacity :: int
  sc_draft_margin :: int

text \<open>
  The members of the class, the objects they point to and, from \<open>sd_batch_turn\<close> on, the locals of
  \<^verbatim>\<open>run_loop\<close>, which are set anew where the code declares them.
\<close>

record 'm scheduler =
  sd_tasks :: "handle \<Rightarrow> slot_task"
  sd_machine :: 'm
  sd_active :: "handle list"
  sd_terminal_error :: string
  sd_failed :: bool
  sd_stop :: bool
  sd_batch_turn :: nat
  sd_batch :: batch
  sd_process_mtp :: bool
  sd_cancelled :: "handle list"
  sd_stopped :: "handle list"
  sd_checkpoint_ready :: "handle list"
  sd_replay_checkpoint_ready :: "handle list"
  sd_prompt_contributions :: "(handle \<times> int) list"
  sd_completed :: "handle list"

definition healthy :: "'m scheduler \<Rightarrow> bool" where
  "healthy s \<longleftrightarrow> \<not> sd_failed s \<and> \<not> sd_stop s"

text \<open>Writing through a task pointer; a call into llama.cpp.\<close>

definition put_task :: "handle \<Rightarrow> (slot_task \<Rightarrow> slot_task) \<Rightarrow> 'm scheduler \<Rightarrow> 'm scheduler" where
  "put_task t f s = s\<lparr>sd_tasks := (sd_tasks s)(t := f (sd_tasks s t))\<rparr>"

definition on_machine :: "('m \<Rightarrow> 'm) \<Rightarrow> 'm scheduler \<Rightarrow> 'm scheduler" where
  "on_machine f s = s\<lparr>sd_machine := f (sd_machine s)\<rparr>"

definition ask :: "('m \<Rightarrow> 'a \<times> 'm) \<Rightarrow> 'm scheduler \<Rightarrow> 'a \<times> 'm scheduler" where
  "ask f s = (case f (sd_machine s) of (a, m) \<Rightarrow> (a, s\<lparr>sd_machine := m\<rparr>))"

text \<open>The short-circuit \<^verbatim>\<open>&&\<close> of two calls.\<close>

definition and_also ::
  "bool \<times> 'm scheduler \<Rightarrow> ('m scheduler \<Rightarrow> bool \<times> 'm scheduler) \<Rightarrow> bool \<times> 'm scheduler" where
  "and_also r f = (case r of (ok, s) \<Rightarrow> if ok then f s else (False, s))"

section \<open>Submission and the token channel\<close>

definition push_event :: "'m llama \<Rightarrow> handle \<Rightarrow> token_event \<Rightarrow> 'm scheduler \<Rightarrow> 'm scheduler" where
  "push_event L t ev s =
     (let s1 = (if \<not> ev_is_done ev \<and> \<not> ev_is_error ev \<and>
                   tk_out_first_token_duration (sd_tasks s t) \<le> 0
                then case ask (steady_now L) s of (now, s') \<Rightarrow>
                  put_task t (\<lambda>k. k\<lparr>tk_out_first_token_duration := now - tk_started_at k\<rparr>) s'
                else s)
      in put_task t (\<lambda>k. k\<lparr>tk_out_queue := tk_out_queue k @ [ev]\<rparr>) s1)"

definition free_sampler :: "'m llama \<Rightarrow> handle \<Rightarrow> 'm scheduler \<Rightarrow> 'm scheduler" where
  "free_sampler L t s =
     (case tk_sampler (sd_tasks s t) of
        None \<Rightarrow> s
      | Some p \<Rightarrow> put_task t (\<lambda>k. k\<lparr>tk_sampler := None\<rparr>) (on_machine (sampler_free L p) s))"

definition submit :: "'m llama \<Rightarrow> handle \<Rightarrow> 'm scheduler \<Rightarrow> 'm scheduler" where
  "submit L t s =
     (case ask (steady_now L) s of (now, s1) \<Rightarrow>
       let s2 = put_task t (\<lambda>k. k\<lparr>tk_started_at := now\<rparr>) s1;
           refuse = (\<lambda>msg. push_event L t (error_event msg) (free_sampler L t s2))
       in if sd_terminal_error s2 \<noteq> [] then refuse (sd_terminal_error s2)
          else if sd_stop s2 then refuse ''scheduler stopped''
          else s2\<lparr>sd_active := sd_active s2 @ [t]\<rparr>)"

definition fail_task :: "'m llama \<Rightarrow> handle \<Rightarrow> 'm scheduler \<Rightarrow> 'm scheduler" where
  "fail_task L t s = push_event L t (error_event (sd_terminal_error s)) (free_sampler L t s)"

definition fail_all :: "'m llama \<Rightarrow> string \<Rightarrow> 'm scheduler \<Rightarrow> 'm scheduler" where
  "fail_all L msg s =
     (let s1 = s\<lparr>sd_failed := True,
                 sd_terminal_error := (if sd_terminal_error s = [] then msg
                                       else sd_terminal_error s),
                 sd_active := []\<rparr>
      in fold (fail_task L) (sd_active s) s1)"

section \<open>Start of a task on its cached prefix\<close>

definition seq_clear :: "'m llama \<Rightarrow> llama_ctx \<Rightarrow> int \<Rightarrow> 'm scheduler \<Rightarrow> 'm scheduler" where
  "seq_clear L c seq s =
     (if has_memory L (sd_machine s) c then snd (ask (seq_rm L c seq 0) s) else s)"

definition clear_sequence ::
  "'m llama \<Rightarrow> sched_config \<Rightarrow> int \<Rightarrow> 'm scheduler \<Rightarrow> 'm scheduler" where
  "clear_sequence L cfg seq s =
     (let s1 = seq_clear L Target seq s
      in if sc_has_draft cfg then seq_clear L Draft seq s1 else s1)"

definition start_at :: "int \<Rightarrow> slot_task \<Rightarrow> slot_task" where
  "start_at n k = k\<lparr>tk_prompt_pos := n, tk_n_pos := n, tk_out_cached_prompt_tokens := n\<rparr>"

definition restart :: "'m llama \<Rightarrow> sched_config \<Rightarrow> handle \<Rightarrow> 'm scheduler \<Rightarrow> 'm scheduler" where
  "restart L cfg t s =
     put_task t (start_at 0) (clear_sequence L cfg (tk_slot_id (sd_tasks s t)) s)"

text \<open>Tokens of the previous call that the prompt repeats, at least one of the prompt kept back.\<close>

definition cached_prefix :: "slot_task \<Rightarrow> int" where
  "cached_prefix k =
     (if tk_last_prompt_tokens k \<noteq> [] \<and> tk_prompt_tokens k \<noteq> []
      then let n = int (common_tokens (tk_last_prompt_tokens k) (tk_prompt_tokens k))
           in if n \<ge> int (length (tk_prompt_tokens k)) \<and> n > 0 then n - 1 else n
      else 0)"

definition checkpoint_size :: "bytes option \<Rightarrow> nat" where
  "checkpoint_size c = (case c of None \<Rightarrow> 0 | Some b \<Rightarrow> length b)"

definition checkpoint_usable :: "sched_config \<Rightarrow> bool \<Rightarrow> int \<Rightarrow> slot_task \<Rightarrow> bool" where
  "checkpoint_usable cfg draft_mem n_past k =
     (let usable = (\<lambda>c. recurrent_checkpoint_usable (checkpoint_size c) (tk_checkpoint_pos k) n_past
                          (int (length (tk_prompt_tokens k))))
      in usable (tk_recurrent_checkpoint k) \<and>
         (\<not> draft_mem \<or>
          (\<not> sc_ctx_other_is_target cfg \<and> tk_checkpoint_pos k > 1 \<and>
           usable (tk_recurrent_draft_checkpoint k) \<and>
           usable (tk_recurrent_replay_checkpoint k))))"

definition keep_checkpoint :: "bool \<Rightarrow> slot_task \<Rightarrow> slot_task" where
  "keep_checkpoint draft_mem k =
     k\<lparr>tk_out_recurrent_checkpoint := tk_recurrent_checkpoint k,
       tk_out_recurrent_draft_checkpoint :=
         (if draft_mem then tk_recurrent_draft_checkpoint k else None),
       tk_out_recurrent_replay_checkpoint :=
         (if draft_mem then tk_recurrent_replay_checkpoint k else None),
       tk_out_checkpoint_pos := tk_checkpoint_pos k\<rparr>"

text \<open>\<^verbatim>\<open>llama_state_seq_set_data_ext(...) == size\<close>; the pointer is not null where it is called.\<close>

definition restore_state ::
  "'m llama \<Rightarrow> llama_ctx \<Rightarrow> bytes option \<Rightarrow> int \<Rightarrow> 'm scheduler \<Rightarrow> bool \<times> 'm scheduler" where
  "restore_state L c data seq s =
     (case ask (state_seq_set_data L c (case data of None \<Rightarrow> [] | Some b \<Rightarrow> b) seq) s of
        (written, s') \<Rightarrow> (written = checkpoint_size data, s'))"

text \<open>The last token of the checkpoint is decoded again so that the draft context sees it.\<close>

definition replay_token ::
  "'m llama \<Rightarrow> handle \<Rightarrow> 'm scheduler \<Rightarrow> bool \<times> 'm scheduler" where
  "replay_token L t s =
     (let k = sd_tasks s t;
          seq = tk_slot_id k;
          replay = [\<lparr>be_token = tk_prompt_tokens k ! nat (tk_checkpoint_pos k - 1),
                     be_pos = tk_checkpoint_pos k - 1, be_seq_id = seq, be_logits = True\<rparr>]
      in and_also (and_also (and_also (and_also (and_also
           (ask (seq_rm L Target seq (tk_checkpoint_pos k - 1)) s)
           (ask (seq_rm L Draft seq 0)))
           (\<lambda>s'. case ask (llama_decode L replay) s' of (rc, s'') \<Rightarrow> (rc = 0, s'')))
           (ask (speculative_process L replay)))
           (restore_state L Target (tk_recurrent_checkpoint k) seq))
           (restore_state L Draft (tk_recurrent_draft_checkpoint k) seq))"

definition restore_checkpoint ::
  "'m llama \<Rightarrow> bool \<Rightarrow> handle \<Rightarrow> 'm scheduler \<Rightarrow> bool \<times> 'm scheduler" where
  "restore_checkpoint L draft_mem t s =
     (let k = sd_tasks s t;
          seq = tk_slot_id k;
          restored = and_also
            (restore_state L Target
               (if draft_mem then tk_recurrent_replay_checkpoint k else tk_recurrent_checkpoint k)
               seq s)
            (\<lambda>s'. if draft_mem then replay_token L t s' else (True, s'))
      in and_also restored (\<lambda>s1.
           case ask (seq_rm L Target seq (tk_checkpoint_pos k)) s1 of (target_trimmed, s2) \<Rightarrow>
           case (if draft_mem then ask (seq_rm L Draft seq (tk_checkpoint_pos k)) s2
                 else (True, s2)) of (draft_trimmed, s3) \<Rightarrow>
           (target_trimmed \<and> draft_trimmed, s3)))"

text \<open>From \<^verbatim>\<open>n_past <= 0 || !mem\<close> on: what of the prefix is there, and the cache cut to it.\<close>

definition trim_to ::
  "'m llama \<Rightarrow> sched_config \<Rightarrow> handle \<Rightarrow> bool \<Rightarrow> bool \<Rightarrow> int \<Rightarrow> 'm scheduler \<Rightarrow> 'm scheduler" where
  "trim_to L cfg t draft_mem usable n_past s =
     (let seq = tk_slot_id (sd_tasks s t)
      in case ask (seq_rm L Target seq n_past) s of (target_trimmed, s1) \<Rightarrow>
         case (if draft_mem then ask (seq_rm L Draft seq n_past) s1 else (True, s1))
         of (draft_trimmed, s2) \<Rightarrow>
         if target_trimmed \<and> draft_trimmed then put_task t (start_at n_past) s2
         else if usable
         then case restore_checkpoint L draft_mem t s2 of (restored, s3) \<Rightarrow>
              if restored then put_task t (\<lambda>k. start_at (tk_checkpoint_pos k) k) s3
              else restart L cfg t s3
         else restart L cfg t s2)"

definition reuse_prefix ::
  "'m llama \<Rightarrow> sched_config \<Rightarrow> handle \<Rightarrow> bool \<Rightarrow> bool \<Rightarrow> int \<Rightarrow> int \<Rightarrow> 'm scheduler \<Rightarrow> 'm scheduler"
where
  "reuse_prefix L cfg t mem draft_mem n_past target_physical s =
     (if n_past \<le> 0 \<or> \<not> mem then restart L cfg t s
      else let k = sd_tasks s t;
               physical = (if draft_mem
                           then min target_physical
                                  (max 0 (seq_pos_max L (sd_machine s) Draft (tk_slot_id k) + 1))
                           else target_physical);
               usable = checkpoint_usable cfg draft_mem n_past k;
               s1 = (if tk_checkpoint_pos k = tk_checkpoint_capture_pos k \<and> usable
                     then put_task t (keep_checkpoint draft_mem) s else s);
               n = min n_past physical
           in if n \<le> 0 then restart L cfg t s1
              else if n \<ge> physical then put_task t (start_at n) s1
              else trim_to L cfg t draft_mem usable n s1)"

definition init_task :: "'m llama \<Rightarrow> sched_config \<Rightarrow> handle \<Rightarrow> 'm scheduler \<Rightarrow> 'm scheduler" where
  "init_task L cfg t s0 =
     (case ask (steady_now L) s0 of (now, s1) \<Rightarrow>
       let mem = has_memory L (sd_machine s1) Target;
           k = sd_tasks s1 t;
           draft_mem = (tk_mtp_eligible k \<and> sc_has_draft cfg \<and> has_memory L (sd_machine s1) Draft);
           s = put_task t (\<lambda>k. k\<lparr>tk_started_at := now,
                 tk_out_mtp_cache_synced := \<not> sc_has_speculative cfg \<or> tk_mtp_eligible k\<rparr>) s1
       in if tk_media_chunks k \<noteq> []
          then put_task t (\<lambda>k. k\<lparr>tk_out_mtp_cache_synced := False\<rparr>) (restart L cfg t s)
          else let n_past = cached_prefix k;
                   target_physical =
                     (if mem then max 0 (seq_pos_max L (sd_machine s) Target (tk_slot_id k) + 1)
                      else 0)
               in if tk_mtp_eligible k \<and> \<not> tk_mtp_cache_synced k
                  then if tk_max_tokens k > 0 \<and> tk_max_tokens k \<le> sc_draft_margin cfg + 2 \<and>
                          min n_past target_physical \<ge> sc_n_batch cfg
                       then reuse_prefix L cfg t mem False n_past target_physical
                              (put_task t (\<lambda>k. k\<lparr>tk_mtp_eligible := False,
                                 tk_out_mtp_cache_synced := False\<rparr>) s)
                       else restart L cfg t s
                  else reuse_prefix L cfg t mem draft_mem n_past target_physical s)"

section \<open>Admission to the bounded pool\<close>

definition pool_capacity :: "sched_config \<Rightarrow> int" where
  "pool_capacity cfg =
     (if sc_has_draft cfg then min (sc_context_capacity cfg) (sc_draft_context_capacity cfg)
      else sc_context_capacity cfg)"

definition protected_sequence :: "'m scheduler \<Rightarrow> handle list \<Rightarrow> handle \<Rightarrow> int \<Rightarrow> bool" where
  "protected_sequence s tasks candidate seq \<longleftrightarrow>
     list_ex (\<lambda>t. tk_admitted (sd_tasks s t) \<and> tk_slot_id (sd_tasks s t) = seq) tasks \<or>
     tk_slot_id (sd_tasks s candidate) = seq"

definition sequences :: "'m llama \<Rightarrow> 'm scheduler \<Rightarrow> int list" where
  "sequences L s = map int [0..<n_seq_max L (sd_machine s)]"

definition idle_positions ::
  "'m llama \<Rightarrow> (int \<Rightarrow> bool) \<Rightarrow> llama_ctx \<Rightarrow> bool \<Rightarrow> 'm scheduler \<Rightarrow> int" where
  "idle_positions L protect c memory s =
     (if memory
      then (\<Sum>seq\<leftarrow>filter (\<lambda>seq. \<not> protect seq) (sequences L s).
              max 0 (seq_pos_max L (sd_machine s) c seq + 1))
      else 0)"

definition idle_total ::
  "'m llama \<Rightarrow> (int \<Rightarrow> bool) \<Rightarrow> bool \<Rightarrow> bool \<Rightarrow> 'm scheduler \<Rightarrow> int" where
  "idle_total L protect target_memory draft_memory s =
     max (idle_positions L protect Target target_memory s)
         (idle_positions L protect Draft draft_memory s)"

definition evict_sequence ::
  "'m llama \<Rightarrow> llama_ctx \<Rightarrow> bool \<Rightarrow> int \<Rightarrow> 'm scheduler \<Rightarrow> 'm scheduler" where
  "evict_sequence L c memory seq s = (if memory then snd (ask (seq_rm L c seq 0) s) else s)"

text \<open>
  Whether an eviction succeeded is only logged: the idle positions are counted again either way.
\<close>

fun reclaim_loop ::
  "'m llama \<Rightarrow> sched_config \<Rightarrow> (int \<Rightarrow> bool) \<Rightarrow> bool \<Rightarrow> bool \<Rightarrow> int \<Rightarrow> int \<Rightarrow> int list \<Rightarrow> int
     \<Rightarrow> 'm scheduler \<Rightarrow> int \<times> 'm scheduler" where
  "reclaim_loop L cfg protect tm dm reserved required [] idle s = (idle, s)"
| "reclaim_loop L cfg protect tm dm reserved required (seq # seqs) idle s =
     (if bounded_pool_can_admit (reserved + idle) required (pool_capacity cfg) then (idle, s)
      else if protect seq then reclaim_loop L cfg protect tm dm reserved required seqs idle s
      else let had_target = (tm \<and> seq_pos_max L (sd_machine s) Target seq \<ge> 0);
               had_draft = (dm \<and> seq_pos_max L (sd_machine s) Draft seq \<ge> 0)
           in if \<not> had_target \<and> \<not> had_draft
              then reclaim_loop L cfg protect tm dm reserved required seqs idle s
              else let s' = evict_sequence L Draft dm seq (evict_sequence L Target tm seq s)
                   in reclaim_loop L cfg protect tm dm reserved required seqs
                        (idle_total L protect tm dm s') s')"

definition reclaim_bounded_pool_capacity ::
  "'m llama \<Rightarrow> sched_config \<Rightarrow> handle list \<Rightarrow> handle \<Rightarrow> int \<Rightarrow> int \<Rightarrow> 'm scheduler
     \<Rightarrow> bool \<times> 'm scheduler" where
  "reclaim_bounded_pool_capacity L cfg tasks candidate reserved required s =
     (let protect = protected_sequence s tasks candidate;
          tm = has_memory L (sd_machine s) Target;
          dm = (sc_has_draft cfg \<and> has_memory L (sd_machine s) Draft)
      in case reclaim_loop L cfg protect tm dm reserved required (sequences L s)
                (idle_total L protect tm dm s) s of
           (idle, s') \<Rightarrow>
             (bounded_pool_can_admit (reserved + idle) required (pool_capacity cfg), s'))"

definition prompt_positions :: "slot_task \<Rightarrow> int" where
  "prompt_positions k =
     (if tk_prompt_position_count k > 0 then tk_prompt_position_count k
      else int (length (tk_prompt_tokens k)))"

fun admit_loop ::
  "'m llama \<Rightarrow> sched_config \<Rightarrow> handle list \<Rightarrow> handle list \<Rightarrow> int \<Rightarrow> handle list
     \<Rightarrow> (handle \<times> string) list \<Rightarrow> 'm scheduler
     \<Rightarrow> handle list \<times> (handle \<times> string) list \<times> 'm scheduler" where
  "admit_loop L cfg tasks [] reserved runnable rejected s = (runnable, rejected, s)"
| "admit_loop L cfg tasks (c # cs) reserved runnable rejected s =
     (let k = sd_tasks s c
      in if tk_admitted k \<or> \<not> is_live k
         then admit_loop L cfg tasks cs reserved runnable rejected s
         else let required = bounded_pool_reservation (prompt_positions k) (tk_max_tokens k)
                               (sc_draft_margin cfg)
              in if required > pool_capacity cfg
                 then admit_loop L cfg tasks cs reserved runnable
                        (rejected @ [(c, ''request exceeds shared context pool'')]) s
                 else if \<not> bounded_pool_can_admit reserved required (pool_capacity cfg)
                 then (runnable, rejected, s)
                 else case reclaim_bounded_pool_capacity L cfg tasks c reserved required s of
                        (False, s') \<Rightarrow>
                          admit_loop L cfg tasks cs reserved runnable
                            (rejected @ [(c, ''unable to reclaim shared context pool capacity'')])
                            s'
                      | (True, s') \<Rightarrow>
                          admit_loop L cfg tasks cs (reserved + required) (runnable @ [c]) rejected
                            (put_task c (\<lambda>k. k\<lparr>tk_admitted := True,
                               tk_reserved_positions := required\<rparr>) s'))"

definition admit_bounded_pool_tasks ::
  "'m llama \<Rightarrow> sched_config \<Rightarrow> handle list \<Rightarrow> 'm scheduler
     \<Rightarrow> handle list \<times> (handle \<times> string) list \<times> 'm scheduler" where
  "admit_bounded_pool_tasks L cfg tasks s =
     (let admitted = filter (\<lambda>t. tk_admitted (sd_tasks s t)) tasks
      in admit_loop L cfg tasks tasks
           (\<Sum>t\<leftarrow>admitted. tk_reserved_positions (sd_tasks s t))
           (filter (\<lambda>t. is_live (sd_tasks s t)) admitted) [] s)"

end
