(* ===== verification/Batch_Loop.thy ===== *)
theory Batch_Loop
  imports Batch_Scheduler
begin

text \<open>
  \<^verbatim>\<open>ContinuousBatchScheduler::run_loop\<close>, one definition per phase of an iteration in the order of the
  code, and their composition \<open>run_round\<close>. Other threads submit tasks, raise the flags of their own
  task and stop the scheduler: \<open>outside\<close> is what one such event does, and a round takes for each of
  the places where it reads what they write the events that happened until then.

  An exception thrown in a phase ends the round and the loop; it is the value \<open>Exception\<close>. The loop
  over the media chunks ends only if it advances; \<open>NoReturn\<close> is the value of one that does not.
\<close>

datatype halt = Exception string | NoReturn

section \<open>Other threads\<close>

datatype outside_event =
    SubmitTask handle slot_task
  | CancelTask handle
  | StopTask handle
  | CancelRequest handle
  | StopScheduler

primrec outside :: "'m llama \<Rightarrow> outside_event \<Rightarrow> 'm scheduler \<Rightarrow> 'm scheduler" where
  "outside L (SubmitTask t task) s = submit L t (put_task t (\<lambda>_. task) s)"
| "outside L (CancelTask t) s = put_task t (\<lambda>k. k\<lparr>tk_caller_cancel := True\<rparr>) s"
| "outside L (StopTask t) s = put_task t (\<lambda>k. k\<lparr>tk_caller_stop := True\<rparr>) s"
| "outside L (CancelRequest t) s =
     put_task t (\<lambda>k. k\<lparr>tk_ext_cancel := map_option (\<lambda>_. True) (tk_ext_cancel k)\<rparr>) s"
| "outside L StopScheduler s = s\<lparr>sd_stop := True\<rparr>"

definition outside_all :: "'m llama \<Rightarrow> outside_event list \<Rightarrow> 'm scheduler \<Rightarrow> 'm scheduler" where
  "outside_all L = fold (outside L)"

section \<open>Start of a round\<close>

definition clear_speculation :: "slot_task \<Rightarrow> slot_task" where
  "clear_speculation k = k\<lparr>tk_spec_draft := [], tk_spec_i_batch := [],
     tk_spec_draft_checkpoint := [], tk_spec_draft_pos_max := - 1\<rparr>"

definition begin_task ::
  "'m llama \<Rightarrow> sched_config \<Rightarrow> handle \<Rightarrow> 'm scheduler \<Rightarrow> 'm scheduler" where
  "begin_task L cfg t s =
     (let s1 = put_task t clear_speculation s
      in if sc_has_speculative cfg
         then on_machine (drafting_off L (tk_slot_id (sd_tasks s1 t))) s1 else s1)"

definition set_phase :: "int \<Rightarrow> slot_task \<Rightarrow> slot_task" where
  "set_phase p k = k\<lparr>tk_progress := map_option (\<lambda>r. r\<lparr>pg_phase := p\<rparr>) (tk_progress k)\<rparr>"

definition mark_waiting :: "handle \<Rightarrow> 'm scheduler \<Rightarrow> 'm scheduler" where
  "mark_waiting t s = (if tk_admitted (sd_tasks s t) then s else put_task t (set_phase 0) s)"

definition drop_active :: "handle list \<Rightarrow> 'm scheduler \<Rightarrow> 'm scheduler" where
  "drop_active ts s = s\<lparr>sd_active := filter (\<lambda>t. t \<notin> set ts) (sd_active s)\<rparr>"

definition reject_task ::
  "'m llama \<Rightarrow> handle \<times> string \<Rightarrow> 'm scheduler \<Rightarrow> 'm scheduler" where
  "reject_task L item s =
     push_event L (fst item) (error_event (snd item)) (free_sampler L (fst item) s)"

text \<open>The vectors \<^verbatim>\<open>tasks\<close> and \<^verbatim>\<open>runnable\<close> after admission and rejection.\<close>

definition admission ::
  "'m llama \<Rightarrow> sched_config \<Rightarrow> handle list \<Rightarrow> 'm scheduler
     \<Rightarrow> handle list \<times> handle list \<times> 'm scheduler" where
  "admission L cfg tasks s =
     (let runnable = filter (\<lambda>t. is_live (sd_tasks s t)) tasks
      in if sc_bounded_pool cfg
         then case admit_bounded_pool_tasks L cfg tasks s of (runnable', rejected, s1) \<Rightarrow>
                let s2 = fold mark_waiting tasks s1;
                    s3 = drop_active (map fst rejected) s2
                in (filter (\<lambda>t. t \<notin> set (map fst rejected)) tasks, runnable',
                    fold (reject_task L) rejected s3)
         else (tasks, runnable, s))"

definition mtp_window :: "sched_config \<Rightarrow> handle list \<Rightarrow> 'm scheduler \<Rightarrow> bool" where
  "mtp_window cfg runnable s \<longleftrightarrow>
     \<not> list_ex (\<lambda>t. tk_media_chunks (sd_tasks s t) \<noteq> []) runnable \<and>
     adaptive_mtp_enabled (sc_has_speculative cfg) (length runnable)
       (sc_mtp_max_active_requests cfg)"

definition prepare_task ::
  "'m llama \<Rightarrow> sched_config \<Rightarrow> bool \<Rightarrow> nat \<Rightarrow> handle \<Rightarrow> 'm scheduler \<Rightarrow> 'm scheduler" where
  "prepare_task L cfg window n t s =
     (if \<not> is_live (sd_tasks s t) then s
      else let s1 = (if tk_initialized (sd_tasks s t) then s
                     else put_task t (\<lambda>k. k\<lparr>tk_initialized := True\<rparr>)
                            (init_task L cfg t
                              (put_task t (\<lambda>k. (set_phase 2 k)\<lparr>tk_mtp_eligible :=
                                 window \<and> tk_media_chunks k = [] \<and> \<not> tk_capture_probabilities k\<rparr>)
                                 s)))
           in put_task t (\<lambda>k. k\<lparr>tk_mtp_eligible :=
                  adaptive_mtp_request_eligible (tk_mtp_eligible k) (sc_has_speculative cfg) n
                    (sc_mtp_max_active_requests cfg),
                tk_out_mtp_cache_synced := window \<and> tk_out_mtp_cache_synced k\<rparr>) s1)"

section \<open>Drafting\<close>

definition fill_buffer :: "nat \<Rightarrow> bytes \<Rightarrow> bytes" where
  "fill_buffer n data = take n (data @ replicate n 0)"

definition capture_draft ::
  "'m llama \<Rightarrow> sched_config \<Rightarrow> handle \<Rightarrow> 'm scheduler \<Rightarrow> halt option \<times> 'm scheduler" where
  "capture_draft L cfg t s =
     (let m = sd_machine s;
          seq = tk_slot_id (sd_tasks s t);
          needed = (if sc_draft_seq_rm_full cfg then state_seq_get_size L m Draft seq else 0);
          (written, data) = state_seq_get_data L m Draft needed seq;
          s1 = put_task t (\<lambda>k. k\<lparr>tk_spec_draft_pos_max :=
                   (if has_memory L m Draft then seq_pos_max L m Draft seq else - 1),
                 tk_spec_draft_checkpoint := fill_buffer needed data\<rparr>) s
      in if needed > 0 \<and> written \<noteq> needed
         then (Some (Exception ''failed to capture MTP draft checkpoint''), s1)
         else let k = sd_tasks s1 t
              in (None, on_machine (set_draft_params L seq (tk_n_pos k) (tk_last_token k)
                          (tk_prompt_tokens k) t) s1))"

definition run_draft :: "'m llama \<Rightarrow> handle list \<Rightarrow> 'm scheduler \<Rightarrow> 'm scheduler" where
  "run_draft L drafting s =
     (case ask (speculative_draft L) s of (drafts, s1) \<Rightarrow>
        fold (\<lambda>t. put_task t (\<lambda>k. k\<lparr>tk_spec_draft := drafts t\<rparr>)) drafting s1)"

definition restore_draft ::
  "'m llama \<Rightarrow> sched_config \<Rightarrow> handle \<Rightarrow> 'm scheduler \<Rightarrow> halt option \<times> 'm scheduler" where
  "restore_draft L cfg t s =
     (let k = sd_tasks s t;
          seq = tk_slot_id k
      in case and_also
           (if sc_draft_seq_rm_full cfg \<and> tk_spec_draft_checkpoint k \<noteq> []
            then restore_state L Draft (Some (tk_spec_draft_checkpoint k)) seq s
            else (True, s))
           (\<lambda>s'. if has_memory L (sd_machine s') Draft
                 then ask (seq_rm L Draft seq (tk_spec_draft_pos_max k + 1)) s' else (True, s'))
         of (ok, s1) \<Rightarrow>
           if ok
           then (None, put_task t (\<lambda>k. k\<lparr>tk_n_drafted :=
                   tk_n_drafted k + int (length (tk_spec_draft k))\<rparr>) s1)
           else (Some (Exception ''failed to restore MTP draft context after drafting''), s1))"

fun for_each_task ::
  "(handle \<Rightarrow> 'm scheduler \<Rightarrow> halt option \<times> 'm scheduler) \<Rightarrow> handle list \<Rightarrow> 'm scheduler
     \<Rightarrow> halt option \<times> 'm scheduler" where
  "for_each_task body [] s = (None, s)"
| "for_each_task body (t # ts) s =
     (case body t s of
        (Some e, s') \<Rightarrow> (Some e, s')
      | (None, s') \<Rightarrow> for_each_task body ts s')"

definition try_next ::
  "halt option \<times> 'm scheduler \<Rightarrow> ('m scheduler \<Rightarrow> halt option \<times> 'm scheduler)
     \<Rightarrow> halt option \<times> 'm scheduler" where
  "try_next r f = (case r of (Some e, s) \<Rightarrow> (Some e, s) | (None, s) \<Rightarrow> f s)"

definition draft_tasks ::
  "'m llama \<Rightarrow> sched_config \<Rightarrow> handle list \<Rightarrow> 'm scheduler \<Rightarrow> halt option \<times> 'm scheduler" where
  "draft_tasks L cfg runnable s =
     (let drafting = filter (\<lambda>t. tk_mtp_eligible (sd_tasks s t) \<and> tk_prompt_done (sd_tasks s t) \<and>
                        sc_has_draft cfg) runnable
      in try_next (for_each_task (capture_draft L cfg) drafting s)
           (\<lambda>s1. for_each_task (restore_draft L cfg) drafting (run_draft L drafting s1)))"

section \<open>Building the batch\<close>

definition at_media :: "slot_task \<Rightarrow> bool" where
  "at_media k \<longleftrightarrow> tk_prompt_pos k < int (length (tk_prompt_tokens k)) \<and>
     tk_prompt_tokens k ! nat (tk_prompt_pos k) = LLAMA_TOKEN_NULL"

definition media_at :: "sched_config \<Rightarrow> slot_task \<Rightarrow> (media_chunk \<times> nat) option" where
  "media_at cfg k =
     (case find (\<lambda>c. mc_token_start c = tk_prompt_pos k) (tk_media_chunks k) of
        None \<Rightarrow> None
      | Some media \<Rightarrow>
          if sc_has_mtmd cfg then map_option (\<lambda>data. (media, data)) (mc_data media) else None)"

definition eval_chunk ::
  "'m llama \<Rightarrow> sched_config \<Rightarrow> handle \<Rightarrow> 'm scheduler \<Rightarrow> halt option \<times> 'm scheduler" where
  "eval_chunk L cfg t s =
     (let k = sd_tasks s t
      in case media_at cfg k of
           None \<Rightarrow> (Some (Exception ''invalid multimodal prompt chunk''), s)
         | Some (media, data) \<Rightarrow>
             (case ask (eval_chunk_single L data (tk_n_pos k) (tk_slot_id k) (sc_n_batch cfg)) s of
                (result, s1) \<Rightarrow>
                  if fst result \<noteq> 0
                  then (Some (Exception (''multimodal chunk evaluation failed (rc='' @
                          string_of_int (fst result) @ '')'')), s1)
                  else (None, put_task t (\<lambda>k. k\<lparr>
                          tk_prompt_pos := tk_prompt_pos k + mc_token_count media,
                          tk_n_pos := snd result, tk_out_mtp_cache_synced := False\<rparr>) s1)))"

text \<open>
  Media chunks at the front of what is left of the prompt. Every turn of the loop advances the
  prompt by the chunk's tokens; \<open>fuel\<close> counts turns, and as many as the prompt has tokens are
  enough when every chunk has at least one.
\<close>

fun eval_media ::
  "'m llama \<Rightarrow> sched_config \<Rightarrow> nat \<Rightarrow> handle \<Rightarrow> 'm scheduler \<Rightarrow> halt option \<times> 'm scheduler" where
  "eval_media L cfg 0 t s = (if at_media (sd_tasks s t) then (Some NoReturn, s) else (None, s))"
| "eval_media L cfg (Suc fuel) t s =
     (if at_media (sd_tasks s t) then try_next (eval_chunk L cfg t s) (eval_media L cfg fuel t)
      else (None, s))"

text \<open>How many prompt tokens the task gets in this batch; 0 where the code continues.\<close>

definition prefill_chunk :: "sched_config \<Rightarrow> int \<Rightarrow> int \<Rightarrow> slot_task \<Rightarrow> int" where
  "prefill_chunk cfg prefill_limit n_tokens k =
     (let pos = tk_prompt_pos k;
          remaining = int (length (tk_prompt_tokens k)) - pos;
          space = sc_n_batch cfg - n_tokens;
          chunk = min (min remaining space) prefill_limit
      in if remaining \<le> 0 \<or> space \<le> 0 \<or> chunk \<le> 0 then 0
         else let chunk1 = (case find (\<lambda>c. mc_token_start c > pos) (tk_media_chunks k) of
                      None \<Rightarrow> chunk | Some media \<Rightarrow> min chunk (mc_token_start media - pos));
                  chunk2 = (if sc_has_draft cfg \<and> \<not> sc_ctx_other_is_target cfg \<and>
                               tk_mtp_eligible k \<and> tk_checkpoint_capture_pos k - 1 > pos
                            then min chunk1 (tk_checkpoint_capture_pos k - 1 - pos) else chunk1)
              in if tk_checkpoint_capture_pos k > pos
                 then min chunk2 (tk_checkpoint_capture_pos k - pos) else chunk2)"

definition prompt_entries :: "slot_task \<Rightarrow> int \<Rightarrow> bool \<Rightarrow> batch" where
  "prompt_entries k chunk is_last =
     map (\<lambda>i. \<lparr>be_token = tk_prompt_tokens k ! nat (tk_prompt_pos k + int i),
               be_pos = tk_n_pos k + int i, be_seq_id = tk_slot_id k,
               be_logits = (is_last \<and> int i = chunk - 1)\<rparr>) [0..<nat chunk]"

definition add_prompt ::
  "'m llama \<Rightarrow> sched_config \<Rightarrow> int \<Rightarrow> handle \<Rightarrow> 'm scheduler \<Rightarrow> 'm scheduler" where
  "add_prompt L cfg prefill_limit t s =
     (let k = sd_tasks s t;
          n_tokens = int (length (sd_batch s));
          chunk = prefill_chunk cfg prefill_limit n_tokens k
      in if chunk \<le> 0 then s
         else let is_last = (tk_prompt_pos k + chunk \<ge> int (length (tk_prompt_tokens k)));
                  pos = tk_prompt_pos k + chunk;
                  n_pos = tk_n_pos k + chunk;
                  k' = k\<lparr>tk_i_batch := (if is_last then n_tokens + chunk - 1 else tk_i_batch k),
                         tk_prompt_pos := pos,
                         tk_n_pos := (if is_last \<and> tk_prompt_position_count k > 0
                                      then tk_prompt_position_count k else n_pos)\<rparr>
              in (put_task t (\<lambda>_. k') s)\<lparr>
                   sd_batch := sd_batch s @ prompt_entries k chunk is_last,
                   sd_process_mtp := sd_process_mtp s \<or> tk_mtp_eligible k,
                   sd_prompt_contributions := sd_prompt_contributions s @ [(t, chunk)],
                   sd_replay_checkpoint_ready := sd_replay_checkpoint_ready s @
                     (if sc_has_draft cfg \<and> \<not> sc_ctx_other_is_target cfg \<and> tk_mtp_eligible k \<and>
                         tk_checkpoint_capture_pos k > 1 \<and> pos = tk_checkpoint_capture_pos k - 1
                      then [t] else []),
                   sd_checkpoint_ready := sd_checkpoint_ready s @
                     (if pos = tk_checkpoint_capture_pos k then [t] else [])\<rparr>)"

definition generation_entries :: "slot_task \<Rightarrow> batch" where
  "generation_entries k =
     map (\<lambda>i. \<lparr>be_token = (tk_last_token k # tk_spec_draft k) ! i, be_pos = tk_n_pos k + int i,
               be_seq_id = tk_slot_id k, be_logits = True\<rparr>) [0..<Suc (length (tk_spec_draft k))]"

definition add_generation :: "sched_config \<Rightarrow> handle \<Rightarrow> 'm scheduler \<Rightarrow> 'm scheduler" where
  "add_generation cfg t s =
     (let k = sd_tasks s t;
          n_tokens = int (length (sd_batch s))
      in if n_tokens + decode_need k > sc_n_batch cfg then s
         else let k' = (if tk_spec_draft k \<noteq> []
                        then k\<lparr>tk_spec_i_batch := tk_spec_i_batch k @
                                 map (\<lambda>i. n_tokens + int i) [0..<Suc (length (tk_spec_draft k))],
                               tk_i_batch := - 1\<rparr>
                        else k\<lparr>tk_i_batch := n_tokens, tk_n_pos := tk_n_pos k + 1\<rparr>)
              in (put_task t (\<lambda>_. k') s)\<lparr>
                   sd_batch := sd_batch s @ generation_entries k,
                   sd_process_mtp := sd_process_mtp s \<or> tk_mtp_eligible k\<rparr>)"

definition batch_task ::
  "'m llama \<Rightarrow> sched_config \<Rightarrow> int \<Rightarrow> handle \<Rightarrow> 'm scheduler \<Rightarrow> halt option \<times> 'm scheduler" where
  "batch_task L cfg prefill_limit t s =
     (let k = sd_tasks s t
      in if should_cancel k then (None, s\<lparr>sd_cancelled := sd_cancelled s @ [t]\<rparr>)
         else if tk_caller_stop k then (None, s\<lparr>sd_stopped := sd_stopped s @ [t]\<rparr>)
         else if sc_bounded_pool cfg \<and> \<not> tk_admitted k then (None, s)
         else if tk_prompt_done k then (None, add_generation cfg t s)
         else try_next (eval_media L cfg (length (tk_prompt_tokens k)) t s)
                (\<lambda>s'. (None, add_prompt L cfg prefill_limit t s')))"

text \<open>The turn is a \<^verbatim>\<open>size_t\<close>.\<close>

definition next_turn :: "nat \<Rightarrow> nat" where
  "next_turn turn = (turn + 1) mod 2 ^ 64"

lemma next_turn_code [code]: "next_turn turn = nat ((int turn + 1) mod 2 ^ 64)"
  by (simp add: next_turn_def nat_mod_distrib nat_add_distrib)

definition order_tasks ::
  "sched_config \<Rightarrow> handle list \<Rightarrow> handle list \<Rightarrow> 'm scheduler
     \<Rightarrow> int \<times> handle list \<times> 'm scheduler" where
  "order_tasks cfg tasks runnable s =
     (case prepare_batch_order (sd_tasks s) runnable (sc_n_batch cfg) (sd_batch_turn s) of
        (prefill_limit, order) \<Rightarrow>
          (prefill_limit, order @ filter (\<lambda>t. t \<notin> set order) tasks,
           s\<lparr>sd_batch_turn := next_turn (sd_batch_turn s),
             sd_batch := [], sd_process_mtp := False, sd_cancelled := [], sd_stopped := [],
             sd_checkpoint_ready := [], sd_replay_checkpoint_ready := [],
             sd_prompt_contributions := [], sd_completed := []\<rparr>))"

section \<open>Cancelled and stopped tasks\<close>

definition note_generation :: "'m llama \<Rightarrow> handle \<Rightarrow> 'm scheduler \<Rightarrow> 'm scheduler" where
  "note_generation L t s =
     (if tk_generation_started (sd_tasks s t)
      then case ask (steady_now L) s of (now, s') \<Rightarrow>
             put_task t (\<lambda>k. k\<lparr>tk_out_generation_duration :=
               now - tk_generation_started_at k\<rparr>) s'
      else s)"

definition note_prompt :: "'m llama \<Rightarrow> handle \<Rightarrow> 'm scheduler \<Rightarrow> 'm scheduler" where
  "note_prompt L t s =
     (if tk_generation_started (sd_tasks s t) then s
      else case ask (steady_now L) s of (now, s') \<Rightarrow>
             put_task t (\<lambda>k. k\<lparr>tk_out_prompt_duration := now - tk_started_at k\<rparr>) s')"

definition finish_cancelled :: "'m llama \<Rightarrow> handle \<Rightarrow> 'm scheduler \<Rightarrow> 'm scheduler" where
  "finish_cancelled L t s =
     push_event L t done_event (free_sampler L t (note_prompt L t (note_generation L t s)))"

definition finish_stopped :: "'m llama \<Rightarrow> handle \<Rightarrow> 'm scheduler \<Rightarrow> 'm scheduler" where
  "finish_stopped L t s = push_event L t done_event (free_sampler L t (note_generation L t s))"

definition settle_flagged :: "'m llama \<Rightarrow> sched_config \<Rightarrow> 'm scheduler \<Rightarrow> 'm scheduler" where
  "settle_flagged L cfg s =
     (let cancelled = sd_cancelled s;
          stopped = sd_stopped s;
          s1 = fold (\<lambda>t s'. clear_sequence L cfg (tk_slot_id (sd_tasks s' t)) s') cancelled s;
          s2 = drop_active (cancelled @ stopped) s1
      in fold (finish_stopped L) stopped (fold (finish_cancelled L) cancelled s2))"

section \<open>Decoding\<close>

definition measures_prompt :: "'m scheduler \<Rightarrow> bool" where
  "measures_prompt s \<longleftrightarrow>
     (case sd_prompt_contributions s of
        [(t, tokens)] \<Rightarrow> tokens = int (length (sd_batch s)) \<and>
                         tk_media_chunks (sd_tasks s t) = [] \<and>
                         \<not> tk_out_prompt_decode_invalid (sd_tasks s t)
      | _ \<Rightarrow> False)"

definition decode_batch :: "'m llama \<Rightarrow> 'm scheduler \<Rightarrow> (int \<times> duration) \<times> 'm scheduler" where
  "decode_batch L s =
     (let measure_prompt = measures_prompt s;
          s1 = (if measure_prompt then on_machine (llama_synchronize L) s else s)
      in case ask (steady_now L) s1 of (decode_started, s2) \<Rightarrow>
         case ask (llama_decode L (sd_batch s)) s2 of (rc, s3) \<Rightarrow>
         if rc = 0 \<and> measure_prompt
         then case ask (steady_now L) (on_machine (llama_synchronize L) s3) of (now, s4) \<Rightarrow>
                ((rc, now - decode_started), s4)
         else ((rc, 0), s3))"

definition record_contribution ::
  "int \<Rightarrow> duration \<Rightarrow> handle \<times> int \<Rightarrow> 'm scheduler \<Rightarrow> 'm scheduler" where
  "record_contribution n_tokens elapsed c s =
     put_task (fst c) (record_prompt_decode (snd c) n_tokens elapsed) s"

definition capture_context :: "'m llama \<Rightarrow> 'm \<Rightarrow> llama_ctx \<Rightarrow> int \<Rightarrow> bytes option" where
  "capture_context L m c seq =
     (let needed = state_seq_get_size L m c seq
      in if needed = 0 then None
         else case state_seq_get_data L m c needed seq of (written, data) \<Rightarrow>
                if written = needed then Some (fill_buffer needed data) else None)"

definition capture_replay :: "'m llama \<Rightarrow> handle \<Rightarrow> 'm scheduler \<Rightarrow> 'm scheduler" where
  "capture_replay L t s =
     put_task t (\<lambda>k. k\<lparr>tk_out_recurrent_replay_checkpoint :=
       capture_context L (sd_machine s) Target (tk_slot_id k)\<rparr>) s"

definition capture_checkpoint ::
  "'m llama \<Rightarrow> sched_config \<Rightarrow> handle \<Rightarrow> 'm scheduler \<Rightarrow> 'm scheduler" where
  "capture_checkpoint L cfg t s =
     put_task t (\<lambda>k.
       case capture_context L (sd_machine s) Target (tk_slot_id k) of
         None \<Rightarrow> k
       | Some target \<Rightarrow>
           if sc_has_draft cfg \<and> tk_mtp_eligible k
           then if sc_ctx_other_is_target cfg \<or> tk_out_recurrent_replay_checkpoint k = None then k
                else case capture_context L (sd_machine s) Draft (tk_slot_id k) of
                       None \<Rightarrow> k
                     | Some draft \<Rightarrow>
                         k\<lparr>tk_out_recurrent_checkpoint := Some target,
                           tk_out_recurrent_draft_checkpoint := Some draft,
                           tk_out_checkpoint_pos := tk_checkpoint_capture_pos k\<rparr>
           else k\<lparr>tk_out_recurrent_replay_checkpoint := None,
                  tk_out_recurrent_checkpoint := Some target,
                  tk_out_recurrent_draft_checkpoint := None,
                  tk_out_checkpoint_pos := tk_checkpoint_capture_pos k\<rparr>) s"

section \<open>Sampling\<close>

definition is_stop_token :: "'m llama \<Rightarrow> slot_task \<Rightarrow> token \<Rightarrow> bool" where
  "is_stop_token L k tok \<longleftrightarrow> vocab_is_eog L tok \<or> list_ex (\<lambda>x. x = tok) (tk_stop_tokens k)"

definition sampled_event :: "token \<Rightarrow> (token \<times> int) list \<Rightarrow> int \<Rightarrow> token_event" where
  "sampled_event tok candidates top_probabilities =
     TokenEvent\<lparr>ev_id := tok,
       ev_probability := fold (\<lambda>(c, p) acc. if c = tok then p else acc) candidates 0,
       ev_top_probabilities :=
         filter (\<lambda>(c, p). p > 0) (take (nat (max 0 top_probabilities)) candidates)\<rparr>"

definition begin_generation :: "'m llama \<Rightarrow> handle \<Rightarrow> 'm scheduler \<Rightarrow> 'm scheduler" where
  "begin_generation L t s =
     (if tk_generation_started (sd_tasks s t) then s
      else case ask (steady_now L) s of (now, s') \<Rightarrow>
             put_task t (\<lambda>k. k\<lparr>tk_generation_started := True, tk_generation_started_at := now,
               tk_out_prompt_duration := now - tk_started_at k\<rparr>) s')"

text \<open>The token sampled for a task, the event made of it, and the sampler's state after it.\<close>

definition sample_token ::
  "'m llama \<Rightarrow> handle \<Rightarrow> 'm scheduler \<Rightarrow> token_event \<times> 'm scheduler" where
  "sample_token L t s =
     (let k = sd_tasks s t
      in case ask (sampler_sample L (tk_sampler k) (tk_i_batch k)) s of (tok, s1) \<Rightarrow>
         case (if tk_capture_probabilities k then ask (sampler_candidates L (tk_sampler k)) s1
               else ([], s1)) of (candidates, s2) \<Rightarrow>
         (sampled_event tok candidates (tk_top_probabilities k),
          on_machine (sampler_accept L (tk_sampler k) tok) s2))"

definition complete_task :: "'m llama \<Rightarrow> handle \<Rightarrow> 'm scheduler \<Rightarrow> 'm scheduler" where
  "complete_task L t s =
     (let s1 = free_sampler L t s in s1\<lparr>sd_completed := sd_completed s1 @ [t]\<rparr>)"

text \<open>After the sample: the prompt is done when its last token was in the batch.\<close>

definition enter_generation ::
  "'m llama \<Rightarrow> sched_config \<Rightarrow> bool \<Rightarrow> handle \<Rightarrow> 'm scheduler \<Rightarrow> 'm scheduler" where
  "enter_generation L cfg finished t s =
     (let k = sd_tasks s t;
          s1 = put_task t (\<lambda>k. k\<lparr>tk_i_batch := - 1, tk_prompt_done := tk_prompt_done k \<or> finished\<rparr>) s
      in if finished \<and> sc_has_speculative cfg \<and> tk_mtp_eligible k
         then on_machine (speculative_begin L (tk_slot_id k) (tk_prompt_tokens k)) s1 else s1)"

definition emit_token ::
  "'m llama \<Rightarrow> handle \<Rightarrow> token_event \<Rightarrow> 'm scheduler \<Rightarrow> 'm scheduler" where
  "emit_token L t ev s =
     (let k = sd_tasks s t
      in if is_stop_token L k (ev_id ev) then complete_task L t s
         else if generation_limit_reached (tk_n_generated k) (tk_max_tokens k)
         then complete_task L t (push_event L t ev s)
         else put_task t (\<lambda>k. k\<lparr>tk_last_token := ev_id ev,
                tk_n_generated := tk_n_generated k + 1\<rparr>) (push_event L t ev s))"

definition sample_task ::
  "'m llama \<Rightarrow> sched_config \<Rightarrow> handle \<Rightarrow> 'm scheduler \<Rightarrow> 'm scheduler" where
  "sample_task L cfg t s =
     (let k = sd_tasks s t
      in if t \<in> set (sd_cancelled s) \<or> t \<in> set (sd_stopped s) \<or> tk_i_batch k < 0 then s
         else let finished = (\<not> tk_prompt_done k \<and>
                              tk_prompt_pos k \<ge> int (length (tk_prompt_tokens k)))
              in case sample_token L t (if finished then begin_generation L t s else s) of
                   (ev, s1) \<Rightarrow> emit_token L t ev (enter_generation L cfg finished t s1))"

section \<open>Verification of drafts\<close>

text \<open>The loop over the accepted tokens; its value tells whether the task is complete.\<close>

fun push_accepted ::
  "'m llama \<Rightarrow> handle \<Rightarrow> token list \<Rightarrow> 'm scheduler \<Rightarrow> bool \<times> 'm scheduler" where
  "push_accepted L t [] s = (False, s)"
| "push_accepted L t (tok # toks) s =
     (if is_stop_token L (sd_tasks s t) tok then (True, s)
      else let s1 = put_task t (\<lambda>k. k\<lparr>tk_n_generated := tk_n_generated k + 1\<rparr>)
                      (push_event L t (TokenEvent\<lparr>ev_id := tok\<rparr>) s)
           in if tk_n_generated (sd_tasks s1 t) \<ge> tk_max_tokens (sd_tasks s1 t) then (True, s1)
              else push_accepted L t toks (put_task t (\<lambda>k. k\<lparr>tk_last_token := tok\<rparr>) s1))"

definition roll_back_context ::
  "'m llama \<Rightarrow> llama_ctx \<Rightarrow> bool \<Rightarrow> handle \<Rightarrow> 'm scheduler \<Rightarrow> bool \<times> 'm scheduler" where
  "roll_back_context L c present t s =
     (if present \<and> has_memory L (sd_machine s) c
      then ask (seq_rm L c (tk_slot_id (sd_tasks s t)) (tk_n_pos (sd_tasks s t))) s
      else (True, s))"

text \<open>From \<^verbatim>\<open>accepted_drafts\<close> on: the context is cut back to what was accepted.\<close>

definition accept_drafts ::
  "'m llama \<Rightarrow> sched_config \<Rightarrow> handle \<Rightarrow> token list \<Rightarrow> 'm scheduler
     \<Rightarrow> halt option \<times> 'm scheduler" where
  "accept_drafts L cfg t accepted s =
     (let drafts = length accepted - 1;
          s1 = put_task t (\<lambda>k. k\<lparr>tk_n_draft_accepted := tk_n_draft_accepted k + int drafts,
                   tk_n_pos := tk_n_pos k + int (length accepted)\<rparr>)
                 (on_machine (speculative_accept L (tk_slot_id (sd_tasks s t)) (drafts mod 2 ^ 16)) s)
      in case and_also (roll_back_context L Target True t s1)
                (roll_back_context L Draft (sc_has_draft cfg) t) of
           (False, s2) \<Rightarrow>
             (Some (Exception ''failed to roll back rejected MTP draft tokens''), s2)
         | (True, s2) \<Rightarrow>
             (case push_accepted L t accepted s2 of (task_completed, s3) \<Rightarrow>
              let s4 = put_task t (\<lambda>k. k\<lparr>tk_spec_i_batch := [], tk_spec_draft := []\<rparr>) s3
              in (None, if task_completed then complete_task L t s4 else s4)))"

definition verify_task ::
  "'m llama \<Rightarrow> sched_config \<Rightarrow> handle \<Rightarrow> 'm scheduler \<Rightarrow> halt option \<times> 'm scheduler" where
  "verify_task L cfg t s =
     (let k = sd_tasks s t
      in if t \<in> set (sd_cancelled s) \<or> t \<in> set (sd_stopped s) \<or> tk_spec_i_batch k = [] then (None, s)
         else if \<not> sc_has_speculative cfg \<or>
                 length (tk_spec_i_batch k) \<noteq> length (tk_spec_draft k) + 1
         then (Some (Exception ''invalid MTP verification batch''), s)
         else case ask (sample_and_accept_n L (tk_sampler k) (tk_spec_i_batch k)
                          (tk_spec_draft k)) s of
           (accepted, s1) \<Rightarrow>
             if accepted = []
             then (Some (Exception ''MTP verification returned no target token''), s1)
             else accept_drafts L cfg t accepted s1)"

section \<open>End of a round\<close>

definition report_progress ::
  "'m llama \<Rightarrow> sched_config \<Rightarrow> handle \<Rightarrow> 'm scheduler \<Rightarrow> 'm scheduler" where
  "report_progress L cfg t s =
     (let k = sd_tasks s t
      in if t \<in> set (sd_cancelled s) \<or> t \<in> set (sd_stopped s) \<or> tk_progress k = None \<or>
            (sc_bounded_pool cfg \<and> \<not> tk_initialized k) then s
         else case ask (steady_now L) s of (now, s1) \<Rightarrow>
           put_task t (\<lambda>k. k\<lparr>tk_progress := Some \<lparr>
             pg_phase = (if tk_prompt_done k then 3 else 2),
             pg_prompt_tokens = int (length (tk_prompt_tokens k)),
             pg_processed_tokens = tk_prompt_pos k,
             pg_cached_tokens = tk_out_cached_prompt_tokens k,
             pg_output_tokens = tk_n_generated k,
             pg_prompt_ticks = (if tk_generation_started k then tk_out_prompt_duration k
                                else now - tk_started_at k),
             pg_generation_ticks = (if tk_generation_started k
                                    then now - tk_generation_started_at k else 0)\<rparr>\<rparr>) s1)"

definition finish_completed :: "'m llama \<Rightarrow> handle \<Rightarrow> 'm scheduler \<Rightarrow> 'm scheduler" where
  "finish_completed L t s = push_event L t done_event (note_generation L t s)"

definition settle_completed :: "'m llama \<Rightarrow> 'm scheduler \<Rightarrow> 'm scheduler" where
  "settle_completed L s =
     fold (finish_completed L) (sd_completed s) (drop_active (sd_completed s) s)"

section \<open>A round and the loop\<close>

datatype round_end = NextRound | LeaveLoop | Stuck

text \<open>A throw is caught around the loop, which then fails every task and ends.\<close>

definition catch_throw ::
  "'m llama \<Rightarrow> halt option \<times> 'm scheduler \<Rightarrow> ('m scheduler \<Rightarrow> round_end \<times> 'm scheduler)
     \<Rightarrow> round_end \<times> 'm scheduler" where
  "catch_throw L r f =
     (case r of
        (None, s) \<Rightarrow> f s
      | (Some (Exception msg), s) \<Rightarrow> (LeaveLoop, fail_all L (''scheduler exception: '' @ msg) s)
      | (Some NoReturn, s) \<Rightarrow> (Stuck, s))"

text \<open>From the first read of the flags to the batch: the tasks in order, and the batch built.\<close>

definition gather_tasks ::
  "'m llama \<Rightarrow> sched_config \<Rightarrow> (nat \<Rightarrow> outside_event list) \<Rightarrow> 'm scheduler
     \<Rightarrow> handle list \<times> handle list \<times> bool \<times> 'm scheduler" where
  "gather_tasks L cfg w s =
     (case admission L cfg (sd_active s) (fold (begin_task L cfg) (sd_active s) s) of
        (tasks, runnable, s1) \<Rightarrow>
          let s2 = outside_all L (w 1) s1;
              window = mtp_window cfg runnable s2
          in (tasks, runnable, window,
              fold (prepare_task L cfg window (length runnable)) runnable s2))"

definition build_batch ::
  "'m llama \<Rightarrow> sched_config \<Rightarrow> (nat \<Rightarrow> outside_event list) \<Rightarrow> handle list \<Rightarrow> handle list
     \<Rightarrow> 'm scheduler \<Rightarrow> handle list \<times> (halt option \<times> 'm scheduler)" where
  "build_batch L cfg w tasks runnable s =
     (case order_tasks cfg tasks runnable (outside_all L (w 2) s) of
        (prefill_limit, ordered, s1) \<Rightarrow>
          (ordered, for_each_task (batch_task L cfg prefill_limit) ordered
                      (outside_all L (w 3) s1)))"

definition distribute ::
  "'m llama \<Rightarrow> sched_config \<Rightarrow> (nat \<Rightarrow> outside_event list) \<Rightarrow> handle list \<Rightarrow> duration \<Rightarrow> 'm scheduler
     \<Rightarrow> round_end \<times> 'm scheduler" where
  "distribute L cfg w tasks elapsed s =
     (let s1 = fold (record_contribution (int (length (sd_batch s))) elapsed)
                 (sd_prompt_contributions s) s
      in case (if sc_has_speculative cfg \<and> sd_process_mtp s1
               then ask (speculative_process L (sd_batch s1)) s1 else (True, s1)) of
           (False, s2) \<Rightarrow> (LeaveLoop, fail_all L ''MTP draft context decode failed'' s2)
         | (True, s2) \<Rightarrow>
             let s3 = fold (capture_replay L) (sd_replay_checkpoint_ready s2) s2;
                 s4 = fold (capture_checkpoint L cfg) (sd_checkpoint_ready s3) s3;
                 s5 = fold (sample_task L cfg) tasks s4
             in catch_throw L (for_each_task (verify_task L cfg) tasks s5) (\<lambda>s6.
                  (NextRound, settle_completed L
                     (outside_all L (w 5) (fold (report_progress L cfg) tasks s6)))))"

definition run_round ::
  "'m llama \<Rightarrow> sched_config \<Rightarrow> (nat \<Rightarrow> outside_event list) \<Rightarrow> 'm scheduler
     \<Rightarrow> round_end \<times> 'm scheduler" where
  "run_round L cfg w s =
     (let s0 = outside_all L (w 0) s
      in if sd_active s0 = [] then (if sd_stop s0 then LeaveLoop else NextRound, s0)
         else case gather_tasks L cfg w s0 of (tasks, runnable, window, s1) \<Rightarrow>
           catch_throw L (if window then draft_tasks L cfg runnable s1 else (None, s1)) (\<lambda>s2.
             case build_batch L cfg w tasks runnable s2 of (ordered, built) \<Rightarrow>
             catch_throw L built (\<lambda>s3.
               let s4 = settle_flagged L cfg (outside_all L (w 4) s3)
               in if sd_batch s4 = [] then (NextRound, s4)
                  else case decode_batch L s4 of ((rc, elapsed), s5) \<Rightarrow>
                    if rc \<noteq> 0
                    then (LeaveLoop,
                          fail_all L (''llama_decode failed (rc='' @ string_of_int rc @ '')'') s5)
                    else distribute L cfg w ordered elapsed s5)))"

text \<open>The thread: rounds until one leaves the loop; \<open>None\<close> while the schedule has no more rounds.\<close>

definition leave_loop :: "'m llama \<Rightarrow> 'm scheduler \<Rightarrow> 'm scheduler" where
  "leave_loop L s =
     fail_all L (if sd_stop s then ''scheduler stopped'' else ''scheduler terminated'') s"

fun run_loop ::
  "'m llama \<Rightarrow> sched_config \<Rightarrow> (nat \<Rightarrow> outside_event list) list \<Rightarrow> 'm scheduler
     \<Rightarrow> 'm scheduler option" where
  "run_loop L cfg [] s = None"
| "run_loop L cfg (w # ws) s =
     (if sd_stop s then Some (leave_loop L s)
      else case run_round L cfg w s of
             (NextRound, s') \<Rightarrow> run_loop L cfg ws s'
           | (LeaveLoop, s') \<Rightarrow> Some (leave_loop L s')
           | (Stuck, s') \<Rightarrow> None)"

text \<open>The same thread, observed after the rounds of the schedule whether it has ended or not.\<close>

fun loop_state ::
  "'m llama \<Rightarrow> sched_config \<Rightarrow> (nat \<Rightarrow> outside_event list) list \<Rightarrow> 'm scheduler \<Rightarrow> 'm scheduler"
where
  "loop_state L cfg [] s = s"
| "loop_state L cfg (w # ws) s =
     (if sd_stop s then leave_loop L s
      else case run_round L cfg w s of
             (NextRound, s') \<Rightarrow> loop_state L cfg ws s'
           | (LeaveLoop, s') \<Rightarrow> leave_loop L s'
           | (Stuck, s') \<Rightarrow> s')"

lemma run_loop_state: "run_loop L cfg ws s = Some s' \<Longrightarrow> loop_state L cfg ws s = s'"
  by (induction ws arbitrary: s) (auto split: if_splits prod.splits round_end.splits)

end
