(* ===== verification/Batch_Frame.thy ===== *)
theory Batch_Frame
  imports Batch_Loop
begin

text \<open>
  What the operations of the batching scheduler leave alone. Every phase works on one task at a
  time: \<open>only t s s'\<close> says that nothing but the task \<open>t\<close> and the machine changed, and the
  projections of a task that a phase keeps are stated once per operation. The induction principles
  for the loops over tasks rest on it.
\<close>

section \<open>Access to the state\<close>

lemma put_task_simps [simp]:
  "sd_tasks (put_task t f s) u = (if u = t then f (sd_tasks s t) else sd_tasks s u)"
  "sd_machine (put_task t f s) = sd_machine s"
  "sd_active (put_task t f s) = sd_active s"
  "sd_terminal_error (put_task t f s) = sd_terminal_error s"
  "sd_failed (put_task t f s) = sd_failed s"
  "sd_stop (put_task t f s) = sd_stop s"
  "sd_batch_turn (put_task t f s) = sd_batch_turn s"
  "sd_batch (put_task t f s) = sd_batch s"
  "sd_cancelled (put_task t f s) = sd_cancelled s"
  "sd_stopped (put_task t f s) = sd_stopped s"
  "sd_completed (put_task t f s) = sd_completed s"
  "sd_prompt_contributions (put_task t f s) = sd_prompt_contributions s"
  by (simp_all add: put_task_def)

lemma on_machine_simps [simp]:
  "sd_tasks (on_machine f s) = sd_tasks s"
  "sd_machine (on_machine f s) = f (sd_machine s)"
  "sd_active (on_machine f s) = sd_active s"
  "sd_terminal_error (on_machine f s) = sd_terminal_error s"
  "sd_failed (on_machine f s) = sd_failed s"
  "sd_stop (on_machine f s) = sd_stop s"
  "sd_batch_turn (on_machine f s) = sd_batch_turn s"
  "sd_batch (on_machine f s) = sd_batch s"
  "sd_cancelled (on_machine f s) = sd_cancelled s"
  "sd_stopped (on_machine f s) = sd_stopped s"
  "sd_completed (on_machine f s) = sd_completed s"
  "sd_prompt_contributions (on_machine f s) = sd_prompt_contributions s"
  by (simp_all add: on_machine_def)

lemma ask_eq [simp]:
  "ask f s = (fst (f (sd_machine s)), on_machine (\<lambda>m. snd (f m)) s)"
  by (simp add: ask_def on_machine_def case_prod_beta)

section \<open>Locality\<close>

text \<open>What the state says of one task: the object, and its membership in the lists of the round.\<close>

definition view :: "'m scheduler \<Rightarrow> handle \<Rightarrow> slot_task \<times> bool \<times> bool \<times> bool \<times> nat" where
  "view s t = (sd_tasks s t, t \<in> set (sd_cancelled s), t \<in> set (sd_stopped s),
     t \<in> set (sd_completed s), count_list (sd_completed s) t)"

definition shares :: "'m scheduler \<Rightarrow> 'm scheduler \<Rightarrow> bool" where
  "shares s s' \<longleftrightarrow> sd_active s' = sd_active s \<and> sd_terminal_error s' = sd_terminal_error s \<and>
     sd_failed s' = sd_failed s \<and> sd_stop s' = sd_stop s"

definition only :: "handle set \<Rightarrow> 'm scheduler \<Rightarrow> 'm scheduler \<Rightarrow> bool" where
  "only T s s' \<longleftrightarrow> shares s s' \<and> (\<forall>u. u \<notin> T \<longrightarrow> view s' u = view s u)"

named_theorems local_op \<open>operations that change one task only\<close>

lemma shares_refl [simp]: "shares s s"
  by (simp add: shares_def)

lemma only_refl [simp]: "only T s s"
  by (simp add: only_def)

lemma only_trans: "only T s s' \<Longrightarrow> only T' s' s'' \<Longrightarrow> only (T \<union> T') s s''"
  by (simp add: only_def shares_def)

lemma only_step: "only T s s' \<Longrightarrow> only T s' s'' \<Longrightarrow> only T s s''"
  by (simp add: only_def shares_def)

lemma only_mono: "only T s s' \<Longrightarrow> T \<subseteq> T' \<Longrightarrow> only T' s s'"
  by (auto simp: only_def)

lemma only_view: "only T s s' \<Longrightarrow> u \<notin> T \<Longrightarrow> view s' u = view s u"
  by (simp add: only_def)

lemma only_tasks: "only T s s' \<Longrightarrow> u \<notin> T \<Longrightarrow> sd_tasks s' u = sd_tasks s u"
  by (simp add: only_def view_def)

lemma only_shares: "only T s s' \<Longrightarrow> shares s s'"
  by (simp add: only_def)

lemma view_put [simp]: "u \<noteq> t \<Longrightarrow> view (put_task t f s) u = view s u"
  by (simp add: view_def)

lemma view_machine [simp]: "view (on_machine f s) = view s"
  by (simp add: view_def fun_eq_iff)

lemma only_put [local_op]: "only {t} s (put_task t f s)"
  by (simp add: only_def shares_def)

lemma only_put_iff [simp]: "t \<in> T \<Longrightarrow> only T s (put_task t f s') = only T s s'"
  by (auto simp: only_def shares_def) (metis view_put)+

lemma only_machine [simp]: "only T s (on_machine f s') = only T s s'"
  by (simp add: only_def shares_def)

lemma only_fold:
  assumes "\<And>x s. x \<in> set xs \<Longrightarrow> only {h x} s (body x s)"
  shows "only (h ` set xs) s (fold body xs s)"
  using assms
proof (induction xs arbitrary: s)
  case (Cons x xs)
  have "only {h x} s (body x s)" using Cons.prems by simp
  moreover have "only (h ` set xs) (body x s) (fold body xs (body x s))"
    using Cons by simp
  ultimately show ?case using only_trans by fastforce
qed simp

lemma only_for_each:
  assumes "\<And>t s. t \<in> set ts \<Longrightarrow> only {t} s (snd (body t s))"
  shows "only (set ts) s (snd (for_each_task body ts s))"
  using assms
proof (induction ts arbitrary: s)
  case (Cons t ts)
  obtain r s1 where b: "body t s = (r, s1)" by fastforce
  have 1: "only {t} s s1" using Cons.prems [of t s] b by simp
  show ?case
  proof (cases r)
    case None
    have "only (set ts) s1 (snd (for_each_task body ts s1))" using Cons by simp
    then show ?thesis using 1 b None only_trans by fastforce
  next
    case (Some e)
    then show ?thesis using 1 b by (auto intro: only_mono)
  qed
qed simp

text \<open>
  A property of tasks goes through a loop: every task of the list has it afterwards if the body
  establishes it on its own task, tasks are visited once, and untouched ones keep what they had.
  \<open>of_view P\<close> says that \<open>P\<close> looks at nothing but the view of its task.
\<close>

definition of_view :: "(handle \<Rightarrow> 'm scheduler \<Rightarrow> bool) \<Rightarrow> bool" where
  "of_view P \<longleftrightarrow> (\<forall>t s s'. view s t = view s' t \<longrightarrow> P t s \<longrightarrow> P t s')"

lemma of_viewD: "of_view P \<Longrightarrow> view s' t = view s t \<Longrightarrow> P t s \<Longrightarrow> P t s'"
  unfolding of_view_def by metis

lemma fold_tasks:
  assumes "distinct (map h xs)" "\<And>x s. x \<in> set xs \<Longrightarrow> only {h x} s (body x s)"
    and "of_view P" "of_view Q"
    and "\<And>x s. x \<in> set xs \<Longrightarrow> P (h x) s \<Longrightarrow> Q (h x) (body x s)"
    and "\<forall>x\<in>set xs. P (h x) s"
  shows "\<forall>x\<in>set xs. Q (h x) (fold body xs s)"
  using assms
proof (induction xs arbitrary: s)
  case (Cons x xs)
  have 1: "only {h x} s (body x s)" using Cons.prems(2) by simp
  have 2: "only (h ` set xs) (body x s) (fold body xs (body x s))"
    by (rule only_fold) (use Cons.prems(2) in simp)
  have "Q (h x) (fold body xs (body x s))"
    by (rule of_viewD [OF Cons.prems(4) only_view [OF 2]]) (use Cons.prems(1,5,6) in auto)
  moreover have "\<forall>y\<in>set xs. P (h y) (body x s)"
  proof
    fix y assume y: "y \<in> set xs"
    then have "h y \<notin> {h x}" using Cons.prems(1) by (auto simp: image_iff)
    then show "P (h y) (body x s)"
      using of_viewD [OF Cons.prems(3) only_view [OF 1]] Cons.prems(6) y by simp
  qed
  then have "\<forall>y\<in>set xs. Q (h y) (fold body xs (body x s))"
    using Cons.IH [of "body x s"] Cons.prems(1-5) by simp
  ultimately show ?case by simp
qed simp

lemma for_each_tasks:
  assumes "distinct ts" "\<And>t s. t \<in> set ts \<Longrightarrow> only {t} s (snd (body t s))"
    and "of_view P" "of_view Q"
    and "\<And>t s. t \<in> set ts \<Longrightarrow> P t s \<Longrightarrow> Q t (snd (body t s))"
    and "\<forall>t\<in>set ts. P t s"
  shows "\<forall>t\<in>set ts. Q t (snd (for_each_task body ts s)) \<or>
           fst (for_each_task body ts s) \<noteq> None \<and> P t (snd (for_each_task body ts s))"
  using assms
proof (induction ts arbitrary: s)
  case (Cons t ts)
  obtain r s1 where b: "body t s = (r, s1)" by fastforce
  have 1: "only {t} s s1" using Cons.prems(2) [of t s] b by simp
  have q: "Q t s1" using Cons.prems(5) [of t s] Cons.prems(6) b by simp
  have p: "\<forall>u\<in>set ts. P u s1"
  proof
    fix u assume u: "u \<in> set ts"
    then have "u \<notin> {t}" using Cons.prems(1) by auto
    then show "P u s1"
      using of_viewD [OF Cons.prems(3) only_view [OF 1]] Cons.prems(6) u by simp
  qed
  show ?case
  proof (cases r)
    case None
    let ?e = "for_each_task body ts s1"
    have 2: "only (set ts) s1 (snd ?e)"
      by (rule only_for_each) (use Cons.prems(2) in simp)
    have "Q t (snd ?e)"
      by (rule of_viewD [OF Cons.prems(4) only_view [OF 2]]) (use Cons.prems(1) q in auto)
    moreover have "\<forall>u\<in>set ts. Q u (snd ?e) \<or> fst ?e \<noteq> None \<and> P u (snd ?e)"
      using Cons.IH [of s1] Cons.prems(1-5) p by simp
    ultimately show ?thesis using b None by simp
  next
    case (Some e)
    then show ?thesis using b q p by simp
  qed
qed simp

section \<open>The operations on one task\<close>

lemma only_push [local_op]: "only {t} s (push_event L t ev s)"
  by (simp add: push_event_def Let_def)

lemma only_free [local_op]: "only {t} s (free_sampler L t s)"
  by (simp add: free_sampler_def split: option.splits)

lemma only_seq_clear [simp]: "only T s (seq_clear L c seq s') = only T s s'"
  by (simp add: seq_clear_def)

lemma only_clear [simp]: "only T s (clear_sequence L cfg seq s') = only T s s'"
  by (simp add: clear_sequence_def Let_def)

lemma only_restart [local_op]: "only {t} s (restart L cfg t s)"
  by (simp add: restart_def)

lemma only_and_also:
  "only T s (snd r) \<Longrightarrow> (\<And>s'. only T s' (snd (f s'))) \<Longrightarrow> only T s (snd (and_also r f))"
  by (auto simp: and_also_def only_def shares_def split: prod.splits)

lemma only_restore_state [simp]: "only T s (snd (restore_state L c d seq s')) = only T s s'"
  by (simp add: restore_state_def)

lemma only_replay_token: "only T s (snd (replay_token L t s))"
  unfolding replay_token_def Let_def
  by (intro only_and_also) simp_all

lemma only_restore_checkpoint: "only T s (snd (restore_checkpoint L dm t s))"
  unfolding restore_checkpoint_def Let_def
  by (intro only_and_also) (simp_all add: only_replay_token)

lemma only_trim_to [local_op]: "only {t} s (trim_to L cfg t dm usable n s)"
proof -
  have "only {t} s' (snd (restore_checkpoint L dm t s'))" for s' by (rule only_restore_checkpoint)
  moreover have "only {t} s' (restart L cfg t s')" for s' by (rule only_restart)
  ultimately show ?thesis
    by (auto simp: trim_to_def Let_def split: prod.splits intro: only_step) 
       (metis only_machine only_put_iff only_refl only_step singletonI snd_conv)+
qed

lemma only_reuse [local_op]: "only {t} s (reuse_prefix L cfg t mem dm n_past phys s)"
proof -
  have 1: "only {t} s (trim_to L cfg t dm' u n (put_task t f s))" for dm' u n f
    by (rule only_step [OF only_put only_trim_to])
  have 2: "only {t} s (restart L cfg t (put_task t f s))" for f
    by (rule only_step [OF only_put only_restart])
  show ?thesis
    unfolding reuse_prefix_def Let_def by (simp add: 1 2 only_trim_to only_restart)
qed

lemma only_init [local_op]: "only {t} s (init_task L cfg t s)"
proof -
  let ?s1 = "on_machine (\<lambda>m. snd (steady_now L m)) s"
  have 1: "only {t} s (put_task t f ?s1)" for f by simp
  have 2: "only {t} s (reuse_prefix L cfg t mem dm n ph (put_task t f ?s1))" for mem dm n ph f
    by (rule only_step [OF 1 only_reuse])
  have 3: "only {t} s (reuse_prefix L cfg t mem dm n ph (put_task t g (put_task t f ?s1)))"
    for mem dm n ph f g
    by (rule only_step [OF _ only_reuse]) simp
  have 4: "only {t} s (restart L cfg t (put_task t f ?s1))" for f
    by (rule only_step [OF 1 only_restart])
  show ?thesis
    unfolding init_task_def Let_def by (simp add: 2 3 4)
qed

section \<open>What a task keeps\<close>

text \<open>Input, state of the generation, flags of the caller, share of the pool.\<close>

definition task_input :: "slot_task \<Rightarrow> _" where
  "task_input k = (tk_slot_id k, tk_prompt_tokens k, tk_media_chunks k,
     tk_prompt_position_count k, tk_max_tokens k, tk_stop_tokens k, tk_checkpoint_pos k,
     tk_checkpoint_capture_pos k)"

definition task_output :: "slot_task \<Rightarrow> _" where
  "task_output k = (tk_prompt_done k, tk_n_generated k, tk_i_batch k, tk_last_token k,
     tk_out_queue k)"

definition task_flags :: "slot_task \<Rightarrow> _" where
  "task_flags k = (tk_caller_cancel k, tk_caller_stop k, tk_ext_cancel k)"

definition task_pool :: "slot_task \<Rightarrow> _" where
  "task_pool k = (tk_admitted k, tk_reserved_positions k)"

definition task_draft :: "slot_task \<Rightarrow> _" where
  "task_draft k = (tk_spec_draft k, tk_spec_i_batch k)"

definition task_place :: "slot_task \<Rightarrow> _" where
  "task_place k = (tk_prompt_pos k, tk_n_pos k)"

lemmas task_parts =
  task_input_def task_output_def task_flags_def task_pool_def task_draft_def task_place_def

definition task_frame :: "slot_task \<Rightarrow> _" where
  "task_frame k = (task_input k, task_output k, task_flags k, task_pool k, task_draft k)"

lemma task_frame_fields:
  assumes "task_frame k' = task_frame k"
  shows "task_input k' = task_input k" "task_output k' = task_output k"
    "task_flags k' = task_flags k" "task_pool k' = task_pool k" "task_draft k' = task_draft k"
  using assms by (simp_all add: task_frame_def)

lemma tasks_seq_clear [simp]: "sd_tasks (seq_clear L c seq s) = sd_tasks s"
  by (simp add: seq_clear_def)

lemma tasks_clear [simp]: "sd_tasks (clear_sequence L cfg seq s) = sd_tasks s"
  by (simp add: clear_sequence_def Let_def)

lemma tasks_restart:
  "sd_tasks (restart L cfg t s) = (sd_tasks s)(t := start_at 0 (sd_tasks s t))"
  by (auto simp: restart_def)

lemma tasks_restore_state [simp]: "sd_tasks (snd (restore_state L c d seq s)) = sd_tasks s"
  by (simp add: restore_state_def)

lemma tasks_and_also:
  "sd_tasks (snd r) = x \<Longrightarrow> (\<And>s'. sd_tasks (snd (f s')) = sd_tasks s') \<Longrightarrow>
   sd_tasks (snd (and_also r f)) = x"
  by (auto simp: and_also_def split: prod.splits)

lemma tasks_restore_checkpoint [simp]:
  "sd_tasks (snd (restore_checkpoint L dm t s)) = sd_tasks s"
  unfolding restore_checkpoint_def replay_token_def Let_def
  by (intro tasks_and_also) (auto intro!: tasks_and_also)

lemma frame_updates [simp]:
  "task_frame (k\<lparr>tk_started_at := x\<rparr>) = task_frame k"
  "task_frame (k\<lparr>tk_out_mtp_cache_synced := b\<rparr>) = task_frame k"
  "task_frame (k\<lparr>tk_mtp_eligible := b\<rparr>) = task_frame k"
  "task_frame (k\<lparr>tk_initialized := b\<rparr>) = task_frame k"
  "task_frame (k\<lparr>tk_progress := p\<rparr>) = task_frame k"
  "task_frame (k\<lparr>tk_n_drafted := n\<rparr>) = task_frame k"
  "task_frame (k\<lparr>tk_spec_draft_pos_max := n\<rparr>) = task_frame k"
  "task_frame (k\<lparr>tk_spec_draft_checkpoint := d\<rparr>) = task_frame k"
  "task_frame (k\<lparr>tk_sampler := q\<rparr>) = task_frame k"
  "task_frame (k\<lparr>tk_out_prompt_duration := x\<rparr>) = task_frame k"
  "task_frame (k\<lparr>tk_out_generation_duration := x\<rparr>) = task_frame k"
  "task_frame (k\<lparr>tk_generation_started := b\<rparr>) = task_frame k"
  "task_frame (k\<lparr>tk_generation_started_at := x\<rparr>) = task_frame k"
  "task_frame (k\<lparr>tk_out_first_token_duration := x\<rparr>) = task_frame k"
  by (simp_all add: task_frame_def task_parts)

lemma frame_start_at [simp]: "task_frame (start_at n k) = task_frame k"
  by (simp add: task_frame_def task_parts start_at_def)

lemma frame_keep [simp]: "task_frame (keep_checkpoint dm k) = task_frame k"
  by (simp add: task_frame_def task_parts keep_checkpoint_def)

lemma frame_trim [simp]: "task_frame (sd_tasks (trim_to L cfg t dm u n s) v) = task_frame (sd_tasks s v)"
proof -
  have "sd_tasks s3 = sd_tasks s2" if "restore_checkpoint L dm t s2 = (r, s3)" for r s2 s3
    using that tasks_restore_checkpoint [of L dm t s2] by simp
  then show ?thesis
    by (auto simp: trim_to_def Let_def tasks_restart split: prod.splits)
qed

lemma frame_reuse [simp]:
  "task_frame (sd_tasks (reuse_prefix L cfg t mem dm n ph s) v) = task_frame (sd_tasks s v)"
  by (simp add: reuse_prefix_def Let_def tasks_restart)

lemma frame_init [simp]: "task_frame (sd_tasks (init_task L cfg t s) v) = task_frame (sd_tasks s v)"
  by (simp add: init_task_def Let_def tasks_restart)

section \<open>The phases of a round\<close>

lemma only_begin [local_op]: "only {t} s (begin_task L cfg t s)"
  by (simp add: begin_task_def Let_def)

lemma only_mark [local_op]: "only {t} s (mark_waiting t s)"
  by (simp add: mark_waiting_def)

lemma only_reject [local_op]: "only {fst item} s (reject_task L item s)"
  unfolding reject_task_def by (rule only_step [OF only_free only_push])

lemma only_prepare [local_op]: "only {t} s (prepare_task L cfg window n t s)"
proof -
  have "only {t} s (init_task L cfg t (put_task t f s))" for f
    by (rule only_step [OF only_put only_init])
  then show ?thesis by (simp add: prepare_task_def Let_def)
qed

lemma only_capture_draft [local_op]: "only {t} s (snd (capture_draft L cfg t s))"
  by (simp add: capture_draft_def Let_def split: prod.splits)

lemma only_restore_draft [local_op]: "only {t} s (snd (restore_draft L cfg t s))"
proof -
  define r where "r = and_also
     (if sc_draft_seq_rm_full cfg \<and> tk_spec_draft_checkpoint (sd_tasks s t) \<noteq> []
      then restore_state L Draft (Some (tk_spec_draft_checkpoint (sd_tasks s t)))
             (tk_slot_id (sd_tasks s t)) s
      else (True, s))
     (\<lambda>s'. if has_memory L (sd_machine s') Draft
           then ask (seq_rm L Draft (tk_slot_id (sd_tasks s t))
                  (tk_spec_draft_pos_max (sd_tasks s t) + 1)) s' else (True, s'))"
  have "only {t} s (snd r)" unfolding r_def by (rule only_and_also) simp_all
  then show ?thesis
    unfolding restore_draft_def Let_def r_def [symmetric] by (cases r) simp
qed

lemma only_run_draft: "only (set ts) s (run_draft L ts s)"
proof -
  have 1: "only (set ts) s' (fold (\<lambda>t. put_task t (f t)) ts s')" for f s'
    using only_fold [of ts "\<lambda>t. t" "\<lambda>t. put_task t (f t)"] by (simp add: only_put)
  have 2: "only (set ts) s (on_machine g s)" for g by simp
  show ?thesis
    unfolding run_draft_def ask_eq prod.case by (rule only_step [OF 2 1])
qed

lemma snd_try_next:
  "snd (try_next r f) = (if fst r = None then snd (f (snd r)) else snd r)"
  "fst (try_next r f) = (if fst r = None then fst (f (snd r)) else fst r)"
  by (auto simp: try_next_def split: prod.splits option.splits)

lemma only_eval_chunk [local_op]: "only {t} s (snd (eval_chunk L cfg t s))"
  by (simp add: eval_chunk_def Let_def split: option.splits prod.splits)

lemma only_eval_media: "only {t} s (snd (eval_media L cfg fuel t s))"
proof (induction fuel arbitrary: s)
  case (Suc fuel)
  then show ?case
    using only_step [OF only_eval_chunk Suc.IH] by (simp add: snd_try_next only_eval_chunk)
qed simp

lemma only_add_prompt [local_op]: "only {t} s (add_prompt L cfg lim t s)"
  by (simp add: add_prompt_def Let_def only_def shares_def view_def)

lemma only_add_generation [local_op]: "only {t} s (add_generation cfg t s)"
  by (simp add: add_generation_def Let_def only_def shares_def view_def)

lemma only_batch_task [local_op]: "only {t} s (snd (batch_task L cfg lim t s))"
proof -
  have 1: "only {t} s (s\<lparr>sd_cancelled := sd_cancelled s @ [t]\<rparr>)"
    "only {t} s (s\<lparr>sd_stopped := sd_stopped s @ [t]\<rparr>)"
    by (simp_all add: only_def shares_def view_def)
  have 2: "only {t} s (add_prompt L cfg lim t (snd (eval_media L cfg fuel t s)))" for fuel
    by (rule only_step [OF only_eval_media only_add_prompt])
  show ?thesis
    using 1 2 only_add_generation [of t s cfg] only_eval_media [of t s L cfg]
    by (simp add: batch_task_def Let_def snd_try_next)
qed

lemma only_note [local_op]:
  "only {t} s (note_generation L t s)" "only {t} s (note_prompt L t s)"
  by (simp_all add: note_generation_def note_prompt_def)

lemma only_finish [local_op]:
  "only {t} s (finish_cancelled L t s)" "only {t} s (finish_stopped L t s)"
  "only {t} s (finish_completed L t s)"
  unfolding finish_cancelled_def finish_stopped_def finish_completed_def
  by (rule only_step [OF _ only_push], rule only_step [OF _ only_free],
      rule only_step [OF _ only_note(2)], rule only_note,
      rule only_step [OF _ only_push], rule only_step [OF _ only_free], rule only_note,
      rule only_step [OF _ only_push], rule only_note)

lemma only_record [local_op]: "only {fst c} s (record_contribution n e c s)"
  unfolding record_contribution_def by (rule only_put)

lemma only_capture [local_op]:
  "only {t} s (capture_replay L t s)" "only {t} s (capture_checkpoint L cfg t s)"
  by (simp_all add: capture_replay_def capture_checkpoint_def)

lemma only_report [local_op]: "only {t} s (report_progress L cfg t s)"
  by (simp add: report_progress_def Let_def)

lemma only_complete [local_op]: "only {t} s (complete_task L t s)"
proof -
  have "only {t} s' (s'\<lparr>sd_completed := sd_completed s' @ [t]\<rparr>)" for s' :: "'a scheduler"
    by (simp add: only_def shares_def view_def)
  then show ?thesis
    unfolding complete_task_def Let_def by (rule only_step [OF only_free])
qed

lemma only_begin_generation [local_op]: "only {t} s (begin_generation L t s)"
  by (simp add: begin_generation_def)

lemma only_sample_token [simp]: "only T s (snd (sample_token L t s')) = only T s s'"
  by (simp add: sample_token_def Let_def)

lemma only_emit [local_op]: "only {t} s (emit_token L t ev s)"
proof -
  have "only {t} s (complete_task L t (push_event L t ev s))"
    by (rule only_step [OF only_push only_complete])
  then show ?thesis by (simp add: emit_token_def Let_def only_complete only_push)
qed

lemma only_enter [simp]: "t \<in> T \<Longrightarrow> only T s (enter_generation L cfg b t s') = only T s s'"
  by (simp add: enter_generation_def Let_def)

lemma only_sample [local_op]: "only {t} s (sample_task L cfg t s)"
proof -
  define b where "b \<longleftrightarrow> \<not> tk_prompt_done (sd_tasks s t) \<and>
    tk_prompt_pos (sd_tasks s t) \<ge> int (length (tk_prompt_tokens (sd_tasks s t)))"
  obtain ev s1 where e: "sample_token L t (if b then begin_generation L t s else s) = (ev, s1)"
    by fastforce
  have "only {t} s (snd (sample_token L t (if b then begin_generation L t s else s)))"
    by (simp add: only_begin_generation)
  then have "only {t} s (emit_token L t ev (enter_generation L cfg b t s1))"
    unfolding e by (intro only_step [OF _ only_emit]) simp
  then show ?thesis
    unfolding sample_task_def Let_def b_def [symmetric] by (simp add: e)
qed

lemma only_push_accepted: "only {t} s (snd (push_accepted L t toks s))"
proof (induction toks arbitrary: s)
  case (Cons tok toks)
  have 1: "only {t} s (put_task t f (push_event L t ev s))" for f ev
    by (simp add: only_push)
  have 2: "only {t} s (snd (push_accepted L t toks (put_task t g (put_task t f
      (push_event L t ev s)))))" for f g ev
    by (rule only_step [OF _ Cons.IH]) (simp add: only_push)
  show ?case by (simp add: Let_def 1 2 only_push)
qed simp

lemma only_roll_back [simp]: "only T s (snd (roll_back_context L c b t s)) = True"
  by (simp add: roll_back_context_def)

lemma only_accept_drafts: "only {t} s (snd (accept_drafts L cfg t accepted s))"
proof -
  define f :: "slot_task \<Rightarrow> slot_task" where "f = (\<lambda>k. k\<lparr>tk_n_draft_accepted := tk_n_draft_accepted k + int (length accepted - 1),
     tk_n_pos := tk_n_pos k + int (length accepted)\<rparr>)"
  define s1 where "s1 = put_task t f (on_machine (speculative_accept L (tk_slot_id (sd_tasks s t))
     ((length accepted - 1) mod 2 ^ 16)) s)"
  obtain ok s2 where r: "and_also (roll_back_context L Target True t s1)
      (roll_back_context L Draft (sc_has_draft cfg) t) = (ok, s2)" by fastforce
  obtain fin s3 where a: "push_accepted L t accepted s2 = (fin, s3)" by fastforce
  have 1: "only {t} s s1" by (simp add: s1_def)
  have "only {t} s1 (snd (and_also (roll_back_context L Target True t s1)
      (roll_back_context L Draft (sc_has_draft cfg) t)))"
    by (rule only_and_also) simp_all
  then have 2: "only {t} s s2" using 1 r only_step by simp
  have 3: "only {t} s s3" using only_push_accepted [of t s2 L accepted] a 2 only_step by simp
  have "only {t} s (complete_task L t (put_task t g s3))" for g
    by (rule only_step [OF _ only_complete]) (simp add: 3)
  then show ?thesis
    using r 2 3
    unfolding accept_drafts_def Let_def s1_def [symmetric] f_def [symmetric]
    by (cases ok) (simp_all add: a)
qed

lemma only_verify [local_op]: "only {t} s (snd (verify_task L cfg t s))"
proof -
  have "only {t} s (snd (accept_drafts L cfg t a (on_machine g s)))" for a g
    by (rule only_step [OF _ only_accept_drafts]) simp
  then show ?thesis by (simp add: verify_task_def Let_def)
qed

end
