(* ===== verification/Batch_Channel.thy ===== *)
theory Batch_Channel
  imports Batch_Frame
begin

text \<open>
  The token channel of a task. A caller drains it until an event with \<^verbatim>\<open>is_done\<close> arrives, so a task
  must get that event, once and last. The invariant \<open>chan_inv\<close> ties this to the list of active
  tasks: an active task has none yet, every other task that was ever submitted has exactly one.
  It is kept by every phase of a round, whatever the other threads do in between.
\<close>

section \<open>Queues\<close>

definition open_queue :: "slot_task \<Rightarrow> bool" where
  "open_queue k \<longleftrightarrow> list_all (\<lambda>e. \<not> ev_is_done e) (tk_out_queue k) \<and>
     int (length (tk_out_queue k)) \<le> max 1 (tk_max_tokens k)"

definition closed_queue :: "slot_task \<Rightarrow> bool" where
  "closed_queue k \<longleftrightarrow> tk_out_queue k \<noteq> [] \<and> ev_is_done (last (tk_out_queue k)) \<and>
     list_all (\<lambda>e. \<not> ev_is_done e) (butlast (tk_out_queue k)) \<and>
     int (length (tk_out_queue k)) \<le> max 1 (tk_max_tokens k) + 1"

text \<open>A task that is not active: never submitted (the set \<open>N\<close>), or closed.\<close>

definition settled :: "handle set \<Rightarrow> handle \<Rightarrow> slot_task \<Rightarrow> bool" where
  "settled N t k \<longleftrightarrow> t \<in> N \<and> tk_out_queue k = [] \<or> closed_queue k"

lemma closed_not_open: "closed_queue k \<Longrightarrow> \<not> open_queue k"
  by (auto simp: closed_queue_def open_queue_def list_all_iff)

lemma open_closes:
  assumes "open_queue k" "tk_out_queue k' = tk_out_queue k @ [e]" "ev_is_done e"
    and "tk_max_tokens k' = tk_max_tokens k"
  shows "closed_queue k'"
  using assms by (auto simp: open_queue_def closed_queue_def)

lemma queue_frame:
  assumes "tk_out_queue k' = tk_out_queue k" "tk_max_tokens k' = tk_max_tokens k"
  shows "open_queue k' = open_queue k" "closed_queue k' = closed_queue k"
    "settled N t k' = settled N t k"
  using assms by (simp_all add: open_queue_def closed_queue_def settled_def)

text \<open>A task between two rounds: the tokens it got are the ones it counts.\<close>

definition gen_inv :: "slot_task \<Rightarrow> bool" where
  "gen_inv k \<longleftrightarrow>
     (if tk_prompt_done k then 0 < tk_n_generated k \<and> tk_n_generated k < tk_max_tokens k
      else tk_n_generated k = 0) \<and>
     list_all (\<lambda>e. \<not> ev_is_done e) (tk_out_queue k) \<and>
     int (length (tk_out_queue k)) = tk_n_generated k"

definition task_inv :: "slot_task \<Rightarrow> bool" where
  "task_inv k \<longleftrightarrow> gen_inv k \<and> tk_i_batch k = - 1"

lemma gen_open: "gen_inv k \<Longrightarrow> open_queue k"
  by (auto simp: gen_inv_def open_queue_def split: if_splits)

lemma task_open: "task_inv k \<Longrightarrow> open_queue k"
  by (simp add: task_inv_def gen_open)

lemma gen_inv_frame:
  assumes "task_input k' = task_input k" "task_output k' = task_output k"
  shows "gen_inv k \<Longrightarrow> gen_inv k'"
  using assms by (simp add: task_parts gen_inv_def)

lemma task_inv_frame:
  assumes "task_input k' = task_input k" "task_output k' = task_output k"
  shows "task_inv k \<Longrightarrow> task_inv k'"
  using assms gen_inv_frame [OF assms] by (simp add: task_inv_def task_output_def)

section \<open>The invariant\<close>

text \<open>
  \<open>F\<close> is a set of handles not submitted yet, \<open>A\<close> what holds of the active tasks. Every task
  outside \<open>N\<close> has been submitted: it is active or has its done event.
\<close>

definition unused :: "handle \<Rightarrow> 'm scheduler \<Rightarrow> bool" where
  "unused t s \<longleftrightarrow> tk_out_queue (sd_tasks s t) = [] \<and> t \<notin> set (sd_cancelled s) \<and>
     t \<notin> set (sd_stopped s) \<and> t \<notin> set (sd_completed s)"

definition chan_inv ::
  "handle set \<Rightarrow> handle set \<Rightarrow> (handle \<Rightarrow> 'm scheduler \<Rightarrow> bool) \<Rightarrow> 'm scheduler \<Rightarrow> bool" where
  "chan_inv N F A s \<longleftrightarrow> distinct (sd_active s) \<and> set (sd_active s) \<inter> F = {} \<and>
     (\<forall>t\<in>F. unused t s) \<and> (\<forall>t\<in>set (sd_active s). A t s) \<and>
     (\<forall>t. t \<notin> set (sd_active s) \<longrightarrow> settled N t (sd_tasks s t)) \<and>
     (sd_terminal_error s \<noteq> [] \<longrightarrow> sd_active s = [])"

definition is_open :: "handle \<Rightarrow> 'm scheduler \<Rightarrow> bool" where
  "is_open t s \<longleftrightarrow> open_queue (sd_tasks s t)"

definition is_idle :: "handle \<Rightarrow> 'm scheduler \<Rightarrow> bool" where
  "is_idle t s \<longleftrightarrow> task_inv (sd_tasks s t)"

definition is_prepared :: "handle \<Rightarrow> 'm scheduler \<Rightarrow> bool" where
  "is_prepared t s \<longleftrightarrow> task_inv (sd_tasks s t) \<and> tk_spec_i_batch (sd_tasks s t) = []"

lemma views [simp]:
  "of_view is_open" "of_view is_idle" "of_view is_prepared" "of_view unused"
  by (simp_all add: of_view_def view_def is_open_def is_idle_def is_prepared_def unused_def)

lemma chan_weaken:
  assumes "chan_inv N F A s" "F' \<subseteq> F" "\<And>t. t \<in> set (sd_active s) \<Longrightarrow> A t s \<Longrightarrow> B t s"
  shows "chan_inv N F' B s"
  using assms by (auto simp: chan_inv_def)

lemma chan_only:
  assumes "chan_inv N F A s" "only T s s'" "T \<subseteq> set (sd_active s)"
    and "\<And>t. t \<in> set (sd_active s) \<Longrightarrow> B t s'"
  shows "chan_inv N F B s'"
proof -
  have v: "view s' u = view s u" if "u \<notin> set (sd_active s)" for u
    using only_view [OF assms(2)] that assms(3) by auto
  then have "sd_tasks s' u = sd_tasks s u" if "u \<notin> set (sd_active s)" for u
    using that by (simp add: view_def)
  moreover have "unused u s'" if "u \<in> F" for u
  proof -
    have "u \<notin> set (sd_active s)" "unused u s" using assms(1) that by (auto simp: chan_inv_def)
    then show ?thesis using of_viewD [OF views(4) v] by blast
  qed
  ultimately show ?thesis
    using assms(1,4) only_shares [OF assms(2)] by (simp add: chan_inv_def shares_def)
qed

text \<open>A loop over some of the active tasks; the others keep what they had.\<close>

lemma chan_fold:
  assumes "chan_inv N F A s" "distinct ts" "set ts \<subseteq> set (sd_active s)"
    and "\<And>t s. only {t} s (body t s)" "of_view A" "of_view B"
    and "\<And>t s. t \<in> set ts \<Longrightarrow> A t s \<Longrightarrow> B t (body t s)"
    and "\<And>t. t \<in> set (sd_active s) \<Longrightarrow> t \<notin> set ts \<Longrightarrow> A t s \<Longrightarrow> B t s"
  shows "chan_inv N F B (fold body ts s)"
proof -
  have o: "only (set ts) s (fold body ts s)"
    using only_fold [of ts "\<lambda>t. t" body s] assms(4) by simp
  show ?thesis
  proof (rule chan_only [OF assms(1) o assms(3)])
    fix t assume t: "t \<in> set (sd_active s)"
    have a: "A u s" if "u \<in> set (sd_active s)" for u
      using assms(1) that by (simp add: chan_inv_def)
    show "B t (fold body ts s)"
    proof (cases "t \<in> set ts")
      case True
      then show ?thesis
        using fold_tasks [of "\<lambda>t. t" ts body A B s] assms(2-7) a by (simp add: subset_eq)
    next
      case False
      then show ?thesis
        using of_viewD [OF assms(6) only_view [OF o False]] assms(8) [OF t False a [OF t]] by simp
    qed
  qed
qed

lemma chan_for_each:
  assumes "chan_inv N F A s" "distinct ts" "set ts \<subseteq> set (sd_active s)"
    and "\<And>t s. only {t} s (snd (body t s))" "of_view A" "of_view B"
    and "\<And>t s. t \<in> set ts \<Longrightarrow> A t s \<Longrightarrow> B t (snd (body t s))"
    and "\<And>t s. A t s \<Longrightarrow> B t s"
  shows "chan_inv N F B (snd (for_each_task body ts s))"
proof -
  let ?e = "for_each_task body ts s"
  have o: "only (set ts) s (snd ?e)" by (rule only_for_each) (rule assms(4))
  show ?thesis
  proof (rule chan_only [OF assms(1) o assms(3)])
    fix t assume t: "t \<in> set (sd_active s)"
    have a: "A u s" if "u \<in> set (sd_active s)" for u
      using assms(1) that by (simp add: chan_inv_def)
    show "B t (snd ?e)"
    proof (cases "t \<in> set ts")
      case True
      have "\<forall>t\<in>set ts. A t s" using a assms(3) by auto
      then have "B t (snd ?e) \<or> A t (snd ?e)"
        using for_each_tasks [of ts body A B s] assms(2,4-7) True by auto
      then show ?thesis using assms(8) by blast
    next
      case False
      then show ?thesis
        using of_viewD [OF assms(6) only_view [OF o False]] assms(8) [OF a [OF t]] by simp
    qed
  qed
qed

section \<open>Closing a channel\<close>

text \<open>\<open>closes t s s'\<close>: the task got its done event and nothing else of its channel changed.\<close>

definition closes :: "handle \<Rightarrow> 'm scheduler \<Rightarrow> 'm scheduler \<Rightarrow> bool" where
  "closes t s s' \<longleftrightarrow> only {t} s s' \<and> tk_max_tokens (sd_tasks s' t) = tk_max_tokens (sd_tasks s t) \<and>
     (\<exists>e. ev_is_done e \<and> tk_out_queue (sd_tasks s' t) = tk_out_queue (sd_tasks s t) @ [e])"

lemma push_queue [simp]:
  "tk_out_queue (sd_tasks (push_event L t ev s) t) = tk_out_queue (sd_tasks s t) @ [ev]"
  "tk_max_tokens (sd_tasks (push_event L t ev s) t) = tk_max_tokens (sd_tasks s t)"
  by (simp_all add: push_event_def Let_def)

lemma free_queue [simp]:
  "tk_out_queue (sd_tasks (free_sampler L t s) t) = tk_out_queue (sd_tasks s t)"
  "tk_max_tokens (sd_tasks (free_sampler L t s) t) = tk_max_tokens (sd_tasks s t)"
  by (simp_all add: free_sampler_def split: option.splits)

lemma note_queue [simp]:
  "tk_out_queue (sd_tasks (note_generation L t s) t) = tk_out_queue (sd_tasks s t)"
  "tk_max_tokens (sd_tasks (note_generation L t s) t) = tk_max_tokens (sd_tasks s t)"
  "tk_out_queue (sd_tasks (note_prompt L t s) t) = tk_out_queue (sd_tasks s t)"
  "tk_max_tokens (sd_tasks (note_prompt L t s) t) = tk_max_tokens (sd_tasks s t)"
  by (simp_all add: note_generation_def note_prompt_def)

lemma done_events [simp]: "ev_is_done done_event" "ev_is_done (error_event msg)"
  by (simp_all add: done_event_def error_event_def)

lemma only_fail_task [local_op]: "only {t} s (fail_task L t s)"
  unfolding fail_task_def by (rule only_step [OF only_free only_push])

lemma closers:
  "closes t s (fail_task L t s)" "closes t s (finish_cancelled L t s)"
  "closes t s (finish_stopped L t s)" "closes t s (finish_completed L t s)"
  "closes (fst item) s (reject_task L item s)"
  using only_finish [of t s L] only_fail_task [of t s L] only_reject [of item s L]
  by (simp_all add: closes_def fail_task_def finish_cancelled_def finish_stopped_def
        finish_completed_def reject_task_def)

lemma chan_close:
  assumes "chan_inv N F A s" "of_view A"
    and "distinct (map h xs)" "h ` set xs \<subseteq> set (sd_active s)"
    and "\<And>x. x \<in> set xs \<Longrightarrow> open_queue (sd_tasks s (h x))"
    and "\<And>x s. closes (h x) s (body x s)"
    and s0: "view s0 = view s" "sd_active s0 = filter (\<lambda>t. t \<notin> h ` set xs) (sd_active s)"
      "sd_terminal_error s0 \<noteq> [] \<longrightarrow> sd_active s0 = []"
  shows "chan_inv N F A (fold body xs s0)" (is "chan_inv N F A ?s'")
proof -
  have t0: "sd_tasks s0 u = sd_tasks s u" for u
    using fun_cong [OF s0(1), of u] by (simp add: view_def)
  have o: "only (h ` set xs) s0 ?s'"
    by (rule only_fold) (use assms(6) in \<open>simp add: closes_def\<close>)
  have c: "closed_queue (sd_tasks ?s' (h x))" if "x \<in> set xs" for x
  proof -
    have "\<forall>x\<in>set xs. closed_queue (sd_tasks ?s' (h x))"
    proof (rule fold_tasks [where P = is_open and Q = "\<lambda>t s. closed_queue (sd_tasks s t)"])
      show "only {h x} s (body x s)" for x s using assms(6) by (simp add: closes_def)
      show "closed_queue (sd_tasks (body x s) (h x))" if "is_open (h x) s" for x s
        using assms(6) [of x s] that by (auto simp: closes_def is_open_def intro: open_closes)
      show "\<forall>x\<in>set xs. is_open (h x) s0" using assms(5) by (simp add: is_open_def t0)
      show "of_view (\<lambda>t s. closed_queue (sd_tasks s t))" by (simp add: of_view_def view_def)
    qed (use assms(3) in simp_all)
    then show ?thesis using that by simp
  qed
  have same: "view ?s' u = view s u" if "u \<notin> h ` set xs" for u
    using only_view [OF o that] s0(1) by simp
  then have tasks: "sd_tasks ?s' u = sd_tasks s u" if "u \<notin> h ` set xs" for u
    using that by (simp add: view_def)
  have act: "sd_active ?s' = sd_active s0" "sd_terminal_error ?s' = sd_terminal_error s0"
    using only_shares [OF o] by (simp_all add: shares_def)
  have F: "u \<notin> h ` set xs" if "u \<in> F" for u
    using assms(1,4) that unfolding chan_inv_def by blast
  have U: "unused u ?s'" if "u \<in> F" for u
    using of_viewD [OF views(4) same [OF F [OF that]]] assms(1) that by (simp add: chan_inv_def)
  have A: "A u ?s'" if "u \<in> set (sd_active s0)" for u
    using that assms(1) s0(2) same [of u] of_viewD [OF assms(2)] by (simp add: chan_inv_def)
  have settle: "settled N u (sd_tasks ?s' u)" if "u \<notin> set (sd_active s0)" for u
  proof (cases "u \<in> h ` set xs")
    case True
    then show ?thesis using c by (auto simp: settled_def)
  next
    case False
    then have "u \<notin> set (sd_active s)" using that s0(2) by auto
    then show ?thesis using assms(1) tasks [OF False] by (simp add: chan_inv_def)
  qed
  show ?thesis
    using assms(1) act A settle U s0(2,3) by (auto simp: chan_inv_def)
qed

lemma fold_fail_shares: "shares s (fold (fail_task L) ts s)"
  using only_fold [of ts "\<lambda>t. t" "fail_task L" s] only_fail_task only_shares by fastforce

lemma fail_all_active [simp]: "sd_active (fail_all L msg s) = []"
  unfolding fail_all_def Let_def
  by (metis (no_types, lifting) fold_fail_shares scheduler.select_convs(3) scheduler.surjective
        scheduler.update_convs(3) shares_def)

lemma chan_fail_all:
  assumes "chan_inv N F A s" "\<And>t. t \<in> set (sd_active s) \<Longrightarrow> A t s \<Longrightarrow> open_queue (sd_tasks s t)"
  shows "chan_inv N F B (fail_all L msg s)"
proof -
  have o: "chan_inv N F is_open s"
    using chan_weaken [OF assms(1), of F is_open] assms(2) by (simp add: is_open_def)
  have "chan_inv N F is_open (fail_all L msg s)"
    unfolding fail_all_def Let_def
  proof (rule chan_close [OF o, where h = "\<lambda>t. t"])
    show "distinct (map (\<lambda>t. t) (sd_active s))" using o by (simp add: chan_inv_def)
    show "open_queue (sd_tasks s t)" if "t \<in> set (sd_active s)" for t
      using o that by (simp add: chan_inv_def is_open_def)
  qed (simp_all add: closers view_def fun_eq_iff)
  then show ?thesis by (simp add: chan_inv_def)
qed

section \<open>Other threads\<close>

text \<open>A task as a caller submits it: the state fields are the defaults of the class.\<close>

definition fresh_task :: "slot_task \<Rightarrow> bool" where
  "fresh_task k \<longleftrightarrow> task_output k = task_output SlotTask \<and> task_pool k = task_pool SlotTask \<and>
     task_draft k = task_draft SlotTask \<and> task_place k = task_place SlotTask \<and>
     \<not> tk_initialized k"

lemma fresh_inv: "fresh_task k \<Longrightarrow> task_inv k" "fresh_task k \<Longrightarrow> tk_spec_i_batch k = []"
  by (simp_all add: fresh_task_def task_parts task_inv_def gen_inv_def SlotTask_def)

fun submissions :: "outside_event list \<Rightarrow> (handle \<times> slot_task) list" where
  "submissions [] = []"
| "submissions (SubmitTask t k # evs) = (t, k) # submissions evs"
| "submissions (CancelTask t # evs) = submissions evs"
| "submissions (StopTask t # evs) = submissions evs"
| "submissions (CancelRequest t # evs) = submissions evs"
| "submissions (StopScheduler # evs) = submissions evs"

definition flag_update :: "(slot_task \<Rightarrow> slot_task) \<Rightarrow> bool" where
  "flag_update f \<longleftrightarrow> (\<forall>k. task_input (f k) = task_input k \<and> task_output (f k) = task_output k \<and>
     task_draft (f k) = task_draft k \<and> task_place (f k) = task_place k \<and>
     task_pool (f k) = task_pool k \<and> tk_initialized (f k) = tk_initialized k)"

lemma flag_updates:
  "flag_update (\<lambda>k. k\<lparr>tk_caller_cancel := True\<rparr>)" "flag_update (\<lambda>k. k\<lparr>tk_caller_stop := True\<rparr>)"
  "flag_update (\<lambda>k. k\<lparr>tk_ext_cancel := map_option (\<lambda>_. True) (tk_ext_cancel k)\<rparr>)"
  by (simp_all add: flag_update_def task_parts)

lemma flag_update_queue:
  assumes "flag_update f"
  shows "tk_out_queue (f k) = tk_out_queue k" "tk_max_tokens (f k) = tk_max_tokens k"
    "tk_prompt_pos (f k) = tk_prompt_pos k"
  using assms by (simp_all add: flag_update_def task_parts)

text \<open>What an invariant of the active tasks needs to stand whatever other threads do.\<close>

definition robust :: "(handle \<Rightarrow> 'm scheduler \<Rightarrow> bool) \<Rightarrow> bool" where
  "robust A \<longleftrightarrow> of_view A \<and> (\<forall>t u f s. flag_update f \<longrightarrow> A t s \<longrightarrow> A t (put_task u f s)) \<and>
     (\<forall>t s. fresh_task (sd_tasks s t) \<longrightarrow> unused t s \<longrightarrow> A t s)"

lemma flag_update_inv:
  assumes "flag_update f"
  shows "task_inv (f k) = task_inv k" "open_queue (f k) = open_queue k"
    "tk_spec_i_batch (f k) = tk_spec_i_batch k"
  using assms
  by (simp_all add: flag_update_def task_parts task_inv_def gen_inv_def open_queue_def)

lemma robust_basic: "robust is_open" "robust is_idle" "robust is_prepared"
  by (simp_all add: robust_def is_open_def is_idle_def is_prepared_def flag_update_inv fresh_inv
        task_open)

lemma chan_flag:
  assumes "chan_inv N F A s" "robust A" "flag_update f"
  shows "chan_inv N F A (put_task t f s)"
  using assms
  by (auto simp: chan_inv_def robust_def unused_def settled_def closed_queue_def
        flag_update_queue)

lemma submit_cases [consumes 2, case_names refused accepted]:
  assumes "fresh_task (sd_tasks s t)" "unused t s"
  obtains (refused) s1 e where "submit L t s = s1" "only {t} s s1" "ev_is_done e"
      "tk_out_queue (sd_tasks s1 t) = [e]"
    | (accepted) s1 where "submit L t s = s1\<lparr>sd_active := sd_active s @ [t]\<rparr>" "only {t} s s1"
      "fresh_task (sd_tasks s1 t)" "unused t s1" "sd_terminal_error s = []"
proof -
  define s2 where "s2 = put_task t (\<lambda>k. k\<lparr>tk_started_at := fst (steady_now L (sd_machine s))\<rparr>)
    (on_machine (\<lambda>m. snd (steady_now L m)) s)"
  have o: "only {t} s s2" by (simp add: s2_def)
  have f: "fresh_task (sd_tasks s2 t)"
    using assms by (simp add: s2_def fresh_task_def task_parts)
  have u: "unused t s2" using assms(2) by (simp add: s2_def unused_def)
  then have q: "tk_out_queue (sd_tasks s2 t) = []" by (simp add: unused_def)
  have sub: "submit L t s = (if sd_terminal_error s2 \<noteq> []
      then push_event L t (error_event (sd_terminal_error s2)) (free_sampler L t s2)
      else if sd_stop s2 then push_event L t (error_event ''scheduler stopped'') (free_sampler L t s2)
      else s2\<lparr>sd_active := sd_active s2 @ [t]\<rparr>)"
    by (simp add: submit_def s2_def)
  have r: "only {t} s (push_event L t ev (free_sampler L t s2))" for ev
    by (rule only_step [OF _ only_push], rule only_step [OF o only_free])
  show thesis
  proof (cases "sd_terminal_error s2 \<noteq> [] \<or> sd_stop s2")
    case True
    then obtain e where e: "submit L t s = push_event L t e (free_sampler L t s2)" "ev_is_done e"
      using sub by (metis done_events(2))
    show thesis using refused [of "submit L t s" e] e r q by simp
  next
    case False
    have "sd_active s2 = sd_active s" "sd_terminal_error s2 = sd_terminal_error s"
      by (simp_all add: s2_def)
    then show thesis using accepted [of s2] False o f u sub by simp
  qed
qed

lemma view_active [simp]: "view (s\<lparr>sd_active := ts\<rparr>) = view s"
  by (simp add: view_def fun_eq_iff)

lemma chan_submit:
  assumes "chan_inv N F A s" "robust A" "t \<in> F" "fresh_task (sd_tasks s t)"
  shows "chan_inv N (F - {t}) A (submit L t s)"
proof -
  have A: "of_view A" using assms(2) by (simp add: robust_def)
  have n: "t \<notin> set (sd_active s)" "unused t s" using assms(1,3) by (auto simp: chan_inv_def)
  show ?thesis
    using assms(4) n(2)
  proof (cases rule: submit_cases [where L = L])
    case (refused s1 e)
    have v: "view s1 u = view s u" if "u \<noteq> t" for u using only_view [OF refused(2)] that by simp
    have "settled N u (sd_tasks s1 u)" if "u \<notin> set (sd_active s)" for u
    proof (cases "u = t")
      case True
      then show ?thesis using refused(3,4) by (simp add: settled_def closed_queue_def)
    next
      case False
      then show ?thesis using assms(1) that v [OF False] by (simp add: chan_inv_def view_def)
    qed
    moreover have "A u s1" if "u \<in> set (sd_active s)" for u
    proof -
      have "u \<noteq> t" using that n by auto
      then show ?thesis using of_viewD [OF A v] assms(1) that by (simp add: chan_inv_def)
    qed
    moreover have "unused u s1" if "u \<in> F - {t}" for u
      using of_viewD [OF views(4) v] assms(1) that by (simp add: chan_inv_def)
    ultimately show ?thesis
      using assms(1) only_shares [OF refused(2)] refused(1)
      by (auto simp: chan_inv_def shares_def)
  next
    case (accepted s1)
    let ?s' = "s1\<lparr>sd_active := sd_active s @ [t]\<rparr>"
    have v: "view ?s' u = view s u" if "u \<noteq> t" for u
      using only_view [OF accepted(2)] that by simp
    have unused: "unused u ?s'" if "u \<in> F - {t}" for u
      using of_viewD [OF views(4) v] assms(1) that by (simp add: chan_inv_def)
    have "A u ?s'" if "u \<in> set (sd_active s) \<union> {t}" for u
    proof (cases "u = t")
      case True
      have "unused t ?s'" using accepted(4) by (simp add: unused_def)
      then show ?thesis using accepted(3) assms(2) True by (simp add: robust_def)
    next
      case False
      then show ?thesis using of_viewD [OF A v] assms(1) that by (simp add: chan_inv_def)
    qed
    moreover have "settled N u (sd_tasks ?s' u)" if "u \<notin> set (sd_active s) \<union> {t}" for u
      using assms(1) that v [of u] by (simp add: chan_inv_def view_def)
    ultimately show ?thesis
      using assms(1,3) only_shares [OF accepted(2)] accepted(1,5) unused n
      by (auto simp: chan_inv_def shares_def)
  qed
qed

definition fresh_events :: "handle set \<Rightarrow> outside_event list \<Rightarrow> bool" where
  "fresh_events F evs \<longleftrightarrow> distinct (map fst (submissions evs)) \<and>
     fst ` set (submissions evs) \<subseteq> F \<and> list_all (\<lambda>(t, k). fresh_task k) (submissions evs)"

lemma chan_outside:
  assumes "chan_inv N F A s" "robust A" "fresh_events F evs"
  shows "chan_inv N (F - fst ` set (submissions evs)) A (outside_all L evs s)"
  using assms
proof (induction evs arbitrary: F s)
  case Nil
  then show ?case by (simp add: outside_all_def)
next
  case (Cons ev evs)
  have step: "chan_inv N (F - fst ` set (submissions [ev])) A (outside L ev s)"
  proof (cases ev)
    case (SubmitTask t k)
    have t: "t \<in> F" "fresh_task k"
      using Cons.prems(3) SubmitTask by (simp_all add: fresh_events_def)
    have k: "tk_out_queue k = []"
      using t(2) by (simp add: fresh_task_def task_parts SlotTask_def)
    have "chan_inv N F A (put_task t (\<lambda>_. k) s)"
    proof -
      have na: "t \<notin> set (sd_active s)" "unused t s" using Cons.prems(1) t by (auto simp: chan_inv_def)
      have v: "view (put_task t (\<lambda>_. k) s) u = view s u" if "u \<noteq> t" for u using that by simp
      have "A u (put_task t (\<lambda>_. k) s)" if "u \<in> set (sd_active s)" for u
      proof -
        have "u \<noteq> t" using that na by auto
        moreover have "of_view A" "A u s"
          using Cons.prems(1,2) that by (simp_all add: robust_def chan_inv_def)
        ultimately show ?thesis using of_viewD [of A] v by blast
      qed
      moreover have "t \<in> N"
        using Cons.prems(1) na by (auto simp: chan_inv_def unused_def settled_def closed_queue_def)
      ultimately show ?thesis
        using Cons.prems(1) na k by (auto simp: chan_inv_def unused_def settled_def)
    qed
    then show ?thesis
      using chan_submit [of N F A "put_task t (\<lambda>_. k) s" t L] Cons.prems(2) t SubmitTask by simp
  next
    case StopScheduler
    have "view (s\<lparr>sd_stop := True\<rparr>) = view s" by (simp add: view_def fun_eq_iff)
    then have "A u s \<Longrightarrow> A u (s\<lparr>sd_stop := True\<rparr>)" for u
      using Cons.prems(2) by (auto simp: robust_def of_view_def)
    then show ?thesis
      using Cons.prems(1) StopScheduler by (simp add: chan_inv_def unused_def)
  qed (use chan_flag [OF Cons.prems(1,2)] flag_updates in simp_all)
  have "fresh_events (F - fst ` set (submissions [ev])) evs"
    using Cons.prems(3) by (cases ev) (auto simp: fresh_events_def)
  from Cons.IH [OF step Cons.prems(2) this]
  have "chan_inv N (F - fst ` set (submissions [ev]) - fst ` set (submissions evs)) A
      (outside_all L evs (outside L ev s))" .
  moreover have "F - fst ` set (submissions [ev]) - fst ` set (submissions evs) =
      F - fst ` set (submissions (ev # evs))"
    by (cases ev) auto
  ultimately show ?case by (simp add: outside_all_def)
qed

section \<open>The phases before the batch\<close>

lemma chan_ready_from_idle:
  assumes "chan_inv N F is_idle s"
  shows "chan_inv N F is_prepared (fold (begin_task L cfg) (sd_active s) s)"
proof (rule chan_fold [OF assms])
  show "distinct (sd_active s)" using assms by (simp add: chan_inv_def)
  show "is_prepared t (begin_task L cfg t s)" if "is_idle t s" for t s
    using that
    by (simp add: is_prepared_def is_idle_def begin_task_def Let_def clear_speculation_def
          task_inv_def gen_inv_def)
qed (simp_all add: only_begin)

text \<open>Admission changes the share of the pool only, and drops what it rejects.\<close>

lemma reclaim_only: "only {} s (snd (reclaim_loop L cfg protect tm dm r q seqs idle s))"
proof (induction seqs arbitrary: idle s)
  case (Cons seq seqs)
  have e: "only {} s (evict_sequence L c m seq s') = only {} s s'" for c m s'
    by (simp add: evict_sequence_def)
  have "only {} s (snd (reclaim_loop L cfg protect tm dm r q seqs i
      (evict_sequence L Draft dm seq (evict_sequence L Target tm seq s))))" for i
    by (rule only_step [OF _ Cons.IH]) (simp add: e)
  then show ?case using Cons.IH by (simp add: Let_def)
qed simp

lemma reclaim_pool_only:
  "only {} s (snd (reclaim_bounded_pool_capacity L cfg tasks c r q s))"
  using reclaim_only [of s L cfg] 
  by (simp add: reclaim_bounded_pool_capacity_def Let_def case_prod_beta)

definition but_pool :: "slot_task \<Rightarrow> slot_task" where
  "but_pool k = k\<lparr>tk_admitted := False, tk_reserved_positions := 0\<rparr>"

lemma but_pool_update [simp]:
  "but_pool (k\<lparr>tk_admitted := b, tk_reserved_positions := n\<rparr>) = but_pool k"
  by (simp add: but_pool_def)

lemma but_pool_fields:
  assumes "but_pool k' = but_pool k"
  shows "task_input k' = task_input k" "task_output k' = task_output k"
    "task_flags k' = task_flags k" "task_draft k' = task_draft k" "task_place k' = task_place k"
    "tk_initialized k' = tk_initialized k"
proof -
  have "f (but_pool k') = f (but_pool k)" for f :: "slot_task \<Rightarrow> 'a" using assms by simp
  then show "task_input k' = task_input k" "task_output k' = task_output k"
    "task_flags k' = task_flags k" "task_draft k' = task_draft k" "task_place k' = task_place k"
    "tk_initialized k' = tk_initialized k"
    using arg_cong [OF assms, of task_input] arg_cong [OF assms, of task_output]
      arg_cong [OF assms, of task_flags] arg_cong [OF assms, of task_draft]
      arg_cong [OF assms, of task_place] arg_cong [OF assms, of tk_initialized]
    by (simp_all add: but_pool_def task_parts)
qed

text \<open>
  Of a run of the admission loop over \<open>cs\<close>: the candidates it admits and the ones it rejects are
  different ones, none of them was admitted before, and nothing but the pool's share changes.
\<close>

definition admit_result ::
  "'m scheduler \<Rightarrow> handle list \<Rightarrow> handle list \<Rightarrow> (handle \<times> string) list \<Rightarrow> 'm scheduler \<Rightarrow> bool"
where
  "admit_result s cs new out s' \<longleftrightarrow> distinct new \<and> distinct (map fst out) \<and>
     set new \<inter> fst ` set out = {} \<and>
     (\<forall>c\<in>set new \<union> fst ` set out. c \<in> set cs \<and> \<not> tk_admitted (sd_tasks s c) \<and>
        is_live (sd_tasks s c)) \<and>
     only (set new) s s' \<and> (\<forall>t. but_pool (sd_tasks s' t) = but_pool (sd_tasks s t)) \<and>
     (\<forall>t\<in>set new. tk_admitted (sd_tasks s' t))"

lemma admit_result_skip: "admit_result s cs new out s' \<Longrightarrow> admit_result s (c # cs) new out s'"
  by (auto simp: admit_result_def)

lemma admit_result_from:
  assumes "admit_result s1 cs new out s'" "only {} s s1"
  shows "admit_result s cs new out s'"
proof -
  have "sd_tasks s1 t = sd_tasks s t" for t using only_tasks [OF assms(2)] by simp
  moreover have "only (set new) s s'"
    using only_step [OF only_mono [OF assms(2)]] assms(1) by (auto simp: admit_result_def)
  ultimately show ?thesis using assms(1) by (simp add: admit_result_def)
qed

lemma admit_result_reject:
  assumes "admit_result s cs new out s'" "c \<notin> set cs" "\<not> tk_admitted (sd_tasks s c)"
    "is_live (sd_tasks s c)"
  shows "admit_result s (c # cs) new ((c, msg) # out) s'"
  using assms by (auto simp: admit_result_def image_iff)

lemma admit_result_admit:
  assumes "admit_result (put_task c f s) cs new out s'" "c \<notin> set cs"
    "\<not> tk_admitted (sd_tasks s c)" "is_live (sd_tasks s c)"
    and f: "f = (\<lambda>k. k\<lparr>tk_admitted := True, tk_reserved_positions := n\<rparr>)"
  shows "admit_result s (c # cs) (c # new) out s'"
proof -
  have c: "c \<notin> set new \<union> fst ` set out" using assms(1,2) by (auto simp: admit_result_def)
  have "only (insert c (set new)) s s'"
    using only_trans [OF only_put [of c s f]] assms(1) by (fastforce simp: admit_result_def)
  moreover have "sd_tasks s' c = f (sd_tasks s c)"
    using only_tasks [of "set new" "put_task c f s" s' c] assms(1) c
    by (simp add: admit_result_def)
  moreover have "but_pool (sd_tasks s' t) = but_pool (sd_tasks s t)" for t
    using assms(1) f by (auto simp: admit_result_def split: if_splits)
  moreover have "d \<in> set cs \<and> \<not> tk_admitted (sd_tasks s d) \<and> is_live (sd_tasks s d)"
    if "d \<in> set new \<union> fst ` set out" for d
  proof -
    have "d \<noteq> c" using that c by auto
    moreover have "d \<in> set cs \<and> \<not> tk_admitted (sd_tasks (put_task c f s) d) \<and>
        is_live (sd_tasks (put_task c f s) d)"
      using assms(1) that unfolding admit_result_def by blast
    ultimately show ?thesis by simp
  qed
  ultimately show ?thesis
    using assms c by (auto simp: admit_result_def)
qed

lemma admit_loop_result:
  assumes "admit_loop L cfg tasks cs r run rej s = (run', rej', s')" "distinct cs"
  shows "\<exists>new out. run' = run @ new \<and> rej' = rej @ out \<and> admit_result s cs new out s'"
  using assms
proof (induction cs arbitrary: r run rej s)
  case Nil
  then show ?case by (auto simp: admit_result_def)
next
  case (Cons c cs)
  let ?k = "sd_tasks s c"
  let ?q = "bounded_pool_reservation (prompt_positions ?k) (tk_max_tokens ?k) (sc_draft_margin cfg)"
  have d: "c \<notin> set cs" "distinct cs" using Cons.prems(2) by simp_all
  obtain ok s1 where rc: "reclaim_bounded_pool_capacity L cfg tasks c r ?q s = (ok, s1)"
    by fastforce
  have o: "only {} s s1" using reclaim_pool_only [of s L cfg tasks c r ?q] rc by simp
  have t: "sd_tasks s1 u = sd_tasks s u" for u using only_tasks [OF o] by simp
  let ?f = "\<lambda>k. k\<lparr>tk_admitted := True, tk_reserved_positions := ?q\<rparr>"
  consider (skip) "tk_admitted ?k \<or> \<not> is_live ?k"
    | (big) "\<not> tk_admitted ?k" "is_live ?k" "?q > pool_capacity cfg"
    | (wait) "\<not> tk_admitted ?k" "is_live ?k" "\<not> ?q > pool_capacity cfg"
        "\<not> bounded_pool_can_admit r ?q (pool_capacity cfg)"
    | (full) "\<not> tk_admitted ?k" "is_live ?k" "\<not> ?q > pool_capacity cfg"
        "bounded_pool_can_admit r ?q (pool_capacity cfg)" "\<not> ok"
    | (admit) "\<not> tk_admitted ?k" "is_live ?k" "\<not> ?q > pool_capacity cfg"
        "bounded_pool_can_admit r ?q (pool_capacity cfg)" "ok"
    by blast
  then show ?case
  proof cases
    case skip
    then have "admit_loop L cfg tasks cs r run rej s = (run', rej', s')"
      using Cons.prems(1) by (auto simp: Let_def)
    from Cons.IH [OF this d(2)] show ?thesis using admit_result_skip by blast
  next
    case big
    then have "admit_loop L cfg tasks cs r run
        (rej @ [(c, ''request exceeds shared context pool'')]) s = (run', rej', s')"
      using Cons.prems(1) by (simp add: Let_def)
    from Cons.IH [OF this d(2)] obtain new out where
      "run' = run @ new" "rej' = (rej @ [(c, ''request exceeds shared context pool'')]) @ out"
      "admit_result s cs new out s'" by blast
    then show ?thesis using admit_result_reject [OF _ d(1) big(1,2)] by fastforce
  next
    case wait
    then have "run' = run" "rej' = rej" "s' = s" using Cons.prems(1) by (simp_all add: Let_def)
    then show ?thesis by (auto simp: admit_result_def)
  next
    case full
    let ?m = "''unable to reclaim shared context pool capacity''"
    from full have "admit_loop L cfg tasks cs r run (rej @ [(c, ?m)]) s1 = (run', rej', s')"
      using Cons.prems(1) rc by (simp add: Let_def)
    from Cons.IH [OF this d(2)] obtain new out where
      "run' = run @ new" "rej' = (rej @ [(c, ?m)]) @ out" "admit_result s1 cs new out s'"
      by blast
    then show ?thesis
      using admit_result_reject [OF admit_result_from [OF _ o] d(1) full(1,2)] by fastforce
  next
    case admit
    then have "admit_loop L cfg tasks cs (r + ?q) (run @ [c]) rej (put_task c ?f s1) =
        (run', rej', s')"
      using Cons.prems(1) rc by (simp add: Let_def)
    from Cons.IH [OF this d(2)] obtain new out where
      e: "run' = (run @ [c]) @ new" "rej' = rej @ out"
      "admit_result (put_task c ?f s1) cs new out s'" by blast
    have "admit_result s1 (c # cs) (c # new) out s'"
      by (rule admit_result_admit [OF e(3) d(1)]) (use admit t in simp_all)
    then show ?thesis using e(1,2) admit_result_from [OF _ o] by fastforce
  qed
qed

lemma task_inv_but_pool:
  assumes "but_pool k' = but_pool k"
  shows "task_inv k \<Longrightarrow> task_inv k'" "tk_spec_i_batch k' = tk_spec_i_batch k"
  using but_pool_fields [OF assms] task_inv_frame [of k' k]
  by (auto simp: task_place_def task_draft_def task_inv_def gen_inv_def)

lemma mark_task [simp]:
  "task_frame (sd_tasks (mark_waiting t s) u) = task_frame (sd_tasks s u)"
  "task_place (sd_tasks (mark_waiting t s) u) = task_place (sd_tasks s u)"
  by (simp_all add: mark_waiting_def set_phase_def task_place_def)

lemma ready_frame:
  assumes "task_frame (sd_tasks s' t) = task_frame (sd_tasks s t)"
  shows "is_prepared t s \<Longrightarrow> is_prepared t s'"
  using task_frame_fields [OF assms] task_inv_frame
  by (simp add: is_prepared_def task_draft_def)

lemma chan_pool:
  assumes "chan_inv N F is_prepared s" "admit_result s (sd_active s) new out s1"
  shows "chan_inv N F is_prepared s1"
proof (rule chan_only [OF assms(1)])
  show "only (set new) s s1" "set new \<subseteq> set (sd_active s)"
    using assms(2) by (auto simp: admit_result_def)
  show "is_prepared t s1" if "t \<in> set (sd_active s)" for t
    using assms that task_inv_but_pool [of "sd_tasks s1 t" "sd_tasks s t"]
    by (simp add: admit_result_def chan_inv_def is_prepared_def)
qed

lemma chan_mark:
  assumes "chan_inv N F is_prepared s" "ts = sd_active s"
  shows "chan_inv N F is_prepared (fold mark_waiting ts s)"
proof (rule chan_fold [OF assms(1)])
  show "distinct ts" "set ts \<subseteq> set (sd_active s)" using assms by (simp_all add: chan_inv_def)
  show "is_prepared t (mark_waiting t s)" if "is_prepared t s" for t s
    by (rule ready_frame [OF mark_task(1) that])
qed (simp_all add: only_mark)

lemma fold_mark_shares: "only (set ts) s (fold mark_waiting ts s)"
  using only_fold [of ts "\<lambda>t. t" mark_waiting s] by (simp add: only_mark)

lemma chan_admission:
  assumes "chan_inv N F is_prepared s" "admission L cfg (sd_active s) s = (tasks, runnable, s')"
  shows "chan_inv N F is_prepared s'" "tasks = sd_active s'" "distinct runnable"
    "set runnable \<subseteq> set tasks"
proof -
  have d: "distinct (sd_active s)" using assms(1) by (simp add: chan_inv_def)
  have "chan_inv N F is_prepared s' \<and> tasks = sd_active s' \<and> distinct runnable \<and>
      set runnable \<subseteq> set tasks"
  proof (cases "sc_bounded_pool cfg")
    case False
    then show ?thesis using assms d by (auto simp: admission_def)
  next
    case True
    obtain run rej s1 where a: "admit_bounded_pool_tasks L cfg (sd_active s) s = (run, rej, s1)"
      by (metis prod_cases3)
    let ?old = "filter (\<lambda>t. is_live (sd_tasks s t))
                  (filter (\<lambda>t. tk_admitted (sd_tasks s t)) (sd_active s))"
    obtain new where n: "run = ?old @ new" "admit_result s (sd_active s) new rej s1"
      using admit_loop_result a d unfolding admit_bounded_pool_tasks_def Let_def by fastforce
    have act1: "sd_active s1 = sd_active s"
      using n(2) only_shares by (auto simp: admit_result_def shares_def)
    let ?s2 = "fold mark_waiting (sd_active s) s1"
    have c2: "chan_inv N F is_prepared ?s2"
      by (rule chan_mark [OF chan_pool [OF assms(1) n(2)]]) (simp add: act1)
    have act2: "sd_active ?s2 = sd_active s"
      using only_shares [OF fold_mark_shares [of "sd_active s" s1]] act1 by (simp add: shares_def)
    let ?s3 = "drop_active (map fst rej) ?s2"
    have s': "s' = fold (reject_task L) rej ?s3" "runnable = run"
      "tasks = filter (\<lambda>t. t \<notin> set (map fst rej)) (sd_active s)"
      using assms(2) True a by (simp_all add: admission_def Let_def)
    have rej: "fst ` set rej \<subseteq> set (sd_active s)" "distinct (map fst rej)"
      using n(2) by (auto simp: admit_result_def)
    have c3: "chan_inv N F is_prepared s'"
      unfolding s'(1)
    proof (rule chan_close [OF c2, where h = fst])
      show "open_queue (sd_tasks ?s2 (fst x))" if "x \<in> set rej" for x
        using c2 that rej(1) act2 by (auto simp: chan_inv_def is_prepared_def intro!: task_open)
      show "sd_active ?s3 = filter (\<lambda>t. t \<notin> fst ` set rej) (sd_active ?s2)"
        by (simp add: drop_active_def)
      show "sd_terminal_error ?s3 \<noteq> [] \<longrightarrow> sd_active ?s3 = []"
        using c2 by (simp add: drop_active_def chan_inv_def)
    qed (use rej act2 in \<open>simp_all add: closers drop_active_def\<close>)
    have "only (fst ` set rej) ?s3 s'" unfolding s'(1) by (rule only_fold) (rule only_reject)
    then have "sd_active s' = sd_active ?s3" using only_shares by (auto simp: shares_def)
    then have t: "tasks = sd_active s'" using s'(3) act2 by (simp add: drop_active_def)
    have "\<forall>u\<in>set new. u \<in> set (sd_active s) \<and> \<not> tk_admitted (sd_tasks s u) \<and> u \<notin> fst ` set rej"
      and dn: "distinct new"
      using n(2) unfolding admit_result_def by blast+
    moreover have "\<forall>u\<in>fst ` set rej. \<not> tk_admitted (sd_tasks s u)"
      using n(2) unfolding admit_result_def by blast
    ultimately have "distinct run" "set run \<subseteq> set tasks"
      using d n(1) s'(3) by auto
    then show ?thesis using c3 t s'(2) by simp
  qed
  then show "chan_inv N F is_prepared s'" "tasks = sd_active s'" "distinct runnable"
    "set runnable \<subseteq> set tasks" by auto
qed

subsection \<open>Where a task starts\<close>

lemma common_tokens_le: "common_tokens xs ys \<le> length xs" "common_tokens xs ys \<le> length ys"
  by (induction xs ys rule: common_tokens.induct) auto

lemma cached_prefix_bounds:
  "0 \<le> cached_prefix k" "cached_prefix k \<le> int (common_tokens (tk_last_prompt_tokens k) (tk_prompt_tokens k))"
  "tk_prompt_tokens k \<noteq> [] \<Longrightarrow> cached_prefix k < int (length (tk_prompt_tokens k))"
  using common_tokens_le(2) [of "tk_last_prompt_tokens k" "tk_prompt_tokens k"]
  by (auto simp: cached_prefix_def Let_def)

definition starts_within :: "int \<Rightarrow> slot_task \<Rightarrow> bool" where
  "starts_within n k \<longleftrightarrow> 0 \<le> tk_prompt_pos k \<and> tk_prompt_pos k \<le> n \<and>
     tk_n_pos k = tk_prompt_pos k \<and> tk_out_cached_prompt_tokens k = tk_prompt_pos k"

lemma starts_at [simp]: "starts_within n (start_at m k) \<longleftrightarrow> 0 \<le> m \<and> m \<le> n"
  by (auto simp: starts_within_def start_at_def)

lemma usable_bounds:
  "checkpoint_usable cfg dm n k \<Longrightarrow> 0 < tk_checkpoint_pos k \<and> tk_checkpoint_pos k \<le> n"
  by (simp add: checkpoint_usable_def recurrent_checkpoint_usable_def Let_def)

lemma starts_trim:
  assumes "0 \<le> n" "n \<le> m"
    and "usable \<Longrightarrow> 0 < tk_checkpoint_pos (sd_tasks s t) \<and> tk_checkpoint_pos (sd_tasks s t) \<le> m"
  shows "starts_within m (sd_tasks (trim_to L cfg t dm usable n s) t)"
proof -
  have r: "sd_tasks s3 = sd_tasks s2" if "restore_checkpoint L dm t s2 = (b, s3)" for b s2 s3
    using that tasks_restore_checkpoint [of L dm t s2] by simp
  show ?thesis
    using assms by (auto simp: trim_to_def Let_def tasks_restart r split: prod.splits)
qed

lemma starts_reuse:
  assumes "0 \<le> n_past"
  shows "starts_within n_past (sd_tasks (reuse_prefix L cfg t mem dm n_past ph s) t)"
proof -
  have "tk_checkpoint_pos (keep_checkpoint b k) = tk_checkpoint_pos k" for b k
    by (simp add: keep_checkpoint_def)
  then show ?thesis
    unfolding reuse_prefix_def Let_def
    by (auto simp: tasks_restart assms intro!: starts_trim dest: usable_bounds)
qed

lemma starts_init:
  "starts_within (cached_prefix (sd_tasks s t)) (sd_tasks (init_task L cfg t s) t)"
proof -
  have 1: "starts_within n (k\<lparr>tk_out_mtp_cache_synced := b\<rparr>) = starts_within n k" for n k b
    by (simp add: starts_within_def)
  show ?thesis
    unfolding init_task_def Let_def
    using cached_prefix_bounds(1) [of "sd_tasks s t"]
    by (simp add: starts_reuse tasks_restart 1)
qed

lemma prepare_frame [simp]:
  "task_frame (sd_tasks (prepare_task L cfg w n t s) u) = task_frame (sd_tasks s u)"
  by (simp add: prepare_task_def Let_def set_phase_def)

lemma chan_prepare:
  assumes "chan_inv N F is_prepared s" "distinct ts" "set ts \<subseteq> set (sd_active s)"
  shows "chan_inv N F is_prepared (fold (prepare_task L cfg w n) ts s)"
proof (rule chan_fold [OF assms])
  show "is_prepared t (prepare_task L cfg w n t s)" if "is_prepared t s" for t s
    by (rule ready_frame [OF prepare_frame that])
qed (simp_all add: only_prepare)

subsection \<open>Drafting\<close>

lemma draft_frame:
  "task_output (sd_tasks (snd (capture_draft L cfg t s)) u) = task_output (sd_tasks s u)"
  "task_input (sd_tasks (snd (capture_draft L cfg t s)) u) = task_input (sd_tasks s u)"
  "tk_spec_i_batch (sd_tasks (snd (capture_draft L cfg t s)) u) = tk_spec_i_batch (sd_tasks s u)"
  by (simp_all add: capture_draft_def Let_def task_parts split: prod.splits)

lemma restore_draft_frame:
  "task_output (sd_tasks (snd (restore_draft L cfg t s)) u) = task_output (sd_tasks s u)"
  "task_input (sd_tasks (snd (restore_draft L cfg t s)) u) = task_input (sd_tasks s u)"
  "tk_spec_i_batch (sd_tasks (snd (restore_draft L cfg t s)) u) = tk_spec_i_batch (sd_tasks s u)"
proof -
  define r where "r = and_also
     (if sc_draft_seq_rm_full cfg \<and> tk_spec_draft_checkpoint (sd_tasks s t) \<noteq> []
      then restore_state L Draft (Some (tk_spec_draft_checkpoint (sd_tasks s t)))
             (tk_slot_id (sd_tasks s t)) s
      else (True, s))
     (\<lambda>s'. if has_memory L (sd_machine s') Draft
           then ask (seq_rm L Draft (tk_slot_id (sd_tasks s t))
                  (tk_spec_draft_pos_max (sd_tasks s t) + 1)) s' else (True, s'))"
  have t: "sd_tasks (snd r) = sd_tasks s" unfolding r_def by (rule tasks_and_also) simp_all
  have e: "snd (restore_draft L cfg t s) = (if fst r then put_task t (\<lambda>k. k\<lparr>tk_n_drafted :=
      tk_n_drafted k + int (length (tk_spec_draft k))\<rparr>) (snd r) else snd r)"
    unfolding restore_draft_def Let_def r_def [symmetric] by (cases r) simp
  show "task_output (sd_tasks (snd (restore_draft L cfg t s)) u) = task_output (sd_tasks s u)"
    "task_input (sd_tasks (snd (restore_draft L cfg t s)) u) = task_input (sd_tasks s u)"
      "tk_spec_i_batch (sd_tasks (snd (restore_draft L cfg t s)) u) = tk_spec_i_batch (sd_tasks s u)"
    unfolding e by (simp_all add: t task_parts)
qed

lemma ready_output:
  assumes "task_output (sd_tasks s' t) = task_output (sd_tasks s t)"
    "task_input (sd_tasks s' t) = task_input (sd_tasks s t)"
    "tk_spec_i_batch (sd_tasks s' t) = tk_spec_i_batch (sd_tasks s t)"
  shows "is_prepared t s \<Longrightarrow> is_prepared t s'"
  using assms task_inv_frame [OF assms(2,1)] by (simp add: is_prepared_def)

lemma chan_draft:
  assumes "chan_inv N F is_prepared s" "distinct runnable" "set runnable \<subseteq> set (sd_active s)"
  shows "chan_inv N F is_prepared (snd (draft_tasks L cfg runnable s))"
    "only (set runnable) s (snd (draft_tasks L cfg runnable s))"
proof -
  define ts where "ts = filter (\<lambda>t. tk_mtp_eligible (sd_tasks s t) \<and> tk_prompt_done (sd_tasks s t) \<and>
     sc_has_draft cfg) runnable"
  have ts: "distinct ts" "set ts \<subseteq> set (sd_active s)" "set ts \<subseteq> set runnable"
    using assms(2,3) by (auto simp: ts_def)
  obtain h s1 where c: "for_each_task (capture_draft L cfg) ts s = (h, s1)" by fastforce
  have e: "snd (draft_tasks L cfg runnable s) =
      (if h = None then snd (for_each_task (restore_draft L cfg) ts (run_draft L ts s1)) else s1)"
    unfolding draft_tasks_def Let_def ts_def [symmetric] by (simp add: snd_try_next c)
  have "chan_inv N F is_prepared (snd (for_each_task (capture_draft L cfg) ts s))"
    by (rule chan_for_each [OF assms(1) ts(1,2)])
       (auto intro: only_capture_draft ready_output [OF draft_frame])
  then have 1: "chan_inv N F is_prepared s1" using c by simp
  have o1: "only (set ts) s s1"
    using only_for_each [of ts "capture_draft L cfg" s] only_capture_draft c by fastforce
  have a1: "sd_active s1 = sd_active s" using only_shares [OF o1] by (simp add: shares_def)
  obtain f where f: "run_draft L ts s1 = fold (\<lambda>t. put_task t (\<lambda>k. k\<lparr>tk_spec_draft := f t\<rparr>)) ts
      (on_machine (\<lambda>m. snd (speculative_draft L m)) s1)"
    by (simp add: run_draft_def)
  have m: "chan_inv N F is_prepared (on_machine g s1)" for g
    by (rule chan_only [OF 1, of "{}"]) (use 1 in \<open>simp_all add: chan_inv_def is_prepared_def\<close>)
  have 2: "chan_inv N F is_prepared (run_draft L ts s1)"
    unfolding f
    by (rule chan_fold [OF m])
       (use ts a1 in \<open>auto simp: is_prepared_def task_inv_def gen_inv_def intro: only_put\<close>)
  have o2: "only (set ts) s (run_draft L ts s1)"
    by (rule only_step [OF o1 only_run_draft])
  have a2: "sd_active (run_draft L ts s1) = sd_active s"
    using only_shares [OF o2] by (simp add: shares_def)
  have 3: "chan_inv N F is_prepared (snd (for_each_task (restore_draft L cfg) ts (run_draft L ts s1)))"
    by (rule chan_for_each [OF 2 ts(1)])
       (use ts a2 in \<open>auto intro: only_restore_draft ready_output [OF restore_draft_frame]\<close>)
  have "only (set ts) s (snd (for_each_task (restore_draft L cfg) ts (run_draft L ts s1)))"
    by (rule only_step [OF o2 only_for_each]) (rule only_restore_draft)
  then show "only (set runnable) s (snd (draft_tasks L cfg runnable s))"
    using e o1 ts(3) only_mono by auto
  show "chan_inv N F is_prepared (snd (draft_tasks L cfg runnable s))" using e 1 3 by simp
qed

end
