(* ===== verification/Batch_Rounds.thy ===== *)
theory Batch_Rounds
  imports Batch_Channel "HOL-Library.Multiset"
begin

text \<open>
  The invariant of the token channel through a whole round and through the loop of the scheduler's
  thread: building the batch, the cancelled and stopped tasks, sampling, the verification of drafts
  and the completed tasks.
\<close>

section \<open>The batch\<close>

definition is_unlisted :: "handle \<Rightarrow> 'm scheduler \<Rightarrow> bool" where
  "is_unlisted t s \<longleftrightarrow> is_prepared t s \<and> t \<notin> set (sd_completed s)"

definition built_inv :: "slot_task \<Rightarrow> bool" where
  "built_inv k \<longleftrightarrow> gen_inv k \<and> - 1 \<le> tk_i_batch k \<and>
     (0 \<le> tk_i_batch k \<longrightarrow> tk_prompt_done k \<or>
        int (length (tk_prompt_tokens k)) \<le> tk_prompt_pos k) \<and>
     (tk_spec_i_batch k \<noteq> [] \<longrightarrow> tk_prompt_done k \<and> tk_i_batch k < 0)"

text \<open>Only the tasks of the round, the set \<open>B\<close>, can be in the batch.\<close>

definition is_built :: "handle set \<Rightarrow> handle \<Rightarrow> 'm scheduler \<Rightarrow> bool" where
  "is_built B t s \<longleftrightarrow> built_inv (sd_tasks s t) \<and> t \<notin> set (sd_completed s) \<and>
     (t \<notin> B \<longrightarrow> tk_i_batch (sd_tasks s t) = - 1)"

lemma built_views [simp]: "of_view is_unlisted" "of_view (is_built B)"
  by (simp_all add: of_view_def view_def is_unlisted_def is_prepared_def is_built_def)

lemma ready_built: "task_inv k \<Longrightarrow> tk_spec_i_batch k = [] \<Longrightarrow> built_inv k"
  by (simp add: built_inv_def task_inv_def)

lemma unlisted_built: "is_unlisted t s \<Longrightarrow> is_built B t s"
  by (auto simp: is_unlisted_def is_prepared_def is_built_def ready_built task_inv_def)

lemma built_open: "built_inv k \<Longrightarrow> open_queue k"
  by (simp add: built_inv_def gen_open)

lemma built_frame:
  assumes "task_input k' = task_input k" "task_output k' = task_output k"
    "task_draft k' = task_draft k" "tk_prompt_pos k' = tk_prompt_pos k"
  shows "built_inv k \<Longrightarrow> built_inv k'"
  using assms gen_inv_frame [OF assms(1,2)] by (simp add: built_inv_def task_parts)

lemma robust_built: "robust is_unlisted" "robust (is_built B)"
proof -
  have f: "built_inv (f k) = built_inv k" "tk_i_batch (f k) = tk_i_batch k"
    if "flag_update f" for f and k :: slot_task
    using that by (simp_all add: flag_update_def task_parts built_inv_def gen_inv_def)
  show "robust is_unlisted"
    using robust_basic(3) by (auto simp: robust_def is_unlisted_def unused_def)
  show "robust (is_built B)"
    using ready_built fresh_inv
    by (auto simp: robust_def is_built_def unused_def f task_inv_def)
qed

lemma eval_chunk_frame:
  "task_frame (sd_tasks (snd (eval_chunk L cfg t s)) u) = task_frame (sd_tasks s u)"
  "sd_completed (snd (eval_chunk L cfg t s)) = sd_completed s"
  by (simp_all add: eval_chunk_def Let_def task_frame_def task_parts split: option.splits prod.splits)

lemma eval_media_frame:
  "task_frame (sd_tasks (snd (eval_media L cfg fuel t s)) u) = task_frame (sd_tasks s u)"
  "sd_completed (snd (eval_media L cfg fuel t s)) = sd_completed s"
  by (induction fuel arbitrary: s) (simp_all add: snd_try_next eval_chunk_frame)

lemma prefill_chunk_bounds:
  assumes "0 < prefill_chunk cfg lim n k"
  shows "prefill_chunk cfg lim n k \<le> int (length (tk_prompt_tokens k)) - tk_prompt_pos k"
    "prefill_chunk cfg lim n k \<le> sc_n_batch cfg - n" "prefill_chunk cfg lim n k \<le> lim"
proof -
  define c where "c = min (min (int (length (tk_prompt_tokens k)) - tk_prompt_pos k)
    (sc_n_batch cfg - n)) lim"
  define c1 where "c1 = (case find (\<lambda>c. mc_token_start c > tk_prompt_pos k) (tk_media_chunks k) of
    None \<Rightarrow> c | Some media \<Rightarrow> min c (mc_token_start media - tk_prompt_pos k))"
  define c2 where "c2 = (if sc_has_draft cfg \<and> \<not> sc_ctx_other_is_target cfg \<and>
     tk_mtp_eligible k \<and> tk_checkpoint_capture_pos k - 1 > tk_prompt_pos k
     then min c1 (tk_checkpoint_capture_pos k - 1 - tk_prompt_pos k) else c1)"
  have "c1 \<le> c" "c2 \<le> c1" by (simp_all add: c1_def c2_def split: option.split)
  moreover have "prefill_chunk cfg lim n k \<in> {0, c2, min c2 (tk_checkpoint_capture_pos k - tk_prompt_pos k)}"
    unfolding prefill_chunk_def Let_def c_def [symmetric] c1_def [symmetric] c2_def [symmetric]
    by simp
  ultimately have "prefill_chunk cfg lim n k \<le> c" using assms by auto
  then show "prefill_chunk cfg lim n k \<le> int (length (tk_prompt_tokens k)) - tk_prompt_pos k"
    "prefill_chunk cfg lim n k \<le> sc_n_batch cfg - n" "prefill_chunk cfg lim n k \<le> lim"
    by (simp_all add: c_def)
qed

lemma add_prompt_built:
  assumes "task_inv (sd_tasks s t)" "tk_spec_i_batch (sd_tasks s t) = []"
  shows "built_inv (sd_tasks (add_prompt L cfg lim t s) t)"
  using assms
  by (auto simp: add_prompt_def Let_def built_inv_def task_inv_def gen_inv_def)

lemma add_generation_built:
  assumes "task_inv (sd_tasks s t)" "tk_prompt_done (sd_tasks s t)"
    "tk_spec_i_batch (sd_tasks s t) = []"
  shows "built_inv (sd_tasks (add_generation cfg t s) t)"
  using assms
  by (auto simp: add_generation_def Let_def built_inv_def task_inv_def gen_inv_def)

lemma batch_completed [simp]:
  "sd_completed (add_prompt L cfg lim t s) = sd_completed s"
  "sd_completed (add_generation cfg t s) = sd_completed s"
  by (simp_all add: add_prompt_def add_generation_def Let_def)

lemma batch_task_built:
  assumes "is_unlisted t s" "t \<in> B"
  shows "is_built B t (snd (batch_task L cfg lim t s))"
proof -
  let ?k = "sd_tasks s t"
  have r: "task_inv ?k" "tk_spec_i_batch ?k = []" "t \<notin> set (sd_completed s)"
    using assms by (simp_all add: is_unlisted_def is_prepared_def)
  have "is_prepared t (snd (eval_media L cfg n t s))" for n
    using ready_frame [OF eval_media_frame(1), of t s] assms by (simp add: is_unlisted_def)
  then have 1: "is_built B t (snd (eval_media L cfg n t s))"
    "is_built B t (add_prompt L cfg lim t (snd (eval_media L cfg n t s)))" for n
    using r(3) assms(2)
    by (simp_all add: is_built_def is_prepared_def eval_media_frame ready_built add_prompt_built)
  have 2: "is_built B t (add_generation cfg t s)" if "tk_prompt_done ?k"
    using r that assms(2) add_generation_built by (simp add: is_built_def)
  have 3: "is_built B t (s\<lparr>sd_cancelled := x\<rparr>)" "is_built B t (s\<lparr>sd_stopped := x\<rparr>)" "is_built B t s" for x
    using unlisted_built [OF assms(1)] by (simp_all add: is_built_def)
  show ?thesis
    using 1 2 3 by (simp add: batch_task_def Let_def snd_try_next)
qed

lemma chan_batch:
  assumes "chan_inv N F is_unlisted s" "distinct ts" "set ts \<subseteq> set (sd_active s)" "set ts \<subseteq> B"
  shows "chan_inv N F (is_built B) (snd (for_each_task (batch_task L cfg lim) ts s))"
  by (rule chan_for_each [OF assms(1-3)])
     (use assms(4) in \<open>auto intro: only_batch_task batch_task_built unlisted_built\<close>)

text \<open>The flagged tasks, each listed once.\<close>

lemma batch_lists:
  "\<exists>c st. sd_cancelled (snd (batch_task L cfg lim t s)) = sd_cancelled s @ c \<and>
     sd_stopped (snd (batch_task L cfg lim t s)) = sd_stopped s @ st \<and>
     c @ st \<in> {[], [t]} \<and> sd_completed (snd (batch_task L cfg lim t s)) = sd_completed s"
proof -
  have e: "sd_cancelled (snd (eval_media L cfg n t s)) = sd_cancelled s"
    "sd_stopped (snd (eval_media L cfg n t s)) = sd_stopped s"
    for n s
    by (induction n arbitrary: s)
       (simp_all add: snd_try_next eval_chunk_def Let_def split: option.splits prod.splits)
  have a: "sd_cancelled (add_prompt L cfg lim t s) = sd_cancelled s"
    "sd_stopped (add_prompt L cfg lim t s) = sd_stopped s"
    "sd_cancelled (add_generation cfg t s) = sd_cancelled s"
    "sd_stopped (add_generation cfg t s) = sd_stopped s" for s
    by (simp_all add: add_prompt_def add_generation_def Let_def)
  show ?thesis
    by (simp add: batch_task_def Let_def snd_try_next e a eval_media_frame)
qed

lemma for_each_batch_lists:
  assumes "distinct ts" "distinct (sd_cancelled s @ sd_stopped s)"
    "set (sd_cancelled s @ sd_stopped s) \<inter> set ts = {}"
  shows "distinct (sd_cancelled (snd (for_each_task (batch_task L cfg lim) ts s)) @
            sd_stopped (snd (for_each_task (batch_task L cfg lim) ts s)))"
    and "set (sd_cancelled (snd (for_each_task (batch_task L cfg lim) ts s)) @
            sd_stopped (snd (for_each_task (batch_task L cfg lim) ts s)))
         \<subseteq> set (sd_cancelled s @ sd_stopped s) \<union> set ts"
    and "sd_completed (snd (for_each_task (batch_task L cfg lim) ts s)) = sd_completed s"
proof -
  have "distinct (sd_cancelled (snd (for_each_task (batch_task L cfg lim) ts s)) @
            sd_stopped (snd (for_each_task (batch_task L cfg lim) ts s))) \<and>
      set (sd_cancelled (snd (for_each_task (batch_task L cfg lim) ts s)) @
            sd_stopped (snd (for_each_task (batch_task L cfg lim) ts s)))
         \<subseteq> set (sd_cancelled s @ sd_stopped s) \<union> set ts \<and>
      sd_completed (snd (for_each_task (batch_task L cfg lim) ts s)) = sd_completed s"
    using assms
  proof (induction ts arbitrary: s)
    case (Cons t ts)
    obtain r s1 where b: "batch_task L cfg lim t s = (r, s1)" by fastforce
    obtain c st where l: "sd_cancelled s1 = sd_cancelled s @ c" "sd_stopped s1 = sd_stopped s @ st"
      "c @ st \<in> {[], [t]}" "sd_completed s1 = sd_completed s"
      using batch_lists [of L cfg lim t s] b by auto
    have d: "distinct (sd_cancelled s1 @ sd_stopped s1)"
      "set (sd_cancelled s1 @ sd_stopped s1) \<inter> set ts = {}"
      "set (sd_cancelled s1 @ sd_stopped s1) \<subseteq> set (sd_cancelled s @ sd_stopped s) \<union> {t}"
      using l Cons.prems by (auto simp: append_eq_Cons_conv)
    show ?case
    proof (cases r)
      case None
      then show ?thesis using Cons.IH [of s1] Cons.prems(1) d l(4) b by auto
    next
      case (Some e)
      then show ?thesis using b d l(4) by auto
    qed
  qed auto
  then show "distinct (sd_cancelled (snd (for_each_task (batch_task L cfg lim) ts s)) @
            sd_stopped (snd (for_each_task (batch_task L cfg lim) ts s)))"
    "set (sd_cancelled (snd (for_each_task (batch_task L cfg lim) ts s)) @
            sd_stopped (snd (for_each_task (batch_task L cfg lim) ts s)))
         \<subseteq> set (sd_cancelled s @ sd_stopped s) \<union> set ts"
    "sd_completed (snd (for_each_task (batch_task L cfg lim) ts s)) = sd_completed s"
    by auto
qed

section \<open>Order\<close>

lemma mset_rotate_turn: "mset (rotate n xs) = mset xs"
  by (metis add.commute append_take_drop_id mset_append rotate_drop_take)

lemma mset_order:
  assumes "prepare_batch_order store ts n turn = (lim, order)"
  shows "mset order = mset ts"
proof (cases "ts = []")
  case False
  have "mset (filter P xs) + mset (filter (\<lambda>x. \<not> P x) xs) = mset xs" for P and xs :: "nat list"
    by (simp add: multiset_partition [symmetric])
  then show ?thesis
    using assms False
    by (auto simp: prepare_batch_order_def Let_def by_slot_def mset_rotate_turn split: if_splits)
qed (use assms in \<open>simp add: prepare_batch_order_def\<close>)

section \<open>Phases that leave every channel alone\<close>

definition quiet :: "'m scheduler \<Rightarrow> 'm scheduler \<Rightarrow> bool" where
  "quiet s s' \<longleftrightarrow> shares s s' \<and> sd_cancelled s' = sd_cancelled s \<and> sd_stopped s' = sd_stopped s \<and>
     sd_completed s' = sd_completed s \<and>
     (\<forall>u. task_frame (sd_tasks s' u) = task_frame (sd_tasks s u) \<and>
          task_place (sd_tasks s' u) = task_place (sd_tasks s u))"

lemma quiet_refl [simp]: "quiet s s"
  by (simp add: quiet_def)

lemma quiet_trans: "quiet s s' \<Longrightarrow> quiet s' s'' \<Longrightarrow> quiet s s''"
  by (simp add: quiet_def shares_def)

lemma quiet_machine [simp]: "quiet s (on_machine f s') = quiet s s'"
  by (simp add: quiet_def shares_def)

lemma quiet_put:
  assumes "task_frame (f (sd_tasks s t)) = task_frame (sd_tasks s t)"
    "task_place (f (sd_tasks s t)) = task_place (sd_tasks s t)"
  shows "quiet s (put_task t f s)"
  using assms by (simp add: quiet_def shares_def)

lemma quiet_fold:
  assumes "\<And>x s. x \<in> set xs \<Longrightarrow> quiet s (body x s)"
  shows "quiet s (fold body xs s)"
  using assms by (induction xs arbitrary: s) (auto intro: quiet_trans)

lemma quiet_ops:
  "quiet s (record_contribution n e c s)" "quiet s (capture_replay L t s)"
  "quiet s (capture_checkpoint L cfg t s)" "quiet s (report_progress L cfg t s)"
  "quiet s (clear_sequence L cfg seq s)"
proof -
  show "quiet s (record_contribution n e c s)"
    unfolding record_contribution_def
    by (rule quiet_put)
       (simp_all add: record_prompt_decode_def Let_def task_frame_def task_parts)
  show "quiet s (capture_replay L t s)" "quiet s (capture_checkpoint L cfg t s)"
    unfolding capture_replay_def capture_checkpoint_def
    by (rule quiet_put; simp add: task_frame_def task_parts split: option.split)+
  show "quiet s (report_progress L cfg t s)"
    unfolding report_progress_def Let_def
    by (auto intro!: quiet_trans [OF _ quiet_put] simp: task_place_def)
  show "quiet s (clear_sequence L cfg seq s)"
    by (simp add: clear_sequence_def seq_clear_def Let_def)
qed

lemma quiet_lists:
  "quiet s s' \<Longrightarrow> sd_active s' = sd_active s \<and> sd_cancelled s' = sd_cancelled s \<and>
     sd_stopped s' = sd_stopped s \<and> sd_completed s' = sd_completed s"
  by (simp add: quiet_def shares_def)

text \<open>What an invariant needs to see: the frame of its task and the lists.\<close>

definition of_frame :: "(handle \<Rightarrow> 'm scheduler \<Rightarrow> bool) \<Rightarrow> bool" where
  "of_frame A \<longleftrightarrow> (\<forall>t s s'. quiet s s' \<longrightarrow> A t s \<longrightarrow> A t s')"

lemma chan_quiet:
  assumes "chan_inv N F A s" "quiet s s'" "of_frame A"
  shows "chan_inv N F A s'"
proof -
  have q: "tk_out_queue (sd_tasks s' u) = tk_out_queue (sd_tasks s u)"
    "tk_max_tokens (sd_tasks s' u) = tk_max_tokens (sd_tasks s u)" for u
    using assms(2) by (simp_all add: quiet_def task_frame_def task_parts)
  have "A t s'" if "t \<in> set (sd_active s)" for t
  proof -
    have "A t s" using assms(1) that by (simp add: chan_inv_def)
    then show ?thesis using assms(2,3) unfolding of_frame_def by blast
  qed
  moreover have "settled N t (sd_tasks s' t)" if "t \<notin> set (sd_active s)" for t
    using assms(1) that queue_frame(3) [OF q] by (simp add: chan_inv_def)
  ultimately show ?thesis
    using assms(1,2) by (simp add: chan_inv_def unused_def q quiet_def shares_def)
qed

lemma frame_built: "of_frame (is_built B)"
proof -
  have "built_inv (sd_tasks s' t)" if "quiet s s'" "built_inv (sd_tasks s t)"
    for t and s s' :: "'a scheduler"
  proof (rule built_frame [OF _ _ _ _ that(2)])
    have "task_frame (sd_tasks s' t) = task_frame (sd_tasks s t)"
      "task_place (sd_tasks s' t) = task_place (sd_tasks s t)"
      using that(1) by (simp_all add: quiet_def)
    note parts = this
    show "task_input (sd_tasks s' t) = task_input (sd_tasks s t)"
      "task_output (sd_tasks s' t) = task_output (sd_tasks s t)"
      "task_draft (sd_tasks s' t) = task_draft (sd_tasks s t)"
      using task_frame_fields [OF parts(1)] by simp_all
    show "tk_prompt_pos (sd_tasks s' t) = tk_prompt_pos (sd_tasks s t)"
      using parts(2) by (simp add: task_place_def)
  qed
  moreover have "tk_i_batch (sd_tasks s' t) = tk_i_batch (sd_tasks s t)" if "quiet s s'"
    for t and s s' :: "'a scheduler"
    using that by (simp add: quiet_def task_frame_def task_output_def)
  ultimately show ?thesis
    unfolding of_frame_def is_built_def using quiet_lists by metis
qed

section \<open>Cancelled and stopped tasks\<close>

lemma chan_settle_flagged:
  assumes "chan_inv N F (is_built B) s" "distinct (sd_cancelled s @ sd_stopped s)"
    "set (sd_cancelled s @ sd_stopped s) \<subseteq> set (sd_active s)"
  shows "chan_inv N F (is_built B) (settle_flagged L cfg s)"
    "sd_active (settle_flagged L cfg s) =
       filter (\<lambda>t. t \<notin> set (sd_cancelled s @ sd_stopped s)) (sd_active s)"
proof -
  define s1 where
    "s1 = fold (\<lambda>t s'. clear_sequence L cfg (tk_slot_id (sd_tasks s' t)) s') (sd_cancelled s) s"
  let ?flagged = "sd_cancelled s @ sd_stopped s"
  let ?xs = "map (Pair True) (sd_cancelled s) @ map (Pair False) (sd_stopped s)"
  let ?body = "\<lambda>(b, t). if b then finish_cancelled L t else finish_stopped L t"
  have fold_pair: "fold ?body (map (Pair b) ts) = fold (\<lambda>t. ?body (b, t)) ts" for b ts
    by (simp add: fold_map comp_def)
  have e: "settle_flagged L cfg s = fold ?body ?xs (drop_active ?flagged s1)"
    by (simp add: settle_flagged_def Let_def s1_def fold_pair)
  have q: "quiet s s1" unfolding s1_def by (rule quiet_fold) (rule quiet_ops)
  have c1: "chan_inv N F (is_built B) s1" by (rule chan_quiet [OF assms(1) q frame_built])
  have a1: "sd_active s1 = sd_active s" using quiet_lists [OF q] by simp
  have snd: "snd ` set ?xs = set ?flagged" by force
  have cl: "closes (snd x) s' (?body x s')" for x and s' :: "'a scheduler"
    by (cases x) (simp add: closers)
  show "chan_inv N F (is_built B) (settle_flagged L cfg s)"
    unfolding e
  proof (rule chan_close [OF c1, where h = snd])
    show "distinct (map snd ?xs)" using assms(2) by (simp add: comp_def)
    show "open_queue (sd_tasks s1 (snd x))" if "x \<in> set ?xs" for x
    proof -
      have "snd x \<in> set (sd_active s1)" using that snd assms(3) a1 by auto
      then show ?thesis using c1 by (auto simp: chan_inv_def is_built_def intro: built_open)
    qed
    show "sd_terminal_error (drop_active ?flagged s1) \<noteq> [] \<longrightarrow>
        sd_active (drop_active ?flagged s1) = []"
      using c1 by (simp add: drop_active_def chan_inv_def)
    show "snd ` set ?xs \<subseteq> set (sd_active s1)" using snd assms(3) a1 by simp
    show "sd_active (drop_active ?flagged s1) = filter (\<lambda>t. t \<notin> snd ` set ?xs) (sd_active s1)"
      unfolding snd by (simp add: drop_active_def)
    show "closes (snd x) s' (?body x s')" for x s' by (rule cl)
  qed (simp_all add: drop_active_def)
  have "only (snd ` set ?xs) (drop_active ?flagged s1) (fold ?body ?xs (drop_active ?flagged s1))"
    by (rule only_fold) (use cl in \<open>simp add: closes_def\<close>)
  then show "sd_active (settle_flagged L cfg s) = filter (\<lambda>t. t \<notin> set ?flagged) (sd_active s)"
    unfolding e using only_shares a1 by (fastforce simp: shares_def drop_active_def)
qed

section \<open>Sampling and verification\<close>

definition is_sampled :: "handle \<Rightarrow> 'm scheduler \<Rightarrow> bool" where
  "is_sampled t s \<longleftrightarrow> count_list (sd_completed s) t \<le> 1 \<and>
     (if t \<in> set (sd_completed s)
      then open_queue (sd_tasks s t) \<and> tk_spec_i_batch (sd_tasks s t) = []
      else gen_inv (sd_tasks s t) \<and> tk_i_batch (sd_tasks s t) = - 1 \<and>
           (tk_spec_i_batch (sd_tasks s t) \<noteq> [] \<longrightarrow> tk_prompt_done (sd_tasks s t)))"

lemma sampled_view [simp]: "of_view is_sampled"
  by (simp add: of_view_def view_def is_sampled_def)

lemma sampled_open: "is_sampled t s \<Longrightarrow> open_queue (sd_tasks s t)"
  by (auto simp: is_sampled_def gen_open split: if_splits)

lemma built_sampled:
  "is_built B t s \<Longrightarrow> tk_i_batch (sd_tasks s t) < 0 \<Longrightarrow> is_sampled t s"
  by (simp add: is_built_def built_inv_def is_sampled_def)

lemma robust_sampled: "robust is_sampled"
proof -
  have "is_sampled t s" if "fresh_task (sd_tasks s t)" "unused t s" for t and s :: "'a scheduler"
    using that fresh_inv(1) [OF that(1)] fresh_inv(2) [OF that(1)]
    by (simp add: is_sampled_def unused_def task_inv_def)
  moreover have "is_sampled t (put_task u f s)" if "flag_update f" "is_sampled t s"
    for t u f and s :: "'a scheduler"
  proof -
    have "gen_inv (f k) = gen_inv k" "tk_i_batch (f k) = tk_i_batch k"
      "tk_prompt_done (f k) = tk_prompt_done k" for k
      using that(1) by (simp_all add: flag_update_def task_parts gen_inv_def)
    then show ?thesis
      using that by (auto simp: is_sampled_def flag_update_inv split: if_splits)
  qed
  ultimately show ?thesis by (simp add: robust_def)
qed

lemma push_fields [simp]:
  "tk_n_generated (sd_tasks (push_event L t ev s) t) = tk_n_generated (sd_tasks s t)"
  "tk_prompt_done (sd_tasks (push_event L t ev s) t) = tk_prompt_done (sd_tasks s t)"
  "tk_i_batch (sd_tasks (push_event L t ev s) t) = tk_i_batch (sd_tasks s t)"
  "tk_spec_i_batch (sd_tasks (push_event L t ev s) t) = tk_spec_i_batch (sd_tasks s t)"
  "tk_stop_tokens (sd_tasks (push_event L t ev s) t) = tk_stop_tokens (sd_tasks s t)"
  "tk_n_pos (sd_tasks (push_event L t ev s) t) = tk_n_pos (sd_tasks s t)"
  "sd_completed (push_event L t ev s) = sd_completed s"
  "sd_cancelled (push_event L t ev s) = sd_cancelled s"
  "sd_stopped (push_event L t ev s) = sd_stopped s"
  "sd_batch (push_event L t ev s) = sd_batch s"
  by (simp_all add: push_event_def Let_def)

lemma complete_fields [simp]:
  "tk_out_queue (sd_tasks (complete_task L t s) t) = tk_out_queue (sd_tasks s t)"
  "tk_max_tokens (sd_tasks (complete_task L t s) t) = tk_max_tokens (sd_tasks s t)"
  "tk_spec_i_batch (sd_tasks (complete_task L t s) t) = tk_spec_i_batch (sd_tasks s t)"
  "sd_completed (complete_task L t s) = sd_completed s @ [t]"
  "sd_cancelled (complete_task L t s) = sd_cancelled s"
  "sd_stopped (complete_task L t s) = sd_stopped s"
  by (simp_all add: complete_task_def Let_def free_sampler_def split: option.splits)

text \<open>A task about to emit a sampled token.\<close>

definition may_emit :: "handle \<Rightarrow> 'm scheduler \<Rightarrow> bool" where
  "may_emit t s \<longleftrightarrow> t \<notin> set (sd_completed s) \<and> tk_prompt_done (sd_tasks s t) \<and>
     tk_i_batch (sd_tasks s t) = - 1 \<and> 0 \<le> tk_n_generated (sd_tasks s t) \<and>
     (0 < tk_n_generated (sd_tasks s t) \<longrightarrow>
        tk_n_generated (sd_tasks s t) < tk_max_tokens (sd_tasks s t)) \<and>
     list_all (\<lambda>e. \<not> ev_is_done e) (tk_out_queue (sd_tasks s t)) \<and>
     int (length (tk_out_queue (sd_tasks s t))) = tk_n_generated (sd_tasks s t)"

lemma emit_sampled:
  assumes "may_emit t s" "\<not> ev_is_done ev" "tk_spec_i_batch (sd_tasks s t) = []"
  shows "is_sampled t (emit_token L t ev s)"
proof -
  have c: "count_list (sd_completed s) t = 0"
    using assms(1) by (simp add: may_emit_def count_list_0_iff)
  have stop: "is_sampled t (complete_task L t s)"
    using assms c by (auto simp: is_sampled_def may_emit_def open_queue_def)
  have limit: "is_sampled t (complete_task L t (push_event L t ev s))"
    using assms c by (auto simp: is_sampled_def may_emit_def open_queue_def)
  have go_on: "is_sampled t (put_task t (\<lambda>k. k\<lparr>tk_last_token := ev_id ev,
      tk_n_generated := tk_n_generated k + 1\<rparr>) (push_event L t ev s))"
    if "\<not> generation_limit_reached (tk_n_generated (sd_tasks s t)) (tk_max_tokens (sd_tasks s t))"
    using assms c that
    by (simp add: is_sampled_def may_emit_def gen_inv_def generation_limit_reached_def)
  show ?thesis
    using stop limit go_on by (simp add: emit_token_def Let_def)
qed

lemma begin_generation_frame [simp]:
  "task_frame (sd_tasks (begin_generation L t s) u) = task_frame (sd_tasks s u)"
  "sd_completed (begin_generation L t s) = sd_completed s"
  "sd_cancelled (begin_generation L t s) = sd_cancelled s"
  "sd_stopped (begin_generation L t s) = sd_stopped s"
  by (simp_all add: begin_generation_def)

lemma sample_token_state:
  "sd_tasks (snd (sample_token L t s)) = sd_tasks s"
  "sd_completed (snd (sample_token L t s)) = sd_completed s"
  "sd_cancelled (snd (sample_token L t s)) = sd_cancelled s"
  "sd_stopped (snd (sample_token L t s)) = sd_stopped s"
  "\<not> ev_is_done (fst (sample_token L t s))" "\<not> ev_is_error (fst (sample_token L t s))"
  by (simp_all add: sample_token_def Let_def sampled_event_def TokenEvent_def)

lemma sample_sampled:
  assumes "is_built B t s" "t \<notin> set (sd_cancelled s)" "t \<notin> set (sd_stopped s)"
  shows "is_sampled t (sample_task L cfg t s)"
proof (cases "tk_i_batch (sd_tasks s t) < 0")
  case True
  then show ?thesis using built_sampled [OF assms(1)] by (simp add: sample_task_def Let_def)
next
  case False
  let ?k = "sd_tasks s t"
  define b where "b \<longleftrightarrow> \<not> tk_prompt_done ?k \<and> tk_prompt_pos ?k \<ge> int (length (tk_prompt_tokens ?k))"
  define s0 where "s0 = (if b then begin_generation L t s else s)"
  obtain ev s1 where e: "sample_token L t s0 = (ev, s1)" by fastforce
  have s1: "sd_tasks s1 = sd_tasks s0" "sd_completed s1 = sd_completed s0" "\<not> ev_is_done ev"
    using sample_token_state [of L t s0] e by simp_all
  have f: "task_frame (sd_tasks s0 t) = task_frame ?k" "sd_completed s0 = sd_completed s"
    by (simp_all add: s0_def)
  have built: "built_inv ?k" "t \<notin> set (sd_completed s)" using assms(1) by (simp_all add: is_built_def)
  have d: "tk_prompt_done ?k \<or> b" using built False by (auto simp: built_inv_def b_def)
  have "may_emit t (enter_generation L cfg b t s1)"
    using built d s1 f False
    by (auto simp: may_emit_def enter_generation_def Let_def built_inv_def gen_inv_def
          task_frame_def task_parts split: if_splits)
  moreover have "tk_spec_i_batch (sd_tasks (enter_generation L cfg b t s1) t) = []"
    using built(1) s1(1) f(1) False
    by (auto simp: enter_generation_def Let_def built_inv_def task_frame_def task_parts)
  ultimately have "is_sampled t (emit_token L t ev (enter_generation L cfg b t s1))"
    by (rule emit_sampled [OF _ s1(3)])
  then show ?thesis
    using False assms(2,3) e
    unfolding sample_task_def Let_def b_def [symmetric] s0_def [symmetric] by simp
qed

lemma push_accepted_inv:
  assumes "may_emit t s" "0 < tk_n_generated (sd_tasks s t)" "push_accepted L t toks s = (fin, s')"
  shows "open_queue (sd_tasks s' t) \<and> t \<notin> set (sd_completed s') \<and>
    tk_i_batch (sd_tasks s' t) = - 1 \<and> (\<not> fin \<longrightarrow> gen_inv (sd_tasks s' t)) \<and>
    sd_completed s' = sd_completed s \<and> sd_cancelled s' = sd_cancelled s \<and>
    sd_stopped s' = sd_stopped s"
  using assms
proof (induction toks arbitrary: s)
  case Nil
  then show ?case by (auto simp: may_emit_def open_queue_def gen_inv_def)
next
  case (Cons tok toks)
  let ?s1 = "put_task t (\<lambda>k. k\<lparr>tk_n_generated := tk_n_generated k + 1\<rparr>)
    (push_event L t (TokenEvent\<lparr>ev_id := tok\<rparr>) s)"
  let ?s2 = "put_task t (\<lambda>k. k\<lparr>tk_last_token := tok\<rparr>) ?s1"
  have nd: "\<not> ev_is_done (TokenEvent\<lparr>ev_id := tok\<rparr>)" by (simp add: TokenEvent_def)
  consider (stop) "is_stop_token L (sd_tasks s t) tok"
    | (limit) "\<not> is_stop_token L (sd_tasks s t) tok"
        "tk_n_generated (sd_tasks s t) + 1 \<ge> tk_max_tokens (sd_tasks s t)"
    | (more) "\<not> is_stop_token L (sd_tasks s t) tok"
        "\<not> tk_n_generated (sd_tasks s t) + 1 \<ge> tk_max_tokens (sd_tasks s t)"
    by blast
  then show ?case
  proof cases
    case stop
    then have "fin" "s' = s" using Cons.prems(3) by simp_all
    then show ?thesis using Cons.prems(1) by (auto simp: may_emit_def open_queue_def)
  next
    case limit
    then have "fin" "s' = ?s1" using Cons.prems(3) by (simp_all add: Let_def)
    then show ?thesis
      using Cons.prems(1,2) nd by (auto simp: may_emit_def open_queue_def)
  next
    case more
    have "may_emit t ?s2" "0 < tk_n_generated (sd_tasks ?s2 t)"
      using Cons.prems(1,2) more nd by (auto simp: may_emit_def)
    moreover have "push_accepted L t toks ?s2 = (fin, s')"
      using Cons.prems(3) more by (simp add: Let_def)
    ultimately show ?thesis using Cons.IH by fastforce
  qed
qed

lemma roll_back_state:
  assumes "and_also (roll_back_context L Target True t s) (roll_back_context L Draft b t) = (ok, s')"
  shows "sd_tasks s' = sd_tasks s" "sd_completed s' = sd_completed s"
    "sd_cancelled s' = sd_cancelled s" "sd_stopped s' = sd_stopped s"
  using assms by (auto simp: and_also_def roll_back_context_def split: if_splits)

lemma accept_drafts_cases:
  obtains ok s2 fin s3 where "push_accepted L t accepted s2 = (fin, s3)"
    "accept_drafts L cfg t accepted s =
       (if ok then (None, if fin
          then complete_task L t (put_task t (\<lambda>k. k\<lparr>tk_spec_i_batch := [], tk_spec_draft := []\<rparr>) s3)
          else put_task t (\<lambda>k. k\<lparr>tk_spec_i_batch := [], tk_spec_draft := []\<rparr>) s3)
        else (Some (Exception ''failed to roll back rejected MTP draft tokens''), s2))"
    "sd_tasks s2 = (sd_tasks s)(t := (sd_tasks s t)\<lparr>
       tk_n_draft_accepted := tk_n_draft_accepted (sd_tasks s t) + int (length accepted - 1),
       tk_n_pos := tk_n_pos (sd_tasks s t) + int (length accepted)\<rparr>)"
    "sd_completed s2 = sd_completed s" "sd_cancelled s2 = sd_cancelled s"
    "sd_stopped s2 = sd_stopped s"
proof -
  define f :: "slot_task \<Rightarrow> slot_task" where "f = (\<lambda>k. k\<lparr>
     tk_n_draft_accepted := tk_n_draft_accepted k + int (length accepted - 1),
     tk_n_pos := tk_n_pos k + int (length accepted)\<rparr>)"
  define s1 where "s1 = put_task t f (on_machine (speculative_accept L (tk_slot_id (sd_tasks s t))
     ((length accepted - 1) mod 2 ^ 16)) s)"
  obtain ok s2 where r: "and_also (roll_back_context L Target True t s1)
      (roll_back_context L Draft (sc_has_draft cfg) t) = (ok, s2)" by fastforce
  obtain fin s3 where a: "push_accepted L t accepted s2 = (fin, s3)" by fastforce
  show thesis
  proof (rule that [OF a])
    show "accept_drafts L cfg t accepted s =
       (if ok then (None, if fin
          then complete_task L t (put_task t (\<lambda>k. k\<lparr>tk_spec_i_batch := [], tk_spec_draft := []\<rparr>) s3)
          else put_task t (\<lambda>k. k\<lparr>tk_spec_i_batch := [], tk_spec_draft := []\<rparr>) s3)
        else (Some (Exception ''failed to roll back rejected MTP draft tokens''), s2))"
      unfolding accept_drafts_def Let_def s1_def [symmetric] f_def [symmetric] r
      by (cases ok) (simp_all add: a)
  qed (use roll_back_state [OF r] in \<open>auto simp: s1_def f_def fun_eq_iff\<close>)
qed

lemma accept_sampled:
  assumes "is_sampled t s" "tk_spec_i_batch (sd_tasks s t) \<noteq> []"
  shows "is_sampled t (snd (accept_drafts L cfg t accepted s))"
proof (rule accept_drafts_cases [of L t accepted cfg s])
  fix ok s2 fin s3
  assume a: "push_accepted L t accepted s2 = (fin, s3)"
  let ?clear = "put_task t (\<lambda>k. k\<lparr>tk_spec_i_batch := [], tk_spec_draft := []\<rparr>) s3"
  assume e: "accept_drafts L cfg t accepted s =
       (if ok then (None, if fin then complete_task L t ?clear else ?clear)
        else (Some (Exception ''failed to roll back rejected MTP draft tokens''), s2))"
    and s2: "sd_tasks s2 = (sd_tasks s)(t := (sd_tasks s t)\<lparr>
       tk_n_draft_accepted := tk_n_draft_accepted (sd_tasks s t) + int (length accepted - 1),
       tk_n_pos := tk_n_pos (sd_tasks s t) + int (length accepted)\<rparr>)"
    "sd_completed s2 = sd_completed s"
  have nc: "t \<notin> set (sd_completed s)" "gen_inv (sd_tasks s t)" "tk_prompt_done (sd_tasks s t)"
    "tk_i_batch (sd_tasks s t) = - 1"
    using assms by (auto simp: is_sampled_def split: if_splits)
  have 2: "is_sampled t s2"
    using assms nc s2 by (auto simp: is_sampled_def gen_inv_def)
  have m: "may_emit t s2" "0 < tk_n_generated (sd_tasks s2 t)"
    using nc s2 by (auto simp: may_emit_def gen_inv_def)
  note p = push_accepted_inv [OF m a]
  have n3: "t \<notin> set (sd_completed s3)" using p by blast
  then have c: "count_list (sd_completed s3) t = 0" by (simp add: count_list_0_iff)
  have "is_sampled t ?clear" if "\<not> fin" using p that c by (auto simp: is_sampled_def gen_inv_def)
  moreover have "is_sampled t (complete_task L t ?clear)"
    using p c by (auto simp: is_sampled_def open_queue_def)
  ultimately show "is_sampled t (snd (accept_drafts L cfg t accepted s))"
    using 2 by (simp add: e)
qed

lemma verify_sampled:
  assumes "is_sampled t s"
  shows "is_sampled t (snd (verify_task L cfg t s))"
proof -
  have "is_sampled t (on_machine g s)" for g using assms by (simp add: is_sampled_def)
  then show ?thesis
    using assms accept_sampled [of t "on_machine _ s"]
    by (simp add: verify_task_def Let_def)
qed

text \<open>Both loops pass over the flagged tasks, whose lists they leave alone.\<close>

lemma sample_lists:
  "sd_cancelled (sample_task L cfg t s) = sd_cancelled s"
  "sd_stopped (sample_task L cfg t s) = sd_stopped s"
proof -
  have "sd_cancelled (emit_token L t ev s') = sd_cancelled s'"
    "sd_stopped (emit_token L t ev s') = sd_stopped s'" for ev s'
    by (simp_all add: emit_token_def Let_def)
  moreover have "sd_cancelled (enter_generation L cfg b t s') = sd_cancelled s'"
    "sd_stopped (enter_generation L cfg b t s') = sd_stopped s'" for b s'
    by (simp_all add: enter_generation_def Let_def)
  ultimately show "sd_cancelled (sample_task L cfg t s) = sd_cancelled s"
    "sd_stopped (sample_task L cfg t s) = sd_stopped s"
    by (simp_all add: sample_task_def Let_def case_prod_beta sample_token_state)
qed

lemma push_accepted_lists:
  "sd_cancelled (snd (push_accepted L t toks s)) = sd_cancelled s"
  "sd_stopped (snd (push_accepted L t toks s)) = sd_stopped s"
  by (induction toks arbitrary: s) (simp_all add: Let_def)

lemma accept_lists:
  "sd_cancelled (snd (accept_drafts L cfg t a s)) = sd_cancelled s \<and>
   sd_stopped (snd (accept_drafts L cfg t a s)) = sd_stopped s"
proof (rule accept_drafts_cases [of L t a cfg s])
  fix ok s2 fin s3
  assume "push_accepted L t a s2 = (fin, s3)" "sd_cancelled s2 = sd_cancelled s"
    "sd_stopped s2 = sd_stopped s"
    and e: "accept_drafts L cfg t a s =
       (if ok then (None, if fin
          then complete_task L t (put_task t (\<lambda>k. k\<lparr>tk_spec_i_batch := [], tk_spec_draft := []\<rparr>) s3)
          else put_task t (\<lambda>k. k\<lparr>tk_spec_i_batch := [], tk_spec_draft := []\<rparr>) s3)
        else (Some (Exception ''failed to roll back rejected MTP draft tokens''), s2))"
  then show ?thesis using push_accepted_lists [of L t a s2] by (simp add: e)
qed

lemma verify_lists:
  "sd_cancelled (snd (verify_task L cfg t s)) = sd_cancelled s"
  "sd_stopped (snd (verify_task L cfg t s)) = sd_stopped s"
  by (simp_all add: verify_task_def Let_def accept_lists)

section \<open>A round\<close>

definition listed :: "'m scheduler \<Rightarrow> handle set" where
  "listed s = set (sd_cancelled s @ sd_stopped s)"

lemma fold_unlisted:
  assumes "\<And>t s. t \<in> listed s \<Longrightarrow> body t s = s" "\<And>t s. listed (body t s) = listed s"
  shows "fold body ts s = fold body (filter (\<lambda>t. t \<notin> listed s) ts) s"
  using assms by (induction ts arbitrary: s) simp_all

lemma for_each_unlisted:
  assumes "\<And>t s. t \<in> listed s \<Longrightarrow> body t s = (None, s)"
    "\<And>t s. listed (snd (body t s)) = listed s"
  shows "for_each_task body ts s = for_each_task body (filter (\<lambda>t. t \<notin> listed s) ts) s"
  using assms
proof (induction ts arbitrary: s)
  case (Cons t ts)
  obtain r s1 where b: "body t s = (r, s1)" by fastforce
  have "listed s1 = listed s" using Cons.prems(2) [of t s] b by simp
  then show ?case
    using Cons.IH [OF Cons.prems, of s1] Cons.prems(1) [of t s] b
    by (auto split: option.split)
qed simp

lemma listed_sample: "listed (sample_task L cfg t s) = listed s"
  "t \<in> listed s \<Longrightarrow> sample_task L cfg t s = s"
  by (auto simp: listed_def sample_lists) (auto simp: sample_task_def Let_def)

lemma listed_verify: "listed (snd (verify_task L cfg t s)) = listed s"
  "t \<in> listed s \<Longrightarrow> verify_task L cfg t s = (None, s)"
  by (auto simp: listed_def verify_lists) (auto simp: verify_task_def Let_def)

lemma frame_sampled: "of_frame is_sampled"
proof -
  have "is_sampled t s'" if "quiet s s'" "is_sampled t s" for t and s s' :: "'a scheduler"
  proof -
    have "task_frame (sd_tasks s' t) = task_frame (sd_tasks s t)" "sd_completed s' = sd_completed s"
      using that(1) by (simp_all add: quiet_def)
    then show ?thesis
      using that(2)
      by (auto simp: is_sampled_def task_frame_def task_parts gen_inv_def open_queue_def
            split: if_splits)
  qed
  then show ?thesis by (simp add: of_frame_def)
qed

lemma sampled_weaken: "is_sampled t s \<Longrightarrow> t \<notin> set (sd_completed s) \<Longrightarrow> is_idle t s"
  by (simp add: is_sampled_def is_idle_def task_inv_def)

lemma distinct_count: "(\<And>t. count_list xs t \<le> 1) \<Longrightarrow> distinct xs"
proof (induction xs)
  case (Cons x xs)
  have "count_list xs x = 0" using Cons.prems [of x] by simp
  moreover have "count_list xs t \<le> 1" for t
    using Cons.prems [of t] by (simp split: if_splits)
  ultimately show ?case using Cons.IH by (simp add: count_list_0_iff)
qed simp

text \<open>\<open>done_in\<close>: the completed tasks are active ones, each listed once.\<close>

lemma chan_settle_completed:
  assumes "chan_inv N F is_sampled s" "set (sd_completed s) \<subseteq> set (sd_active s)"
  shows "chan_inv N F is_idle (settle_completed L s)"
proof -
  let ?A = "\<lambda>t s. is_sampled t s"
  have s: "is_sampled t s" if "t \<in> set (sd_active s)" for t
    using assms(1) that by (simp add: chan_inv_def)
  have "count_list (sd_completed s) t \<le> 1" for t
  proof (cases "t \<in> set (sd_completed s)")
    case True
    then show ?thesis using s [of t] assms(2) by (auto simp: is_sampled_def)
  qed (simp add: count_list_0_iff)
  then have d: "distinct (sd_completed s)" by (rule distinct_count)
  let ?s0 = "drop_active (sd_completed s) s"
  have c: "chan_inv N F is_sampled (fold (finish_completed L) (sd_completed s) ?s0)"
  proof (rule chan_close [OF assms(1) sampled_view, where h = "\<lambda>t. t"])
    show "open_queue (sd_tasks s t)" if "t \<in> set (sd_completed s)" for t
      using s [of t] assms(2) that sampled_open by blast
    show "sd_terminal_error ?s0 \<noteq> [] \<longrightarrow> sd_active ?s0 = []"
      using assms(1) by (simp add: drop_active_def chan_inv_def)
  qed (use d assms(2) in \<open>simp_all add: closers drop_active_def\<close>)
  have o: "only (set (sd_completed s)) ?s0 (settle_completed L s)"
    using only_fold [of "sd_completed s" "\<lambda>t. t" "finish_completed L" ?s0] only_finish(3)
    by (auto simp: settle_completed_def)
  have "is_idle t (settle_completed L s)"
    if "t \<in> set (sd_active (settle_completed L s))" "is_sampled t (settle_completed L s)" for t
  proof -
    have t: "t \<in> set (sd_active s)" "t \<notin> set (sd_completed s)"
      using that(1) only_shares [OF o] by (simp_all add: shares_def drop_active_def)
    have v: "view (settle_completed L s) t = view s t"
      using only_view [OF o t(2)] by (simp add: drop_active_def)
    show ?thesis
      by (rule of_viewD [OF views(2) v]) (rule sampled_weaken [OF s [OF t(1)] t(2)])
  qed
  then show ?thesis
    using chan_weaken [OF c, of F is_idle] by (simp add: settle_completed_def)
qed

definition submitted_in :: "outside_event list \<Rightarrow> handle set" where
  "submitted_in evs = fst ` set (submissions evs)"

lemma submissions_append: "submissions (a @ b) = submissions a @ submissions b"
  by (induction a rule: submissions.induct) simp_all

lemma submitted_append: "submitted_in (a @ b) = submitted_in a \<union> submitted_in b"
  by (simp add: submitted_in_def submissions_append image_Un)

lemma fresh_append:
  assumes "fresh_events F (a @ b)"
  shows "fresh_events F a" "fresh_events (F - submitted_in a) b"
  using assms by (auto simp: fresh_events_def submissions_append submitted_in_def)

lemma chan_outside':
  "chan_inv N F A s \<Longrightarrow> robust A \<Longrightarrow> fresh_events F evs \<Longrightarrow>
   chan_inv N (F - submitted_in evs) A (outside_all L evs s)"
  unfolding submitted_in_def by (rule chan_outside)

text \<open>What other threads leave alone, and that they only add to the active tasks.\<close>

lemma outside_keeps:
  "set (sd_active s) \<subseteq> set (sd_active (outside_all L evs s))"
  "set (sd_active (outside_all L evs s)) \<subseteq> set (sd_active s) \<union> submitted_in evs"
  "sd_cancelled (outside_all L evs s) = sd_cancelled s"
  "sd_stopped (outside_all L evs s) = sd_stopped s"
  "sd_completed (outside_all L evs s) = sd_completed s"
  "sd_batch (outside_all L evs s) = sd_batch s"
proof -
  have "set (sd_active s) \<subseteq> set (sd_active (outside L ev s)) \<and>
      set (sd_active (outside L ev s)) \<subseteq> set (sd_active s) \<union> submitted_in [ev] \<and>
      sd_cancelled (outside L ev s) = sd_cancelled s \<and> sd_stopped (outside L ev s) = sd_stopped s \<and>
      sd_completed (outside L ev s) = sd_completed s \<and> sd_batch (outside L ev s) = sd_batch s"
    for ev s
    by (cases ev)
       (auto simp: submit_def Let_def push_event_def free_sampler_def submitted_in_def
          split: option.splits)
  note step = this
  have "set (sd_active s) \<subseteq> set (sd_active (outside_all L evs s)) \<and>
      set (sd_active (outside_all L evs s)) \<subseteq> set (sd_active s) \<union> submitted_in evs \<and>
      sd_cancelled (outside_all L evs s) = sd_cancelled s \<and>
      sd_stopped (outside_all L evs s) = sd_stopped s \<and>
      sd_completed (outside_all L evs s) = sd_completed s \<and>
      sd_batch (outside_all L evs s) = sd_batch s"
  proof (induction evs arbitrary: s)
    case (Cons ev evs)
    have "submitted_in (ev # evs) = submitted_in [ev] \<union> submitted_in evs"
      using submitted_append [of "[ev]" evs] by simp
    then show ?case
      using step [of s ev] Cons.IH [of "outside L ev s"] by (auto simp: outside_all_def)
  qed (simp add: outside_all_def)
  then show "set (sd_active s) \<subseteq> set (sd_active (outside_all L evs s))"
    "set (sd_active (outside_all L evs s)) \<subseteq> set (sd_active s) \<union> submitted_in evs"
    "sd_cancelled (outside_all L evs s) = sd_cancelled s"
    "sd_stopped (outside_all L evs s) = sd_stopped s"
    "sd_completed (outside_all L evs s) = sd_completed s"
    "sd_batch (outside_all L evs s) = sd_batch s" by blast+
qed

text \<open>How a round may end: well, with the loop left, or never.\<close>

definition round_ok ::
  "handle set \<Rightarrow> handle set \<Rightarrow> round_end \<times> 'm scheduler \<Rightarrow> bool" where
  "round_ok N F r \<longleftrightarrow> (if fst r = Stuck then chan_inv N F is_open (snd r) else chan_inv N F is_idle (snd r))"

lemma round_ok_weaken: "round_ok N F r \<Longrightarrow> F' \<subseteq> F \<Longrightarrow> round_ok N F' r"
  unfolding round_ok_def by (metis chan_weaken)

lemma round_ok_fail:
  assumes "chan_inv N F A s" "\<And>t. t \<in> set (sd_active s) \<Longrightarrow> A t s \<Longrightarrow> open_queue (sd_tasks s t)"
  shows "round_ok N F (LeaveLoop, fail_all L msg s)"
  unfolding round_ok_def using chan_fail_all [OF assms] by simp

lemma round_ok_catch:
  assumes "chan_inv N F A (snd r)" "F' \<subseteq> F"
    and "\<And>t. A t (snd r) \<Longrightarrow> open_queue (sd_tasks (snd r) t)"
    and "fst r = None \<Longrightarrow> round_ok N F' (f (snd r))"
  shows "round_ok N F' (catch_throw L r f)"
proof -
  obtain h s where r: "r = (h, s)" by fastforce
  show ?thesis
  proof (cases h)
    case None
    then show ?thesis using assms(4) r by (simp add: catch_throw_def)
  next
    case (Some e)
    have a: "chan_inv N F' A s" using chan_weaken [OF assms(1,2)] r by simp
    have o: "open_queue (sd_tasks s t)" if "A t s" for t using assms(3) that r by simp
    show ?thesis
    proof (cases e)
      case (Exception msg)
      then show ?thesis
        using round_ok_fail [OF a o] r Some by (simp add: catch_throw_def)
    next
      case NoReturn
      have "chan_inv N F' is_open s"
        by (rule chan_weaken [OF a]) (use o in \<open>auto simp: is_open_def\<close>)
      then show ?thesis using r Some NoReturn by (simp add: catch_throw_def round_ok_def)
    qed
  qed
qed

lemma completed_within:
  assumes "only T s s'" "sd_completed s = []"
  shows "set (sd_completed s') \<subseteq> T"
proof
  fix u assume u: "u \<in> set (sd_completed s')"
  show "u \<in> T"
  proof (rule ccontr)
    assume "u \<notin> T"
    then have "view s' u = view s u" using only_view [OF assms(1)] by simp
    then show False using u assms(2) by (simp add: view_def)
  qed
qed

lemma chan_distribute:
  assumes "chan_inv N F (is_built (set tasks)) s" "distinct tasks" "sd_completed s = []"
    and "set tasks \<subseteq> set (sd_active s) \<union> listed s" "listed s \<inter> set (sd_active s) = {}"
    and "fresh_events F (w 5)"
  shows "round_ok N (F - submitted_in (w 5)) (distribute L cfg w tasks e s)"
proof -
  let ?B = "set tasks"
  define s1 where "s1 = fold (record_contribution (int (length (sd_batch s))) e)
    (sd_prompt_contributions s) s"
  obtain ok s2 where p: "(if sc_has_speculative cfg \<and> sd_process_mtp s1
      then ask (speculative_process L (sd_batch s1)) s1 else (True, s1)) = (ok, s2)" by fastforce
  define s3 where "s3 = fold (capture_replay L) (sd_replay_checkpoint_ready s2) s2"
  define s4 where "s4 = fold (capture_checkpoint L cfg) (sd_checkpoint_ready s3) s3"
  have q1: "quiet s s1" unfolding s1_def by (rule quiet_fold) (rule quiet_ops)
  have q2: "quiet s s2" using p q1 by (auto split: if_splits)
  have q3: "quiet s s3" unfolding s3_def by (rule quiet_trans [OF q2 quiet_fold]) (rule quiet_ops)
  have q4: "quiet s s4" unfolding s4_def by (rule quiet_trans [OF q3 quiet_fold]) (rule quiet_ops)
  note l4 = quiet_lists [OF q4]
  have c2: "chan_inv N F (is_built ?B) s2" by (rule chan_quiet [OF assms(1) q2 frame_built])
  have c4: "chan_inv N F (is_built ?B) s4" by (rule chan_quiet [OF assms(1) q4 frame_built])
  define ts where "ts = filter (\<lambda>t. t \<notin> listed s) tasks"
  have listed: "listed s4 = listed s" using l4 by (simp add: listed_def)
  have ts: "distinct ts" "set ts \<subseteq> set (sd_active s4)"
    using assms(2,4) l4 by (auto simp: ts_def)
  define s5 where "s5 = fold (sample_task L cfg) tasks s4"
  have e5: "s5 = fold (sample_task L cfg) ts s4"
    unfolding s5_def ts_def listed [symmetric]
    by (rule fold_unlisted) (simp_all add: listed_sample)
  have un: "t \<notin> set (sd_cancelled s4)" "t \<notin> set (sd_stopped s4)" if "t \<in> ts'" "ts' = set (sd_active s4)" for t ts'
    using that assms(5) l4 by (auto simp: listed_def)
  have o5: "only (set ts) s4 s5"
    unfolding e5 using only_fold [of ts "\<lambda>t. t" "sample_task L cfg" s4] by (simp add: only_sample)
  have listed5: "listed s5 = listed s"
    unfolding e5 listed [symmetric] by (induction ts arbitrary: s4) (simp_all add: listed_sample)
  have c5: "chan_inv N F is_sampled s5"
  proof (rule chan_only [OF c4 o5 ts(2)])
    let ?P = "\<lambda>t s. is_built ?B t s \<and> t \<notin> set (sd_cancelled s) \<and> t \<notin> set (sd_stopped s)"
    fix t assume t: "t \<in> set (sd_active s4)"
    have b: "is_built ?B u s4" if "u \<in> set (sd_active s4)" for u
      using c4 that by (simp add: chan_inv_def)
    show "is_sampled t s5"
    proof (cases "t \<in> set ts")
      case True
      have "\<forall>t\<in>set ts. is_sampled t (fold (sample_task L cfg) ts s4)"
      proof (rule fold_tasks [where h = "\<lambda>t. t" and P = ?P])
        show "of_view ?P" by (auto simp: of_view_def view_def is_built_def)
        show "\<forall>t\<in>set ts. ?P t s4" using b un ts(2) by auto
      qed (use ts(1) in \<open>auto simp: only_sample intro: sample_sampled\<close>)
      then show ?thesis using True e5 by simp
    next
      case False
      then have "t \<notin> ?B" using t assms(5) l4 by (auto simp: ts_def)
      then have "is_sampled t s4" using b [OF t] built_sampled [of ?B t s4] by (simp add: is_built_def)
      then show ?thesis using of_viewD [OF sampled_view only_view [OF o5 False]] by simp
    qed
  qed
  let ?r = "for_each_task (verify_task L cfg) tasks s5"
  have e6: "?r = for_each_task (verify_task L cfg) ts s5"
    unfolding ts_def listed5 [symmetric]
    by (rule for_each_unlisted) (simp_all add: listed_verify)
  have a5: "sd_active s5 = sd_active s4" using only_shares [OF o5] by (simp add: shares_def)
  have c6: "chan_inv N F is_sampled (snd ?r)"
    unfolding e6
    by (rule chan_for_each [OF c5 ts(1)])
       (use ts(2) a5 in \<open>auto simp: only_verify intro: verify_sampled\<close>)
  have o6: "only (set ts) s4 (snd ?r)"
    unfolding e6 by (rule only_step [OF o5 only_for_each]) (rule only_verify)
  let ?s7 = "fold (report_progress L cfg) tasks (snd ?r)"
  have q7: "quiet (snd ?r) ?s7" by (rule quiet_fold) (rule quiet_ops)
  have c7: "chan_inv N F is_sampled ?s7" by (rule chan_quiet [OF c6 q7 frame_sampled])
  let ?s8 = "outside_all L (w 5) ?s7"
  have c8: "chan_inv N (F - submitted_in (w 5)) is_sampled ?s8"
    by (rule chan_outside' [OF c7 robust_sampled assms(6)])
  have "set (sd_completed (snd ?r)) \<subseteq> set ts"
    by (rule completed_within [OF o6]) (use l4 assms(3) in simp)
  then have "set (sd_completed ?s8) \<subseteq> set (sd_active ?s8)"
    using outside_keeps(1) [of ?s7 L "w 5"] outside_keeps(5) [of L "w 5" ?s7] quiet_lists [OF q7]
      only_shares [OF o6] ts(2) by (auto simp: shares_def)
  then have fin: "round_ok N (F - submitted_in (w 5)) (NextRound, settle_completed L ?s8)"
    using chan_settle_completed [OF c8] by (simp add: round_ok_def)
  have "round_ok N (F - submitted_in (w 5)) (catch_throw L ?r (\<lambda>s6. (NextRound, settle_completed L
      (outside_all L (w 5) (fold (report_progress L cfg) tasks s6)))))"
    by (rule round_ok_catch [OF c6]) (use fin sampled_open in auto)
  moreover have "round_ok N (F - submitted_in (w 5)) (LeaveLoop,
      fail_all L ''MTP draft context decode failed'' s2)"
    by (rule round_ok_weaken [OF round_ok_fail [OF c2]]) (auto simp: is_built_def built_open)
  ultimately show ?thesis
    unfolding distribute_def Let_def s1_def [symmetric] p
    by (cases ok) (simp_all add: s3_def s4_def s5_def)
qed

lemma quiet_machine_ops:
  "quiet s (snd (decode_batch L s))"
  by (simp add: decode_batch_def Let_def)

lemma order_facts:
  assumes "order_tasks cfg tasks runnable s = (lim, ordered, s')" "distinct tasks"
    "distinct runnable" "set runnable \<subseteq> set tasks"
  shows "distinct ordered" "set ordered = set tasks" "sd_active s' = sd_active s"
    "sd_tasks s' = sd_tasks s" "sd_cancelled s' = []" "sd_stopped s' = []" "sd_completed s' = []"
    "sd_terminal_error s' = sd_terminal_error s"
proof -
  obtain order where o: "prepare_batch_order (sd_tasks s) runnable (sc_n_batch cfg)
      (sd_batch_turn s) = (lim, order)"
    "ordered = order @ filter (\<lambda>t. t \<notin> set order) tasks"
    using assms(1) by (auto simp: order_tasks_def split: prod.splits)
  have m: "mset order = mset runnable" by (rule mset_order [OF o(1)])
  have "set order = set runnable" "distinct order"
    using mset_eq_setD [OF m] mset_eq_imp_distinct_iff [OF m] assms(3) by auto
  then show "distinct ordered" "set ordered = set tasks" using o(2) assms(2,4) by auto
  show "sd_active s' = sd_active s" "sd_tasks s' = sd_tasks s" "sd_cancelled s' = []"
    "sd_stopped s' = []" "sd_completed s' = []" "sd_terminal_error s' = sd_terminal_error s"
    using assms(1) by (auto simp: order_tasks_def split: prod.splits)
qed

lemma chan_order:
  assumes "chan_inv N F is_prepared s" "order_tasks cfg tasks runnable s = (lim, ordered, s')"
    "distinct tasks" "distinct runnable" "set runnable \<subseteq> set tasks"
  shows "chan_inv N F is_unlisted s'"
  using assms(1) order_facts(3-8) [OF assms(2-5)]
  by (simp add: chan_inv_def is_unlisted_def is_prepared_def unused_def)

lemma settle_flagged_lists:
  "sd_cancelled (settle_flagged L cfg s) = sd_cancelled s"
  "sd_stopped (settle_flagged L cfg s) = sd_stopped s"
  "sd_completed (settle_flagged L cfg s) = sd_completed s"
  "sd_batch (settle_flagged L cfg s) = sd_batch s"
proof -
  have f: "sd_cancelled (free_sampler L t s') = sd_cancelled s'"
    "sd_stopped (free_sampler L t s') = sd_stopped s'"
    "sd_completed (free_sampler L t s') = sd_completed s'"
    "sd_batch (free_sampler L t s') = sd_batch s'" for t s'
    by (simp_all add: free_sampler_def split: option.split)
  have g: "sd_cancelled (finish_cancelled L t s') = sd_cancelled s'"
    "sd_stopped (finish_cancelled L t s') = sd_stopped s'"
    "sd_completed (finish_cancelled L t s') = sd_completed s'"
    "sd_cancelled (finish_stopped L t s') = sd_cancelled s'"
    "sd_stopped (finish_stopped L t s') = sd_stopped s'"
    "sd_completed (finish_stopped L t s') = sd_completed s'"
    "sd_batch (finish_cancelled L t s') = sd_batch s'"
    "sd_batch (finish_stopped L t s') = sd_batch s'" for t s'
    by (simp_all add: finish_cancelled_def finish_stopped_def f note_generation_def note_prompt_def)
  have h: "sd_cancelled (fold body ts s') = sd_cancelled s' \<and>
      sd_stopped (fold body ts s') = sd_stopped s' \<and>
      sd_completed (fold body ts s') = sd_completed s' \<and>
      sd_batch (fold body ts s') = sd_batch s'"
    if "\<And>t s'. sd_cancelled (body t s') = sd_cancelled s'"
      "\<And>t s'. sd_stopped (body t s') = sd_stopped s'"
      "\<And>t s'. sd_completed (body t s') = sd_completed s'"
      "\<And>t s'. sd_batch (body t s') = sd_batch s'" for body ts s'
    using that by (induction ts arbitrary: s') auto
  have c: "sd_cancelled (clear_sequence L cfg n s') = sd_cancelled s'"
    "sd_stopped (clear_sequence L cfg n s') = sd_stopped s'"
    "sd_completed (clear_sequence L cfg n s') = sd_completed s'"
    "sd_batch (clear_sequence L cfg n s') = sd_batch s'" for n s'
    by (simp_all add: clear_sequence_def seq_clear_def Let_def)
  show "sd_cancelled (settle_flagged L cfg s) = sd_cancelled s"
    "sd_stopped (settle_flagged L cfg s) = sd_stopped s"
    "sd_completed (settle_flagged L cfg s) = sd_completed s"
    "sd_batch (settle_flagged L cfg s) = sd_batch s"
    by (simp_all add: settle_flagged_def Let_def h g c drop_active_def)
qed

text \<open>From the batch to the end of the round.\<close>

definition after_build ::
  "'m llama \<Rightarrow> sched_config \<Rightarrow> (nat \<Rightarrow> outside_event list) \<Rightarrow> handle list \<Rightarrow> 'm scheduler
     \<Rightarrow> round_end \<times> 'm scheduler" where
  "after_build L cfg w ordered s3 =
     (let s4 = settle_flagged L cfg (outside_all L (w 4) s3)
      in if sd_batch s4 = [] then (NextRound, s4)
         else case decode_batch L s4 of ((rc, elapsed), s5) \<Rightarrow>
           if rc \<noteq> 0
           then (LeaveLoop,
                 fail_all L (''llama_decode failed (rc='' @ string_of_int rc @ '')'') s5)
           else distribute L cfg w ordered elapsed s5)"

lemma built_mono: "is_built B t s \<Longrightarrow> B \<subseteq> B' \<Longrightarrow> is_built B' t s"
  by (auto simp: is_built_def)

lemma chan_after_build:
  assumes "chan_inv N F (is_built B) s" "distinct ordered" "sd_completed s = []"
    and "distinct (sd_cancelled s @ sd_stopped s)" "listed s \<subseteq> set ordered"
    and "set ordered \<subseteq> set (sd_active s)" "fresh_events F (w 4 @ w 5)"
    and "B \<subseteq> set ordered" "sd_batch s = [] \<Longrightarrow> B = {}"
  shows "round_ok N (F - submitted_in (w 4 @ w 5)) (after_build L cfg w ordered s)"
proof -
  let ?F4 = "F - submitted_in (w 4)" and ?F = "F - submitted_in (w 4 @ w 5)"
  let ?s1 = "outside_all L (w 4) s"
  let ?s4 = "settle_flagged L cfg ?s1"
  have c1: "chan_inv N ?F4 (is_built B) ?s1"
    by (rule chan_outside' [OF assms(1) robust_built(2) fresh_append(1) [OF assms(7)]])
  note keeps = outside_keeps [where L = L and evs = "w 4" and s = s]
  have k: "set (sd_active s) \<subseteq> set (sd_active ?s1)" "listed ?s1 = listed s"
    "sd_cancelled ?s1 = sd_cancelled s" "sd_stopped ?s1 = sd_stopped s"
    "sd_completed ?s1 = []" "sd_batch ?s1 = sd_batch s"
    using keeps assms(3) by (simp_all add: listed_def)
  have c4: "chan_inv N ?F4 (is_built B) ?s4"
    and a4: "sd_active ?s4 = filter (\<lambda>t. t \<notin> listed s) (sd_active ?s1)"
    using chan_settle_flagged [OF c1, of L cfg] k assms(4,5,6) by (auto simp: listed_def)
  note lists4 = settle_flagged_lists [of L cfg ?s1]
  have l4: "listed ?s4 = listed s" "sd_completed ?s4 = []" "sd_batch ?s4 = sd_batch s"
    using lists4 k by (simp_all add: listed_def)
  have sub: "?F \<subseteq> ?F4" by (auto simp: submitted_append)
  obtain rc el s5 where d: "decode_batch L ?s4 = ((rc, el), s5)" by (metis surj_pair)
  have q5: "quiet ?s4 s5" using quiet_machine_ops [of ?s4 L] d by simp
  have c5: "chan_inv N ?F4 (is_built B) s5" by (rule chan_quiet [OF c4 q5 frame_built])
  have l5: "listed s5 = listed s" "sd_active s5 = sd_active ?s4" "sd_completed s5 = []"
    using quiet_lists [OF q5] l4 by (simp_all add: listed_def)
  have fail: "round_ok N ?F (LeaveLoop, fail_all L msg s5)" for msg
    by (rule round_ok_weaken [OF round_ok_fail [OF c5] sub]) (auto simp: is_built_def built_open)
  have go_on: "round_ok N ?F (distribute L cfg w ordered el s5)"
  proof -
    have c: "chan_inv N ?F4 (is_built (set ordered)) s5"
      using chan_weaken [OF c5, of ?F4 "is_built (set ordered)"] built_mono assms(8) by blast
    have "round_ok N (?F4 - submitted_in (w 5)) (distribute L cfg w ordered el s5)"
      by (rule chan_distribute [OF c assms(2)])
         (use l5 a4 k assms(5,6) fresh_append(2) [OF assms(7)] in auto)
    moreover have "?F4 - submitted_in (w 5) = ?F" by (auto simp: submitted_append)
    ultimately show ?thesis by simp
  qed
  show ?thesis
  proof (cases "sd_batch ?s4 = []")
    case True
    then have "B = {}" using assms(9) l4 by simp
    then have "is_built B t ?s4 \<Longrightarrow> is_idle t ?s4" for t
      by (simp add: is_built_def built_inv_def is_idle_def task_inv_def)
    then have "chan_inv N ?F is_idle ?s4" using chan_weaken [OF c4 sub] by blast
    then show ?thesis using True by (simp add: after_build_def Let_def round_ok_def)
  next
    case False
    then show ?thesis using fail go_on d by (auto simp: after_build_def Let_def)
  qed
qed

text \<open>An empty batch holds no task.\<close>

lemma batch_empty_step:
  assumes "sd_batch (snd (batch_task L cfg lim t s)) = []"
  shows "sd_batch s = [] \<and> tk_i_batch (sd_tasks (snd (batch_task L cfg lim t s)) u) =
    tk_i_batch (sd_tasks s u)"
proof -
  have e: "sd_batch (snd (eval_media L cfg n t s)) = sd_batch s" for n s
    by (induction n arbitrary: s)
       (simp_all add: snd_try_next eval_chunk_def Let_def split: option.splits prod.splits)
  have f: "tk_i_batch (sd_tasks (snd (eval_media L cfg n t s)) u) = tk_i_batch (sd_tasks s u)" for n
    using eval_media_frame(1) [of L cfg n t s u] by (simp add: task_frame_def task_output_def)
  have p: "sd_batch s' = [] \<and> tk_i_batch (sd_tasks (add_prompt L cfg lim t s') u) =
      tk_i_batch (sd_tasks s' u)" if "sd_batch (add_prompt L cfg lim t s') = []" for s'
    using that by (auto simp: add_prompt_def Let_def prompt_entries_def split: if_splits)
  have g: "sd_batch s = [] \<and> tk_i_batch (sd_tasks (add_generation cfg t s) u) =
      tk_i_batch (sd_tasks s u)" if "sd_batch (add_generation cfg t s) = []"
    using that by (auto simp: add_generation_def Let_def generation_entries_def split: if_splits)
  show ?thesis
    using assms e f g p [of "snd (eval_media L cfg (length (tk_prompt_tokens (sd_tasks s t))) t s)"]
    by (auto simp: batch_task_def Let_def snd_try_next split: if_splits)
qed

lemma batch_empty:
  assumes "sd_batch (snd (for_each_task (batch_task L cfg lim) ts s)) = []"
  shows "sd_batch s = [] \<and>
    tk_i_batch (sd_tasks (snd (for_each_task (batch_task L cfg lim) ts s)) u) =
    tk_i_batch (sd_tasks s u)"
  using assms
proof (induction ts arbitrary: s)
  case (Cons t ts)
  obtain r s1 where b: "batch_task L cfg lim t s = (r, s1)" by fastforce
  note step = batch_empty_step [of L cfg lim t s, unfolded b, simplified]
  show ?case
  proof (cases r)
    case None
    then show ?thesis using Cons.IH [of s1] Cons.prems step b by simp
  next
    case (Some e)
    then show ?thesis using Cons.prems step b by simp
  qed
qed simp

lemma chan_build:
  assumes "chan_inv N F is_prepared s" "distinct tasks" "set tasks \<subseteq> set (sd_active s)"
    and "distinct runnable" "set runnable \<subseteq> set tasks"
    and "fresh_events F (w 2 @ w 3)" "build_batch L cfg w tasks runnable s = (ordered, h, s')"
  obtains B where "chan_inv N (F - submitted_in (w 2 @ w 3)) (is_built B) s'" "B \<subseteq> set ordered"
    "sd_batch s' = [] \<Longrightarrow> B = {}" "distinct ordered" "set ordered \<subseteq> set (sd_active s')"
    "sd_completed s' = []" "distinct (sd_cancelled s' @ sd_stopped s')" "listed s' \<subseteq> set ordered"
proof -
  let ?F = "F - submitted_in (w 2 @ w 3)"
  let ?s1 = "outside_all L (w 2) s"
  obtain lim s2 where o: "order_tasks cfg tasks runnable ?s1 = (lim, ordered, s2)"
    and e: "(h, s') = for_each_task (batch_task L cfg lim) ordered (outside_all L (w 3) s2)"
    using assms(7) by (auto simp: build_batch_def split: prod.splits)
  let ?s3 = "outside_all L (w 3) s2"
  note of = order_facts [OF o assms(2,4,5)]
  have c1: "chan_inv N (F - submitted_in (w 2)) is_prepared ?s1"
    by (rule chan_outside' [OF assms(1) robust_basic(3) fresh_append(1) [OF assms(6)]])
  have c2: "chan_inv N (F - submitted_in (w 2)) is_unlisted s2"
    by (rule chan_order [OF c1 o assms(2,4,5)])
  have "chan_inv N (F - submitted_in (w 2) - submitted_in (w 3)) is_unlisted ?s3"
    by (rule chan_outside' [OF c2 robust_built(1) fresh_append(2) [OF assms(6)]])
  moreover have "F - submitted_in (w 2) - submitted_in (w 3) = ?F"
    by (auto simp: submitted_append)
  ultimately have c3: "chan_inv N ?F is_unlisted ?s3" by simp
  note k2 = outside_keeps [where s = s and L = L and evs = "w 2"]
  note k3 = outside_keeps [where s = s2 and L = L and evs = "w 3"]
  have sub: "set ordered \<subseteq> set (sd_active ?s3)"
    using of(2,3) k2(1) k3(1) assms(3) by auto
  have empty: "sd_cancelled ?s3 = []" "sd_stopped ?s3 = []" "sd_completed ?s3 = []"
    using of(5-7) k3 by simp_all
  have built: "chan_inv N ?F (is_built (set ordered)) s'"
    using chan_batch [OF c3 of(1) sub order.refl, of L cfg lim] e by (metis snd_conv)
  have s': "s' = snd (for_each_task (batch_task L cfg lim) ordered ?s3)" using e by (metis snd_conv)
  have o3: "only (set ordered) ?s3 s'" unfolding s' by (rule only_for_each) (rule only_batch_task)
  note lists = for_each_batch_lists [OF of(1), of ?s3 L cfg lim, folded s']
  have act: "sd_active s' = sd_active ?s3" using only_shares [OF o3] by (simp add: shares_def)
  let ?B = "if sd_batch s' = [] then {} else set ordered"
  have "chan_inv N ?F (is_built ?B) s'"
  proof (cases "sd_batch s' = []")
    case True
    have "is_built {} t s'" if "t \<in> set (sd_active s')" "is_built (set ordered) t s'" for t
    proof -
      have "tk_i_batch (sd_tasks s' t) = tk_i_batch (sd_tasks ?s3 t)"
        using batch_empty [of L cfg lim ordered ?s3 t] True s' by simp
      moreover have "is_unlisted t ?s3" using c3 that(1) act by (simp add: chan_inv_def)
      ultimately show ?thesis
        using that(2) by (simp add: is_built_def is_unlisted_def is_prepared_def task_inv_def)
    qed
    then show ?thesis using chan_weaken [OF built, of ?F "is_built {}"] True by simp
  qed (use built in simp)
  then show thesis
    by (rule that) (use of(1) sub act lists empty in \<open>auto simp: listed_def\<close>)
qed

lemma round_prefixes:
  fixes w :: "nat \<Rightarrow> outside_event list"
  assumes "fresh_events F (w 0 @ w 1 @ w 2 @ w 3 @ w 4 @ w 5)"
  defines "F0 \<equiv> F - submitted_in (w 0)" and "F1 \<equiv> F - submitted_in (w 0) - submitted_in (w 1)"
  shows "fresh_events F (w 0)" "fresh_events F0 (w 1)" "fresh_events F1 (w 2 @ w 3)"
    "fresh_events (F1 - submitted_in (w 2 @ w 3)) (w 4 @ w 5)"
proof -
  have 1: "fresh_events F0 (w 1 @ w 2 @ w 3 @ w 4 @ w 5)"
    unfolding F0_def by (rule fresh_append(2) [OF assms(1)])
  have 2: "fresh_events F1 ((w 2 @ w 3) @ (w 4 @ w 5))"
    using fresh_append(2) [OF 1] by (simp add: F0_def F1_def)
  show "fresh_events F (w 0)" "fresh_events F0 (w 1)" "fresh_events F1 (w 2 @ w 3)"
    "fresh_events (F1 - submitted_in (w 2 @ w 3)) (w 4 @ w 5)"
    using fresh_append(1) [OF assms(1)] fresh_append(1) [OF 1] fresh_append [OF 2] by simp_all
qed

definition round_events :: "(nat \<Rightarrow> outside_event list) \<Rightarrow> outside_event list" where
  "round_events w = w 0 @ w 1 @ w 2 @ w 3 @ w 4 @ w 5"

lemma chan_round:
  assumes "chan_inv N F is_idle s" "fresh_events F (round_events w)"
  shows "round_ok N (F - submitted_in (round_events w)) (run_round L cfg w s)"
proof -
  let ?G = "F - submitted_in (round_events w)"
  let ?F0 = "F - submitted_in (w 0)"
  let ?F1 = "?F0 - submitted_in (w 1)"
  let ?F3 = "?F1 - submitted_in (w 2 @ w 3)"
  note fe = round_prefixes [OF assms(2) [unfolded round_events_def]]
  have Fs: "?G \<subseteq> ?F0" "?G \<subseteq> ?F1" "?G = ?F3 - submitted_in (w 4 @ w 5)"
    unfolding round_events_def submitted_append by blast+
  let ?s0 = "outside_all L (w 0) s"
  have c0: "chan_inv N ?F0 is_idle ?s0" by (rule chan_outside' [OF assms(1) robust_basic(2) fe(1)])
  show ?thesis
  proof (cases "sd_active ?s0 = []")
    case True
    then show ?thesis
      using chan_weaken [OF c0 Fs(1), of is_idle] by (simp add: run_round_def Let_def round_ok_def)
  next
    case False
    let ?b = "fold (begin_task L cfg) (sd_active ?s0) ?s0"
    have cb: "chan_inv N ?F0 is_prepared ?b" by (rule chan_ready_from_idle [OF c0])
    have "only (set (sd_active ?s0)) ?s0 ?b"
      using only_fold [of "sd_active ?s0" "\<lambda>t. t" "begin_task L cfg" ?s0] by (simp add: only_begin)
    then have ab: "sd_active ?b = sd_active ?s0" using only_shares by (fastforce simp: shares_def)
    obtain tasks runnable s1 where ad: "admission L cfg (sd_active ?b) ?b = (tasks, runnable, s1)"
      by (metis prod_cases3)
    note a = chan_admission [OF cb ad]
    let ?s2 = "outside_all L (w 1) s1"
    have c2: "chan_inv N ?F1 is_prepared ?s2" by (rule chan_outside' [OF a(1) robust_basic(3) fe(2)])
    note k = outside_keeps [where s = s1 and L = L and evs = "w 1"]
    have d: "distinct tasks" using a(1,2) by (simp add: chan_inv_def)
    have sub: "set tasks \<subseteq> set (sd_active ?s2)" using a(2) k(1) by simp
    define win where "win = mtp_window cfg runnable ?s2"
    let ?s3 = "fold (prepare_task L cfg win (length runnable)) runnable ?s2"
    have g: "gather_tasks L cfg w ?s0 = (tasks, runnable, win, ?s3)"
      using ad ab by (simp add: gather_tasks_def Let_def win_def)
    have c3: "chan_inv N ?F1 is_prepared ?s3" by (rule chan_prepare [OF c2 a(3)]) (use a(4) sub in auto)
    have "only (set runnable) ?s2 ?s3"
      using only_fold [of runnable "\<lambda>t. t" "prepare_task L cfg win (length runnable)" ?s2]
      by (simp add: only_prepare)
    then have a3: "sd_active ?s3 = sd_active ?s2" using only_shares by (fastforce simp: shares_def)
    let ?r = "if win then draft_tasks L cfg runnable ?s3 else (None, ?s3)"
    have rs: "set runnable \<subseteq> set (sd_active ?s3)" using a(4) sub a3 by auto
    note dr = chan_draft [OF c3 a(3) rs, of L cfg]
    have c4: "chan_inv N ?F1 is_prepared (snd ?r)" "sd_active (snd ?r) = sd_active ?s3"
      using dr(1) c3 only_shares [OF dr(2)] by (cases win; simp add: shares_def)+
    obtain ordered h s5 where b: "build_batch L cfg w tasks runnable (snd ?r) = (ordered, h, s5)"
      by (metis prod_cases3)
    have "round_ok N ?G (catch_throw L (h, s5) (after_build L cfg w ordered))"
    proof (rule chan_build [OF c4(1) d _ a(3,4) fe(3) b])
      show "set tasks \<subseteq> set (sd_active (snd ?r))" using sub a3 c4(2) by simp
      fix B
      assume B: "chan_inv N ?F3 (is_built B) s5" "B \<subseteq> set ordered" "sd_batch s5 = [] \<Longrightarrow> B = {}"
        "distinct ordered" "set ordered \<subseteq> set (sd_active s5)" "sd_completed s5 = []"
        "distinct (sd_cancelled s5 @ sd_stopped s5)" "listed s5 \<subseteq> set ordered"
      have "round_ok N ?G (after_build L cfg w ordered s5)"
        unfolding Fs(3) by (rule chan_after_build [OF B(1,4,6,7,8,5) fe(4) B(2,3)])
      moreover have "chan_inv N ?F3 (is_built B) (snd (h, s5))" using B(1) by simp
      ultimately show ?thesis
        by (intro round_ok_catch [of N ?F3 "is_built B"]) (auto simp: Fs(3) is_built_def built_open)
    qed
    then have "round_ok N ?G (catch_throw L ?r (\<lambda>s2. case build_batch L cfg w tasks runnable s2 of
        (ordered, built) \<Rightarrow> catch_throw L built (after_build L cfg w ordered)))"
      using b by (intro round_ok_catch [OF c4(1) Fs(2)]) (auto simp: is_prepared_def task_open)
    then show ?thesis
      using False unfolding run_round_def Let_def g prod.case after_build_def [abs_def]
      by (simp add: Let_def)
  qed
qed

section \<open>The loop\<close>

lemma chan_leave:
  assumes "chan_inv N F is_idle s"
  shows "chan_inv N F is_idle (leave_loop L s)" "sd_active (leave_loop L s) = []"
  using chan_fail_all [OF assms] task_open
  by (auto simp: leave_loop_def is_idle_def)

definition loop_events :: "(nat \<Rightarrow> outside_event list) list \<Rightarrow> outside_event list" where
  "loop_events ws = concat (map round_events ws)"

lemma chan_loop:
  assumes "chan_inv N F is_idle s" "fresh_events F (loop_events ws)" "run_loop L cfg ws s = Some s'"
  shows "chan_inv N (F - submitted_in (loop_events ws)) is_idle s'" "sd_active s' = []"
proof -
  have "chan_inv N (F - submitted_in (loop_events ws)) is_idle s' \<and> sd_active s' = []"
    using assms
  proof (induction ws arbitrary: F s)
    case (Cons w ws)
    have ev: "loop_events (w # ws) = round_events w @ loop_events ws" by (simp add: loop_events_def)
    let ?F1 = "F - submitted_in (round_events w)"
    let ?F = "F - submitted_in (loop_events (w # ws))"
    have F: "?F \<subseteq> F" "?F \<subseteq> ?F1" "?F = ?F1 - submitted_in (loop_events ws)"
      by (auto simp: ev submitted_append)
    have fe: "fresh_events F (round_events w)" "fresh_events ?F1 (loop_events ws)"
      using fresh_append [of F "round_events w" "loop_events ws"] Cons.prems(2) ev by simp_all
    show ?case
    proof (cases "sd_stop s")
      case True
      moreover have "chan_inv N ?F is_idle s" using chan_weaken [OF Cons.prems(1) F(1)] by blast
      ultimately show ?thesis using chan_leave Cons.prems(3) by auto
    next
      case False
      obtain r s1 where r: "run_round L cfg w s = (r, s1)" by fastforce
      have ok: "round_ok N ?F1 (r, s1)" using chan_round [OF Cons.prems(1) fe(1)] r by metis
      show ?thesis
      proof (cases r)
        case NextRound
        then show ?thesis
          using Cons.IH [of ?F1 s1] ok fe(2) Cons.prems(3) False r F(3)
          by (simp add: round_ok_def)
      next
        case LeaveLoop
        then have "chan_inv N ?F is_idle s1" "s' = leave_loop L s1"
          using ok chan_weaken [of N ?F1 is_idle s1 ?F is_idle] F(2) Cons.prems(3) False r
          by (simp_all add: round_ok_def)
        then show ?thesis using chan_leave by blast
      next
        case Stuck
        then show ?thesis using Cons.prems(3) False r by simp
      qed
    qed
  qed simp
  then show "chan_inv N (F - submitted_in (loop_events ws)) is_idle s'" "sd_active s' = []" by blast+
qed

end
