(* ===== verification/Batch_Assembly.thy ===== *)
theory Batch_Assembly
  imports Batch_Rounds
begin

text \<open>
  What a batch holds: it fits \<^verbatim>\<open>n_batch\<close>; the part of a task are consecutive positions of its own
  sequence, from the position the task is at; the logits a task samples from are those of its own
  last token.
\<close>

text \<open>The part a task adds, and the entries it will sample from.\<close>

definition part_of :: "slot_task \<Rightarrow> batch \<Rightarrow> bool" where
  "part_of k p \<longleftrightarrow> (\<forall>e\<in>set p. be_seq_id e = tk_slot_id k) \<and>
     (\<exists>start. map be_pos p = map (\<lambda>i. start + int i) [0..<length p])"

definition reads_own :: "batch \<Rightarrow> slot_task \<Rightarrow> bool" where
  "reads_own b k \<longleftrightarrow>
     (\<forall>i\<in>set (tk_spec_i_batch k) \<union> (if 0 \<le> tk_i_batch k then {tk_i_batch k} else {}).
        0 \<le> i \<and> i < int (length b) \<and> be_seq_id (b ! nat i) = tk_slot_id k \<and>
        be_logits (b ! nat i))"

lemma reads_own_append: "reads_own b k \<Longrightarrow> reads_own (b @ p) k"
  unfolding reads_own_def
proof
  fix i
  assume own: "\<forall>i\<in>set (tk_spec_i_batch k) \<union> (if 0 \<le> tk_i_batch k then {tk_i_batch k} else {}).
      0 \<le> i \<and> i < int (length b) \<and> be_seq_id (b ! nat i) = tk_slot_id k \<and> be_logits (b ! nat i)"
    and i: "i \<in> set (tk_spec_i_batch k) \<union> (if 0 \<le> tk_i_batch k then {tk_i_batch k} else {})"
  note o = bspec [OF own i]
  then have "nat i < length b" by linarith
  then have "(b @ p) ! nat i = b ! nat i" by (rule nth_append_left)
  with o show "0 \<le> i \<and> i < int (length (b @ p)) \<and> be_seq_id ((b @ p) ! nat i) = tk_slot_id k \<and>
      be_logits ((b @ p) ! nat i)"
    by simp
qed

lemma reads_own_frame:
  assumes "task_input k' = task_input k" "tk_spec_i_batch k' = tk_spec_i_batch k"
    "tk_i_batch k' = tk_i_batch k"
  shows "reads_own b k' = reads_own b k"
  using assms by (simp add: reads_own_def task_input_def)

lemma reads_own_nothing: "tk_spec_i_batch k = [] \<Longrightarrow> tk_i_batch k = - 1 \<Longrightarrow> reads_own b k"
  by (simp add: reads_own_def)

text \<open>One task: at most \<^verbatim>\<open>n_batch\<close> entries in all, and what it reads are its own.\<close>

definition adds_part :: "sched_config \<Rightarrow> handle \<Rightarrow> 'm scheduler \<Rightarrow> 'm scheduler \<Rightarrow> bool" where
  "adds_part cfg t s s' \<longleftrightarrow> (\<exists>p. sd_batch s' = sd_batch s @ p \<and> part_of (sd_tasks s' t) p \<and>
     (p \<noteq> [] \<longrightarrow> int (length (sd_batch s')) \<le> sc_n_batch cfg)) \<and>
     tk_slot_id (sd_tasks s' t) = tk_slot_id (sd_tasks s t) \<and>
     reads_own (sd_batch s') (sd_tasks s' t)"

lemma part_of_nil [simp]: "part_of k []"
  by (simp add: part_of_def)

lemma eval_media_batch: "sd_batch (snd (eval_media L cfg n t s)) = sd_batch s"
  by (induction n arbitrary: s)
     (simp_all add: snd_try_next eval_chunk_def Let_def split: option.splits prod.splits)

lemma adds_prompt:
  assumes "is_prepared t s"
  shows "adds_part cfg t s (add_prompt L cfg lim t s)"
proof (cases "prefill_chunk cfg lim (int (length (sd_batch s))) (sd_tasks s t) \<le> 0")
  case True
  then show ?thesis
    using assms reads_own_nothing
    by (auto simp: adds_part_def add_prompt_def Let_def is_prepared_def task_inv_def)
next
  case False
  let ?k = "sd_tasks s t" and ?n = "int (length (sd_batch s))"
  let ?c = "prefill_chunk cfg lim ?n ?k"
  let ?last = "tk_prompt_pos ?k + ?c \<ge> int (length (tk_prompt_tokens ?k))"
  let ?s' = "add_prompt L cfg lim t s"
  have c: "0 < ?c" "?c \<le> sc_n_batch cfg - ?n" using False prefill_chunk_bounds(2) by auto
  have b: "sd_batch ?s' = sd_batch s @ prompt_entries ?k ?c ?last"
    using False by (simp add: add_prompt_def Let_def)
  have k: "tk_slot_id (sd_tasks ?s' t) = tk_slot_id ?k" "tk_spec_i_batch (sd_tasks ?s' t) = []"
    "tk_i_batch (sd_tasks ?s' t) = (if ?last then ?n + ?c - 1 else - 1)"
    using False assms by (simp_all add: add_prompt_def Let_def is_prepared_def task_inv_def)
  have part: "part_of (sd_tasks ?s' t) (prompt_entries ?k ?c ?last)"
    unfolding part_of_def k
    by (auto simp: prompt_entries_def intro!: exI [of _ "tk_n_pos ?k"])
  have len: "length (prompt_entries ?k ?c ?last) = nat ?c" by (simp add: prompt_entries_def)
  have "reads_own (sd_batch ?s') (sd_tasks ?s' t)"
  proof (cases ?last)
    case True
    have n: "nat (?n + ?c - 1) = length (sd_batch s) + nat (?c - 1)" using c(1) by linarith
    have "nat (?c - 1) < nat ?c" using c(1) by simp
    then have "be_seq_id (sd_batch ?s' ! nat (?n + ?c - 1)) = tk_slot_id ?k"
      "be_logits (sd_batch ?s' ! nat (?n + ?c - 1))"
      unfolding b n nth_append_length_plus using c(1) True
      by (simp_all add: prompt_entries_def)
    then show ?thesis
      using k True c(1) len by (simp add: reads_own_def b)
  next
    case False
    then show ?thesis using k by (simp add: reads_own_nothing)
  qed
  then show ?thesis
    unfolding adds_part_def using b part len c k(1) by fastforce
qed

lemma adds_generation:
  assumes "is_prepared t s"
  shows "adds_part cfg t s (add_generation cfg t s)"
proof (cases "int (length (sd_batch s)) + decode_need (sd_tasks s t) > sc_n_batch cfg")
  case True
  then show ?thesis
    using assms reads_own_nothing
    by (auto simp: adds_part_def add_generation_def Let_def is_prepared_def task_inv_def)
next
  case False
  let ?k = "sd_tasks s t" and ?n = "int (length (sd_batch s))"
  let ?s' = "add_generation cfg t s"
  let ?d = "length (tk_spec_draft ?k)"
  have b: "sd_batch ?s' = sd_batch s @ generation_entries ?k"
    using False by (simp add: add_generation_def Let_def)
  have len: "length (generation_entries ?k) = Suc ?d" by (simp add: generation_entries_def)
  have e: "be_seq_id (sd_batch ?s' ! (length (sd_batch s) + i)) = tk_slot_id ?k \<and>
      be_logits (sd_batch ?s' ! (length (sd_batch s) + i))" if "i \<le> ?d" for i
    unfolding b nth_append_length_plus using that
    by (simp add: generation_entries_def del: upt_Suc)
  have ready: "tk_spec_i_batch ?k = []" "tk_i_batch ?k = - 1"
    using assms by (simp_all add: is_prepared_def task_inv_def)
  have k: "tk_slot_id (sd_tasks ?s' t) = tk_slot_id ?k"
    "set (tk_spec_i_batch (sd_tasks ?s' t)) \<union> (if 0 \<le> tk_i_batch (sd_tasks ?s' t)
       then {tk_i_batch (sd_tasks ?s' t)} else {}) \<subseteq> (\<lambda>i. ?n + int i) ` {..?d}"
    using False ready by (auto simp: add_generation_def Let_def simp del: upt_Suc)
  have part: "part_of (sd_tasks ?s' t) (generation_entries ?k)"
    unfolding part_of_def k(1)
    by (auto simp: generation_entries_def simp del: upt_Suc intro!: exI [of _ "tk_n_pos ?k"])
  have "reads_own (sd_batch ?s') (sd_tasks ?s' t)"
    unfolding reads_own_def
  proof
    fix i
    assume "i \<in> set (tk_spec_i_batch (sd_tasks ?s' t)) \<union> (if 0 \<le> tk_i_batch (sd_tasks ?s' t)
       then {tk_i_batch (sd_tasks ?s' t)} else {})"
    then obtain j where j: "i = ?n + int j" "j \<le> ?d" using k(2) by fastforce
    have "nat i = length (sd_batch s) + j" using j(1) by linarith
    then show "0 \<le> i \<and> i < int (length (sd_batch ?s')) \<and>
        be_seq_id (sd_batch ?s' ! nat i) = tk_slot_id (sd_tasks ?s' t) \<and>
        be_logits (sd_batch ?s' ! nat i)"
      using e [OF j(2)] j k(1) len b by simp
  qed
  then show ?thesis
    unfolding adds_part_def using b part len k(1) False by (fastforce simp: decode_need_def)
qed

lemma adds_batch_task:
  assumes "is_prepared t s"
  shows "adds_part cfg t s (snd (batch_task L cfg lim t s))"
proof -
  let ?e = "snd (eval_media L cfg (length (tk_prompt_tokens (sd_tasks s t))) t s)"
  have f: "task_frame (sd_tasks ?e t) = task_frame (sd_tasks s t)" by (rule eval_media_frame)
  have r: "is_prepared t ?e" by (rule ready_frame [OF f assms])
  have slot: "tk_slot_id (sd_tasks ?e t) = tk_slot_id (sd_tasks s t)"
    using f by (simp add: task_frame_def task_input_def)
  have same: "adds_part cfg t s s'" if "sd_batch s' = sd_batch s" "is_prepared t s'"
    "tk_slot_id (sd_tasks s' t) = tk_slot_id (sd_tasks s t)" for s'
    using that reads_own_nothing by (auto simp: adds_part_def is_prepared_def task_inv_def)
  have "adds_part cfg t ?e (add_prompt L cfg lim t ?e)" by (rule adds_prompt [OF r])
  then have 1: "adds_part cfg t s (add_prompt L cfg lim t ?e)"
    using slot by (simp add: adds_part_def eval_media_batch)
  have 2: "adds_part cfg t s ?e" by (rule same) (simp_all add: eval_media_batch r slot)
  have 3: "adds_part cfg t s s" "adds_part cfg t s (s\<lparr>sd_cancelled := x\<rparr>)"
    "adds_part cfg t s (s\<lparr>sd_stopped := x\<rparr>)" for x
    by (rule same; use assms in \<open>simp add: is_prepared_def\<close>)+
  show ?thesis
    using 1 2 3 adds_generation [OF assms] by (simp add: batch_task_def Let_def snd_try_next)
qed

text \<open>The whole batch: the parts of the tasks, in their order.\<close>

definition assembled :: "sched_config \<Rightarrow> handle list \<Rightarrow> batch \<Rightarrow> 'm scheduler \<Rightarrow> bool" where
  "assembled cfg ts b s \<longleftrightarrow>
     (\<exists>parts. sd_batch s = b @ concat parts \<and>
        list_all2 (\<lambda>t p. part_of (sd_tasks s t) p) ts parts \<and>
        (concat parts \<noteq> [] \<longrightarrow> int (length (sd_batch s)) \<le> sc_n_batch cfg)) \<and>
     (\<forall>t\<in>set ts. reads_own (sd_batch s) (sd_tasks s t))"

lemma assembled_nothing:
  assumes "\<forall>t\<in>set ts. is_prepared t s" "b = sd_batch s"
  shows "assembled cfg ts b s"
proof -
  have "list_all2 (\<lambda>t p. part_of (sd_tasks s t) p) ts (replicate (length ts) [])"
    by (simp add: list_all2_conv_all_nth)
  moreover have "concat (replicate (length ts) []) = ([] :: batch)" by (induction ts) simp_all
  ultimately show ?thesis
    using assms reads_own_nothing unfolding assembled_def is_prepared_def task_inv_def
    by (intro conjI exI [of _ "replicate (length ts) []"]) auto
qed

lemma assembled_for_each:
  assumes "distinct ts" "\<forall>t\<in>set ts. is_prepared t s"
  shows "assembled cfg ts (sd_batch s) (snd (for_each_task (batch_task L cfg lim) ts s))"
  using assms
proof (induction ts arbitrary: s)
  case Nil
  then show ?case by (simp add: assembled_nothing)
next
  case (Cons t ts)
  obtain r s1 where b: "batch_task L cfg lim t s = (r, s1)" by fastforce
  have o1: "only {t} s s1" using only_batch_task [of t s L cfg lim] b by simp
  obtain p where p: "sd_batch s1 = sd_batch s @ p" "part_of (sd_tasks s1 t) p"
    "p \<noteq> [] \<longrightarrow> int (length (sd_batch s1)) \<le> sc_n_batch cfg"
    "reads_own (sd_batch s1) (sd_tasks s1 t)"
    using adds_batch_task [of t s cfg L lim] Cons.prems(2) b by (auto simp: adds_part_def)
  have ready: "\<forall>u\<in>set ts. is_prepared u s1"
  proof
    fix u assume "u \<in> set ts"
    then have "u \<notin> {t}" "is_prepared u s" using Cons.prems by auto
    then show "is_prepared u s1" using of_viewD [OF views(3) only_view [OF o1]] by blast
  qed
  show ?case
  proof (cases r)
    case None
    let ?s' = "snd (for_each_task (batch_task L cfg lim) ts s1)"
    have o2: "only (set ts) s1 ?s'" by (rule only_for_each) (rule only_batch_task)
    have t: "sd_tasks ?s' t = sd_tasks s1 t" using only_tasks [OF o2] Cons.prems(1) by simp
    obtain parts where q: "sd_batch ?s' = sd_batch s1 @ concat parts"
      "list_all2 (\<lambda>t p. part_of (sd_tasks ?s' t) p) ts parts"
      "concat parts \<noteq> [] \<longrightarrow> int (length (sd_batch ?s')) \<le> sc_n_batch cfg"
      "\<forall>t\<in>set ts. reads_own (sd_batch ?s') (sd_tasks ?s' t)"
      using Cons.IH [of s1] Cons.prems(1) ready by (auto simp: assembled_def)
    have "reads_own (sd_batch ?s') (sd_tasks ?s' t)"
      using p(4) q(1) t by (simp add: reads_own_append)
    moreover have "int (length (sd_batch ?s')) \<le> sc_n_batch cfg" if "concat (p # parts) \<noteq> []"
      using that p(3) q(1,3) by (cases "concat parts = []") auto
    ultimately have "assembled cfg (t # ts) (sd_batch s) ?s'"
      unfolding assembled_def
      by (intro conjI exI [of _ "p # parts"]) (use p q t in auto)
    then show ?thesis using b None by simp
  next
    case (Some e)
    obtain parts where q: "sd_batch s1 = sd_batch s1 @ concat parts"
      "list_all2 (\<lambda>t p. part_of (sd_tasks s1 t) p) ts parts"
      "\<forall>t\<in>set ts. reads_own (sd_batch s1) (sd_tasks s1 t)"
      using assembled_nothing [OF ready refl, of cfg] unfolding assembled_def by blast
    then have "assembled cfg (t # ts) (sd_batch s) s1"
      unfolding assembled_def
      by (intro conjI exI [of _ "p # parts"]) (use p q in auto)
    then show ?thesis using b Some by simp
  qed
qed

text \<open>Tasks with sequences of their own: the positions of a sequence in the batch.\<close>

lemma filter_other_part:
  assumes "part_of k p" "tk_slot_id k \<noteq> seq"
  shows "filter (\<lambda>e. be_seq_id e = seq) p = []"
  using assms by (auto simp: part_of_def filter_empty_conv)

lemma filter_own_part:
  assumes "part_of k p"
  shows "filter (\<lambda>e. be_seq_id e = tk_slot_id k) p = p"
  using assms by (simp add: part_of_def)

lemma parts_of_sequence:
  assumes "list_all2 (\<lambda>t p. part_of (store t) p) ts parts"
    "distinct (map (\<lambda>t. tk_slot_id (store t)) ts)" "t \<in> set ts"
  shows "\<exists>p. part_of (store t) p \<and>
    filter (\<lambda>e. be_seq_id e = tk_slot_id (store t)) (concat parts) = p"
  using assms
proof (induction ts parts rule: list_all2_induct)
  case (Cons u us p ps)
  have none: "filter (\<lambda>e. be_seq_id e = tk_slot_id (store v)) (concat ps) = []"
    if "tk_slot_id (store v) \<notin> (\<lambda>t. tk_slot_id (store t)) ` set us" for v
    using Cons.hyps(2) that
    by (induction us ps rule: list_all2_induct) (auto simp: filter_other_part)
  show ?case
  proof (cases "t = u")
    case True
    then have "filter (\<lambda>e. be_seq_id e = tk_slot_id (store t)) (concat (p # ps)) = p"
      using none [of t] Cons.prems(1) Cons.hyps(1) by (simp add: filter_own_part)
    then show ?thesis using Cons.hyps(1) True by auto
  next
    case False
    then have t: "t \<in> set us" using Cons.prems(2) by simp
    then have "tk_slot_id (store u) \<noteq> tk_slot_id (store t)" using Cons.prems(1) by auto
    then show ?thesis
      using Cons.IH Cons.prems(1) t filter_other_part [OF Cons.hyps(1)] by simp
  qed
qed simp

end
