(* ===== verification/Batch_Progress.thy ===== *)
theory Batch_Progress
  imports Batch_Rounds
begin

text \<open>
  The loop makes progress. Without speculation and without the bounded pool, a round in which no
  other thread does anything either leaves the loop, settles a task, or brings one closer to its
  end: it takes in prompt tokens or generates a token. The work left in the active tasks decreases
  from round to round, so all of them are settled after as many rounds.
\<close>

section \<open>Work left\<close>

definition work_left :: "slot_task \<Rightarrow> nat" where
  "work_left k = 1 + nat (int (length (tk_prompt_tokens k)) - tk_prompt_pos k) +
     nat (max 1 (tk_max_tokens k) - tk_n_generated k)"

definition total_work :: "'m scheduler \<Rightarrow> nat" where
  "total_work s = (\<Sum>t\<leftarrow>sd_active s. work_left (sd_tasks s t))"

text \<open>A task made of text, as the callers submit it.\<close>

definition text_task :: "slot_task \<Rightarrow> bool" where
  "text_task k \<longleftrightarrow> tk_media_chunks k = [] \<and> tk_prompt_tokens k \<noteq> [] \<and>
     list_all (\<lambda>x. x \<noteq> LLAMA_TOKEN_NULL) (tk_prompt_tokens k) \<and> 0 \<le> tk_prompt_pos k \<and>
     (\<not> tk_initialized k \<longrightarrow> tk_prompt_pos k = 0)"

definition ahead :: "slot_task \<Rightarrow> slot_task \<Rightarrow> bool" where
  "ahead k k' \<longleftrightarrow> task_input k' = task_input k \<and> task_flags k' = task_flags k \<and>
     tk_prompt_pos k \<le> tk_prompt_pos k' \<and> tk_n_generated k \<le> tk_n_generated k' \<and>
     (tk_initialized k \<longrightarrow> tk_initialized k') \<and> (text_task k \<longrightarrow> text_task k')"

lemma ahead_refl [simp]: "ahead k k"
  by (simp add: ahead_def)

lemma ahead_trans: "ahead k k' \<Longrightarrow> ahead k' k'' \<Longrightarrow> ahead k k''"
  by (auto simp: ahead_def)

lemma ahead_work: "ahead k k' \<Longrightarrow> work_left k' \<le> work_left k"
  by (auto simp: ahead_def work_left_def task_input_def intro!: add_mono nat_mono)

lemma ahead_live: "ahead k k' \<Longrightarrow> is_live k' = is_live k"
  by (simp add: ahead_def task_flags_def is_live_def should_cancel_def)

definition all_ahead :: "'m scheduler \<Rightarrow> 'm scheduler \<Rightarrow> bool" where
  "all_ahead s s' \<longleftrightarrow> (\<forall>u. ahead (sd_tasks s u) (sd_tasks s' u))"

lemma all_ahead_refl [simp]: "all_ahead s s"
  by (simp add: all_ahead_def)

lemma all_ahead_trans: "all_ahead s s' \<Longrightarrow> all_ahead s' s'' \<Longrightarrow> all_ahead s s''"
  unfolding all_ahead_def using ahead_trans by blast

lemma all_ahead_put: "ahead (sd_tasks s t) (f (sd_tasks s t)) \<Longrightarrow> all_ahead s (put_task t f s)"
  by (simp add: all_ahead_def)

lemma all_ahead_machine [simp]: "all_ahead s (on_machine f s') = all_ahead s s'"
  by (simp add: all_ahead_def)

lemma all_ahead_fold:
  assumes "\<And>x s. x \<in> set xs \<Longrightarrow> all_ahead s (body x s)"
  shows "all_ahead s (fold body xs s)"
  using assms by (induction xs arbitrary: s) (auto intro: all_ahead_trans)

lemma all_ahead_for_each:
  assumes "\<And>t s. t \<in> set ts \<Longrightarrow> all_ahead s (snd (body t s))"
  shows "all_ahead s (snd (for_each_task body ts s))"
  using assms
proof (induction ts arbitrary: s)
  case (Cons t ts)
  obtain r s1 where b: "body t s = (r, s1)" by fastforce
  have "all_ahead s s1" using Cons.prems [of t s] b by simp
  then show ?case
    using Cons.IH [of s1] Cons.prems b by (auto split: option.split intro: all_ahead_trans)
qed simp

lemma ahead_text_fields:
  assumes "task_input k' = task_input k" "task_flags k' = task_flags k"
    "tk_prompt_pos k' = tk_prompt_pos k" "tk_initialized k' = tk_initialized k"
    "tk_n_generated k \<le> tk_n_generated k'"
  shows "ahead k k'"
  using assms by (simp add: ahead_def text_task_def task_input_def)

section \<open>No phase goes back\<close>

lemma begin_ahead: "all_ahead s (begin_task L cfg t s)"
  by (simp add: begin_task_def Let_def)
     (auto intro!: all_ahead_put ahead_text_fields simp: clear_speculation_def task_parts)

lemma push_ahead: "all_ahead s (push_event L t ev s)"
  by (auto simp: push_event_def Let_def all_ahead_def intro!: ahead_text_fields simp: task_parts)

lemma free_ahead: "all_ahead s (free_sampler L t s)"
  by (auto simp: free_sampler_def all_ahead_def intro!: ahead_text_fields simp: task_parts
        split: option.split)

lemma note_ahead: "all_ahead s (note_generation L t s)" "all_ahead s (note_prompt L t s)"
  by (auto simp: note_generation_def note_prompt_def all_ahead_def intro!: ahead_text_fields
        simp: task_parts)

lemma clear_ahead: "all_ahead s (clear_sequence L cfg n s)"
  by (simp add: all_ahead_def)

lemma drop_ahead: "all_ahead s (drop_active ts s)"
  by (simp add: all_ahead_def drop_active_def)

lemma finish_ahead:
  "all_ahead s (finish_cancelled L t s)" "all_ahead s (finish_stopped L t s)"
  "all_ahead s (finish_completed L t s)"
  unfolding finish_cancelled_def finish_stopped_def finish_completed_def
  by (rule all_ahead_trans [OF _ push_ahead], rule all_ahead_trans [OF _ free_ahead],
      rule all_ahead_trans [OF _ note_ahead(2)], rule note_ahead,
      rule all_ahead_trans [OF _ push_ahead], rule all_ahead_trans [OF _ free_ahead],
      rule note_ahead, rule all_ahead_trans [OF _ push_ahead], rule note_ahead)

lemma settle_flagged_ahead: "all_ahead s (settle_flagged L cfg s)"
proof -
  have f: "all_ahead s' (fold (\<lambda>t s'. clear_sequence L cfg (tk_slot_id (sd_tasks s' t)) s') ts s')"
    "all_ahead s' (fold (finish_cancelled L) ts s')" "all_ahead s' (fold (finish_stopped L) ts s')"
    for ts s'
    by (rule all_ahead_fold, rule clear_ahead finish_ahead)+
  show ?thesis
    unfolding settle_flagged_def Let_def
    by (rule all_ahead_trans [OF _ f(3)], rule all_ahead_trans [OF _ f(2)],
        rule all_ahead_trans [OF _ drop_ahead], rule f(1))
qed

lemma settle_completed_ahead: "all_ahead s (settle_completed L s)"
  unfolding settle_completed_def
  by (rule all_ahead_trans [OF drop_ahead all_ahead_fold]) (rule finish_ahead)

lemma decode_ahead: "all_ahead s (snd (decode_batch L s))"
  by (simp add: decode_batch_def Let_def)

lemma bookkeeping_ahead:
  "all_ahead s (record_contribution n e c s)" "all_ahead s (capture_replay L t s)"
  "all_ahead s (capture_checkpoint L cfg t s)" "all_ahead s (report_progress L cfg t s)"
proof -
  have r: "ahead k (record_prompt_decode a b e k)" for a b k
    by (rule ahead_text_fields) (simp_all add: record_prompt_decode_def Let_def task_parts)
  show "all_ahead s (record_contribution n e c s)"
    by (simp add: record_contribution_def all_ahead_put r)
  show "all_ahead s (capture_replay L t s)"
    by (auto simp: capture_replay_def intro!: all_ahead_put ahead_text_fields simp: task_parts)
  show "all_ahead s (capture_checkpoint L cfg t s)"
    unfolding capture_checkpoint_def
    by (rule all_ahead_put, rule ahead_text_fields) (simp_all add: task_parts split: option.split)
  show "all_ahead s (report_progress L cfg t s)"
    by (auto simp: report_progress_def Let_def all_ahead_def intro!: ahead_text_fields
          simp: task_parts)
qed

lemma init_initialized:
  "tk_initialized (sd_tasks (put_task t (\<lambda>k. k\<lparr>tk_initialized := True\<rparr>) s) t)"
  by simp

lemma prepare_ahead:
  assumes "text_task (sd_tasks s t)"
  shows "all_ahead s (prepare_task L cfg w n t s)"
proof -
  have o: "only {t} s (prepare_task L cfg w n t s)" by (rule only_prepare)
  let ?k = "sd_tasks s t" and ?k' = "sd_tasks (prepare_task L cfg w n t s) t"
  have f: "task_frame ?k' = task_frame ?k" by simp
  have "tk_prompt_pos ?k \<le> tk_prompt_pos ?k' \<and> (tk_initialized ?k \<longrightarrow> tk_initialized ?k') \<and>
      (\<not> tk_initialized ?k' \<longrightarrow> tk_prompt_pos ?k' = tk_prompt_pos ?k)"
  proof (cases "is_live ?k \<and> \<not> tk_initialized ?k")
    case True
    let ?s = "put_task t (\<lambda>k. (set_phase 2 k)\<lparr>tk_mtp_eligible :=
       w \<and> tk_media_chunks k = [] \<and> \<not> tk_capture_probabilities k\<rparr>) s"
    have "0 \<le> tk_prompt_pos (sd_tasks (init_task L cfg t ?s) t)"
      using starts_init [of ?s t L cfg] by (simp add: starts_within_def)
    then show ?thesis
      using True assms by (simp add: prepare_task_def Let_def text_task_def)
  next
    case False
    then show ?thesis by (auto simp: prepare_task_def Let_def)
  qed
  then have "ahead ?k ?k'"
    using task_frame_fields [OF f] assms
    by (auto simp: ahead_def task_output_def text_task_def task_input_def)
  moreover have "sd_tasks (prepare_task L cfg w n t s) u = sd_tasks s u" if "u \<noteq> t" for u
    using only_tasks [OF o] that by simp
  ultimately have "ahead (sd_tasks s u) (sd_tasks (prepare_task L cfg w n t s) u)" for u
    by (cases "u = t") simp_all
  then show ?thesis by (simp add: all_ahead_def)
qed

lemma eval_media_text:
  assumes "text_task (sd_tasks s t)"
  shows "eval_media L cfg n t s = (None, s)"
proof -
  have "\<not> at_media (sd_tasks s t)"
  proof
    assume a: "at_media (sd_tasks s t)"
    then have "nat (tk_prompt_pos (sd_tasks s t)) < length (tk_prompt_tokens (sd_tasks s t))"
      using assms by (simp add: at_media_def text_task_def nat_less_iff)
    then show False
      using a assms by (auto simp: at_media_def text_task_def list_all_length)
  qed
  then show ?thesis by (cases n) simp_all
qed

lemma batch_text:
  assumes "text_task (sd_tasks s t)" "is_live (sd_tasks s t) \<Longrightarrow> tk_initialized (sd_tasks s t)"
  shows "all_ahead s (snd (batch_task L cfg lim t s))" "fst (batch_task L cfg lim t s) = None"
proof -
  have p: "all_ahead s (add_prompt L cfg lim t s)" if "tk_initialized (sd_tasks s t)"
    using that by (auto simp: all_ahead_def add_prompt_def Let_def ahead_def text_task_def task_parts)
  have g: "all_ahead s (add_generation cfg t s)"
    by (auto simp: all_ahead_def add_generation_def Let_def intro!: ahead_text_fields
          simp: task_parts)
  have c: "all_ahead s (s\<lparr>sd_cancelled := x\<rparr>)" "all_ahead s (s\<lparr>sd_stopped := x\<rparr>)" for x
    by (simp_all add: all_ahead_def)
  show "all_ahead s (snd (batch_task L cfg lim t s))" "fst (batch_task L cfg lim t s) = None"
    using p g c assms(2)
    by (simp_all add: batch_task_def Let_def eval_media_text [OF assms(1)] try_next_def is_live_def)
qed

lemma sample_ahead: "all_ahead s (sample_task L cfg t s)"
proof -
  have c: "all_ahead s' (complete_task L t s')" for s'
    unfolding complete_task_def Let_def using free_ahead [of s' L t] by (simp add: all_ahead_def)
  have e: "all_ahead s' (emit_token L t ev s')" for s' ev
  proof -
    have "all_ahead s' (complete_task L t (push_event L t ev s'))"
      by (rule all_ahead_trans [OF push_ahead c])
    moreover have "all_ahead s' (put_task t (\<lambda>k. k\<lparr>tk_last_token := ev_id ev,
        tk_n_generated := tk_n_generated k + 1\<rparr>) (push_event L t ev s'))"
      by (rule all_ahead_trans [OF push_ahead], rule all_ahead_put, rule ahead_text_fields)
         (simp_all add: task_parts)
    ultimately show ?thesis using c by (simp add: emit_token_def Let_def)
  qed
  have b: "all_ahead s (begin_generation L t s)"
    by (auto simp: begin_generation_def all_ahead_def intro!: ahead_text_fields simp: task_parts)
  have g: "all_ahead s' (enter_generation L cfg x t s')" for x s'
    by (auto simp: enter_generation_def Let_def all_ahead_def intro!: ahead_text_fields
          simp: task_parts)
  have t: "all_ahead s' (snd (sample_token L t s'))" for s'
    by (simp add: all_ahead_def sample_token_state)
  have "all_ahead s (emit_token L t (fst (sample_token L t s')) (enter_generation L cfg x t
      (snd (sample_token L t s'))))" if "all_ahead s s'" for x s'
    by (rule all_ahead_trans [OF that], rule all_ahead_trans [OF t], rule all_ahead_trans [OF g e])
  then show ?thesis
    using b by (simp add: sample_task_def Let_def case_prod_beta)
qed

section \<open>Loops over tasks in good state\<close>

lemma fold_ahead_of:
  assumes "distinct ts" "\<And>t s. only {t} s (body t s)" "of_view P"
    and "\<And>t s. P t s \<Longrightarrow> all_ahead s (body t s)" "\<forall>t\<in>set ts. P t s"
  shows "all_ahead s (fold body ts s)"
  using assms(1,5)
proof (induction ts arbitrary: s)
  case (Cons t ts)
  have "\<forall>u\<in>set ts. P u (body t s)"
  proof
    fix u assume "u \<in> set ts"
    then have "u \<notin> {t}" "P u s" using Cons.prems by auto
    then show "P u (body t s)" using of_viewD [OF assms(3) only_view [OF assms(2)]] by blast
  qed
  then show ?case
    using Cons.IH [of "body t s"] Cons.prems assms(4) all_ahead_trans by fastforce
qed simp

lemma for_each_of:
  assumes "distinct ts" "\<And>t s. only {t} s (snd (body t s))" "of_view P"
    and "\<And>t s. P t s \<Longrightarrow> all_ahead s (snd (body t s)) \<and> fst (body t s) = None"
    and "\<forall>t\<in>set ts. P t s"
  shows "all_ahead s (snd (for_each_task body ts s)) \<and> fst (for_each_task body ts s) = None"
  using assms(1,5)
proof (induction ts arbitrary: s)
  case (Cons t ts)
  obtain r s1 where b: "body t s = (r, s1)" by fastforce
  have t: "all_ahead s s1" "r = None" using assms(4) [of t s] Cons.prems(2) b by auto
  have o: "only {t} s s1" using assms(2) [of t s] b by simp
  have "\<forall>u\<in>set ts. P u s1"
  proof
    fix u assume "u \<in> set ts"
    then have "u \<notin> {t}" "P u s" using Cons.prems by auto
    then show "P u s1" using of_viewD [OF assms(3) only_view [OF o]] by blast
  qed
  then show ?case
    using Cons.IH [of s1] Cons.prems(1) t b all_ahead_trans by fastforce
qed simp

lemma for_each_identity:
  assumes "\<And>t. t \<in> set ts \<Longrightarrow> body t s = (None, s)"
  shows "for_each_task body ts s = (None, s)"
  using assms by (induction ts) simp_all

lemma work_decreases:
  assumes "distinct xs" "distinct ys" "set ys \<subseteq> set xs"
    and "\<And>t. t \<in> set ys \<Longrightarrow> f' t \<le> (f t :: nat)" "\<And>t. 0 < f t"
    and "t0 \<in> set xs" "t0 \<in> set ys \<Longrightarrow> f' t0 < f t0"
  shows "(\<Sum>t\<leftarrow>ys. f' t) < (\<Sum>t\<leftarrow>xs. f t)"
proof -
  have x: "(\<Sum>t\<leftarrow>xs. f t) = (\<Sum>t\<in>set xs. f t)" "(\<Sum>t\<leftarrow>ys. f' t) = (\<Sum>t\<in>set ys. f' t)"
    using assms(1,2) by (simp_all add: sum_list_distinct_conv_sum_set)
  show ?thesis
  proof (cases "t0 \<in> set ys")
    case True
    have "(\<Sum>t\<in>set ys. f' t) < (\<Sum>t\<in>set ys. f t)"
      by (rule sum_strict_mono_ex1) (use assms(4,7) True in auto)
    also have "\<dots> \<le> (\<Sum>t\<in>set xs. f t)"
      by (rule sum_mono2) (use assms(3) in auto)
    finally show ?thesis by (simp add: x)
  next
    case False
    have "(\<Sum>t\<in>set ys. f' t) \<le> (\<Sum>t\<in>set ys. f t)" by (rule sum_mono) (rule assms(4))
    also have "\<dots> < (\<Sum>t\<in>insert t0 (set ys). f t)" using False assms(5) by simp
    also have "\<dots> \<le> (\<Sum>t\<in>set xs. f t)"
      by (rule sum_mono2) (use assms(3,6) in auto)
    finally show ?thesis by (simp add: x)
  qed
qed

section \<open>The head of the batch\<close>

text \<open>The first task of the order can always contribute.\<close>

lemma first_contributes:
  assumes "prepare_batch_order store ts n turn = (lim, order)" "ts \<noteq> []" "1 \<le> n"
    and "\<forall>t\<in>set ts. is_live (store t)"
  obtains t rest where "order = t # rest" "tk_prompt_done (store t) \<or> 1 \<le> lim"
proof -
  let ?r = "rotate (turn mod length ts) ts"
  let ?d = "filter (\<lambda>t. tk_prompt_done (store t)) ?r"
  let ?p = "filter (\<lambda>t. \<not> tk_prompt_done (store t)) ?r"
  let ?dt = "decode_tokens store ?r" and ?pc = "prompt_count store ?r"
  let ?av = "prefill_available n ?dt ?pc"
  define d' where "d' = (if ?dt \<le> n then by_slot store ?d else ?d)"
  define p' where "p' = (if ?pc > 0 \<and> ?av \<ge> ?pc \<and> ?av mod ?pc = 0 then by_slot store ?p else ?p)"
  have o: "order = d' @ p'" "lim = (if ?pc > 0 then (?av + ?pc - 1) div ?pc else 0)"
    using assms(1,2) by (auto simp: prepare_batch_order_def Let_def d'_def p'_def)
  have sets: "set d' = {t \<in> set ts. tk_prompt_done (store t)}"
    "set p' = {t \<in> set ts. \<not> tk_prompt_done (store t)}"
    by (auto simp: d'_def p'_def by_slot_def)
  show thesis
  proof (cases "d' = []")
    case False
    then obtain t rest where "d' = t # rest" by (cases d') auto
    moreover have "tk_prompt_done (store t)" using sets(1) \<open>d' = t # rest\<close> by auto
    ultimately show thesis using that o(1) by simp
  next
    case True
    then have np: "\<forall>t\<in>set ts. \<not> tk_prompt_done (store t)" using sets(1) by auto
    then have "?dt = 0" "?pc = int (length ts)"
      using assms(4) by (simp_all add: decode_tokens_def prompt_count_def filter_False filter_True)
    moreover have "0 < length ts" using assms(2) by simp
    ultimately have av: "?av = n" "0 < ?pc" using assms(3) by (simp_all add: prefill_available_def)
    have "?pc \<le> ?av + ?pc - 1" using av assms(3) by simp
    then have "1 \<le> lim" using o(2) av(2) by (simp add: pos_imp_zdiv_pos_iff int_one_le_iff_zero_less)
    moreover obtain t rest where "p' = t # rest"
      using sets(2) np assms(2) by (cases p') (auto simp: neq_Nil_conv)
    ultimately show thesis using that o(1) True by simp
  qed
qed

text \<open>A live task of the round, before and after it had its turn.\<close>

definition on_turn :: "handle \<Rightarrow> 'm scheduler \<Rightarrow> bool" where
  "on_turn t s \<longleftrightarrow> text_task (sd_tasks s t) \<and>
     (is_live (sd_tasks s t) \<longrightarrow> tk_initialized (sd_tasks s t)) \<and>
     tk_spec_draft (sd_tasks s t) = [] \<and> tk_spec_i_batch (sd_tasks s t) = [] \<and>
     (tk_prompt_done (sd_tasks s t) \<or>
      tk_prompt_pos (sd_tasks s t) < int (length (tk_prompt_tokens (sd_tasks s t))))"

definition had_turn :: "handle \<Rightarrow> 'm scheduler \<Rightarrow> bool" where
  "had_turn t s \<longleftrightarrow> tk_spec_i_batch (sd_tasks s t) = [] \<and>
     (tk_prompt_done (sd_tasks s t) \<or> 0 \<le> tk_i_batch (sd_tasks s t) \<or>
      tk_prompt_pos (sd_tasks s t) < int (length (tk_prompt_tokens (sd_tasks s t))))"

lemma turn_views [simp]: "of_view on_turn" "of_view had_turn"
  by (simp_all add: of_view_def view_def on_turn_def had_turn_def)

lemma batch_turn:
  assumes "on_turn t s" "\<not> sc_bounded_pool cfg"
  shows "had_turn t (snd (batch_task L cfg lim t s))"
proof -
  have m: "eval_media L cfg n t s = (None, s)" for n
    by (rule eval_media_text) (use assms(1) in \<open>simp add: on_turn_def\<close>)
  have "had_turn t (add_prompt L cfg lim t s)"
    using assms(1) prefill_chunk_bounds(1) [of cfg lim "int (length (sd_batch s))" "sd_tasks s t"]
    by (auto simp: had_turn_def add_prompt_def Let_def on_turn_def)
  moreover have "had_turn t (add_generation cfg t s)" if "tk_prompt_done (sd_tasks s t)"
    using assms(1) that by (simp add: had_turn_def add_generation_def Let_def on_turn_def)
  moreover have "had_turn t s" "had_turn t (s\<lparr>sd_cancelled := x\<rparr>)" "had_turn t (s\<lparr>sd_stopped := x\<rparr>)"
    for x using assms(1) by (auto simp: had_turn_def on_turn_def)
  ultimately show ?thesis
    using assms(2) by (simp add: batch_task_def Let_def m try_next_def)
qed

text \<open>The first of the order moves: it takes in tokens, or it is in the batch.\<close>

definition moves :: "slot_task \<Rightarrow> slot_task \<Rightarrow> bool" where
  "moves k k' \<longleftrightarrow> tk_prompt_pos k < tk_prompt_pos k' \<and>
       tk_prompt_pos k < int (length (tk_prompt_tokens k)) \<or>
     tk_prompt_done k \<and> 0 \<le> tk_i_batch k'"

lemma first_moves:
  assumes "on_turn t s" "is_live (sd_tasks s t)" "\<not> sc_bounded_pool cfg" "1 \<le> sc_n_batch cfg"
    and "sd_batch s = []" "tk_prompt_done (sd_tasks s t) \<or> 1 \<le> lim" "\<not> sc_has_draft cfg"
  shows "moves (sd_tasks s t) (sd_tasks (snd (batch_task L cfg lim t s)) t)"
proof -
  let ?k = "sd_tasks s t"
  have m: "eval_media L cfg n t s = (None, s)" for n
    by (rule eval_media_text) (use assms(1) in \<open>simp add: on_turn_def\<close>)
  have live: "\<not> should_cancel ?k" "\<not> tk_caller_stop ?k" using assms(2) by (simp_all add: is_live_def)
  show ?thesis
  proof (cases "tk_prompt_done ?k")
    case True
    then have "snd (batch_task L cfg lim t s) = add_generation cfg t s"
      using live assms(3) by (simp add: batch_task_def Let_def)
    then show ?thesis
      using True assms(1,4,5) by (simp add: moves_def add_generation_def Let_def on_turn_def decode_need_def)
  next
    case False
    then have e: "snd (batch_task L cfg lim t s) = add_prompt L cfg lim t s"
      using live assms(3) by (simp add: batch_task_def Let_def m try_next_def)
    have pos: "tk_prompt_pos ?k < int (length (tk_prompt_tokens ?k))"
      using assms(1) False by (simp add: on_turn_def)
    have "tk_media_chunks ?k = []" using assms(1) by (simp add: on_turn_def text_task_def)
    then have "0 < prefill_chunk cfg lim 0 ?k"
      using pos assms(4,6,7) False by (simp add: prefill_chunk_def Let_def)
    then show ?thesis
      using pos assms(5) by (simp add: e moves_def add_prompt_def Let_def)
  qed
qed

lemma moves_work:
  assumes "moves k k'" "ahead k k'" "ahead k' k''"
    and "tk_prompt_pos k < tk_prompt_pos k' \<and>
           tk_prompt_pos k < int (length (tk_prompt_tokens k)) \<or>
         tk_n_generated k < tk_n_generated k''"
    and "gen_inv k"
  shows "work_left k'' < work_left k"
proof -
  have a: "ahead k k''" by (rule ahead_trans [OF assms(2,3)])
  have "tk_prompt_pos k < tk_prompt_pos k'' \<and> tk_prompt_pos k < int (length (tk_prompt_tokens k)) \<or>
      tk_n_generated k < tk_n_generated k'' \<and> tk_n_generated k < max 1 (tk_max_tokens k)"
    using assms(3,4,5) by (auto simp: ahead_def gen_inv_def split: if_splits)
  then show ?thesis
    using a by (auto simp: ahead_def work_left_def task_input_def)
qed

section \<open>A quiet round\<close>

abbreviation nobody :: "nat \<Rightarrow> outside_event list" where
  "nobody \<equiv> \<lambda>_. []"

definition plain_config :: "sched_config \<Rightarrow> bool" where
  "plain_config cfg \<longleftrightarrow> \<not> sc_has_speculative cfg \<and> \<not> sc_has_draft cfg \<and>
     \<not> sc_bounded_pool cfg \<and> 1 \<le> sc_n_batch cfg"

definition in_progress :: "slot_task \<Rightarrow> bool" where
  "in_progress k \<longleftrightarrow> text_task k \<and>
     (tk_prompt_done k \<or> tk_prompt_pos k < int (length (tk_prompt_tokens k)))"

lemma outside_none [simp]: "outside_all L [] s = s"
  by (simp add: outside_all_def)

text \<open>The state in which the batch is built: the tasks of the round and what they are ready for.\<close>

lemma quiet_gather:
  assumes "chan_inv N F is_idle s" "\<forall>t\<in>set (sd_active s). in_progress (sd_tasks s t)"
    "plain_config cfg"
  obtains runnable s2 where "gather_tasks L cfg nobody s = (sd_active s, runnable, False, s2)"
    "runnable = filter (\<lambda>t. is_live (sd_tasks s t)) (sd_active s)"
    "chan_inv N F is_prepared s2" "sd_active s2 = sd_active s" "all_ahead s s2"
    "\<forall>t\<in>set (sd_active s). on_turn t s2"
    "\<forall>t. tk_prompt_done (sd_tasks s2 t) = tk_prompt_done (sd_tasks s t)"
proof -
  let ?b = "fold (begin_task L cfg) (sd_active s) s"
  let ?run = "filter (\<lambda>t. is_live (sd_tasks s t)) (sd_active s)"
  let ?p = "prepare_task L cfg False (length ?run)"
  let ?s2 = "fold ?p ?run ?b"
  have d: "distinct (sd_active s)" using assms(1) by (simp add: chan_inv_def)
  have o: "only (set (sd_active s)) s ?b"
    using only_fold [of "sd_active s" "\<lambda>t. t" "begin_task L cfg" s] by (simp add: only_begin)
  have ab: "sd_active ?b = sd_active s" using only_shares [OF o] by (simp add: shares_def)
  have ah: "all_ahead s ?b" by (rule all_ahead_fold) (rule begin_ahead)
  have live: "is_live (sd_tasks ?b t) = is_live (sd_tasks s t)" for t
    using ah ahead_live by (simp add: all_ahead_def)
  have cb: "chan_inv N F is_prepared ?b" by (rule chan_ready_from_idle [OF assms(1)])
  have win: "mtp_window cfg r s' = False" for r s'
    using assms(3) by (simp add: mtp_window_def adaptive_mtp_enabled_def plain_config_def)
  have g: "gather_tasks L cfg nobody s = (sd_active s, ?run, False, ?s2)"
    using assms(3) by (simp add: gather_tasks_def Let_def admission_def plain_config_def live win)
  have "\<forall>t\<in>set (sd_active s). tk_spec_draft (sd_tasks ?b t) = [] \<and>
      in_progress (sd_tasks ?b t)"
  proof (rule fold_tasks [where h = "\<lambda>t. t" and P = "\<lambda>t s. in_progress (sd_tasks s t)"])
    show "tk_spec_draft (sd_tasks (begin_task L cfg t s') t) = [] \<and>
        in_progress (sd_tasks (begin_task L cfg t s') t)" if "in_progress (sd_tasks s' t)" for t s'
      using that by (simp add: begin_task_def Let_def clear_speculation_def in_progress_def text_task_def)
  qed (use d assms(2) in \<open>simp_all add: only_begin of_view_def view_def\<close>)
  then have b: "\<forall>t\<in>set (sd_active s). tk_spec_draft (sd_tasks ?b t) = [] \<and>
      tk_spec_i_batch (sd_tasks ?b t) = [] \<and> in_progress (sd_tasks ?b t)"
    using cb ab by (auto simp: chan_inv_def is_prepared_def)
  let ?P = "\<lambda>t s. tk_spec_draft (sd_tasks s t) = [] \<and> tk_spec_i_batch (sd_tasks s t) = [] \<and>
    in_progress (sd_tasks s t)"
  have prep: "on_turn t (?p t s')" if "?P t s'" for t s'
  proof -
    have a: "ahead (sd_tasks s' t) (sd_tasks (?p t s') t)"
      using prepare_ahead [of s' t] that by (simp add: all_ahead_def in_progress_def)
    have f: "task_frame (sd_tasks (?p t s') t) = task_frame (sd_tasks s' t)" by simp
    have i: "is_live (sd_tasks s' t) \<longrightarrow> tk_initialized (sd_tasks (?p t s') t)"
      by (simp add: prepare_task_def Let_def)
    have "tk_prompt_pos (sd_tasks (?p t s') t) < int (length (tk_prompt_tokens (sd_tasks s' t)))"
      if "\<not> tk_prompt_done (sd_tasks s' t)"
    proof (cases "is_live (sd_tasks s' t) \<and> \<not> tk_initialized (sd_tasks s' t)")
      case True
      let ?s = "put_task t (\<lambda>k. (set_phase 2 k)\<lparr>tk_mtp_eligible :=
         False \<and> tk_media_chunks k = [] \<and> \<not> tk_capture_probabilities k\<rparr>) s'"
      have "tk_prompt_pos (sd_tasks (init_task L cfg t ?s) t) \<le> cached_prefix (sd_tasks ?s t)"
        using starts_init [of ?s t L cfg] by (simp add: starts_within_def)
      also have "\<dots> < int (length (tk_prompt_tokens (sd_tasks ?s t)))"
        by (rule cached_prefix_bounds(3))
           (use \<open>?P t s'\<close> in \<open>simp add: in_progress_def text_task_def set_phase_def\<close>)
      finally show ?thesis using True by (simp add: prepare_task_def Let_def set_phase_def)
    next
      case False
      then show ?thesis
        using \<open>?P t s'\<close> that by (auto simp: prepare_task_def Let_def in_progress_def)
    qed
    then show ?thesis
      using that a i task_frame_fields [OF f] ahead_live [OF a]
      by (auto simp: on_turn_def ahead_def in_progress_def task_output_def task_draft_def
            task_input_def)
  qed
  have vP: "of_view ?P" by (simp add: of_view_def view_def)
  have dr: "distinct ?run" using d by simp
  have turn_run: "\<forall>t\<in>set ?run. on_turn t ?s2"
    by (rule fold_tasks [where h = "\<lambda>t. t" and P = ?P])
       (use dr b prep vP in \<open>simp_all add: only_prepare\<close>)
  have o2: "only (set ?run) ?b ?s2"
    using only_fold [of ?run "\<lambda>t. t" ?p ?b] by (simp add: only_prepare)
  have turn: "\<forall>t\<in>set (sd_active s). on_turn t ?s2"
  proof
    fix t assume t: "t \<in> set (sd_active s)"
    show "on_turn t ?s2"
    proof (cases "t \<in> set ?run")
      case True
      then show ?thesis using turn_run by blast
    next
      case False
      have "on_turn t ?b"
        using b t False live by (simp add: on_turn_def in_progress_def)
      then show ?thesis using of_viewD [OF turn_views(1) only_view [OF o2 False]] by blast
    qed
  qed
  have ah2: "all_ahead ?b ?s2"
    by (rule fold_ahead_of [OF dr _ vP])
       (use b in \<open>auto simp: only_prepare in_progress_def intro!: prepare_ahead\<close>)
  have c2: "chan_inv N F is_prepared ?s2"
    by (rule chan_prepare [OF cb dr]) (simp add: ab)
  have a2: "sd_active ?s2 = sd_active s" using only_shares [OF o2] ab by (simp add: shares_def)
  have "tk_prompt_done (sd_tasks ?s2 t) = tk_prompt_done (sd_tasks s t)" for t
  proof -
    have "tk_prompt_done (sd_tasks (fold (begin_task L cfg) ts s') t) =
        tk_prompt_done (sd_tasks s' t)" for ts s'
      by (induction ts arbitrary: s')
         (simp_all add: begin_task_def Let_def clear_speculation_def)
    moreover have "tk_prompt_done (sd_tasks (fold ?p ts s') t) = tk_prompt_done (sd_tasks s' t)"
      for ts s'
    proof (induction ts arbitrary: s')
      case (Cons u ts)
      have "task_frame (sd_tasks (?p u s') t) = task_frame (sd_tasks s' t)" by simp
      then have "tk_prompt_done (sd_tasks (?p u s') t) = tk_prompt_done (sd_tasks s' t)"
        by (simp add: task_frame_def task_output_def)
      then show ?case using Cons.IH by simp
    qed simp
    ultimately show ?thesis by simp
  qed
  then show thesis
    using that [OF g refl c2 a2 all_ahead_trans [OF ah ah2] turn] by simp
qed

text \<open>The batch, and what the flagged tasks leave of it.\<close>

lemma quiet_build:
  assumes "chan_inv N F is_prepared s" "\<forall>t\<in>set tasks. on_turn t s" "plain_config cfg"
    and "tasks = sd_active s" "runnable = filter (\<lambda>t. is_live (sd_tasks s t)) tasks"
  obtains ordered s' where "build_batch L cfg nobody tasks runnable s = (ordered, None, s')"
    "chan_inv N F (is_built (set ordered)) s'" "distinct ordered" "set ordered = set tasks"
    "sd_active s' = sd_active s" "all_ahead s s'" "\<forall>t\<in>set tasks. had_turn t s'"
    "sd_batch s' = [] \<Longrightarrow> \<forall>t. tk_i_batch (sd_tasks s' t) = tk_i_batch (sd_tasks s t)"
    "sd_completed s' = []" "distinct (sd_cancelled s' @ sd_stopped s')" "listed s' \<subseteq> set tasks"
    "runnable \<noteq> [] \<Longrightarrow> \<exists>t\<in>set runnable. moves (sd_tasks s t) (sd_tasks s' t)"
    "\<forall>t\<in>set tasks. t \<in> listed s' \<longleftrightarrow> \<not> is_live (sd_tasks s t)"
proof -
  obtain lim ordered s2 where o: "order_tasks cfg tasks runnable s = (lim, ordered, s2)"
    by (metis prod_cases3)
  have d: "distinct tasks" "distinct runnable" "set runnable \<subseteq> set tasks"
    using assms(1,4,5) by (auto simp: chan_inv_def)
  note of = order_facts [OF o d]
  have c2: "chan_inv N F is_unlisted s2" by (rule chan_order [OF assms(1) o d])
  have turn2: "\<forall>t\<in>set ordered. on_turn t s2" using assms(2) of(2,4) by (simp add: on_turn_def)
  let ?e = "for_each_task (batch_task L cfg lim) ordered s2"
  let ?s' = "snd ?e"
  have step: "all_ahead s' (snd (batch_task L cfg lim t s')) \<and> fst (batch_task L cfg lim t s') = None"
    if "on_turn t s'" for t s'
    using batch_text [of s' t] that by (simp add: on_turn_def)
  have run: "all_ahead s2 ?s' \<and> fst ?e = None"
    by (rule for_each_of [OF of(1) _ turn_views(1)]) (use step turn2 only_batch_task in auto)
  have e: "build_batch L cfg nobody tasks runnable s = (ordered, None, ?s')"
    using run by (simp add: build_batch_def o) (metis prod.collapse)
  have sub: "set ordered \<subseteq> set (sd_active s2)" using of(2,3) assms(4) by simp
  have built: "chan_inv N F (is_built (set ordered)) ?s'"
    by (rule chan_batch [OF c2 of(1) sub order.refl])
  have o2: "only (set ordered) s2 ?s'" by (rule only_for_each) (rule only_batch_task)
  have had: "\<forall>t\<in>set ordered. had_turn t ?s'"
  proof -
    have "\<forall>t\<in>set ordered. had_turn t ?s' \<or> fst ?e \<noteq> None \<and> on_turn t ?s'"
    proof (rule for_each_tasks [OF of(1) _ turn_views _ turn2])
      show "had_turn t (snd (batch_task L cfg lim t s'))" if "on_turn t s'" for t s'
        by (rule batch_turn [OF that]) (use assms(3) in \<open>simp add: plain_config_def\<close>)
    qed (rule only_batch_task)
    then show ?thesis using run by simp
  qed
  have none: "sd_cancelled s2 = []" "sd_stopped s2 = []" using of(5,6) by simp_all
  note lists = for_each_batch_lists [OF of(1), of s2 L cfg lim]
  have flagged: "\<forall>t\<in>set ordered. t \<in> listed ?s' \<longleftrightarrow> \<not> is_live (sd_tasks s t)"
  proof -
    let ?P = "\<lambda>t s'. on_turn t s' \<and> t \<notin> listed s' \<and> is_live (sd_tasks s' t) = is_live (sd_tasks s t)"
    let ?Q = "\<lambda>t s'. t \<in> listed s' \<longleftrightarrow> \<not> is_live (sd_tasks s t)"
    have "\<forall>t\<in>set ordered. ?Q t ?s' \<or> fst ?e \<noteq> None \<and> ?P t ?s'"
    proof (rule for_each_tasks [OF of(1)])
      show "of_view ?P" "of_view ?Q"
        by (auto simp: of_view_def view_def listed_def on_turn_def)
      show "only {t} s' (snd (batch_task L cfg lim t s'))" for t s' by (rule only_batch_task)
      show "\<forall>t\<in>set ordered. ?P t s2" using turn2 none of(4) by (simp add: listed_def)
      fix t and s' :: "'a scheduler"
      assume P: "?P t s'"
      have m: "eval_media L cfg n t s' = (None, s')" for n
        by (rule eval_media_text) (use P in \<open>simp add: on_turn_def\<close>)
      have l: "listed (add_prompt L cfg lim t s') = listed s'"
        "listed (add_generation cfg t s') = listed s'"
        by (simp_all add: listed_def add_prompt_def add_generation_def Let_def)
      have "\<not> sc_bounded_pool cfg" using assms(3) by (simp add: plain_config_def)
      then show "?Q t (snd (batch_task L cfg lim t s'))"
        using P by (auto simp: batch_task_def Let_def m try_next_def l is_live_def)
          (auto simp: listed_def)
    qed
    then show ?thesis using run by simp
  qed
  have moved: "\<exists>t\<in>set runnable. moves (sd_tasks s t) (sd_tasks ?s' t)" if nr: "runnable \<noteq> []"
  proof -
    obtain order where p: "prepare_batch_order (sd_tasks s) runnable (sc_n_batch cfg)
        (sd_batch_turn s) = (lim, order)" "ordered = order @ filter (\<lambda>t. t \<notin> set order) tasks"
      "sd_batch s2 = []"
      using o by (auto simp: order_tasks_def split: prod.splits)
    have n: "1 \<le> sc_n_batch cfg" "\<forall>t\<in>set runnable. is_live (sd_tasks s t)"
      using assms(3,5) by (auto simp: plain_config_def)
    obtain t rest where t: "order = t # rest" "tk_prompt_done (sd_tasks s t) \<or> 1 \<le> lim"
      by (rule first_contributes [OF p(1) nr n])
    then obtain rest' where o1: "ordered = t # rest'" using p(2) by simp
    have tr: "t \<in> set runnable"
      using t(1) mset_eq_setD [OF mset_order [OF p(1)]] by auto
    obtain r s3 where b: "batch_task L cfg lim t s2 = (r, s3)" by fastforce
    have on: "on_turn t s2" using turn2 o1 by simp
    have mv: "moves (sd_tasks s t) (sd_tasks s3 t)"
      using first_moves [of t s2 cfg lim L] on n tr assms(3) p(3) t(2) of(4) b
      by (simp add: plain_config_def)
    have "r = None" using step [OF on] b by simp
    then have e1: "?e = for_each_task (batch_task L cfg lim) rest' s3" using o1 b by simp
    have "only (set rest') s3 ?s'" unfolding e1 by (rule only_for_each) (rule only_batch_task)
    then have "sd_tasks ?s' t = sd_tasks s3 t" using only_tasks of(1) o1 by fastforce
    then show ?thesis using mv tr by (intro bexI [of _ t]) simp_all
  qed
  show thesis
  proof (rule that [OF e built of(1,2)])
    show "sd_active ?s' = sd_active s" using only_shares [OF o2] of(3) by (simp add: shares_def)
    show "all_ahead s ?s'" using run of(4) by (simp add: all_ahead_def)
    show "\<forall>t. tk_i_batch (sd_tasks ?s' t) = tk_i_batch (sd_tasks s t)" if "sd_batch ?s' = []"
      using batch_empty [of L cfg lim ordered s2] that of(4) by simp
    show "sd_completed ?s' = []" "distinct (sd_cancelled ?s' @ sd_stopped ?s')"
      "listed ?s' \<subseteq> set tasks"
      using lists none of(2,7) by (simp_all add: listed_def)
  qed (use had moved flagged of(2) in auto)
qed

text \<open>The rest of the round.\<close>

lemma settle_flagged_tasks:
  assumes "t \<notin> listed s"
  shows "sd_tasks (settle_flagged L cfg s) t = sd_tasks s t"
proof -
  let ?s1 = "fold (\<lambda>t s'. clear_sequence L cfg (tk_slot_id (sd_tasks s' t)) s') (sd_cancelled s) s"
  let ?s2 = "drop_active (sd_cancelled s @ sd_stopped s) ?s1"
  let ?s3 = "fold (finish_cancelled L) (sd_cancelled s) ?s2"
  have c: "sd_tasks (fold (\<lambda>t s'. clear_sequence L cfg (tk_slot_id (sd_tasks s' t)) s') ts s') =
      sd_tasks s'" for ts s'
    by (induction ts arbitrary: s') simp_all
  let ?s4 = "fold (finish_stopped L) (sd_stopped s) ?s3"
  have t: "t \<notin> set (sd_cancelled s)" "t \<notin> set (sd_stopped s)"
    using assms by (simp_all add: listed_def)
  have "only (set (sd_cancelled s)) ?s2 ?s3"
    using only_fold [of "sd_cancelled s" "\<lambda>t. t" "finish_cancelled L" ?s2] by (simp add: only_finish)
  then have 3: "sd_tasks ?s3 t = sd_tasks ?s2 t" using only_tasks t(1) by blast
  have "only (set (sd_stopped s)) ?s3 ?s4"
    using only_fold [of "sd_stopped s" "\<lambda>t. t" "finish_stopped L" ?s3] by (simp add: only_finish)
  then have "sd_tasks ?s4 t = sd_tasks ?s3 t" using only_tasks t(2) by blast
  then show ?thesis
    unfolding settle_flagged_def Let_def 3 by (simp add: drop_active_def c)
qed

lemma emit_effect:
  "tk_prompt_done (sd_tasks (emit_token L t ev s) t) = tk_prompt_done (sd_tasks s t)"
  "tk_prompt_pos (sd_tasks (emit_token L t ev s) t) = tk_prompt_pos (sd_tasks s t)"
  "tk_prompt_tokens (sd_tasks (emit_token L t ev s) t) = tk_prompt_tokens (sd_tasks s t)"
  "tk_spec_i_batch (sd_tasks (emit_token L t ev s) t) = tk_spec_i_batch (sd_tasks s t)"
  "t \<in> set (sd_completed (emit_token L t ev s)) \<or>
   tk_n_generated (sd_tasks (emit_token L t ev s) t) = tk_n_generated (sd_tasks s t) + 1"
  by (auto simp: emit_token_def Let_def complete_task_def free_sampler_def push_event_def
        split: option.split)

lemma sample_effect:
  assumes "t \<notin> listed s" "is_built B t s" "had_turn t s"
  shows "had_turn t (sample_task L cfg t s) \<and>
    (tk_prompt_done (sd_tasks (sample_task L cfg t s) t) \<or>
     tk_prompt_pos (sd_tasks (sample_task L cfg t s) t)
       < int (length (tk_prompt_tokens (sd_tasks (sample_task L cfg t s) t)))) \<and>
    (0 \<le> tk_i_batch (sd_tasks s t) \<longrightarrow> t \<in> set (sd_completed (sample_task L cfg t s)) \<or>
       tk_n_generated (sd_tasks s t) < tk_n_generated (sd_tasks (sample_task L cfg t s) t))"
proof (cases "tk_i_batch (sd_tasks s t) < 0")
  case True
  then have "sample_task L cfg t s = s" by (simp add: sample_task_def Let_def)
  then show ?thesis using True assms(3) by (auto simp: had_turn_def)
next
  case False
  let ?k = "sd_tasks s t"
  define b where "b \<longleftrightarrow> \<not> tk_prompt_done ?k \<and> tk_prompt_pos ?k \<ge> int (length (tk_prompt_tokens ?k))"
  define s0 where "s0 = (if b then begin_generation L t s else s)"
  obtain ev s1 where e: "sample_token L t s0 = (ev, s1)" by fastforce
  have s1: "sd_tasks s1 = sd_tasks s0" using sample_token_state [of L t s0] e by simp
  have f: "task_frame (sd_tasks s0 t) = task_frame ?k" by (simp add: s0_def)
  have d: "tk_prompt_done ?k \<or> b" using assms(2) False by (auto simp: is_built_def built_inv_def b_def)
  have eq: "sample_task L cfg t s = emit_token L t ev (enter_generation L cfg b t s1)"
    using False assms(1) e
    unfolding sample_task_def Let_def b_def [symmetric] s0_def [symmetric] by (simp add: listed_def)
  let ?s2 = "enter_generation L cfg b t s1"
  have "tk_prompt_done (sd_tasks ?s2 t)" "tk_n_generated (sd_tasks ?s2 t) = tk_n_generated ?k"
    "tk_spec_i_batch (sd_tasks ?s2 t) = tk_spec_i_batch ?k"
    using d f s1
    by (auto simp: enter_generation_def Let_def task_frame_def task_output_def task_draft_def)
  then show ?thesis
    using assms(3) emit_effect [where L = L and t = t and ev = ev and s = ?s2] unfolding eq by (auto simp: had_turn_def)
qed

lemma quiet_place:
  assumes "quiet s s'"
  shows "had_turn t s' = had_turn t s" "tk_i_batch (sd_tasks s' t) = tk_i_batch (sd_tasks s t)"
    "tk_n_generated (sd_tasks s' t) = tk_n_generated (sd_tasks s t)"
    "tk_prompt_done (sd_tasks s' t) = tk_prompt_done (sd_tasks s t)"
    "tk_prompt_pos (sd_tasks s' t) = tk_prompt_pos (sd_tasks s t)"
    "tk_prompt_tokens (sd_tasks s' t) = tk_prompt_tokens (sd_tasks s t)"
    "tk_spec_i_batch (sd_tasks s' t) = tk_spec_i_batch (sd_tasks s t)"
  using assms by (simp_all add: quiet_def had_turn_def task_frame_def task_parts)

lemma quiet_distribute:
  assumes "chan_inv N F (is_built (set tasks)) s" "distinct tasks" "plain_config cfg"
    and "\<forall>t\<in>set tasks. t \<notin> listed s \<longrightarrow> had_turn t s" "listed s \<inter> set (sd_active s) = {}"
    and "set (sd_active s) \<subseteq> set tasks"
  obtains s' where "distribute L cfg nobody tasks e s = (NextRound, s')"
    "set (sd_active s') \<subseteq> set (sd_active s)" "all_ahead s s'"
    "\<forall>t\<in>set (sd_active s'). tk_prompt_done (sd_tasks s' t) \<or>
       tk_prompt_pos (sd_tasks s' t) < int (length (tk_prompt_tokens (sd_tasks s' t)))"
    "\<forall>t\<in>set (sd_active s'). 0 \<le> tk_i_batch (sd_tasks s t) \<longrightarrow>
       tk_n_generated (sd_tasks s t) < tk_n_generated (sd_tasks s' t)"
proof -
  define s1 where "s1 = fold (record_contribution (int (length (sd_batch s))) e)
    (sd_prompt_contributions s) s"
  define s3 where "s3 = fold (capture_replay L) (sd_replay_checkpoint_ready s1) s1"
  define s4 where "s4 = fold (capture_checkpoint L cfg) (sd_checkpoint_ready s3) s3"
  have q1: "quiet s s1" unfolding s1_def by (rule quiet_fold) (rule quiet_ops)
  have q3: "quiet s s3" unfolding s3_def by (rule quiet_trans [OF q1 quiet_fold]) (rule quiet_ops)
  have q4: "quiet s s4" unfolding s4_def by (rule quiet_trans [OF q3 quiet_fold]) (rule quiet_ops)
  note l4 = quiet_lists [OF q4]
  have h4: "all_ahead s s4"
    unfolding s4_def s3_def s1_def
    by (rule all_ahead_trans [OF all_ahead_trans [OF all_ahead_fold all_ahead_fold] all_ahead_fold])
       (rule bookkeeping_ahead)+
  have c4: "chan_inv N F (is_built (set tasks)) s4" by (rule chan_quiet [OF assms(1) q4 frame_built])
  define ts where "ts = filter (\<lambda>t. t \<notin> listed s) tasks"
  have listed: "listed s4 = listed s" using l4 by (simp add: listed_def)
  define s5 where "s5 = fold (sample_task L cfg) tasks s4"
  have e5: "s5 = fold (sample_task L cfg) ts s4"
    unfolding s5_def ts_def listed [symmetric]
    by (rule fold_unlisted) (simp_all add: listed_sample)
  have h5: "all_ahead s s5"
    unfolding s5_def by (rule all_ahead_trans [OF h4 all_ahead_fold]) (rule sample_ahead)
  have o5: "only (set ts) s4 s5"
    unfolding e5 using only_fold [of ts "\<lambda>t. t" "sample_task L cfg" s4] by (simp add: only_sample)
  have a5: "sd_active s5 = sd_active s" using only_shares [OF o5] l4 by (simp add: shares_def)
  have act: "set (sd_active s) \<subseteq> set ts" using assms(5,6) by (auto simp: ts_def)
  let ?P = "\<lambda>t s'. t \<in> set (sd_active s) \<longrightarrow> t \<notin> listed s' \<and> is_built (set tasks) t s' \<and> had_turn t s' \<and>
    tk_i_batch (sd_tasks s' t) = tk_i_batch (sd_tasks s t) \<and>
    tk_n_generated (sd_tasks s' t) = tk_n_generated (sd_tasks s t)"
  let ?Q = "\<lambda>t s'. t \<in> set (sd_active s) \<longrightarrow> (tk_prompt_done (sd_tasks s' t) \<or>
     tk_prompt_pos (sd_tasks s' t) < int (length (tk_prompt_tokens (sd_tasks s' t)))) \<and>
    (0 \<le> tk_i_batch (sd_tasks s t) \<longrightarrow> t \<in> set (sd_completed s') \<or>
       tk_n_generated (sd_tasks s t) < tk_n_generated (sd_tasks s' t))"
  have Q: "\<forall>t\<in>set ts. ?Q t s5"
    unfolding e5
  proof (rule fold_tasks [where h = "\<lambda>t. t" and P = ?P])
    show "of_view ?P" "of_view ?Q"
      by (auto simp: of_view_def view_def listed_def is_built_def had_turn_def)
    show "\<forall>t\<in>set ts. ?P t s4"
      using c4 l4 assms(4) quiet_place [OF q4] listed
      by (auto simp: chan_inv_def ts_def)
    show "?Q t (sample_task L cfg t s')" if "?P t s'" for t s'
      using sample_effect [of t s' "set tasks" L cfg] that by auto
    show "distinct (map (\<lambda>t. t) ts)" using assms(2) by (simp add: ts_def)
  qed (rule only_sample)
  have spec: "tk_spec_i_batch (sd_tasks (sample_task L cfg t s') u) = tk_spec_i_batch (sd_tasks s' u)"
    for t u and s' :: "'a scheduler"
  proof (cases "u = t")
    case True
    have 1: "tk_spec_i_batch (sd_tasks (enter_generation L cfg b t s'') t) =
        tk_spec_i_batch (sd_tasks s'' t)" for b s''
      by (simp add: enter_generation_def Let_def)
    have 2: "tk_spec_i_batch (sd_tasks (begin_generation L t s') t) = tk_spec_i_batch (sd_tasks s' t)"
      by (simp add: begin_generation_def)
    show ?thesis
      unfolding True
      by (simp add: sample_task_def Let_def case_prod_beta emit_effect 1 2 sample_token_state)
  next
    case False
    then show ?thesis using only_tasks [OF only_sample [of t s' L cfg], of u] by simp
  qed
  have spec5: "tk_spec_i_batch (sd_tasks (fold (sample_task L cfg) us s') u) =
      tk_spec_i_batch (sd_tasks s' u)" for us u s'
    by (induction us arbitrary: s') (simp_all add: spec)
  have listed5: "listed (fold (sample_task L cfg) us s') = listed s'" for us s'
    by (induction us arbitrary: s') (simp_all add: listed_sample)
  have v: "for_each_task (verify_task L cfg) tasks s5 = (None, s5)"
  proof (rule for_each_identity)
    fix t assume t: "t \<in> set tasks"
    show "verify_task L cfg t s5 = (None, s5)"
    proof (cases "t \<in> listed s")
      case True
      then show ?thesis using listed listed5 by (intro listed_verify(2)) (simp add: s5_def)
    next
      case False
      then show ?thesis
        using assms(4) t spec5 quiet_place(7) [OF q4]
        by (simp add: verify_task_def Let_def s5_def had_turn_def)
    qed
  qed
  let ?s7 = "fold (report_progress L cfg) tasks s5"
  have q7: "quiet s5 ?s7" by (rule quiet_fold) (rule quiet_ops)
  note l7 = quiet_lists [OF q7]
  have h7: "all_ahead s ?s7"
    by (rule all_ahead_trans [OF h5 all_ahead_fold]) (rule bookkeeping_ahead)
  let ?s' = "settle_completed L ?s7"
  have o8: "only (set (sd_completed ?s7)) (drop_active (sd_completed ?s7) ?s7) ?s'"
    using only_fold [of "sd_completed ?s7" "\<lambda>t. t" "finish_completed L"
        "drop_active (sd_completed ?s7) ?s7"]
    by (simp add: settle_completed_def only_finish)
  have a8: "sd_active ?s' = filter (\<lambda>t. t \<notin> set (sd_completed s5)) (sd_active s)"
    using only_shares [OF o8] l7 a5 by (simp add: shares_def drop_active_def)
  have t8: "sd_tasks ?s' t = sd_tasks ?s7 t" if "t \<notin> set (sd_completed s5)" for t
    using only_tasks [OF o8, of t] that l7 by (simp add: drop_active_def)
  have "distribute L cfg nobody tasks e s = (NextRound, ?s')"
    using assms(3) v
    by (simp add: distribute_def Let_def s1_def [symmetric] s3_def [symmetric] s4_def [symmetric]
          s5_def [symmetric] plain_config_def catch_throw_def)
  then show thesis
  proof (rule that)
    show "set (sd_active ?s') \<subseteq> set (sd_active s)" using a8 by auto
    show "all_ahead s ?s'" by (rule all_ahead_trans [OF h7 settle_completed_ahead])
    have "t \<in> set (sd_active s) \<and> t \<notin> set (sd_completed s5) \<and> ?Q t s5"
      if "t \<in> set (sd_active ?s')" for t
      using that a8 Q act by auto
    then show "\<forall>t\<in>set (sd_active ?s'). tk_prompt_done (sd_tasks ?s' t) \<or>
       tk_prompt_pos (sd_tasks ?s' t) < int (length (tk_prompt_tokens (sd_tasks ?s' t)))"
      "\<forall>t\<in>set (sd_active ?s'). 0 \<le> tk_i_batch (sd_tasks s t) \<longrightarrow>
       tk_n_generated (sd_tasks s t) < tk_n_generated (sd_tasks ?s' t)"
      using t8 quiet_place [OF q7] by auto
  qed
qed

lemma settle_flagged_active:
  "sd_active (settle_flagged L cfg s) = filter (\<lambda>t. t \<notin> listed s) (sd_active s)"
proof -
  let ?s1 = "fold (\<lambda>t s'. clear_sequence L cfg (tk_slot_id (sd_tasks s' t)) s') (sd_cancelled s) s"
  let ?s2 = "drop_active (sd_cancelled s @ sd_stopped s) ?s1"
  let ?s3 = "fold (finish_cancelled L) (sd_cancelled s) ?s2"
  have q: "quiet s ?s1" by (rule quiet_fold) (rule quiet_ops)
  have "shares ?s2 ?s3"
    using only_fold [of "sd_cancelled s" "\<lambda>t. t" "finish_cancelled L" ?s2]
    by (intro only_shares) (simp add: only_finish)
  moreover have "shares ?s3 (fold (finish_stopped L) (sd_stopped s) ?s3)"
    using only_fold [of "sd_stopped s" "\<lambda>t. t" "finish_stopped L" ?s3]
    by (intro only_shares) (simp add: only_finish)
  ultimately show ?thesis
    using quiet_lists [OF q]
    by (simp add: settle_flagged_def Let_def shares_def drop_active_def listed_def)
qed

text \<open>
  One quiet round: it returns, the tasks that stay are in good state, and unless there was nothing
  to do the work left has decreased.
\<close>

lemma quiet_round:
  assumes "chan_inv N F is_idle s" "\<forall>t\<in>set (sd_active s). in_progress (sd_tasks s t)"
    "plain_config cfg" "run_round L cfg nobody s = (r, s')"
  shows "r \<noteq> Stuck \<and> (r = NextRound \<longrightarrow>
    (\<forall>t\<in>set (sd_active s'). in_progress (sd_tasks s' t)) \<and>
    (sd_active s = [] \<and> s' = s \<or> total_work s' < total_work s))"
proof (cases "sd_active s = []")
  case True
  then show ?thesis using assms(4) by (auto simp: run_round_def Let_def split: if_splits)
next
  case False
  obtain runnable s2 where g: "gather_tasks L cfg nobody s = (sd_active s, runnable, False, s2)"
    "runnable = filter (\<lambda>t. is_live (sd_tasks s t)) (sd_active s)"
    "chan_inv N F is_prepared s2" "sd_active s2 = sd_active s" "all_ahead s s2"
    "\<forall>t\<in>set (sd_active s). on_turn t s2"
    "\<forall>t. tk_prompt_done (sd_tasks s2 t) = tk_prompt_done (sd_tasks s t)"
    by (rule quiet_gather [where L = L, OF assms(1-3)])
  have live: "is_live (sd_tasks s2 t) = is_live (sd_tasks s t)" for t
    using g(5) ahead_live by (simp add: all_ahead_def)
  obtain ordered s3 where b: "build_batch L cfg nobody (sd_active s) runnable s2 = (ordered, None, s3)"
    "chan_inv N F (is_built (set ordered)) s3" "distinct ordered" "set ordered = set (sd_active s)"
    "sd_active s3 = sd_active s2" "all_ahead s2 s3" "\<forall>t\<in>set (sd_active s). had_turn t s3"
    "sd_batch s3 = [] \<Longrightarrow> \<forall>t. tk_i_batch (sd_tasks s3 t) = tk_i_batch (sd_tasks s2 t)"
    "sd_completed s3 = []" "distinct (sd_cancelled s3 @ sd_stopped s3)"
    "listed s3 \<subseteq> set (sd_active s)"
    "runnable \<noteq> [] \<Longrightarrow> \<exists>t\<in>set runnable. moves (sd_tasks s2 t) (sd_tasks s3 t)"
    "\<forall>t\<in>set (sd_active s). t \<in> listed s3 \<longleftrightarrow> \<not> is_live (sd_tasks s2 t)"
  proof (rule quiet_build [where L = L, OF g(3) _ assms(3)])
    show "\<forall>t\<in>set (sd_active s). on_turn t s2" by (rule g(6))
    show "sd_active s = sd_active s2" by (simp add: g(4))
    show "runnable = filter (\<lambda>t. is_live (sd_tasks s2 t)) (sd_active s)" by (simp add: g(2) live)
  qed (rule that)
  define s4 where "s4 = settle_flagged L cfg s3"
  have a4: "sd_active s4 = filter (\<lambda>t. t \<notin> listed s3) (sd_active s)"
    using settle_flagged_active [of L cfg s3] b(5) g(4) by (simp add: s4_def)
  have t4: "sd_tasks s4 t = sd_tasks s3 t" if "t \<notin> listed s3" for t
    using settle_flagged_tasks [OF that] by (simp add: s4_def)
  have ah3: "all_ahead s s3" by (rule all_ahead_trans [OF g(5) b(6)])
  have ah4: "all_ahead s s4"
    unfolding s4_def by (rule all_ahead_trans [OF ah3 settle_flagged_ahead])
  have l4: "listed s4 = listed s3" "sd_completed s4 = []" "sd_batch s4 = sd_batch s3"
    using settle_flagged_lists [of L cfg s3] b(9) by (simp_all add: s4_def listed_def)
  have d: "distinct (sd_active s)" using assms(1) by (simp add: chan_inv_def)
  have round: "run_round L cfg nobody s = after_build L cfg nobody ordered s3"
    using False g(1) b(1)
    by (simp add: run_round_def catch_throw_def after_build_def Let_def)
  have gen2: "gen_inv (sd_tasks s2 t)" "tk_i_batch (sd_tasks s2 t) = - 1" if "t \<in> set (sd_active s)" for t
    using g(3,4) that by (auto simp: chan_inv_def is_prepared_def task_inv_def)
  text \<open>A task whose work decreases if it stays: one that was flagged, or the first of the order.\<close>
  have lead: "\<exists>t0\<in>set (sd_active s). t0 \<in> listed s3 \<or>
      t0 \<notin> listed s3 \<and> moves (sd_tasks s2 t0) (sd_tasks s3 t0)"
  proof (cases "runnable = []")
    case True
    then have "\<not> is_live (sd_tasks s2 (hd (sd_active s)))"
      using g(2) False live by (simp add: filter_empty_conv)
    then show ?thesis using b(13) False by (intro bexI [of _ "hd (sd_active s)"]) auto
  next
    case r: False
    then show ?thesis using b(12,13) g(2) live by auto
  qed
  then obtain t0 where t0: "t0 \<in> set (sd_active s)"
    "t0 \<in> listed s3 \<or> t0 \<notin> listed s3 \<and> moves (sd_tasks s2 t0) (sd_tasks s3 t0)"
    by blast
  have less: "total_work s'' < total_work s"
    if "set (sd_active s'') \<subseteq> set (sd_active s4)" "distinct (sd_active s'')" "all_ahead s4 s''"
      "t0 \<in> set (sd_active s'') \<Longrightarrow> 0 \<le> tk_i_batch (sd_tasks s3 t0) \<Longrightarrow>
         tk_n_generated (sd_tasks s3 t0) < tk_n_generated (sd_tasks s'' t0)" for s''
    unfolding total_work_def
  proof (rule work_decreases [OF d that(2) _ _ _ t0(1)])
    have ah: "all_ahead s s''" by (rule all_ahead_trans [OF ah4 that(3)])
    show "set (sd_active s'') \<subseteq> set (sd_active s)" using that(1) a4 by auto
    show "work_left (sd_tasks s'' t) \<le> work_left (sd_tasks s t)" for t
      using ah ahead_work by (simp add: all_ahead_def)
    show "0 < work_left (sd_tasks s t)" for t by (simp add: work_left_def)
    assume in_act: "t0 \<in> set (sd_active s'')"
    then have nl: "t0 \<notin> listed s3" using that(1) a4 by auto
    then have m: "moves (sd_tasks s2 t0) (sd_tasks s3 t0)" using t0(2) by blast
    have a23: "ahead (sd_tasks s2 t0) (sd_tasks s3 t0)" using b(6) by (simp add: all_ahead_def)
    have a3: "ahead (sd_tasks s3 t0) (sd_tasks s'' t0)"
      using that(3) t4 [OF nl] unfolding all_ahead_def by metis
    have "work_left (sd_tasks s'' t0) < work_left (sd_tasks s2 t0)"
    proof (rule moves_work [OF m a23 a3 _ gen2(1) [OF t0(1)]])
      show "tk_prompt_pos (sd_tasks s2 t0) < tk_prompt_pos (sd_tasks s3 t0) \<and>
            tk_prompt_pos (sd_tasks s2 t0) < int (length (tk_prompt_tokens (sd_tasks s2 t0))) \<or>
          tk_n_generated (sd_tasks s2 t0) < tk_n_generated (sd_tasks s'' t0)"
        using m that(4) [OF in_act] a23 by (auto simp: moves_def ahead_def)
    qed
    also have "\<dots> \<le> work_left (sd_tasks s t0)"
      using g(5) ahead_work by (simp add: all_ahead_def)
    finally show "work_left (sd_tasks s'' t0) < work_left (sd_tasks s t0)" .
  qed
  show ?thesis
  proof (cases "sd_batch s4 = []")
    case True
    have "total_work s4 < total_work s"
    proof (rule less)
      show "distinct (sd_active s4)" using a4 d by simp
      show "tk_n_generated (sd_tasks s3 t0) < tk_n_generated (sd_tasks s4 t0)"
        if "0 \<le> tk_i_batch (sd_tasks s3 t0)"
        using b(8) that True l4(3) gen2(2) [OF t0(1)] by simp
    qed simp_all
    moreover have "in_progress (sd_tasks s4 t)" if "t \<in> set (sd_active s4)" for t
    proof -
      have t: "t \<in> set (sd_active s)" "t \<notin> listed s3" using that a4 by auto
      have "tk_i_batch (sd_tasks s3 t) = - 1" using b(8) True l4(3) gen2(2) [OF t(1)] by simp
      moreover have "text_task (sd_tasks s4 t)"
        using ah4 assms(2) t(1) by (auto simp: all_ahead_def ahead_def in_progress_def)
      ultimately show ?thesis
        using b(7) t t4 [OF t(2)] by (auto simp: in_progress_def had_turn_def)
    qed
    moreover have "run_round L cfg nobody s = (NextRound, s4)"
      using True unfolding round by (simp add: after_build_def Let_def s4_def)
    ultimately show ?thesis using assms(4) by simp
  next
    case False
    obtain rc el s5 where dec: "decode_batch L s4 = ((rc, el), s5)" by (metis surj_pair)
    show ?thesis
    proof (cases "rc = 0")
      case False
      then have "r = LeaveLoop"
        using assms(4) \<open>sd_batch s4 \<noteq> []\<close> dec unfolding round
        by (simp add: after_build_def Let_def s4_def)
      then show ?thesis by simp
    next
      case True
      have q5: "quiet s4 s5" using quiet_machine_ops [of s4 L] dec by simp
      have ah5: "all_ahead s4 s5" using decode_ahead [of s4 L] dec by simp
      have c4: "chan_inv N F (is_built (set ordered)) s4"
        using chan_settle_flagged(1) [OF b(2)] b(4,5,10,11) g(4) by (simp add: s4_def listed_def)
      have c5: "chan_inv N F (is_built (set ordered)) s5" by (rule chan_quiet [OF c4 q5 frame_built])
      note l5 = quiet_lists [OF q5]
      have listed5: "listed s5 = listed s3" using l4(1) l5 by (simp add: listed_def)
      obtain s6 where dist: "distribute L cfg nobody ordered el s5 = (NextRound, s6)"
        "set (sd_active s6) \<subseteq> set (sd_active s5)" "all_ahead s5 s6"
        "\<forall>t\<in>set (sd_active s6). tk_prompt_done (sd_tasks s6 t) \<or>
           tk_prompt_pos (sd_tasks s6 t) < int (length (tk_prompt_tokens (sd_tasks s6 t)))"
        "\<forall>t\<in>set (sd_active s6). 0 \<le> tk_i_batch (sd_tasks s5 t) \<longrightarrow>
           tk_n_generated (sd_tasks s5 t) < tk_n_generated (sd_tasks s6 t)"
      proof (rule quiet_distribute [where L = L and e = el, OF c5 b(3) assms(3)])
        show "\<forall>t\<in>set ordered. t \<notin> listed s5 \<longrightarrow> had_turn t s5"
          using b(4,7) t4 listed5 quiet_place(1) [OF q5] by (simp add: had_turn_def)
        show "listed s5 \<inter> set (sd_active s5) = {}" using listed5 l5 a4 by auto
        show "set (sd_active s5) \<subseteq> set ordered" using l5 a4 b(4) by auto
      qed (rule that)
      have run: "run_round L cfg nobody s = (NextRound, s6)"
        using dec dist(1) True \<open>sd_batch s4 \<noteq> []\<close> unfolding round
        by (simp add: after_build_def Let_def s4_def)
      have "fresh_events F (round_events nobody)" "submitted_in (round_events nobody) = {}"
        by (simp_all add: fresh_events_def round_events_def submitted_in_def)
      then have ok6: "round_ok N F (NextRound, s6)"
        using chan_round [OF assms(1), of nobody L cfg] run by simp
      have act6: "set (sd_active s6) \<subseteq> set (sd_active s4)" using dist(2) l5 by simp
      have "total_work s6 < total_work s"
      proof (rule less [OF act6])
        show "distinct (sd_active s6)" using ok6 by (simp add: round_ok_def chan_inv_def)
        show "all_ahead s4 s6" by (rule all_ahead_trans [OF ah5 dist(3)])
        show "tk_n_generated (sd_tasks s3 t0) < tk_n_generated (sd_tasks s6 t0)"
          if "t0 \<in> set (sd_active s6)" "0 \<le> tk_i_batch (sd_tasks s3 t0)"
        proof -
          have "t0 \<notin> listed s3" using that(1) act6 a4 by auto
          then show ?thesis
            using dist(5) that t4 quiet_place(2,3) [OF q5, of t0] by auto
        qed
      qed
      moreover have "in_progress (sd_tasks s6 t)" if "t \<in> set (sd_active s6)" for t
      proof -
        have "t \<in> set (sd_active s)" using that act6 a4 by auto
        then have "text_task (sd_tasks s6 t)"
          using all_ahead_trans [OF all_ahead_trans [OF ah4 ah5] dist(3)] assms(2)
          by (auto simp: all_ahead_def ahead_def in_progress_def)
        then show ?thesis using dist(4) that by (auto simp: in_progress_def)
      qed
      ultimately show ?thesis using run assms(4) by simp
    qed
  qed
qed

section \<open>Quiet rounds settle everything\<close>

lemma nobody_events [simp]:
  "fresh_events F (round_events nobody)" "submitted_in (round_events nobody) = {}"
  by (simp_all add: fresh_events_def round_events_def submitted_in_def)

lemma quiet_rounds_settle:
  assumes "chan_inv N F is_idle s" "\<forall>t\<in>set (sd_active s). in_progress (sd_tasks s t)"
    "plain_config cfg" "total_work s \<le> n"
  shows "sd_active (loop_state L cfg (replicate n nobody) s) = [] \<and>
    chan_inv N F is_idle (loop_state L cfg (replicate n nobody) s)"
  using assms
proof (induction n arbitrary: s)
  case 0
  then have "sd_active s = []" by (cases "sd_active s") (simp_all add: total_work_def work_left_def)
  then show ?case using 0 by simp
next
  case (Suc n)
  show ?case
  proof (cases "sd_stop s")
    case True
    then show ?thesis using chan_leave [OF Suc.prems(1), of L] by simp
  next
    case False
    obtain r s' where r: "run_round L cfg nobody s = (r, s')" by fastforce
    note q = quiet_round [OF Suc.prems(1-3) r]
    have ok: "round_ok N F (r, s')"
      using chan_round [OF Suc.prems(1), of nobody L cfg] r by simp
    have idle: "chan_inv N F is_idle s'" using ok q by (simp add: round_ok_def)
    show ?thesis
    proof (cases r)
      case NextRound
      have "total_work s' \<le> n"
        using q NextRound Suc.prems(4) by (auto simp: total_work_def)
      then show ?thesis
        using Suc.IH [OF idle] q NextRound Suc.prems(3) False r by simp
    next
      case LeaveLoop
      then show ?thesis using chan_leave [OF idle, of L] False r by simp
    qed (use q in simp)
  qed
qed

end
