(* ===== verification/Batch_Prefix.thy ===== *)
theory Batch_Prefix
  imports Batch_Rounds
begin

text \<open>
  Reuse of the cached prefix. The scheduler relies on the documented behaviour of llama.cpp's
  memory: removing the positions from \<open>p\<close> on cuts the sequence there and leaves other sequences
  alone, and removing a whole sequence succeeds. Under it, a task starts where its cache ends.
\<close>

definition prefix_cache :: "'m llama \<Rightarrow> bool" where
  "prefix_cache L \<longleftrightarrow>
     (\<forall>c seq p m. 0 \<le> p \<longrightarrow>
        (fst (seq_rm L c seq p m) \<longrightarrow>
           seq_pos_max L (snd (seq_rm L c seq p m)) c seq = min (seq_pos_max L m c seq) (p - 1)) \<and>
        (p = 0 \<longrightarrow> fst (seq_rm L c seq p m)) \<and>
        (\<forall>c' q. (c', q) \<noteq> (c, seq) \<longrightarrow>
           seq_pos_max L (snd (seq_rm L c seq p m)) c' q = seq_pos_max L m c' q) \<and>
        has_memory L (snd (seq_rm L c seq p m)) = has_memory L m) \<and>
     (\<forall>c data seq m. (\<forall>c' q. (c', q) \<noteq> (c, seq) \<longrightarrow>
           seq_pos_max L (snd (state_seq_set_data L c data seq m)) c' q = seq_pos_max L m c' q) \<and>
        has_memory L (snd (state_seq_set_data L c data seq m)) = has_memory L m) \<and>
     (\<forall>m. seq_pos_max L (snd (steady_now L m)) = seq_pos_max L m \<and>
        has_memory L (snd (steady_now L m)) = has_memory L m) \<and>
     (\<forall>m c seq. - 1 \<le> seq_pos_max L m c seq)"

definition cache_end :: "'m llama \<Rightarrow> int \<Rightarrow> 'm scheduler \<Rightarrow> int" where
  "cache_end L seq s = seq_pos_max L (sd_machine s) Target seq + 1"

lemma rm_target:
  assumes "prefix_cache L" "0 \<le> p"
  shows "fst (seq_rm L Target seq p m) \<Longrightarrow>
      seq_pos_max L (snd (seq_rm L Target seq p m)) Target seq = min (seq_pos_max L m Target seq) (p - 1)"
    "q \<noteq> seq \<Longrightarrow> seq_pos_max L (snd (seq_rm L Target seq p m)) Target q = seq_pos_max L m Target q"
    "has_memory L (snd (seq_rm L Target seq p m)) = has_memory L m"
  using assms by (auto simp: prefix_cache_def)

lemma rm_all:
  assumes "prefix_cache L"
  shows "fst (seq_rm L c seq 0 m)"
  using assms unfolding prefix_cache_def by (metis order.refl)

lemma pos_max_least: "prefix_cache L \<Longrightarrow> - 1 \<le> seq_pos_max L m c seq"
  by (simp add: prefix_cache_def)

text \<open>What holds of the target cache of a sequence, before and after; others stay as they are.\<close>

definition same_others :: "'m llama \<Rightarrow> int \<Rightarrow> 'm scheduler \<Rightarrow> 'm scheduler \<Rightarrow> bool" where
  "same_others L seq s s' \<longleftrightarrow> has_memory L (sd_machine s') = has_memory L (sd_machine s) \<and>
     (\<forall>q. q \<noteq> seq \<longrightarrow> cache_end L q s' = cache_end L q s)"

lemma same_others_refl [simp]: "same_others L seq s s"
  by (simp add: same_others_def)

lemma same_others_trans:
  "same_others L seq s s' \<Longrightarrow> same_others L seq s' s'' \<Longrightarrow> same_others L seq s s''"
  by (simp add: same_others_def)

lemma same_others_put [simp]: "same_others L seq s (put_task t f s') = same_others L seq s s'"
  by (simp add: same_others_def cache_end_def)

lemma same_others_put_left [simp]: "same_others L seq (put_task t f s) s' = same_others L seq s s'"
  by (simp add: same_others_def cache_end_def)

lemma cache_end_put [simp]: "cache_end L seq (put_task t f s) = cache_end L seq s"
  by (simp add: cache_end_def)

lemma same_others_rm:
  assumes "prefix_cache L" "0 \<le> p"
  shows "same_others L seq s (on_machine (\<lambda>m. snd (seq_rm L Target seq p m)) s)"
  using rm_target(2,3) [OF assms] by (simp add: same_others_def cache_end_def)

lemma restart_cache:
  assumes "prefix_cache L" "\<not> sc_has_draft cfg" "has_memory L (sd_machine s) Target"
    "tk_slot_id (sd_tasks s t) = seq"
  shows "cache_end L seq (restart L cfg t s) = 0" "same_others L seq s (restart L cfg t s)"
proof -
  have e: "restart L cfg t s = put_task t (start_at 0)
      (on_machine (\<lambda>m. snd (seq_rm L Target seq 0 m)) s)"
    using assms(2-4) by (simp add: restart_def clear_sequence_def seq_clear_def Let_def)
  have "seq_pos_max L (snd (seq_rm L Target seq 0 m)) Target seq = - 1" for m
    using rm_target(1) [OF assms(1), of 0 seq m] rm_all [OF assms(1), of Target seq m]
      pos_max_least [OF assms(1), of m Target seq] by simp
  then show "cache_end L seq (restart L cfg t s) = 0" by (simp add: e cache_end_def)
  show "same_others L seq s (restart L cfg t s)"
    using same_others_rm [OF assms(1), of 0 seq s] by (simp add: e)
qed

lemma restore_cache:
  assumes "prefix_cache L" "restore_checkpoint L False t s = (ok, s')"
    "tk_slot_id (sd_tasks s t) = seq" "0 < tk_checkpoint_pos (sd_tasks s t)"
  shows "same_others L seq s s'" "ok \<Longrightarrow> cache_end L seq s' \<le> tk_checkpoint_pos (sd_tasks s t)"
proof -
  let ?k = "sd_tasks s t"
  define s1 where "s1 = snd (restore_state L Target (tk_recurrent_checkpoint ?k) seq s)"
  define s2 where "s2 = on_machine (\<lambda>m. snd (seq_rm L Target seq (tk_checkpoint_pos ?k) m)) s1"
  have 1: "same_others L seq s s1"
    using assms(1) by (simp add: s1_def restore_state_def same_others_def cache_end_def prefix_cache_def)
  have 2: "same_others L seq s s2"
    unfolding s2_def by (rule same_others_trans [OF 1 same_others_rm]) (use assms in simp_all)
  have e: "(ok, s') = (if fst (restore_state L Target (tk_recurrent_checkpoint ?k) seq s)
      then (fst (seq_rm L Target seq (tk_checkpoint_pos ?k) (sd_machine s1)), s2) else (False, s1))"
    using assms(2,3)
    by (auto simp: restore_checkpoint_def Let_def and_also_def s1_def s2_def split: prod.splits)
  show "same_others L seq s s'" using 1 2 e by (auto split: if_splits)
  assume ok
  then have "s' = s2" "fst (seq_rm L Target seq (tk_checkpoint_pos ?k) (sd_machine s1))"
    using e by (auto split: if_splits)
  then show "cache_end L seq s' \<le> tk_checkpoint_pos ?k"
    using rm_target(1) [OF assms(1), of "tk_checkpoint_pos ?k" seq "sd_machine s1"] assms(4)
    by (simp add: s2_def cache_end_def)
qed

text \<open>
  \<open>starts_fitting L t k s'\<close>: the task starts where its cache ends, or from a checkpoint, at or below
  which the cache then ends.
\<close>

definition starts_fitting :: "'m llama \<Rightarrow> handle \<Rightarrow> slot_task \<Rightarrow> 'm scheduler \<Rightarrow> bool" where
  "starts_fitting L t k s \<longleftrightarrow> (let n = tk_prompt_pos (sd_tasks s t); e = cache_end L (tk_slot_id k) s
     in n = e \<or> tk_recurrent_checkpoint k \<noteq> None \<and> n = tk_checkpoint_pos k \<and> e \<le> n)"

lemma trim_fits:
  assumes "prefix_cache L" "\<not> sc_has_draft cfg" "has_memory L (sd_machine s) Target"
    and "0 < n" "n < cache_end L (tk_slot_id (sd_tasks s t)) s"
    and "usable \<Longrightarrow> 0 < tk_checkpoint_pos (sd_tasks s t) \<and>
      tk_recurrent_checkpoint (sd_tasks s t) \<noteq> None"
  shows "starts_fitting L t (sd_tasks s t) (trim_to L cfg t False usable n s)"
    "same_others L (tk_slot_id (sd_tasks s t)) s (trim_to L cfg t False usable n s)"
proof -
  let ?k = "sd_tasks s t" and ?seq = "tk_slot_id (sd_tasks s t)"
  let ?s1 = "on_machine (\<lambda>m. snd (seq_rm L Target ?seq n m)) s"
  have so: "same_others L ?seq s ?s1" by (rule same_others_rm) (use assms(1,4) in simp_all)
  have mem: "has_memory L (sd_machine s') Target" if "same_others L ?seq s s'" for s'
    using that assms(3) by (simp add: same_others_def)
  obtain ok s3 where r: "restore_checkpoint L False t ?s1 = (ok, s3)" by fastforce
  have t3: "sd_tasks s3 = sd_tasks s" using tasks_restore_checkpoint [of L False t ?s1] r by simp
  have e: "trim_to L cfg t False usable n s =
      (if fst (seq_rm L Target ?seq n (sd_machine s)) then put_task t (start_at n) ?s1
       else if usable then (if ok then put_task t (\<lambda>k. start_at (tk_checkpoint_pos k) k) s3
                            else restart L cfg t s3)
       else restart L cfg t ?s1)"
    by (simp add: trim_to_def Let_def r)
  have c1: "cache_end L ?seq ?s1 = n" if "fst (seq_rm L Target ?seq n (sd_machine s))"
    using rm_target(1) [OF assms(1), of n ?seq "sd_machine s"] that assms(4,5)
    by (simp add: cache_end_def)
  have rs: "starts_fitting L t ?k (restart L cfg t s')" "same_others L ?seq s (restart L cfg t s')"
    if "same_others L ?seq s s'" "sd_tasks s' = sd_tasks s" for s'
    using restart_cache [OF assms(1,2) mem [OF that(1)], of t ?seq] that(2)
      same_others_trans [OF that(1)]
    by (simp_all add: starts_fitting_def Let_def tasks_restart start_at_def)
  have st: "starts_fitting L t ?k (put_task t (\<lambda>k. start_at (tk_checkpoint_pos k) k) s3)"
    "same_others L ?seq s s3" if usable ok
    using restore_cache [OF assms(1) r, of ?seq] assms(6) that t3 same_others_trans [OF so]
    by (auto simp: starts_fitting_def Let_def start_at_def)
  have so3: "same_others L ?seq s s3" if usable
    using restore_cache(1) [OF assms(1) r, of ?seq] assms(6) that same_others_trans [OF so] by simp
  show "starts_fitting L t ?k (trim_to L cfg t False usable n s)"
    "same_others L ?seq s (trim_to L cfg t False usable n s)"
    using c1 rs(1) [OF so] rs(2) [OF so] rs(1) [OF so3 t3] rs(2) [OF so3 t3] st so
    by (auto simp: e starts_fitting_def Let_def start_at_def)
qed

lemma reuse_fits:
  assumes "prefix_cache L" "\<not> sc_has_draft cfg" "has_memory L (sd_machine s) Target"
    and "phys = max 0 (cache_end L (tk_slot_id (sd_tasks s t)) s)"
  shows "starts_fitting L t (sd_tasks s t) (reuse_prefix L cfg t True False n_past phys s)"
    "same_others L (tk_slot_id (sd_tasks s t)) s (reuse_prefix L cfg t True False n_past phys s)"
proof -
  let ?k = "sd_tasks s t" and ?seq = "tk_slot_id (sd_tasks s t)"
  let ?u = "checkpoint_usable cfg False n_past ?k"
  let ?s1 = "if tk_checkpoint_pos ?k = tk_checkpoint_capture_pos ?k \<and> ?u
    then put_task t (keep_checkpoint False) s else s"
  let ?n = "min n_past phys"
  have k1: "tk_slot_id (sd_tasks ?s1 t) = ?seq" "tk_checkpoint_pos (sd_tasks ?s1 t) = tk_checkpoint_pos ?k"
    "tk_recurrent_checkpoint (sd_tasks ?s1 t) = tk_recurrent_checkpoint ?k"
    by (simp_all add: keep_checkpoint_def)
  have fk: "starts_fitting L t (sd_tasks ?s1 t) s' = starts_fitting L t ?k s'" for s'
    using k1 by (simp add: starts_fitting_def Let_def)
  have so1: "same_others L ?seq s ?s1" by simp
  have c1: "cache_end L ?seq ?s1 = cache_end L ?seq s" by simp
  have m1: "has_memory L (sd_machine ?s1) Target" using assms(3) by simp
  have u: "0 < tk_checkpoint_pos ?k \<and> tk_recurrent_checkpoint ?k \<noteq> None" if ?u
    using that by (auto simp: checkpoint_usable_def recurrent_checkpoint_usable_def
        checkpoint_size_def Let_def split: option.splits)
  have rs: "starts_fitting L t ?k (restart L cfg t s')" "same_others L ?seq s (restart L cfg t s')"
    if "s' = s \<or> s' = ?s1" for s'
    using restart_cache [OF assms(1,2), of s' t ?seq] that k1 assms(3) so1
    by (auto simp: starts_fitting_def Let_def tasks_restart start_at_def split: if_splits)
  have ext: "starts_fitting L t ?k (put_task t (start_at ?n) ?s1)" if "?n \<ge> phys" "0 < ?n"
    using that assms(4) c1 by (auto simp: starts_fitting_def Let_def start_at_def)
  have tr: "starts_fitting L t ?k (trim_to L cfg t False ?u ?n ?s1)"
    "same_others L ?seq s (trim_to L cfg t False ?u ?n ?s1)" if "0 < ?n" "?n < phys"
  proof -
    have "?n < cache_end L (tk_slot_id (sd_tasks ?s1 t)) ?s1" using that assms(4) c1 k1 by simp
    from trim_fits [OF assms(1,2) m1 that(1) this, of ?u] u k1 fk
    show "starts_fitting L t ?k (trim_to L cfg t False ?u ?n ?s1)"
      "same_others L ?seq s (trim_to L cfg t False ?u ?n ?s1)"
      using same_others_trans [OF so1] by auto
  qed
  have e: "reuse_prefix L cfg t True False n_past phys s =
      (if n_past \<le> 0 then restart L cfg t s
       else if ?n \<le> 0 then restart L cfg t ?s1
       else if ?n \<ge> phys then put_task t (start_at ?n) ?s1
       else trim_to L cfg t False ?u ?n ?s1)"
    by (simp add: reuse_prefix_def Let_def)
  show "starts_fitting L t ?k (reuse_prefix L cfg t True False n_past phys s)"
    "same_others L ?seq s (reuse_prefix L cfg t True False n_past phys s)"
    unfolding e using rs tr ext so1 by (simp_all add: not_le)
qed

theorem init_task_fits:
  assumes "prefix_cache L" "\<not> sc_has_draft cfg" "has_memory L (sd_machine s) Target"
  shows "starts_fitting L t (sd_tasks s t) (init_task L cfg t s)"
    "same_others L (tk_slot_id (sd_tasks s t)) s (init_task L cfg t s)"
    "starts_within (cached_prefix (sd_tasks s t)) (sd_tasks (init_task L cfg t s) t)"
proof -
  let ?k = "sd_tasks s t"
  let ?s1 = "on_machine (\<lambda>m. snd (steady_now L m)) s"
  have now: "same_others L seq s ?s1" "cache_end L seq ?s1 = cache_end L seq s"
    "has_memory L (sd_machine ?s1) Target" for seq
    using assms(1,3) by (simp_all add: same_others_def cache_end_def prefix_cache_def)
  have r: "starts_fitting L t ?k (restart L cfg t (put_task t f ?s1))"
    "same_others L (tk_slot_id ?k) s (restart L cfg t (put_task t f ?s1))"
    if "\<And>k. tk_slot_id (f k) = tk_slot_id k" for f
    using restart_cache [OF assms(1,2), of "put_task t f ?s1" t "tk_slot_id ?k"] now that
      same_others_trans [of L "tk_slot_id ?k" s ?s1]
    by (simp_all add: starts_fitting_def Let_def tasks_restart start_at_def same_others_def)
  have u: "starts_fitting L t ?k (reuse_prefix L cfg t True False n (max 0 (cache_end L (tk_slot_id ?k) s)) (put_task t f ?s1))"
    "same_others L (tk_slot_id ?k) s
       (reuse_prefix L cfg t True False n (max 0 (cache_end L (tk_slot_id ?k) s)) (put_task t f ?s1))"
    if "\<And>k. tk_slot_id (f k) = tk_slot_id k \<and> tk_checkpoint_pos (f k) = tk_checkpoint_pos k \<and>
      tk_recurrent_checkpoint (f k) = tk_recurrent_checkpoint k" for f n
    using reuse_fits [OF assms(1,2), of "put_task t f ?s1" "max 0 (cache_end L (tk_slot_id ?k) s)" t n]
      now that same_others_trans [of L "tk_slot_id ?k" s "put_task t f ?s1"]
    by (simp_all add: starts_fitting_def Let_def)
  have fm: "starts_fitting L t ?k (put_task t (\<lambda>k. k\<lparr>tk_out_mtp_cache_synced := False\<rparr>) s') = starts_fitting L t ?k s'" for s'
    by (simp add: starts_fitting_def Let_def)
  have pp: "put_task t g (put_task t f s') = put_task t (\<lambda>k. g (f k)) s'" for f g s'
    by (simp add: put_task_def)
  show "starts_fitting L t ?k (init_task L cfg t s)" "same_others L (tk_slot_id ?k) s (init_task L cfg t s)"
    unfolding init_task_def Let_def using assms(1-2) now(3)
    by (simp_all add: fm pp r u [unfolded cache_end_def] prefix_cache_def)
  show "starts_within (cached_prefix ?k) (sd_tasks (init_task L cfg t s) t)" by (rule starts_init)
qed

end
