(* ===== verification/Batch_Pool.thy ===== *)
theory Batch_Pool
  imports Batch_Rounds "HOL-Library.Multiset" "HOL-Library.Sublist"
begin

text \<open>
  The bounded context pool. An admitted task reserves the positions of its prompt, its longest
  answer and the draft margin; the reservations of the active tasks never exceed the capacity, from
  one round to the next, and candidates are taken in the order of their submission.
\<close>

section \<open>Reservations\<close>

definition reservation :: "sched_config \<Rightarrow> slot_task \<Rightarrow> int" where
  "reservation cfg k =
     bounded_pool_reservation (prompt_positions k) (tk_max_tokens k) (sc_draft_margin cfg)"

definition share :: "slot_task \<Rightarrow> int" where
  "share k = (if tk_admitted k then tk_reserved_positions k else 0)"

definition own_share :: "sched_config \<Rightarrow> slot_task \<Rightarrow> bool" where
  "own_share cfg k \<longleftrightarrow> (tk_admitted k \<longrightarrow> tk_reserved_positions k = reservation cfg k)"

definition pool_total :: "(handle \<Rightarrow> slot_task) \<Rightarrow> handle list \<Rightarrow> int" where
  "pool_total store ts = (\<Sum>t\<leftarrow>ts. share (store t))"

definition pool_ok :: "sched_config \<Rightarrow> 'm scheduler \<Rightarrow> bool" where
  "pool_ok cfg s \<longleftrightarrow> pool_total (sd_tasks s) (sd_active s) \<le> max 0 (pool_capacity cfg) \<and>
     (\<forall>t\<in>set (sd_active s). own_share cfg (sd_tasks s t))"

lemma reservation_nonneg: "0 \<le> reservation cfg k"
  by (simp add: reservation_def bounded_pool_reservation_def)

lemma share_nonneg: "own_share cfg k \<Longrightarrow> 0 \<le> share k"
  using reservation_nonneg [of cfg k] by (simp add: own_share_def share_def)

lemma pool_total_admitted:
  "pool_total store ts =
     (\<Sum>t\<leftarrow>filter (\<lambda>t. tk_admitted (store t)) ts. tk_reserved_positions (store t))"
  by (induction ts) (simp_all add: pool_total_def share_def)

lemma pool_total_admit:
  assumes "distinct ts" "c \<in> set ts" "\<not> tk_admitted (store c)" "share k = q"
  shows "pool_total (store(c := k)) ts = pool_total store ts + q"
proof -
  have "(\<Sum>t\<in>set ts. share ((store(c := k)) t)) = q + (\<Sum>t\<in>set ts - {c}. share (store t))"
    using assms(2,4) by (subst sum.remove [of _ c]) auto
  moreover have "(\<Sum>t\<in>set ts. share (store t)) = (\<Sum>t\<in>set ts - {c}. share (store t))"
    using assms(2,3) by (subst sum.remove [of _ c]) (simp_all add: share_def)
  ultimately show ?thesis
    using assms(1) by (simp add: pool_total_def sum_list_distinct_conv_sum_set)
qed

section \<open>Admission\<close>

text \<open>The candidates of an admission: live and not in the pool yet.\<close>

definition waiting :: "'m scheduler \<Rightarrow> handle list \<Rightarrow> handle list" where
  "waiting s cs = filter (\<lambda>c. \<not> tk_admitted (sd_tasks s c) \<and> is_live (sd_tasks s c)) cs"

text \<open>
  The outcome for the candidates: a first part of them is decided, admitted or rejected, and the
  next one does not fit into what is free.
\<close>

definition in_turn ::
  "sched_config \<Rightarrow> 'm scheduler \<Rightarrow> handle list \<Rightarrow> int \<Rightarrow> handle list \<Rightarrow> (handle \<times> string) list \<Rightarrow> bool"
where
  "in_turn cfg s cs used new out \<longleftrightarrow>
     (\<exists>decided rest. waiting s cs = decided @ rest \<and> set decided = set new \<union> fst ` set out \<and>
        subseq new decided \<and>
        (rest \<noteq> [] \<longrightarrow> \<not> bounded_pool_can_admit used (reservation cfg (sd_tasks s (hd rest)))
                          (pool_capacity cfg)))"

lemma waiting_tasks:
  assumes "\<And>c. c \<in> set cs \<Longrightarrow> sd_tasks s' c = sd_tasks s c"
  shows "waiting s' cs = waiting s cs"
  using assms by (simp add: waiting_def cong: filter_cong)

lemma in_turn_tasks:
  assumes "\<And>c. c \<in> set cs \<Longrightarrow> sd_tasks s' c = sd_tasks s c" "in_turn cfg s' cs used new out"
  shows "in_turn cfg s cs used new out"
proof -
  obtain d r where dr: "waiting s cs = d @ r" "set d = set new \<union> fst ` set out" "subseq new d"
    "r \<noteq> [] \<longrightarrow> \<not> bounded_pool_can_admit used (reservation cfg (sd_tasks s' (hd r)))
       (pool_capacity cfg)"
    using assms waiting_tasks [of cs s' s] by (auto simp: in_turn_def)
  have "r \<noteq> [] \<Longrightarrow> hd r \<in> set (waiting s cs)" using dr(1) by (cases r) simp_all
  then have "r \<noteq> [] \<Longrightarrow> sd_tasks s' (hd r) = sd_tasks s (hd r)"
    using assms(1) by (auto simp: waiting_def)
  then show ?thesis using dr by (auto simp: in_turn_def)
qed

lemma in_turn_cons:
  assumes "in_turn cfg s cs used new out" "\<not> tk_admitted (sd_tasks s c)" "is_live (sd_tasks s c)"
  shows "in_turn cfg s (c # cs) used (c # new) out" "in_turn cfg s (c # cs) used new ((c, m) # out)"
proof -
  obtain d r where dr: "waiting s cs = d @ r" "set d = set new \<union> fst ` set out" "subseq new d"
    "r \<noteq> [] \<longrightarrow> \<not> bounded_pool_can_admit used (reservation cfg (sd_tasks s (hd r)))
       (pool_capacity cfg)"
    using assms(1) by (auto simp: in_turn_def)
  have "waiting s (c # cs) = (c # d) @ r" using assms(2,3) dr(1) by (simp add: waiting_def)
  moreover have "set (c # d) = set (c # new) \<union> fst ` set out"
    "set (c # d) = set new \<union> fst ` set ((c, m) # out)" using dr(2) by auto
  moreover have "subseq (c # new) (c # d)" "subseq new (c # d)" using dr(3) by auto
  ultimately show "in_turn cfg s (c # cs) used (c # new) out"
    "in_turn cfg s (c # cs) used new ((c, m) # out)"
    using dr(4) unfolding in_turn_def by blast+
qed

lemma admit_loop_pool:
  assumes "admit_loop L cfg tasks cs r run rej s = (run', rej', s')"
    and "distinct cs" "distinct ts" "set cs \<subseteq> set ts"
    and "pool_total (sd_tasks s) ts = r" "r \<le> max 0 (pool_capacity cfg)"
    and "\<forall>t\<in>set ts. own_share cfg (sd_tasks s t)"
  shows "pool_total (sd_tasks s') ts \<le> max 0 (pool_capacity cfg) \<and>
    (\<forall>t\<in>set ts. own_share cfg (sd_tasks s' t)) \<and>
    (\<exists>new out. run' = run @ new \<and> rej' = rej @ out \<and>
       in_turn cfg s cs (pool_total (sd_tasks s') ts) new out)"
  using assms
proof (induction cs arbitrary: r run rej s)
  case Nil
  then show ?case by (auto simp: in_turn_def waiting_def)
next
  case (Cons c cs)
  let ?k = "sd_tasks s c"
  let ?q = "bounded_pool_reservation (prompt_positions ?k) (tk_max_tokens ?k) (sc_draft_margin cfg)"
  have q: "?q = reservation cfg ?k" by (simp add: reservation_def)
  have d: "c \<notin> set cs" "distinct cs" "set cs \<subseteq> set ts" using Cons.prems(2,4) by simp_all
  obtain ok s1 where rc: "reclaim_bounded_pool_capacity L cfg tasks c r ?q s = (ok, s1)"
    by fastforce
  have o: "only {} s s1" using reclaim_pool_only [of s L cfg tasks c r ?q] rc by simp
  have t: "sd_tasks s1 = sd_tasks s" using only_tasks [OF o] by (simp add: fun_eq_iff)
  let ?f = "\<lambda>k. k\<lparr>tk_admitted := True, tk_reserved_positions := ?q\<rparr>"
  consider (skip) "tk_admitted ?k \<or> \<not> is_live ?k"
    | (big) "\<not> tk_admitted ?k" "is_live ?k" "?q > pool_capacity cfg"
    | (wait) "\<not> tk_admitted ?k" "is_live ?k" "\<not> ?q > pool_capacity cfg"
        "\<not> bounded_pool_can_admit r ?q (pool_capacity cfg)"
    | (full) "\<not> tk_admitted ?k" "is_live ?k" "\<not> ?q > pool_capacity cfg"
        "bounded_pool_can_admit r ?q (pool_capacity cfg)" "\<not> ok"
    | (admit) "\<not> tk_admitted ?k" "is_live ?k" "\<not> ?q > pool_capacity cfg"
        "bounded_pool_can_admit r ?q (pool_capacity cfg)" "ok"
    by blast
  then show ?case
  proof cases
    case skip
    then have "admit_loop L cfg tasks cs r run rej s = (run', rej', s')"
      using Cons.prems(1) by (auto simp: Let_def)
    moreover have "waiting s (c # cs) = waiting s cs" using skip by (auto simp: waiting_def)
    ultimately show ?thesis
      using Cons.IH [OF _ d(2) Cons.prems(3) d(3) Cons.prems(5-7)] by (simp add: in_turn_def)
  next
    case big
    let ?m = "''request exceeds shared context pool''"
    have "admit_loop L cfg tasks cs r run (rej @ [(c, ?m)]) s = (run', rej', s')"
      using big Cons.prems(1) by (simp add: Let_def)
    from Cons.IH [OF this d(2) Cons.prems(3) d(3) Cons.prems(5-7)] show ?thesis
      using in_turn_cons(2) [OF _ big(1,2)] by (metis append_Cons append_Nil append_assoc)
  next
    case wait
    then have e: "run' = run" "rej' = rej" "s' = s" using Cons.prems(1) by (simp_all add: Let_def)
    have "in_turn cfg s (c # cs) r [] []"
      using wait q unfolding in_turn_def
      by (intro exI [of _ "[]"] exI [of _ "waiting s (c # cs)"]) (simp add: waiting_def)
    then show ?thesis using e Cons.prems(5-7) by auto
  next
    case full
    let ?m = "''unable to reclaim shared context pool capacity''"
    have "admit_loop L cfg tasks cs r run (rej @ [(c, ?m)]) s1 = (run', rej', s')"
      using full Cons.prems(1) rc by (simp add: Let_def)
    from Cons.IH [OF this d(2) Cons.prems(3) d(3)] Cons.prems(5-7) t obtain new out where
      e: "pool_total (sd_tasks s') ts \<le> max 0 (pool_capacity cfg)"
      "\<forall>t\<in>set ts. own_share cfg (sd_tasks s' t)"
      "run' = run @ new" "rej' = (rej @ [(c, ?m)]) @ out"
      "in_turn cfg s1 cs (pool_total (sd_tasks s') ts) new out"
      by metis
    have "in_turn cfg s cs (pool_total (sd_tasks s') ts) new out"
      by (rule in_turn_tasks [OF _ e(5)]) (simp add: t)
    from in_turn_cons(2) [OF this full(1,2)] show ?thesis using e by auto
  next
    case admit
    let ?s2 = "put_task c ?f s1"
    have l: "admit_loop L cfg tasks cs (r + ?q) (run @ [c]) rej ?s2 = (run', rej', s')"
      using admit Cons.prems(1) rc by (simp add: Let_def)
    have tot: "pool_total (sd_tasks ?s2) ts = r + ?q"
    proof -
      have "sd_tasks ?s2 = (sd_tasks s)(c := ?f ?k)" by (simp add: fun_eq_iff t)
      then show ?thesis
        using pool_total_admit [of ts c "sd_tasks s" "?f ?k" ?q] Cons.prems(3-5) admit(1)
        by (simp add: share_def)
    qed
    have le: "r + ?q \<le> max 0 (pool_capacity cfg)"
      using admit(4) by (auto simp: bounded_pool_can_admit_def)
    have own: "\<forall>t\<in>set ts. own_share cfg (sd_tasks ?s2 t)"
      using Cons.prems(7) t
      by (simp add: own_share_def reservation_def prompt_positions_def)
    from Cons.IH [OF l d(2) Cons.prems(3) d(3) tot le own] obtain new out where
      e: "pool_total (sd_tasks s') ts \<le> max 0 (pool_capacity cfg)"
      "\<forall>t\<in>set ts. own_share cfg (sd_tasks s' t)"
      "run' = (run @ [c]) @ new" "rej' = rej @ out"
      "in_turn cfg ?s2 cs (pool_total (sd_tasks s') ts) new out"
      by metis
    have "in_turn cfg s cs (pool_total (sd_tasks s') ts) new out"
      by (rule in_turn_tasks [OF _ e(5)]) (use d(1) t in auto)
    from in_turn_cons(1) [OF this admit(1,2)] show ?thesis using e by auto
  qed
qed

lemma admit_tasks_pool:
  assumes "admit_bounded_pool_tasks L cfg ts s = (run, rej, s')" "distinct ts"
    and "pool_total (sd_tasks s) ts \<le> max 0 (pool_capacity cfg)"
    and "\<forall>t\<in>set ts. own_share cfg (sd_tasks s t)"
  shows "pool_total (sd_tasks s') ts \<le> max 0 (pool_capacity cfg)"
    "\<forall>t\<in>set ts. own_share cfg (sd_tasks s' t)"
    "\<exists>new. run = filter (\<lambda>t. tk_admitted (sd_tasks s t) \<and> is_live (sd_tasks s t)) ts @ new \<and>
       in_turn cfg s ts (pool_total (sd_tasks s') ts) new rej"
proof -
  have "admit_loop L cfg ts ts (pool_total (sd_tasks s) ts)
      (filter (\<lambda>t. tk_admitted (sd_tasks s t) \<and> is_live (sd_tasks s t)) ts) [] s = (run, rej, s')"
    using assms(1) by (simp add: admit_bounded_pool_tasks_def Let_def pool_total_admitted conj_commute)
  from admit_loop_pool [OF this assms(2,2) order.refl refl assms(3,4)]
  show "pool_total (sd_tasks s') ts \<le> max 0 (pool_capacity cfg)"
    "\<forall>t\<in>set ts. own_share cfg (sd_tasks s' t)"
    "\<exists>new. run = filter (\<lambda>t. tk_admitted (sd_tasks s t) \<and> is_live (sd_tasks s t)) ts @ new \<and>
       in_turn cfg s ts (pool_total (sd_tasks s') ts) new rej"
    by auto
qed

section \<open>What a phase keeps of the pool\<close>

definition pool_view :: "slot_task \<Rightarrow> _" where
  "pool_view k = (task_pool k, prompt_positions k, tk_max_tokens k)"

definition pools :: "'m scheduler \<Rightarrow> handle \<Rightarrow> _" where
  "pools s = (\<lambda>u. pool_view (sd_tasks s u))"

definition pool_keeps :: "'m scheduler \<Rightarrow> 'm scheduler \<Rightarrow> bool" where
  "pool_keeps s s' \<longleftrightarrow> pools s' = pools s \<and> mset (sd_active s') \<subseteq># mset (sd_active s)"

lemma pool_view_share:
  "pool_view k' = pool_view k \<Longrightarrow> share k' = share k \<and> own_share cfg k' = own_share cfg k"
  by (simp add: pool_view_def task_pool_def share_def own_share_def reservation_def)

lemma pool_view_frame: "task_frame k' = task_frame k \<Longrightarrow> pool_view k' = pool_view k"
  using task_frame_fields(1,4) [of k' k]
  by (simp add: pool_view_def task_input_def prompt_positions_def)

lemma pools_put [simp]:
  "pool_view (f (sd_tasks s t)) = pool_view (sd_tasks s t) \<Longrightarrow> pools (put_task t f s) = pools s"
  by (simp add: pools_def fun_eq_iff)

lemma pools_machine [simp]: "pools (on_machine f s) = pools s"
  by (simp add: pools_def)

lemma pools_fold:
  assumes "\<And>x s. pools (body x s) = pools s"
  shows "pools (fold body xs s) = pools s"
  by (induction xs arbitrary: s) (simp_all add: assms)

lemma pools_for_each:
  assumes "\<And>t s. pools (snd (body t s)) = pools s"
  shows "pools (snd (for_each_task body ts s)) = pools s"
proof (induction ts arbitrary: s)
  case (Cons t ts)
  obtain r s1 where b: "body t s = (r, s1)" by fastforce
  have "pools s1 = pools s" using assms [of t s] b by simp
  then show ?case using Cons.IH b by (cases r) simp_all
qed simp

lemma pool_keeps_refl [simp]: "pool_keeps s s"
  by (simp add: pool_keeps_def)

lemma pool_keeps_trans: "pool_keeps s s' \<Longrightarrow> pool_keeps s' s'' \<Longrightarrow> pool_keeps s s''"
  unfolding pool_keeps_def by (metis subset_mset.order_trans)

lemma pool_keeps_only: "only T s s' \<Longrightarrow> pools s' = pools s \<Longrightarrow> pool_keeps s s'"
  using only_shares by (fastforce simp: pool_keeps_def shares_def)

lemma pool_keeps_fold:
  assumes "\<And>x s. pool_keeps s (body x s)"
  shows "pool_keeps s (fold body xs s)"
  by (induction xs arbitrary: s) (auto intro: pool_keeps_trans assms)

lemma pool_keeps_for_each:
  assumes "\<And>t s. only {t} s (snd (body t s))" "\<And>t s. pools (snd (body t s)) = pools s"
  shows "pool_keeps s (snd (for_each_task body ts s))"
  by (rule pool_keeps_only [OF only_for_each [OF assms(1)] pools_for_each [OF assms(2)]])

lemma pool_keeps_share:
  assumes "pool_keeps s s'"
  shows "share (sd_tasks s' t) = share (sd_tasks s t)"
    "own_share cfg (sd_tasks s' t) = own_share cfg (sd_tasks s t)"
proof -
  have "pools s' = pools s" using assms by (simp add: pool_keeps_def)
  from fun_cong [OF this] have "pool_view (sd_tasks s' t) = pool_view (sd_tasks s t)"
    by (simp add: pools_def)
  from pool_view_share [OF this] show "share (sd_tasks s' t) = share (sd_tasks s t)"
    "own_share cfg (sd_tasks s' t) = own_share cfg (sd_tasks s t)" by auto
qed

lemma sum_mset_nonneg:
  fixes f :: "'b \<Rightarrow> int"
  shows "(\<And>x. x \<in># M \<Longrightarrow> 0 \<le> f x) \<Longrightarrow> 0 \<le> sum_mset (image_mset f M)"
  by (induction M) simp_all

lemma pool_total_after:
  assumes "pool_keeps s s'" "\<forall>t\<in>set (sd_active s). own_share cfg (sd_tasks s t)"
  shows "pool_total (sd_tasks s') (sd_active s') \<le> pool_total (sd_tasks s) (sd_active s)"
proof -
  let ?f = "\<lambda>t. share (sd_tasks s t)"
  have sh: "share (sd_tasks s' t) = ?f t" for t by (rule pool_keeps_share [OF assms(1)])
  have m: "mset (sd_active s') \<subseteq># mset (sd_active s)" using assms(1) by (simp add: pool_keeps_def)
  have nn: "0 \<le> ?f t" if "t \<in> set (sd_active s)" for t using assms(2) share_nonneg that by blast
  have "(\<Sum>t\<leftarrow>sd_active s. ?f t) = sum_mset (image_mset ?f (mset (sd_active s)))"
    by (simp add: sum_mset_sum_list flip: mset_map)
  also have "\<dots> = sum_mset (image_mset ?f (mset (sd_active s'))) +
      sum_mset (image_mset ?f (mset (sd_active s) - mset (sd_active s')))"
    using m by (metis image_mset_union subset_mset.add_diff_inverse sum_mset.union)
  also have "sum_mset (image_mset ?f (mset (sd_active s'))) = (\<Sum>t\<leftarrow>sd_active s'. ?f t)"
    by (simp add: sum_mset_sum_list flip: mset_map)
  finally have "(\<Sum>t\<leftarrow>sd_active s. ?f t) = (\<Sum>t\<leftarrow>sd_active s'. ?f t) +
      sum_mset (image_mset ?f (mset (sd_active s) - mset (sd_active s')))" .
  moreover have "0 \<le> sum_mset (image_mset ?f (mset (sd_active s) - mset (sd_active s')))"
    by (rule sum_mset_nonneg, rule nn, drule in_diffD) simp
  ultimately show ?thesis by (simp add: pool_total_def sh)
qed

lemma pool_ok_after:
  assumes "pool_ok cfg s" "pool_keeps s s'"
  shows "pool_ok cfg s'"
proof -
  have "set (sd_active s') \<subseteq> set (sd_active s)"
    using assms(2) set_mset_mono unfolding pool_keeps_def by fastforce
  moreover have "own_share cfg (sd_tasks s' t) = own_share cfg (sd_tasks s t)" for t
    by (rule pool_keeps_share [OF assms(2)])
  ultimately show ?thesis
    using pool_total_after [OF assms(2)] assms(1) unfolding pool_ok_def
    by (meson order_trans subsetD)
qed

lemma pool_ok_empty: "sd_active s = [] \<Longrightarrow> pool_ok cfg s"
  by (simp add: pool_ok_def pool_total_def)

subsection \<open>The operations\<close>

lemma pool_view_updates [simp]:
  "pool_view (clear_speculation k) = pool_view k" "pool_view (set_phase p k) = pool_view k"
  "pool_view (start_at n k) = pool_view k"
  "pool_view (record_prompt_decode a b e k) = pool_view k"
  by (simp_all add: pool_view_def task_pool_def prompt_positions_def clear_speculation_def
        set_phase_def start_at_def record_prompt_decode_def Let_def)

lemma pools_push [simp]: "pools (push_event L t ev s) = pools s"
  by (simp add: push_event_def Let_def pool_view_def task_pool_def prompt_positions_def)

lemma pools_free [simp]: "pools (free_sampler L t s) = pools s"
  by (simp add: free_sampler_def pool_view_def task_pool_def prompt_positions_def
        split: option.split)

lemma pools_note [simp]: "pools (note_generation L t s) = pools s" "pools (note_prompt L t s) = pools s"
  by (simp_all add: note_generation_def note_prompt_def pool_view_def task_pool_def
        prompt_positions_def)

lemma pools_tasks: "sd_tasks s' = sd_tasks s \<Longrightarrow> pools s' = pools s"
  by (simp add: pools_def)

lemma pools_begin [simp]: "pools (begin_task L cfg t s) = pools s"
  by (simp add: begin_task_def Let_def)

lemma pools_prepare [simp]: "pools (prepare_task L cfg window n t s) = pools s"
  unfolding pools_def by (rule ext, rule pool_view_frame) simp

lemma pools_capture_draft [simp]: "pools (snd (capture_draft L cfg t s)) = pools s"
  by (simp add: capture_draft_def Let_def pool_view_def task_pool_def prompt_positions_def
        split: prod.split)

lemma pools_run_draft [simp]: "pools (run_draft L ts s) = pools s"
proof -
  have "pools (fold (\<lambda>t. put_task t (\<lambda>k. k\<lparr>tk_spec_draft := d t\<rparr>)) ts s') = pools s'"
    for d and s' :: "'a scheduler"
    by (rule pools_fold) (simp add: pool_view_def task_pool_def prompt_positions_def)
  then show ?thesis by (simp add: run_draft_def)
qed

lemma pools_and_also:
  "pools (snd r) = x \<Longrightarrow> (\<And>s'. pools (snd (f s')) = pools s') \<Longrightarrow> pools (snd (and_also r f)) = x"
  by (auto simp: and_also_def split: prod.splits)

lemma pools_restore_state [simp]: "pools (snd (restore_state L c d seq s)) = pools s"
  by (simp add: restore_state_def)

lemma pools_restore_draft [simp]: "pools (snd (restore_draft L cfg t s)) = pools s"
proof -
  define r where "r = and_also
     (if sc_draft_seq_rm_full cfg \<and> tk_spec_draft_checkpoint (sd_tasks s t) \<noteq> []
      then restore_state L Draft (Some (tk_spec_draft_checkpoint (sd_tasks s t)))
             (tk_slot_id (sd_tasks s t)) s
      else (True, s))
     (\<lambda>s'. if has_memory L (sd_machine s') Draft
           then ask (seq_rm L Draft (tk_slot_id (sd_tasks s t))
                  (tk_spec_draft_pos_max (sd_tasks s t) + 1)) s' else (True, s'))"
  have "pools (snd r) = pools s" unfolding r_def by (rule pools_and_also) simp_all
  then show ?thesis
    unfolding restore_draft_def Let_def r_def [symmetric]
    by (cases r) (simp add: pool_view_def task_pool_def prompt_positions_def)
qed

lemma pools_eval_media [simp]: "pools (snd (eval_media L cfg fuel t s)) = pools s"
proof (induction fuel arbitrary: s)
  case (Suc fuel)
  have "pools (snd (eval_chunk L cfg t s)) = pools s" for s :: "'a scheduler"
    by (simp add: eval_chunk_def Let_def pool_view_def task_pool_def prompt_positions_def
          split: option.split prod.split)
  then show ?case using Suc.IH by (simp add: snd_try_next)
qed simp

lemma pools_lists [simp]:
  "pools (s\<lparr>sd_batch := b\<rparr>) = pools s" "pools (s\<lparr>sd_cancelled := ts\<rparr>) = pools s"
  "pools (s\<lparr>sd_stopped := ts\<rparr>) = pools s" "pools (s\<lparr>sd_completed := ts\<rparr>) = pools s"
  "pools (s\<lparr>sd_active := ts\<rparr>) = pools s"
  by (simp_all add: pools_def)

lemma pools_batch_task [simp]: "pools (snd (batch_task L cfg lim t s)) = pools s"
proof -
  have "pools (add_prompt L cfg lim t s) = pools s" "pools (add_generation cfg t s) = pools s"
    for s :: "'a scheduler"
    by (simp_all add: add_prompt_def add_generation_def Let_def pools_def fun_eq_iff pool_view_def
          task_pool_def prompt_positions_def)
  then show ?thesis by (simp add: batch_task_def Let_def snd_try_next)
qed

lemma pools_complete [simp]: "pools (complete_task L t s) = pools s"
  by (simp add: complete_task_def Let_def)

lemma pools_sample [simp]: "pools (sample_task L cfg t s) = pools s"
proof -
  have e: "pools (emit_token L t ev s) = pools s" for s :: "'a scheduler" and ev
    by (simp add: emit_token_def Let_def pool_view_def task_pool_def prompt_positions_def)
  have b: "pools (begin_generation L t s) = pools s" "pools (enter_generation L cfg f t s) = pools s"
    for s :: "'a scheduler" and f
    by (simp_all add: begin_generation_def enter_generation_def Let_def pool_view_def task_pool_def
          prompt_positions_def)
  have t: "pools (snd (sample_token L t s)) = pools s" for s :: "'a scheduler"
    by (simp add: sample_token_def Let_def)
  show ?thesis
    by (simp add: sample_task_def Let_def case_prod_beta e b t)
qed

lemma pools_push_accepted [simp]: "pools (snd (push_accepted L t toks s)) = pools s"
  by (induction toks arbitrary: s)
     (simp_all add: Let_def pool_view_def task_pool_def prompt_positions_def)

lemma pools_verify [simp]: "pools (snd (verify_task L cfg t s)) = pools s"
proof -
  have r: "pools (snd (roll_back_context L c b t s)) = pools s" for s :: "'a scheduler" and c b
    by (simp add: roll_back_context_def)
  have "pools (snd (accept_drafts L cfg t accepted s)) = pools s" for s :: "'a scheduler" and accepted
  proof -
    define s1 where "s1 = put_task t (\<lambda>k. k\<lparr>tk_n_draft_accepted := tk_n_draft_accepted k +
         int (length accepted - 1), tk_n_pos := tk_n_pos k + int (length accepted)\<rparr>)
       (on_machine (speculative_accept L (tk_slot_id (sd_tasks s t))
         ((length accepted - 1) mod 2 ^ 16)) s)"
    have 1: "pools s1 = pools s"
      by (simp add: s1_def pool_view_def task_pool_def prompt_positions_def)
    obtain ok s2 where x: "and_also (roll_back_context L Target True t s1)
        (roll_back_context L Draft (sc_has_draft cfg) t) = (ok, s2)" by fastforce
    have "pools (snd (and_also (roll_back_context L Target True t s1)
        (roll_back_context L Draft (sc_has_draft cfg) t))) = pools s1"
      by (rule pools_and_also) (simp_all add: r)
    then have 2: "pools s2 = pools s" using x 1 by simp
    obtain fin s3 where a: "push_accepted L t accepted s2 = (fin, s3)" by fastforce
    have 3: "pools s3 = pools s" using pools_push_accepted [of L t accepted s2] a 2 by simp
    then show ?thesis
      using x 2 unfolding accept_drafts_def Let_def s1_def [symmetric]
      by (cases ok) (simp_all add: a pool_view_def task_pool_def prompt_positions_def)
  qed
  then show ?thesis by (simp add: verify_task_def Let_def)
qed

lemma pools_report [simp]: "pools (report_progress L cfg t s) = pools s"
  by (simp add: report_progress_def Let_def pool_view_def task_pool_def prompt_positions_def)

lemma pools_record [simp]:
  "pools (record_contribution n e c s) = pools s" "pools (capture_replay L t s) = pools s"
  "pools (capture_checkpoint L cfg t s) = pools s"
proof -
  show "pools (record_contribution n e c s) = pools s" by (simp add: record_contribution_def)
  show "pools (capture_replay L t s) = pools s" "pools (capture_checkpoint L cfg t s) = pools s"
    by (simp_all add: capture_replay_def capture_checkpoint_def pool_view_def task_pool_def
          prompt_positions_def split: option.split)
qed

section \<open>The pool through a round\<close>

lemma pool_ok_fail_all [simp]: "pool_ok cfg (fail_all L msg s)"
proof -
  have "only {t} s' (fail_task L t s')" for t and s' :: "'a scheduler"
    unfolding fail_task_def by (rule only_step [OF only_free only_push])
  then have "only (set ts) s' (fold (fail_task L) ts s')" for ts and s' :: "'a scheduler"
    using only_fold [of ts "\<lambda>t. t" "fail_task L" s'] by simp
  from only_shares [OF this] have "sd_active (fail_all L msg s) = []"
    by (simp add: fail_all_def Let_def shares_def)
  then show ?thesis by (rule pool_ok_empty)
qed

lemma pool_ok_catch:
  assumes "pool_ok cfg (snd r)" "\<And>s. pool_ok cfg s \<Longrightarrow> pool_ok cfg (snd (f s))"
  shows "pool_ok cfg (snd (catch_throw L r f))"
  using assms by (auto simp: catch_throw_def split: prod.splits option.splits halt.splits)

lemma pool_ok_submit:
  assumes "pool_ok cfg s" "share (sd_tasks s t) = 0" "own_share cfg (sd_tasks s t)"
  shows "pool_ok cfg (submit L t s)"
proof -
  let ?s2 = "put_task t (\<lambda>k. k\<lparr>tk_started_at := fst (steady_now L (sd_machine s))\<rparr>)
    (on_machine (\<lambda>m. snd (steady_now L m)) s)"
  have p: "pools ?s2 = pools s"
    by (simp add: pool_view_def task_pool_def prompt_positions_def)
  have k: "pool_keeps s ?s2" by (simp add: pool_keeps_def p)
  have "pool_keeps ?s2 (push_event L t ev (free_sampler L t ?s2))" for ev
    by (rule pool_keeps_only [OF only_step [OF only_free only_push]]) simp
  then have r: "pool_ok cfg (push_event L t ev (free_sampler L t ?s2))" for ev
    using pool_ok_after [OF assms(1) pool_keeps_trans [OF k]] by blast
  have "pool_ok cfg ?s2" by (rule pool_ok_after [OF assms(1) k])
  then have a: "pool_ok cfg (?s2\<lparr>sd_active := sd_active ?s2 @ [t]\<rparr>)"
    using pool_keeps_share [OF k, where t = t] assms(2,3)
    by (auto simp: pool_ok_def pool_total_def)
  show ?thesis using r a by (simp add: submit_def Let_def)
qed

lemma pool_ok_replace:
  assumes "pool_ok cfg s" "share k = 0" "own_share cfg k"
  shows "pool_ok cfg (put_task t (\<lambda>_. k) s)"
proof -
  have "pool_total (sd_tasks (put_task t (\<lambda>_. k) s)) ts \<le> pool_total (sd_tasks s) ts"
    if "set ts \<subseteq> set (sd_active s)" for ts
    unfolding pool_total_def
    by (rule sum_list_mono) (use assms that share_nonneg in \<open>auto simp: pool_ok_def\<close>)
  from this [OF order.refl] show ?thesis
    using assms unfolding pool_ok_def by (auto intro: order.trans)
qed

lemma fresh_share: "fresh_task k \<Longrightarrow> share k = 0 \<and> own_share cfg k"
  by (simp add: fresh_task_def task_parts share_def own_share_def SlotTask_def)

lemma pool_ok_outside:
  assumes "pool_ok cfg s" "list_all (\<lambda>(t, k). fresh_task k) (submissions evs)"
  shows "pool_ok cfg (outside_all L evs s)"
  using assms
proof (induction evs arbitrary: s)
  case (Cons ev evs)
  have "pool_ok cfg (outside L ev s)"
  proof (cases ev)
    case (SubmitTask t k)
    then have "share k = 0" "own_share cfg k" using Cons.prems(2) fresh_share by auto
    then show ?thesis
      using SubmitTask pool_ok_submit [of cfg "put_task t (\<lambda>_. k) s" t L]
        pool_ok_replace [OF Cons.prems(1)] by simp
  next
    case StopScheduler
    then show ?thesis using Cons.prems(1) by (simp add: pool_ok_def)
  qed (rule pool_ok_after [OF Cons.prems(1)],
       simp add: pool_keeps_def pool_view_def task_pool_def prompt_positions_def)+
  moreover have "list_all (\<lambda>(t, k). fresh_task k) (submissions evs)"
    using Cons.prems(2) by (cases ev) simp_all
  ultimately show ?case using Cons.IH by (simp add: outside_all_def)
qed (simp add: outside_all_def)

lemma pool_ok_admission:
  assumes "pool_ok cfg s" "distinct (sd_active s)"
    and "admission L cfg (sd_active s) s = (tasks, runnable, s')"
  shows "pool_ok cfg s'"
proof (cases "sc_bounded_pool cfg")
  case False
  then show ?thesis using assms by (auto simp: admission_def)
next
  case True
  obtain run rej s1 where a: "admit_bounded_pool_tasks L cfg (sd_active s) s = (run, rej, s1)"
    by (metis prod_cases3)
  have "only (set (sd_active s)) s s1"
  proof -
    obtain new where "admit_result s (sd_active s) new rej s1"
      using admit_loop_result a assms(2) unfolding admit_bounded_pool_tasks_def Let_def by fastforce
    then have "only (set new) s s1" "set new \<subseteq> set (sd_active s)"
      unfolding admit_result_def by blast+
    then show ?thesis by (rule only_mono)
  qed
  then have act: "sd_active s1 = sd_active s" using only_shares by (auto simp: shares_def)
  have p1: "pool_ok cfg s1"
    using admit_tasks_pool(1,2) [OF a assms(2)] assms(1) by (simp add: pool_ok_def act)
  have m: "pool_keeps s1 (fold mark_waiting (sd_active s) s1)"
    by (rule pool_keeps_only [OF fold_mark_shares pools_fold]) (simp add: mark_waiting_def)
  have d: "pool_keeps s2 (drop_active ts s2)" for ts and s2 :: "'a scheduler"
    by (simp add: pool_keeps_def drop_active_def mset_filter)
  have r: "pool_keeps s3 (fold (reject_task L) rej s3)" for s3 :: "'a scheduler"
    by (rule pool_keeps_fold, rule pool_keeps_only [OF only_reject]) (simp add: reject_task_def)
  have "s' = fold (reject_task L) rej
      (drop_active (map fst rej) (fold mark_waiting (sd_active s) s1))"
    using assms(3) True a by (simp add: admission_def Let_def)
  then show ?thesis
    using pool_ok_after [OF p1 pool_keeps_trans [OF pool_keeps_trans [OF m d] r]] by simp
qed

lemma pool_keeps_settle_flagged: "pool_keeps s (settle_flagged L cfg s)"
proof -
  have 1: "pool_keeps s (fold (\<lambda>t s'. clear_sequence L cfg (tk_slot_id (sd_tasks s' t)) s') ts s)" for ts
    by (rule pool_keeps_fold, rule pool_keeps_only [where T = "{}"]) (simp_all add: pools_def)
  have 2: "pool_keeps s' (drop_active ts s')" for ts and s' :: "'a scheduler"
    by (simp add: pool_keeps_def drop_active_def mset_filter)
  have 3: "pool_keeps s' (fold (finish_cancelled L) ts s')" "pool_keeps s' (fold (finish_stopped L) ts s')"
    for ts and s' :: "'a scheduler"
    by (rule pool_keeps_fold, rule pool_keeps_only, rule only_finish,
        simp add: finish_cancelled_def finish_stopped_def)+
  show ?thesis
    unfolding settle_flagged_def Let_def by (intro pool_keeps_trans [OF _ 3(2)] pool_keeps_trans [OF _ 3(1)]
      pool_keeps_trans [OF 1 2])
qed

lemma pool_keeps_settle_completed: "pool_keeps s (settle_completed L s)"
proof -
  have "pool_keeps s (drop_active (sd_completed s) s)"
    by (simp add: pool_keeps_def drop_active_def mset_filter)
  moreover have "pool_keeps s' (fold (finish_completed L) ts s')" for ts and s' :: "'a scheduler"
    by (rule pool_keeps_fold, rule pool_keeps_only, rule only_finish, simp add: finish_completed_def)
  ultimately show ?thesis unfolding settle_completed_def using pool_keeps_trans by blast
qed

lemma pool_ok_distribute:
  assumes "pool_ok cfg s" "list_all (\<lambda>(t, k). fresh_task k) (submissions (w 5))"
  shows "pool_ok cfg (snd (distribute L cfg w tasks elapsed s))"
proof -
  have f: "pool_keeps s' (fold (record_contribution n e) cs s')"
    "pool_keeps s' (fold (capture_replay L) ts s')" "pool_keeps s' (fold (capture_checkpoint L cfg) ts s')"
    "pool_keeps s' (fold (sample_task L cfg) ts s')" "pool_keeps s' (fold (report_progress L cfg) ts s')"
    for s' :: "'a scheduler" and n e cs ts
    by (rule pool_keeps_fold, rule pool_keeps_only, rule local_op, simp)+
  define s1 where "s1 = fold (record_contribution (int (length (sd_batch s))) elapsed)
    (sd_prompt_contributions s) s"
  obtain ok s2 where m: "(if sc_has_speculative cfg \<and> sd_process_mtp s1
      then ask (speculative_process L (sd_batch s1)) s1 else (True, s1)) = (ok, s2)"
    by fastforce
  have "s2 = s1 \<or> (\<exists>g. s2 = on_machine g s1)" using m by (auto split: if_splits)
  then have "pool_keeps s1 s2" by (auto simp: pool_keeps_def)
  moreover have "pool_keeps s s1" unfolding s1_def by (rule f)
  ultimately have 2: "pool_ok cfg s2" using pool_ok_after [OF assms(1)] pool_keeps_trans by blast
  let ?s3 = "fold (capture_replay L) (sd_replay_checkpoint_ready s2) s2"
  let ?s4 = "fold (capture_checkpoint L cfg) (sd_checkpoint_ready s2) ?s3"
  have 4: "pool_ok cfg (fold (sample_task L cfg) tasks (fold (capture_checkpoint L cfg) ts ?s3))" for ts
    by (rule pool_ok_after [OF 2], intro pool_keeps_trans [OF _ f(4)] pool_keeps_trans [OF _ f(3)] f(2))
  have 5: "pool_ok cfg (snd (for_each_task (verify_task L cfg) tasks s'))" if "pool_ok cfg s'"
    for s' :: "'a scheduler"
    by (rule pool_ok_after [OF that], rule pool_keeps_for_each) (simp_all add: only_verify)
  have 6: "pool_ok cfg (settle_completed L (outside_all L (w 5)
      (fold (report_progress L cfg) tasks s')))" if "pool_ok cfg s'" for s' :: "'a scheduler"
    by (rule pool_ok_after [OF _ pool_keeps_settle_completed],
        rule pool_ok_outside [OF pool_ok_after [OF that f(5)] assms(2)])
  show ?thesis
    unfolding distribute_def Let_def s1_def [symmetric] m
    by (cases ok) (simp_all add: pool_ok_catch 5 6 4)
qed

lemma pool_ok_round:
  assumes "pool_ok cfg s" "chan_inv N F is_idle s" "fresh_events F (round_events w)"
  shows "pool_ok cfg (snd (run_round L cfg w s))"
proof -
  have fr: "list_all (\<lambda>(t, k). fresh_task k) (submissions (w i))" if "i \<le> 5" for i
    using that assms(3) by (auto simp: fresh_events_def round_events_def submissions_append
        numeral_eq_Suc le_Suc_eq)
  note fe = round_prefixes [OF assms(3) [unfolded round_events_def]]
  let ?s0 = "outside_all L (w 0) s"
  have c0: "chan_inv N (F - submitted_in (w 0)) is_idle ?s0"
    by (rule chan_outside' [OF assms(2) robust_basic(2) fe(1)])
  have p0: "pool_ok cfg ?s0" by (rule pool_ok_outside [OF assms(1) fr]) simp
  let ?b = "fold (begin_task L cfg) (sd_active ?s0) ?s0"
  have ob: "only (set (sd_active ?s0)) ?s0 ?b"
    using only_fold [of "sd_active ?s0" "\<lambda>t. t" "begin_task L cfg" ?s0] by (simp add: only_begin)
  then have ab: "sd_active ?b = sd_active ?s0" using only_shares by (fastforce simp: shares_def)
  have pb: "pool_ok cfg ?b" by (rule pool_ok_after [OF p0 pool_keeps_only [OF ob pools_fold]]) simp
  obtain tasks runnable s1 where ad: "admission L cfg (sd_active ?b) ?b = (tasks, runnable, s1)"
    by (metis prod_cases3)
  have p1: "pool_ok cfg s1"
    by (rule pool_ok_admission [OF pb _ ad]) (use c0 ab in \<open>simp add: chan_inv_def\<close>)
  have p2: "pool_ok cfg (outside_all L (w 1) s1)" by (rule pool_ok_outside [OF p1 fr]) simp
  define win where "win = mtp_window cfg runnable (outside_all L (w 1) s1)"
  define s3 where "s3 = fold (prepare_task L cfg win (length runnable)) runnable
    (outside_all L (w 1) s1)"
  have p3: "pool_ok cfg s3" unfolding s3_def
    by (rule pool_ok_after [OF p2], rule pool_keeps_fold, rule pool_keeps_only [OF only_prepare]) simp
  have g: "gather_tasks L cfg w ?s0 = (tasks, runnable, win, s3)"
    using ad ab by (simp add: gather_tasks_def Let_def win_def s3_def)
  have dr: "pool_ok cfg (snd (if win then draft_tasks L cfg runnable s3 else (None, s3)))"
  proof -
    have a: "pool_keeps s' (snd (for_each_task (capture_draft L cfg) ts s'))"
      "pool_keeps s' (snd (for_each_task (restore_draft L cfg) ts s'))" "pool_keeps s' (run_draft L ts s')"
      for ts and s' :: "'a scheduler"
      by (rule pool_keeps_for_each, rule only_capture_draft, simp,
          rule pool_keeps_for_each, rule only_restore_draft, simp,
          rule pool_keeps_only [OF only_run_draft], simp)
    have "pool_keeps s3 (snd (draft_tasks L cfg runnable s3))"
      unfolding draft_tasks_def Let_def snd_try_next
      using pool_keeps_trans [OF pool_keeps_trans [OF a(1) a(3)] a(2)] a(1) by simp
    then show ?thesis using pool_ok_after [OF p3] p3 by simp
  qed
  have bu: "pool_ok cfg (snd (snd (build_batch L cfg w tasks runnable s')))" if "pool_ok cfg s'"
    for s' :: "'a scheduler"
  proof -
    obtain lim ord s4 where o: "order_tasks cfg tasks runnable (outside_all L (w 2) s') =
        (lim, ord, s4)" by (metis prod_cases3)
    have "pool_keeps (outside_all L (w 2) s') s4"
      using o by (auto simp: order_tasks_def pool_keeps_def pools_def split: prod.splits)
    then have "pool_ok cfg s4" using pool_ok_after [OF pool_ok_outside [OF that fr [of 2]]] by simp
    then have "pool_ok cfg (outside_all L (w 3) s4)" by (rule pool_ok_outside [OF _ fr]) simp
    then show ?thesis
      unfolding build_batch_def o prod.case snd_conv
      by (rule pool_ok_after) (rule pool_keeps_for_each, rule only_batch_task, simp)
  qed
  have rest: "pool_ok cfg (snd (after_build L cfg w ordered s'))" if "pool_ok cfg s'"
    for s' :: "'a scheduler" and ordered
  proof -
    define s4 where "s4 = settle_flagged L cfg (outside_all L (w 4) s')"
    have p4: "pool_ok cfg s4" unfolding s4_def
      by (rule pool_ok_after [OF pool_ok_outside [OF that fr] pool_keeps_settle_flagged]) simp
    obtain rc elapsed s5 where d: "decode_batch L s4 = ((rc, elapsed), s5)" by (metis prod_cases3 prod.exhaust)
    have "pool_keeps s4 (snd (decode_batch L s4))"
      by (simp add: decode_batch_def Let_def pool_keeps_def)
    then have "pool_ok cfg s5" using pool_ok_after [OF p4] d by simp
    then show ?thesis
      using p4 pool_ok_distribute [of cfg s5 w L ordered elapsed] fr [of 5] d
      by (simp add: after_build_def Let_def s4_def [symmetric])
  qed
  have "pool_ok cfg (snd (catch_throw L (if win then draft_tasks L cfg runnable s3 else (None, s3))
      (\<lambda>s2. case build_batch L cfg w tasks runnable s2 of
        (ordered, built) \<Rightarrow> catch_throw L built (after_build L cfg w ordered))))"
  proof (rule pool_ok_catch [OF dr])
    fix s' :: "'a scheduler"
    assume "pool_ok cfg s'"
    then show "pool_ok cfg (snd (case build_batch L cfg w tasks runnable s' of
        (ordered, built) \<Rightarrow> catch_throw L built (after_build L cfg w ordered)))"
      using bu [of s'] rest pool_ok_catch
      by (cases "build_batch L cfg w tasks runnable s'") (simp add: pool_ok_catch)
  qed
  then show ?thesis
    using p0 unfolding run_round_def Let_def g prod.case after_build_def [abs_def]
    by (simp add: Let_def)
qed

text \<open>The loop, observed after any number of rounds.\<close>

lemma pool_ok_loop:
  assumes "pool_ok cfg s" "chan_inv N F is_idle s" "fresh_events F (loop_events ws)"
  shows "pool_ok cfg (loop_state L cfg ws s)"
  using assms
proof (induction ws arbitrary: F s)
  case (Cons w ws)
  have ev: "loop_events (w # ws) = round_events w @ loop_events ws" by (simp add: loop_events_def)
  have fe: "fresh_events F (round_events w)"
    "fresh_events (F - submitted_in (round_events w)) (loop_events ws)"
    using fresh_append [of F "round_events w" "loop_events ws"] Cons.prems(3) ev by simp_all
  obtain r s1 where r: "run_round L cfg w s = (r, s1)" by fastforce
  have p: "pool_ok cfg s1" using pool_ok_round [OF Cons.prems(1,2) fe(1), of L] r by simp
  have ok: "round_ok N (F - submitted_in (round_events w)) (r, s1)"
    using chan_round [OF Cons.prems(2) fe(1), of L cfg] r by simp
  show ?case
    using Cons.IH [OF p _ fe(2)] ok p r
    by (cases r) (simp_all add: round_ok_def leave_loop_def)
qed simp

end
