(* ===== verification/Batch_Reach.thy ===== *)
theory Batch_Reach
  imports Batch_Assembly Batch_Progress Batch_Prefix Batch_Pool
begin

text \<open>
  The scheduler from its construction on: \<open>between L cfg F s\<close> says that \<open>s\<close> is a state its thread
  can be in between two rounds, whatever other threads did until then, and that the handles of \<open>F\<close>
  have not been submitted. What the earlier theories show of one round holds of all these states.
\<close>

section \<open>Construction\<close>

text \<open>
  The members as the constructor initialises them: the contexts by \<^verbatim>\<open>llama_n_ctx\<close>, the speculative
  decoder by the longest draft it makes; \<open>None\<close> for a null pointer.
\<close>

definition scheduler_config ::
  "int option \<Rightarrow> int option \<Rightarrow> int option \<Rightarrow> bool \<Rightarrow> bool \<Rightarrow> int \<Rightarrow> int \<Rightarrow> bool \<Rightarrow> bool \<Rightarrow> sched_config"
where
  "scheduler_config ctx draft_ctx speculative has_mtmd other_is_target n_batch
     mtp_max_active_requests seq_rm_full bounded_pool =
     \<lparr>sc_has_draft = draft_ctx \<noteq> None,
      sc_has_speculative = speculative \<noteq> None,
      sc_has_mtmd = has_mtmd,
      sc_ctx_other_is_target = other_is_target,
      sc_n_batch = n_batch,
      sc_mtp_max_active_requests = max 1 mtp_max_active_requests,
      sc_draft_seq_rm_full = seq_rm_full,
      sc_bounded_pool = bounded_pool,
      sc_context_capacity = (case ctx of None \<Rightarrow> 0 | Some n \<Rightarrow> n),
      sc_draft_context_capacity = (case draft_ctx of None \<Rightarrow> 0 | Some n \<Rightarrow> n),
      sc_draft_margin = (case speculative of None \<Rightarrow> 0 | Some n \<Rightarrow> max 0 n)\<rparr>"

definition ContinuousBatchScheduler :: "'m \<Rightarrow> 'm scheduler" where
  "ContinuousBatchScheduler m =
     \<lparr>sd_tasks = (\<lambda>_. SlotTask), sd_machine = m, sd_active = [], sd_terminal_error = [],
      sd_failed = False, sd_stop = False, sd_batch_turn = 0, sd_batch = [], sd_process_mtp = False,
      sd_cancelled = [], sd_stopped = [], sd_checkpoint_ready = [],
      sd_replay_checkpoint_ready = [], sd_prompt_contributions = [], sd_completed = []\<rparr>"

section \<open>States between rounds\<close>

inductive between :: "'m llama \<Rightarrow> sched_config \<Rightarrow> handle set \<Rightarrow> 'm scheduler \<Rightarrow> bool" for L cfg where
  Start: "between L cfg UNIV (ContinuousBatchScheduler m)"
| Round: "between L cfg F s \<Longrightarrow> \<not> sd_stop s \<Longrightarrow> fresh_events F (round_events w) \<Longrightarrow>
    run_round L cfg w s = (NextRound, s') \<Longrightarrow>
    between L cfg (F - submitted_in (round_events w)) s'"
| Outside: "between L cfg F s \<Longrightarrow> fresh_events F evs \<Longrightarrow>
    between L cfg (F - submitted_in evs) (outside_all L evs s)"

lemma between_channels: "between L cfg F s \<Longrightarrow> chan_inv UNIV F is_idle s"
proof (induction rule: between.induct)
  case (Start m)
  then show ?case
    by (simp add: ContinuousBatchScheduler_def chan_inv_def unused_def settled_def SlotTask_def)
next
  case (Round F s w s')
  show ?case using chan_round [OF Round.IH Round.hyps(3), of L cfg] Round.hyps(4)
    by (simp add: round_ok_def)
next
  case (Outside F s evs)
  show ?case
    using chan_outside [OF Outside.IH robust_basic(2) Outside.hyps(2)]
    by (simp add: submitted_in_def)
qed

lemma between_pool: "between L cfg F s \<Longrightarrow> pool_ok cfg s"
proof (induction rule: between.induct)
  case (Start m)
  then show ?case by (simp add: ContinuousBatchScheduler_def pool_ok_empty)
next
  case (Round F s w s')
  show ?case
    using pool_ok_round [OF Round.IH between_channels [OF Round.hyps(1)] Round.hyps(3), of L]
      Round.hyps(4) by simp
next
  case (Outside F s evs)
  show ?case
    by (rule pool_ok_outside [OF Outside.IH]) (use Outside.hyps(2) in \<open>simp add: fresh_events_def\<close>)
qed

text \<open>Tasks that are active now will have been answered when the loop ends.\<close>

lemma active_not_settled:
  assumes "chan_inv N F A s"
  shows "chan_inv (N - set (sd_active s)) F A s"
  using assms by (auto simp: chan_inv_def settled_def)

lemma loop_answers:
  assumes "chan_inv UNIV F is_idle s" "fresh_events F (loop_events ws)"
    and "run_loop L cfg ws s = Some s'"
  shows "sd_active s' = []" "t \<in> set (sd_active s) \<Longrightarrow> closed_queue (sd_tasks s' t)"
    "settled UNIV t (sd_tasks s' t)"
proof -
  note c = chan_loop [OF active_not_settled [OF assms(1)] assms(2,3)]
  show a: "sd_active s' = []" by (rule c(2))
  show "closed_queue (sd_tasks s' t)" if "t \<in> set (sd_active s)"
    using c(1) a that by (auto simp: chan_inv_def settled_def)
  show "settled UNIV t (sd_tasks s' t)"
    using c(1) a by (auto simp: chan_inv_def settled_def)
qed

text \<open>A scheduler that has failed or is stopped answers a submission at once, with one error.\<close>

lemma submit_refuses:
  assumes "sd_terminal_error s \<noteq> [] \<or> sd_stop s"
  shows "sd_active (submit L t s) = sd_active s"
    "tk_out_queue (sd_tasks (submit L t s) t) = tk_out_queue (sd_tasks s t) @
       [error_event (if sd_terminal_error s \<noteq> [] then sd_terminal_error s else ''scheduler stopped'')]"
  using assms
  by (auto simp: submit_def Let_def push_event_def free_sampler_def error_event_def TokenEvent_def
      split: option.splits)

lemma leave_loop_fails:
  "sd_failed (leave_loop L s)" "sd_terminal_error (leave_loop L s) \<noteq> []"
proof -
  let ?s1 = "s\<lparr>sd_failed := True, sd_terminal_error := (if sd_terminal_error s = []
    then (if sd_stop s then ''scheduler stopped'' else ''scheduler terminated'')
    else sd_terminal_error s), sd_active := []\<rparr>"
  have "only {t} s' (fail_task L t s')" for t and s' :: "'a scheduler"
    unfolding fail_task_def by (rule only_step [OF only_free only_push])
  then have "only (set (sd_active s)) ?s1 (fold (fail_task L) (sd_active s) ?s1)"
    using only_fold [of "sd_active s" "\<lambda>t. t" "fail_task L" ?s1] by simp
  from only_shares [OF this]
  show "sd_failed (leave_loop L s)" "sd_terminal_error (leave_loop L s) \<noteq> []"
    by (auto simp: leave_loop_def fail_all_def Let_def shares_def)
qed

lemma run_loop_fails:
  "run_loop L cfg ws s = Some s' \<Longrightarrow> sd_failed s' \<and> sd_terminal_error s' \<noteq> []"
  by (induction ws arbitrary: s)
     (auto simp: leave_loop_fails split: if_splits prod.splits round_end.splits)

section \<open>The media loop ends\<close>

text \<open>
  As many turns as the prompt has tokens are enough when every chunk has at least one: the loop
  ends by itself, or with an exception.
\<close>

lemma eval_media_returns:
  assumes "list_all (\<lambda>c. 0 < mc_token_count c) (tk_media_chunks (sd_tasks s t))"
    and "int (length (tk_prompt_tokens (sd_tasks s t))) - tk_prompt_pos (sd_tasks s t) \<le> int n"
  shows "fst (eval_media L cfg n t s) \<noteq> Some NoReturn"
  using assms
proof (induction n arbitrary: s)
  case 0
  then show ?case by (simp add: at_media_def)
next
  case (Suc n)
  obtain r s1 where c: "eval_chunk L cfg t s = (r, s1)" by fastforce
  have r: "r \<noteq> Some NoReturn"
    using c by (auto simp: eval_chunk_def Let_def split: option.splits prod.splits if_splits)
  show ?case
  proof (cases r)
    case None
    then obtain media d where m: "media_at cfg (sd_tasks s t) = Some (media, d)"
      using c by (auto simp: eval_chunk_def Let_def split: option.splits)
    then have "media \<in> set (tk_media_chunks (sd_tasks s t))"
      by (auto simp: media_at_def find_Some_iff split: option.splits if_splits)
    then have pos: "0 < mc_token_count media" using Suc.prems(1) by (simp add: list_all_iff)
    have "tk_media_chunks (sd_tasks s1 t) = tk_media_chunks (sd_tasks s t)"
      "tk_prompt_tokens (sd_tasks s1 t) = tk_prompt_tokens (sd_tasks s t)"
      "tk_prompt_pos (sd_tasks s1 t) = tk_prompt_pos (sd_tasks s t) + mc_token_count media"
      using c None m by (auto simp: eval_chunk_def Let_def split: prod.splits if_splits)
    then show ?thesis using Suc.IH [of s1] Suc.prems pos None c by (simp add: try_next_def)
  next
    case (Some e)
    then show ?thesis using r c by (simp add: try_next_def)
  qed
qed

end
