(* ===== verification/Example_Scheduler.thy ===== *)
theory Example_Scheduler
  imports Batch_Reach
begin

text \<open>
  A machine small enough to run the scheduler on: every sequence of a context holds a number of
  positions, decoding appends to the target context, sampling always yields the same token. It
  satisfies what the scheduler relies on, and the properties are instantiated on it.
\<close>

text \<open>
  For evaluation in the kernel: the value stored at a point is computed once, and the continuation of
  a step only when there is a result to continue with.
\<close>

declare fun_upd_def [code del] fun_upd_apply [code]

declare try_next_def [code_unfold] catch_throw_def [code_unfold] and_also_def [code_unfold]

record toy =
  toy_clock :: int
  toy_cells :: "llama_ctx \<Rightarrow> int \<Rightarrow> nat"

definition set_cells :: "llama_ctx \<Rightarrow> int \<Rightarrow> nat \<Rightarrow> toy \<Rightarrow> toy" where
  "set_cells c seq n m =
     m\<lparr>toy_cells := (toy_cells m)(c := (toy_cells m c)(seq := n))\<rparr>"

definition toy_llama :: "toy llama" where
  "toy_llama =
     \<lparr>has_memory = (\<lambda>m c. True),
      seq_pos_max = (\<lambda>m c seq. int (toy_cells m c seq) - 1),
      seq_rm = (\<lambda>c seq p m. (True, set_cells c seq (min (toy_cells m c seq) (nat p)) m)),
      n_seq_max = (\<lambda>m. 4),
      state_seq_get_size = (\<lambda>m c seq. 0),
      state_seq_get_data = (\<lambda>m c n seq. (0, [])),
      state_seq_set_data = (\<lambda>c data seq m. (0, m)),
      llama_decode = (\<lambda>b m. (0, fold (\<lambda>e. set_cells Target (be_seq_id e) (nat (be_pos e + 1))) b m)),
      llama_synchronize = (\<lambda>m. m),
      eval_chunk_single = (\<lambda>data pos seq n m. ((0, pos + 1), m)),
      sampler_free = (\<lambda>p m. m),
      sampler_sample = (\<lambda>p i m. (5, m)),
      sampler_candidates = (\<lambda>p m. ([], m)),
      sampler_accept = (\<lambda>p tok m. m),
      sample_and_accept_n = (\<lambda>p i d m. (d @ [5], m)),
      vocab_is_eog = (\<lambda>tok. tok = 2),
      drafting_off = (\<lambda>seq m. m),
      set_draft_params = (\<lambda>seq n tok toks h m. m),
      speculative_draft = (\<lambda>m. (\<lambda>h. [], m)),
      speculative_process = (\<lambda>b m. (True, m)),
      speculative_begin = (\<lambda>seq toks m. m),
      speculative_accept = (\<lambda>seq n m. m),
      steady_now = (\<lambda>m. (toy_clock m, m\<lparr>toy_clock := toy_clock m + 1\<rparr>))\<rparr>"

lemma toy_prefix_cache: "prefix_cache toy_llama"
  by (auto simp: prefix_cache_def toy_llama_def set_cells_def)

abbreviation toy_start :: toy where
  "toy_start \<equiv> \<lparr>toy_clock = 0, toy_cells = (\<lambda>c seq. 0)\<rparr>"

section \<open>Configurations, tasks, a schedule\<close>

definition ex_cfg :: sched_config where
  "ex_cfg = scheduler_config (Some 64) None None False False 4 1 False False"

definition ex_pool_cfg :: sched_config where
  "ex_pool_cfg = scheduler_config (Some 10) None None False False 4 1 False True"

definition ex_task :: "int \<Rightarrow> token list \<Rightarrow> int \<Rightarrow> slot_task" where
  "ex_task slot toks n = SlotTask\<lparr>tk_slot_id := slot, tk_prompt_tokens := toks, tk_max_tokens := n\<rparr>"

lemma ex_task_fresh: "fresh_task (ex_task slot toks n)"
  by (simp add: ex_task_def fresh_task_def task_parts SlotTask_def)

text \<open>Two tasks submitted to a new scheduler.\<close>

definition two_tasks :: "outside_event list" where
  "two_tasks = [SubmitTask 0 (ex_task 0 [11, 12, 13] 2), SubmitTask 1 (ex_task 1 [11, 12] 3)]"

definition ex_two :: "toy scheduler" where
  "ex_two = outside_all toy_llama two_tasks (ContinuousBatchScheduler toy_start)"

lemma two_tasks_fresh: "fresh_events UNIV two_tasks"
  by (simp add: two_tasks_def fresh_events_def ex_task_fresh)

lemma ex_two_between: "between toy_llama cfg (UNIV - submitted_in two_tasks) ex_two"
  unfolding ex_two_def by (rule between.Outside [OF between.Start two_tasks_fresh])

lemma ex_two_state:
  "sd_active ex_two = [0, 1]" "sd_stop ex_two = False"
  "sd_tasks ex_two 0 = (ex_task 0 [11, 12, 13] 2)\<lparr>tk_started_at := 0\<rparr>"
  "sd_tasks ex_two 1 = (ex_task 1 [11, 12] 3)\<lparr>tk_started_at := 1\<rparr>"
  by (simp_all add: ex_two_def two_tasks_def outside_all_def submit_def toy_llama_def
        ContinuousBatchScheduler_def Let_def)

text \<open>One task that is answered in its first round, and a stop after it.\<close>

definition ex_one :: "toy scheduler" where
  "ex_one = outside_all toy_llama [SubmitTask 0 (ex_task 0 [11] 1)]
     (ContinuousBatchScheduler toy_start)"

definition one_schedule :: "(nat \<Rightarrow> outside_event list) list" where
  "one_schedule = [nobody, \<lambda>i. if i = 0 then [StopScheduler] else []]"

lemma ex_one_between: "between toy_llama cfg (UNIV - {0}) ex_one"
proof -
  have "fresh_events UNIV [SubmitTask 0 (ex_task 0 [11] 1)]"
    by (simp add: fresh_events_def ex_task_fresh)
  from between.Outside [OF between.Start this] show ?thesis
    by (simp add: ex_one_def submitted_in_def)
qed

lemma one_schedule_fresh: "fresh_events F (loop_events one_schedule)"
  by (simp add: one_schedule_def loop_events_def round_events_def fresh_events_def)

lemma ex_one_ends:
  "map_option (\<lambda>s. map ev_id (tk_out_queue (sd_tasks s 0)))
     (run_loop toy_llama ex_cfg one_schedule ex_one) = Some [5, 0]"
  by code_simp

lemma ex_one_run:
  obtains s' where "run_loop toy_llama ex_cfg one_schedule ex_one = Some s'"
    "map ev_id (tk_out_queue (sd_tasks s' 0)) = [5, 0]"
  using ex_one_ends by (cases "run_loop toy_llama ex_cfg one_schedule ex_one") simp_all

end
