(* ===== verification/Scheduler_Properties.thy ===== *)
theory Scheduler_Properties
  imports Example_Scheduler
begin

text \<open>
  Properties of the continuous batching scheduler: what its callers are promised, the batches it
  gives to llama.cpp, the cache a task starts on and the bounded context pool.
\<close>

section \<open>The callers' channels\<close>

text \<open>
  Between two rounds the tokens of an active task have been pushed without a done event, and
  no more than its limit; a task that is not active has pushed nothing, or exactly one done event,
  as the last one. Nothing is pushed for a task that was never submitted.
\<close>

lemma channels_between_rounds:
  assumes "between L cfg F s"
  shows "distinct (sd_active s) \<and> list_all (\<lambda>t. open_queue (sd_tasks s t)) (sd_active s) \<and>
    (u \<in> set (sd_active s) \<or> tk_out_queue (sd_tasks s u) = [] \<or> closed_queue (sd_tasks s u)) \<and>
    (u \<in> F \<longrightarrow> u \<notin> set (sd_active s) \<and> tk_out_queue (sd_tasks s u) = [])"
  using between_channels [OF assms]
  by (auto simp: chan_inv_def is_idle_def settled_def unused_def list_all_iff intro: task_open)

lemma channels_between_rounds_witness:
  "sd_active ex_two = [0, 1] \<and> open_queue (sd_tasks ex_two 0) \<and> tk_out_queue (sd_tasks ex_two 5) = []"
  using channels_between_rounds [OF ex_two_between, of 5]
  by (simp add: ex_two_state submitted_in_def two_tasks_def)

text \<open>
  \<^bold>\<open>C9.\<close> When the scheduler's thread ends, whether it was stopped, llama.cpp failed or an exception
  was thrown, every task that was active has got exactly one done event, the last of its channel,
  after at most as many tokens as it asked for (and one when it asked for none), whatever other
  threads submitted, cancelled or stopped meanwhile.
\<close>

lemma scheduler_answers_every_task:
  assumes "between L cfg F s" "fresh_events F (loop_events ws)" "run_loop L cfg ws s = Some s'"
  shows "sd_active s' = [] \<and>
    list_all (\<lambda>t. closed_queue (sd_tasks s' t)) (sd_active s) \<and>
    (tk_out_queue (sd_tasks s' u) = [] \<or> closed_queue (sd_tasks s' u))"
  using loop_answers [OF between_channels [OF assms(1)] assms(2,3)]
  by (auto simp: list_all_iff settled_def)

lemma scheduler_answers_every_task_witness:
  "\<exists>s'. run_loop toy_llama ex_cfg one_schedule ex_one = Some s' \<and> sd_active ex_one = [0] \<and>
     closed_queue (sd_tasks s' 0) \<and> map ev_id (tk_out_queue (sd_tasks s' 0)) = [5, 0]"
proof -
  obtain s' where r: "run_loop toy_llama ex_cfg one_schedule ex_one = Some s'"
    "map ev_id (tk_out_queue (sd_tasks s' 0)) = [5, 0]" by (rule ex_one_run)
  have "sd_active ex_one = [0]"
    by (simp add: ex_one_def outside_all_def submit_def toy_llama_def ContinuousBatchScheduler_def
          Let_def)
  then show ?thesis
    using scheduler_answers_every_task [OF ex_one_between one_schedule_fresh r(1)] r by simp
qed

text \<open>
  Once the thread has ended the scheduler is unhealthy and answers every later submission at
  once: the task does not become active and gets one done event that carries the terminal error.
\<close>

lemma ended_scheduler_refuses:
  assumes "run_loop L cfg ws s = Some s'"
  shows "\<not> healthy s' \<and> sd_terminal_error s' \<noteq> [] \<and>
    sd_active (submit L t s') = sd_active s' \<and>
    tk_out_queue (sd_tasks (submit L t s') t) =
      tk_out_queue (sd_tasks s' t) @ [error_event (sd_terminal_error s')]"
  using run_loop_fails [OF assms] submit_refuses [of s' L t] by (simp add: healthy_def)

lemma ended_scheduler_refuses_witness:
  "\<exists>s'. run_loop toy_llama ex_cfg one_schedule ex_one = Some s' \<and> \<not> healthy s' \<and>
     tk_out_queue (sd_tasks (submit toy_llama 7 s') 7) =
       tk_out_queue (sd_tasks s' 7) @ [error_event (sd_terminal_error s')]"
proof -
  obtain s' where r: "run_loop toy_llama ex_cfg one_schedule ex_one = Some s'"
    "map ev_id (tk_out_queue (sd_tasks s' 0)) = [5, 0]" by (rule ex_one_run)
  show ?thesis using ended_scheduler_refuses [OF r(1), of 7] r(1) by blast
qed



section \<open>Batches\<close>

text \<open>
  \<^bold>\<open>C24.\<close> A batch that is not empty fits \<^verbatim>\<open>n_batch\<close>. It is made of one part per task, in their
  order, each of it consecutive positions of the task's own sequence; and the logits a task will
  sample or verify from are marked entries of its own sequence.
\<close>

lemma batch_is_well_formed:
  assumes "distinct ts" "list_all (\<lambda>t. is_prepared t s) ts" "sd_batch s = []"
    and "for_each_task (batch_task L cfg lim) ts s = (r, s')"
  shows "(sd_batch s' = [] \<or> int (length (sd_batch s')) \<le> sc_n_batch cfg) \<and>
    (\<exists>parts. sd_batch s' = concat parts \<and> list_all2 (\<lambda>t p. part_of (sd_tasks s' t) p) ts parts) \<and>
    list_all (\<lambda>t. reads_own (sd_batch s') (sd_tasks s' t)) ts"
proof -
  have "assembled cfg ts [] s'"
    using assembled_for_each [OF assms(1), of s cfg L lim] assms(2-4) by (simp add: list_all_iff)
  then show ?thesis by (auto simp: assembled_def list_all_iff)
qed

lemma batch_is_well_formed_witness:
  "\<exists>s'. snd (for_each_task (batch_task toy_llama ex_cfg 2) [0, 1] ex_two) = s' \<and>
     length (sd_batch s') = 4 \<and> reads_own (sd_batch s') (sd_tasks s' 1)"
proof -
  obtain r s' where f: "for_each_task (batch_task toy_llama ex_cfg 2) [0, 1] ex_two = (r, s')"
    by fastforce
  have "is_prepared t ex_two" if "t = 0 \<or> t = 1" for t
    using that by (auto simp: is_prepared_def task_inv_def gen_inv_def ex_two_state ex_task_def
        SlotTask_def simp del: One_nat_def)
  moreover have "length (sd_batch (snd (for_each_task (batch_task toy_llama ex_cfg 2) [0, 1] ex_two))) = 4"
    by code_simp
  moreover have "sd_batch ex_two = []"
    by (simp add: ex_two_def two_tasks_def outside_all_def submit_def toy_llama_def Let_def
          ContinuousBatchScheduler_def)
  ultimately show ?thesis
    using batch_is_well_formed [of "[0, 1]" ex_two toy_llama ex_cfg 2 r s'] f by simp
qed

lemma decode_tokens_mset:
  assumes "mset xs = mset ys"
  shows "decode_tokens store xs = decode_tokens store ys" "prompt_count store xs = prompt_count store ys"
proof -
  have e: "decode_tokens store zs = sum_mset (image_mset (\<lambda>t. decode_need (store t))
      (filter_mset (\<lambda>t. is_live (store t) \<and> tk_prompt_done (store t)) (mset zs)))" for zs
    unfolding decode_tokens_def by (simp add: sum_mset_sum_list flip: mset_map mset_filter)
  have f: "prompt_count store zs = int (size
      (filter_mset (\<lambda>t. is_live (store t) \<and> \<not> tk_prompt_done (store t)) (mset zs)))" for zs
    unfolding prompt_count_def by (simp flip: mset_filter)
  show "decode_tokens store xs = decode_tokens store ys" unfolding e assms ..
  show "prompt_count store xs = prompt_count store ys" unfolding f assms ..
qed

lemma filter_by_slot: "filter P (by_slot store xs) = by_slot store (filter P xs)"
  by (simp add: by_slot_def filter_sort)

text \<open>
  \<^bold>\<open>C30.\<close> The order of a batch is a permutation of the runnable tasks with the generating ones first.
  When they all fit, the generating ones are by slot; when they do not, they rotate with the turn, so
  that the ones left out change. Where the generating tasks leave room, every prompt gets a quota of
  at least one token.
\<close>

lemma batch_order_permutes:
  assumes "prepare_batch_order store ts capacity turn = (quota, order)"
  shows "mset order = mset ts \<and>
    order = filter (\<lambda>t. tk_prompt_done (store t)) order @ filter (\<lambda>t. \<not> tk_prompt_done (store t)) order \<and>
    filter (\<lambda>t. tk_prompt_done (store t)) order =
      (if decode_tokens store ts \<le> capacity
       then by_slot store (filter (\<lambda>t. tk_prompt_done (store t)) (rotate (turn mod length ts) ts))
       else filter (\<lambda>t. tk_prompt_done (store t)) (rotate (turn mod length ts) ts)) \<and>
    (0 < prompt_count store ts \<and> decode_tokens store ts < capacity \<longrightarrow> 1 \<le> quota)"
proof (cases "ts = []")
  case True
  then show ?thesis using assms
    by (simp add: prepare_batch_order_def prompt_count_def by_slot_def)
next
  case False
  let ?r = "rotate (turn mod length ts) ts"
  let ?D = "\<lambda>t. tk_prompt_done (store t)" and ?P = "\<lambda>t. \<not> tk_prompt_done (store t)"
  let ?d = "if decode_tokens store ts \<le> capacity then by_slot store (filter ?D ?r) else filter ?D ?r"
  let ?n = "prompt_count store ts"
  let ?a = "prefill_available capacity (decode_tokens store ts) ?n"
  let ?p = "if ?n > 0 \<and> ?a \<ge> ?n \<and> ?a mod ?n = 0 then by_slot store (filter ?P ?r) else filter ?P ?r"
  have "mset ?r = mset ts" by (simp add: mset_rotate_turn)
  note m = decode_tokens_mset [OF this, of store]
  have e: "order = ?d @ ?p" "quota = (if ?n > 0 then (?a + ?n - 1) div ?n else 0)"
    using assms False by (auto simp: prepare_batch_order_def Let_def m)
  have f: "filter ?D ?d = ?d" "filter ?D ?p = []" "filter ?P ?d = []" "filter ?P ?p = ?p"
    by (simp_all add: filter_by_slot) (simp_all add: by_slot_def)
  have "1 \<le> quota" if "0 < ?n" "decode_tokens store ts < capacity"
  proof -
    have "1 \<le> max 1 (mixed_prefill_budget div ?n) * ?n" 
      using mult_mono [of 1 "max 1 (mixed_prefill_budget div ?n)" 1 ?n] that(1) by simp
    then have "1 \<le> ?a" using that by (simp add: prefill_available_def Let_def)
    then have "0 < (?a + ?n - 1) div ?n"
      using pos_imp_zdiv_pos_iff [of ?n "?a + ?n - 1"] that(1) by simp
    then show ?thesis using that(1) e(2) by simp
  qed
  moreover have "filter ?D order = ?d" "filter ?P order = ?p" unfolding e(1) filter_append f by simp_all
  ultimately show ?thesis using mset_order [OF assms] e(1) by simp
qed

lemma batch_order_permutes_witness:
  "prepare_batch_order (sd_tasks ex_two) [1, 0] 4 1 = (2, [0, 1]) \<and> mset [0, 1] = mset [1, 0 :: handle]"
proof -
  have "prepare_batch_order (sd_tasks ex_two) [1, 0] 4 1 = (2, [0, 1])" by code_simp
  then show ?thesis using batch_order_permutes by blast
qed

text \<open>
  The loop over the media chunks at the front of a prompt ends: with as much fuel as the prompt
  has tokens left, it runs out of chunks or throws, when every chunk stands for at least one token.
\<close>

lemma media_loop_returns:
  assumes "list_all (\<lambda>c. 0 < mc_token_count c) (tk_media_chunks (sd_tasks s t))"
    and "int (length (tk_prompt_tokens (sd_tasks s t))) - tk_prompt_pos (sd_tasks s t) \<le> int n"
  shows "fst (eval_media L cfg n t s) \<noteq> Some NoReturn"
  by (rule eval_media_returns [OF assms])

definition ex_media :: "toy scheduler" where
  "ex_media = put_task 0 (\<lambda>_. (ex_task 0 [- 1, - 1, 11] 2)\<lparr>tk_media_chunks :=
     [\<lparr>mc_token_start = 0, mc_token_count = 2, mc_position_count = 2, mc_data = Some 0\<rparr>]\<rparr>)
     (ContinuousBatchScheduler toy_start)"

lemma media_loop_returns_witness:
  "fst (eval_media toy_llama (ex_cfg\<lparr>sc_has_mtmd := True\<rparr>) 3 0 ex_media) \<noteq> Some NoReturn \<and>
   tk_prompt_pos (sd_tasks (snd (eval_media toy_llama (ex_cfg\<lparr>sc_has_mtmd := True\<rparr>) 3 0 ex_media)) 0) = 2"
proof -
  have "list_all (\<lambda>c. 0 < mc_token_count c) (tk_media_chunks (sd_tasks ex_media 0))"
    "int (length (tk_prompt_tokens (sd_tasks ex_media 0))) - tk_prompt_pos (sd_tasks ex_media 0) \<le> int 3"
    by (simp_all add: ex_media_def ex_task_def SlotTask_def)
  note r = media_loop_returns [OF this, of toy_llama "ex_cfg\<lparr>sc_has_mtmd := True\<rparr>"]
  have "tk_prompt_pos (sd_tasks (snd (eval_media toy_llama (ex_cfg\<lparr>sc_has_mtmd := True\<rparr>) 3 0 ex_media)) 0) = 2"
    by code_simp
  with r show ?thesis by blast
qed

section \<open>Cache and pool\<close>


definition ex_cached :: "toy scheduler" where
  "ex_cached = put_task 0 (\<lambda>_. (ex_task 0 [11, 12, 13, 14] 2)\<lparr>tk_last_prompt_tokens := [11, 12, 19]\<rparr>)
     (ContinuousBatchScheduler (set_cells Target 0 3 (set_cells Draft 0 1 toy_start)))"


text \<open>
  With a draft context whose cache is the shorter one, the target cache is not cut: the task starts
  at the end of the draft cache, below the end of its own.
\<close>

lemma shorter_draft_leaves_target_cache:
  fixes cfg
  defines "cfg \<equiv> ex_cfg\<lparr>sc_has_draft := True, sc_has_speculative := True\<rparr>"
    and "s \<equiv> put_task 0 (\<lambda>k. k\<lparr>tk_mtp_eligible := True\<rparr>) ex_cached"
  shows "tk_n_pos (sd_tasks (init_task toy_llama cfg 0 s) 0) = 1 \<and>
    cache_end toy_llama 0 (init_task toy_llama cfg 0 s) = 3"
  unfolding assms by code_simp

text \<open>A task with an empty prompt contributes to no batch: it stays active and is never answered.\<close>

lemma empty_prompt_is_not_answered:
  fixes s
  defines "s \<equiv> loop_state toy_llama ex_cfg (replicate 3 nobody)
    (outside_all toy_llama [SubmitTask 0 (ex_task 0 [] 5)] (ContinuousBatchScheduler toy_start))"
  shows "(sd_active s, tk_out_queue (sd_tasks s 0)) = ([0], [])"
  unfolding assms by code_simp

text \<open>
  \<^bold>\<open>C23.\<close> In every state between two rounds the reservations of the admitted tasks stay within the
  capacity of the bounded pool, and each admitted task holds the reservation of its own prompt,
  answer and draft margin.
\<close>

lemma pool_never_overcommitted:
  assumes "between L cfg F s"
  shows "pool_total (sd_tasks s) (sd_active s) \<le> max 0 (pool_capacity cfg) \<and>
    list_all (\<lambda>t. own_share cfg (sd_tasks s t)) (sd_active s)"
  using between_pool [OF assms] by (simp add: pool_ok_def list_all_iff)

lemma pool_never_overcommitted_witness:
  "sd_active ex_two = [0, 1] \<and> pool_total (sd_tasks ex_two) [0, 1] \<le> max 0 (pool_capacity ex_pool_cfg)"
  using pool_never_overcommitted [OF ex_two_between, of ex_pool_cfg] by (simp add: ex_two_state)

text \<open>
  Admission keeps the reservations within the capacity and takes the waiting tasks in their
  order: a first part of them is admitted or rejected, and the next one does not fit into what the
  admitted ones leave free.
\<close>

lemma admission_in_turn:
  assumes "admit_bounded_pool_tasks L cfg ts s = (run, rej, s')" "distinct ts"
    and "pool_total (sd_tasks s) ts \<le> max 0 (pool_capacity cfg)"
    and "list_all (\<lambda>t. own_share cfg (sd_tasks s t)) ts"
  shows "pool_total (sd_tasks s') ts \<le> max 0 (pool_capacity cfg) \<and>
    list_all (\<lambda>t. own_share cfg (sd_tasks s' t)) ts \<and>
    (\<exists>new. run = filter (\<lambda>t. tk_admitted (sd_tasks s t) \<and> is_live (sd_tasks s t)) ts @ new \<and>
       in_turn cfg s ts (pool_total (sd_tasks s') ts) new rej)"
  using admit_tasks_pool [OF assms(1-3)] assms(4) by (simp add: list_all_iff)

lemma admission_in_turn_witness:
  "\<exists>s'. admit_bounded_pool_tasks toy_llama ex_pool_cfg [0, 1, 2] (put_task 2 (\<lambda>_. ex_task 2 [11] 20) ex_two) =
       ([0, 1], [(2, ''request exceeds shared context pool'')], s') \<and>
     pool_total (sd_tasks s') [0, 1, 2] = 10 \<and> pool_total (sd_tasks s') [0, 1, 2] \<le> max 0 (pool_capacity ex_pool_cfg)"
proof -
  let ?s = "put_task 2 (\<lambda>_. ex_task 2 [11] 20) ex_two"
  have e: "(case admit_bounded_pool_tasks toy_llama ex_pool_cfg [0, 1, 2] ?s of (run, rej, s') \<Rightarrow>
      (run, rej, pool_total (sd_tasks s') [0, 1, 2])) =
      ([0, 1], [(2, ''request exceeds shared context pool'')], 10)"
    by code_simp
  obtain run rej s' where a: "admit_bounded_pool_tasks toy_llama ex_pool_cfg [0, 1, 2] ?s = (run, rej, s')"
    by (metis prod_cases3)
  have "pool_total (sd_tasks ?s) [0, 1, 2] \<le> max 0 (pool_capacity ex_pool_cfg)"
    "list_all (\<lambda>t. own_share ex_pool_cfg (sd_tasks ?s t)) [0, 1, 2]"
    by code_simp+
  then show ?thesis using admission_in_turn [OF a] a e by simp
qed

end
