(* ===== verification/Llama_Model.thy ===== *)
theory Llama_Model
  imports Backend Context_Pool Batch_Reach
begin

text \<open>
  The llama.cpp backend \<^verbatim>\<open>LlamaCppModel\<close> of \<^verbatim>\<open>libs/llama_cpp_wrapper\<close>: its configuration and state
  (\<^verbatim>\<open>llama_cpp_model.hpp\<close>), and its lifecycle (\<^verbatim>\<open>llama_cpp_runtime.ipp\<close>): loading, the allocation
  of the shared context, growing it for a request, giving idle context back, unloading, resizing,
  and the slots.

  llama.cpp, the file system and the clock are outside the repository: they are the fields of the
  record \<open>llama_native\<close>. Their answers depend on the instant they are asked at, the number of
  native calls made so far (\<open>lm_tick\<close>). A native handle is modelled by what the code reads of it:
  a context by its \<^verbatim>\<open>llama_n_ctx\<close>, the speculative decoder by its longest draft, the others by
  being there. Exceptions of native calls are modelled where the code catches them.
\<close>

section \<open>Configuration\<close>

datatype ggml_type =
    TYPE_F32 | TYPE_F16 | TYPE_BF16 | TYPE_Q8_0 | TYPE_Q4_0 | TYPE_Q4_1 | TYPE_Q5_0 | TYPE_Q5_1
  | TYPE_IQ4_NL

definition lower_copy :: "string \<Rightarrow> string" where
  "lower_copy s = map char_tolower s"

definition cache_type_from_string :: "string \<Rightarrow> ggml_type" where
  "cache_type_from_string type =
     (let t = lower_copy type in
      if t = ''f32'' then TYPE_F32
      else if t = ''f16'' then TYPE_F16
      else if t = ''bf16'' then TYPE_BF16
      else if t = ''q8_0'' then TYPE_Q8_0
      else if t = ''q4_0'' then TYPE_Q4_0
      else if t = ''q4_1'' then TYPE_Q4_1
      else if t = ''q5_0'' then TYPE_Q5_0
      else if t = ''q5_1'' then TYPE_Q5_1
      else if t = ''iq4_nl'' then TYPE_IQ4_NL
      else TYPE_F16)"

datatype flash_attn_type = FLASH_ATTN_AUTO | FLASH_ATTN_DISABLED | FLASH_ATTN_ENABLED

definition flash_attn_from_string :: "string \<Rightarrow> flash_attn_type" where
  "flash_attn_from_string value =
     (let v = lower_copy value in
      if v = ''on'' \<or> v = ''enabled'' \<or> v = ''true'' \<or> v = ''1'' then FLASH_ATTN_ENABLED
      else if v = ''off'' \<or> v = ''disabled'' \<or> v = ''false'' \<or> v = ''0'' then FLASH_ATTN_DISABLED
      else FLASH_ATTN_AUTO)"

record llama_config =
  cf_n_threads :: int
  cf_n_batch :: int
  cf_n_ubatch :: int
  cf_use_mmap :: bool
  cf_use_mlock :: bool
  cf_n_gpu_layers :: "int option"
  cf_flash_attn :: string
  cf_kv_offload :: bool
  cf_kv_unified :: bool
  cf_vram_safety_margin_mb :: int
  cf_op_offload :: bool
  cf_cache_type_k :: string
  cf_cache_type_v :: string
  cf_mtp_enabled :: bool
  cf_mtp_draft_tokens :: int
  cf_mtp_max_active_requests :: int
  cf_swa_full :: bool
  cf_truncate_prompt :: bool

definition LlamaCppConfig :: llama_config where
  "LlamaCppConfig =
     \<lparr>cf_n_threads = 8, cf_n_batch = 512, cf_n_ubatch = 512, cf_use_mmap = False,
      cf_use_mlock = False, cf_n_gpu_layers = None, cf_flash_attn = ''auto'',
      cf_kv_offload = True, cf_kv_unified = False, cf_vram_safety_margin_mb = 1024,
      cf_op_offload = True, cf_cache_type_k = ''q8_0'', cf_cache_type_v = ''q8_0'',
      cf_mtp_enabled = False, cf_mtp_draft_tokens = 2, cf_mtp_max_active_requests = 1,
      cf_swa_full = False, cf_truncate_prompt = True\<rparr>"

datatype load_mode = LOAD_MODE_NONE | LOAD_MODE_MMAP | LOAD_MODE_MLOCK | LOAD_MODE_MMAP_MLOCK

record model_params =
  mp_load_mode :: load_mode
  mp_n_gpu_layers :: int
  mp_load_mtp :: bool
  mp_cpu_only :: bool

record context_params =
  cp_n_ctx :: int
  cp_n_seq_max :: int
  cp_kv_unified :: bool
  cp_n_threads :: int
  cp_n_batch :: int
  cp_n_ubatch :: int
  cp_flash_attn :: flash_attn_type
  cp_offload_kqv :: bool
  cp_op_offload :: bool
  cp_swa_full :: bool
  cp_embeddings :: bool
  cp_type_k :: ggml_type
  cp_type_v :: ggml_type
  cp_n_rs_seq :: int
  cp_mtp :: bool

section \<open>The native library\<close>

datatype 'a alloc = AllocThrows string | AllocNull | Alloc 'a

datatype seq_rm_type = SEQ_RM_NO | SEQ_RM_PART | SEQ_RM_FULL

record 'd llama_native =
  nv_absolute :: "string \<Rightarrow> string"
  nv_path_exists :: "nat \<Rightarrow> string \<Rightarrow> bool"
  nv_load_model :: "nat \<Rightarrow> string \<Rightarrow> model_params \<Rightarrow> bool"
  nv_vocab :: "nat \<Rightarrow> bool"
  nv_chat_templates :: "nat \<Rightarrow> bool"
  nv_mtmd :: "nat \<Rightarrow> bool option"
  nv_init_context :: "nat \<Rightarrow> context_params \<Rightarrow> int alloc"
  nv_ctx_other_is_target :: "nat \<Rightarrow> bool"
  nv_max_parallel_sequences :: int
  nv_seq_rm :: "nat \<Rightarrow> seq_rm_type"
  nv_speculative :: "nat \<Rightarrow> int \<Rightarrow> int \<Rightarrow> int alloc"
  nv_probes :: "nat \<Rightarrow> model_params \<Rightarrow> context_params \<Rightarrow> 'd Context_Pool.llama"
  nv_target_memory :: "nat \<Rightarrow> 'd memory_entry list"
  nv_draft_memory :: "nat \<Rightarrow> 'd memory_entry list"
  nv_recovery_expired :: "nat \<Rightarrow> nat \<Rightarrow> bool"

text \<open>
  What the control of an operation answers at an instant, cancelled and expired; the second number
  counts the readings the fitting of the pool makes within one instant.
\<close>

type_synonym control_reads = "nat \<Rightarrow> nat \<Rightarrow> bool \<times> bool"

section \<open>State\<close>

record slot_state =
  sl_sequence_id :: int
  sl_busy :: bool
  sl_sequence_bound :: bool
  sl_last_prompt_tokens :: "token list"
  sl_recurrent_checkpoint :: "bytes option"
  sl_recurrent_draft_checkpoint :: "bytes option"
  sl_recurrent_replay_checkpoint :: "bytes option"
  sl_checkpoint_pos :: int
  sl_mtp_cache_synced :: bool

definition SlotState :: slot_state where
  "SlotState = \<lparr>sl_sequence_id = - 1, sl_busy = False, sl_sequence_bound = False,
     sl_last_prompt_tokens = [], sl_recurrent_checkpoint = None,
     sl_recurrent_draft_checkpoint = None, sl_recurrent_replay_checkpoint = None,
     sl_checkpoint_pos = 0, sl_mtp_cache_synced = True\<rparr>"

text \<open>The scheduler as its owner sees it: how it was built, and whether its thread still runs.\<close>

record scheduler_handle =
  sh_config :: sched_config
  sh_healthy :: bool

record llama_model =
  lm_info :: model_info
  lm_cfg :: llama_config
  lm_gguf_path :: string
  lm_mmproj_path :: string
  lm_loaded :: bool
  lm_sequence_capacity :: int
  lm_sequence_capacity_limit :: int
  lm_pool_capacity :: int
  lm_reclaimed_context_vram_mb :: int
  lm_model :: bool
  lm_vocab :: bool
  lm_shared_ctx :: "int option"
  lm_draft_ctx :: "int option"
  lm_speculative :: "int option"
  lm_mtmd :: bool
  lm_chat_templates :: bool
  lm_scheduler :: "scheduler_handle option"
  lm_slots :: "slot_state list"
  lm_tick :: nat

definition tick :: "llama_model \<Rightarrow> llama_model" where
  "tick m = m\<lparr>lm_tick := Suc (lm_tick m)\<rparr>"

definition normalize_path :: "'d llama_native \<Rightarrow> string \<Rightarrow> string" where
  "normalize_path N p = (if nv_path_exists N 0 p then nv_absolute N p else p)"

definition LlamaCppModel :: "'d llama_native \<Rightarrow> model_info \<Rightarrow> llama_config \<Rightarrow> llama_model" where
  "LlamaCppModel N info cfg =
     \<lparr>lm_info = info,
      lm_cfg = (if mi_compute info = Cpu
                then cfg\<lparr>cf_n_gpu_layers := Some 0, cf_kv_offload := False, cf_op_offload := False\<rparr>
                else cfg),
      lm_gguf_path = normalize_path N (mi_gguf_path info),
      lm_mmproj_path = normalize_path N (mi_mmproj_path info),
      lm_loaded = False, lm_sequence_capacity = 0, lm_sequence_capacity_limit = 0,
      lm_pool_capacity = 0, lm_reclaimed_context_vram_mb = 0, lm_model = False, lm_vocab = False,
      lm_shared_ctx = None, lm_draft_ctx = None, lm_speculative = None, lm_mtmd = False,
      lm_chat_templates = False, lm_scheduler = None, lm_slots = [], lm_tick = 1\<rparr>"

definition llama_n_slots :: "llama_model \<Rightarrow> int" where
  "llama_n_slots m =
     (if 0 < lm_sequence_capacity m then lm_sequence_capacity m else mi_n_slots (lm_info m))"

definition llama_min_slots :: "llama_model \<Rightarrow> int" where
  "llama_min_slots m =
     (if mi_concurrency_auto (lm_info m) then 1 else mi_min_slots (lm_info m))"

definition is_chat :: "llama_model \<Rightarrow> bool" where
  "is_chat m = supports (lm_info m) ''chat_completions''"

definition scheduler_ready :: "llama_model \<Rightarrow> bool" where
  "scheduler_ready m =
     (\<not> is_chat m \<or> (case lm_scheduler m of None \<Rightarrow> False | Some h \<Rightarrow> sh_healthy h))"

definition any_busy :: "llama_model \<Rightarrow> bool" where
  "any_busy m = list_ex sl_busy (lm_slots m)"

text \<open>\<^verbatim>\<open>static_cast<int>\<close> of a \<^verbatim>\<open>uint32_t\<close>.\<close>

definition int_of_uint32 :: "int \<Rightarrow> int" where
  "int_of_uint32 n = (if n \<le> INT_MAX then n else n - 4294967296)"

section \<open>Parameters\<close>

definition llama_model_params :: "llama_model \<Rightarrow> model_params" where
  "llama_model_params m =
     (let cfg = lm_cfg m in
      \<lparr>mp_load_mode = (if cf_use_mmap cfg
                       then (if cf_use_mlock cfg then LOAD_MODE_MMAP_MLOCK else LOAD_MODE_MMAP)
                       else (if cf_use_mlock cfg then LOAD_MODE_MLOCK else LOAD_MODE_NONE)),
       mp_n_gpu_layers = (case cf_n_gpu_layers cfg of None \<Rightarrow> - 1 | Some n \<Rightarrow> n),
       mp_load_mtp = cf_mtp_enabled cfg,
       mp_cpu_only = (mi_compute (lm_info m) = Cpu)\<rparr>)"

definition shared_context_params :: "int \<Rightarrow> llama_model \<Rightarrow> context_params" where
  "shared_context_params capacity m =
     (let cfg = lm_cfg m in
      \<lparr>cp_n_ctx = capacity, cp_n_seq_max = max 1 (llama_n_slots m),
       cp_kv_unified = cf_kv_unified cfg, cp_n_threads = cf_n_threads cfg,
       cp_n_batch = max 1 (cf_n_batch cfg), cp_n_ubatch = max 1 (cf_n_ubatch cfg),
       cp_flash_attn = flash_attn_from_string (cf_flash_attn cfg),
       cp_offload_kqv = cf_kv_offload cfg, cp_op_offload = cf_op_offload cfg,
       cp_swa_full = cf_swa_full cfg, cp_embeddings = supports (lm_info m) ''embeddings'',
       cp_type_k = cache_type_from_string (cf_cache_type_k cfg),
       cp_type_v = cache_type_from_string (cf_cache_type_v cfg),
       cp_n_rs_seq = (if cf_mtp_enabled cfg then max 1 (cf_mtp_draft_tokens cfg) else 0),
       cp_mtp = False\<rparr>)"

definition draft_margin :: "llama_model \<Rightarrow> int" where
  "draft_margin m =
     (if cf_mtp_enabled (lm_cfg m) then clamp (cf_mtp_draft_tokens (lm_cfg m)) 1 4 else 0)"

definition ctx_per_slot :: "llama_model \<Rightarrow> int" where
  "ctx_per_slot m = max 512 (mi_context_size (lm_info m))"

definition initial_ctx_per_slot :: "llama_model \<Rightarrow> int" where
  "initial_ctx_per_slot m =
     (if mi_concurrency_auto (lm_info m)
      then max 512 (min (ctx_per_slot m) (max 512 (cf_n_batch (lm_cfg m))))
      else ctx_per_slot m)"

text \<open>The smallest pool, before its range check.\<close>

definition minimum_pool :: "llama_model \<Rightarrow> int" where
  "minimum_pool m = initial_ctx_per_slot m + draft_margin m"

section \<open>The shared context\<close>

text \<open>\<^verbatim>\<open>fit_context_pool\<close> on the metadata of the model; the plain search always has a value.\<close>

definition fit_pool ::
  "'d llama_native \<Rightarrow> control_reads \<Rightarrow> model_params \<Rightarrow> context_params \<Rightarrow> int \<Rightarrow> int \<Rightarrow> int \<Rightarrow>
     ('d memory_entry list option \<times> 'd memory_entry list option) \<Rightarrow> llama_model \<Rightarrow>
     int result \<times> llama_model" where
  "fit_pool N ctl mp cp minimum maximum margin reclaimable m =
     (let t = lm_tick m;
          ll = (nv_probes N t mp cp)\<lparr>ll_cancelled := \<lambda>k. fst (ctl t k),
                                     ll_expired := \<lambda>k. snd (ctl t k)\<rparr>;
          fr = \<lparr>fr_mtp = cf_mtp_enabled (lm_cfg m), fr_minimum_capacity = minimum,
                fr_maximum_capacity = maximum, fr_vram_safety_margin_mb = margin,
                fr_n_batch = cp_n_batch cp, fr_reclaimable_target = fst reclaimable,
                fr_reclaimable_draft = snd reclaimable, fr_automatic = False\<rparr>
      in case fit_context_pool ll (lm_gguf_path m) fr of
           None \<Rightarrow> (Err Internal [], tick m)
         | Some r \<Rightarrow> (map_sum id fst r, tick m))"

definition draft_params :: "context_params \<Rightarrow> context_params" where
  "draft_params cp = cp\<lparr>cp_mtp := True, cp_n_rs_seq := 0, cp_n_ubatch := min (cp_n_ubatch cp) 512\<rparr>"

text \<open>One attempt: the target context, then the draft context; the message of an exception.\<close>

definition allocate_contexts ::
  "'d llama_native \<Rightarrow> context_params \<Rightarrow> llama_model \<Rightarrow> string \<times> llama_model" where
  "allocate_contexts N cp m =
     (case nv_init_context N (lm_tick m) cp of
        AllocThrows what \<Rightarrow> (what, tick m)
      | AllocNull \<Rightarrow> ([], (tick m)\<lparr>lm_shared_ctx := None\<rparr>)
      | Alloc n \<Rightarrow>
          (let m1 = (tick m)\<lparr>lm_shared_ctx := Some n\<rparr> in
           if \<not> cf_mtp_enabled (lm_cfg m) then ([], m1)
           else (case nv_init_context N (lm_tick m1) (draft_params cp) of
                   AllocThrows what \<Rightarrow> (what, tick m1)
                 | AllocNull \<Rightarrow> ([], (tick m1)\<lparr>lm_draft_ctx := None\<rparr>)
                 | Alloc d \<Rightarrow> ([], (tick m1)\<lparr>lm_draft_ctx := Some d\<rparr>))))"

definition allocation_complete :: "string \<Rightarrow> llama_model \<Rightarrow> bool" where
  "allocation_complete what m =
     (lm_shared_ctx m \<noteq> None \<and> (cf_mtp_enabled (lm_cfg m) \<longrightarrow> lm_draft_ctx m \<noteq> None) \<and> what = [])"

definition allocation_error :: "bool \<Rightarrow> int \<Rightarrow> string \<Rightarrow> llama_model \<Rightarrow> error_code \<times> string" where
  "allocation_error missing_draft wanted what m =
     (if missing_draft \<and> \<not> mi_context_pool_auto (lm_info m)
      then (InvalidArgument,
            ''MTP is enabled but the GGUF has no usable MTP head or sufficient memory'')
      else (OutOfMemory, ''shared context allocation failed at capacity '' @ string_of_int wanted @
              (if what = [] then [] else '': '' @ what)))"

text \<open>
  One pass of the loop: its result, or what the next pass tries: half the sequences while the pool
  is minimal, a smaller pool otherwise.
\<close>

definition alloc_attempt ::
  "'d llama_native \<Rightarrow> control_reads \<Rightarrow> int \<Rightarrow> context_params \<Rightarrow> int \<Rightarrow> int \<Rightarrow> nat \<Rightarrow> llama_model \<Rightarrow>
     ((int \<times> context_params) result + (context_params \<times> int \<times> int)) \<times> llama_model" where
  "alloc_attempt N ctl minimum cp n_slots wanted attempt m0 =
     (let (cancelled, expired) = ctl (lm_tick m0) 0; m = tick m0 in
      if cancelled \<or> expired
      then (Inl (Err (if cancelled then Cancelled else Timeout)
              ''context pool allocation cancelled or expired''), m)
      else let (what, m1) = allocate_contexts N cp m in
        if allocation_complete what m1 then (Inl (Ok (n_slots, cp)), m1)
        else let missing_draft = (lm_shared_ctx m1 \<noteq> None \<and> cf_mtp_enabled (lm_cfg m1) \<and>
                                  lm_draft_ctx m1 = None);
                 m2 = m1\<lparr>lm_draft_ctx := None, lm_shared_ctx := None\<rparr>
             in if mi_concurrency_auto (lm_info m) \<and> wanted \<le> minimum \<and> 1 < n_slots \<and> attempt < 16
                then (Inr (cp\<lparr>cp_n_seq_max := max 1 (n_slots div 2)\<rparr>, max 1 (n_slots div 2), wanted), m2)
                else if \<not> mi_context_pool_auto (lm_info m) \<or> wanted \<le> minimum \<or> 16 \<le> attempt
                then (let (c, message) = allocation_error missing_draft wanted what m2
                      in (Inl (Err c message), m2))
                else let smaller = (if 7 \<le> attempt then minimum
                                    else minimum + (wanted - minimum) div 2)
                     in (Inr (cp\<lparr>cp_n_ctx := smaller, cp_n_seq_max := n_slots\<rparr>, n_slots, smaller), m2))"

lemma alloc_attempt_again:
  "alloc_attempt N ctl minimum cp n wanted attempt m = (Inr again, m') \<Longrightarrow> attempt < 16"
  by (auto simp: alloc_attempt_def Let_def split: prod.splits if_splits)

function alloc_loop ::
  "'d llama_native \<Rightarrow> control_reads \<Rightarrow> int \<Rightarrow> context_params \<Rightarrow> int \<Rightarrow> int \<Rightarrow> nat \<Rightarrow> llama_model \<Rightarrow>
     (int \<times> context_params) result \<times> llama_model" where
  "alloc_loop N ctl minimum cp n_slots wanted attempt m =
     (case alloc_attempt N ctl minimum cp n_slots wanted attempt m of
        (Inl r, m1) \<Rightarrow> (r, m1)
      | (Inr (cp1, n1, wanted1), m1) \<Rightarrow>
          alloc_loop N ctl minimum cp1 n1 wanted1 (Suc attempt) m1)"
  by pat_completeness auto
termination
  by (relation "measure (\<lambda>(N, ctl, minimum, cp, n_slots, wanted, attempt, m). 17 - attempt)")
    (auto dest!: alloc_attempt_again [OF sym])

declare alloc_loop.simps [simp del]

text \<open>The speculative decoder, when multi-token prediction is on.\<close>

definition init_speculative ::
  "'d llama_native \<Rightarrow> int \<Rightarrow> llama_model \<Rightarrow> seq_rm_type result \<times> llama_model" where
  "init_speculative N n_slots m =
     (if \<not> cf_mtp_enabled (lm_cfg m) then (Ok SEQ_RM_NO, m)
      else if nv_seq_rm N (lm_tick m) = SEQ_RM_NO
      then (Err InvalidArgument ''MTP draft context does not support sequence removal'', tick m)
      else case nv_speculative N (lm_tick m) (clamp (cf_mtp_draft_tokens (lm_cfg m)) 1 4) n_slots of
             AllocThrows what \<Rightarrow> (Err Internal (''MTP initialization failed: '' @ what), tick m)
           | AllocNull \<Rightarrow> (Err Internal ''MTP initialization returned null'',
                            (tick m)\<lparr>lm_speculative := None\<rparr>)
           | Alloc n \<Rightarrow> (Ok (nv_seq_rm N (lm_tick m)), (tick m)\<lparr>lm_speculative := Some n\<rparr>))"

definition fresh_slots :: "int \<Rightarrow> slot_state list" where
  "fresh_slots n = map (\<lambda>i. SlotState\<lparr>sl_sequence_id := i\<rparr>) [0..n - 1]"

definition start_scheduler :: "'d llama_native \<Rightarrow> seq_rm_type \<Rightarrow> llama_model \<Rightarrow> llama_model" where
  "start_scheduler N draft_seq_rm m =
     (if \<not> is_chat m then m
      else m\<lparr>lm_scheduler := Some
             \<lparr>sh_config = scheduler_config (map_option int_of_uint32 (lm_shared_ctx m))
                (map_option int_of_uint32 (lm_draft_ctx m)) (lm_speculative m) (lm_mtmd m)
                (nv_ctx_other_is_target N (lm_tick m)) (cf_n_batch (lm_cfg m))
                (cf_mtp_max_active_requests (lm_cfg m))
                (draft_seq_rm = SEQ_RM_FULL)
                (0 < mi_context_pool_size (lm_info m) \<or> mi_context_pool_auto (lm_info m)),
              sh_healthy = True\<rparr>\<rparr>)"

text \<open>What follows the allocation: the counters, the speculative decoder, the slots, the scheduler.\<close>

definition finish_context ::
  "'d llama_native \<Rightarrow> int \<Rightarrow> context_params \<Rightarrow> llama_model \<Rightarrow> unit result \<times> llama_model" where
  "finish_context N n_slots cp m =
     (let m1 = m\<lparr>lm_sequence_capacity := n_slots,
                 lm_sequence_capacity_limit :=
                   (if mi_concurrency_auto (lm_info m)
                    then int_of_uint32 (min (nv_max_parallel_sequences N) (max 1 (cp_n_batch cp)))
                    else n_slots),
                 lm_pool_capacity := (case lm_shared_ctx m of None \<Rightarrow> 0 | Some n \<Rightarrow> int_of_uint32 n)\<rparr>
      in case init_speculative N n_slots m1 of
           (Inl e, m2) \<Rightarrow> (Inl e, m2)
         | (Inr draft_seq_rm, m2) \<Rightarrow>
             (Ok (), start_scheduler N draft_seq_rm (m2\<lparr>lm_slots := fresh_slots n_slots\<rparr>)))"

text \<open>The size asked for: None with the error when the configuration is contradictory.\<close>

definition requested_slots :: "int option \<Rightarrow> llama_model \<Rightarrow> int" where
  "requested_slots automatic_max m =
     (if mi_concurrency_auto (lm_info m) \<and> automatic_max = None then 1 else max 1 (llama_n_slots m))"

definition requested_context :: "int option \<Rightarrow> llama_model \<Rightarrow> int result" where
  "requested_context automatic_max m =
     (let info = lm_info m; unified = cf_kv_unified (lm_cfg m);
          wide = (if 0 < mi_context_pool_size info then mi_context_pool_size info
                  else initial_ctx_per_slot m * requested_slots automatic_max m)
      in if mi_concurrency_auto info \<and> \<not> mi_context_pool_auto info
           then Err InvalidArgument ''automatic concurrency requires automatic context pooling''
         else if mi_context_pool_auto info \<and> (\<not> unified \<or> mi_context_pool_size info \<noteq> 0)
           then Err InvalidArgument
             ''automatic context pool requires unified KV and no fixed pool size''
         else if mi_context_pool_size info < 0 \<or>
              (0 < mi_context_pool_size info \<and>
               (\<not> unified \<or> mi_context_pool_size info < ctx_per_slot m + draft_margin m))
           then Err InvalidArgument
             ''shared context pool cannot fit the configured request limit and draft margin''
         else if INT_MAX < wide then Err InvalidArgument ''context capacity exceeds supported range''
         else case automatic_max of
                None \<Rightarrow> Ok (if mi_concurrency_auto info then minimum_pool m else wide)
              | Some maximum \<Rightarrow> Ok (max (minimum_pool m) maximum))"

definition init_shared_context ::
  "'d llama_native \<Rightarrow> control_reads \<Rightarrow> model_params \<Rightarrow> int option \<Rightarrow> int option \<Rightarrow> llama_model \<Rightarrow>
     unit result \<times> llama_model" where
  "init_shared_context N ctl mp automatic_max margin m =
     (let n_slots = requested_slots automatic_max m; minimum = minimum_pool m in
      case requested_context automatic_max m of
        Inl e \<Rightarrow> (Inl e, m)
      | Inr wanted \<Rightarrow>
          if INT_MAX < minimum
          then (Err InvalidArgument ''context pool minimum exceeds supported range'', m)
          else (let cp = shared_context_params wanted m;
                    (fitted, m1) =
                      (if mi_context_pool_auto (lm_info m)
                       then fit_pool N ctl mp cp minimum (max minimum wanted)
                              (case margin of None \<Rightarrow> cf_vram_safety_margin_mb (lm_cfg m)
                                            | Some v \<Rightarrow> v) (None, None) m
                       else (Ok wanted, m))
                in case fitted of
                     Inl e \<Rightarrow> (Inl e, m1)
                   | Inr pool \<Rightarrow>
                       (let cp1 = (if mi_context_pool_auto (lm_info m)
                                   then cp\<lparr>cp_n_ctx := pool, cp_n_seq_max := n_slots\<rparr> else cp)
                        in case alloc_loop N ctl minimum cp1 n_slots pool 0 m1 of
                             (Inl e, m2) \<Rightarrow> (Inl e, m2)
                           | (Inr (n, cp2), m2) \<Rightarrow> finish_context N n cp2 m2)))"

section \<open>Loading\<close>

definition check_control ::
  "control_reads \<Rightarrow> string \<Rightarrow> string \<Rightarrow> llama_model \<Rightarrow> unit result \<times> llama_model" where
  "check_control ctl cancelled expired m =
     (let (c, e) = ctl (lm_tick m) 0 in
      (if c then Err Cancelled cancelled else if e then Err Timeout expired else Ok (), tick m))"

definition check_files :: "'d llama_native \<Rightarrow> llama_model \<Rightarrow> unit result" where
  "check_files N m =
     (if lm_gguf_path m = [] then Err NotFound ''empty gguf_path''
      else if \<not> nv_path_exists N (lm_tick m) (lm_gguf_path m)
        then Err NotFound (''gguf not found: '' @ lm_gguf_path m)
      else if mi_has_vision (lm_info m) \<and> lm_mmproj_path m = []
        then Err NotFound ''vision model has no mmproj_path''
      else if mi_has_vision (lm_info m) \<and> \<not> nv_path_exists N (lm_tick m) (lm_mmproj_path m)
        then Err NotFound (''mmproj not found: '' @ lm_mmproj_path m)
      else Ok ())"

definition load_weights ::
  "'d llama_native \<Rightarrow> control_reads \<Rightarrow> llama_model \<Rightarrow> unit result \<times> llama_model" where
  "load_weights N ctl m =
     (if \<not> nv_load_model N (lm_tick m) (lm_gguf_path m) (llama_model_params m)
      then (case check_control ctl ''model load cancelled'' ''model load deadline expired''
                   ((tick m)\<lparr>lm_model := False\<rparr>) of
              (Inl e, m1) \<Rightarrow> (Inl e, m1)
            | (Inr _, m1) \<Rightarrow>
                (Err Internal (''llama_model_load_from_file returned null for '' @ lm_gguf_path m1), m1))
      else if \<not> nv_vocab N (lm_tick m)
      then (Err ParseError ''llama_model_get_vocab returned null'',
            (tick m)\<lparr>lm_model := False, lm_vocab := False\<rparr>)
      else (Ok (), (tick m)\<lparr>lm_model := True, lm_vocab := True\<rparr>))"

definition load_templates :: "'d llama_native \<Rightarrow> llama_model \<Rightarrow> unit result \<times> llama_model" where
  "load_templates N m =
     (if \<not> is_chat m then (Ok (), m)
      else if nv_chat_templates N (lm_tick m) then (Ok (), (tick m)\<lparr>lm_chat_templates := True\<rparr>)
      else (Err ParseError ''common_chat_templates_init returned null'',
            (tick m)\<lparr>lm_chat_templates := False, lm_model := False\<rparr>))"

definition load_projector :: "'d llama_native \<Rightarrow> llama_model \<Rightarrow> unit result \<times> llama_model" where
  "load_projector N m =
     (if \<not> mi_has_vision (lm_info m) then (Ok (), m)
      else if nv_mtmd N (lm_tick m) = Some True then (Ok (), (tick m)\<lparr>lm_mtmd := True\<rparr>)
      else (Err ParseError (''failed to load vision projector: '' @ lm_mmproj_path m),
            (tick m)\<lparr>lm_mtmd := False, lm_chat_templates := False, lm_model := False,
                     lm_vocab := False\<rparr>))"

definition close_contexts :: "llama_model \<Rightarrow> llama_model" where
  "close_contexts m = m\<lparr>lm_speculative := None, lm_draft_ctx := None, lm_shared_ctx := None\<rparr>"

text \<open>\<^verbatim>\<open>a ; b\<close> for steps that stop at the first error.\<close>

definition and_then ::
  "unit result \<times> llama_model \<Rightarrow> (llama_model \<Rightarrow> unit result \<times> llama_model) \<Rightarrow>
     unit result \<times> llama_model" where
  "and_then rm f = (case rm of (Inl e, m) \<Rightarrow> (Inl e, m) | (Inr _, m) \<Rightarrow> f m)"

definition load_contexts ::
  "'d llama_native \<Rightarrow> control_reads \<Rightarrow> llama_model \<Rightarrow> unit result \<times> llama_model" where
  "load_contexts N ctl m =
     (case init_shared_context N ctl (llama_model_params m) None None m of
        (Inl e, m1) \<Rightarrow>
          (Inl e, (close_contexts m1)\<lparr>lm_mtmd := False, lm_slots := [],
                    lm_chat_templates := False, lm_model := False, lm_vocab := False\<rparr>)
      | (Inr _, m1) \<Rightarrow> (Ok (), m1\<lparr>lm_loaded := True\<rparr>))"

definition llama_load ::
  "'d llama_native \<Rightarrow> control_reads \<Rightarrow> llama_model \<Rightarrow> unit result \<times> llama_model" where
  "llama_load N ctl m =
     (if lm_loaded m then (Ok (), m)
      else and_then (check_control ctl ''model load cancelled'' ''model load deadline expired''
                       (m\<lparr>lm_reclaimed_context_vram_mb := 0\<rparr>))
        (\<lambda>m1. and_then (check_files N m1, m1)
        (\<lambda>m2. and_then (load_weights N ctl m2)
        (\<lambda>m3. and_then (load_templates N m3)
        (\<lambda>m4. and_then (load_projector N m4) (load_contexts N ctl))))))"

definition llama_unload :: "llama_model \<Rightarrow> unit result \<times> llama_model" where
  "llama_unload m0 =
     (let m = m0\<lparr>lm_scheduler := None\<rparr> in
      if \<not> lm_loaded m then (Ok (), m)
      else (Ok (), (close_contexts m)\<lparr>lm_slots := [], lm_mtmd := False, lm_chat_templates := False,
              lm_model := False, lm_vocab := False, lm_loaded := False, lm_sequence_capacity := 0,
              lm_sequence_capacity_limit := 0, lm_pool_capacity := 0,
              lm_reclaimed_context_vram_mb := 0\<rparr>))"

section \<open>Growing the context for a request\<close>

text \<open>The control of a recovery: nobody cancels it, it has thirty seconds.\<close>

definition growth_recovery_control :: "'d llama_native \<Rightarrow> control_reads" where
  "growth_recovery_control N = (\<lambda>t k. (False, nv_recovery_expired N t k))"

definition drop_context :: "llama_model \<Rightarrow> llama_model" where
  "drop_context m =
     (close_contexts (m\<lparr>lm_scheduler := None\<rparr>))\<lparr>lm_pool_capacity := 0, lm_slots := []\<rparr>"

definition requested_sequences :: "request_demand \<Rightarrow> int" where
  "requested_sequences d = max (required_sequences d) (aggregate_sequences d)"

definition requested_capacity :: "request_demand \<Rightarrow> llama_model \<Rightarrow> int" where
  "requested_capacity d m = max (required_context d) (aggregate_context d) + draft_margin m"

definition own_capacity :: "request_demand \<Rightarrow> llama_model \<Rightarrow> int" where
  "own_capacity d m = required_context d + draft_margin m"

definition align_up :: "int \<Rightarrow> int \<Rightarrow> int" where
  "align_up alignment v = min ((v + alignment - 1) div alignment * alignment) INT_MAX"

definition maximum_capacity :: "llama_model \<Rightarrow> int" where
  "maximum_capacity m =
     ctx_per_slot m * max 1 (max 1 (lm_sequence_capacity_limit m)) + draft_margin m"

definition growth_target :: "request_demand \<Rightarrow> int \<Rightarrow> llama_model \<Rightarrow> int" where
  "growth_target d current m =
     (let alignment = max 1 (cf_n_batch (lm_cfg m));
          geometric = (if INT_MAX div 2 < current then INT_MAX else current * 2);
          growth = (if current < requested_capacity d m
                    then max (align_up alignment (requested_capacity d m))
                           (align_up alignment geometric)
                    else current)
      in min (maximum_capacity m) growth)"

text \<open>Whether the context may be recreated for a demand; nothing is touched yet.\<close>

definition may_grow :: "request_demand \<Rightarrow> int \<Rightarrow> llama_model \<Rightarrow> unit result" where
  "may_grow d current m =
     (let slots = int (length (lm_slots m)) in
      if \<not> mi_concurrency_auto (lm_info m) \<or> \<not> mi_context_pool_auto (lm_info m) \<or>
         \<not> cf_kv_unified (lm_cfg m)
        then (if current < own_capacity d m \<or> slots < required_sequences d
              then Err Unavailable ''request exceeds the fixed context capacity''
              else Err ResourceBusy ''aggregate request demand exceeds the fixed context capacity'')
      else if max 1 (lm_sequence_capacity_limit m) < requested_sequences d
        then Err OutOfMemory ''request requires more sequence slots than configured''
      else if any_busy m then Err ResourceBusy ''cannot grow context while requests are active''
      else if lm_scheduler m \<noteq> None \<and> \<not> (case lm_scheduler m of None \<Rightarrow> False | Some h \<Rightarrow> sh_healthy h)
        then Err Unavailable ''cannot grow an unhealthy model context''
      else if INT_MAX < maximum_capacity m
        then Err InvalidArgument ''configured context capacity exceeds supported range''
      else if maximum_capacity m < requested_capacity d m
        then Err OutOfMemory ''request exceeds the configured context capacity''
      else Ok ())"

text \<open>The old context again, under a control of its own; \<open>failed\<close> when that fails too.\<close>

definition regain_context ::
  "'d llama_native \<Rightarrow> int \<Rightarrow> int \<Rightarrow> unit result \<Rightarrow> string \<Rightarrow> llama_model \<Rightarrow>
     unit result \<times> llama_model" where
  "regain_context N slots capacity outcome failed m =
     (let m1 = (drop_context m)\<lparr>lm_sequence_capacity := slots\<rparr>
      in case init_shared_context N (growth_recovery_control N) (llama_model_params m1) (Some capacity)
                (Some (cf_vram_safety_margin_mb (lm_cfg m1))) m1 of
           (Inl _, m2) \<Rightarrow> (Err Unavailable failed, m2)
         | (Inr _, m2) \<Rightarrow> (outcome, m2))"

definition grow_context ::
  "'d llama_native \<Rightarrow> control_reads \<Rightarrow> request_demand \<Rightarrow> int \<Rightarrow> llama_model \<Rightarrow>
     unit result \<times> llama_model" where
  "grow_context N ctl d current m =
     (let slots = int (length (lm_slots m)); wanted = requested_capacity d m;
          m1 = (drop_context m)\<lparr>lm_sequence_capacity := max slots (requested_sequences d)\<rparr>
      in case init_shared_context N ctl (llama_model_params m) (Some (growth_target d current m))
                (Some (cf_vram_safety_margin_mb (lm_cfg m))) m1 of
           (Inl e, m2) \<Rightarrow>
             regain_context N slots current (Inl e)
               ''context growth failed and recovery failed'' m2
         | (Inr _, m2) \<Rightarrow>
             if lm_pool_capacity m2 < wanted \<or> lm_sequence_capacity m2 < requested_sequences d
             then regain_context N slots current
                    (Err OutOfMemory (''context growth allocated below the requested demand ('' @
                       string_of_int (lm_pool_capacity m2) @ '' < '' @ string_of_int wanted @ '')''))
                    ''context growth below demand and recovery failed'' m2
             else (Ok (), m2\<lparr>lm_reclaimed_context_vram_mb := 0\<rparr>))"

definition llama_ensure_request_capacity ::
  "'d llama_native \<Rightarrow> control_reads \<Rightarrow> request_demand \<Rightarrow> llama_model \<Rightarrow>
     unit result \<times> llama_model" where
  "llama_ensure_request_capacity N ctl d m0 =
     (if Backend.prompt_positions d < 0 \<or> output_tokens d < 0 \<or> required_context d \<le> 0 \<or>
         required_sequences d \<le> 0
        then (Err InvalidArgument ''invalid request capacity demand'', m0)
      else and_then (check_control ctl ''request capacity preparation cancelled''
                       ''request capacity preparation deadline expired'' m0)
        (\<lambda>m. case (lm_loaded m, lm_shared_ctx m) of
           (True, Some n_ctx) \<Rightarrow>
             (let current = int_of_uint32 n_ctx in
              if INT_MAX < requested_capacity d m
                then (Err OutOfMemory ''request context demand exceeds supported range'', m)
              else if INT_MAX < own_capacity d m
                then (Err Unavailable ''request exceeds the supported context capacity'', m)
              else if requested_capacity d m \<le> current \<and>
                   requested_sequences d \<le> int (length (lm_slots m)) then (Ok (), m)
              else and_then (may_grow d current m, m)
                (\<lambda>m1. and_then (check_control ctl ''request capacity preparation cancelled''
                                  ''request capacity preparation cancelled'' m1)
                   (grow_context N ctl d current)))
         | _ \<Rightarrow> (Err NotFound ''model is not loaded'', m)))"

section \<open>Giving idle context back\<close>

definition llama_can_reclaim :: "llama_model \<Rightarrow> bool" where
  "llama_can_reclaim m =
     (case lm_shared_ctx m of
        None \<Rightarrow> False
      | Some n_ctx \<Rightarrow>
          lm_loaded m \<and> mi_context_pool_auto (lm_info m) \<and> cf_kv_unified (lm_cfg m) \<and>
          scheduler_ready m \<and> \<not> any_busy m \<and>
          ((mi_concurrency_auto (lm_info m) \<and> 1 < length (lm_slots m)) \<or> minimum_pool m < n_ctx))"

text \<open>\<^verbatim>\<open>clear_contexts\<close>: the slots stay, emptied.\<close>

definition clear_contexts :: "llama_model \<Rightarrow> llama_model" where
  "clear_contexts m =
     (close_contexts (m\<lparr>lm_scheduler := None\<rparr>))\<lparr>lm_pool_capacity := 0,
        lm_slots := fresh_slots (int (length (lm_slots m)))\<rparr>"

text \<open>\<^verbatim>\<open>recover\<close>: the old size again.\<close>

definition recover_context ::
  "'d llama_native \<Rightarrow> int \<Rightarrow> int \<Rightarrow> llama_model \<Rightarrow> unit result \<times> llama_model" where
  "recover_context N old_slots old_capacity m =
     (let m1 = (clear_contexts m)\<lparr>lm_sequence_capacity := old_slots\<rparr>
      in case init_shared_context N (growth_recovery_control N) (llama_model_params m1) (Some old_capacity)
                (Some (cf_vram_safety_margin_mb (lm_cfg m1))) m1 of
           (Inl e, m2) \<Rightarrow> (Inl e, clear_contexts m2)
         | (Inr _, m2) \<Rightarrow> (Ok (), m2))"

definition context_memory :: "'d llama_native \<Rightarrow> llama_model \<Rightarrow> nat result" where
  "context_memory N m =
     context_pool_device_memory_bytes
       (if lm_shared_ctx m = None then None else Some (nv_target_memory N (lm_tick m)))
       (if lm_draft_ctx m = None then None else Some (nv_draft_memory N (lm_tick m)))"

definition note_reclaimed_memory :: "nat \<Rightarrow> nat \<Rightarrow> llama_model \<Rightarrow> llama_model" where
  "note_reclaimed_memory before after m =
     m\<lparr>lm_reclaimed_context_vram_mb :=
         min (lm_reclaimed_context_vram_mb m + min (int ((before - after) div kMib)) INT_MAX) INT_MAX\<rparr>"

text \<open>The new, smaller context; the old one when that cannot be had.\<close>

definition recreate_smaller ::
  "'d llama_native \<Rightarrow> control_reads \<Rightarrow> int \<Rightarrow> int \<Rightarrow> int \<Rightarrow> int \<Rightarrow> nat \<Rightarrow> llama_model \<Rightarrow>
     bool result \<times> llama_model" where
  "recreate_smaller N ctl reclaim_maximum reserve old_capacity target_slots before m =
     (let old_slots = int (length (lm_slots m));
          m1 = (clear_contexts m)\<lparr>lm_sequence_capacity := target_slots\<rparr>
      in case init_shared_context N ctl (llama_model_params m) (Some reclaim_maximum) (Some reserve) m1 of
           (Inl e, m2) \<Rightarrow>
             (case recover_context N old_slots old_capacity m2 of
                (Inl failed, m3) \<Rightarrow> (Inl failed, m3)
              | (Inr _, m3) \<Rightarrow>
                  (if err_code e = Cancelled \<or> err_code e = Timeout then Inl e else Ok False, m3))
         | (Inr _, m2) \<Rightarrow>
             (let new_capacity = (case lm_shared_ctx m2 of None \<Rightarrow> 0 | Some n \<Rightarrow> int_of_uint32 n) in
              if old_capacity \<le> new_capacity \<and> old_slots \<le> target_slots then (Ok False, m2)
              else case context_memory N m2 of
                     Inl e \<Rightarrow>
                       (case recover_context N old_slots old_capacity (tick m2) of
                          (Inl failed, m3) \<Rightarrow> (Inl failed, m3)
                        | (Inr _, m3) \<Rightarrow> (Inl e, m3))
                   | Inr after \<Rightarrow> (Ok True, note_reclaimed_memory before after (tick m2))))"

text \<open>The largest capacity to try, or the answer when there is nothing to gain.\<close>

definition reclaim_maximum ::
  "'d llama_native \<Rightarrow> control_reads \<Rightarrow> int \<Rightarrow> int \<Rightarrow> int \<Rightarrow> llama_model \<Rightarrow>
     (bool + int) result \<times> llama_model" where
  "reclaim_maximum N ctl reserve old_capacity target_slots m =
     (let cp = (shared_context_params old_capacity m)\<lparr>cp_n_seq_max := target_slots\<rparr>;
          t = lm_tick m
      in case fit_pool N ctl (llama_model_params m) cp (minimum_pool m) old_capacity reserve
                (Some (nv_target_memory N t),
                 if lm_draft_ctx m = None then None else Some (nv_draft_memory N t)) m of
           (Inr fitted, m1) \<Rightarrow> (Ok (Inr fitted), m1)
         | (Inl e, m1) \<Rightarrow>
             (if err_code e = OutOfMemory then Ok (Inl False)
              else if err_code e \<noteq> ResourceBusy then Inl e
              else if old_capacity - minimum_pool m < 256 then Ok (Inl False)
              else Ok (Inr (old_capacity - 256)), m1))"

definition reclaim_checked ::
  "'d llama_native \<Rightarrow> control_reads \<Rightarrow> int \<Rightarrow> int \<Rightarrow> llama_model \<Rightarrow> bool result \<times> llama_model" where
  "reclaim_checked N ctl additional_reserve_mb old_capacity m =
     (let old_slots = int (length (lm_slots m));
          target_slots = (if mi_concurrency_auto (lm_info m) then 1 else old_slots);
          reserve = cf_vram_safety_margin_mb (lm_cfg m) + additional_reserve_mb
      in if old_capacity \<le> minimum_pool m \<and> old_slots \<le> target_slots then (Ok False, m)
         else case context_memory N m of
           Inl e \<Rightarrow> (Inl e, tick m)
         | Inr before \<Rightarrow>
             if before = 0 then (Ok False, tick m)
             else case check_control ctl ''idle context reclamation cancelled''
                         ''idle context reclamation deadline expired'' (tick m) of
               (Inl e, m1) \<Rightarrow> (Inl e, m1)
             | (Inr _, m1) \<Rightarrow>
                 (case reclaim_maximum N ctl reserve old_capacity target_slots m1 of
                    (Inl e, m2) \<Rightarrow> (Inl e, m2)
                  | (Inr (Inl answer), m2) \<Rightarrow> (Ok answer, m2)
                  | (Inr (Inr maximum), m2) \<Rightarrow>
                      (case check_control ctl
                              ''idle context reclamation cancelled or expired before recreation''
                              ''idle context reclamation cancelled or expired before recreation'' m2 of
                         (Inl e, m3) \<Rightarrow> (Inl e, m3)
                       | (Inr _, m3) \<Rightarrow>
                           if old_capacity \<le> maximum \<and> old_slots \<le> target_slots then (Ok False, m3)
                           else recreate_smaller N ctl maximum reserve old_capacity target_slots
                                  before m3)))"

definition llama_reclaim_idle_context ::
  "'d llama_native \<Rightarrow> control_reads \<Rightarrow> int \<Rightarrow> llama_model \<Rightarrow> bool result \<times> llama_model" where
  "llama_reclaim_idle_context N ctl additional_reserve_mb m0 =
     (if additional_reserve_mb < 0
        then (Err InvalidArgument ''additional context reclamation reserve cannot be negative'', m0)
      else case check_control ctl ''idle context reclamation cancelled''
                  ''idle context reclamation deadline expired'' m0 of
        (Inl e, m) \<Rightarrow> (Inl e, m)
      | (Inr _, m) \<Rightarrow>
          (case lm_shared_ctx m of
             None \<Rightarrow> (Ok False, m)
           | Some n_ctx \<Rightarrow>
               if \<not> lm_loaded m \<or> \<not> mi_context_pool_auto (lm_info m) \<or> \<not> cf_kv_unified (lm_cfg m) \<or>
                  additional_reserve_mb = 0 then (Ok False, m)
               else if \<not> scheduler_ready m
                 then (Err Unavailable ''cannot reclaim an unhealthy model context'', m)
               else if any_busy m
                 then (Err Unavailable ''cannot reclaim context while slots are active'', m)
               else if INT_MAX - cf_vram_safety_margin_mb (lm_cfg m) < additional_reserve_mb
                 then (Err InvalidArgument ''context reclamation reserve exceeds supported range'', m)
               else if INT_MAX < minimum_pool m
                 then (Err InvalidArgument ''context pool minimum exceeds supported range'', m)
               else if INT_MAX < n_ctx
                 then (Err InvalidArgument ''current context capacity exceeds supported range'', m)
               else reclaim_checked N ctl additional_reserve_mb n_ctx m))"

section \<open>Memory, slots\<close>

definition llama_estimate_vram_mb :: "int \<Rightarrow> llama_model \<Rightarrow> int" where
  "llama_estimate_vram_mb slots m =
     (let info = lm_info m; floor = max 0 (mi_vram_required_mb info);
          per_slot = (0 < mi_vram_fixed_mb info \<and> 0 < mi_vram_per_slot_mb info);
          wide = (\<lambda>n. clamp (mi_vram_fixed_mb info + mi_vram_per_slot_mb info * n) 0 INT_MAX);
          estimate = (if per_slot then wide (max (mi_min_slots info) slots) else floor);
          minimum = (if per_slot then max floor (wide (max 0 (mi_min_slots info))) else floor)
      in max minimum (estimate - lm_reclaimed_context_vram_mb m))"

definition llama_vram_usage_mb :: "llama_model \<Rightarrow> int" where
  "llama_vram_usage_mb m = llama_estimate_vram_mb (llama_n_slots m) m"

definition llama_can_resize_slots :: "llama_model \<Rightarrow> bool" where
  "llama_can_resize_slots m =
     (let info = lm_info m in
      \<not> mi_concurrency_auto info \<and> 0 < mi_vram_fixed_mb info \<and> 0 < mi_vram_per_slot_mb info \<and>
      mi_min_slots info < mi_n_slots info)"

definition set_n_slots :: "int \<Rightarrow> llama_model \<Rightarrow> llama_model" where
  "set_n_slots n m = m\<lparr>lm_info := (lm_info m)\<lparr>mi_n_slots := n\<rparr>\<rparr>"

text \<open>\<^verbatim>\<open>load()\<close> runs under the default control, which is never cancelled and does not expire.\<close>

definition no_control :: control_reads where
  "no_control = (\<lambda>t k. (False, False))"

definition llama_resize_slots ::
  "'d llama_native \<Rightarrow> int \<Rightarrow> llama_model \<Rightarrow> unit result \<times> llama_model" where
  "llama_resize_slots N slots m =
     (if mi_concurrency_auto (lm_info m)
        then (Err Unavailable ''automatic sequence capacity is fitted at load time'', m)
      else if slots < mi_min_slots (lm_info m) \<or> mi_n_slots (lm_info m) < slots
        then (Err InvalidArgument (''invalid slot capacity: '' @ string_of_int slots), m)
      else if slots = mi_n_slots (lm_info m) then (Ok (), m)
      else if any_busy m then (Err Unavailable ''cannot resize while slots are active'', m)
      else if \<not> lm_loaded m then (Ok (), set_n_slots slots m)
      else (case llama_load N no_control (set_n_slots slots (snd (llama_unload m))) of
              (Inr u, m1) \<Rightarrow> (Inr u, m1)
            | (Inl e, m1) \<Rightarrow>
                (Inl e, snd (llama_load N no_control (set_n_slots (mi_n_slots (lm_info m)) m1)))))"

definition llama_n_free_slots :: "llama_model \<Rightarrow> int" where
  "llama_n_free_slots m =
     (if lm_shared_ctx m = None then 0
      else int (length (filter (\<lambda>s. \<not> sl_busy s) (lm_slots m))))"

definition llama_execution_healthy :: "llama_model \<Rightarrow> bool" where
  "llama_execution_healthy m = (lm_loaded m \<and> lm_shared_ctx m \<noteq> None \<and> scheduler_ready m)"

definition llama_acquire_slot :: "llama_model \<Rightarrow> int result \<times> llama_model" where
  "llama_acquire_slot m =
     (if \<not> lm_loaded m then (Err Internal ''model not loaded'', m)
      else if lm_shared_ctx m = None \<or> \<not> scheduler_ready m
        then (Err Unavailable ''model execution failed; reload required'', m)
      else case first_free (map sl_busy (lm_slots m)) 0 of
             None \<Rightarrow> (Err Unavailable ''no free slots'', m)
           | Some i \<Rightarrow> (Ok (int i),
               m\<lparr>lm_slots := (lm_slots m)[i := (lm_slots m ! i)\<lparr>sl_busy := True\<rparr>]\<rparr>))"

definition slot_in_range :: "int \<Rightarrow> llama_model \<Rightarrow> bool" where
  "slot_in_range slot m = (0 \<le> slot \<and> slot < int (length (lm_slots m)))"

definition llama_release_slot :: "int \<Rightarrow> llama_model \<Rightarrow> unit result \<times> llama_model" where
  "llama_release_slot slot m =
     (if \<not> slot_in_range slot m
        then (Err InvalidArgument (''slot_id out of range: '' @ string_of_int slot), m)
      else (Ok (), m\<lparr>lm_slots := (lm_slots m)[nat slot :=
              (lm_slots m ! nat slot)\<lparr>sl_busy := False, sl_sequence_bound := False\<rparr>]\<rparr>))"

definition llama_slot_busy :: "int \<Rightarrow> llama_model \<Rightarrow> bool" where
  "llama_slot_busy slot m = (slot_in_range slot m \<and> sl_busy (lm_slots m ! nat slot))"

text \<open>The sequences whose cache entries are removed from each context, and the emptied slots.\<close>

definition reset_slot :: "slot_state \<Rightarrow> slot_state" where
  "reset_slot s = SlotState\<lparr>sl_sequence_id := sl_sequence_id s\<rparr>"

definition llama_reset_all_slots :: "llama_model \<Rightarrow> (int list \<times> int list) \<times> llama_model" where
  "llama_reset_all_slots m =
     (let removed = [0..int (length (lm_slots m)) - 1]
      in ((if lm_shared_ctx m = None then [] else removed,
           if lm_draft_ctx m = None then [] else removed),
          m\<lparr>lm_slots := map reset_slot (lm_slots m)\<rparr>))"

end
