(* ===== verification/Chat_Adapter.thy ===== *)
theory Chat_Adapter
  imports Model_Info
begin

text \<open>
  What a chat request becomes before the model's template sees it
  (\<^verbatim>\<open>libs/llama_cpp_wrapper/src/llama_chat_adapter.cpp\<close> on the types of
  \<^verbatim>\<open>libs/inference/domain.hpp\<close>): the messages and their media, the tools, the reasoning effort,
  the output constraint, and the history that is dropped when the prompt is too long.
  nlohmann::json is outside the repository: whether a schema parses to the empty object is the
  parameter \<open>empty_object\<close>.
\<close>

section \<open>The request\<close>

datatype message_role =
    DeveloperRole | SystemRole | UserRole | AssistantRole | ToolRole | FunctionRole

datatype content =
    TextContent string
  | ImageContent "nat list" string string
  | AudioContent "nat list" string

record function_call =
  fc_id :: string
  fc_name :: string
  fc_arguments :: string

record message =
  ms_role :: message_role
  ms_content :: "content list"
  ms_tool_calls :: "function_call list"
  ms_reasoning :: string
  ms_tool_call_id :: string
  ms_name :: string

definition parse_role :: "string \<Rightarrow> message_role" where
  "parse_role v =
     (if v = ''developer'' then DeveloperRole
      else if v = ''system'' then SystemRole
      else if v = ''assistant'' then AssistantRole
      else if v = ''tool'' then ToolRole
      else if v = ''function'' then FunctionRole
      else UserRole)"

record function_tool =
  ft_name :: string
  ft_description :: string
  ft_parameters_schema :: string

datatype tool_choice_kind = ToolAuto | ToolNone | ToolRequired | ToolFunction

record tool_choice =
  th_kind :: tool_choice_kind
  th_function_name :: string

datatype structured_output_kind = TextOutput | JsonObject | JsonSchema | Grammar

record structured_output =
  so_kind :: structured_output_kind
  so_schema :: string

datatype reasoning_format = FormatAutomatic | FormatNone | FormatDeepSeek | FormatDeepSeekLegacy

record generation_request =
  gr_prompt :: string
  gr_messages :: "message list"
  gr_tools :: "function_tool list"
  gr_tool_choice :: tool_choice
  gr_output :: structured_output
  gr_stop :: "string list"
  gr_reasoning_effort :: "string option"
  gr_enable_reasoning :: "bool option"
  gr_max_output_tokens :: int
  gr_context_window :: "int option"
  gr_logprobs :: bool
  gr_top_logprobs :: int
  gr_parallel_tool_calls :: bool
  gr_add_generation_prompt :: bool
  gr_reasoning_format :: reasoning_format

definition GenerationRequest :: generation_request where
  "GenerationRequest =
     \<lparr>gr_prompt = [], gr_messages = [], gr_tools = [],
      gr_tool_choice = \<lparr>th_kind = ToolAuto, th_function_name = []\<rparr>,
      gr_output = \<lparr>so_kind = TextOutput, so_schema = []\<rparr>, gr_stop = [],
      gr_reasoning_effort = None, gr_enable_reasoning = None, gr_max_output_tokens = - 1,
      gr_context_window = None, gr_logprobs = False, gr_top_logprobs = 0,
      gr_parallel_tool_calls = True, gr_add_generation_prompt = True,
      gr_reasoning_format = FormatAutomatic\<rparr>"

text \<open>The reasoning profile of a model.\<close>

record reasoning_profile =
  rp_supported :: bool
  rp_default_effort :: string
  rp_efforts :: "string list"
  rp_aliases :: "string strmap"
  rp_none_disables :: bool

section \<open>The inputs of the template\<close>

datatype common_reasoning_format =
    REASONING_NONE | REASONING_AUTO | REASONING_DEEPSEEK | REASONING_DEEPSEEK_LEGACY

datatype common_tool_choice = CHOICE_AUTO | CHOICE_REQUIRED | CHOICE_NONE

datatype content_part = TextPart string | MediaMarker

record chat_msg =
  cm_role :: string
  cm_content :: string
  cm_content_parts :: "content_part list"
  cm_tool_calls :: "function_call list"
  cm_reasoning_content :: string
  cm_tool_name :: string
  cm_tool_call_id :: string

definition common_chat_msg :: chat_msg where
  "common_chat_msg = \<lparr>cm_role = [], cm_content = [], cm_content_parts = [], cm_tool_calls = [],
     cm_reasoning_content = [], cm_tool_name = [], cm_tool_call_id = []\<rparr>"

record template_inputs =
  ti_messages :: "chat_msg list"
  ti_tools :: "function_tool list"
  ti_tool_choice :: common_tool_choice
  ti_grammar :: string
  ti_json_schema :: string
  ti_reasoning_format :: common_reasoning_format
  ti_add_generation_prompt :: bool
  ti_enable_thinking :: bool
  ti_parallel_tool_calls :: bool
  ti_kwargs :: "string strmap"

fun template_role :: "message_role \<Rightarrow> string" where
  "template_role DeveloperRole = ''developer''"
| "template_role SystemRole = ''system''"
| "template_role AssistantRole = ''assistant''"
| "template_role ToolRole = ''tool''"
| "template_role FunctionRole = ''function''"
| "template_role UserRole = ''user''"

fun requested_reasoning_format :: "reasoning_format \<Rightarrow> common_reasoning_format" where
  "requested_reasoning_format FormatNone = REASONING_NONE"
| "requested_reasoning_format FormatDeepSeek = REASONING_DEEPSEEK"
| "requested_reasoning_format FormatDeepSeekLegacy = REASONING_DEEPSEEK_LEGACY"
| "requested_reasoning_format FormatAutomatic = REASONING_AUTO"

definition configured_reasoning_format :: "string \<Rightarrow> common_reasoning_format" where
  "configured_reasoning_format v =
     (if v = ''none'' then REASONING_NONE
      else if v = ''deepseek'' then REASONING_DEEPSEEK
      else if v = ''deepseek_legacy'' \<or> v = ''deepseek-legacy'' then REASONING_DEEPSEEK_LEGACY
      else REASONING_AUTO)"

fun common_choice :: "tool_choice_kind \<Rightarrow> common_tool_choice" where
  "common_choice ToolNone = CHOICE_NONE"
| "common_choice ToolRequired = CHOICE_REQUIRED"
| "common_choice ToolFunction = CHOICE_REQUIRED"
| "common_choice ToolAuto = CHOICE_AUTO"

text \<open>\<^verbatim>\<open>quote_json_string\<close>: the two escapes, and the control characters as four hexadecimal digits.\<close>

definition json_hex_digit :: "nat \<Rightarrow> char" where
  "json_hex_digit n = ''0123456789abcdef'' ! n"

definition quote_json_char :: "char \<Rightarrow> string" where
  "quote_json_char c =
     (if c = CHR 0x22 \<or> c = CHR 0x5C then [CHR 0x5C, c]
      else if byte_of c < 32
      then [CHR 0x5C, CHR ''u'', CHR ''0'', CHR ''0'', json_hex_digit (byte_of c div 16 mod 16),
            json_hex_digit (byte_of c mod 16)]
      else [c])"

definition quote_json_string :: "string \<Rightarrow> string" where
  "quote_json_string s = CHR 0x22 # concat (map quote_json_char s) @ [CHR 0x22]"

section \<open>Messages\<close>

text \<open>One message: its parts in order, the bytes of its images added to the media.\<close>

fun adapt_parts ::
  "content list \<Rightarrow> nat list list \<Rightarrow> (content_part list \<times> nat list list) result" where
  "adapt_parts [] media = Ok ([], media)"
| "adapt_parts (TextContent text # rest) media =
     map_sum id (map_prod ((#) (TextPart text)) id) (adapt_parts rest media)"
| "adapt_parts (ImageContent data type detail # rest) media =
     (if data = [] then Err InvalidArgument ''image content must not be empty''
      else map_sum id (map_prod ((#) MediaMarker) id) (adapt_parts rest (media @ [data])))"
| "adapt_parts (AudioContent data type # rest) media =
     Err InvalidArgument ''llama text generation does not support audio content''"

definition adapt_message ::
  "message \<Rightarrow> nat list list \<Rightarrow> (chat_msg \<times> nat list list) result" where
  "adapt_message msg media =
     map_sum id (map_prod (\<lambda>parts. common_chat_msg\<lparr>cm_role := template_role (ms_role msg),
         cm_reasoning_content := ms_reasoning msg, cm_tool_call_id := ms_tool_call_id msg,
         cm_tool_name := ms_name msg, cm_tool_calls := ms_tool_calls msg,
         cm_content_parts := parts\<rparr>) id)
       (adapt_parts (ms_content msg) media)"

fun adapt_messages ::
  "message list \<Rightarrow> nat list list \<Rightarrow> (chat_msg list \<times> nat list list) result" where
  "adapt_messages [] media = Ok ([], media)"
| "adapt_messages (m # rest) media =
     (case adapt_message m media of
        Inl e \<Rightarrow> Inl e
      | Inr (c, media1) \<Rightarrow> map_sum id (map_prod ((#) c) id) (adapt_messages rest media1))"

section \<open>Reasoning effort\<close>

definition requested_effort :: "reasoning_profile \<Rightarrow> string option \<Rightarrow> string option" where
  "requested_effort rp requested_value =
     (if requested_value = None \<and> rp_supported rp \<and> rp_default_effort rp \<noteq> []
      then Some (rp_default_effort rp) else requested_value)"

definition resolved_effort :: "reasoning_profile \<Rightarrow> string \<Rightarrow> string" where
  "resolved_effort rp requested =
     (case lookup (rp_aliases rp) requested of None \<Rightarrow> requested | Some v \<Rightarrow> v)"

definition apply_reasoning_effort ::
  "reasoning_profile \<Rightarrow> string \<Rightarrow> string option \<Rightarrow> template_inputs \<Rightarrow>
     string result \<times> template_inputs" where
  "apply_reasoning_effort rp name requested_value ti =
     (case requested_effort rp requested_value of
        None \<Rightarrow> (Ok [], ti)
      | Some requested \<Rightarrow>
          if \<not> rp_supported rp
          then (Err InvalidArgument (''model does not support reasoning effort: '' @ name), ti)
          else let resolved = resolved_effort rp requested in
            if resolved = ''none''
            then (if \<not> rp_none_disables rp
                  then (Err InvalidArgument
                     (''reasoning effort 'none' is not supported by model: '' @ name), ti)
                  else (Ok resolved, ti\<lparr>ti_enable_thinking := False,
                          ti_kwargs := AList.delete ''reasoning_effort'' (ti_kwargs ti)\<rparr>))
            else if resolved \<notin> set (rp_efforts rp)
            then (Err InvalidArgument (''unsupported reasoning effort '' @ [CHR 0x27] @ requested @
                    [CHR 0x27] @ '' for model: '' @ name), ti)
            else (Ok resolved, ti\<lparr>ti_kwargs := AList.update ''reasoning_effort''
                    (quote_json_string resolved) (ti_kwargs ti)\<rparr>))"

section \<open>The whole request\<close>

record adapter_options =
  ao_supports_thinking :: bool
  ao_supports_parallel_tool_calls :: bool
  ao_default_reasoning_format :: string

definition adapted_tools :: "generation_request \<Rightarrow> function_tool list" where
  "adapted_tools req =
     filter (\<lambda>t. \<not> (th_kind (gr_tool_choice req) = ToolFunction \<and>
                   ft_name t \<noteq> th_function_name (gr_tool_choice req))) (gr_tools req)"

definition output_constraint ::
  "(string \<Rightarrow> bool) \<Rightarrow> structured_output \<Rightarrow> template_inputs \<Rightarrow> template_inputs" where
  "output_constraint empty_object out ti =
     (case so_kind out of
        TextOutput \<Rightarrow> ti
      | Grammar \<Rightarrow> ti\<lparr>ti_grammar := so_schema out\<rparr>
      | JsonObject \<Rightarrow> ti\<lparr>ti_json_schema := ''{'' @ [CHR 0x22] @ ''type'' @ [CHR 0x22] @ '':'' @
           [CHR 0x22] @ ''object'' @ [CHR 0x22] @ ''}''\<rparr>
      | JsonSchema \<Rightarrow>
          (let schema = (if so_schema out = [] then ''{}'' else so_schema out)
           in ti\<lparr>ti_json_schema :=
                (if empty_object schema
                 then ''{'' @ [CHR 0x22] @ ''$comment'' @ [CHR 0x22] @ '':'' @ [CHR 0x22] @
                      ''Unconstrained JSON output'' @ [CHR 0x22] @ ''}''
                 else schema)\<rparr>))"

definition initial_inputs ::
  "generation_request \<Rightarrow> adapter_options \<Rightarrow> chat_msg list \<Rightarrow> template_inputs" where
  "initial_inputs req options messages =
     \<lparr>ti_messages =
        (if messages = []
         then [common_chat_msg\<lparr>cm_role := ''user'', cm_content := gr_prompt req\<rparr>] else messages),
      ti_tools = adapted_tools req,
      ti_tool_choice = common_choice (th_kind (gr_tool_choice req)),
      ti_grammar = [], ti_json_schema = [],
      ti_reasoning_format =
        (if gr_reasoning_format req \<noteq> FormatAutomatic
         then requested_reasoning_format (gr_reasoning_format req)
         else configured_reasoning_format (ao_default_reasoning_format options)),
      ti_add_generation_prompt = gr_add_generation_prompt req,
      ti_enable_thinking = (case gr_enable_reasoning req of
                              None \<Rightarrow> ao_supports_thinking options | Some v \<Rightarrow> v),
      ti_parallel_tool_calls = (ao_supports_parallel_tool_calls options \<and> gr_parallel_tool_calls req),
      ti_kwargs = []\<rparr>"

definition adapt_generation_request ::
  "(string \<Rightarrow> bool) \<Rightarrow> reasoning_profile \<Rightarrow> string \<Rightarrow> adapter_options \<Rightarrow> generation_request \<Rightarrow>
     (template_inputs \<times> nat list list) result" where
  "adapt_generation_request empty_object rp name options req =
     (case adapt_messages (gr_messages req) [] of
        Inl e \<Rightarrow> Err (err_code e) (err_message e)
      | Inr (messages, media) \<Rightarrow>
          (let ti = initial_inputs req options messages in
           if ti_tools ti \<noteq> [] \<and> ti_tool_choice ti \<noteq> CHOICE_NONE \<and> so_kind (gr_output req) = Grammar
           then Err InvalidArgument ''custom grammar constraints cannot be combined with tools''
           else case apply_reasoning_effort rp name (gr_reasoning_effort req) ti of
                  (Inl e, _) \<Rightarrow> Err (err_code e) (err_message e)
                | (Inr _, ti1) \<Rightarrow> Ok (output_constraint empty_object (gr_output req) ti1, media)))"

section \<open>Fitting the history\<close>

text \<open>
  \<open>fits\<close> is the caller's test; it renders the prompt as a side effect, so it threads a state.
  The search probes suffixes that start at a user message.
\<close>

definition is_system :: "chat_msg \<Rightarrow> bool" where
  "is_system m = (cm_role m = ''system'' \<or> cm_role m = ''developer'')"

definition system_end :: "chat_msg list \<Rightarrow> nat" where
  "system_end msgs = length (takeWhile is_system msgs)"

definition turn_boundaries :: "chat_msg list \<Rightarrow> nat list" where
  "turn_boundaries msgs =
     filter (\<lambda>i. cm_role (msgs ! i) = ''user'') [Suc (system_end msgs)..<length msgs]"

definition history_suffix :: "chat_msg list \<Rightarrow> nat \<Rightarrow> chat_msg list" where
  "history_suffix msgs start = take (system_end msgs) msgs @ drop start msgs"

function history_search ::
  "(nat \<Rightarrow> 's \<Rightarrow> bool \<times> 's) \<Rightarrow> nat list \<Rightarrow> nat \<Rightarrow> nat \<Rightarrow> nat \<Rightarrow> 's \<Rightarrow> nat \<times> nat \<times> 's" where
  "history_search select boundaries lower upper current s =
     (if lower < upper
      then let middle = lower + (upper - lower) div 2; start = boundaries ! middle
           in case select start s of
                (True, s1) \<Rightarrow> history_search select boundaries lower middle start s1
              | (False, s1) \<Rightarrow> history_search select boundaries (middle + 1) upper start s1
      else (lower, current, s))"
  by pat_completeness auto
termination
  by (relation "measure (\<lambda>(select, boundaries, lower, upper, current, s). upper - lower)") auto

declare history_search.simps [simp del]

definition fit_chat_history ::
  "(chat_msg list \<Rightarrow> 's \<Rightarrow> bool \<times> 's) \<Rightarrow> chat_msg list \<Rightarrow> 's \<Rightarrow> nat \<times> chat_msg list \<times> 's" where
  "fit_chat_history fits msgs s0 =
     (case fits msgs s0 of
        (True, s1) \<Rightarrow> (0, msgs, s1)
      | (False, s1) \<Rightarrow>
          (let boundaries = turn_boundaries msgs;
               select = (\<lambda>start. fits (history_suffix msgs start))
           in if boundaries = [] then (0, msgs, s1)
              else let (lower, current, s2) =
                         history_search select boundaries 0 (length boundaries - 1) 0 s1;
                       start = boundaries ! lower;
                       s3 = (if current \<noteq> start then snd (select start s2) else s2)
                   in (start - system_end msgs, history_suffix msgs start, s3)))"

section \<open>Facts about the history\<close>

lemma turn_boundaries_iff:
  "i \<in> set (turn_boundaries msgs) \<longleftrightarrow>
     system_end msgs < i \<and> i < length msgs \<and> cm_role (msgs ! i) = ''user''"
  by (auto simp: turn_boundaries_def)

lemma sorted_boundaries: "sorted_wrt (<) (turn_boundaries msgs)"
  unfolding turn_boundaries_def by (rule sorted_wrt_filter) simp

lemma system_end_le: "system_end msgs \<le> length msgs"
  by (simp add: system_end_def length_takeWhile_le)

lemma history_suffix_length:
  assumes "i \<in> set (turn_boundaries msgs)"
  shows "length (history_suffix msgs i) + (i - system_end msgs) = length msgs"
  using assms by (simp add: turn_boundaries_iff history_suffix_def)

text \<open>The search ends inside its range, and the last thing it tried is what it reports.\<close>

lemma history_search_tried:
  assumes "history_search select b lower upper current s = (k, current', s')"
    and "lower \<le> upper" "upper < length b"
    and "current = 0 \<or> current \<in> set b \<and> (\<exists>z. s = snd (select current z))"
  shows "lower \<le> k \<and> k \<le> upper \<and>
     (current' = 0 \<or> current' \<in> set b \<and> (\<exists>z. s' = snd (select current' z)))"
  using assms
proof (induction "upper - lower" arbitrary: lower upper current s rule: less_induct)
  case less
  show ?case
  proof (cases "lower < upper")
    case False
    with less.prems show ?thesis by (subst (asm) history_search.simps) auto
  next
    case True
    define middle where "middle = lower + (upper - lower) div 2"
    have m: "lower \<le> middle" "middle < upper" using True by (auto simp: middle_def)
    obtain ok s1 where sel: "select (b ! middle) s = (ok, s1)" by fastforce
    have tried: "b ! middle \<in> set b \<and> (\<exists>z. s1 = snd (select (b ! middle) z))"
      using sel m less.prems(3) by (metis less_trans nth_mem snd_conv)
    have run: "history_search select b (if ok then lower else middle + 1) (if ok then middle else upper)
        (b ! middle) s1 = (k, current', s')"
      using less.prems(1) True sel
      by (subst (asm) history_search.simps) (cases ok; simp add: Let_def middle_def)
    have "lower \<le> k \<and> k \<le> upper \<and>
        (current' = 0 \<or> current' \<in> set b \<and> (\<exists>z. s' = snd (select current' z)))"
    proof (cases ok)
      case True
      have "middle - lower < upper - lower" using m by simp
      with less.hyps [OF _ run] True m less.prems(3) tried show ?thesis by auto
    next
      case False
      have "upper - (middle + 1) < upper - lower" using m by simp
      with less.hyps [OF _ run] False m less.prems(3) tried show ?thesis by auto
    qed
    then show ?thesis .
  qed
qed

text \<open>With a test that depends on the messages alone and is monotone: the first boundary that fits.\<close>

lemma history_search_first:
  assumes "\<And>i z. fst (select i z) = ok i"
    and "\<And>i j. i \<le> j \<Longrightarrow> j < length b \<Longrightarrow> ok (b ! i) \<Longrightarrow> ok (b ! j)"
    and "history_search select b lower upper current s = (k, current', s')"
    and "lower \<le> upper" "upper < length b"
  shows "lower \<le> k \<and> k \<le> upper \<and> (\<forall>j. lower \<le> j \<and> j < k \<longrightarrow> \<not> ok (b ! j)) \<and> (k < upper \<longrightarrow> ok (b ! k))"
  using assms(3-5)
proof (induction "upper - lower" arbitrary: lower upper current s rule: less_induct)
  case less
  show ?case
  proof (cases "lower < upper")
    case False
    with less.prems show ?thesis by (subst (asm) history_search.simps) auto
  next
    case True
    define middle where "middle = lower + (upper - lower) div 2"
    have m: "lower \<le> middle" "middle < upper" using True by (auto simp: middle_def)
    obtain s1 where sel: "select (b ! middle) s = (ok (b ! middle), s1)"
      using assms(1) [of "b ! middle" s] by (cases "select (b ! middle) s") auto
    show ?thesis
    proof (cases "ok (b ! middle)")
      case True
      with less.prems(1) \<open>lower < upper\<close> sel
      have "history_search select b lower middle (b ! middle) s1 = (k, current', s')"
        by (subst (asm) history_search.simps) (simp add: Let_def middle_def)
      from less.hyps [OF _ this] m less.prems(3) True show ?thesis
        by (cases "k < middle") auto
    next
      case False
      with less.prems(1) \<open>lower < upper\<close> sel
      have "history_search select b (middle + 1) upper (b ! middle) s1 = (k, current', s')"
        by (subst (asm) history_search.simps) (simp add: Let_def middle_def)
      from less.hyps [OF _ this] m less.prems(3)
      have k: "middle + 1 \<le> k" "k \<le> upper" "\<forall>j. middle + 1 \<le> j \<and> j < k \<longrightarrow> \<not> ok (b ! j)"
        "k < upper \<longrightarrow> ok (b ! k)" by auto
      have "\<not> ok (b ! j)" if "j \<le> middle" for j
        using assms(2) [OF that] False m less.prems(3) by auto
      then have "\<not> ok (b ! j)" if "j < k" for j using k(3) that by (cases "j \<le> middle") auto
      with k m show ?thesis by auto
    qed
  qed
qed

lemma fit_chat_history_cases:
  assumes "fit_chat_history fits msgs s0 = (n, kept, s')"
  obtains (whole) "n = 0" "kept = msgs" "s' = snd (fits msgs s0)"
      "fst (fits msgs s0) \<or> turn_boundaries msgs = []"
    | (cut) k current s2 where "\<not> fst (fits msgs s0)" "turn_boundaries msgs \<noteq> []"
        "history_search (\<lambda>start. fits (history_suffix msgs start)) (turn_boundaries msgs) 0
           (length (turn_boundaries msgs) - 1) 0 (snd (fits msgs s0)) = (k, current, s2)"
        "n = turn_boundaries msgs ! k - system_end msgs"
        "kept = history_suffix msgs (turn_boundaries msgs ! k)"
        "s' = (if current \<noteq> turn_boundaries msgs ! k then snd (fits kept s2) else s2)"
proof -
  obtain ok s1 where f: "fits msgs s0 = (ok, s1)" by fastforce
  show ?thesis
  proof (cases "ok \<or> turn_boundaries msgs = []")
    case True
    with assms f that(1) show ?thesis
      by (auto simp: fit_chat_history_def Let_def split: if_splits bool.splits)
  next
    case False
    obtain k current s2 where h: "history_search (\<lambda>start. fits (history_suffix msgs start))
        (turn_boundaries msgs) 0 (length (turn_boundaries msgs) - 1) 0 s1 = (k, current, s2)"
      by (metis prod_cases3)
    show ?thesis
      by (rule that(2)) (use assms f False h in \<open>auto simp: fit_chat_history_def Let_def split: if_splits\<close>)
  qed
qed

end
