(* ===== verification/Llama_Prompt.thy ===== *)
theory Llama_Prompt
  imports Llama_Model Chat_Adapter
begin

text \<open>
  From a chat request to a task of the scheduler (\<^verbatim>\<open>llama_cpp_prompt_cache.ipp\<close> and
  \<^verbatim>\<open>maybe_truncate_prompt\<close> of \<^verbatim>\<open>llama_cpp_model.cpp\<close>): rendering and tokenizing the prompt, the
  truncation of a prompt that is too long, the demand it puts on the context, and the choice of
  the slot whose cached sequence shares the longest prefix with it.

  The template engine, the tokenizer and the vision projector are the record \<open>prompt_native\<close>. The
  sampling parameters are floating point numbers that are only handed on; they are left out.
\<close>

section \<open>Truncation\<close>

text \<open>The context kept free for the answer; the divisions are those of C++.\<close>

definition truncation_reserve :: "int \<Rightarrow> int \<Rightarrow> int" where
  "truncation_reserve n_ctx req_max_tokens =
     (let reserve_hi = n_ctx sdiv 4
      in clamp (if 0 < req_max_tokens then req_max_tokens else 1024) (min 256 reserve_hi) reserve_hi)"

definition truncation_target :: "int \<Rightarrow> int \<Rightarrow> int" where
  "truncation_target n_ctx req_max_tokens = n_ctx - truncation_reserve n_ctx req_max_tokens - 1"

text \<open>The beginning and the end of the prompt are kept; the context must hold one token at least.\<close>

definition maybe_truncate_prompt :: "token list \<Rightarrow> int \<Rightarrow> int \<Rightarrow> token list" where
  "maybe_truncate_prompt tokens n_ctx req_max_tokens =
     (if int (length tokens) < n_ctx then tokens
      else let target = truncation_target n_ctx req_max_tokens;
               keep_head = min 1024 (target sdiv 4);
               keep_tail = target - keep_head
           in take (nat keep_head) tokens @ drop (length tokens - nat keep_tail) tokens)"

section \<open>The native library\<close>

record chat_params =
  ch_prompt :: string
  ch_generation_prompt :: string
  ch_additional_stops :: "string list"

datatype input_chunk =
    TextChunk "token list"
  | ImageChunk int int "nat option"
  | OtherChunk

record prompt_native =
  pn_supports_thinking :: bool
  pn_parallel_tool_calls :: bool
  pn_empty_object :: "string \<Rightarrow> bool"
  pn_apply_template :: "template_inputs \<Rightarrow> string + chat_params"
  pn_tokenize :: "string \<Rightarrow> nat \<Rightarrow> int \<times> token list"
  pn_tokenize_stop :: "string \<Rightarrow> int \<times> token"
  pn_bitmap :: "nat list \<Rightarrow> bool option"
  pn_mtmd_tokenize :: "string \<Rightarrow> nat list list \<Rightarrow> int \<times> input_chunk list \<times> int"
  pn_n_ctx_seq :: int
  pn_recurrent :: bool
  pn_sampler_init :: "nat option"
  pn_reasoning :: reasoning_profile
  pn_reasoning_format :: string

section \<open>Rendering\<close>

record template_result =
  tr_prompt :: string
  tr_media :: "nat list list"
  tr_stop_strings :: "string list"
  tr_generation_prompt :: string
  tr_parse_tool_calls :: bool

definition token_count :: "prompt_native \<Rightarrow> string \<Rightarrow> int" where
  "token_count pn prompt =
     (let n = fst (pn_tokenize pn prompt 0) in if n < 0 then - n else n)"

text \<open>
  The test of the history: render, count. An exception of the template leaves the loop; here it is
  kept in the state and every later test passes.
\<close>

definition prompt_fits ::
  "prompt_native \<Rightarrow> int \<Rightarrow> template_inputs \<Rightarrow> chat_msg list \<Rightarrow> string + chat_params option \<Rightarrow>
     bool \<times> (string + chat_params option)" where
  "prompt_fits pn max_prompt_tokens ti msgs s =
     (case s of
        Inl what \<Rightarrow> (True, Inl what)
      | Inr _ \<Rightarrow>
          (case pn_apply_template pn (ti\<lparr>ti_messages := msgs\<rparr>) of
             Inl what \<Rightarrow> (True, Inl what)
           | Inr c \<Rightarrow> (token_count pn (ch_prompt c) < max_prompt_tokens, Inr (Some c))))"

definition render_template ::
  "prompt_native \<Rightarrow> int \<Rightarrow> bool \<Rightarrow> template_inputs \<Rightarrow> string + chat_params option" where
  "render_template pn max_prompt_tokens no_media ti =
     (if 0 < max_prompt_tokens \<and> no_media
      then snd (snd (fit_chat_history (prompt_fits pn max_prompt_tokens ti) (ti_messages ti) (Inr None)))
      else map_sum id Some (pn_apply_template pn ti))"

definition apply_chat_template ::
  "prompt_native \<Rightarrow> generation_request \<Rightarrow> int \<Rightarrow> llama_model \<Rightarrow> template_result result" where
  "apply_chat_template pn req max_prompt_tokens m =
     (if \<not> lm_chat_templates m then Err Internal ''chat templates not initialized''
      else case adapt_generation_request (pn_empty_object pn) (pn_reasoning pn) (mi_name (lm_info m))
                  \<lparr>ao_supports_thinking = pn_supports_thinking pn,
                   ao_supports_parallel_tool_calls = pn_parallel_tool_calls pn,
                   ao_default_reasoning_format = pn_reasoning_format pn\<rparr> req of
             Inl e \<Rightarrow> Err (err_code e) (err_message e)
           | Inr (ti, media) \<Rightarrow>
               if media \<noteq> [] \<and> \<not> lm_mtmd m
               then Err InvalidArgument ''image input requires a loaded vision projector''
               else case render_template pn max_prompt_tokens (media = []) ti of
                      Inl what \<Rightarrow> Err ParseError (''chat template failed: '' @ what)
                    | Inr None \<Rightarrow> Err Internal []
                    | Inr (Some c) \<Rightarrow>
                        Ok \<lparr>tr_prompt = ch_prompt c, tr_media = media,
                            tr_stop_strings = ch_additional_stops c @ gr_stop req,
                            tr_generation_prompt = ch_generation_prompt c,
                            tr_parse_tool_calls = (ti_tools ti \<noteq> [] \<and> ti_tool_choice ti \<noteq> CHOICE_NONE)\<rparr>)"

section \<open>Tokens\<close>

text \<open>\<^verbatim>\<open>llama_tokenize\<close> into a buffer that grows once when it is too small.\<close>

definition tokenize_text :: "prompt_native \<Rightarrow> string \<Rightarrow> token list option" where
  "tokenize_text pn text =
     (let (n, tokens) = pn_tokenize pn text (length text + 16)
      in if 0 \<le> n then Some (take (nat n) tokens)
         else let (n1, tokens1) = pn_tokenize pn text (nat (- n))
              in if 0 \<le> n1 then Some (take (nat n1) tokens1) else None)"

definition tokenize_stop_strings :: "prompt_native \<Rightarrow> string list \<Rightarrow> token list" where
  "tokenize_stop_strings pn stops =
     map (snd \<circ> pn_tokenize_stop pn)
       (filter (\<lambda>s. s \<noteq> [] \<and> fst (pn_tokenize_stop pn s) = 1) stops)"

text \<open>The chunks of a prompt with images: tokens, a null token per image position, the images.\<close>

fun add_chunks ::
  "input_chunk list \<Rightarrow> token list \<Rightarrow> media_chunk list \<Rightarrow> (token list \<times> media_chunk list) result" where
  "add_chunks [] tokens media = Ok (tokens, media)"
| "add_chunks (TextChunk ts # rest) tokens media = add_chunks rest (tokens @ ts) media"
| "add_chunks (ImageChunk n_tokens positions copy # rest) tokens media =
     (if copy = None \<or> n_tokens \<le> 0
      then Err Internal ''multimodal prompt produced an invalid image chunk''
      else add_chunks rest (tokens @ replicate (nat n_tokens) LLAMA_TOKEN_NULL)
             (media @ [\<lparr>mc_token_start = int (length tokens), mc_token_count = n_tokens,
                        mc_position_count = positions, mc_data = copy\<rparr>]))"
| "add_chunks (OtherChunk # rest) tokens media =
     Err InvalidArgument ''only image media is supported for chat inference''"

fun check_bitmaps :: "prompt_native \<Rightarrow> nat list list \<Rightarrow> unit result" where
  "check_bitmaps pn [] = Ok ()"
| "check_bitmaps pn (bytes # rest) =
     (case pn_bitmap pn bytes of
        None \<Rightarrow> Err InvalidArgument ''image payload could not be decoded''
      | Some True \<Rightarrow> Err InvalidArgument ''only image media is supported for chat inference''
      | Some False \<Rightarrow> check_bitmaps pn rest)"

record predict_setup =
  su_sequence_id :: int
  su_prompt_tokens :: "token list"
  su_media_chunks :: "media_chunk list"
  su_prompt_position_count :: int
  su_stop_strings :: "string list"
  su_stop_tokens :: "token list"
  su_parse_tool_calls :: bool
  su_sampler :: "nat option"
  su_max_tokens :: int
  su_n_ctx_seq :: int
  su_last_prompt_tokens :: "token list"
  su_recurrent_checkpoint :: "bytes option"
  su_recurrent_draft_checkpoint :: "bytes option"
  su_recurrent_replay_checkpoint :: "bytes option"
  su_checkpoint_pos :: int
  su_checkpoint_capture_pos :: int
  su_mtp_cache_synced :: bool

definition PredictSetup :: predict_setup where
  "PredictSetup = \<lparr>su_sequence_id = - 1, su_prompt_tokens = [], su_media_chunks = [],
     su_prompt_position_count = 0, su_stop_strings = [], su_stop_tokens = [],
     su_parse_tool_calls = False, su_sampler = None, su_max_tokens = 0, su_n_ctx_seq = 0,
     su_last_prompt_tokens = [], su_recurrent_checkpoint = None,
     su_recurrent_draft_checkpoint = None, su_recurrent_replay_checkpoint = None,
     su_checkpoint_pos = 0, su_checkpoint_capture_pos = 0, su_mtp_cache_synced = True\<rparr>"

definition media_prompt ::
  "prompt_native \<Rightarrow> template_result \<Rightarrow> llama_model \<Rightarrow> predict_setup \<Rightarrow> predict_setup result" where
  "media_prompt pn tr m s =
     (if \<not> lm_mtmd m then Err InvalidArgument ''image input requires a loaded vision projector''
      else case check_bitmaps pn (tr_media tr) of
        Inl e \<Rightarrow> Inl e
      | Inr _ \<Rightarrow>
          (let (rc, chunks, positions) = pn_mtmd_tokenize pn (tr_prompt tr) (tr_media tr)
           in if rc \<noteq> 0
              then Err InvalidArgument (''multimodal prompt tokenization failed (rc='' @
                     string_of_int rc @ '')'')
              else case add_chunks chunks [] [] of
                     Inl e \<Rightarrow> Inl e
                   | Inr (tokens, media) \<Rightarrow>
                       if tokens = [] \<or> last tokens = LLAMA_TOKEN_NULL
                       then Err Internal
                         ''multimodal chat template did not produce a text generation suffix''
                       else Ok (s\<lparr>su_prompt_tokens := tokens, su_media_chunks := media,
                                  su_prompt_position_count := positions,
                                  su_checkpoint_capture_pos := 0\<rparr>)))"

text \<open>A checkpoint is best captured where the prompt without the generation prompt ends.\<close>

definition ends_with :: "string \<Rightarrow> string \<Rightarrow> bool" where
  "ends_with s t = (length t \<le> length s \<and> drop (length s - length t) s = t)"

definition stable_capture_pos :: "prompt_native \<Rightarrow> template_result \<Rightarrow> token list \<Rightarrow> int \<Rightarrow> int" where
  "stable_capture_pos pn tr tokens fallback =
     (let g = tr_generation_prompt tr; prompt = tr_prompt tr in
      if g = [] \<or> \<not> ends_with prompt g then fallback
      else case tokenize_text pn (take (length prompt - length g) prompt) of
             None \<Rightarrow> fallback
           | Some stable_tokens \<Rightarrow>
               (let capture = recurrent_checkpoint_capture_pos tokens stable_tokens
                in if 0 < capture then capture else fallback))"

definition text_prompt ::
  "prompt_native \<Rightarrow> template_result \<Rightarrow> predict_setup \<Rightarrow> predict_setup result" where
  "text_prompt pn tr s =
     (case tokenize_text pn (tr_prompt tr) of
        None \<Rightarrow> Err Internal ''tokenization failed''
      | Some tokens \<Rightarrow>
          Ok (s\<lparr>su_prompt_tokens := tokens, su_prompt_position_count := int (length tokens),
                su_checkpoint_capture_pos :=
                  stable_capture_pos pn tr tokens (int (length tokens))\<rparr>))"

definition prompt_budget :: "generation_request \<Rightarrow> int \<Rightarrow> llama_model \<Rightarrow> int" where
  "prompt_budget req n_ctx_seq m =
     (if cf_truncate_prompt (lm_cfg m) \<and> 0 < n_ctx_seq
      then truncation_target n_ctx_seq (gr_max_output_tokens req) else 0)"

definition prepare_prompt ::
  "prompt_native \<Rightarrow> generation_request \<Rightarrow> int \<Rightarrow> llama_model \<Rightarrow> predict_setup result" where
  "prepare_prompt pn req n_ctx_seq m =
     (case apply_chat_template pn req (prompt_budget req n_ctx_seq m) m of
        Inl e \<Rightarrow> Inl e
      | Inr tr \<Rightarrow>
          (let s = PredictSetup\<lparr>su_stop_strings := tr_stop_strings tr,
                     su_stop_tokens := tokenize_stop_strings pn (tr_stop_strings tr),
                     su_parse_tool_calls := tr_parse_tool_calls tr\<rparr>
           in map_sum id (\<lambda>s1. s1\<lparr>su_n_ctx_seq := n_ctx_seq\<rparr>)
                (if tr_media tr \<noteq> [] then media_prompt pn tr m s else text_prompt pn tr s)))"

section \<open>The demand of a request\<close>

definition loaded_n_ctx_seq :: "prompt_native \<Rightarrow> llama_model \<Rightarrow> int" where
  "loaded_n_ctx_seq pn m =
     (if mi_concurrency_auto (lm_info m) then ctx_per_slot m
      else if cf_kv_unified (lm_cfg m) then min (ctx_per_slot m) (int_of_uint32 (pn_n_ctx_seq pn))
      else int_of_uint32 (pn_n_ctx_seq pn))"

definition request_context_limit :: "prompt_native \<Rightarrow> generation_request \<Rightarrow> llama_model \<Rightarrow> int" where
  "request_context_limit pn req m =
     (case gr_context_window req of
        None \<Rightarrow> loaded_n_ctx_seq pn m
      | Some w \<Rightarrow> min (loaded_n_ctx_seq pn m) w)"

text \<open>The positions of a prompt.\<close>

definition setup_positions :: "predict_setup \<Rightarrow> int" where
  "setup_positions s =
     (if 0 < su_prompt_position_count s then su_prompt_position_count s
      else int (length (su_prompt_tokens s)))"

text \<open>
  \<open>None\<close> is the call of \<^verbatim>\<open>llama_n_ctx_seq\<close> on a null context: \<^verbatim>\<open>shared_ctx_\<close> is not tested, and it is
  needed unless the concurrency is automatic.
\<close>

definition llama_estimate_request_demand ::
  "prompt_native \<Rightarrow> generation_request \<Rightarrow> llama_model \<Rightarrow> request_demand result option" where
  "llama_estimate_request_demand pn req m =
     (if lm_shared_ctx m = None \<and> \<not> mi_concurrency_auto (lm_info m) then None
      else Some
        (let limit = request_context_limit pn req m in
         case prepare_prompt pn req limit m of
           Inl e \<Rightarrow> Inl e
         | Inr s \<Rightarrow>
             (let positions = setup_positions s;
                  positions1 =
                    (if limit \<le> positions \<and> cf_truncate_prompt (lm_cfg m) \<and> su_media_chunks s = []
                     then int (length (maybe_truncate_prompt (su_prompt_tokens s) limit
                                         (gr_max_output_tokens req)))
                     else positions);
                  budget = max 1 (limit - positions1 - 1);
                  output = (if 0 < gr_max_output_tokens req
                            then min (gr_max_output_tokens req) budget else budget)
              in Ok \<lparr>request_demand.prompt_positions = positions1, output_tokens = output,
                     required_context = positions1 + output + 1, required_sequences = 1,
                     aggregate_context = 0, aggregate_sequences = 0\<rparr>)))"

section \<open>Preparing the inference\<close>

text \<open>How much of the prompt the cached sequence of a slot could save.\<close>

definition reusable_prefix :: "bool \<Rightarrow> token list \<Rightarrow> slot_state \<Rightarrow> nat" where
  "reusable_prefix recurrent tokens slot =
     (let common = recurrent_checkpoint_capture_pos tokens (sl_last_prompt_tokens slot) in
      if recurrent
      then (if recurrent_checkpoint_usable
                 (case sl_recurrent_checkpoint slot of None \<Rightarrow> 0 | Some c \<Rightarrow> length c)
                 (sl_checkpoint_pos slot) common (int (length tokens))
            then nat (sl_checkpoint_pos slot) else 0)
      else nat common)"

definition better_slot ::
  "bool \<Rightarrow> token list \<Rightarrow> slot_state list \<Rightarrow> nat \<Rightarrow> nat \<times> nat \<Rightarrow> nat \<times> nat" where
  "better_slot recurrent tokens slots index best =
     (if sl_sequence_bound (slots ! index) then best
      else let prefix = reusable_prefix recurrent tokens (slots ! index)
           in if snd best < prefix then (index, prefix) else best)"

definition best_slot :: "bool \<Rightarrow> token list \<Rightarrow> slot_state list \<Rightarrow> nat \<Rightarrow> nat \<times> nat" where
  "best_slot recurrent tokens slots slot_id =
     fold (better_slot recurrent tokens slots) [0..<length slots]
       (slot_id, reusable_prefix recurrent tokens (slots ! slot_id))"

text \<open>The sequences of two slots change places, the slots in use stay in use.\<close>

definition swap_sequences :: "nat \<Rightarrow> nat \<Rightarrow> slot_state list \<Rightarrow> slot_state list" where
  "swap_sequences i j slots =
     slots[i := (slots ! j)\<lparr>sl_busy := sl_busy (slots ! i)\<rparr>,
           j := (slots ! i)\<lparr>sl_busy := sl_busy (slots ! j)\<rparr>]"

definition bind_slot :: "bool \<Rightarrow> predict_setup \<Rightarrow> nat \<Rightarrow> slot_state list \<Rightarrow> slot_state list" where
  "bind_slot recurrent s slot_id slots =
     (let best = (if su_media_chunks s = [] \<and> \<not> sl_sequence_bound (slots ! slot_id)
                  then fst (best_slot recurrent (su_prompt_tokens s) slots slot_id) else slot_id);
          slots1 = (if best \<noteq> slot_id then swap_sequences slot_id best slots else slots)
      in slots1[slot_id := (slots1 ! slot_id)\<lparr>sl_sequence_bound := True\<rparr>])"

definition snapshot_slot :: "slot_state \<Rightarrow> predict_setup \<Rightarrow> predict_setup" where
  "snapshot_slot slot s =
     s\<lparr>su_sequence_id := sl_sequence_id slot,
       su_last_prompt_tokens := sl_last_prompt_tokens slot,
       su_recurrent_checkpoint := sl_recurrent_checkpoint slot,
       su_recurrent_draft_checkpoint := sl_recurrent_draft_checkpoint slot,
       su_recurrent_replay_checkpoint := sl_recurrent_replay_checkpoint slot,
       su_checkpoint_pos := sl_checkpoint_pos slot,
       su_mtp_cache_synced := sl_mtp_cache_synced slot\<rparr>"

text \<open>The prompt within its limit, and the tokens that may be generated.\<close>

definition limit_prompt ::
  "generation_request \<Rightarrow> llama_model \<Rightarrow> predict_setup \<Rightarrow> predict_setup result" where
  "limit_prompt req m s =
     (let context = setup_positions s in
      if context < su_n_ctx_seq s then Ok s
      else if \<not> cf_truncate_prompt (lm_cfg m) \<or> su_media_chunks s \<noteq> []
      then Err ContextLengthExceeded (''This model's maximum context length is '' @
             string_of_int (su_n_ctx_seq s) @ '' tokens. However, your messages resulted in '' @
             string_of_int context @ '' tokens. Please reduce the length of the messages.'')
      else let tokens = maybe_truncate_prompt (su_prompt_tokens s) (su_n_ctx_seq s)
                          (gr_max_output_tokens req)
           in Ok (s\<lparr>su_prompt_tokens := tokens,
                    su_prompt_position_count := int (length tokens)\<rparr>))"

definition generation_limit :: "generation_request \<Rightarrow> llama_model \<Rightarrow> predict_setup \<Rightarrow> int" where
  "generation_limit req m s =
     (let budget = max 1 (su_n_ctx_seq s - su_prompt_position_count s - 1);
          limit = (if 0 < gr_max_output_tokens req then gr_max_output_tokens req
                   else mi_default_max_output_tokens (lm_info m))
      in if 0 < limit then min limit budget else budget)"

definition prepare_inference ::
  "prompt_native \<Rightarrow> nat \<Rightarrow> generation_request \<Rightarrow> llama_model \<Rightarrow> predict_setup result \<times> llama_model"
where
  "prepare_inference pn slot_id req m =
     (case prepare_prompt pn req (request_context_limit pn req m) m of
        Inl e \<Rightarrow> (Inl e, m)
      | Inr s0 \<Rightarrow>
          (case limit_prompt req m s0 of
             Inl e \<Rightarrow> (Inl e, m)
           | Inr s1 \<Rightarrow>
               (let s2 = s1\<lparr>su_max_tokens := generation_limit req m s1\<rparr>;
                    slots = bind_slot (pn_recurrent pn) s2 slot_id (lm_slots m);
                    s3 = snapshot_slot (slots ! slot_id) s2;
                    m1 = m\<lparr>lm_slots := slots\<rparr>
                in if pn_sampler_init pn = None
                   then (Err Internal ''common_sampler_init returned null'', m1)
                   else (Ok (s3\<lparr>su_sampler := pn_sampler_init pn\<rparr>), m1))))"

end
