(* ===== verification/Chat_Parsing.thy ===== *)
theory Chat_Parsing
  imports Generation_Session
begin

text \<open>
  From the generated text to messages and tool calls (\<^verbatim>\<open>llama_cpp_model.cpp\<close>): the parser state of a
  stream, which sends the header of every tool call once and before its arguments, and the parser
  of last resort for tool calls that a model wrote as plain JSON.

  \<^verbatim>\<open>common_chat_parse\<close>, the assignment of identifiers, the computation of differences and
  nlohmann::json are outside the repository: they are parameters, an exception is the left of a sum.
\<close>

section \<open>Parsed messages and differences\<close>

record parsed_call =
  pc_id :: string
  pc_name :: string
  pc_arguments :: string

record parsed_msg =
  pm_content :: string
  pm_reasoning_content :: string
  pm_tool_calls :: "parsed_call list"

definition empty_msg :: parsed_msg where
  "empty_msg = \<lparr>pm_content = [], pm_reasoning_content = [], pm_tool_calls = []\<rparr>"

text \<open>\<^verbatim>\<open>tool_call_index\<close> is \<^verbatim>\<open>npos\<close> for a difference that is not of a tool call.\<close>

record msg_diff =
  md_content_delta :: string
  md_reasoning_delta :: string
  md_index :: "nat option"
  md_id :: string
  md_name :: string
  md_arguments :: string

definition to_delta :: "msg_diff \<Rightarrow> delta" where
  "to_delta d =
     \<lparr>d_content = md_content_delta d, d_reasoning_text = md_reasoning_delta d,
      d_tool_calls =
        (case md_index d of
           None \<Rightarrow> []
         | Some i \<Rightarrow> [\<lparr>tc_index = i, tc_id = md_id d,
                       tc_type = (if md_id d = [] then [] else ''function''),
                       tc_function_name = md_name d, tc_function_arguments = md_arguments d\<rparr>]),
      d_logprobs = []\<rparr>"

definition empty_delta :: "delta \<Rightarrow> bool" where
  "empty_delta d = (d_content d = [] \<and> d_reasoning_text d = [] \<and> d_tool_calls d = [])"

section \<open>The parser of a stream\<close>

record chat_parser =
  cp_parse :: "string \<Rightarrow> bool \<Rightarrow> string + parsed_msg"
  cp_is_empty :: "parsed_msg \<Rightarrow> bool"
  cp_set_ids :: "string list \<Rightarrow> parsed_msg \<Rightarrow> string list \<times> parsed_msg"
  cp_diffs :: "parsed_msg \<Rightarrow> parsed_msg \<Rightarrow> msg_diff list"
  cp_echo :: bool

record parser_state =
  ps_chat_msg :: parsed_msg
  ps_generated_text :: string
  ps_tool_call_ids :: "string list"
  ps_sent_names :: "nat list"

definition StreamingChatParserState :: "chat_parser \<Rightarrow> parser_state" where
  "StreamingChatParserState P =
     \<lparr>ps_chat_msg = (if cp_echo P then empty_msg
                     else (case cp_parse P [] True of Inl what \<Rightarrow> empty_msg | Inr m \<Rightarrow> m)),
      ps_generated_text = [], ps_tool_call_ids = [], ps_sent_names = []\<rparr>"

definition call_header :: "nat \<Rightarrow> parsed_call \<Rightarrow> msg_diff" where
  "call_header i c =
     \<lparr>md_content_delta = [], md_reasoning_delta = [], md_index = Some i, md_id = pc_id c,
      md_name = pc_name c, md_arguments = []\<rparr>"

text \<open>The headers that are due: of the named calls not yet announced that \<open>due\<close> selects.\<close>

fun send_headers ::
  "(nat \<Rightarrow> bool) \<Rightarrow> nat \<Rightarrow> parsed_call list \<Rightarrow> msg_diff list \<times> nat list \<Rightarrow> msg_diff list \<times> nat list"
where
  "send_headers due i [] acc = acc"
| "send_headers due i (c # cs) acc =
     send_headers due (Suc i) cs
       (if i \<in> set (snd acc) \<or> pc_name c = [] \<or> \<not> due i then acc
        else (fst acc @ [call_header i c], i # snd acc))"

definition send_diff ::
  "bool \<Rightarrow> parsed_call list \<Rightarrow> msg_diff \<Rightarrow> msg_diff list \<times> nat list \<Rightarrow> msg_diff list \<times> nat list"
where
  "send_diff is_partial calls d acc0 =
     (let (out, sent) = send_headers (\<lambda>i. md_index d \<noteq> Some i \<or> md_arguments d \<noteq> []) 0 calls acc0
      in case md_index d of
           None \<Rightarrow> (out @ [d], sent)
         | Some i \<Rightarrow>
             if i \<in> set sent
             then (if md_arguments d \<noteq> [] then (out @ [d\<lparr>md_name := [], md_id := []\<rparr>], sent)
                   else (out, sent))
             else if md_arguments d \<noteq> [] \<or> \<not> is_partial
             then (out @ [d\<lparr>md_name := pc_name (calls ! i), md_id := pc_id (calls ! i)\<rparr>], i # sent)
             else (out, sent))"

definition filter_diffs ::
  "bool \<Rightarrow> parsed_call list \<Rightarrow> msg_diff list \<Rightarrow> nat list \<Rightarrow> msg_diff list \<times> nat list" where
  "filter_diffs is_partial calls diffs sent0 =
     (let acc = fold (send_diff is_partial calls) diffs ([], sent0)
      in if is_partial then acc else send_headers (\<lambda>i. True) 0 calls acc)"

definition update_parser ::
  "chat_parser \<Rightarrow> string \<Rightarrow> bool \<Rightarrow> bool \<Rightarrow> parser_state \<Rightarrow> (string + msg_diff list) \<times> parser_state"
where
  "update_parser P text_added is_partial filter_tool_calls ps =
     (let ps1 = ps\<lparr>ps_generated_text := ps_generated_text ps @ text_added\<rparr>
      in case cp_parse P (ps_generated_text ps1) is_partial of
           Inl what \<Rightarrow> (Inl what, ps1)
         | Inr parsed \<Rightarrow>
             if cp_is_empty P parsed then (Inr [], ps1)
             else let (ids, msg) = cp_set_ids P (ps_tool_call_ids ps1) parsed;
                      diffs = cp_diffs P (ps_chat_msg ps1) msg;
                      ps2 = ps1\<lparr>ps_tool_call_ids := ids, ps_chat_msg := msg\<rparr>
                  in if \<not> filter_tool_calls then (Inr diffs, ps2)
                     else let (out, sent) = filter_diffs is_partial (pm_tool_calls msg) diffs
                                              (ps_sent_names ps2)
                          in (Inr out, ps2\<lparr>ps_sent_names := sent\<rparr>))"

text \<open>A sequence of updates: everything that was sent.\<close>

fun run_updates ::
  "chat_parser \<Rightarrow> (string \<times> bool) list \<Rightarrow> parser_state \<Rightarrow> msg_diff list \<times> parser_state" where
  "run_updates P [] ps = ([], ps)"
| "run_updates P ((text_added, is_partial) # rest) ps =
     (let (r, ps1) = update_parser P text_added is_partial True ps;
          (out, ps2) = run_updates P rest ps1
      in ((case r of Inl what \<Rightarrow> [] | Inr diffs \<Rightarrow> diffs) @ out, ps2))"

section \<open>Tool calls written as JSON\<close>

datatype json =
    JNull
  | JBool bool
  | JNumber string
  | JString string
  | JArray "json list"
  | JObject "(string \<times> json) list"

record tool_call =
  cl_id :: string
  cl_type :: string
  cl_function_name :: string
  cl_function_arguments :: string

text \<open>\<^verbatim>\<open>value(key, default)\<close>: the default when the key is absent, an exception (None) on another type.\<close>

definition json_value :: "(string \<times> json) list \<Rightarrow> string \<Rightarrow> string \<Rightarrow> string option" where
  "json_value obj key fallback =
     (case lookup obj key of
        None \<Rightarrow> Some fallback
      | Some (JString s) \<Rightarrow> Some s
      | Some _ \<Rightarrow> None)"

definition json_arguments :: "(json \<Rightarrow> string) \<Rightarrow> json \<Rightarrow> string" where
  "json_arguments dump args = (case args of JString s \<Rightarrow> s | _ \<Rightarrow> dump args)"

definition object_call ::
  "(json \<Rightarrow> string) \<Rightarrow> string \<Rightarrow> (string \<times> json) list \<Rightarrow> tool_call option option" where
  "object_call dump call_id fn =
     (case json_value fn ''name'' [] of
        None \<Rightarrow> None
      | Some name \<Rightarrow>
          (let args = (case lookup fn ''arguments'' of None \<Rightarrow> [] | Some a \<Rightarrow> json_arguments dump a)
           in Some (if name = [] then None
                    else Some \<lparr>cl_id = call_id, cl_type = ''function'', cl_function_name = name,
                               cl_function_arguments = (if args = [] then ''{}'' else args)\<rparr>)))"

text \<open>The outer option is an exception, the inner one the absence of a call.\<close>

definition parse_tool_call_object ::
  "(json \<Rightarrow> string) \<Rightarrow> json \<Rightarrow> nat \<Rightarrow> tool_call option option" where
  "parse_tool_call_object dump j index =
     (case j of
        JObject obj \<Rightarrow>
          (case json_value obj ''id'' (''call_'' @ string_of_nat index) of
             None \<Rightarrow> None
           | Some call_id \<Rightarrow>
               (case lookup obj ''function'' of
                  Some (JObject fn) \<Rightarrow> object_call dump call_id fn
                | _ \<Rightarrow> object_call dump call_id obj))
      | _ \<Rightarrow> Some None)"

fun parse_calls :: "(json \<Rightarrow> string) \<Rightarrow> json list \<Rightarrow> nat \<Rightarrow> tool_call list option" where
  "parse_calls dump [] index = Some []"
| "parse_calls dump (item # rest) index =
     (case (parse_tool_call_object dump item index, parse_calls dump rest (Suc index)) of
        (Some None, Some calls) \<Rightarrow> Some calls
      | (Some (Some call), Some calls) \<Rightarrow> Some (call # calls)
      | _ \<Rightarrow> None)"

definition candidate_calls :: "(json \<Rightarrow> string) \<Rightarrow> json \<Rightarrow> tool_call list option" where
  "candidate_calls dump j =
     (case j of
        JArray items \<Rightarrow> parse_calls dump items 0
      | JObject obj \<Rightarrow>
          (case lookup obj ''tool_calls'' of
             Some (JArray items) \<Rightarrow> parse_calls dump items 0
           | _ \<Rightarrow> parse_calls dump [j] 0)
      | _ \<Rightarrow> parse_calls dump [j] 0)"

text \<open>The first position of a substring from a position on, and the last one of a character.\<close>

definition find_from :: "string \<Rightarrow> string \<Rightarrow> nat \<Rightarrow> nat option" where
  "find_from s pat i =
     find (\<lambda>k. take (length pat) (drop k s) = pat) [i..<Suc (length s - length pat)]"

definition rfind_char :: "string \<Rightarrow> char \<Rightarrow> nat option" where
  "rfind_char s c = find (\<lambda>k. s ! k = c) (rev [0..<length s])"

definition fenced_candidate :: "string \<Rightarrow> string list" where
  "fenced_candidate s =
     (case find_from s ''```'' 0 of
        None \<Rightarrow> []
      | Some fence \<Rightarrow>
          (case find_from s [CHR 10] fence of
             None \<Rightarrow> []
           | Some newline \<Rightarrow>
               (case find_from s ''```'' (Suc newline) of
                  None \<Rightarrow> []
                | Some body_end \<Rightarrow>
                    if Suc newline < body_end
                    then [take (body_end - Suc newline) (drop (Suc newline) s)] else [])))"

definition braced_candidate :: "string \<Rightarrow> string list" where
  "braced_candidate s =
     (case (find_from s ''{'' 0, rfind_char s (CHR 0x7D)) of
        (Some i, Some j) \<Rightarrow> if i < j then [take (j - i + 1) (drop i s)] else []
      | _ \<Rightarrow> [])"

fun first_calls ::
  "(string \<Rightarrow> json option) \<Rightarrow> (json \<Rightarrow> string) \<Rightarrow> string list \<Rightarrow> tool_call list option" where
  "first_calls parse dump [] = None"
| "first_calls parse dump (s # rest) =
     (case Option.bind (parse s) (candidate_calls dump) of
        Some (c # cs) \<Rightarrow> Some (c # cs)
      | _ \<Rightarrow> first_calls parse dump rest)"

definition parse_fallback_tool_calls ::
  "(string \<Rightarrow> json option) \<Rightarrow> (json \<Rightarrow> string) \<Rightarrow> string \<Rightarrow> tool_call list option" where
  "parse_fallback_tool_calls parse dump s =
     first_calls parse dump (s # fenced_candidate s @ braced_candidate s)"

section \<open>Headers come once and first\<close>

text \<open>What a stream shows of one tool call: its header, then only arguments.\<close>

definition of_call :: "nat \<Rightarrow> msg_diff list \<Rightarrow> msg_diff list" where
  "of_call i = filter (\<lambda>d. md_index d = Some i)"

definition header_first :: "nat \<Rightarrow> msg_diff list \<Rightarrow> bool" where
  "header_first i out =
     (case of_call i out of
        [] \<Rightarrow> True
      | h # rest \<Rightarrow> list_all (\<lambda>d. md_name d = [] \<and> md_id d = [] \<and> md_arguments d \<noteq> []) rest)"

definition sent_inv :: "msg_diff list \<times> nat list \<Rightarrow> bool" where
  "sent_inv acc = (\<forall>i. header_first i (fst acc) \<and> (i \<in> set (snd acc) \<longleftrightarrow> of_call i (fst acc) \<noteq> []))"

lemma of_call_append [simp]: "of_call i (xs @ ys) = of_call i xs @ of_call i ys"
  by (simp add: of_call_def)

lemma of_call_Nil [simp]: "of_call i [] = []"
  by (simp add: of_call_def)

lemma of_call_single: "of_call i [d] = (if md_index d = Some i then [d] else [])"
  by (simp add: of_call_def)

lemma sent_announce:
  assumes "sent_inv (out, sent)" "i \<notin> set sent" "md_index d = Some i"
  shows "sent_inv (out @ [d], i # sent)"
  using assms
  by (auto simp: sent_inv_def header_first_def of_call_single split: list.splits)

lemma sent_arguments:
  assumes "sent_inv (out, sent)" "i \<in> set sent" "md_index d = Some i"
    and "md_name d = []" "md_id d = []" "md_arguments d \<noteq> []"
  shows "sent_inv (out @ [d], sent)"
proof -
  obtain h rest where "of_call i out = h # rest"
    using assms by (cases "of_call i out") (auto simp: sent_inv_def)
  then show ?thesis
    using assms by (auto simp: sent_inv_def header_first_def of_call_single split: list.splits)
qed

lemma sent_other:
  assumes "sent_inv (out, sent)" "md_index d = None"
  shows "sent_inv (out @ [d], sent)"
  using assms by (auto simp: sent_inv_def header_first_def of_call_single)

lemma send_headers_inv:
  assumes "sent_inv acc"
  shows "sent_inv (send_headers due i cs acc)"
  using assms
proof (induction due i cs acc rule: send_headers.induct)
  case (2 due i c cs acc)
  have "sent_inv (fst acc @ [call_header i c], i # snd acc)" if "i \<notin> set (snd acc)"
    by (rule sent_announce) (use that "2.prems" in \<open>simp_all add: call_header_def\<close>)
  with "2.prems" have "sent_inv (if i \<in> set (snd acc) \<or> pc_name c = [] \<or> \<not> due i then acc
      else (fst acc @ [call_header i c], i # snd acc))" by simp
  from "2.IH" [OF this] show ?case by simp
qed simp

lemma send_diff_inv:
  assumes "sent_inv acc"
  shows "sent_inv (send_diff is_partial calls d acc)"
proof -
  obtain out sent where h: "send_headers (\<lambda>i. md_index d \<noteq> Some i \<or> md_arguments d \<noteq> []) 0 calls acc
      = (out, sent)" by fastforce
  have inv: "sent_inv (out, sent)" using send_headers_inv [OF assms] h by metis
  show ?thesis
    unfolding send_diff_def h Let_def prod.case
    using inv by (auto split: option.splits intro: sent_other sent_arguments sent_announce)
qed

lemma filter_diffs_inv:
  assumes "sent_inv (out0, sent0)" "filter_diffs is_partial calls diffs sent0 = (out, sent)"
  shows "sent_inv (out0 @ out, sent)"
proof -
  define pre :: "msg_diff list \<times> nat list \<Rightarrow> msg_diff list \<times> nat list" where
    "pre = (\<lambda>(o', s'). (out0 @ o', s'))"
  have started: "pre ([], sent0) = (out0, sent0)" by (simp add: pre_def)
  have headers: "pre (send_headers due i cs acc) = send_headers due i cs (pre acc)" for due i cs acc
    by (induction due i cs acc rule: send_headers.induct) (auto simp: pre_def split: prod.splits)
  have step: "pre (send_diff is_partial calls d acc) = send_diff is_partial calls d (pre acc)" for d acc
    using headers [of "\<lambda>i. md_index d \<noteq> Some i \<or> md_arguments d \<noteq> []" 0 calls acc]
    by (auto simp: send_diff_def pre_def split: prod.splits option.splits)
  have folded: "pre (fold (send_diff is_partial calls) diffs acc) =
      fold (send_diff is_partial calls) diffs (pre acc)" for acc
    by (induction diffs arbitrary: acc) (simp_all add: step)
  have kept: "sent_inv acc \<Longrightarrow> sent_inv (fold (send_diff is_partial calls) diffs acc)" for acc
    by (induction diffs arbitrary: acc) (simp_all add: send_diff_inv)
  have "pre (filter_diffs is_partial calls diffs sent0) =
      (let acc = fold (send_diff is_partial calls) diffs (out0, sent0)
       in if is_partial then acc else send_headers (\<lambda>i. True) 0 calls acc)"
    by (simp only: filter_diffs_def Let_def if_distrib [of pre] headers folded started)
  moreover have "pre (filter_diffs is_partial calls diffs sent0) = (out0 @ out, sent)"
    by (simp add: assms(2) pre_def)
  ultimately have "(out0 @ out, sent) =
      (let acc = fold (send_diff is_partial calls) diffs (out0, sent0)
       in if is_partial then acc else send_headers (\<lambda>i. True) 0 calls acc)" by simp
  then show ?thesis
    using kept [OF assms(1)]
    by (cases is_partial) (simp_all add: Let_def send_headers_inv)
qed

lemma update_parser_inv:
  assumes "update_parser P text_added is_partial True ps = (r, ps')" "sent_inv (out0, ps_sent_names ps)"
  shows "sent_inv (out0 @ (case r of Inl what \<Rightarrow> [] | Inr diffs \<Rightarrow> diffs), ps_sent_names ps')"
  using assms
  by (auto simp: update_parser_def Let_def split: sum.splits if_splits prod.splits
      intro: filter_diffs_inv)

lemma run_updates_inv:
  assumes "sent_inv (out0, ps_sent_names ps)" "run_updates P us ps = (out, ps')"
  shows "sent_inv (out0 @ out, ps_sent_names ps')"
  using assms
proof (induction P us ps arbitrary: out0 out rule: run_updates.induct)
  case (2 P text_added is_partial rest ps)
  obtain r ps1 where u: "update_parser P text_added is_partial True ps = (r, ps1)" by fastforce
  obtain out1 where o1: "run_updates P rest ps1 = (out1, ps')"
    and out: "out = (case r of Inl what \<Rightarrow> [] | Inr diffs \<Rightarrow> diffs) @ out1"
    using "2.prems"(2) u by (auto split: prod.splits)
  from "2.IH" [OF refl u [symmetric] update_parser_inv [OF u "2.prems"(1)] o1] out show ?case by simp
qed simp

end
