(* ===== verification/Llama_Decoding.thy ===== *)
theory Llama_Decoding
  imports Llama_Prompt Chat_Parsing
begin

text \<open>
  Running a request on the scheduler (\<^verbatim>\<open>llama_cpp_decoding.ipp\<close>): the events of the scheduler are
  drained, every token becomes text, stop strings end the run, the parser of the stream turns text
  into deltas for the callback, and the slot remembers what its sequence in the cache now holds.

  The scheduler is a function from the task as it is submitted to the task when its last event has
  been pushed (what it does is \<open>Batch_Scheduler\<close>); the flags that the caller sets meanwhile are in
  \<open>token_run\<close>. The callback sees what was sent before, its value is whether generation goes on.
  Floating-point rates and log-probabilities are left out.
\<close>

section \<open>Pieces of text\<close>

text \<open>
  \<^verbatim>\<open>llama_token_to_piece\<close> returns the length of the piece, or the negated capacity it needs; the
  second component is what it wrote to the buffer.
\<close>

lemma required_bound: "nat (- sint (n :: 32 word)) \<le> 2147483648"
  using sint_greater_eq [of n] by simp

function piece_loop :: "(nat \<Rightarrow> 32 word \<times> string) \<Rightarrow> nat \<Rightarrow> string" where
  "piece_loop to_piece capacity =
     (let (n, buffer) = to_piece capacity in
      if 0 \<le> sint n then take (nat (sint n)) buffer
      else let required = nat (- sint n) in
        if required \<le> capacity then [] else piece_loop to_piece required)"
  by auto

termination
proof (relation "measure (\<lambda>(to_piece, capacity). 2147483648 - capacity)")
  fix to_piece :: "nat \<Rightarrow> 32 word \<times> string" and capacity x n buffer required
  assume "x = to_piece capacity" "(n, buffer) = x" "\<not> 0 \<le> sint n" "required = nat (- sint n)"
    "\<not> required \<le> capacity"
  then show "((to_piece, required), to_piece, capacity) \<in> measure (\<lambda>(to_piece, capacity). 2147483648 - capacity)"
    using required_bound [of n] by simp
qed simp

declare piece_loop.simps [simp del]

definition token_to_piece :: "(token \<Rightarrow> nat \<Rightarrow> 32 word \<times> string) \<Rightarrow> token \<Rightarrow> string" where
  "token_to_piece to_piece tok =
     (let (n, buffer) = to_piece tok 256 in
      if 0 \<le> sint n then take (nat (sint n)) buffer
      else piece_loop (to_piece tok) (nat (- sint n)))"

record decode_native =
  dn_to_piece :: "token \<Rightarrow> nat \<Rightarrow> 32 word \<times> string"
  dn_parser :: chat_parser
  dn_final_ids :: "parsed_msg \<Rightarrow> parsed_msg"
  dn_parse_json :: "string \<Rightarrow> json option"
  dn_dump :: "json \<Rightarrow> string"
  dn_tokenize_output :: "string \<Rightarrow> token list option"
  dn_scheduler :: "slot_task \<Rightarrow> slot_task"

abbreviation dn_piece :: "decode_native \<Rightarrow> token \<Rightarrow> string" where
  "dn_piece dn \<equiv> token_to_piece (dn_to_piece dn)"

section \<open>Draining the events\<close>

record token_run =
  tn_generated :: string
  tn_decoded_ids :: "token list"
  tn_logprobs :: "token_logprob list"
  tn_string_stopped :: bool
  tn_caller_stop :: bool
  tn_caller_cancel :: bool

definition new_run :: token_run where
  "new_run = \<lparr>tn_generated = [], tn_decoded_ids = [], tn_logprobs = [], tn_string_stopped = False,
     tn_caller_stop = False, tn_caller_cancel = False\<rparr>"

text \<open>None: the queue is empty and the caller waits for ever.\<close>

fun drain_task ::
  "(token_event \<Rightarrow> 'r token_run_scheme \<Rightarrow> bool \<times> 'r token_run_scheme) \<Rightarrow> token_event list \<Rightarrow>
     'r token_run_scheme \<Rightarrow> (unit result \<times> 'r token_run_scheme) option"
where
  "drain_task handler [] r = None"
| "drain_task handler (ev # rest) r =
     (if ev_is_error ev then Some (Err Internal (ev_error_msg ev), r)
      else if ev_is_done ev then Some (Ok (), r)
      else let (go, r1) = handler ev r
           in drain_task handler rest
                (if \<not> go \<and> \<not> tn_caller_stop r1 then r1\<lparr>tn_caller_cancel := True\<rparr> else r1))"

definition matching_stop :: "string list \<Rightarrow> string \<Rightarrow> string option" where
  "matching_stop stops generated = find (\<lambda>stop. stop \<noteq> [] \<and> ends_with generated stop) stops"

definition event_logprob :: "decode_native \<Rightarrow> token_event \<Rightarrow> token_logprob" where
  "event_logprob dn ev =
     (let bytes = map (\<lambda>c. word_of_nat (byte_of c)) in
      \<lparr>tl_token = dn_piece dn (ev_id ev), tl_bytes = bytes (dn_piece dn (ev_id ev)),
       tl_top_logprobs = map (\<lambda>(top_id, probability).
         \<lparr>tp_token = dn_piece dn top_id, tp_bytes = bytes (dn_piece dn top_id)\<rparr>)
           (ev_top_probabilities ev)\<rparr>)"

text \<open>What both callers do with the text of a token: None when it completes a stop string.\<close>

definition stop_run :: "string \<Rightarrow> string \<Rightarrow> 'r token_run_scheme \<Rightarrow> 'r token_run_scheme" where
  "stop_run generated stop r =
     r\<lparr>tn_generated := take (length generated - length stop) generated,
       tn_string_stopped := True, tn_caller_stop := True\<rparr>"

definition take_token ::
  "decode_native \<Rightarrow> bool \<Rightarrow> token_event \<Rightarrow> string \<Rightarrow> 'r token_run_scheme \<Rightarrow> 'r token_run_scheme" where
  "take_token dn logprobs ev generated r =
     r\<lparr>tn_generated := generated, tn_decoded_ids := tn_decoded_ids r @ [ev_id ev],
       tn_logprobs := tn_logprobs r @ (if logprobs then [event_logprob dn ev] else [])\<rparr>"

definition predict_token ::
  "decode_native \<Rightarrow> string list \<Rightarrow> bool \<Rightarrow> token_event \<Rightarrow> token_run \<Rightarrow> bool \<times> token_run" where
  "predict_token dn stops logprobs ev r =
     (if tn_string_stopped r then (False, r)
      else let generated = tn_generated r @ dn_piece dn (ev_id ev)
           in case matching_stop stops generated of
                Some stop \<Rightarrow> (False, stop_run generated stop r)
              | None \<Rightarrow> (True, take_token dn logprobs ev generated r))"

record stream_run = token_run +
  tn_callback_aborted :: bool
  tn_parser :: parser_state
  tn_tool_emitted :: bool
  tn_sent :: "delta list"

definition new_stream_run :: "decode_native \<Rightarrow> stream_run" where
  "new_stream_run dn = token_run.extend new_run
     \<lparr>tn_callback_aborted = False, tn_parser = StreamingChatParserState (dn_parser dn),
      tn_tool_emitted = False, tn_sent = []\<rparr>"

text \<open>
  The deltas go to the callback one by one; the first refusal ends it. \<open>tn_sent\<close> is every delta
  the callback was given.
\<close>

fun send_deltas ::
  "(delta list \<Rightarrow> delta \<Rightarrow> bool) \<Rightarrow> delta list \<Rightarrow> stream_run \<Rightarrow> bool \<times> stream_run" where
  "send_deltas callback [] r = (True, r)"
| "send_deltas callback (d # rest) r =
     (if empty_delta d then send_deltas callback rest r
      else let r1 = r\<lparr>tn_sent := tn_sent r @ [d]\<rparr>
           in if \<not> callback (tn_sent r) d then (False, r1)
              else send_deltas callback rest
                     (if d_tool_calls d \<noteq> [] then r1\<lparr>tn_tool_emitted := True\<rparr> else r1))"

definition with_logprob :: "token_logprob option \<Rightarrow> string \<Rightarrow> delta \<Rightarrow> delta" where
  "with_logprob lp piece d =
     (case lp of
        Some l \<Rightarrow> (if d_content d = piece then d\<lparr>d_logprobs := d_logprobs d @ [l]\<rparr> else d)
      | None \<Rightarrow> d)"

definition stream_token ::
  "decode_native \<Rightarrow> (delta list \<Rightarrow> delta \<Rightarrow> bool) \<Rightarrow> bool \<Rightarrow> string list \<Rightarrow> bool \<Rightarrow> token_event \<Rightarrow>
     stream_run \<Rightarrow> bool \<times> stream_run" where
  "stream_token dn callback parse_tool_calls stops logprobs ev r =
     (if tn_callback_aborted r \<or> tn_string_stopped r then (False, r)
      else let piece = dn_piece dn (ev_id ev) in
        if piece = [] then (True, r)
        else let generated = tn_generated r @ piece
             in case matching_stop stops generated of
                  Some stop \<Rightarrow> (False, stop_run generated stop r)
                | None \<Rightarrow>
                    (let r1 = take_token dn logprobs ev generated r;
                         (u, ps) = update_parser (dn_parser dn) piece True parse_tool_calls
                                     (tn_parser r1);
                         diffs = (case u of Inl what \<Rightarrow> [] | Inr ds \<Rightarrow> ds);
                         lp = (if logprobs then Some (event_logprob dn ev) else None);
                         (go, r2) = send_deltas callback
                                      (map (with_logprob lp piece \<circ> to_delta) diffs)
                                      (r1\<lparr>tn_parser := ps\<rparr>)
                     in (go, if go then r2 else r2\<lparr>tn_callback_aborted := True\<rparr>)))"

section \<open>Task, slot and result\<close>

definition submitted_task :: "generation_request \<Rightarrow> bool option \<Rightarrow> request_progress option \<Rightarrow>
     predict_setup \<Rightarrow> slot_task" where
  "submitted_task req cancel progress s =
     SlotTask\<lparr>tk_progress := progress, tk_ext_cancel := cancel, tk_slot_id := su_sequence_id s,
       tk_prompt_tokens := su_prompt_tokens s, tk_media_chunks := su_media_chunks s,
       tk_prompt_position_count := su_prompt_position_count s,
       tk_last_prompt_tokens := su_last_prompt_tokens s,
       tk_recurrent_checkpoint := su_recurrent_checkpoint s,
       tk_recurrent_draft_checkpoint := su_recurrent_draft_checkpoint s,
       tk_recurrent_replay_checkpoint := su_recurrent_replay_checkpoint s,
       tk_checkpoint_pos := su_checkpoint_pos s,
       tk_checkpoint_capture_pos := su_checkpoint_capture_pos s,
       tk_mtp_cache_synced := su_mtp_cache_synced s, tk_sampler := su_sampler s,
       tk_max_tokens := su_max_tokens s, tk_stop_tokens := su_stop_tokens s,
       tk_capture_probabilities := gr_logprobs req,
       tk_top_probabilities := gr_top_logprobs req\<rparr>"

definition forget_cache :: "slot_state \<Rightarrow> slot_state" where
  "forget_cache slot =
     slot\<lparr>sl_last_prompt_tokens := [], sl_recurrent_checkpoint := None,
          sl_recurrent_draft_checkpoint := None, sl_recurrent_replay_checkpoint := None,
          sl_checkpoint_pos := 0, sl_mtp_cache_synced := False\<rparr>"

definition save_slot ::
  "predict_setup \<Rightarrow> slot_task \<Rightarrow> 'r token_run_scheme \<Rightarrow> slot_state \<Rightarrow> slot_state" where
  "save_slot s k r slot =
     (if \<not> tk_initialized k then slot
      else let slot1 = slot\<lparr>sl_last_prompt_tokens := su_prompt_tokens s @ tn_decoded_ids r,
                            sl_recurrent_checkpoint := tk_out_recurrent_checkpoint k,
                            sl_recurrent_draft_checkpoint := tk_out_recurrent_draft_checkpoint k,
                            sl_recurrent_replay_checkpoint := tk_out_recurrent_replay_checkpoint k,
                            sl_checkpoint_pos := tk_out_checkpoint_pos k,
                            sl_mtp_cache_synced := tk_out_mtp_cache_synced k\<rparr>
           in if tn_caller_cancel r \<or> tk_ext_cancel k = Some True then forget_cache slot1 else slot1)"

definition save_run ::
  "nat \<Rightarrow> predict_setup \<Rightarrow> slot_task \<Rightarrow> 'r token_run_scheme \<Rightarrow> llama_model \<Rightarrow> llama_model" where
  "save_run slot_id s k r m =
     m\<lparr>lm_slots := (lm_slots m)[slot_id := save_slot s k r (lm_slots m ! slot_id)]\<rparr>"

record inference_result =
  ir_text :: string
  ir_reasoning_text :: string
  ir_finish_reason :: string
  ir_prompt_tokens :: int
  ir_cached_prompt_tokens :: int
  ir_completion_tokens :: int
  ir_reasoning_tokens :: int
  ir_prompt_duration :: duration
  ir_prompt_decode_duration :: duration
  ir_prompt_decode_tokens :: int
  ir_first_token_duration :: duration
  ir_generation_duration :: duration
  ir_mtp_drafted_tokens :: int
  ir_mtp_accepted_tokens :: int
  ir_tool_calls :: "tool_call list"
  ir_logprobs :: "token_logprob list"

text \<open>The result before the generated text is parsed.\<close>

definition run_result ::
  "bool \<Rightarrow> predict_setup \<Rightarrow> slot_task \<Rightarrow> 'r token_run_scheme \<Rightarrow> inference_result" where
  "run_result logprobs s k r =
     (let n = int (length (tn_decoded_ids r));
          timed = \<not> tk_out_prompt_decode_invalid k \<and> tk_generation_started k
      in \<lparr>ir_text = [], ir_reasoning_text = [],
          ir_finish_reason = (if su_max_tokens s \<le> n then ''length'' else ''stop''),
          ir_prompt_tokens = min (tk_prompt_pos k) (int (length (su_prompt_tokens s))),
          ir_cached_prompt_tokens = tk_out_cached_prompt_tokens k,
          ir_completion_tokens = n, ir_reasoning_tokens = 0,
          ir_prompt_duration = tk_out_prompt_duration k,
          ir_prompt_decode_duration = (if timed then tk_out_prompt_decode_duration k else 0),
          ir_prompt_decode_tokens = (if timed then tk_out_prompt_decode_tokens k else 0),
          ir_first_token_duration = tk_out_first_token_duration k,
          ir_generation_duration =
            (if tk_generation_started k then tk_out_generation_duration k else 0),
          ir_mtp_drafted_tokens = tk_n_drafted k, ir_mtp_accepted_tokens = tk_n_draft_accepted k,
          ir_tool_calls = [], ir_logprobs = (if logprobs then tn_logprobs r else [])\<rparr>)"

definition to_tool_call :: "parsed_call \<Rightarrow> tool_call" where
  "to_tool_call c = \<lparr>cl_id = pc_id c, cl_type = ''function'', cl_function_name = pc_name c,
     cl_function_arguments = pc_arguments c\<rparr>"

definition apply_parsed_message :: "parsed_msg \<Rightarrow> inference_result \<Rightarrow> inference_result" where
  "apply_parsed_message msg out =
     out\<lparr>ir_text := pm_content msg, ir_reasoning_text := pm_reasoning_content msg,
         ir_tool_calls := map to_tool_call (pm_tool_calls msg)\<rparr>"

definition apply_fallback_tool_calls ::
  "decode_native \<Rightarrow> string \<Rightarrow> inference_result \<Rightarrow> inference_result" where
  "apply_fallback_tool_calls dn generated out =
     (case parse_fallback_tool_calls (dn_parse_json dn) (dn_dump dn) generated of
        Some (c # cs) \<Rightarrow> out\<lparr>ir_text := [], ir_tool_calls := c # cs\<rparr>
      | _ \<Rightarrow> out)"

definition parse_final_message_with_ids :: "decode_native \<Rightarrow> string \<Rightarrow> string + parsed_msg" where
  "parse_final_message_with_ids dn generated =
     (case cp_parse (dn_parser dn) generated False of
        Inl what \<Rightarrow> Inl what
      | Inr msg \<Rightarrow> Inr (dn_final_ids dn msg))"

text \<open>The text that could not be parsed is the answer; tool calls may still be found in it.\<close>

definition unparsed_result ::
  "decode_native \<Rightarrow> bool \<Rightarrow> string \<Rightarrow> inference_result \<Rightarrow> inference_result" where
  "unparsed_result dn parse_tool_calls generated out =
     (let out1 = out\<lparr>ir_text := generated\<rparr>
      in if parse_tool_calls then apply_fallback_tool_calls dn generated out1 else out1)"

definition parsed_result ::
  "decode_native \<Rightarrow> bool \<Rightarrow> string \<Rightarrow> parsed_msg \<Rightarrow> inference_result \<Rightarrow> inference_result" where
  "parsed_result dn parse_tool_calls generated msg out =
     (let out1 = apply_parsed_message msg out
      in if parse_tool_calls \<and> ir_tool_calls out1 = []
         then apply_fallback_tool_calls dn generated out1 else out1)"

definition count_output_tokens :: "decode_native \<Rightarrow> string \<Rightarrow> int" where
  "count_output_tokens dn s =
     (if s = [] then 0
      else case dn_tokenize_output dn s of None \<Rightarrow> 0 | Some ts \<Rightarrow> int (length ts))"

definition count_reasoning :: "decode_native \<Rightarrow> inference_result \<Rightarrow> inference_result" where
  "count_reasoning dn out =
     out\<lparr>ir_reasoning_tokens := count_output_tokens dn (ir_reasoning_text out)\<rparr>"

definition finish_predict ::
  "decode_native \<Rightarrow> bool \<Rightarrow> predict_setup \<Rightarrow> slot_task \<Rightarrow> token_run \<Rightarrow> inference_result" where
  "finish_predict dn logprobs s k r =
     (let out = run_result logprobs s k r in
      count_reasoning dn
        (case parse_final_message_with_ids dn (tn_generated r) of
           Inl what \<Rightarrow> unparsed_result dn (su_parse_tool_calls s) (tn_generated r) out
         | Inr msg \<Rightarrow> parsed_result dn (su_parse_tool_calls s) (tn_generated r) msg out))"

section \<open>Predicting\<close>

definition check_slot :: "int \<Rightarrow> llama_model \<Rightarrow> unit result" where
  "check_slot slot_id m =
     (if \<not> slot_in_range slot_id m then Err InvalidArgument ''slot_id out of range''
      else if \<not> lm_loaded m then Err Internal ''model not loaded''
      else if \<not> sl_busy (lm_slots m ! nat slot_id) then Err InvalidArgument ''slot not acquired''
      else Ok ())"

text \<open>
  What every prediction begins with, up to the submission: the setup and the task. None stands for
  the dereferenced null pointer of a model without a scheduler.
\<close>

definition begin_predict ::
  "prompt_native \<Rightarrow> int \<Rightarrow> generation_request \<Rightarrow> llama_model \<Rightarrow>
     (predict_setup result \<times> llama_model) option" where
  "begin_predict pn slot_id req m =
     (case check_slot slot_id m of
        Inl e \<Rightarrow> Some (Inl e, m)
      | Inr _ \<Rightarrow>
          (case prepare_inference pn (nat slot_id) req m of
             (Inl e, m1) \<Rightarrow> Some (Inl e, m1)
           | (Inr s, m1) \<Rightarrow> if lm_scheduler m1 = None then None else Some (Ok s, m1)))"

definition predict_cancellable ::
  "decode_native \<Rightarrow> prompt_native \<Rightarrow> int \<Rightarrow> generation_request \<Rightarrow> request_progress option \<Rightarrow>
     bool option \<Rightarrow> llama_model \<Rightarrow> (inference_result result \<times> llama_model) option" where
  "predict_cancellable dn pn slot_id req progress cancel m =
     (if cancel = Some True then Some (Err Cancelled ''request cancelled'', m)
      else case begin_predict pn slot_id req m of
        None \<Rightarrow> None
      | Some (Inl e, m1) \<Rightarrow> Some (Inl e, m1)
      | Some (Inr s, m1) \<Rightarrow>
          (let k = dn_scheduler dn (submitted_task req cancel progress s)
           in case drain_task (predict_token dn (su_stop_strings s) (gr_logprobs req))
                     (tk_out_queue k) new_run of
                None \<Rightarrow> None
              | Some (Inl e, r) \<Rightarrow> Some (Inl e, m1)
              | Some (Inr _, r) \<Rightarrow>
                  Some (Ok (finish_predict dn (gr_logprobs req) s k r),
                        save_run (nat slot_id) s k r m1)))"

definition llama_predict ::
  "decode_native \<Rightarrow> prompt_native \<Rightarrow> int \<Rightarrow> generation_request \<Rightarrow> request_progress option \<Rightarrow>
     llama_model \<Rightarrow> (inference_result result \<times> llama_model) option" where
  "llama_predict dn pn slot_id req progress m = predict_cancellable dn pn slot_id req progress None m"

text \<open>The tool calls of last resort, as deltas.\<close>

definition fallback_deltas :: "tool_call list \<Rightarrow> delta list" where
  "fallback_deltas calls =
     map (\<lambda>(i, c). \<lparr>d_content = [], d_reasoning_text = [],
       d_tool_calls = [\<lparr>tc_index = i, tc_id = cl_id c, tc_type = ''function'',
         tc_function_name = cl_function_name c, tc_function_arguments = cl_function_arguments c\<rparr>],
       d_logprobs = []\<rparr>) (List.enumerate 0 calls)"

definition send_fallback ::
  "decode_native \<Rightarrow> (delta list \<Rightarrow> delta \<Rightarrow> bool) \<Rightarrow> bool \<Rightarrow> inference_result \<Rightarrow> stream_run \<Rightarrow>
     inference_result \<times> stream_run" where
  "send_fallback dn callback used out r =
     (count_reasoning dn out,
      if used \<and> ir_tool_calls out \<noteq> [] \<and> \<not> tn_tool_emitted r
      then snd (send_deltas callback (fallback_deltas (ir_tool_calls out)) r) else r)"

definition finish_stream ::
  "decode_native \<Rightarrow> (delta list \<Rightarrow> delta \<Rightarrow> bool) \<Rightarrow> bool \<Rightarrow> predict_setup \<Rightarrow> slot_task \<Rightarrow> stream_run \<Rightarrow>
     inference_result \<times> stream_run" where
  "finish_stream dn callback logprobs s k r =
     (let out = run_result logprobs s k r; tools = su_parse_tool_calls s;
          generated = tn_generated r
      in if tn_callback_aborted r then (out, r)
         else let (u, ps) = update_parser (dn_parser dn) [] False tools (tn_parser r);
                  r1 = r\<lparr>tn_parser := ps\<rparr>
              in case u of
                   Inl what \<Rightarrow>
                     send_fallback dn callback tools (unparsed_result dn tools generated out) r1
                 | Inr diffs \<Rightarrow>
                     (let (go, r2) = send_deltas callback (map to_delta diffs) r1
                      in if \<not> go then (out, r2)
                         else case parse_final_message_with_ids dn generated of
                           Inl what \<Rightarrow>
                             send_fallback dn callback tools
                               (unparsed_result dn tools generated out) r2
                         | Inr msg \<Rightarrow>
                             send_fallback dn callback (tools \<and> pm_tool_calls msg = [])
                               (parsed_result dn tools generated msg out) r2))"

definition llama_predict_stream ::
  "decode_native \<Rightarrow> prompt_native \<Rightarrow> (delta list \<Rightarrow> delta \<Rightarrow> bool) \<Rightarrow> int \<Rightarrow> generation_request \<Rightarrow>
     request_progress option \<Rightarrow> bool option \<Rightarrow> llama_model \<Rightarrow>
     (inference_result result \<times> delta list \<times> llama_model) option" where
  "llama_predict_stream dn pn callback slot_id req progress cancel m =
     (case begin_predict pn slot_id req m of
        None \<Rightarrow> None
      | Some (Inl e, m1) \<Rightarrow> Some (Inl e, [], m1)
      | Some (Inr s, m1) \<Rightarrow>
          (let k = dn_scheduler dn (submitted_task req cancel progress s)
           in case drain_task (stream_token dn callback (su_parse_tool_calls s)
                       (su_stop_strings s) (gr_logprobs req))
                     (tk_out_queue k) (new_stream_run dn) of
                None \<Rightarrow> None
              | Some (Inl e, r) \<Rightarrow> Some (Inl e, tn_sent r, m1)
              | Some (Inr _, r) \<Rightarrow>
                  (let (out, r1) = finish_stream dn callback (gr_logprobs req) s k r
                   in Some (Ok out, tn_sent r1, save_run (nat slot_id) s k r m1))))"

end
