(* ===== verification/Llama_Contract.thy ===== *)
theory Llama_Contract
  imports Llama_Model "HOL-Library.Multiset"
begin

text \<open>
  The invariant \<open>llama_inv\<close> of \<open>Llama_Model\<close>: native handles exist exactly while the model is loaded,
  the slots number the sequences of the context, the counters agree with the context and the slots.
  Every operation keeps it, and so does a scheduler thread that fails; the interpretation of
  \<open>backend_contract\<close> makes the theorems about the coordinator hold for llama.cpp models.
\<close>

section \<open>What an operation leaves alone\<close>

definition lm_frame :: "llama_model \<Rightarrow> _" where
  "lm_frame m = (lm_info m, lm_cfg m, lm_gguf_path m, lm_mmproj_path m, lm_loaded m, lm_model m,
     lm_vocab m, lm_mtmd m, lm_chat_templates m, lm_reclaimed_context_vram_mb m)"

definition lm_tables :: "llama_model \<Rightarrow> _" where
  "lm_tables m = (lm_slots m, lm_scheduler m, lm_speculative m, lm_sequence_capacity m,
     lm_sequence_capacity_limit m, lm_pool_capacity m)"

lemma tick_simps [simp]:
  "lm_frame (tick m) = lm_frame m" "lm_tables (tick m) = lm_tables m"
  "lm_shared_ctx (tick m) = lm_shared_ctx m" "lm_draft_ctx (tick m) = lm_draft_ctx m"
  by (simp_all add: tick_def lm_frame_def lm_tables_def)

lemma frame_eqD:
  assumes "lm_frame m' = lm_frame m"
  shows "lm_info m' = lm_info m" "lm_cfg m' = lm_cfg m" "lm_loaded m' = lm_loaded m"
    "lm_model m' = lm_model m" "lm_vocab m' = lm_vocab m" "lm_mtmd m' = lm_mtmd m"
    "lm_chat_templates m' = lm_chat_templates m" "lm_gguf_path m' = lm_gguf_path m"
    "lm_mmproj_path m' = lm_mmproj_path m"
    "lm_reclaimed_context_vram_mb m' = lm_reclaimed_context_vram_mb m"
  using assms by (simp_all add: lm_frame_def)

lemma tables_eqD:
  assumes "lm_tables m' = lm_tables m"
  shows "lm_slots m' = lm_slots m" "lm_scheduler m' = lm_scheduler m"
    "lm_speculative m' = lm_speculative m" "lm_sequence_capacity m' = lm_sequence_capacity m"
    "lm_pool_capacity m' = lm_pool_capacity m"
    "lm_sequence_capacity_limit m' = lm_sequence_capacity_limit m"
  using assms by (simp_all add: lm_tables_def)

section \<open>Allocating the context\<close>

lemma allocate_contexts_frame:
  assumes "allocate_contexts N cp m = (what, m')"
  shows "lm_frame m' = lm_frame m \<and> lm_tables m' = lm_tables m"
  using assms
  by (auto simp: allocate_contexts_def Let_def lm_frame_def lm_tables_def tick_def
      split: alloc.splits if_splits)

definition no_context :: "llama_model \<Rightarrow> bool" where
  "no_context m = (lm_shared_ctx m = None \<and> lm_draft_ctx m = None)"

definition has_context :: "llama_model \<Rightarrow> bool" where
  "has_context m = (lm_shared_ctx m \<noteq> None \<and> (cf_mtp_enabled (lm_cfg m) \<longrightarrow> lm_draft_ctx m \<noteq> None))"

lemma alloc_attempt_outcome:
  assumes "alloc_attempt N ctl minimum cp n wanted attempt m = (r, m')" "no_context m"
  shows "lm_frame m' = lm_frame m \<and> lm_tables m' = lm_tables m \<and>
     (case r of
        Inl (Inl e) \<Rightarrow> no_context m'
      | Inl (Inr (n', cp')) \<Rightarrow> n' = n \<and> has_context m'
      | Inr (cp', n', wanted') \<Rightarrow> (1 \<le> n \<longrightarrow> 1 \<le> n' \<and> n' \<le> n) \<and> no_context m')"
proof -
  obtain cancelled expired where ctl: "ctl (lm_tick m) 0 = (cancelled, expired)" by fastforce
  show ?thesis
  proof (cases "cancelled \<or> expired")
    case True
    with assms ctl show ?thesis by (auto simp: alloc_attempt_def Err_def Let_def no_context_def)
  next
    case no: False
    obtain what m1 where a: "allocate_contexts N cp (tick m) = (what, m1)" by fastforce
    note f = allocate_contexts_frame [OF a]
    define m2 where "m2 = m1\<lparr>lm_draft_ctx := None, lm_shared_ctx := None\<rparr>"
    have m2: "lm_frame m2 = lm_frame m" "lm_tables m2 = lm_tables m" "no_context m2"
      using f by (simp_all add: m2_def lm_frame_def lm_tables_def tick_def no_context_def)
    let ?error = "allocation_error (lm_shared_ctx m1 \<noteq> None \<and> cf_mtp_enabled (lm_cfg m1) \<and>
      lm_draft_ctx m1 = None) wanted what m2"
    let ?fewer = "mi_concurrency_auto (lm_info (tick m)) \<and> wanted \<le> minimum \<and> 1 < n \<and> attempt < 16"
    let ?stop = "\<not> mi_context_pool_auto (lm_info (tick m)) \<or> wanted \<le> minimum \<or> 16 \<le> attempt"
    let ?w = "if 7 \<le> attempt then minimum else minimum + (wanted - minimum) div 2"
    have run: "(r, m') = (if allocation_complete what m1 then (Inl (Ok (n, cp)), m1)
       else if ?fewer then (Inr (cp\<lparr>cp_n_seq_max := max 1 (n div 2)\<rparr>, max 1 (n div 2), wanted), m2)
       else if ?stop then (Inl (Err (fst ?error) (snd ?error)), m2)
       else (Inr (cp\<lparr>cp_n_ctx := ?w, cp_n_seq_max := n\<rparr>, n, ?w), m2))"
      unfolding assms(1) [symmetric] alloc_attempt_def ctl Let_def prod.case a m2_def
      using no by (simp only: if_False split_beta)
    consider "allocation_complete what m1" "r = Inl (Ok (n, cp))" "m' = m1"
      | e where "r = Inl (Inl e)" "m' = m2"
      | cp' where "r = Inr (cp', max 1 (n div 2), wanted)" "m' = m2"
      | cp' w where "r = Inr (cp', n, w)" "m' = m2"
    proof (cases "allocation_complete what m1")
      case True
      with run that(1) show ?thesis by simp
    next
      case incomplete: False
      show ?thesis
      proof (cases ?fewer)
        case True
        with run incomplete that(3) show ?thesis by simp
      next
        case False
        with run incomplete that(2,4) show ?thesis unfolding Err_def by (cases ?stop) (simp_all only: if_True if_False prod.inject)
      qed
    qed
    then show ?thesis
      by cases (use f m2 in \<open>auto simp: allocation_complete_def has_context_def\<close>)
  qed
qed

lemma alloc_loop_outcome:
  assumes "alloc_loop N ctl minimum cp n wanted attempt m = (r, m')" "no_context m" "1 \<le> n"
  shows "lm_frame m' = lm_frame m \<and> lm_tables m' = lm_tables m \<and>
     (case r of Inl e \<Rightarrow> no_context m' | Inr (n', cp') \<Rightarrow> 1 \<le> n' \<and> n' \<le> n \<and> has_context m')"
  using assms
proof (induction "17 - attempt" arbitrary: cp n wanted attempt m rule: less_induct)
  case less
  obtain a m1 where a: "alloc_attempt N ctl minimum cp n wanted attempt m = (a, m1)" by fastforce
  note o = alloc_attempt_outcome [OF a less.prems(2)]
  show ?case
  proof (cases a)
    case (Inl r0)
    with a less.prems(1) have "r = r0" "m' = m1" by (subst (asm) alloc_loop.simps, simp)+
    with o Inl less.prems(3) show ?thesis by (auto split: sum.splits)
  next
    case (Inr again)
    obtain cp1 n1 w1 where again: "again = (cp1, n1, w1)" by (cases again)
    with a Inr less.prems(1) have run: "alloc_loop N ctl minimum cp1 n1 w1 (Suc attempt) m1 = (r, m')"
      by (subst (asm) alloc_loop.simps) simp
    have "attempt < 16" using a Inr alloc_attempt_again by blast
    then have lt: "17 - Suc attempt < 17 - attempt" by simp
    have n1: "no_context m1" "1 \<le> n1" "n1 \<le> n" using o Inr again less.prems(3) by auto
    show ?thesis
      using less.hyps [OF lt run n1(1,2)] n1(3) o by (cases r) (auto split: prod.splits)
  qed
qed

lemma fit_pool_frame:
  assumes "fit_pool N ctl mp cp lo hi margin rc m = (r, m')"
  shows "m' = tick m"
  using assms by (auto simp: fit_pool_def Let_def split: option.splits)

text \<open>A context that serves requests, with its counters, slots and scheduler.\<close>

definition scheduler_fits :: "llama_model \<Rightarrow> bool" where
  "scheduler_fits m =
     (case lm_scheduler m of
        None \<Rightarrow> \<not> is_chat m
      | Some h \<Rightarrow> is_chat m \<and> sc_context_capacity (sh_config h) = lm_pool_capacity m)"

definition counters_fit :: "llama_model \<Rightarrow> bool" where
  "counters_fit m =
     (lm_sequence_capacity m = int (length (lm_slots m)) \<and>
      (case lm_shared_ctx m of None \<Rightarrow> False | Some n \<Rightarrow> lm_pool_capacity m = int_of_uint32 n))"

definition ready_context :: "llama_model \<Rightarrow> bool" where
  "ready_context m =
     (has_context m \<and> counters_fit m \<and> scheduler_fits m \<and> scheduler_ready m \<and>
      (cf_mtp_enabled (lm_cfg m) \<longrightarrow> lm_speculative m \<noteq> None) \<and>
      1 \<le> lm_sequence_capacity m \<and> lm_slots m = fresh_slots (int (length (lm_slots m))))"

definition bare :: "llama_model \<Rightarrow> bool" where
  "bare m = (no_context m \<and> lm_speculative m = None \<and> lm_scheduler m = None)"

lemma length_fresh_slots [simp]: "length (fresh_slots n) = nat n"
  by (simp add: fresh_slots_def)

lemma finish_context_outcome:
  assumes "finish_context N n cp m = (r, m')" "has_context m" "1 \<le> n" "lm_scheduler m = None"
  shows "lm_frame m' = lm_frame m \<and> lm_shared_ctx m' \<noteq> None \<and>
     (case r of
        Inl e \<Rightarrow> lm_slots m' = lm_slots m \<and> lm_scheduler m' = None
      | Inr _ \<Rightarrow> ready_context m' \<and> int (length (lm_slots m')) = n)"
proof -
  obtain n_ctx where ctx: "lm_shared_ctx m = Some n_ctx" using assms(2) by (auto simp: has_context_def)
  define m1 where "m1 = m\<lparr>lm_sequence_capacity := n,
     lm_sequence_capacity_limit := (if mi_concurrency_auto (lm_info m)
        then int_of_uint32 (min (nv_max_parallel_sequences N) (max 1 (cp_n_batch cp))) else n),
     lm_pool_capacity := int_of_uint32 n_ctx\<rparr>"
  obtain r1 m2 where i: "init_speculative N n m1 = (r1, m2)" by fastforce
  have m2: "lm_frame m2 = lm_frame m" "lm_shared_ctx m2 = Some n_ctx" "lm_draft_ctx m2 = lm_draft_ctx m"
    "lm_slots m2 = lm_slots m" "lm_scheduler m2 = None" "lm_sequence_capacity m2 = n"
    "lm_pool_capacity m2 = int_of_uint32 n_ctx"
    "is_ok r1 \<Longrightarrow> cf_mtp_enabled (lm_cfg m) \<longrightarrow> lm_speculative m2 \<noteq> None"
    using i ctx assms(4)
    by (auto simp: init_speculative_def m1_def lm_frame_def tick_def Err_def
        split: alloc.splits if_splits)
  have run: "(r, m') = (case r1 of Inl e \<Rightarrow> (Inl e, m2)
      | Inr rm \<Rightarrow> (Ok (), start_scheduler N rm (m2\<lparr>lm_slots := fresh_slots n\<rparr>)))"
    using assms(1) i ctx by (simp add: finish_context_def Let_def m1_def [symmetric] split: sum.splits)
  show ?thesis
  proof (cases r1)
    case (Inl e)
    with run m2 show ?thesis by simp
  next
    case (Inr rm)
    note m2' = m2(1-7) m2(8) [unfolded Inr, simplified]
    have cfg: "lm_cfg m2 = lm_cfg m" using m2(1) by (simp add: lm_frame_def)
    show ?thesis using run Inr m2' assms(2,3) cfg
      by (simp add: start_scheduler_def scheduler_config_def ready_context_def has_context_def
          counters_fit_def scheduler_fits_def scheduler_ready_def is_chat_def lm_frame_def)
  qed
qed

lemma requested_slots_pos: "1 \<le> requested_slots am m"
  by (simp add: requested_slots_def)

lemma init_shared_context_outcome:
  assumes "init_shared_context N ctl mp am margin m = (r, m')" "bare m"
  shows "lm_frame m' = lm_frame m \<and>
     (case r of
        Inl e \<Rightarrow> lm_slots m' = lm_slots m \<and> lm_scheduler m' = None \<and> (lm_shared_ctx m' = None \<longrightarrow> bare m')
      | Inr _ \<Rightarrow> ready_context m' \<and> int (length (lm_slots m')) \<le> requested_slots am m)"
proof (cases "\<exists>e. requested_context am m = Inl e \<or> INT_MAX < minimum_pool m")
  case True
  then have "\<exists>e. (r, m') = (Inl e, m)"
    using assms(1) by (cases "requested_context am m") (auto simp: init_shared_context_def Err_def Let_def)
  with assms(2) show ?thesis by (auto simp: bare_def)
next
  case False
  then obtain wanted where w: "requested_context am m = Inr wanted" "\<not> INT_MAX < minimum_pool m"
    by (cases "requested_context am m") auto
  define cp where "cp = shared_context_params wanted m"
  define mg where "mg = (case margin of None \<Rightarrow> cf_vram_safety_margin_mb (lm_cfg m) | Some v \<Rightarrow> v)"
  obtain fitted m1 where f: "(if mi_context_pool_auto (lm_info m)
      then fit_pool N ctl mp cp (minimum_pool m) (max (minimum_pool m) wanted) mg (None, None) m
      else (Ok wanted, m)) = (fitted, m1)" by fastforce
  have start: "(r, m') = (case fitted of Inl e \<Rightarrow> (Inl e, m1)
     | Inr pool \<Rightarrow>
         (let cp1 = (if mi_context_pool_auto (lm_info m)
                     then cp\<lparr>cp_n_ctx := pool, cp_n_seq_max := requested_slots am m\<rparr> else cp)
          in case alloc_loop N ctl (minimum_pool m) cp1 (requested_slots am m) pool 0 m1 of
               (Inl e, m2) \<Rightarrow> (Inl e, m2)
             | (Inr (n, cp2), m2) \<Rightarrow> finish_context N n cp2 m2))"
    unfolding assms(1) [symmetric] init_shared_context_def Let_def w(1) cp_def [symmetric]
      mg_def [symmetric] f sum.case prod.case
    using w(2) by (simp only: if_False prod.case)
  have "m1 = m \<or> m1 = tick m"
    using f by (cases "mi_context_pool_auto (lm_info m)") (simp_all add: fit_pool_frame)
  then have m1: "lm_frame m1 = lm_frame m" "lm_tables m1 = lm_tables m" "bare m1"
    using assms(2) by (auto simp: bare_def no_context_def tables_eqD [OF tick_simps(2)])
  show ?thesis
  proof (cases fitted)
    case (Inl e)
    with start have "r = Inl e" "m' = m1" by simp_all
    with m1 tables_eqD [OF m1(2)] show ?thesis by (simp add: bare_def)
  next
    case (Inr pool)
    define cp1 where "cp1 = (if mi_context_pool_auto (lm_info m)
       then cp\<lparr>cp_n_ctx := pool, cp_n_seq_max := requested_slots am m\<rparr> else cp)"
    obtain a m2 where a: "alloc_loop N ctl (minimum_pool m) cp1 (requested_slots am m) pool 0 m1 = (a, m2)"
      by fastforce
    have "no_context m1" using m1(3) by (simp add: bare_def)
    from alloc_loop_outcome [OF a this requested_slots_pos] m1
    have o: "lm_frame m2 = lm_frame m" "lm_tables m2 = lm_tables m"
      "case a of Inl e \<Rightarrow> no_context m2
        | Inr (n', cp') \<Rightarrow> 1 \<le> n' \<and> n' \<le> requested_slots am m \<and> has_context m2" by simp_all
    have bare2: "lm_speculative m2 = None" "lm_scheduler m2 = None"
      using tables_eqD [OF o(2)] assms(2) by (simp_all add: bare_def)
    have run: "(r, m') = (case a of Inl e \<Rightarrow> (Inl e, m2) | Inr (n, cp2) \<Rightarrow> finish_context N n cp2 m2)"
      using start Inr a by (simp add: Let_def cp1_def [symmetric] split: sum.splits prod.splits)
    show ?thesis
    proof (cases a)
      case (Inl e)
      with run o bare2 tables_eqD [OF o(2)] show ?thesis by (simp add: bare_def)
    next
      case (Inr x)
      then obtain n cp2 where x: "a = Inr (n, cp2)" by (cases x) auto
      with run have fin: "finish_context N n cp2 m2 = (r, m')" by simp
      from finish_context_outcome [OF fin _ _ bare2(2)] o x
      show ?thesis using tables_eqD [OF o(2)] by (cases r) auto
    qed
  qed
qed

section \<open>The invariant\<close>

definition numbered :: "slot_state list \<Rightarrow> bool" where
  "numbered ss = (mset (map sl_sequence_id ss) = mset [0..int (length ss) - 1])"

definition resources :: "llama_model \<Rightarrow> bool" where
  "resources m =
     (if lm_loaded m
      then lm_model m \<and> lm_vocab m \<and> (is_chat m \<longrightarrow> lm_chat_templates m) \<and>
           (mi_has_vision (lm_info m) \<longrightarrow> lm_mtmd m)
      else \<not> lm_model m \<and> \<not> lm_chat_templates m \<and> \<not> lm_mtmd m)"

definition llama_inv :: "llama_model \<Rightarrow> bool" where
  "llama_inv m =
     (resources m \<and> numbered (lm_slots m) \<and>
      (\<not> lm_loaded m \<longrightarrow> lm_shared_ctx m = None \<and> lm_slots m = []) \<and>
      (lm_shared_ctx m = None \<longrightarrow> bare m \<and> \<not> any_busy m) \<and>
      (if lm_slots m = [] then lm_scheduler m = None
       else lm_shared_ctx m \<noteq> None \<longrightarrow> counters_fit m \<and> scheduler_fits m))"

lemma fresh_slots_ids [simp]: "map sl_sequence_id (fresh_slots n) = [0..n - 1]"
  by (simp add: fresh_slots_def comp_def)

lemma fresh_slots_idle [simp]: "list_ex sl_busy (fresh_slots n) = False"
  by (simp add: fresh_slots_def list_ex_iff SlotState_def)

lemma fresh_numbered [simp]: "numbered (fresh_slots n)"
  by (cases "0 \<le> n") (simp_all add: numbered_def)

lemma ready_inv:
  assumes "ready_context m" "lm_loaded m" "resources m"
  shows "llama_inv m"
proof -
  have len: "int (length (lm_slots m)) = lm_sequence_capacity m" "1 \<le> lm_sequence_capacity m"
    and fresh: "lm_slots m = fresh_slots (int (length (lm_slots m)))"
    using assms(1) by (simp_all add: ready_context_def counters_fit_def)
  have "numbered (lm_slots m)" by (subst fresh) simp
  moreover have "lm_slots m \<noteq> []" using len by auto
  ultimately show ?thesis
    using assms by (auto simp: llama_inv_def ready_context_def has_context_def)
qed

lemma ready_idle: "ready_context m \<Longrightarrow> \<not> any_busy m"
  unfolding any_busy_def ready_context_def by (metis fresh_slots_idle)

lemma resources_frame: "lm_frame m' = lm_frame m \<Longrightarrow> resources m' = resources m"
  by (simp add: lm_frame_def resources_def is_chat_def)

lemma bare_simps [simp]:
  "bare (drop_context m)" "bare (clear_contexts m)"
  "lm_frame (drop_context m) = lm_frame m" "lm_frame (clear_contexts m) = lm_frame m"
  "lm_slots (drop_context m) = []"
  "lm_slots (clear_contexts m) = fresh_slots (int (length (lm_slots m)))"
  "lm_shared_ctx (clear_contexts m) = None"
  by (simp_all add: bare_def no_context_def drop_context_def clear_contexts_def close_contexts_def
      lm_frame_def)

lemma parts_frame [simp]:
  "scheduler_fits (tick m) = scheduler_fits m" "counters_fit (tick m) = counters_fit m"
  "scheduler_fits (m\<lparr>lm_reclaimed_context_vram_mb := n\<rparr>) = scheduler_fits m"
  "counters_fit (m\<lparr>lm_reclaimed_context_vram_mb := n\<rparr>) = counters_fit m"
  "scheduler_fits (m\<lparr>lm_loaded := b\<rparr>) = scheduler_fits m"
  "counters_fit (m\<lparr>lm_loaded := b\<rparr>) = counters_fit m"
  "scheduler_ready (m\<lparr>lm_loaded := b\<rparr>) = scheduler_ready m"
  "has_context (m\<lparr>lm_loaded := b\<rparr>) = has_context m"
  by (simp_all add: scheduler_fits_def counters_fit_def scheduler_ready_def has_context_def
      tick_def is_chat_def split: option.split)

lemma set_capacity_simps [simp]:
  "bare (m\<lparr>lm_sequence_capacity := n\<rparr>) = bare m"
  "lm_frame (m\<lparr>lm_sequence_capacity := n\<rparr>) = lm_frame m"
  "llama_inv (m\<lparr>lm_reclaimed_context_vram_mb := n\<rparr>) = llama_inv m"
  by (simp_all add: bare_def no_context_def lm_frame_def llama_inv_def resources_def is_chat_def
      any_busy_def)

lemma tick_inv [simp]: "llama_inv (tick m) = llama_inv m" "any_busy (tick m) = any_busy m"
  "lm_slots (tick m) = lm_slots m" "lm_info (tick m) = lm_info m" "lm_loaded (tick m) = lm_loaded m"
  "lm_cfg (tick m) = lm_cfg m" "lm_scheduler (tick m) = lm_scheduler m"
  by (simp_all add: llama_inv_def resources_def is_chat_def bare_def no_context_def any_busy_def)
    (simp_all add: tick_def)

lemma check_control_frame: "check_control ctl a b m = (r, m') \<Longrightarrow> m' = tick m"
  by (simp add: check_control_def split: prod.splits)

text \<open>A new context on a loaded model without one.\<close>

lemma init_on_loaded:
  assumes "init_shared_context N ctl mp am margin m = (r, m')" "bare m" "lm_loaded m" "resources m"
  shows "lm_frame m' = lm_frame m \<and> \<not> any_busy m' \<or> lm_frame m' = lm_frame m \<and> lm_slots m' = lm_slots m"
    "is_ok r \<Longrightarrow> llama_inv m' \<and> ready_context m' \<and> \<not> any_busy m'"
    "\<not> is_ok r \<Longrightarrow> lm_slots m = [] \<Longrightarrow> llama_inv m' \<and> lm_slots m' = []"
proof -
  note o = init_shared_context_outcome [OF assms(1,2)]
  have f: "resources m'" "lm_loaded m'"
    using o assms(3,4) resources_frame [of m' m] frame_eqD(3) [of m' m] by auto
  show "lm_frame m' = lm_frame m \<and> \<not> any_busy m' \<or> lm_frame m' = lm_frame m \<and> lm_slots m' = lm_slots m"
    using o ready_idle by (cases r) auto
  show "is_ok r \<Longrightarrow> llama_inv m' \<and> ready_context m' \<and> \<not> any_busy m'"
    using o f ready_inv ready_idle by (cases r) auto
  show "\<not> is_ok r \<Longrightarrow> lm_slots m = [] \<Longrightarrow> llama_inv m' \<and> lm_slots m' = []"
    using o f by (cases r) (auto simp: llama_inv_def numbered_def any_busy_def)
qed

section \<open>Every operation keeps it\<close>

lemma and_then_cases:
  assumes "and_then rm f = (r, m')"
  obtains e m where "rm = (Inl e, m)" "r = Inl e" "m' = m"
    | m where "rm = (Inr (), m)" "f m = (r, m')"
  using assms by (cases rm) (auto simp: and_then_def split: sum.splits)

definition unloaded :: "llama_model \<Rightarrow> bool" where
  "unloaded m = (\<not> lm_loaded m \<and> bare m \<and> lm_slots m = [])"

lemma inv_unloaded: "llama_inv m \<Longrightarrow> \<not> lm_loaded m \<Longrightarrow> unloaded m"
  by (simp add: llama_inv_def unloaded_def)

lemma unloaded_inv:
  "unloaded m \<Longrightarrow> \<not> lm_model m \<Longrightarrow> \<not> lm_chat_templates m \<Longrightarrow> \<not> lm_mtmd m \<Longrightarrow> llama_inv m"
  by (auto simp: unloaded_def llama_inv_def resources_def numbered_def any_busy_def bare_def
      no_context_def)

lemma load_contexts_outcome:
  assumes "load_contexts N ctl m = (r, m')" "unloaded m"
    and "lm_model m" "lm_vocab m" "is_chat m \<longrightarrow> lm_chat_templates m"
      "mi_has_vision (lm_info m) \<longrightarrow> lm_mtmd m"
  shows "lm_info m' = lm_info m \<and> llama_inv m' \<and> lm_loaded m' = is_ok r \<and>
     (is_ok r \<longrightarrow> ready_context m')"
proof -
  obtain r1 m1 where i: "init_shared_context N ctl (llama_model_params m) None None m = (r1, m1)"
    by fastforce
  from assms(2) have "bare m" by (simp add: unloaded_def)
  note o = init_shared_context_outcome [OF i this]
  have fr: "lm_frame m1 = lm_frame m" using o by simp
  show ?thesis
  proof (cases r1)
    case (Inl e)
    with assms(1) i have "r = Inl e" and m': "m' = (close_contexts m1)\<lparr>lm_mtmd := False,
        lm_slots := [], lm_chat_templates := False, lm_model := False, lm_vocab := False\<rparr>"
      by (simp_all add: load_contexts_def)
    moreover have "llama_inv m'" unfolding m'
      using o Inl frame_eqD(3) [OF fr] assms(2)
      by (intro unloaded_inv) (simp_all add: unloaded_def close_contexts_def bare_def no_context_def)
    ultimately show ?thesis
      using frame_eqD [OF fr] assms(2) by (simp add: close_contexts_def unloaded_def)
  next
    case (Inr u)
    with assms(1) i have r: "r = Ok ()" and m': "m' = m1\<lparr>lm_loaded := True\<rparr>"
      by (simp_all add: load_contexts_def)
    have ready: "ready_context m'" unfolding m'
      using o Inr by (simp add: ready_context_def)
    have "resources m'" unfolding m'
      using assms(3-6) frame_eqD [OF fr] by (simp add: resources_def is_chat_def)
    with ready have "llama_inv m'" by (intro ready_inv) (simp_all add: m')
    with ready r show ?thesis using frame_eqD [OF fr] by (simp add: m')
  qed
qed

lemma load_weights_outcome:
  assumes "load_weights N ctl m = (r, m')" "unloaded m" "\<not> lm_chat_templates m" "\<not> lm_mtmd m"
  shows "unloaded m' \<and> lm_info m' = lm_info m \<and> \<not> lm_chat_templates m' \<and> \<not> lm_mtmd m' \<and>
     lm_model m' = is_ok r \<and> (is_ok r \<longrightarrow> lm_vocab m')"
  using assms
  by (auto simp: load_weights_def check_control_def unloaded_def bare_def no_context_def tick_def
      Err_def split: if_splits prod.splits sum.splits)

lemma load_templates_outcome:
  assumes "load_templates N m = (r, m')" "unloaded m" "\<not> lm_chat_templates m" "\<not> lm_mtmd m"
    "lm_model m" "lm_vocab m"
  shows "unloaded m' \<and> lm_info m' = lm_info m \<and> \<not> lm_mtmd m' \<and> lm_model m' = is_ok r \<and>
     lm_vocab m' \<and> (if is_ok r then is_chat m \<longrightarrow> lm_chat_templates m' else \<not> lm_chat_templates m')"
  using assms
  by (auto simp: load_templates_def unloaded_def bare_def no_context_def tick_def Err_def
      split: if_splits)

lemma load_projector_outcome:
  assumes "load_projector N m = (r, m')" "unloaded m" "\<not> lm_mtmd m" "lm_model m" "lm_vocab m"
  shows "unloaded m' \<and> lm_info m' = lm_info m \<and>
     (if is_ok r then lm_model m' \<and> lm_vocab m' \<and> lm_chat_templates m' = lm_chat_templates m \<and>
        (mi_has_vision (lm_info m) \<longrightarrow> lm_mtmd m')
      else \<not> lm_model m' \<and> \<not> lm_chat_templates m' \<and> \<not> lm_mtmd m')"
  using assms
  by (auto simp: load_projector_def unloaded_def bare_def no_context_def tick_def Err_def
      split: if_splits)

definition load_native ::
  "'d llama_native \<Rightarrow> control_reads \<Rightarrow> llama_model \<Rightarrow> unit result \<times> llama_model" where
  "load_native N ctl m =
     and_then (load_weights N ctl m)
       (\<lambda>m1. and_then (load_templates N m1) (\<lambda>m2. and_then (load_projector N m2) (load_contexts N ctl)))"

definition load_good :: "model_info \<Rightarrow> unit result \<Rightarrow> llama_model \<Rightarrow> bool" where
  "load_good info r m =
     (lm_info m = info \<and> llama_inv m \<and> lm_loaded m = is_ok r \<and> (is_ok r \<longrightarrow> ready_context m))"

lemma load_failed:
  "unloaded m \<Longrightarrow> \<not> lm_model m \<Longrightarrow> \<not> lm_chat_templates m \<Longrightarrow> \<not> lm_mtmd m \<Longrightarrow>
     load_good (lm_info m) (Inl e) m"
  using unloaded_inv [of m] by (simp add: load_good_def unloaded_def)

lemma load_native_outcome:
  assumes "load_native N ctl m = (r, m')" "unloaded m" "\<not> lm_chat_templates m" "\<not> lm_mtmd m"
  shows "load_good (lm_info m) r m'"
  using assms(1) unfolding load_native_def
proof (cases rule: and_then_cases)
  case (1 e m1)
  with load_weights_outcome [OF 1(1) assms(2-4)] load_failed [of m1 e] show ?thesis by simp
next
  case (2 m1)
  note w = load_weights_outcome [OF 2(1) assms(2-4)]
  from 2(2) show ?thesis
  proof (cases rule: and_then_cases)
    case (1 e m2)
    with load_templates_outcome [OF 1(1)] w load_failed [of m2 e] show ?thesis by simp
  next
    case (2 m2)
    with load_templates_outcome [OF 2(1)] w have t: "unloaded m2" "lm_info m2 = lm_info m"
      "\<not> lm_mtmd m2" "lm_model m2" "lm_vocab m2" "is_chat m \<longrightarrow> lm_chat_templates m2"
      by (simp_all add: is_chat_def)
    from 2(2) show ?thesis
    proof (cases rule: and_then_cases)
      case (1 e m3)
      with load_projector_outcome [OF 1(1) t(1,3-5)] t(2) load_failed [of m3 e] show ?thesis by simp
    next
      case (2 m3)
      note p = load_projector_outcome [OF 2(1) t(1,3-5)]
      from load_contexts_outcome [OF 2(2)] p t(2,6) show ?thesis
        by (simp add: is_chat_def load_good_def)
    qed
  qed
qed

text \<open>A model is loaded exactly when \<^verbatim>\<open>load\<close> reports success; a failure leaves no native handle.\<close>

lemma llama_load_good:
  assumes "llama_load N ctl m = (r, m')" "llama_inv m" "\<not> lm_loaded m"
  shows "load_good (lm_info m) r m'"
proof -
  define m0 where "m0 = tick (m\<lparr>lm_reclaimed_context_vram_mb := 0\<rparr>)"
  have m0: "unloaded m0" "lm_info m0 = lm_info m" "\<not> lm_model m0" "\<not> lm_chat_templates m0" "\<not> lm_mtmd m0"
    using inv_unloaded [OF assms(2,3)] assms(2,3)
    by (simp_all add: m0_def unloaded_def bare_def no_context_def llama_inv_def resources_def)
      (simp_all add: tick_def)
  note stop = load_failed [OF m0(1,3-5), unfolded m0(2)]
  obtain c where c: "check_control ctl ''model load cancelled'' ''model load deadline expired''
      (m\<lparr>lm_reclaimed_context_vram_mb := 0\<rparr>) = (c, m0)"
    by (metis check_control_frame m0_def prod.collapse)
  have "and_then (c, m0) (\<lambda>m1. and_then (check_files N m1, m1) (load_native N ctl)) = (r, m')"
    using assms(1,3) c by (simp add: llama_load_def load_native_def [abs_def])
  then show ?thesis
  proof (cases rule: and_then_cases)
    case (2 x)
    then have "and_then (check_files N m0, m0) (load_native N ctl) = (r, m')" by simp
    then show ?thesis
    proof (cases rule: and_then_cases)
      case (2 x)
      then have "load_native N ctl m0 = (r, m')" by simp
      from load_native_outcome [OF this m0(1,4,5)] m0(2) show ?thesis by simp
    qed (use stop in simp)
  qed (use stop in simp)
qed

lemma llama_load_outcome:
  assumes "llama_load N ctl m = (r, m')" "llama_inv m"
  shows "lm_info m' = lm_info m" "llama_inv m'" "lm_loaded m' = is_ok r"
    "\<not> lm_loaded m \<Longrightarrow> is_ok r \<Longrightarrow> ready_context m'"
proof -
  have "lm_info m' = lm_info m \<and> llama_inv m' \<and> lm_loaded m' = is_ok r \<and>
    (\<not> lm_loaded m \<longrightarrow> is_ok r \<longrightarrow> ready_context m')"
  proof (cases "lm_loaded m")
    case True
    with assms show ?thesis by (auto simp: llama_load_def)
  next
    case False
    from llama_load_good [OF assms False] show ?thesis by (simp add: load_good_def)
  qed
  then show "lm_info m' = lm_info m" "llama_inv m'" "lm_loaded m' = is_ok r"
    "\<not> lm_loaded m \<Longrightarrow> is_ok r \<Longrightarrow> ready_context m'" by auto
qed

lemma llama_unload_outcome:
  assumes "llama_unload m = (r, m')" "llama_inv m"
  shows "r = Ok ()" "lm_info m' = lm_info m" "unloaded m'" "llama_inv m'"
    "lm_loaded m \<Longrightarrow> lm_sequence_capacity m' = 0"
proof -
  show "r = Ok ()" "lm_info m' = lm_info m" and u: "unloaded m'"
    and "lm_loaded m \<Longrightarrow> lm_sequence_capacity m' = 0"
    using assms by (auto simp: llama_unload_def Let_def unloaded_def bare_def no_context_def
        close_contexts_def llama_inv_def split: if_splits)
  have "\<not> lm_model m'" "\<not> lm_chat_templates m'" "\<not> lm_mtmd m'"
    using assms by (auto simp: llama_unload_def Let_def close_contexts_def llama_inv_def
        resources_def split: if_splits)
  with u show "llama_inv m'" by (rule unloaded_inv)
qed

lemma inv_resources: "llama_inv m \<Longrightarrow> resources m"
  by (simp add: llama_inv_def)

lemma not_busy: "\<not> any_busy m \<Longrightarrow> \<not> llama_slot_busy s m"
  by (auto simp: any_busy_def llama_slot_busy_def slot_in_range_def list_ex_iff)

lemma regain_context_outcome:
  assumes "regain_context N k capacity outcome failed m = (r, m')" "lm_loaded m" "resources m"
    and "\<not> is_ok outcome"
  shows "lm_frame m' = lm_frame m \<and> llama_inv m' \<and> \<not> any_busy m' \<and> \<not> is_ok r"
proof -
  define m1 where "m1 = (drop_context m)\<lparr>lm_sequence_capacity := k\<rparr>"
  obtain r1 m2 where i: "init_shared_context N (growth_recovery_control N) (llama_model_params m1)
      (Some capacity) (Some (cf_vram_safety_margin_mb (lm_cfg m1))) m1 = (r1, m2)" by fastforce
  have m1: "bare m1" "lm_frame m1 = lm_frame m" "lm_slots m1 = []"
    by (simp_all add: m1_def)
  have "lm_loaded m1" "resources m1"
    using assms(2,3) frame_eqD(3) [OF m1(2)] resources_frame [OF m1(2)] by simp_all
  note o = init_on_loaded [OF i m1(1) this]
  have "\<not> is_ok r" "m' = m2"
    using assms(1,4) i by (auto simp: regain_context_def Let_def m1_def [symmetric] Err_def split: sum.splits)
  moreover have "lm_frame m2 = lm_frame m" using o(1) m1(2) by auto
  moreover have "llama_inv m2 \<and> \<not> any_busy m2"
    using o(2,3) m1(3) by (cases r1) (auto simp: any_busy_def)
  ultimately show ?thesis by simp
qed

lemma grow_context_outcome:
  assumes "grow_context N ctl d current m = (r, m')" "llama_inv m" "lm_loaded m"
  shows "lm_info m' = lm_info m" "lm_cfg m' = lm_cfg m" "lm_loaded m'" "llama_inv m'" "\<not> any_busy m'"
    "is_ok r \<Longrightarrow> ready_context m' \<and> requested_capacity d m \<le> lm_pool_capacity m' \<and>
       requested_sequences d \<le> int (length (lm_slots m'))"
proof -
  let ?k = "int (length (lm_slots m))"
  define m1 where "m1 = (drop_context m)\<lparr>lm_sequence_capacity := max ?k (requested_sequences d)\<rparr>"
  obtain r1 m2 where i: "init_shared_context N ctl (llama_model_params m) (Some (growth_target d current m))
      (Some (cf_vram_safety_margin_mb (lm_cfg m))) m1 = (r1, m2)" by fastforce
  have m1: "bare m1" "lm_frame m1 = lm_frame m" "lm_slots m1 = []"
    by (simp_all add: m1_def)
  have "lm_loaded m1" "resources m1"
    using assms(3) inv_resources [OF assms(2)] frame_eqD(3) [OF m1(2)] resources_frame [OF m1(2)]
    by simp_all
  note o = init_on_loaded [OF i m1(1) this]
  have f2: "lm_frame m2 = lm_frame m" using o(1) m1(2) by auto
  have l2: "lm_loaded m2" "resources m2"
    using assms(3) inv_resources [OF assms(2)] frame_eqD(3) [OF f2] resources_frame [OF f2] by simp_all
  have run: "grow_context N ctl d current m = (case r1 of
       Inl e \<Rightarrow> regain_context N ?k current (Inl e) ''context growth failed and recovery failed'' m2
     | Inr _ \<Rightarrow> if lm_pool_capacity m2 < requested_capacity d m \<or> lm_sequence_capacity m2 < requested_sequences d
         then regain_context N ?k current (Err OutOfMemory
             (''context growth allocated below the requested demand ('' @
                string_of_int (lm_pool_capacity m2) @ '' < '' @ string_of_int (requested_capacity d m) @ '')''))
                ''context growth below demand and recovery failed'' m2
         else (Ok (), m2\<lparr>lm_reclaimed_context_vram_mb := 0\<rparr>))"
    using i by (simp add: grow_context_def Let_def m1_def [symmetric] split: sum.splits)
  consider (regain) e failed where "regain_context N ?k current (Inl e) failed m2 = (r, m')"
    | (grown) "is_ok r1" "r = Ok ()" "m' = m2\<lparr>lm_reclaimed_context_vram_mb := 0\<rparr>"
        "requested_capacity d m \<le> lm_pool_capacity m2" "requested_sequences d \<le> lm_sequence_capacity m2"
    using run assms(1) by (cases r1) (auto simp: Err_def split: if_splits)
  then have "lm_info m' = lm_info m \<and> lm_cfg m' = lm_cfg m \<and> lm_loaded m' \<and> llama_inv m' \<and>
    \<not> any_busy m' \<and> (is_ok r \<longrightarrow> ready_context m' \<and> requested_capacity d m \<le> lm_pool_capacity m' \<and>
       requested_sequences d \<le> int (length (lm_slots m')))"
  proof cases
    case regain
    have "\<not> is_ok (Inl e :: unit result)" by simp
    from regain_context_outcome [OF regain l2 this] assms(3) show ?thesis
      using frame_eqD [of m' m] f2 by simp
  next
    case grown
    have "ready_context m'" using o(2) grown(1,3) by (simp add: ready_context_def has_context_def
        scheduler_ready_def is_chat_def)
    then show ?thesis using o(2) grown l2 frame_eqD [OF f2]
      by (auto simp: ready_context_def counters_fit_def any_busy_def)
  qed
  then show "lm_info m' = lm_info m" "lm_cfg m' = lm_cfg m" "lm_loaded m'" "llama_inv m'" "\<not> any_busy m'"
    "is_ok r \<Longrightarrow> ready_context m' \<and> requested_capacity d m \<le> lm_pool_capacity m' \<and>
       requested_sequences d \<le> int (length (lm_slots m'))" by auto
qed

text \<open>
  A demand that is met: the pool holds what the request and the others ask for, with the margin of
  the draft, and there is a slot for each sequence.
\<close>

definition demand_met :: "request_demand \<Rightarrow> llama_model \<Rightarrow> bool" where
  "demand_met d m =
     (case lm_shared_ctx m of
        None \<Rightarrow> False
      | Some n_ctx \<Rightarrow> requested_capacity d m \<le> int_of_uint32 n_ctx \<and>
          requested_sequences d \<le> int (length (lm_slots m)))"

text \<open>Only time has passed.\<close>

definition untouched :: "llama_model \<Rightarrow> llama_model \<Rightarrow> bool" where
  "untouched m m' = (\<exists>k. m' = (tick ^^ k) m)"

lemma untouched_refl [simp, intro]: "untouched m m"
  unfolding untouched_def by (rule exI [of _ 0]) simp

lemma untouched_tick [simp, intro]: "untouched m m' \<Longrightarrow> untouched m (tick m')"
  unfolding untouched_def by (metis funpow.simps(2) comp_apply)

lemma untouched_same:
  assumes "untouched m m'"
  shows "lm_info m' = lm_info m" "lm_loaded m' = lm_loaded m" "llama_inv m' = llama_inv m"
    "any_busy m' = any_busy m" "lm_slots m' = lm_slots m" "lm_cfg m' = lm_cfg m"
    "lm_shared_ctx m' = lm_shared_ctx m"
proof -
  have "lm_info ((tick ^^ k) m) = lm_info m \<and> lm_loaded ((tick ^^ k) m) = lm_loaded m \<and>
    llama_inv ((tick ^^ k) m) = llama_inv m \<and> any_busy ((tick ^^ k) m) = any_busy m \<and>
    lm_slots ((tick ^^ k) m) = lm_slots m \<and> lm_cfg ((tick ^^ k) m) = lm_cfg m \<and>
    lm_shared_ctx ((tick ^^ k) m) = lm_shared_ctx m" for k
    by (induction k) simp_all
  with assms show "lm_info m' = lm_info m" "lm_loaded m' = lm_loaded m" "llama_inv m' = llama_inv m"
    "any_busy m' = any_busy m" "lm_slots m' = lm_slots m" "lm_cfg m' = lm_cfg m"
    "lm_shared_ctx m' = lm_shared_ctx m" by (auto simp: untouched_def)
qed

lemma requested_capacity_cong: "lm_cfg m' = lm_cfg m \<Longrightarrow> requested_capacity d m' = requested_capacity d m"
  by (simp add: requested_capacity_def draft_margin_def)

lemma ensure_outcome_cases:
  assumes "llama_ensure_request_capacity N ctl d m = (r, m')"
  obtains (same) "untouched m m'" "is_ok r \<Longrightarrow> lm_loaded m \<and> demand_met d m'"
    | (grown) current where "lm_loaded m" "\<not> any_busy m"
        "grow_context N ctl d current (tick (tick m)) = (r, m')"
proof (cases "Backend.prompt_positions d < 0 \<or> output_tokens d < 0 \<or> required_context d \<le> 0 \<or>
    required_sequences d \<le> 0")
  case True
  with assms that(1) show ?thesis
    by (auto simp: llama_ensure_request_capacity_def Err_def)
next
  case valid: False
  obtain c where c: "check_control ctl ''request capacity preparation cancelled''
      ''request capacity preparation deadline expired'' m = (c, tick m)"
    by (metis check_control_frame prod.collapse)
  show ?thesis
  proof (cases "c = Inr () \<and> lm_loaded m \<and> lm_shared_ctx m \<noteq> None")
    case False
    with assms valid c have "m' = tick m" "\<not> is_ok r"
      by (auto simp: llama_ensure_request_capacity_def and_then_def Err_def
          split: sum.splits bool.splits option.splits)
    with that(1) show ?thesis by auto
  next
    case True
    then obtain n_ctx where ctx: "lm_shared_ctx m = Some n_ctx" by blast
    let ?n = "int_of_uint32 n_ctx" and ?m = "tick m"
    have run: "(r, m') = (if INT_MAX < requested_capacity d ?m
          then (Err OutOfMemory ''request context demand exceeds supported range'', ?m)
        else if INT_MAX < own_capacity d ?m
          then (Err Unavailable ''request exceeds the supported context capacity'', ?m)
        else if requested_capacity d ?m \<le> ?n \<and> requested_sequences d \<le> int (length (lm_slots ?m))
          then (Ok (), ?m)
        else and_then (may_grow d ?n ?m, ?m)
          (\<lambda>m1. and_then (check_control ctl ''request capacity preparation cancelled''
                            ''request capacity preparation cancelled'' m1) (grow_context N ctl d ?n)))"
      using assms valid c True ctx
      by (simp add: llama_ensure_request_capacity_def and_then_def Let_def)
    show ?thesis
    proof (cases "INT_MAX < requested_capacity d ?m \<or> INT_MAX < own_capacity d ?m \<or>
        (requested_capacity d ?m \<le> ?n \<and> requested_sequences d \<le> int (length (lm_slots ?m)))")
      case stop: True
      show ?thesis
        by (rule that(1)) (use run stop True ctx in \<open>auto simp: demand_met_def Err_def
            split: if_splits\<close>)
    next
      case go: False
      then have "and_then (may_grow d ?n ?m, ?m)
          (\<lambda>m1. and_then (check_control ctl ''request capacity preparation cancelled''
                            ''request capacity preparation cancelled'' m1) (grow_context N ctl d ?n)) = (r, m')"
        using run by (simp only: de_Morgan_disj if_False simp_thms)
      then show ?thesis
      proof (cases rule: and_then_cases)
        case (1 e x)
        with that(1) show ?thesis by auto
      next
        case (2 x)
        then have idle: "\<not> any_busy m"
          by (auto simp: may_grow_def Let_def Err_def split: if_splits)
        obtain c2 where c2: "check_control ctl ''request capacity preparation cancelled''
            ''request capacity preparation cancelled'' ?m = (c2, tick ?m)"
          by (metis check_control_frame prod.collapse)
        from 2 c2 have "and_then (c2, tick ?m) (grow_context N ctl d ?n) = (r, m')" by simp
        then show ?thesis
        proof (cases rule: and_then_cases)
          case (1 e x)
          with that(1) show ?thesis by auto
        next
          case (2 x)
          with that(2) True idle show ?thesis by simp
        qed
      qed
    qed
  qed
qed

lemma llama_ensure_outcome:
  assumes "llama_ensure_request_capacity N ctl d m = (r, m')" "llama_inv m"
  shows "lm_info m' = lm_info m" "llama_inv m'" "lm_loaded m' = lm_loaded m"
    "llama_slot_busy s m' = llama_slot_busy s m" "is_ok r \<Longrightarrow> demand_met d m'"
proof -
  have "lm_info m' = lm_info m \<and> llama_inv m' \<and> lm_loaded m' = lm_loaded m \<and>
    llama_slot_busy s m' = llama_slot_busy s m \<and> (is_ok r \<longrightarrow> demand_met d m')"
    using assms(1)
  proof (cases rule: ensure_outcome_cases)
    case same
    with assms(2) untouched_same [OF same(1)] show ?thesis
      by (simp add: llama_slot_busy_def slot_in_range_def)
  next
    case (grown current)
    have "llama_inv (tick (tick m))" "lm_loaded (tick (tick m))" using assms(2) grown(1) by simp_all
    note g = grow_context_outcome [OF grown(3) this]
    have "demand_met d m'" if "is_ok r"
    proof -
      from g(6) [OF that] have "counters_fit m'" "requested_capacity d (tick (tick m)) \<le> lm_pool_capacity m'"
        "requested_sequences d \<le> int (length (lm_slots m'))" by (simp_all add: ready_context_def)
      then show ?thesis using requested_capacity_cong [OF g(2)]
        by (simp add: demand_met_def counters_fit_def split: option.splits)
    qed
    with g grown(1) not_busy [OF grown(2)] not_busy [OF g(5)] show ?thesis by simp
  qed
  then show "lm_info m' = lm_info m" "llama_inv m'" "lm_loaded m' = lm_loaded m"
    "llama_slot_busy s m' = llama_slot_busy s m" "is_ok r \<Longrightarrow> demand_met d m'" by auto
qed

lemma clear_inv:
  assumes "lm_loaded m" "resources m"
  shows "llama_inv (clear_contexts m)" "\<not> any_busy (clear_contexts m)"
proof -
  have f: "lm_loaded (clear_contexts m)" "resources (clear_contexts m)"
    using assms frame_eqD(3) [of "clear_contexts m" m] resources_frame [of "clear_contexts m" m]
    by simp_all
  show idle: "\<not> any_busy (clear_contexts m)" by (simp add: any_busy_def)
  have "lm_scheduler (clear_contexts m) = None"
    by (simp add: clear_contexts_def close_contexts_def)
  with f idle show "llama_inv (clear_contexts m)" by (simp add: llama_inv_def)
qed

lemma recover_context_outcome:
  assumes "recover_context N k capacity m = (r, m')" "lm_loaded m" "resources m"
  shows "lm_frame m' = lm_frame m \<and> llama_inv m' \<and> \<not> any_busy m'"
proof -
  define m1 where "m1 = (clear_contexts m)\<lparr>lm_sequence_capacity := k\<rparr>"
  obtain r1 m2 where i: "init_shared_context N (growth_recovery_control N) (llama_model_params m1)
      (Some capacity) (Some (cf_vram_safety_margin_mb (lm_cfg m1))) m1 = (r1, m2)" by fastforce
  have m1: "bare m1" "lm_frame m1 = lm_frame m" by (simp_all add: m1_def)
  have "lm_loaded m1" "resources m1"
    using assms(2,3) frame_eqD(3) [OF m1(2)] resources_frame [OF m1(2)] by simp_all
  note o = init_on_loaded [OF i m1(1) this]
  have f2: "lm_frame m2 = lm_frame m" using o(1) m1(2) by auto
  have l2: "lm_loaded m2" "resources m2"
    using assms(2,3) frame_eqD(3) [OF f2] resources_frame [OF f2] by simp_all
  show ?thesis
  proof (cases r1)
    case (Inl e)
    with assms(1) i have "m' = clear_contexts m2"
      by (simp add: recover_context_def Let_def m1_def [symmetric])
    with clear_inv [OF l2] f2 show ?thesis by simp
  next
    case (Inr u)
    with assms(1) i have "m' = m2" by (simp add: recover_context_def Let_def m1_def [symmetric])
    with o(2) Inr f2 show ?thesis by simp
  qed
qed

text \<open>What a reclamation leaves: a well-formed idle model, smaller when it reports success.\<close>

definition shrunk :: "int \<Rightarrow> nat \<Rightarrow> llama_model \<Rightarrow> bool" where
  "shrunk old_capacity old_slots m =
     (ready_context m \<and> (lm_pool_capacity m < old_capacity \<or> length (lm_slots m) < old_slots))"

lemma note_reclaimed_memory_simps [simp]:
  "llama_inv (note_reclaimed_memory a b m) = llama_inv m" "any_busy (note_reclaimed_memory a b m) = any_busy m"
  "lm_info (note_reclaimed_memory a b m) = lm_info m" "lm_loaded (note_reclaimed_memory a b m) = lm_loaded m"
  "lm_slots (note_reclaimed_memory a b m) = lm_slots m"
  "lm_pool_capacity (note_reclaimed_memory a b m) = lm_pool_capacity m"
  "ready_context (note_reclaimed_memory a b m) = ready_context m"
  by (simp_all add: note_reclaimed_memory_def any_busy_def)
    (simp add: ready_context_def has_context_def scheduler_ready_def is_chat_def)

lemma tick_ready [simp]:
  "ready_context (tick m) = ready_context m" "lm_pool_capacity (tick m) = lm_pool_capacity m"
  "llama_n_slots (tick m) = llama_n_slots m"
  by (simp_all add: ready_context_def has_context_def scheduler_ready_def is_chat_def)
    (simp_all add: tick_def llama_n_slots_def)

lemma recreate_smaller_outcome:
  assumes "recreate_smaller N ctl maximum reserve old_capacity target before m = (r, m')"
    and "llama_inv m" "lm_loaded m" "target < int (length (lm_slots m)) \<Longrightarrow> 1 \<le> target"
  shows "lm_info m' = lm_info m \<and> lm_loaded m' \<and> llama_inv m' \<and> \<not> any_busy m' \<and>
     (r = Ok True \<longrightarrow> shrunk old_capacity (length (lm_slots m)) m')"
proof -
  let ?k = "int (length (lm_slots m))"
  define m1 where "m1 = (clear_contexts m)\<lparr>lm_sequence_capacity := target\<rparr>"
  obtain r1 m2 where i: "init_shared_context N ctl (llama_model_params m) (Some maximum) (Some reserve) m1
      = (r1, m2)" by fastforce
  have m1: "bare m1" "lm_frame m1 = lm_frame m" by (simp_all add: m1_def)
  have "lm_loaded m1" "resources m1"
    using assms(3) inv_resources [OF assms(2)] frame_eqD(3) [OF m1(2)] resources_frame [OF m1(2)]
    by simp_all
  note o = init_on_loaded [OF i m1(1) this]
  have f2: "lm_frame m2 = lm_frame m" using o(1) m1(2) by auto
  have l2: "lm_loaded m2" "resources m2"
    using assms(3) inv_resources [OF assms(2)] frame_eqD(3) [OF f2] resources_frame [OF f2] by simp_all
  have lt: "lm_loaded (tick m2)" "resources (tick m2)"
    using l2 resources_frame [OF tick_simps(1)] by simp_all
  have recovered: "lm_info m3 = lm_info m \<and> lm_loaded m3 \<and> llama_inv m3 \<and> \<not> any_busy m3"
    if "recover_context N ?k old_capacity x = (r3, m3)" "x = m2 \<or> x = tick m2" for x r3 m3
    using that recover_context_outcome [of N ?k old_capacity x r3 m3] l2 lt frame_eqD [OF f2]
      frame_eqD(1,3) [of m3 x] by auto
  show ?thesis
  proof (cases r1)
    case (Inl e)
    obtain r3 m3 where rec: "recover_context N ?k old_capacity m2 = (r3, m3)" by fastforce
    with assms(1) i Inl have "m' = m3" "r \<noteq> Ok True"
      by (auto simp: recreate_smaller_def Let_def m1_def [symmetric] split: sum.splits if_splits)
    with recovered [OF rec] show ?thesis by simp
  next
    case (Inr u)
    have new: "llama_inv m2" "ready_context m2" "\<not> any_busy m2" using o(2) Inr by simp_all
    have few: "int (length (lm_slots m2)) \<le> target" if "target < ?k"
      using init_shared_context_outcome [OF i m1(1)] Inr assms(4) [OF that]
      by (simp add: requested_slots_def llama_n_slots_def m1_def)
    have cap: "(case lm_shared_ctx m2 of None \<Rightarrow> 0 | Some n \<Rightarrow> int_of_uint32 n) = lm_pool_capacity m2"
      using new(2) by (simp add: ready_context_def counters_fit_def split: option.splits)
    have run: "(r, m') = (if old_capacity \<le> lm_pool_capacity m2 \<and> ?k \<le> target then (Ok False, m2)
        else case context_memory N m2 of
           Inl e \<Rightarrow> (case recover_context N ?k old_capacity (tick m2) of
               (Inl failed, m3) \<Rightarrow> (Inl failed, m3) | (Inr _, m3) \<Rightarrow> (Inl e, m3))
         | Inr after \<Rightarrow> (Ok True, note_reclaimed_memory before after (tick m2)))"
      using assms(1) i Inr cap by (simp add: recreate_smaller_def Let_def m1_def [symmetric])
    consider (no_gain) "r = Ok False" "m' = m2"
      | (failed) r3 m3 where "recover_context N ?k old_capacity (tick m2) = (r3, m3)" "m' = m3" "\<not> is_ok r"
      | (reclaimed) after where "\<not> (old_capacity \<le> lm_pool_capacity m2 \<and> ?k \<le> target)" "r = Ok True"
          "m' = note_reclaimed_memory before after (tick m2)"
      using run by (auto split: if_splits sum.splits prod.splits)
    then show ?thesis
    proof cases
      case no_gain
      with new l2 frame_eqD [OF f2] show ?thesis by simp
    next
      case failed
      with recovered [OF failed(1)] show ?thesis by auto
    next
      case reclaimed
      with new l2 few frame_eqD [OF f2] show ?thesis by (auto simp: shrunk_def)
    qed
  qed
qed

lemma reclaim_maximum_untouched:
  assumes "reclaim_maximum N ctl reserve old_capacity target m = (r, m')"
  shows "m' = tick m" "r \<noteq> Ok (Inl True)"
proof -
  obtain f m1 where f: "fit_pool N ctl (llama_model_params m)
      ((shared_context_params old_capacity m)\<lparr>cp_n_seq_max := target\<rparr>) (minimum_pool m) old_capacity
      reserve (Some (nv_target_memory N (lm_tick m)),
        if lm_draft_ctx m = None then None else Some (nv_draft_memory N (lm_tick m))) m = (f, m1)"
    by fastforce
  show "m' = tick m" "r \<noteq> Ok (Inl True)"
    using assms f fit_pool_frame [OF f]
    by (auto simp: reclaim_maximum_def Let_def split: sum.splits if_splits)
qed

lemma reclaim_checked_cases:
  assumes "reclaim_checked N ctl extra old_capacity m = (r, m')"
  obtains (same) "untouched m m'" "r \<noteq> Ok True"
    | (recreated) maximum before m3 where "untouched m m3"
        "recreate_smaller N ctl maximum (cf_vram_safety_margin_mb (lm_cfg m) + extra) old_capacity
           (if mi_concurrency_auto (lm_info m) then 1 else int (length (lm_slots m))) before m3 = (r, m')"
proof (cases "\<exists>before. context_memory N m = Inr before \<and> before \<noteq> 0 \<and>
    \<not> (old_capacity \<le> minimum_pool m \<and> int (length (lm_slots m)) \<le>
       (if mi_concurrency_auto (lm_info m) then 1 else int (length (lm_slots m))))")
  case False
  have "(m' = m \<or> m' = tick m) \<and> r \<noteq> Ok True"
    using assms False by (simp add: reclaim_checked_def Let_def split: if_splits sum.splits) auto
  with that(1) show ?thesis by auto
next
  case True
  then obtain before where b: "context_memory N m = Inr before" "before \<noteq> 0"
    "\<not> (old_capacity \<le> minimum_pool m \<and> int (length (lm_slots m)) \<le>
       (if mi_concurrency_auto (lm_info m) then 1 else int (length (lm_slots m))))" by blast
  let ?t = "if mi_concurrency_auto (lm_info m) then 1 else int (length (lm_slots m))"
  let ?reserve = "cf_vram_safety_margin_mb (lm_cfg m) + extra"
  obtain c where c: "check_control ctl ''idle context reclamation cancelled''
      ''idle context reclamation deadline expired'' (tick m) = (c, tick (tick m))"
    by (metis check_control_frame prod.collapse)
  obtain q where q: "reclaim_maximum N ctl ?reserve old_capacity ?t (tick (tick m))
      = (q, tick (tick (tick m)))"
    by (metis reclaim_maximum_untouched(1) prod.collapse)
  obtain c2 where c2: "check_control ctl
      ''idle context reclamation cancelled or expired before recreation''
      ''idle context reclamation cancelled or expired before recreation'' (tick (tick (tick m)))
      = (c2, tick (tick (tick (tick m))))"
    by (metis check_control_frame prod.collapse)
  have run: "(r, m') = (case c of Inl e \<Rightarrow> (Inl e, tick (tick m)) | Inr _ \<Rightarrow>
      (case q of Inl e \<Rightarrow> (Inl e, tick (tick (tick m)))
       | Inr (Inl answer) \<Rightarrow> (Ok answer, tick (tick (tick m)))
       | Inr (Inr maximum) \<Rightarrow> (case c2 of Inl e \<Rightarrow> (Inl e, tick (tick (tick (tick m))))
           | Inr _ \<Rightarrow> if old_capacity \<le> maximum \<and> int (length (lm_slots m)) \<le> ?t
               then (Ok False, tick (tick (tick (tick m))))
               else recreate_smaller N ctl maximum ?reserve old_capacity ?t before
                      (tick (tick (tick (tick m)))))))"
    unfolding assms [symmetric] reclaim_checked_def Let_def b(1) sum.case
    using b(2,3) c q c2 by (simp only: if_False prod.case sum.case split: sum.splits)
  show ?thesis
  proof (cases "\<exists>maximum. c = Inr () \<and> q = Inr (Inr maximum) \<and> c2 = Inr () \<and>
      \<not> (old_capacity \<le> maximum \<and> int (length (lm_slots m)) \<le> ?t)")
    case True
    then obtain maximum where "c = Inr ()" "q = Inr (Inr maximum)" "c2 = Inr ()"
      "\<not> (old_capacity \<le> maximum \<and> int (length (lm_slots m)) \<le> ?t)" by blast
    with run have "(r, m') = recreate_smaller N ctl maximum ?reserve old_capacity ?t before
                      (tick (tick (tick (tick m))))" by (simp only: sum.case if_False)
    with that(2) show ?thesis by (metis untouched_refl untouched_tick)
  next
    case False
    have "untouched m m' \<and> r \<noteq> Ok True"
      using run False reclaim_maximum_untouched(2) [OF q] by (cases c; cases c2) (auto split: sum.splits if_splits)
    with that(1) show ?thesis by blast
  qed
qed

lemma llama_reclaim_outcome:
  assumes "llama_reclaim_idle_context N ctl extra m = (r, m')" "llama_inv m"
  shows "lm_info m' = lm_info m" "lm_loaded m' = lm_loaded m" "llama_inv m'"
    "any_busy m \<Longrightarrow> lm_slots m' = lm_slots m"
    "r = Ok True \<Longrightarrow> \<exists>n. lm_shared_ctx m = Some n \<and> shrunk n (length (lm_slots m)) m'"
proof -
  let ?P = "lm_info m' = lm_info m \<and> lm_loaded m' = lm_loaded m \<and> llama_inv m' \<and>
    (any_busy m \<longrightarrow> lm_slots m' = lm_slots m) \<and>
    (r = Ok True \<longrightarrow> (\<exists>n. lm_shared_ctx m = Some n \<and> shrunk n (length (lm_slots m)) m'))"
  have still: ?P if "untouched m m'" "r \<noteq> Ok True"
    using untouched_same [OF that(1)] that(2) assms(2) by simp
  obtain c where c: "check_control ctl ''idle context reclamation cancelled''
      ''idle context reclamation deadline expired'' m = (c, tick m)"
    by (metis check_control_frame prod.collapse)
  consider (same) "untouched m m'" "r \<noteq> Ok True"
    | (go) n where "lm_shared_ctx m = Some n" "lm_loaded m" "\<not> any_busy m" "scheduler_ready m"
        "reclaim_checked N ctl extra n (tick m) = (r, m')"
  proof (cases "extra < 0 \<or> c \<noteq> Inr () \<or> lm_shared_ctx m = None")
    case True
    have "untouched m m' \<and> r \<noteq> Ok True"
      using assms(1) True c
      by (auto simp: llama_reclaim_idle_context_def Err_def split: if_splits sum.splits)
    with that(1) show ?thesis by blast
  next
    case False
    then obtain n where n: "lm_shared_ctx m = Some n" by blast
    have "(untouched m m' \<and> r \<noteq> Ok True) \<or> (lm_loaded m \<and> \<not> any_busy m \<and> scheduler_ready (tick m) \<and>
        reclaim_checked N ctl extra n (tick m) = (r, m'))"
      using assms(1) False c n
      by (auto simp: llama_reclaim_idle_context_def Err_def split: if_splits)
    moreover have "scheduler_ready (tick m) = scheduler_ready m"
      by (simp add: scheduler_ready_def is_chat_def)
    ultimately show ?thesis using that n by blast
  qed
  then have ?P
  proof cases
    case go
    have inv: "llama_inv (tick m)" using assms(2) by simp
    from go(5) show ?thesis
    proof (cases rule: reclaim_checked_cases)
      case same
      then have "untouched m m'" unfolding untouched_def by (metis funpow_swap1 funpow.simps(2) comp_apply)
      with same(2) show ?thesis using still by blast
    next
      case (recreated maximum before m3)
      note u = untouched_same [OF recreated(1)]
      have "lm_info m' = lm_info m3 \<and> lm_loaded m' \<and> llama_inv m' \<and>
          (r = Ok True \<longrightarrow> shrunk n (length (lm_slots m3)) m')"
        using recreate_smaller_outcome [OF recreated(2)] u inv go(2) by (simp split: if_splits)
      with u go show ?thesis by simp
    qed
  qed (use still in blast)
  then show "lm_info m' = lm_info m" "lm_loaded m' = lm_loaded m" "llama_inv m'"
    "any_busy m \<Longrightarrow> lm_slots m' = lm_slots m"
    "r = Ok True \<Longrightarrow> \<exists>n. lm_shared_ctx m = Some n \<and> shrunk n (length (lm_slots m)) m'" by blast+
qed

section \<open>Slots\<close>

lemma numbered_update:
  assumes "i < length ss" "sl_sequence_id x = sl_sequence_id (ss ! i)"
  shows "numbered (ss[i := x]) = numbered ss"
proof -
  have "map sl_sequence_id (ss[i := x]) = map sl_sequence_id ss"
    using assms by (simp add: map_update) (metis list_update_id nth_map)
  then show ?thesis by (simp add: numbered_def del: map_update)
qed

text \<open>Only the table of slots changes: same length, same numbers, busy only where there is a context.\<close>

lemma slots_inv:
  assumes "llama_inv m" "length ss = length (lm_slots m)" "numbered ss"
    and "lm_shared_ctx m = None \<Longrightarrow> \<not> list_ex sl_busy ss"
  shows "llama_inv (m\<lparr>lm_slots := ss\<rparr>)"
proof -
  have "scheduler_fits (m\<lparr>lm_slots := ss\<rparr>) = scheduler_fits m"
    by (simp add: scheduler_fits_def is_chat_def split: option.split)
  moreover have "counters_fit (m\<lparr>lm_slots := ss\<rparr>) = counters_fit m"
    using assms(2) by (simp add: counters_fit_def split: option.split)
  moreover have "ss = [] \<longleftrightarrow> lm_slots m = []" using assms(2) by (metis length_0_conv)
  ultimately show ?thesis using assms(1,3,4)
    by (auto simp: llama_inv_def resources_def is_chat_def bare_def no_context_def any_busy_def)
qed

lemma llama_acquire_cases:
  assumes "llama_acquire_slot m = (r, m')"
  obtains (failed) e where "r = Inl e" "m' = m"
    | (taken) i where "r = Ok (int i)" "i < length (lm_slots m)" "\<not> sl_busy (lm_slots m ! i)"
        "lm_loaded m" "lm_shared_ctx m \<noteq> None" "scheduler_ready m"
        "m' = m\<lparr>lm_slots := (lm_slots m)[i := (lm_slots m ! i)\<lparr>sl_busy := True\<rparr>]\<rparr>"
proof (cases "lm_loaded m \<and> lm_shared_ctx m \<noteq> None \<and> scheduler_ready m")
  case False
  with assms that(1) show ?thesis by (auto simp: llama_acquire_slot_def Err_def split: if_splits)
next
  case True
  then have "(r, m') = (case first_free (map sl_busy (lm_slots m)) 0 of
      None \<Rightarrow> (Err Unavailable ''no free slots'', m)
    | Some i \<Rightarrow> (Ok (int i), m\<lparr>lm_slots := (lm_slots m)[i := (lm_slots m ! i)\<lparr>sl_busy := True\<rparr>]\<rparr>))"
    using assms by (auto simp: llama_acquire_slot_def)
  with True that show ?thesis
    by (cases "first_free (map sl_busy (lm_slots m)) 0") (auto simp: Err_def dest: first_free_0)
qed

lemma llama_release_cases:
  assumes "llama_release_slot s m = (r, m')"
  obtains (invalid) e where "r = Inl e" "m' = m" "\<not> slot_in_range s m"
    | (freed) "r = Ok ()" "slot_in_range s m"
        "m' = m\<lparr>lm_slots := (lm_slots m)[nat s := (lm_slots m ! nat s)\<lparr>sl_busy := False, sl_sequence_bound := False\<rparr>]\<rparr>"
  using assms by (auto simp: llama_release_slot_def Err_def split: if_splits)

lemma acquire_inv:
  assumes "llama_acquire_slot m = (r, m')" "llama_inv m"
  shows "llama_inv m'"
  using assms(1)
proof (cases rule: llama_acquire_cases)
  case (taken i)
  have "numbered ((lm_slots m)[i := (lm_slots m ! i)\<lparr>sl_busy := True\<rparr>])"
    using taken(2) assms(2) by (simp add: numbered_update llama_inv_def)
  with slots_inv [OF assms(2)] taken(5,7) show ?thesis by simp
qed (use assms(2) in simp)

lemma list_ex_update_idle:
  "\<not> list_ex sl_busy ss \<Longrightarrow> \<not> sl_busy x \<Longrightarrow> \<not> list_ex sl_busy (ss[i := x])"
  by (auto simp: list_ex_iff dest: set_update_subset_insert [THEN subsetD])

lemma release_inv:
  assumes "llama_release_slot s m = (r, m')" "llama_inv m"
  shows "llama_inv m'"
  using assms(1)
proof (cases rule: llama_release_cases)
  case freed
  let ?x = "(lm_slots m ! nat s)\<lparr>sl_busy := False, sl_sequence_bound := False\<rparr>"
  have "numbered ((lm_slots m)[nat s := ?x])"
    using freed(2) assms(2) numbered_update [of "nat s" "lm_slots m" ?x]
    by (auto simp: slot_in_range_def llama_inv_def nat_less_iff)
  moreover have "\<not> list_ex sl_busy ((lm_slots m)[nat s := ?x])" if "lm_shared_ctx m = None"
    using that assms(2) by (intro list_ex_update_idle) (simp_all add: llama_inv_def any_busy_def)
  ultimately show ?thesis using slots_inv [OF assms(2)] freed(3) by simp
qed (use assms(2) in simp)

lemma reset_inv:
  assumes "llama_reset_all_slots m = (removed, m')" "llama_inv m"
  shows "llama_inv m'"
proof -
  have "m' = m\<lparr>lm_slots := map reset_slot (lm_slots m)\<rparr>"
    using assms(1) by (simp add: llama_reset_all_slots_def Let_def)
  moreover have "sl_sequence_id \<circ> reset_slot = sl_sequence_id" by (simp add: reset_slot_def fun_eq_iff)
  then have "numbered (map reset_slot (lm_slots m))"
    using assms(2) by (simp add: llama_inv_def numbered_def)
  moreover have "\<not> list_ex sl_busy (map reset_slot (lm_slots m))"
    by (simp add: list_ex_iff reset_slot_def SlotState_def)
  ultimately show ?thesis using assms(2) by (auto intro!: slots_inv)
qed

text \<open>What a thread of the scheduler that fails does to the model that owns it.\<close>

definition scheduler_failed :: "llama_model \<Rightarrow> llama_model" where
  "scheduler_failed m = m\<lparr>lm_scheduler := map_option (\<lambda>h. h\<lparr>sh_healthy := False\<rparr>) (lm_scheduler m)\<rparr>"

lemma scheduler_failed_inv: "llama_inv m \<Longrightarrow> llama_inv (scheduler_failed m)"
proof -
  have "scheduler_fits (scheduler_failed m) = scheduler_fits m"
    by (cases "lm_scheduler m") (simp_all add: scheduler_fits_def scheduler_failed_def is_chat_def)
  moreover have "counters_fit (scheduler_failed m) = counters_fit m"
    by (simp add: counters_fit_def scheduler_failed_def split: option.split)
  moreover have "bare (scheduler_failed m) = bare m"
    by (simp add: bare_def no_context_def scheduler_failed_def)
  ultimately show "llama_inv m \<Longrightarrow> llama_inv (scheduler_failed m)"
    unfolding llama_inv_def resources_def any_busy_def
    by (auto simp: scheduler_failed_def is_chat_def split: if_splits)
qed

lemma set_n_slots_inv: "llama_inv m \<Longrightarrow> unloaded m \<Longrightarrow> llama_inv (set_n_slots n m)"
  by (auto simp: llama_inv_def unloaded_def set_n_slots_def resources_def bare_def no_context_def
      any_busy_def)

lemma set_n_slots_unloaded: "unloaded m \<Longrightarrow> unloaded (set_n_slots n m)"
  by (simp add: unloaded_def set_n_slots_def bare_def no_context_def)

lemma llama_resize_outcome:
  assumes "llama_resize_slots N k m = (r, m')" "llama_inv m"
  shows "llama_inv m'" "same_but_slots (lm_info m) (lm_info m')" "lm_loaded m' \<Longrightarrow> lm_loaded m"
    "any_busy m \<Longrightarrow> m' = m" "is_ok r \<Longrightarrow> mi_n_slots (lm_info m') = k \<and> lm_loaded m' = lm_loaded m"
proof -
  have "llama_inv m' \<and> same_but_slots (lm_info m) (lm_info m') \<and> (lm_loaded m' \<longrightarrow> lm_loaded m) \<and>
    (any_busy m \<longrightarrow> m' = m) \<and>
    (is_ok r \<longrightarrow> mi_n_slots (lm_info m') = k \<and> lm_loaded m' = lm_loaded m)"
  proof (cases "m' = m \<and> (is_ok r \<longrightarrow> k = mi_n_slots (lm_info m))")
    case True
    with assms(2) show ?thesis by simp
  next
    case False
    with assms(1) have idle: "\<not> any_busy m"
      by (auto simp: llama_resize_slots_def Err_def split: if_splits)
    show ?thesis
    proof (cases "lm_loaded m")
      case no: False
      with False assms(1) have "m' = set_n_slots k m"
        by (auto simp: llama_resize_slots_def Err_def split: if_splits)
      with no idle set_n_slots_inv [OF assms(2) inv_unloaded [OF assms(2) no]] show ?thesis
        by (simp add: set_n_slots_def same_but_slots_def)
    next
      case yes: True
      define m1 where "m1 = set_n_slots k (snd (llama_unload m))"
      note u = llama_unload_outcome [OF prod.collapse [symmetric] assms(2)]
      have m1: "llama_inv m1" "unloaded m1" "lm_info m1 = (lm_info m)\<lparr>mi_n_slots := k\<rparr>"
        using set_n_slots_inv [OF u(4,3)] set_n_slots_unloaded [OF u(3)] u(2)
        by (simp_all add: m1_def) (simp add: set_n_slots_def)
      obtain r1 m2 where l: "llama_load N no_control m1 = (r1, m2)" by fastforce
      note l1 = llama_load_outcome [OF l m1(1)]
      have run: "(r, m') = (case r1 of Inr u \<Rightarrow> (Inr u, m2)
          | Inl e \<Rightarrow> (Inl e, snd (llama_load N no_control (set_n_slots (mi_n_slots (lm_info m)) m2))))"
        using assms(1) False yes idle l
        by (auto simp: llama_resize_slots_def Err_def m1_def [symmetric] split: if_splits sum.splits)
      show ?thesis
      proof (cases r1)
        case (Inr v)
        with run l1 m1(3) yes idle show ?thesis by (simp add: same_but_slots_def)
      next
        case (Inl e)
        then have "unloaded m2" using l1 inv_unloaded by simp
        define m3 where "m3 = set_n_slots (mi_n_slots (lm_info m)) m2"
        have m3: "llama_inv m3" "lm_info m3 = lm_info m"
          unfolding m3_def using set_n_slots_inv [OF l1(2) \<open>unloaded m2\<close>] l1(1) m1(3)
          by (blast, simp add: set_n_slots_def)
        from llama_load_outcome [OF prod.collapse [symmetric] m3(1), of N no_control]
          Inl run m3(2) yes idle show ?thesis
          by (simp add: same_but_slots_def m3_def [symmetric])
      qed
    qed
  qed
  then show "llama_inv m'" "same_but_slots (lm_info m) (lm_info m')" "lm_loaded m' \<Longrightarrow> lm_loaded m"
    "any_busy m \<Longrightarrow> m' = m" "is_ok r \<Longrightarrow> mi_n_slots (lm_info m') = k \<and> lm_loaded m' = lm_loaded m"
    by auto
qed

section \<open>The contract\<close>

text \<open>
  The table of operations. A call reads its control as often as it likes; what it reads beyond what
  the coordinator's model of a call records is the parameter \<open>reads\<close>, an arbitrary function.
\<close>

definition llama_vt ::
  "'d llama_native \<Rightarrow> (control_view \<Rightarrow> control_reads) \<Rightarrow> llama_model ibackend" where
  "llama_vt N reads =
     \<lparr>bk_info = lm_info,
      bk_implements = (\<lambda>i m. i = IModel \<or> i = IEmbeddingBackend),
      bk_load = (\<lambda>cv. llama_load N (reads cv)),
      bk_unload = ibackend_unload llama_unload,
      bk_is_loaded = lm_loaded,
      bk_execution_healthy = llama_execution_healthy,
      bk_vram_usage_mb = llama_vram_usage_mb,
      bk_n_slots = llama_n_slots,
      bk_n_free_slots = llama_n_free_slots,
      bk_context_pool_capacity = lm_pool_capacity,
      bk_min_slots = llama_min_slots,
      bk_can_resize_slots = llama_can_resize_slots,
      bk_can_reclaim_idle_context = llama_can_reclaim,
      bk_reclaim_idle_context = (\<lambda>extra cv m. map_prod Returned id
         (llama_reclaim_idle_context N (reads cv) extra m)),
      bk_estimate_vram_mb = llama_estimate_vram_mb,
      bk_additional_vram_reserve_mb = (\<lambda>m. 0),
      bk_live_vram_accounting_complete = (\<lambda>m. True),
      bk_resize_slots = ibackend_resize (llama_resize_slots N),
      bk_acquire_slot = llama_acquire_slot,
      bk_release_slot = llama_release_slot,
      bk_slot_busy = llama_slot_busy,
      bk_ensure_request_capacity = (\<lambda>demand cv m. map_prod Returned id
         (llama_ensure_request_capacity N (reads cv) demand m))\<rparr>"

lemma llama_acquire_spec:
  assumes "llama_acquire_slot m = (Inr s, m')"
  shows "\<not> llama_slot_busy s m \<and> llama_slot_busy s m' \<and>
     (\<forall>s'. s' \<noteq> s \<longrightarrow> llama_slot_busy s' m' = llama_slot_busy s' m)"
  using assms
proof (cases rule: llama_acquire_cases)
  case (taken i)
  then show ?thesis
    by (auto simp: llama_slot_busy_def slot_in_range_def nth_list_update)
qed simp

lemma llama_release_spec:
  assumes "llama_release_slot s m = (r, m')" "llama_slot_busy s m"
  shows "is_ok r \<and> \<not> llama_slot_busy s m' \<and>
     (\<forall>s'. s' \<noteq> s \<longrightarrow> llama_slot_busy s' m' = llama_slot_busy s' m)"
  using assms(1)
proof (cases rule: llama_release_cases)
  case freed
  then show ?thesis
    by (auto simp: llama_slot_busy_def slot_in_range_def nth_list_update)
qed (use assms(2) in \<open>simp add: llama_slot_busy_def\<close>)

lemma busy_in_range:
  assumes "llama_inv m" "llama_slot_busy s m"
  shows "0 \<le> s \<and> s < llama_n_slots m"
proof -
  have r: "0 \<le> s" "s < int (length (lm_slots m))"
    using assms(2) by (simp_all add: llama_slot_busy_def slot_in_range_def)
  have "any_busy m"
    using assms(2) by (auto simp: any_busy_def list_ex_iff llama_slot_busy_def slot_in_range_def)
  moreover have "lm_slots m \<noteq> []" using r by auto
  ultimately have "counters_fit m" using assms(1) by (auto simp: llama_inv_def)
  with r \<open>lm_slots m \<noteq> []\<close> show ?thesis by (simp add: counters_fit_def llama_n_slots_def)
qed

lemma free_slot_acquired:
  assumes "llama_execution_healthy m" "0 < llama_n_free_slots m"
  shows "is_ok (fst (llama_acquire_slot m))"
proof -
  have "filter (\<lambda>s. \<not> sl_busy s) (lm_slots m) \<noteq> []"
    using assms by (auto simp: llama_n_free_slots_def llama_execution_healthy_def)
  then have "first_free (map sl_busy (lm_slots m)) 0 \<noteq> None"
    by (auto simp: first_free_None_iff filter_empty_conv)
  with assms(1) show ?thesis
    by (auto simp: llama_acquire_slot_def llama_execution_healthy_def split: option.splits)
qed

lemmas llama_vt_defs = llama_vt_def same_slots_def same_identity_def

interpretation llama: backend_contract "llama_vt N reads" llama_inv for N reads
proof (unfold_locales, goal_cases)
  case (1 m s m')
  then show ?case using llama_acquire_spec [of m s m'] by (simp add: llama_vt_defs)
next
  case (2 m e m')
  then have "llama_acquire_slot m = (Inl e, m')" by (simp add: llama_vt_def)
  then have "m' = m" by (cases rule: llama_acquire_cases) simp_all
  then show ?case by (simp add: llama_vt_defs)
next
  case (3 m r m')
  then have run: "llama_acquire_slot m = (r, m')" "llama_inv m" by (simp_all add: llama_vt_def)
  from run(1) have "lm_info m' = lm_info m \<and> lm_loaded m' = lm_loaded m \<and> llama_n_slots m' = llama_n_slots m"
    by (cases rule: llama_acquire_cases) (simp_all add: llama_n_slots_def)
  with acquire_inv [OF run] show ?case by (simp add: llama_vt_defs)
next
  case (4 m)
  then show ?case using free_slot_acquired [of m] by (simp add: llama_vt_def)
next
  case (5 m s r m')
  then show ?case using llama_release_spec [of s m r m'] by (simp add: llama_vt_defs)
next
  case (6 m s r m')
  then have run: "llama_release_slot s m = (r, m')" "llama_inv m" by (simp_all add: llama_vt_def)
  from run(1) have "lm_info m' = lm_info m \<and> lm_loaded m' = lm_loaded m \<and> llama_n_slots m' = llama_n_slots m"
    by (cases rule: llama_release_cases) (simp_all add: llama_n_slots_def)
  with release_inv [OF run] show ?case by (simp add: llama_vt_defs)
next
  case (7 m s)
  then show ?case using busy_in_range [of m s] by (simp add: llama_vt_def)
next
  case (8 m cv r m')
  then show ?case using llama_load_outcome [of N "reads cv" m r m'] by (simp add: llama_vt_def)
next
  case (9 m cv r m')
  then show ?case using llama_unload_outcome [of m r m']
    by (auto simp: llama_vt_def ibackend_unload_def split: if_splits)
next
  case (10 m n cv r m')
  then show ?case using llama_resize_outcome [of N n m r m']
    by (auto simp: llama_vt_def ibackend_resize_def split: if_splits)
next
  case (11 m need cv rr m')
  then obtain r where "llama_reclaim_idle_context N (reads cv) need m = (r, m')"
    by (auto simp: llama_vt_def map_prod_def split: prod.splits)
  from llama_reclaim_outcome [OF this] 11(1) show ?case by (simp add: llama_vt_def)
next
  case (12 m d cv rr m')
  then obtain r where "llama_ensure_request_capacity N (reads cv) d m = (r, m')"
    by (auto simp: llama_vt_def map_prod_def split: prod.splits)
  from llama_ensure_outcome [OF this] 12(1) show ?case by (simp add: llama_vt_defs)
qed

end
