(* ===== verification/Llama_Prompt_Facts.thy ===== *)
theory Llama_Prompt_Facts
  imports Llama_Prompt Llama_Contract
begin

text \<open>
  What the preparation of a request guarantees: the size of a truncated prompt, the agreement of
  the estimated demand with the request that runs, and the slots after a change of sequences.
\<close>

section \<open>Truncation\<close>

lemma sdiv_pos: "0 \<le> (a::int) \<Longrightarrow> 0 < b \<Longrightarrow> a sdiv b = a div b"
  by (cases "a = 0") (auto simp: signed_divide_int_def)

lemma truncation_target_bounds:
  assumes "1 \<le> n_ctx"
  shows "0 \<le> truncation_target n_ctx r" "truncation_target n_ctx r < n_ctx"
    "n_ctx - n_ctx div 4 - 1 \<le> truncation_target n_ctx r" "2 \<le> n_ctx \<Longrightarrow> 1 \<le> truncation_target n_ctx r"
  using assms by (auto simp: truncation_target_def truncation_reserve_def Let_def clamp_def sdiv_pos)

definition kept_head :: "int \<Rightarrow> int \<Rightarrow> int" where
  "kept_head n_ctx r = min 1024 (truncation_target n_ctx r div 4)"

lemma maybe_truncate_prompt_eq:
  assumes "1 \<le> n_ctx" "n_ctx \<le> int (length tokens)"
  shows "maybe_truncate_prompt tokens n_ctx r =
     take (nat (kept_head n_ctx r)) tokens @
     drop (length tokens - nat (truncation_target n_ctx r - kept_head n_ctx r)) tokens"
    and "0 \<le> kept_head n_ctx r" "kept_head n_ctx r \<le> truncation_target n_ctx r"
  using assms truncation_target_bounds [OF assms(1), of r]
  by (auto simp: maybe_truncate_prompt_def Let_def kept_head_def sdiv_pos)

lemma maybe_truncate_prompt_length:
  assumes "1 \<le> n_ctx" "n_ctx \<le> int (length tokens)"
  shows "int (length (maybe_truncate_prompt tokens n_ctx r)) = truncation_target n_ctx r"
proof -
  note e = maybe_truncate_prompt_eq [OF assms, of r]
  note b = truncation_target_bounds [OF assms(1), of r]
  have "nat (kept_head n_ctx r) \<le> length tokens" using e b assms(2) by linarith
  moreover have "nat (truncation_target n_ctx r - kept_head n_ctx r) \<le> length tokens"
    using e b assms(2) by linarith
  ultimately show ?thesis using e b by simp
qed

section \<open>Slots\<close>

lemma better_slot_max:
  assumes "better_slot recurrent tokens slots index (i, p) = (j, q)"
  shows "p \<le> q" "j = i \<or> j = index" "\<not> sl_sequence_bound (slots ! index) \<Longrightarrow>
    reusable_prefix recurrent tokens (slots ! index) \<le> q"
    "(j, q) \<noteq> (i, p) \<Longrightarrow> q = reusable_prefix recurrent tokens (slots ! j) \<and> \<not> sl_sequence_bound (slots ! j)"
  using assms by (auto simp: better_slot_def Let_def split: if_splits)

lemma best_slot_fold:
  assumes "fold (better_slot recurrent tokens slots) xs (i, p) = (j, q)"
    and "p = reusable_prefix recurrent tokens (slots ! i)" "\<not> sl_sequence_bound (slots ! i)"
  shows "p \<le> q \<and> (j = i \<or> j \<in> set xs) \<and> q = reusable_prefix recurrent tokens (slots ! j) \<and>
     \<not> sl_sequence_bound (slots ! j) \<and>
     (\<forall>k\<in>set xs. \<not> sl_sequence_bound (slots ! k) \<longrightarrow> reusable_prefix recurrent tokens (slots ! k) \<le> q)"
  using assms
proof (induction xs arbitrary: i p)
  case (Cons x xs)
  obtain i1 p1 where b: "better_slot recurrent tokens slots x (i, p) = (i1, p1)" by fastforce
  note m = better_slot_max [OF b]
  have "p1 = reusable_prefix recurrent tokens (slots ! i1)" "\<not> sl_sequence_bound (slots ! i1)"
    using m(4) Cons.prems(2,3) by auto
  from Cons.IH [OF _ this] Cons.prems(1) b m show ?case by fastforce
qed simp

lemma best_slot_spec:
  assumes "slot_id < length slots" "\<not> sl_sequence_bound (slots ! slot_id)"
    and "best_slot recurrent tokens slots slot_id = (j, q)"
  shows "j < length slots \<and> \<not> sl_sequence_bound (slots ! j) \<and>
     q = reusable_prefix recurrent tokens (slots ! j) \<and>
     (\<forall>k<length slots. \<not> sl_sequence_bound (slots ! k) \<longrightarrow>
        reusable_prefix recurrent tokens (slots ! k) \<le> q)"
  using best_slot_fold [OF assms(3) [unfolded best_slot_def] refl assms(2)] assms(1) by auto

lemma swap_sequences_nth:
  assumes "i < length slots" "j < length slots" "k < length slots" "i \<noteq> j"
  shows "swap_sequences i j slots ! k =
     (if k = i then (slots ! j)\<lparr>sl_busy := sl_busy (slots ! i)\<rparr>
      else if k = j then (slots ! i)\<lparr>sl_busy := sl_busy (slots ! j)\<rparr> else slots ! k)"
  using assms by (simp add: swap_sequences_def nth_list_update)

lemma swap_sequences_length [simp]: "length (swap_sequences i j slots) = length slots"
  by (simp add: swap_sequences_def)

lemma swap_numbered:
  assumes "i < length slots" "j < length slots"
  shows "numbered (swap_sequences i j slots) = numbered slots"
proof -
  have "map sl_sequence_id (swap_sequences i j slots) =
      (map sl_sequence_id slots)[i := map sl_sequence_id slots ! j, j := map sl_sequence_id slots ! i]"
    using assms by (simp add: swap_sequences_def map_update)
  then show ?thesis using mset_swap [of j "map sl_sequence_id slots" i] assms
    by (simp add: numbered_def del: map_update)
qed

text \<open>The slot a request binds: which one of the old slots it takes the sequence of.\<close>

definition chosen_slot :: "bool \<Rightarrow> predict_setup \<Rightarrow> nat \<Rightarrow> slot_state list \<Rightarrow> nat" where
  "chosen_slot recurrent s slot_id slots =
     (if su_media_chunks s = [] \<and> \<not> sl_sequence_bound (slots ! slot_id)
      then fst (best_slot recurrent (su_prompt_tokens s) slots slot_id) else slot_id)"

lemma chosen_slot_spec:
  assumes "slot_id < length slots"
  shows "chosen_slot recurrent s slot_id slots < length slots"
    and "chosen_slot recurrent s slot_id slots \<noteq> slot_id \<Longrightarrow>
      \<not> sl_sequence_bound (slots ! chosen_slot recurrent s slot_id slots) \<and>
      \<not> sl_sequence_bound (slots ! slot_id)"
    and "su_media_chunks s = [] \<Longrightarrow> \<not> sl_sequence_bound (slots ! slot_id) \<Longrightarrow> k < length slots \<Longrightarrow>
      \<not> sl_sequence_bound (slots ! k) \<Longrightarrow>
      reusable_prefix recurrent (su_prompt_tokens s) (slots ! k) \<le>
      reusable_prefix recurrent (su_prompt_tokens s) (slots ! chosen_slot recurrent s slot_id slots)"
  using best_slot_spec [OF assms, of recurrent "su_prompt_tokens s"] assms
  by (auto simp: chosen_slot_def) (metis prod.collapse)+

lemma bind_slot_eq:
  "bind_slot recurrent s slot_id slots =
     (let j = chosen_slot recurrent s slot_id slots;
          slots1 = (if j \<noteq> slot_id then swap_sequences slot_id j slots else slots)
      in slots1[slot_id := (slots1 ! slot_id)\<lparr>sl_sequence_bound := True\<rparr>])"
  by (simp add: bind_slot_def chosen_slot_def Let_def)

lemma bind_slot_length [simp]: "length (bind_slot recurrent s slot_id slots) = length slots"
  by (simp add: bind_slot_eq Let_def)

lemma bind_slot_nth:
  assumes "slot_id < length slots" "k < length slots" and j_def: "j = chosen_slot recurrent s slot_id slots"
  shows "bind_slot recurrent s slot_id slots ! k =
     (if k = slot_id then (slots ! j)\<lparr>sl_busy := sl_busy (slots ! slot_id), sl_sequence_bound := True\<rparr>
      else if k = j then (slots ! slot_id)\<lparr>sl_busy := sl_busy (slots ! j)\<rparr>
      else slots ! k)"
proof -
  have "j < length slots" unfolding j_def by (rule chosen_slot_spec [OF assms(1)])
  then show ?thesis
    using assms(1,2) unfolding bind_slot_eq j_def [symmetric]
    by (simp add: Let_def nth_list_update swap_sequences_nth)
qed

lemma bind_slot_numbered:
  assumes "slot_id < length slots"
  shows "numbered (bind_slot recurrent s slot_id slots) = numbered slots"
  unfolding bind_slot_eq Let_def
  using chosen_slot_spec(1) [OF assms, of recurrent s] assms
  by (simp add: numbered_update swap_numbered)

lemma bind_slot_busy:
  assumes "slot_id < length slots"
  shows "map sl_busy (bind_slot recurrent s slot_id slots) = map sl_busy slots"
  using bind_slot_nth [OF assms _ refl] by (intro nth_equalityI) auto

section \<open>Demand and inference\<close>

lemma apply_template_media:
  "apply_chat_template pn req b m = Inr tr \<Longrightarrow> tr_media tr \<noteq> [] \<Longrightarrow> lm_mtmd m"
  by (auto simp: apply_chat_template_def Err_def split: if_splits sum.splits option.splits)

lemma prepare_prompt_Ok:
  assumes "prepare_prompt pn req n m = Inr s"
  shows "su_n_ctx_seq s = n"
    and "su_media_chunks s = [] \<or> su_prompt_tokens s \<noteq> [] \<and> last (su_prompt_tokens s) \<noteq> LLAMA_TOKEN_NULL"
proof -
  obtain tr s0 where tr: "apply_chat_template pn req (prompt_budget req n m) m = Inr tr"
    and s: "s = s0\<lparr>su_n_ctx_seq := n\<rparr>"
    and s0: "(if tr_media tr \<noteq> [] then media_prompt pn tr m (PredictSetup\<lparr>su_stop_strings := tr_stop_strings tr,
         su_stop_tokens := tokenize_stop_strings pn (tr_stop_strings tr),
         su_parse_tool_calls := tr_parse_tool_calls tr\<rparr>)
       else text_prompt pn tr (PredictSetup\<lparr>su_stop_strings := tr_stop_strings tr,
         su_stop_tokens := tokenize_stop_strings pn (tr_stop_strings tr),
         su_parse_tool_calls := tr_parse_tool_calls tr\<rparr>)) = Inr s0"
    using assms by (auto simp: prepare_prompt_def Let_def map_sum_def split: sum.splits)
  show "su_n_ctx_seq s = n" by (simp add: s)
  show "su_media_chunks s = [] \<or> su_prompt_tokens s \<noteq> [] \<and> last (su_prompt_tokens s) \<noteq> LLAMA_TOKEN_NULL"
    using s0 s
    by (auto simp: media_prompt_def text_prompt_def Err_def PredictSetup_def
        split: if_splits sum.splits option.splits prod.splits)
qed

lemma prepare_inference_cases:
  assumes "prepare_inference pn slot_id req m = (r, m')"
  obtains (refused) e where "r = Inl e" "m' = m"
    | (bound) s0 s1 s2 where
        "prepare_prompt pn req (request_context_limit pn req m) m = Inr s0"
        "limit_prompt req m s0 = Inr s1"
        "s2 = s1\<lparr>su_max_tokens := generation_limit req m s1\<rparr>"
        "m' = m\<lparr>lm_slots := bind_slot (pn_recurrent pn) s2 slot_id (lm_slots m)\<rparr>"
        "r = (if pn_sampler_init pn = None then Err Internal ''common_sampler_init returned null''
              else Ok ((snapshot_slot (lm_slots m' ! slot_id) s2)\<lparr>su_sampler := pn_sampler_init pn\<rparr>))"
proof (cases "prepare_prompt pn req (request_context_limit pn req m) m")
  case (Inl e)
  with assms have "r = Inl e" "m' = m" by (simp_all add: prepare_inference_def)
  with that(1) show ?thesis by blast
next
  case (Inr s0)
  note prepared = Inr
  show ?thesis
  proof (cases "limit_prompt req m s0")
    case (Inl e)
    with assms prepared have "r = Inl e" "m' = m" by (simp_all add: prepare_inference_def)
    with that(1) show ?thesis by blast
  next
    case (Inr s1)
    with assms prepared show ?thesis
      by (intro that(2) [OF prepared Inr refl]) (auto simp: prepare_inference_def Let_def split: if_splits)
  qed
qed

lemma limit_prompt_Ok:
  assumes "limit_prompt req m s = Inr s1" "1 \<le> su_n_ctx_seq s"
  shows "setup_positions s1 < su_n_ctx_seq s1" "su_n_ctx_seq s1 = su_n_ctx_seq s"
    "su_media_chunks s1 = su_media_chunks s"
    "setup_positions s1 = (if su_n_ctx_seq s \<le> setup_positions s \<and> cf_truncate_prompt (lm_cfg m) \<and>
         su_media_chunks s = []
       then int (length (maybe_truncate_prompt (su_prompt_tokens s) (su_n_ctx_seq s)
              (gr_max_output_tokens req))) else setup_positions s)"
proof -
  consider (fits) "setup_positions s < su_n_ctx_seq s" "s1 = s"
    | (cut) "su_n_ctx_seq s \<le> setup_positions s" "cf_truncate_prompt (lm_cfg m)" "su_media_chunks s = []"
        "s1 = s\<lparr>su_prompt_tokens := maybe_truncate_prompt (su_prompt_tokens s) (su_n_ctx_seq s)
                  (gr_max_output_tokens req),
               su_prompt_position_count := int (length (maybe_truncate_prompt (su_prompt_tokens s)
                  (su_n_ctx_seq s) (gr_max_output_tokens req)))\<rparr>"
    using assms(1) by (auto simp: limit_prompt_def Let_def Err_def split: if_splits)
  then have "setup_positions s1 < su_n_ctx_seq s1 \<and> su_n_ctx_seq s1 = su_n_ctx_seq s \<and>
    su_media_chunks s1 = su_media_chunks s \<and>
    setup_positions s1 = (if su_n_ctx_seq s \<le> setup_positions s \<and> cf_truncate_prompt (lm_cfg m) \<and>
         su_media_chunks s = []
       then int (length (maybe_truncate_prompt (su_prompt_tokens s) (su_n_ctx_seq s)
              (gr_max_output_tokens req))) else setup_positions s)"
  proof cases
    case cut
    let ?t = "maybe_truncate_prompt (su_prompt_tokens s) (su_n_ctx_seq s) (gr_max_output_tokens req)"
    have p: "setup_positions s1 = int (length ?t)" by (simp add: cut(4) setup_positions_def)
    have "int (length ?t) < su_n_ctx_seq s"
    proof (cases "int (length (su_prompt_tokens s)) < su_n_ctx_seq s")
      case True
      then show ?thesis by (simp add: maybe_truncate_prompt_def)
    next
      case False
      then show ?thesis
        using maybe_truncate_prompt_length [OF assms(2), of "su_prompt_tokens s" "gr_max_output_tokens req"]
          truncation_target_bounds(2) [OF assms(2), of "gr_max_output_tokens req"] by simp
    qed
    with cut p show ?thesis by simp
  qed simp
  then show "setup_positions s1 < su_n_ctx_seq s1" "su_n_ctx_seq s1 = su_n_ctx_seq s"
    "su_media_chunks s1 = su_media_chunks s"
    "setup_positions s1 = (if su_n_ctx_seq s \<le> setup_positions s \<and> cf_truncate_prompt (lm_cfg m) \<and>
         su_media_chunks s = []
       then int (length (maybe_truncate_prompt (su_prompt_tokens s) (su_n_ctx_seq s)
              (gr_max_output_tokens req))) else setup_positions s)" by blast+
qed

lemma generation_limit_bounds:
  "1 \<le> generation_limit req m s"
  "generation_limit req m s \<le> max 1 (su_n_ctx_seq s - su_prompt_position_count s - 1)"
  "0 < gr_max_output_tokens req \<Longrightarrow> generation_limit req m s =
     min (gr_max_output_tokens req) (max 1 (su_n_ctx_seq s - su_prompt_position_count s - 1))"
  by (auto simp: generation_limit_def Let_def)

lemma inference_setup:
  assumes "prepare_inference pn slot_id req m = (Inr s, m')" "1 \<le> request_context_limit pn req m"
  obtains s0 s1 where
    "prepare_prompt pn req (request_context_limit pn req m) m = Inr s0" "limit_prompt req m s0 = Inr s1"
    "setup_positions s = setup_positions s1" "su_max_tokens s = generation_limit req m s1"
    "su_n_ctx_seq s1 = request_context_limit pn req m" "setup_positions s1 < su_n_ctx_seq s1"
    "su_prompt_position_count s = su_prompt_position_count s1" "su_n_ctx_seq s = su_n_ctx_seq s1"
    "su_prompt_tokens s = su_prompt_tokens s1"
  using assms(1)
proof (cases rule: prepare_inference_cases)
  case (bound s0 s1 s2)
  then have s: "s = (snapshot_slot (lm_slots m' ! slot_id) s2)\<lparr>su_sampler := pn_sampler_init pn\<rparr>"
    by (auto simp: Err_def split: if_splits)
  have n: "su_n_ctx_seq s0 = request_context_limit pn req m" by (rule prepare_prompt_Ok [OF bound(1)])
  have l: "setup_positions s1 < su_n_ctx_seq s1" "su_n_ctx_seq s1 = request_context_limit pn req m"
    using limit_prompt_Ok(1,2) [OF bound(2)] n assms(2) by simp_all
  have "setup_positions s = setup_positions s1"
    by (simp add: s bound(3) snapshot_slot_def setup_positions_def)
  from that [OF bound(1,2) this _ l(2,1)] show ?thesis by (simp add: s bound(3) snapshot_slot_def)
qed simp

text \<open>The slots of a model survive the preparation of a request, whatever its outcome.\<close>

lemma prepare_inference_inv:
  assumes "prepare_inference pn slot_id req m = (r, m')" "llama_inv m" "slot_id < length (lm_slots m)"
  shows "llama_inv m'" "\<And>s. llama_slot_busy s m' = llama_slot_busy s m" "lm_info m' = lm_info m"
    "lm_loaded m' = lm_loaded m"
proof -
  have "llama_inv m' \<and> (\<forall>s. llama_slot_busy s m' = llama_slot_busy s m) \<and> lm_info m' = lm_info m \<and>
    lm_loaded m' = lm_loaded m"
    using assms(1)
  proof (cases rule: prepare_inference_cases)
    case (bound s0 s1 s2)
    let ?ss = "bind_slot (pn_recurrent pn) s2 slot_id (lm_slots m)"
    note busy = bind_slot_busy [OF assms(3), of "pn_recurrent pn" s2]
    have "list_ex sl_busy ?ss = list_ex sl_busy (lm_slots m)"
      using arg_cong [OF busy, of set] by (auto simp: list_ex_iff)
    then have "llama_inv m'" unfolding bound(4)
      using assms(2) bind_slot_numbered [OF assms(3)]
      by (intro slots_inv) (auto simp: llama_inv_def any_busy_def)
    moreover have "llama_slot_busy s m' = llama_slot_busy s m" for s
      using arg_cong [OF busy, of "\<lambda>xs. xs ! nat s"]
      by (auto simp: bound(4) llama_slot_busy_def slot_in_range_def nat_less_iff)
    ultimately show ?thesis by (simp add: bound(4))
  qed (use assms(2) in simp)
  then show "llama_inv m'" "\<And>s. llama_slot_busy s m' = llama_slot_busy s m" "lm_info m' = lm_info m"
    "lm_loaded m' = lm_loaded m" by auto
qed

end
