(* ===== verification/Llama_Decoding_Facts.thy ===== *)
theory Llama_Decoding_Facts
  imports Llama_Decoding Llama_Prompt_Facts Batch_Channel
begin

text \<open>
  Facts about running a request: draining a closed queue returns, the text of a run is the text of
  its tokens up to the first stop string, a streamed run has the same text, the deltas of a stream
  announce every tool call once, and the slots stay those of a consistent model.
\<close>

section \<open>Draining\<close>

definition feed ::
  "(token_event \<Rightarrow> 'r token_run_scheme \<Rightarrow> bool \<times> 'r token_run_scheme) \<Rightarrow> token_event list \<Rightarrow>
     'r token_run_scheme \<Rightarrow> 'r token_run_scheme" where
  "feed handler = fold (\<lambda>ev r. let (go, r1) = handler ev r
     in if \<not> go \<and> \<not> tn_caller_stop r1 then r1\<lparr>tn_caller_cancel := True\<rparr> else r1)"

lemma feed_Nil [simp]: "feed handler [] r = r"
  by (simp add: feed_def)

lemma feed_Cons: "feed handler (ev # evs) r = feed handler evs (feed handler [ev] r)"
  by (simp add: feed_def)

lemma feed_snoc: "feed handler (evs @ [ev]) r = feed handler [ev] (feed handler evs r)"
  by (simp add: feed_def)

definition plain :: "token_event \<Rightarrow> bool" where
  "plain ev = (\<not> ev_is_done ev \<and> \<not> ev_is_error ev)"

lemma drain_plain: "plain ev \<Longrightarrow> drain_task handler (ev # evs) r = drain_task handler evs (feed handler [ev] r)"
  by (cases "handler ev r") (simp add: plain_def feed_def)

lemma drain_feed:
  assumes "list_all plain evs" "ev_is_done e"
  shows "drain_task handler (evs @ [e]) r =
    Some (if ev_is_error e then Err Internal (ev_error_msg e) else Ok (), feed handler evs r)"
  using assms
proof (induction evs arbitrary: r)
  case (Cons ev evs)
  then have "plain ev" "list_all plain evs" by simp_all
  with Cons.IH [of "feed handler [ev] r"] assms(2) show ?case
    by (simp add: drain_plain feed_Cons [of _ ev evs] del: drain_task.simps)
qed simp

lemma drain_returns:
  assumes "ev_is_done (last evs)" "evs \<noteq> []"
  shows "drain_task handler evs r \<noteq> None"
  using assms
proof (induction evs arbitrary: r)
  case (Cons ev evs)
  show ?case
  proof (cases "plain ev")
    case True
    with Cons show ?thesis
      by (cases "evs = []") (simp_all add: drain_plain plain_def del: drain_task.simps(2))
  qed (auto simp: plain_def)
qed simp

lemma drain_outcome:
  assumes "drain_task handler evs r = Some (res, r')"
  obtains pre where "list_all plain pre" "prefix pre evs" "r' = feed handler pre r"
  using assms
proof (induction evs arbitrary: r thesis)
  case (Cons ev evs)
  show ?case
  proof (cases "plain ev")
    case True
    with Cons.prems(2) have "drain_task handler evs (feed handler [ev] r) = Some (res, r')"
      by (simp add: drain_plain del: drain_task.simps)
    from Cons.IH [OF _ this] obtain pre where
      "list_all plain pre" "prefix pre evs" "r' = feed handler pre (feed handler [ev] r)" by blast
    with True show ?thesis
      by (intro Cons.prems(1) [of "ev # pre"]) (simp_all add: feed_Cons [of _ ev pre])
  next
    case False
    with Cons.prems(2) have "r' = r" by (auto simp: plain_def split: if_splits)
    then show ?thesis by (intro Cons.prems(1) [of "[]"]) simp_all
  qed
qed simp

section \<open>Stop strings\<close>

text \<open>The token that completes the first stop string.\<close>

definition stop_index :: "string list \<Rightarrow> string list \<Rightarrow> nat option" where
  "stop_index stops pieces =
     find (\<lambda>k. matching_stop stops (concat (take (Suc k) pieces)) \<noteq> None) [0..<length pieces]"

lemma matching_stop_Nil [simp]: "matching_stop stops [] = None"
  by (auto simp: matching_stop_def find_None_iff ends_with_def)

lemma matching_stop_SomeD:
  assumes "matching_stop stops s = Some stop"
  shows "stop \<in> set stops" "stop \<noteq> []" "take (length s - length stop) s @ stop = s"
proof -
  have m: "stop \<in> set stops" "stop \<noteq> []" "drop (length s - length stop) s = stop"
    using assms by (auto simp: matching_stop_def find_Some_iff ends_with_def)
  show "stop \<in> set stops" "stop \<noteq> []" by (fact m)+
  show "take (length s - length stop) s @ stop = s"
    using append_take_drop_id [of "length s - length stop" s] unfolding m(3) .
qed

lemma find_cong_upt:
  "(\<And>k. k < n \<Longrightarrow> P k = Q k) \<Longrightarrow> find P [0..<n] = find Q [0..<n]"
  by (rule find_cong) auto

lemma find_first_append: "find P (xs @ ys) = (case find P xs of None \<Rightarrow> find P ys | Some x \<Rightarrow> Some x)"
  by (induction xs) auto

lemma stop_index_snoc:
  "stop_index stops (pieces @ [p]) =
     (case stop_index stops pieces of
        Some k \<Rightarrow> Some k
      | None \<Rightarrow> (if matching_stop stops (concat pieces @ p) \<noteq> None then Some (length pieces) else None))"
proof -
  have "find (\<lambda>k. matching_stop stops (concat (take (Suc k) (pieces @ [p]))) \<noteq> None) [0..<length pieces]
      = stop_index stops pieces"
    unfolding stop_index_def by (rule find_cong_upt) simp
  then show ?thesis by (simp add: stop_index_def find_first_append split: option.splits)
qed

lemma stop_index_SomeD:
  assumes "stop_index stops pieces = Some k"
  shows "k < length pieces" "matching_stop stops (concat (take (Suc k) pieces)) \<noteq> None"
    "\<And>j. j < k \<Longrightarrow> matching_stop stops (concat (take (Suc j) pieces)) = None"
  using assms by (auto simp: stop_index_def find_Some_iff)

text \<open>The run as a whole.\<close>

definition reference_run ::
  "decode_native \<Rightarrow> string list \<Rightarrow> bool \<Rightarrow> token_event list \<Rightarrow> token_run" where
  "reference_run dn stops logprobs evs =
     (let pieces = map (dn_piece dn \<circ> ev_id) evs;
          kept = (\<lambda>n. new_run\<lparr>tn_generated := concat (take n pieces),
                              tn_decoded_ids := map ev_id (take n evs),
                              tn_logprobs := (if logprobs then map (event_logprob dn) (take n evs) else [])\<rparr>)
      in case stop_index stops pieces of
           None \<Rightarrow> kept (length evs)
         | Some k \<Rightarrow>
             (let whole = concat (take (Suc k) pieces)
              in stop_run whole (the (matching_stop stops whole)) (kept k)))"

lemma predict_feed:
  "feed (predict_token dn stops logprobs) evs new_run = reference_run dn stops logprobs evs"
proof (induction evs rule: rev_induct)
  case Nil
  show ?case by (simp add: reference_run_def stop_index_def new_run_def)
next
  case (snoc ev evs)
  let ?pieces = "map (dn_piece dn \<circ> ev_id) evs" and ?p = "dn_piece dn (ev_id ev)"
  note idx = stop_index_snoc [of stops ?pieces ?p]
  show ?case
  proof (cases "stop_index stops ?pieces")
    case (Some k)
    then have k: "k < length evs" using stop_index_SomeD(1) by fastforce
    have "reference_run dn stops logprobs (evs @ [ev]) = reference_run dn stops logprobs evs"
      using k idx Some by (simp add: reference_run_def Let_def)
    moreover have "tn_string_stopped (reference_run dn stops logprobs evs)"
      "tn_caller_stop (reference_run dn stops logprobs evs)"
      by (simp_all add: reference_run_def Some stop_run_def Let_def)
    ultimately show ?thesis
      unfolding feed_snoc snoc.IH by (simp add: feed_def predict_token_def)
  next
    case None
    show ?thesis
      unfolding feed_snoc snoc.IH
      using None idx
      by (cases "matching_stop stops (concat ?pieces @ ?p)")
        (simp_all add: reference_run_def Let_def feed_def predict_token_def new_run_def stop_run_def
          take_token_def)
  qed
qed

section \<open>A streamed run\<close>

lemma send_deltas_base:
  assumes "send_deltas callback ds r = (go, r')"
  shows "tn_generated r' = tn_generated r" "tn_decoded_ids r' = tn_decoded_ids r"
    "tn_string_stopped r' = tn_string_stopped r" "tn_caller_stop r' = tn_caller_stop r"
    "tn_caller_cancel r' = tn_caller_cancel r" "tn_callback_aborted r' = tn_callback_aborted r"
    "tn_parser r' = tn_parser r" "tn_logprobs r' = tn_logprobs r"
proof -
  have "tn_generated r' = tn_generated r \<and> tn_decoded_ids r' = tn_decoded_ids r \<and>
    tn_string_stopped r' = tn_string_stopped r \<and> tn_caller_stop r' = tn_caller_stop r \<and>
    tn_caller_cancel r' = tn_caller_cancel r \<and> tn_callback_aborted r' = tn_callback_aborted r \<and>
    tn_parser r' = tn_parser r \<and> tn_logprobs r' = tn_logprobs r"
    using assms
    by (induction callback ds r rule: send_deltas.induct) (auto simp: Let_def split: if_splits)
  then show "tn_generated r' = tn_generated r" "tn_decoded_ids r' = tn_decoded_ids r"
    "tn_string_stopped r' = tn_string_stopped r" "tn_caller_stop r' = tn_caller_stop r"
    "tn_caller_cancel r' = tn_caller_cancel r" "tn_callback_aborted r' = tn_callback_aborted r"
    "tn_parser r' = tn_parser r" "tn_logprobs r' = tn_logprobs r" by simp_all
qed

lemma send_deltas_go:
  assumes "\<And>sent d. callback sent d"
  shows "fst (send_deltas callback ds r)"
  using assms by (induction callback ds r rule: send_deltas.induct) (simp_all add: Let_def)

text \<open>A streamed run next to the run without a stream on the same events.\<close>

definition same_text :: "decode_native \<Rightarrow> string list \<Rightarrow> token_run \<Rightarrow> stream_run \<Rightarrow> bool" where
  "same_text dn stops p r =
     (tn_generated r = tn_generated p \<and> tn_string_stopped r = tn_string_stopped p \<and>
      tn_caller_stop r = tn_caller_stop p \<and> tn_caller_cancel r = tn_caller_cancel p \<and>
      \<not> tn_callback_aborted r \<and>
      tn_decoded_ids r = filter (\<lambda>t. dn_piece dn t \<noteq> []) (tn_decoded_ids p) \<and>
      (tn_string_stopped p \<longrightarrow> tn_caller_stop p) \<and>
      (\<not> tn_string_stopped p \<longrightarrow> matching_stop stops (tn_generated p) = None))"

lemma stream_feed_step:
  assumes "\<And>sent d. callback sent d" "same_text dn stops p r"
  shows "same_text dn stops (feed (predict_token dn stops lp) [ev] p)
     (feed (stream_token dn callback tools stops lp) [ev] r)"
proof (cases "tn_string_stopped p")
  case True
  with assms(2) show ?thesis
    by (simp add: feed_def predict_token_def stream_token_def same_text_def)
next
  case going: False
  let ?piece = "dn_piece dn (ev_id ev)" and ?g = "tn_generated p @ dn_piece dn (ev_id ev)"
  show ?thesis
  proof (cases "?piece = []")
    case True
    with assms(2) going show ?thesis
      by (simp add: feed_def predict_token_def stream_token_def same_text_def Let_def take_token_def)
  next
    case False
    show ?thesis
    proof (cases "matching_stop stops ?g")
      case (Some stop)
      with assms(2) going False show ?thesis
        by (simp add: feed_def predict_token_def stream_token_def same_text_def Let_def stop_run_def)
    next
      case None
      define r1 where "r1 = take_token dn lp ev ?g r"
      obtain u ps where up: "update_parser (dn_parser dn) ?piece True tools (tn_parser r1) = (u, ps)"
        by fastforce
      define ds where "ds = map (with_logprob (if lp then Some (event_logprob dn ev) else None) ?piece
        \<circ> to_delta) (case u of Inl what \<Rightarrow> [] | Inr xs \<Rightarrow> xs)"
      obtain go r2 where sent: "send_deltas callback ds (r1\<lparr>tn_parser := ps\<rparr>) = (go, r2)" by fastforce
      have "go" using send_deltas_go [of callback ds "r1\<lparr>tn_parser := ps\<rparr>"] assms(1) sent by simp
      moreover have "stream_token dn callback tools stops lp ev r = (go, if go then r2 else r2\<lparr>tn_callback_aborted := True\<rparr>)"
        using assms(2) going False None up sent
        by (simp add: stream_token_def same_text_def Let_def r1_def ds_def)
      ultimately have "stream_token dn callback tools stops lp ev r = (True, r2)" by simp
      then show ?thesis
        using assms(2) going False None send_deltas_base [OF sent]
        by (simp add: feed_def predict_token_def same_text_def r1_def take_token_def)
    qed
  qed
qed

lemma stream_feed:
  assumes "\<And>sent d. callback sent d"
  shows "same_text dn stops (feed (predict_token dn stops lp) evs new_run)
     (feed (stream_token dn callback tools stops lp) evs (new_stream_run dn))"
proof (induction evs rule: rev_induct)
  case Nil
  show ?case by (simp add: same_text_def new_run_def new_stream_run_def token_run.defs)
next
  case (snoc ev evs)
  show ?case unfolding feed_snoc by (rule stream_feed_step [OF assms snoc.IH])
qed

section \<open>Tool calls of a stream\<close>

definition calls_of :: "delta list \<Rightarrow> tool_call_delta list" where
  "calls_of ds = concat (map d_tool_calls ds)"

text \<open>The first delta of a tool call names it, the others only add arguments.\<close>

definition announced_once :: "nat \<Rightarrow> tool_call_delta list \<Rightarrow> bool" where
  "announced_once i calls =
     (case filter (\<lambda>c. tc_index c = i) calls of
        [] \<Rightarrow> True
      | h # rest \<Rightarrow> list_all (\<lambda>c. tc_id c = [] \<and> tc_function_name c = [] \<and>
                                  tc_function_arguments c \<noteq> []) rest)"

lemma calls_of_simps [simp]:
  "calls_of [] = []" "calls_of (ds @ es) = calls_of ds @ calls_of es"
  "calls_of (d # ds) = d_tool_calls d @ calls_of ds"
  by (simp_all add: calls_of_def)

lemma announced_prefix:
  assumes "prefix xs ys" "announced_once i ys"
  shows "announced_once i xs"
  using assms by (auto simp: announced_once_def prefix_def split: list.splits)

lemma calls_of_diffs:
  "filter (\<lambda>c. tc_index c = i) (calls_of (map to_delta D)) = concat (map (d_tool_calls \<circ> to_delta) (of_call i D))"
  by (induction D) (auto simp: to_delta_def of_call_def split: option.splits)

lemma header_first_calls:
  assumes "header_first i D"
  shows "announced_once i (calls_of (map to_delta D))"
proof (cases "of_call i D")
  case Nil
  then show ?thesis by (simp add: announced_once_def calls_of_diffs)
next
  case (Cons h rest)
  have idx: "d \<in> set (of_call i D) \<Longrightarrow> md_index d = Some i" for d by (auto simp: of_call_def)
  have quiet: "list_all (\<lambda>d. md_name d = [] \<and> md_id d = [] \<and> md_arguments d \<noteq> []) rest"
    using assms Cons by (simp add: header_first_def)
  have "list_all (\<lambda>c. tc_id c = [] \<and> tc_function_name c = [] \<and> tc_function_arguments c \<noteq> [])
      (concat (map (d_tool_calls \<circ> to_delta) rest))"
    using quiet idx Cons by (auto simp: list_all_iff to_delta_def)
  moreover have "d_tool_calls (to_delta h) \<noteq> []" "tl (d_tool_calls (to_delta h)) = []"
    using idx [of h] Cons by (simp_all add: to_delta_def)
  ultimately show ?thesis
    using Cons by (cases "d_tool_calls (to_delta h)") (auto simp: announced_once_def calls_of_diffs)
qed

lemma calls_of_logprobs [simp]: "calls_of (map (with_logprob lp piece \<circ> f) ds) = calls_of (map f ds)"
  by (induction ds) (auto simp: with_logprob_def split: option.splits)

lemma send_deltas_calls:
  assumes "send_deltas callback ds r = (go, r')"
  shows "prefix (calls_of (tn_sent r')) (calls_of (tn_sent r) @ calls_of ds)"
    "go \<Longrightarrow> calls_of (tn_sent r') = calls_of (tn_sent r) @ calls_of ds"
    "go \<Longrightarrow> tn_tool_emitted r' = (tn_tool_emitted r \<or> calls_of ds \<noteq> [])"
proof -
  have "prefix (calls_of (tn_sent r')) (calls_of (tn_sent r) @ calls_of ds) \<and>
    (go \<longrightarrow> calls_of (tn_sent r') = calls_of (tn_sent r) @ calls_of ds \<and>
      tn_tool_emitted r' = (tn_tool_emitted r \<or> calls_of ds \<noteq> []))"
    using assms
  proof (induction callback ds r rule: send_deltas.induct)
    case (2 callback d rest r)
    show ?case
    proof (cases "empty_delta d")
      case True
      with 2 show ?thesis by (simp add: empty_delta_def)
    next
      case False
      with 2 show ?thesis by (cases "callback (tn_sent r) d") (auto simp: Let_def split: if_splits)
    qed
  qed simp
  then show "prefix (calls_of (tn_sent r')) (calls_of (tn_sent r) @ calls_of ds)"
    "go \<Longrightarrow> calls_of (tn_sent r') = calls_of (tn_sent r) @ calls_of ds"
    "go \<Longrightarrow> tn_tool_emitted r' = (tn_tool_emitted r \<or> calls_of ds \<noteq> [])" by blast+
qed

definition stream_calls :: "stream_run \<Rightarrow> bool" where
  "stream_calls r = (\<exists>D. sent_inv (D, ps_sent_names (tn_parser r)) \<and>
     prefix (calls_of (tn_sent r)) (calls_of (map to_delta D)) \<and>
     (\<not> tn_callback_aborted r \<longrightarrow> calls_of (tn_sent r) = calls_of (map to_delta D) \<and>
        tn_tool_emitted r = (calls_of (tn_sent r) \<noteq> [])))"

lemma stream_calls_announced:
  assumes "stream_calls r"
  shows "announced_once i (calls_of (tn_sent r))"
proof -
  obtain D where "sent_inv (D, ps_sent_names (tn_parser r))"
    and p: "prefix (calls_of (tn_sent r)) (calls_of (map to_delta D))"
    using assms unfolding stream_calls_def by blast
  then have "header_first i D" by (simp add: sent_inv_def)
  from announced_prefix [OF p header_first_calls [OF this]] show ?thesis .
qed

lemma stream_calls_cong:
  "tn_sent r' = tn_sent r \<Longrightarrow> tn_parser r' = tn_parser r \<Longrightarrow> tn_tool_emitted r' = tn_tool_emitted r \<Longrightarrow>
     tn_callback_aborted r' = tn_callback_aborted r \<Longrightarrow> stream_calls r' = stream_calls r"
  by (simp add: stream_calls_def)

text \<open>An update of the parser whose deltas were sent.\<close>

lemma stream_calls_update:
  assumes "stream_calls r" "\<not> tn_callback_aborted r"
    and "update_parser P s is_partial True (tn_parser r) = (u, ps)"
    and "calls_of ds = calls_of (map to_delta (case u of Inl what \<Rightarrow> [] | Inr xs \<Rightarrow> xs))"
    and "send_deltas callback ds (r\<lparr>tn_parser := ps\<rparr>) = (go, r')"
  shows "go \<Longrightarrow> stream_calls r'"
    "stream_calls (r'\<lparr>tn_callback_aborted := True\<rparr>)"
proof -
  obtain D where D: "sent_inv (D, ps_sent_names (tn_parser r))"
    "calls_of (tn_sent r) = calls_of (map to_delta D)" "tn_tool_emitted r = (calls_of (tn_sent r) \<noteq> [])"
    using assms(1,2) unfolding stream_calls_def by blast
  let ?E = "D @ (case u of Inl what \<Rightarrow> [] | Inr xs \<Rightarrow> xs)"
  have inv: "sent_inv (?E, ps_sent_names ps)" by (rule update_parser_inv [OF assms(3) D(1)])
  note base = send_deltas_base [OF assms(5)] and sent = send_deltas_calls [OF assms(5)]
  show "go \<Longrightarrow> stream_calls r'"
    unfolding stream_calls_def
    using inv base(7) sent D assms(4) by (intro exI [of _ ?E]) simp
  show "stream_calls (r'\<lparr>tn_callback_aborted := True\<rparr>)"
    unfolding stream_calls_def
    using inv base(7) sent(1) D assms(4) by (intro exI [of _ ?E]) simp
qed

lemma stream_token_calls:
  assumes "stream_calls r"
  shows "stream_calls (feed (stream_token dn callback True stops lp) [ev] r)"
proof -
  have "stream_calls (snd (stream_token dn callback True stops lp ev r))"
  proof (cases "tn_callback_aborted r \<or> tn_string_stopped r \<or> dn_piece dn (ev_id ev) = [] \<or>
      matching_stop stops (tn_generated r @ dn_piece dn (ev_id ev)) \<noteq> None")
    case True
    with assms show ?thesis
      by (auto simp: stream_token_def Let_def stop_run_def stream_calls_def split: option.splits)
  next
    case False
    let ?piece = "dn_piece dn (ev_id ev)"
    define r1 where "r1 = take_token dn lp ev (tn_generated r @ ?piece) r"
    obtain u ps where up: "update_parser (dn_parser dn) ?piece True True (tn_parser r1) = (u, ps)"
      by fastforce
    define ds where "ds = map (with_logprob (if lp then Some (event_logprob dn ev) else None) ?piece
      \<circ> to_delta) (case u of Inl what \<Rightarrow> [] | Inr xs \<Rightarrow> xs)"
    obtain go r2 where sent: "send_deltas callback ds (r1\<lparr>tn_parser := ps\<rparr>) = (go, r2)" by fastforce
    have "stream_token dn callback True stops lp ev r =
        (go, if go then r2 else r2\<lparr>tn_callback_aborted := True\<rparr>)"
      using False up sent by (simp add: stream_token_def Let_def r1_def ds_def)
    moreover have r1: "stream_calls r1" "\<not> tn_callback_aborted r1"
      using assms False by (simp_all add: r1_def take_token_def stream_calls_def)
    have ds: "calls_of ds = calls_of (map to_delta (case u of Inl what \<Rightarrow> [] | Inr xs \<Rightarrow> xs))"
      by (simp add: ds_def)
    ultimately show ?thesis
      using stream_calls_update [OF r1 up ds sent] by simp
  qed
  then show ?thesis
    by (cases "stream_token dn callback True stops lp ev r")
      (simp add: feed_def stream_calls_def)
qed

lemma stream_feed_calls: "stream_calls (feed (stream_token dn callback True stops lp) evs (new_stream_run dn))"
proof (induction evs rule: rev_induct)
  case Nil
  show ?case
    by (auto simp: stream_calls_def new_stream_run_def token_run.defs StreamingChatParserState_def
        sent_inv_def header_first_def intro!: exI [of _ "[]"])
next
  case (snoc ev evs)
  then show ?case unfolding feed_snoc by (rule stream_token_calls)
qed

lemma fallback_announced: "announced_once i (calls_of (fallback_deltas calls))"
proof -
  have "filter (\<lambda>c. tc_index c = i) (calls_of (map (\<lambda>(i, c). \<lparr>d_content = [], d_reasoning_text = [],
      d_tool_calls = [\<lparr>tc_index = i, tc_id = cl_id c, tc_type = ''function'',
        tc_function_name = cl_function_name c, tc_function_arguments = cl_function_arguments c\<rparr>],
      d_logprobs = []\<rparr>) (List.enumerate n calls))) = [] \<or>
    (\<exists>h. filter (\<lambda>c. tc_index c = i) (calls_of (map (\<lambda>(i, c). \<lparr>d_content = [], d_reasoning_text = [],
      d_tool_calls = [\<lparr>tc_index = i, tc_id = cl_id c, tc_type = ''function'',
        tc_function_name = cl_function_name c, tc_function_arguments = cl_function_arguments c\<rparr>],
      d_logprobs = []\<rparr>) (List.enumerate n calls))) = [h] \<and> n \<le> i)" for n
    by (induction calls arbitrary: n) (fastforce dest: Suc_leD)+
  from this [of 0] show ?thesis
    by (auto simp: announced_once_def fallback_deltas_def)
qed

lemma send_fallback_calls:
  assumes "stream_calls r" "\<not> tn_callback_aborted r"
  shows "announced_once i (calls_of (tn_sent (snd (send_fallback dn callback used out r))))"
proof (cases "used \<and> ir_tool_calls out \<noteq> [] \<and> \<not> tn_tool_emitted r")
  case True
  obtain go r' where sent: "send_deltas callback (fallback_deltas (ir_tool_calls out)) r = (go, r')"
    by fastforce
  have "calls_of (tn_sent r) = []" using assms True unfolding stream_calls_def by blast
  with send_deltas_calls(1) [OF sent]
  have "prefix (calls_of (tn_sent r')) (calls_of (fallback_deltas (ir_tool_calls out)))" by simp
  from announced_prefix [OF this fallback_announced] True sent show ?thesis
    by (simp add: send_fallback_def)
next
  case False
  with stream_calls_announced [OF assms(1)] show ?thesis by (auto simp: send_fallback_def)
qed

lemma finish_stream_calls:
  assumes "stream_calls r" "su_parse_tool_calls s"
  shows "announced_once i (calls_of (tn_sent (snd (finish_stream dn callback lp s k r))))"
proof (cases "tn_callback_aborted r")
  case True
  with stream_calls_announced [OF assms(1)] show ?thesis by (simp add: finish_stream_def Let_def)
next
  case False
  obtain u ps where up: "update_parser (dn_parser dn) [] False True (tn_parser r) = (u, ps)" by fastforce
  show ?thesis
  proof (cases u)
    case (Inl what)
    have "send_deltas callback [] (r\<lparr>tn_parser := ps\<rparr>) = (True, r\<lparr>tn_parser := ps\<rparr>)" by simp
    from stream_calls_update(1) [OF assms(1) False up _ this] Inl
    have "stream_calls (r\<lparr>tn_parser := ps\<rparr>)" by simp
    from send_fallback_calls [OF this] False assms(2) up Inl show ?thesis
      by (simp add: finish_stream_def Let_def)
  next
    case (Inr diffs)
    obtain go r2 where sent: "send_deltas callback (map to_delta diffs) (r\<lparr>tn_parser := ps\<rparr>) = (go, r2)"
      by fastforce
    note calls = stream_calls_update [OF assms(1) False up _ sent]
    show ?thesis
    proof (cases go)
      case True
      with calls(1) Inr have "stream_calls r2" by simp
      moreover have "\<not> tn_callback_aborted r2" using send_deltas_base(6) [OF sent] False by simp
      ultimately show ?thesis
        using False assms(2) up Inr sent True send_fallback_calls
        by (auto simp: finish_stream_def Let_def split: sum.splits)
    next
      case stopped: False
      have "announced_once i (calls_of (tn_sent (r2\<lparr>tn_callback_aborted := True\<rparr>)))"
        using calls(2) Inr by (intro stream_calls_announced) simp
      with False assms(2) up Inr sent stopped show ?thesis by (simp add: finish_stream_def Let_def)
    qed
  qed
qed

section \<open>Slots\<close>

lemma save_slot_simps [simp]:
  "sl_busy (save_slot s k r slot) = sl_busy slot"
  "sl_sequence_id (save_slot s k r slot) = sl_sequence_id slot"
  "sl_sequence_bound (save_slot s k r slot) = sl_sequence_bound slot"
  by (simp_all add: save_slot_def forget_cache_def Let_def)

lemma save_run_inv:
  assumes "llama_inv m" "slot_id < length (lm_slots m)"
  shows "llama_inv (save_run slot_id s k r m)"
    "llama_slot_busy i (save_run slot_id s k r m) = llama_slot_busy i m"
    "lm_info (save_run slot_id s k r m) = lm_info m" "lm_loaded (save_run slot_id s k r m) = lm_loaded m"
proof -
  let ?ss = "(lm_slots m)[slot_id := save_slot s k r (lm_slots m ! slot_id)]"
  have "map sl_busy ?ss = map sl_busy (lm_slots m)"
    by (rule nth_equalityI) (use assms(2) in \<open>simp_all add: nth_list_update\<close>)
  note flags = this
  have ex: "list_ex sl_busy xs = (True \<in> set (map sl_busy xs))" for xs
    by (induction xs) auto
  have busy: "list_ex sl_busy ?ss = list_ex sl_busy (lm_slots m)"
    unfolding ex flags ..
  show "llama_inv (save_run slot_id s k r m)"
    unfolding save_run_def using assms busy
    by (intro slots_inv) (auto simp: llama_inv_def any_busy_def numbered_update)
  show "llama_slot_busy i (save_run slot_id s k r m) = llama_slot_busy i m"
    using assms(2)
    by (cases "nat i = slot_id") (auto simp: save_run_def llama_slot_busy_def slot_in_range_def)
qed (simp_all add: save_run_def)

end
