(* ===== verification/Llama_Safety.thy ===== *)
theory Llama_Safety
  imports Llama_Decoding_Facts
begin

text \<open>
  The life of a llama.cpp model as a relation: whatever the coordinator, the requests and the
  scheduler thread do, in any order and interleaving, is a \<open>llama_step\<close>. A request takes two steps,
  the binding of its slot and, when its last event has been drained, the record of what the cache
  holds; anything may happen in between.
\<close>

inductive llama_step ::
  "'d llama_native \<Rightarrow> prompt_native \<Rightarrow> llama_model \<Rightarrow> llama_model \<Rightarrow> bool"
  for N :: "'d llama_native" and pn :: prompt_native
where
  load: "llama_load N ctl m = (r, m') \<Longrightarrow> llama_step N pn m m'"
| unload: "llama_unload m = (r, m') \<Longrightarrow> llama_step N pn m m'"
| resize: "llama_resize_slots N k m = (r, m') \<Longrightarrow> llama_step N pn m m'"
| ensure: "llama_ensure_request_capacity N ctl d m = (r, m') \<Longrightarrow> llama_step N pn m m'"
| reclaim: "llama_reclaim_idle_context N ctl extra m = (r, m') \<Longrightarrow> llama_step N pn m m'"
| acquire: "llama_acquire_slot m = (r, m') \<Longrightarrow> llama_step N pn m m'"
| release: "llama_release_slot i m = (r, m') \<Longrightarrow> llama_step N pn m m'"
| reset: "llama_reset_all_slots m = (removed, m') \<Longrightarrow> llama_step N pn m m'"
| request: "begin_predict pn i req m = Some (r, m') \<Longrightarrow> llama_step N pn m m'"
| finished: "slot_in_range i m \<Longrightarrow> m' = save_run (nat i) s k (run :: token_run) m \<Longrightarrow> llama_step N pn m m'"
| failed: "m' = scheduler_failed m \<Longrightarrow> llama_step N pn m m'"

inductive_cases llama_stepE: "llama_step N pn m m'"

lemma begin_predict_cases:
  assumes "begin_predict pn i req m = Some (r, m')"
  obtains (refused) "m' = m" "\<not> is_ok r"
    | (bound) "prepare_inference pn (nat i) req m = (r, m')" "nat i < length (lm_slots m)"
        "lm_loaded m" "llama_slot_busy i m" "is_ok r \<Longrightarrow> lm_scheduler m' \<noteq> None"
proof (cases "check_slot i m")
  case (Inl e)
  with assms have "m' = m" "r = Inl e" by (simp_all add: begin_predict_def)
  with that(1) show ?thesis by simp
next
  case (Inr u)
  then have g: "nat i < length (lm_slots m)" "lm_loaded m" "llama_slot_busy i m"
    by (auto simp: check_slot_def Err_def slot_in_range_def llama_slot_busy_def nat_less_iff
        split: if_splits)
  obtain r1 m1 where p: "prepare_inference pn (nat i) req m = (r1, m1)" by fastforce
  with assms Inr have "r1 = r" "m1 = m'" "is_ok r \<Longrightarrow> lm_scheduler m' \<noteq> None"
    by (auto simp: begin_predict_def split: sum.splits if_splits)
  with p g that(2) show ?thesis by blast
qed

lemma begin_predict_inv:
  assumes "begin_predict pn i req m = Some (r, m')" "llama_inv m"
  shows "llama_inv m'" "llama_slot_busy j m' = llama_slot_busy j m" "lm_loaded m' = lm_loaded m"
    "length (lm_slots m') = length (lm_slots m)"
proof -
  have "llama_inv m' \<and> llama_slot_busy j m' = llama_slot_busy j m \<and> lm_loaded m' = lm_loaded m \<and>
    length (lm_slots m') = length (lm_slots m)"
    using assms(1)
  proof (cases rule: begin_predict_cases)
    case bound
    have "length (lm_slots m') = length (lm_slots m)"
      using bound(1) by (cases rule: prepare_inference_cases) simp_all
    with prepare_inference_inv [OF bound(1) assms(2) bound(2)] show ?thesis by simp
  qed (use assms(2) in simp)
  then show "llama_inv m'" "llama_slot_busy j m' = llama_slot_busy j m" "lm_loaded m' = lm_loaded m"
    "length (lm_slots m') = length (lm_slots m)" by auto
qed

lemma LlamaCppModel_inv [simp]: "llama_inv (LlamaCppModel N info cfg)"
  by (simp add: llama_inv_def LlamaCppModel_def resources_def numbered_def bare_def no_context_def
      any_busy_def)

lemma llama_step_inv:
  assumes "llama_step N pn m m'" "llama_inv m"
  shows "llama_inv m'"
  using assms(1)
proof cases
  case (finished i s k run)
  from finished(1) have "nat i < length (lm_slots m)" by (simp add: slot_in_range_def nat_less_iff)
  then show ?thesis unfolding finished(2) by (rule save_run_inv(1) [OF assms(2)])
qed (use assms(2) in \<open>auto dest: llama_load_outcome(2) llama_unload_outcome(4) llama_resize_outcome(1)
  llama_ensure_outcome(2) llama_reclaim_outcome(3) acquire_inv release_inv reset_inv
  begin_predict_inv(1) intro: scheduler_failed_inv\<close>)

lemma llama_steps_inv:
  assumes "(llama_step N pn)\<^sup>*\<^sup>* m m'" "llama_inv m"
  shows "llama_inv m'"
  using assms by (induction rule: rtranclp_induct) (auto intro: llama_step_inv)

text \<open>What a request on a busy slot leaves of the others.\<close>

lemma predict_inv:
  assumes "predict_cancellable dn pn i req progress cancel m = Some (r, m')" "llama_inv m"
  shows "llama_inv m'" "llama_slot_busy j m' = llama_slot_busy j m"
proof -
  have "llama_inv m' \<and> llama_slot_busy j m' = llama_slot_busy j m"
  proof (cases "cancel = Some True")
    case True
    with assms show ?thesis by (simp add: predict_cancellable_def)
  next
    case False
    then obtain q m1 where b: "begin_predict pn i req m = Some (q, m1)"
      using assms(1) by (auto simp: predict_cancellable_def split: option.splits)
    note inv = begin_predict_inv [OF b assms(2)]
    show ?thesis
    proof (cases "m' = m1")
      case True
      with inv show ?thesis by simp
    next
      case saved: False
      then obtain s where q: "q = Inr s"
        using assms(1) False b by (cases q) (auto simp: predict_cancellable_def)
      then obtain k run where m': "m' = save_run (nat i) s k (run :: token_run) m1"
        using assms(1) False b saved
        by (auto simp: predict_cancellable_def Let_def split: option.splits sum.splits)
      have "nat i < length (lm_slots m1)"
        using b q inv(4) by (cases rule: begin_predict_cases) simp_all
      then show ?thesis
        unfolding m' save_run_inv(2) [OF inv(1) \<open>nat i < length (lm_slots m1)\<close>]
        using inv(2) by (simp add: save_run_inv(1) [OF inv(1)])
    qed
  qed
  then show "llama_inv m'" "llama_slot_busy j m' = llama_slot_busy j m" by auto
qed

end
