(* ===== verification/Example_Llama.thy ===== *)
theory Example_Llama
  imports Llama_Safety
begin

text \<open>
  A native library small enough to load a chat model on, serve a request and stream its answer: the
  context has the size asked for, a token is a character, the template is the text of the last
  message, the scheduler pushes the tokens of \<open>''ok''\<close> and closes the channel.
\<close>

definition exl_probes :: "unit Context_Pool.llama" where
  "exl_probes =
     \<lparr>ll_cancelled = (\<lambda>k. False), ll_expired = (\<lambda>k. False), ll_model_loads = True, ll_cpu = None,
      ll_memory = (\<lambda>k d. \<lparr>am_free = 4096, am_total = 4096\<rparr>), ll_target = (\<lambda>k n s. Some []),
      ll_draft = (\<lambda>k n s. Some []), ll_n_ctx = (\<lambda>k n s. n), ll_max_parallel_sequences = 64\<rparr>"

definition exl_native :: "unit llama_native" where
  "exl_native =
     \<lparr>nv_absolute = (\<lambda>p. p), nv_path_exists = (\<lambda>t p. True), nv_load_model = (\<lambda>t p mp. True),
      nv_vocab = (\<lambda>t. True), nv_chat_templates = (\<lambda>t. True), nv_mtmd = (\<lambda>t. None),
      nv_init_context = (\<lambda>t cp. Alloc (cp_n_ctx cp)), nv_ctx_other_is_target = (\<lambda>t. False),
      nv_max_parallel_sequences = 64, nv_seq_rm = (\<lambda>t. SEQ_RM_PART),
      nv_speculative = (\<lambda>t n s. AllocNull), nv_probes = (\<lambda>t mp cp. exl_probes),
      nv_target_memory = (\<lambda>t. []), nv_draft_memory = (\<lambda>t. []),
      nv_recovery_expired = (\<lambda>t k. False)\<rparr>"

definition exl_info :: model_info where
  "exl_info = default_model_info\<lparr>mi_name := ''chat'', mi_n_slots := 2, mi_context_size := 512,
     mi_gguf_path := ''chat.gguf''\<rparr>"

definition exl_new :: llama_model where
  "exl_new = LlamaCppModel exl_native exl_info LlamaCppConfig"

definition exl_loaded :: llama_model where
  "exl_loaded = snd (llama_load exl_native no_control exl_new)"

definition exl_serving :: llama_model where
  "exl_serving = snd (llama_acquire_slot exl_loaded)"

definition exl_prompt :: prompt_native where
  "exl_prompt =
     \<lparr>pn_supports_thinking = False, pn_parallel_tool_calls = False, pn_empty_object = (\<lambda>s. False),
      pn_apply_template = (\<lambda>ti. Inr \<lparr>ch_prompt = cm_content (last (ti_messages ti)),
        ch_generation_prompt = [], ch_additional_stops = []\<rparr>),
      pn_tokenize = (\<lambda>s n. (int (length s), map (\<lambda>c. int (byte_of c)) s)),
      pn_tokenize_stop = (\<lambda>s. (0, 0)), pn_bitmap = (\<lambda>b. None),
      pn_mtmd_tokenize = (\<lambda>s b. (1, [], 0)), pn_n_ctx_seq = 512, pn_recurrent = False,
      pn_sampler_init = Some 1,
      pn_reasoning = \<lparr>rp_supported = False, rp_default_effort = [], rp_efforts = [],
        rp_aliases = [], rp_none_disables = False\<rparr>,
      pn_reasoning_format = ''none''\<rparr>"

definition exl_request :: generation_request where
  "exl_request = GenerationRequest\<lparr>gr_messages := [\<lparr>ms_role = UserRole,
     ms_content = [TextContent ''hello''], ms_tool_calls = [], ms_reasoning = [],
     ms_tool_call_id = [], ms_name = []\<rparr>], gr_max_output_tokens := 4\<rparr>"

definition exl_event :: "token \<Rightarrow> token_event" where
  "exl_event t = TokenEvent\<lparr>ev_id := t\<rparr>"

definition exl_parser :: chat_parser where
  "exl_parser =
     \<lparr>cp_parse = (\<lambda>s partial. Inr \<lparr>pm_content = s, pm_reasoning_content = [], pm_tool_calls = []\<rparr>),
      cp_is_empty = (\<lambda>m. pm_content m = []), cp_set_ids = (\<lambda>ids m. (ids, m)),
      cp_diffs = (\<lambda>m m'. [\<lparr>md_content_delta = drop (length (pm_content m)) (pm_content m'),
        md_reasoning_delta = [], md_index = None, md_id = [], md_name = [], md_arguments = []\<rparr>]),
      cp_echo = False\<rparr>"

definition exl_decode :: decode_native where
  "exl_decode =
     \<lparr>dn_to_piece = (\<lambda>t n. (1, [char_of (nat t)])), dn_parser = exl_parser, dn_final_ids = (\<lambda>m. m),
      dn_parse_json = (\<lambda>s. None), dn_dump = (\<lambda>j. []), dn_tokenize_output = (\<lambda>s. None),
      dn_scheduler = (\<lambda>k. k\<lparr>tk_initialized := True, tk_generation_started := True,
        tk_out_queue := [exl_event 111, exl_event 107, done_event]\<rparr>)\<rparr>"

end
