(* ===== verification/Llama_Properties.thy ===== *)
theory Llama_Properties
  imports Example_Llama Coordinator_Steps
begin

text \<open>
  The properties of the llama.cpp backend, each with a witness, and the lemmas that show where the
  code does not do what it means to.
\<close>

section \<open>The runtime\<close>

text \<open>
  \<^bold>\<open>C11.\<close> The llama.cpp runtime keeps the contract of a backend, from its construction on: everything
  that is proved of the coordinator holds for models it runs.
\<close>

theorem llama_keeps_backend_contract:
  "backend_contract (llama_vt N reads) llama_inv \<and> llama_inv (LlamaCppModel N info cfg)"
  by (simp add: llama.backend_contract_axioms)

text \<open>
  \<^bold>\<open>C12.\<close> Whatever operations, requests and failures of the scheduler thread a model goes through, in
  any order: its native handles exist exactly while it is loaded, the slots stand for the sequences
  \<open>0\<close> to \<open>n - 1\<close>, one each, a slot in use has a context behind it, nothing is left of a context that
  is gone, and the scheduler works with the capacity of the context there is.
\<close>

theorem llama_model_stays_consistent:
  assumes "(llama_step N pn)\<^sup>*\<^sup>* (LlamaCppModel N info cfg) m"
  shows "lm_model m = lm_loaded m \<and> (lm_loaded m \<longrightarrow> lm_vocab m) \<and>
     (lm_shared_ctx m \<noteq> None \<longrightarrow> lm_loaded m) \<and>
     mset (map sl_sequence_id (lm_slots m)) = mset [0..int (length (lm_slots m)) - 1] \<and>
     (lm_shared_ctx m = None \<longrightarrow>
        \<not> any_busy m \<and> lm_scheduler m = None \<and> lm_draft_ctx m = None \<and> lm_speculative m = None) \<and>
     (\<forall>h. lm_scheduler m = Some h \<longrightarrow> is_chat m \<and>
        (\<exists>n. lm_shared_ctx m = Some n \<and> sc_context_capacity (sh_config h) = int_of_uint32 n))"
proof -
  have inv: "llama_inv m" by (rule llama_steps_inv [OF assms LlamaCppModel_inv])
  have "lm_model m = lm_loaded m \<and> (lm_loaded m \<longrightarrow> lm_vocab m) \<and> (lm_shared_ctx m \<noteq> None \<longrightarrow> lm_loaded m) \<and>
    mset (map sl_sequence_id (lm_slots m)) = mset [0..int (length (lm_slots m)) - 1] \<and>
    (lm_shared_ctx m = None \<longrightarrow>
        \<not> any_busy m \<and> lm_scheduler m = None \<and> lm_draft_ctx m = None \<and> lm_speculative m = None)"
    using inv by (cases "lm_loaded m")
      (auto simp: llama_inv_def resources_def numbered_def bare_def no_context_def)
  moreover have "is_chat m \<and>
      (\<exists>n. lm_shared_ctx m = Some n \<and> sc_context_capacity (sh_config h) = int_of_uint32 n)"
    if h: "lm_scheduler m = Some h" for h
  proof -
    have "lm_slots m \<noteq> []" "lm_shared_ctx m \<noteq> None"
      using inv h by (auto simp: llama_inv_def bare_def split: if_splits)
    then have "counters_fit m" "scheduler_fits m" using inv by (simp_all add: llama_inv_def)
    with h show ?thesis by (auto simp: counters_fit_def scheduler_fits_def split: option.splits)
  qed
  ultimately show ?thesis by blast
qed

lemma exl_reached: "(llama_step exl_native exl_prompt)\<^sup>*\<^sup>* exl_new exl_serving"
proof -
  have "llama_step exl_native exl_prompt exl_new exl_loaded"
    unfolding exl_loaded_def by (rule llama_step.load [OF prod.collapse [symmetric]])
  moreover have "llama_step exl_native exl_prompt exl_loaded exl_serving"
    unfolding exl_serving_def by (rule llama_step.acquire [OF prod.collapse [symmetric]])
  ultimately show ?thesis by (rule converse_rtranclp_into_rtranclp [OF _ r_into_rtranclp])
qed

theorem llama_model_stays_consistent_witness:
  "lm_model exl_serving = lm_loaded exl_serving \<and> lm_loaded exl_serving \<and>
     mset (map sl_sequence_id (lm_slots exl_serving)) = mset [0, 1]"
proof -
  have "lm_loaded exl_serving \<and> length (lm_slots exl_serving) = 2" by code_simp
  with llama_model_stays_consistent [OF exl_reached [unfolded exl_new_def]] show ?thesis
    by (simp add: upto_rec1)
qed

text \<open>
  \<^bold>\<open>C13.\<close> A load that fails leaves no native handle behind, whatever step it failed at and whether it
  failed, was cancelled or ran out of time; a load that succeeds has everything a request needs.
\<close>

theorem load_is_all_or_nothing:
  assumes "llama_load N ctl m = (r, m')" "llama_inv m" "\<not> lm_loaded m"
  shows "(\<not> is_ok r \<longrightarrow> \<not> lm_loaded m' \<and> \<not> lm_model m' \<and> \<not> lm_mtmd m' \<and> \<not> lm_chat_templates m' \<and>
       lm_shared_ctx m' = None \<and> lm_draft_ctx m' = None \<and> lm_speculative m' = None \<and>
       lm_scheduler m' = None \<and> lm_slots m' = []) \<and>
     (is_ok r \<longrightarrow> lm_loaded m' \<and> lm_shared_ctx m' \<noteq> None \<and> lm_slots m' \<noteq> [] \<and> \<not> any_busy m' \<and>
       scheduler_ready m' \<and> (cf_mtp_enabled (lm_cfg m') \<longrightarrow> lm_speculative m' \<noteq> None))"
proof -
  note o = llama_load_outcome [OF assms(1,2)]
  have "lm_loaded m' \<and> lm_shared_ctx m' \<noteq> None \<and> lm_slots m' \<noteq> [] \<and> \<not> any_busy m' \<and>
       scheduler_ready m' \<and> (cf_mtp_enabled (lm_cfg m') \<longrightarrow> lm_speculative m' \<noteq> None)" if "is_ok r"
  proof -
    note ready = o(4) [OF assms(3) that]
    have "1 \<le> lm_sequence_capacity m'" "lm_sequence_capacity m' = int (length (lm_slots m'))"
      using ready by (simp_all add: ready_context_def counters_fit_def)
    then have "lm_slots m' \<noteq> []" by auto
    with ready ready_idle [OF ready] o(3) that show ?thesis
      by (simp add: ready_context_def has_context_def)
  qed
  with o(2,3) show ?thesis by (auto simp: llama_inv_def resources_def bare_def no_context_def)
qed

theorem load_is_all_or_nothing_witness:
  "lm_shared_ctx exl_loaded \<noteq> None \<and> lm_slots exl_loaded \<noteq> [] \<and> scheduler_ready exl_loaded \<and>
     (let (r, m') = llama_load (exl_native\<lparr>nv_chat_templates := \<lambda>t. False\<rparr>) no_control exl_new
      in \<not> is_ok r \<and> \<not> lm_model m')"
proof -
  have new: "llama_inv exl_new" "\<not> lm_loaded exl_new" by (simp_all add: exl_new_def) (simp add: LlamaCppModel_def)
  have ok: "is_ok (fst (llama_load exl_native no_control exl_new))" by code_simp
  have fails: "\<not> is_ok (fst (llama_load (exl_native\<lparr>nv_chat_templates := \<lambda>t. False\<rparr>) no_control exl_new))"
    by code_simp
  from load_is_all_or_nothing [OF prod.collapse [symmetric] new, of exl_native no_control] ok
    load_is_all_or_nothing [OF prod.collapse [symmetric] new,
      of "exl_native\<lparr>nv_chat_templates := \<lambda>t. False\<rparr>" no_control] fails
  show ?thesis by (simp add: exl_loaded_def case_prod_unfold)
qed

text \<open>
  \<^bold>\<open>C14.\<close> Preparing the capacity of a request: on success the context has the positions and the
  sequences the request demands. A context with a slot in use is never touched, and no call, not even
  one that fails, loses a slot in use or unloads the model.
\<close>

theorem ensured_capacity_is_there:
  assumes "llama_ensure_request_capacity N ctl d m = (r, m')" "llama_inv m"
  shows "(is_ok r \<longrightarrow> (\<exists>n. lm_shared_ctx m' = Some n \<and> requested_capacity d m' \<le> int_of_uint32 n \<and>
       requested_sequences d \<le> int (length (lm_slots m')))) \<and>
     (any_busy m \<longrightarrow> lm_shared_ctx m' = lm_shared_ctx m \<and> lm_slots m' = lm_slots m) \<and>
     lm_loaded m' = lm_loaded m \<and> (\<forall>s. llama_slot_busy s m' = llama_slot_busy s m)"
proof -
  note o = llama_ensure_outcome [OF assms]
  have "lm_shared_ctx m' = lm_shared_ctx m \<and> lm_slots m' = lm_slots m" if "any_busy m"
    using assms(1)
  proof (cases rule: ensure_outcome_cases)
    case same
    with untouched_same [OF same(1)] show ?thesis by simp
  qed (use that in simp)
  with o(3,4) o(5) show ?thesis by (auto simp: demand_met_def split: option.splits)
qed

definition exl_demand :: request_demand where
  "exl_demand = \<lparr>request_demand.prompt_positions = 5, output_tokens = 4, required_context = 10,
     required_sequences = 1, aggregate_context = 0, aggregate_sequences = 0\<rparr>"

theorem ensured_capacity_is_there_witness:
  "(\<exists>n. lm_shared_ctx (snd (llama_ensure_request_capacity exl_native no_control exl_demand exl_serving)) = Some n
      \<and> 10 \<le> int_of_uint32 n) \<and>
     llama_slot_busy 0 (snd (llama_ensure_request_capacity exl_native no_control exl_demand exl_serving))"
proof -
  let ?r = "llama_ensure_request_capacity exl_native no_control exl_demand exl_serving"
  have inv: "llama_inv exl_serving"
    by (rule llama_steps_inv [OF exl_reached]) (simp add: exl_new_def)
  have "is_ok (fst ?r)" "requested_capacity exl_demand (snd ?r) = 10" "llama_slot_busy 0 exl_serving"
    by code_simp+
  with ensured_capacity_is_there [OF prod.collapse [symmetric] inv] show ?thesis by metis
qed

section \<open>Where the code departs from its purpose\<close>

text \<open>
  A load that fails after the context was allocated, here because the speculative decoder does not
  start for one sequence, leaves its number of sequences behind. That number takes precedence over the
  number of slots: after a failed resize to one slot the load that should restore the two slots asks
  for one sequence again.
\<close>

definition exl_two_only :: "unit llama_native" where
  "exl_two_only = exl_native\<lparr>nv_speculative := \<lambda>t n s. if s = 1 then AllocNull else Alloc 2\<rparr>"

definition exl_mtp :: "int \<Rightarrow> llama_model" where
  "exl_mtp n = LlamaCppModel exl_two_only (exl_info\<lparr>mi_n_slots := n\<rparr>) (LlamaCppConfig\<lparr>cf_mtp_enabled := True\<rparr>)"

lemma failed_load_keeps_sequences:
  "lm_loaded (snd (llama_load exl_two_only no_control (exl_mtp 2)))"
  "\<not> lm_loaded (snd (llama_load exl_two_only no_control (exl_mtp 1)))"
  "llama_n_slots (set_n_slots 2 (snd (llama_load exl_two_only no_control (exl_mtp 1)))) = 1"
  by code_simp+

end
