(* ===== verification/Request_Properties.thy ===== *)
theory Request_Properties
  imports Example_Llama
begin

text \<open>
  The properties of a request on the llama.cpp backend, from its history to its streamed answer, each
  with a witness, and the lemmas that show where the code does not do what it means to.
\<close>

section \<open>The prompt\<close>





text \<open>
  \<^bold>\<open>C15.\<close> The demand a request was admitted with covers its execution: the prompt that runs has the
  positions that were estimated, the answer may have at least one token and at most as many as were
  reserved, both together stay within the context that was asked for, and that never exceeds the limit
  by more than one. The positions of a prompt with media are those the projector counts.
\<close>

theorem estimated_demand_covers_inference:
  assumes "llama_estimate_request_demand pn req m = Some (Inr d)"
    and "prepare_inference pn slot_id req m = (Inr s, m')"
    and "1 \<le> request_context_limit pn req m" "su_prompt_position_count s = setup_positions s"
  shows "Backend.prompt_positions d = setup_positions s \<and> setup_positions s < request_context_limit pn req m \<and>
     1 \<le> su_max_tokens s \<and> su_max_tokens s \<le> output_tokens d \<and>
     setup_positions s + su_max_tokens s + 1 \<le> required_context d \<and>
     required_context d \<le> request_context_limit pn req m + 1"
proof -
  let ?limit = "request_context_limit pn req m"
  obtain s0 s1 where s: "prepare_prompt pn req ?limit m = Inr s0" "limit_prompt req m s0 = Inr s1"
    "setup_positions s = setup_positions s1" "su_max_tokens s = generation_limit req m s1"
    "su_n_ctx_seq s1 = ?limit" "setup_positions s1 < su_n_ctx_seq s1"
    "su_prompt_position_count s = su_prompt_position_count s1"
    using inference_setup [OF assms(2,3)] by metis
  have n0: "su_n_ctx_seq s0 = ?limit" by (rule prepare_prompt_Ok [OF s(1)])
  let ?pos = "setup_positions s1" and ?budget = "max 1 (?limit - setup_positions s1 - 1)"
  have pos: "?pos = (if ?limit \<le> setup_positions s0 \<and> cf_truncate_prompt (lm_cfg m) \<and> su_media_chunks s0 = []
       then int (length (maybe_truncate_prompt (su_prompt_tokens s0) ?limit (gr_max_output_tokens req)))
       else setup_positions s0)"
    using limit_prompt_Ok(4) [OF s(2)] n0 assms(3) by simp
  have d: "Backend.prompt_positions d = ?pos" "required_context d = ?pos + output_tokens d + 1"
    "output_tokens d = (if 0 < gr_max_output_tokens req then min (gr_max_output_tokens req) ?budget else ?budget)"
    using assms(1) s(1) pos by (auto simp: llama_estimate_request_demand_def Let_def split: if_splits)
  have "su_prompt_position_count s1 = ?pos" using assms(4) s(3,7) by simp
  with generation_limit_bounds [of req m s1] s(4,5) d(3)
  have "1 \<le> su_max_tokens s" "su_max_tokens s \<le> output_tokens d" by auto
  with d s(3,5,6) show ?thesis by auto
qed

theorem estimated_demand_covers_inference_witness:
  "\<exists>d s. llama_estimate_request_demand exl_prompt exl_request exl_serving = Some (Inr d) \<and>
     fst (prepare_inference exl_prompt 0 exl_request exl_serving) = Inr s \<and>
     setup_positions s + su_max_tokens s + 1 \<le> required_context d"
proof -
  have "\<not> isl (fst (prepare_inference exl_prompt 0 exl_request exl_serving))"
    "\<not> isl (the (llama_estimate_request_demand exl_prompt exl_request exl_serving))"
    "llama_estimate_request_demand exl_prompt exl_request exl_serving \<noteq> None"
    "1 \<le> request_context_limit exl_prompt exl_request exl_serving" by code_simp+
  moreover have "(case fst (prepare_inference exl_prompt 0 exl_request exl_serving) of
      Inr s \<Rightarrow> su_prompt_position_count s = setup_positions s | Inl e \<Rightarrow> False)" by code_simp
  ultimately obtain d s where ds: "llama_estimate_request_demand exl_prompt exl_request exl_serving = Some (Inr d)"
    "fst (prepare_inference exl_prompt 0 exl_request exl_serving) = Inr s"
    "su_prompt_position_count s = setup_positions s" "1 \<le> request_context_limit exl_prompt exl_request exl_serving"
    by (cases "the (llama_estimate_request_demand exl_prompt exl_request exl_serving)";
        cases "fst (prepare_inference exl_prompt 0 exl_request exl_serving)") auto
  then have p: "prepare_inference exl_prompt 0 exl_request exl_serving =
      (Inr s, snd (prepare_inference exl_prompt 0 exl_request exl_serving))" by (simp add: prod_eq_iff)
  from estimated_demand_covers_inference [OF ds(1) p ds(4,3)] ds(1,2) show ?thesis by blast
qed

text \<open>
  \<^bold>\<open>C21.\<close> A text request takes over, of all sequences no running request is bound to, one that shares
  the longest reusable prefix with its prompt, and binds it. The slot that had it gets the one of the
  request in exchange, all other slots stay as they are; which slots are in use does not change, and
  the slots still stand for every sequence once.
\<close>

theorem request_binds_longest_prefix:
  assumes "slot_id < length slots" "su_media_chunks s = []" "\<not> sl_sequence_bound (slots ! slot_id)"
  shows "(\<exists>j<length slots. \<not> sl_sequence_bound (slots ! j) \<and>
       (\<forall>k<length slots. \<not> sl_sequence_bound (slots ! k) \<longrightarrow>
          reusable_prefix recurrent (su_prompt_tokens s) (slots ! k) \<le>
          reusable_prefix recurrent (su_prompt_tokens s) (slots ! j)) \<and>
       bind_slot recurrent s slot_id slots ! slot_id =
         (slots ! j)\<lparr>sl_busy := sl_busy (slots ! slot_id), sl_sequence_bound := True\<rparr> \<and>
       (\<forall>k<length slots. k \<noteq> slot_id \<longrightarrow> bind_slot recurrent s slot_id slots ! k =
          (if k = j then (slots ! slot_id)\<lparr>sl_busy := sl_busy (slots ! j)\<rparr> else slots ! k))) \<and>
     map sl_busy (bind_slot recurrent s slot_id slots) = map sl_busy slots \<and>
     numbered (bind_slot recurrent s slot_id slots) = numbered slots"
proof -
  let ?j = "chosen_slot recurrent s slot_id slots"
  note c = chosen_slot_spec [OF assms(1), where recurrent = recurrent and s = s]
  have "\<not> sl_sequence_bound (slots ! ?j)" using c(2) assms(3) by (cases "?j = slot_id") auto
  moreover have "\<forall>k<length slots. \<not> sl_sequence_bound (slots ! k) \<longrightarrow>
      reusable_prefix recurrent (su_prompt_tokens s) (slots ! k) \<le>
      reusable_prefix recurrent (su_prompt_tokens s) (slots ! ?j)"
    using c(3) assms(2,3) by blast
  ultimately show ?thesis
    using c(1) bind_slot_nth [OF assms(1) _ refl] bind_slot_busy [OF assms(1)]
      bind_slot_numbered [OF assms(1)] assms(1)
    by (intro conjI exI [of _ ?j]) simp_all
qed

definition exl_slots :: "slot_state list" where
  "exl_slots =
     [SlotState\<lparr>sl_sequence_id := 0, sl_busy := True, sl_last_prompt_tokens := [1]\<rparr>,
      SlotState\<lparr>sl_sequence_id := 1, sl_last_prompt_tokens := [1, 2, 3]\<rparr>]"

theorem request_binds_longest_prefix_witness:
  "map sl_busy (bind_slot False (PredictSetup\<lparr>su_prompt_tokens := [1, 2, 4]\<rparr>) 0 exl_slots) = [True, False] \<and>
     sl_sequence_id (bind_slot False (PredictSetup\<lparr>su_prompt_tokens := [1, 2, 4]\<rparr>) 0 exl_slots ! 0) = 1"
proof -
  let ?s = "PredictSetup\<lparr>su_prompt_tokens := [1, 2, 4]\<rparr>"
  have "(0::nat) < length exl_slots" "su_media_chunks ?s = []" "\<not> sl_sequence_bound (exl_slots ! 0)"
    by (simp_all add: exl_slots_def PredictSetup_def SlotState_def)
  from request_binds_longest_prefix [OF this, of False]
  have "map sl_busy (bind_slot False ?s 0 exl_slots) = map sl_busy exl_slots" by blast
  moreover have "sl_sequence_id (bind_slot False ?s 0 exl_slots ! 0) = 1" by code_simp
  ultimately show ?thesis by (simp add: exl_slots_def SlotState_def)
qed

section \<open>The answer\<close>

text \<open>
  \<^bold>\<open>C17.\<close> The text of an answer: without a stop string in it, the text of all its tokens; else what
  stands before the stop string that is complete first, and the tokens before the one that completed
  it. The outcome is that of the event that closes the channel.
\<close>

theorem answer_ends_at_first_stop_string:
  assumes "list_all plain evs" "ev_is_done e"
  shows "\<exists>r. drain_task (predict_token dn stops logprobs) (evs @ [e]) new_run =
       Some (if ev_is_error e then Err Internal (ev_error_msg e) else Ok (), r) \<and>
     (let pieces = map (dn_piece dn \<circ> ev_id) evs in
      case stop_index stops pieces of
        None \<Rightarrow> tn_generated r = concat pieces \<and> tn_decoded_ids r = map ev_id evs \<and> \<not> tn_caller_stop r
      | Some k \<Rightarrow> tn_caller_stop r \<and> tn_decoded_ids r = map ev_id (take k evs) \<and>
          (\<exists>stop\<in>set stops. stop \<noteq> [] \<and> tn_generated r @ stop = concat (take (Suc k) pieces)))"
proof -
  let ?pieces = "map (dn_piece dn \<circ> ev_id) evs"
  have "drain_task (predict_token dn stops logprobs) (evs @ [e]) new_run =
      Some (if ev_is_error e then Err Internal (ev_error_msg e) else Ok (),
        reference_run dn stops logprobs evs)"
    by (simp add: drain_feed [OF assms] predict_feed)
  moreover have "case stop_index stops ?pieces of
        None \<Rightarrow> tn_generated (reference_run dn stops logprobs evs) = concat ?pieces \<and>
          tn_decoded_ids (reference_run dn stops logprobs evs) = map ev_id evs \<and>
          \<not> tn_caller_stop (reference_run dn stops logprobs evs)
      | Some k \<Rightarrow> tn_caller_stop (reference_run dn stops logprobs evs) \<and>
          tn_decoded_ids (reference_run dn stops logprobs evs) = map ev_id (take k evs) \<and>
          (\<exists>stop\<in>set stops. stop \<noteq> [] \<and>
             tn_generated (reference_run dn stops logprobs evs) @ stop = concat (take (Suc k) ?pieces))"
  proof (cases "stop_index stops ?pieces")
    case None
    then show ?thesis by (simp add: reference_run_def new_run_def)
  next
    case (Some k)
    let ?whole = "concat (take (Suc k) ?pieces)"
    obtain stop where stop: "matching_stop stops ?whole = Some stop"
      using stop_index_SomeD(2) [OF Some] by blast
    from matching_stop_SomeD [OF stop] Some stop show ?thesis
      by (auto simp: reference_run_def stop_run_def new_run_def Let_def)
  qed
  ultimately show ?thesis by (auto simp: Let_def)
qed

theorem answer_ends_at_first_stop_string_witness:
  "\<exists>r. drain_task (predict_token exl_decode [''!''] False)
       ([exl_event 111, exl_event 107, exl_event 33, exl_event 97] @ [done_event]) new_run = Some (Ok (), r) \<and>
     tn_generated r = ''ok'' \<and> tn_decoded_ids r = [111, 107]"
proof -
  let ?evs = "[exl_event 111, exl_event 107, exl_event 33, exl_event 97]"
  have "list_all plain ?evs" "ev_is_done done_event" "\<not> ev_is_error done_event"
    by (simp_all add: plain_def exl_event_def done_event_def TokenEvent_def)
  moreover have "stop_index [''!''] (map (dn_piece exl_decode \<circ> ev_id) ?evs) = Some 2"
    "concat (take 3 (map (dn_piece exl_decode \<circ> ev_id) ?evs)) = ''ok!''"
    "map ev_id (take 2 ?evs) = [111, 107]" by code_simp+
  ultimately show ?thesis
    using answer_ends_at_first_stop_string [of ?evs done_event exl_decode "[''!'']" False]
    by (auto simp: Let_def numeral_2_eq_2 numeral_3_eq_3)
qed









lemma object_call_shape:
  "object_call dump call_id fn = Some (Some c) \<Longrightarrow>
     cl_type c = ''function'' \<and> cl_function_name c \<noteq> [] \<and> cl_function_arguments c \<noteq> []"
  by (auto simp: object_call_def Let_def split: option.splits if_splits)

lemma parse_calls_shape:
  "parse_calls dump items index = Some calls \<Longrightarrow> c \<in> set calls \<Longrightarrow>
     cl_type c = ''function'' \<and> cl_function_name c \<noteq> [] \<and> cl_function_arguments c \<noteq> []"
proof (induction dump items index arbitrary: calls rule: parse_calls.induct)
  case (2 dump item rest index)
  have "cl_type d = ''function'' \<and> cl_function_name d \<noteq> [] \<and> cl_function_arguments d \<noteq> []"
    if "parse_tool_call_object dump item index = Some (Some d)" for d
    using that by (auto simp: parse_tool_call_object_def object_call_shape split: json.splits option.splits)
  with 2 show ?case by (auto split: option.splits)
qed simp

text \<open>
  \<^bold>\<open>C22.\<close> A tool call found in the text of a model is a function call with a name and arguments, and
  there is at least one when any is reported.
\<close>

theorem found_tool_calls_are_well_typed:
  assumes "parse_fallback_tool_calls parse dump s = Some calls"
  shows "calls \<noteq> [] \<and> (\<forall>c\<in>set calls. cl_type c = ''function'' \<and> cl_function_name c \<noteq> [] \<and>
     cl_function_arguments c \<noteq> [])"
proof -
  have "calls \<noteq> [] \<and> (\<exists>j. candidate_calls dump j = Some calls)"
    if "first_calls parse dump ss = Some calls" for ss
    using that
    by (induction parse dump ss rule: first_calls.induct)
      (auto split: option.splits list.splits bind_splits simp: bind_eq_Some_conv)
  from this [OF assms [unfolded parse_fallback_tool_calls_def]]
  obtain j where "calls \<noteq> []" "candidate_calls dump j = Some calls" by blast
  moreover from this obtain items index where "parse_calls dump items index = Some calls"
    by (auto simp: candidate_calls_def simp del: parse_calls.simps split: json.splits option.splits)
  ultimately show ?thesis using parse_calls_shape by blast
qed

theorem found_tool_calls_are_well_typed_witness:
  "\<exists>c. parse_fallback_tool_calls (\<lambda>s. if s = ''{}'' then Some (JObject [(''name'', JString ''f'')]) else None)
       (\<lambda>j. []) ''call {}'' = Some [c] \<and> cl_function_name c \<noteq> []"
proof -
  let ?r = "parse_fallback_tool_calls (\<lambda>s. if s = ''{}'' then Some (JObject [(''name'', JString ''f'')]) else None)
       (\<lambda>j. []) ''call {}''"
  have "case ?r of Some [c] \<Rightarrow> True | _ \<Rightarrow> False" by code_simp
  then obtain c where r: "?r = Some [c]" by (auto split: option.splits list.splits)
  from found_tool_calls_are_well_typed [OF r] r show ?thesis by simp
qed

section \<open>Where the code departs from its purpose\<close>

text \<open>
  A stop string of several tokens: \<^verbatim>\<open>predict\<close> removes it from its answer, \<^verbatim>\<open>predict_stream\<close> has sent all
  of it but the text of the last token by the time it is complete.
\<close>

definition exl_stop_decode :: decode_native where
  "exl_stop_decode = exl_decode\<lparr>dn_scheduler := \<lambda>k. k\<lparr>tk_initialized := True,
     tk_out_queue := [exl_event 111, exl_event 69, exl_event 78, exl_event 68, done_event]\<rparr>\<rparr>"

lemma stream_leaks_stop_string:
  "map_option (\<lambda>(r, m'). map_sum id ir_text r)
     (predict_cancellable exl_stop_decode exl_prompt 0 (exl_request\<lparr>gr_stop := [''END'']\<rparr>) None None
        exl_serving) = Some (Inr ''o'')"
  "map_option (\<lambda>(r, sent, m'). concat (map d_content sent))
     (llama_predict_stream exl_stop_decode exl_prompt (\<lambda>sent d. True) 0 (exl_request\<lparr>gr_stop := [''END'']\<rparr>)
        None None exl_serving) = Some ''oEN''"
  by code_simp+

text \<open>
  A token without text is in the cache of its sequence; \<^verbatim>\<open>predict\<close> records it, \<^verbatim>\<open>predict_stream\<close> does
  not, and every later token is recorded one position early.
\<close>

lemma stream_forgets_empty_tokens:
  "tn_decoded_ids (feed (predict_token (exl_decode\<lparr>dn_to_piece := \<lambda>t n. if t = 0 then (0, []) else (1, ''x'')\<rparr>)
       [] False) [exl_event 0, exl_event 5] new_run) = [0, 5]"
  "tn_decoded_ids (feed (stream_token (exl_decode\<lparr>dn_to_piece := \<lambda>t n. if t = 0 then (0, []) else (1, ''x'')\<rparr>)
       (\<lambda>sent d. True) False [] False) [exl_event 0, exl_event 5]
       (new_stream_run (exl_decode\<lparr>dn_to_piece := \<lambda>t n. if t = 0 then (0, []) else (1, ''x'')\<rparr>))) = [5]"
  by code_simp+

text \<open>A context window of one token, which a request may ask for, truncates every prompt to nothing.\<close>

lemma window_of_one_empties_prompt: "maybe_truncate_prompt tokens 1 r = [] \<or> tokens = []"
  by (cases "tokens = []")
    (simp_all add: maybe_truncate_prompt_def truncation_target_def truncation_reserve_def clamp_def
      signed_divide_int_def Let_def flip: length_greater_0_conv)

text \<open>
  A prompt of one token less than the limit is served by \<open>prepare_inference\<close>, but its demand is one
  more than the limit: a pool of exactly that size refuses it.
\<close>

lemma demand_exceeds_limit:
  assumes "llama_estimate_request_demand pn req m = Some (Inr d)"
    and "Backend.prompt_positions d = request_context_limit pn req m - 1"
  shows "required_context d = request_context_limit pn req m + 1"
  using assms by (auto simp: llama_estimate_request_demand_def Let_def split: sum.splits if_splits)

end
