(* ===== verification/Llama_Embedding.thy ===== *)
theory Llama_Embedding
  imports Llama_Contract
begin

text \<open>
  Embeddings (\<^verbatim>\<open>llama_cpp_embedding.ipp\<close>): a model without a scheduler decodes its inputs one after
  the other on the shared context. The vectors are floating-point and computed by llama.cpp, their
  type is a parameter; every native answer depends on the number of the input.
\<close>

datatype embedding_input =
    EmbeddingTextInput string
  | EmbeddingTokenInput "token list"

record embedding_request =
  er_inputs :: "embedding_input list"
  er_dimensions :: "int option"

record 'v embedding_result =
  em_embeddings :: "'v list"
  em_prompt_tokens :: int

record 'v embed_native =
  en_n_embd_out :: int
  en_tokenize :: "string \<Rightarrow> token list"
  en_vocabulary_size :: int
  en_n_batch :: int
  en_decode :: "nat \<Rightarrow> token list \<Rightarrow> int"
  en_output :: "nat \<Rightarrow> token list \<Rightarrow> 'v option"
  en_cancelled :: "nat \<Rightarrow> bool"

definition embedding_tokens :: "'v embed_native \<Rightarrow> embedding_input \<Rightarrow> token list result" where
  "embedding_tokens en input =
     (case input of
        EmbeddingTextInput s \<Rightarrow> Ok (en_tokenize en s)
      | EmbeddingTokenInput ts \<Rightarrow>
          if list_ex (\<lambda>t. t < 0 \<or> en_vocabulary_size en \<le> t) ts
          then Err InvalidArgument ''embedding input contains an invalid token ID''
          else Ok ts)"

definition embed_input :: "'v embed_native \<Rightarrow> nat \<Rightarrow> embedding_input \<Rightarrow> ('v \<times> int) result" where
  "embed_input en i input =
     (if en_cancelled en i then Err Cancelled ''embedding request cancelled''
      else case embedding_tokens en input of
        Inl e \<Rightarrow> Inl e
      | Inr ts \<Rightarrow>
          if ts = [] \<or> en_n_batch en < int (length ts)
            then Err InvalidArgument ''embedding input exceeds model batch limit''
          else if en_decode en i ts < 0 then Err Internal ''embedding decode failed''
          else (case en_output en i ts of
                  None \<Rightarrow> Err Internal ''embedding output unavailable''
                | Some v \<Rightarrow> Ok (v, int (length ts))))"

fun embed_inputs ::
  "'v embed_native \<Rightarrow> nat \<Rightarrow> embedding_input list \<Rightarrow> 'v embedding_result \<Rightarrow> 'v embedding_result result"
where
  "embed_inputs en i [] out = Ok out"
| "embed_inputs en i (input # rest) out =
     (case embed_input en i input of
        Inl e \<Rightarrow> Inl e
      | Inr (v, n) \<Rightarrow>
          embed_inputs en (Suc i) rest
            (out\<lparr>em_embeddings := em_embeddings out @ [v],
                 em_prompt_tokens := em_prompt_tokens out + n\<rparr>))"

definition llama_embed ::
  "'v embed_native \<Rightarrow> int \<Rightarrow> embedding_request \<Rightarrow> llama_model \<Rightarrow> 'v embedding_result result" where
  "llama_embed en slot_id req m =
     (if \<not> lm_loaded m \<or> lm_shared_ctx m = None \<or> \<not> lm_model m \<or> \<not> lm_vocab m
        then Err NotLoaded ''embedding model not loaded''
      else if \<not> supports (lm_info m) ''embeddings'' \<or> lm_scheduler m \<noteq> None
        then Err InvalidArgument ''dedicated embedding model required''
      else if \<not> llama_slot_busy slot_id m
        then Err InvalidArgument ''embedding slot is not acquired''
      else if \<exists>n\<in>set_option (er_dimensions req). n \<noteq> en_n_embd_out en
        then Err InvalidArgument (''requested dimensions must equal native dimensions: '' @
               string_of_int (en_n_embd_out en))
      else embed_inputs en 0 (er_inputs req) \<lparr>em_embeddings = [], em_prompt_tokens = 0\<rparr>)"

text \<open>A result has one vector per input, and counts tokens that fit the batch one by one.\<close>

lemma embed_input_Ok:
  assumes "embed_input en i input = Inr (v, n)"
  shows "1 \<le> n" "n \<le> en_n_batch en" "\<not> en_cancelled en i"
  using assms by (auto simp: embed_input_def Err_def Suc_le_eq split: if_splits sum.splits option.splits)

lemma embed_inputs_Ok:
  assumes "embed_inputs en i inputs out = Inr out'"
  shows "length (em_embeddings out') = length (em_embeddings out) + length inputs"
    "em_prompt_tokens out + int (length inputs) \<le> em_prompt_tokens out'"
    "em_prompt_tokens out' \<le> em_prompt_tokens out + int (length inputs) * en_n_batch en"
proof -
  have "length (em_embeddings out') = length (em_embeddings out) + length inputs \<and>
    em_prompt_tokens out + int (length inputs) \<le> em_prompt_tokens out' \<and>
    em_prompt_tokens out' \<le> em_prompt_tokens out + int (length inputs) * en_n_batch en"
    using assms
  proof (induction en i inputs out rule: embed_inputs.induct)
    case (2 en i input rest out)
    then obtain v n where e: "embed_input en i input = Inr (v, n)" by (auto split: sum.splits)
    note ih = "2.IH" [OF e refl]
    from ih "2.prems" e embed_input_Ok [OF e] show ?case by (simp add: algebra_simps)
  qed simp
  then show "length (em_embeddings out') = length (em_embeddings out) + length inputs"
    "em_prompt_tokens out + int (length inputs) \<le> em_prompt_tokens out'"
    "em_prompt_tokens out' \<le> em_prompt_tokens out + int (length inputs) * en_n_batch en" by simp_all
qed

lemma llama_embed_Ok:
  assumes "llama_embed en slot_id req m = Inr out"
  shows "length (em_embeddings out) = length (er_inputs req)"
    "int (length (er_inputs req)) \<le> em_prompt_tokens out"
    "em_prompt_tokens out \<le> int (length (er_inputs req)) * en_n_batch en"
    "llama_slot_busy slot_id m" "lm_scheduler m = None"
proof -
  have "embed_inputs en 0 (er_inputs req) \<lparr>em_embeddings = [], em_prompt_tokens = 0\<rparr> = Inr out"
    "llama_slot_busy slot_id m" "lm_scheduler m = None"
    using assms by (auto simp: llama_embed_def Err_def split: if_splits)
  with embed_inputs_Ok [OF this(1)] show "length (em_embeddings out) = length (er_inputs req)"
    "int (length (er_inputs req)) \<le> em_prompt_tokens out"
    "em_prompt_tokens out \<le> int (length (er_inputs req)) * en_n_batch en"
    "llama_slot_busy slot_id m" "lm_scheduler m = None" by simp_all
qed

end
