(* ===== verification/Spec2Isabelle.thy ===== *)
theory Spec2Isabelle
  imports Coordinator_Properties Lifecycle_Properties Component_Properties Gateway_Properties
    Scheduler_Properties Llama_Properties Request_Properties Llama_Embedding
begin

text \<open>
  \<^bold>\<open>InferDeck: the inference gateway, verified.\<close>

  InferDeck is a gateway that serves language, speech and image models behind one HTTP interface.
  Requests arrive at the gateway (\<^verbatim>\<open>libs/gateway\<close>), are resolved by name in a registry of models,
  admitted and queued by a coordinator, and executed on a slot of the backend that owns the model
  (\<^verbatim>\<open>libs/model\<close>). The coordinator also decides which models stay in memory: it loads, unloads and
  swaps them within a VRAM budget. The backends are the native runtimes (\<^verbatim>\<open>libs/native_runtimes\<close>,
  \<^verbatim>\<open>libs/llama_cpp_wrapper\<close>); the language model backend runs all its requests in shared batches of
  one scheduler. Streamed output passes through filters and a bounded queue before it is sent. In
  front of it all stand the API keys, access control and the limits of a request.

  \<^bold>\<open>Theories and sources.\<close>

  \<^item> \<open>Prelude\<close>: \<^verbatim>\<open>foundation/result.hpp\<close> (\<open>err\<close>, \<open>Result\<close> as a sum), association lists for the
    ordered containers of the code, arithmetic at the width of \<^verbatim>\<open>size_t\<close> where it matters.
  \<^item> \<open>Model_Info\<close>, \<open>Runtime_Contract\<close>, \<open>Model_Registry\<close>: \<^verbatim>\<open>model_info.hpp\<close> and \<^verbatim>\<open>.cpp\<close>,
    \<^verbatim>\<open>runtime_contract.hpp\<close>, \<^verbatim>\<open>model_registry.cpp\<close>. Metadata and its defaults, which modalities a
    runtime may serve, the table of models with aliases, virtual models and fallbacks.
  \<^item> \<open>Backend\<close>: \<^verbatim>\<open>ibackend.hpp\<close>, \<^verbatim>\<open>fixed_backend.hpp\<close> and the slot pool of \<^verbatim>\<open>whisper_backend.cpp\<close>. The
    virtual methods of \<^verbatim>\<open>IBackend\<close> are a table of operations over an abstract state; what a backend
    promises is the locale \<open>backend_contract\<close>, interpreted on the whisper runtime here and on the
    llama.cpp runtime in \<open>Llama_Contract\<close>.
  \<^item> \<open>Coordinator\<close>, \<open>Coordinator_Queue\<close>, \<open>Coordinator_Residency\<close>, \<open>Coordinator_Lifecycle\<close>,
    \<open>Coordinator_Capacity\<close>, \<open>Coordinator_Acquire\<close>, \<open>Coordinator_Execution\<close>: the class
    \<^verbatim>\<open>BackendCoordinator\<close>, one definition per method, in the order of
    \<^verbatim>\<open>backend_coordinator_queue.cpp\<close>, \<^verbatim>\<open>_residency.cpp\<close>, \<^verbatim>\<open>_lifecycle.cpp\<close> and \<^verbatim>\<open>_execution.cpp\<close>.
  \<^item> \<open>Coordinator_Invariant\<close>, \<open>Coordinator_Scheduling\<close>, \<open>Coordinator_Steps\<close>,
    \<open>Lifecycle_Safety\<close>, \<open>Capacity_Safety\<close>: its invariant, the order of its queue, the relation
    \<open>shared_step\<close> of what other threads may do, and the safety of lifecycle operations under it.
  \<^item> \<open>Streaming_Sanitizer\<close>: \<^verbatim>\<open>streaming_sanitizer.cpp\<close>. \<open>Context_Pool\<close>: \<^verbatim>\<open>context_pool_fit.cpp\<close>.
  \<^item> \<open>Api_Key_Format\<close>, \<open>Api_Key_Store\<close>, \<open>Api_Key_Safety\<close>: \<^verbatim>\<open>api_key_store.cpp\<close>. Keys, their cache, the
    background lease, on a database that is a parameter with the locale \<open>sqlite_contract\<close>
    (transactions apply as a whole or not at all), interpreted on an in-memory database.
  \<^item> \<open>Gateway_Security\<close>: \<^verbatim>\<open>auth.hpp\<close>, \<^verbatim>\<open>route_manifest.hpp\<close>, \<^verbatim>\<open>request_security.hpp\<close>, \<^verbatim>\<open>cors.hpp\<close>.
  \<^item> \<open>Generation_Session\<close>: \<^verbatim>\<open>generation_session.cpp\<close>, the content providers of \<^verbatim>\<open>chat_routes.ipp\<close> and
    \<^verbatim>\<open>responses_routes.ipp\<close>, \<^verbatim>\<open>swap_tracker.hpp\<close>, \<^verbatim>\<open>shutdown_state.hpp\<close>.
  \<^item> \<open>Batch_Scheduler\<close>, \<open>Batch_Loop\<close>: \<^verbatim>\<open>continuous_batch_scheduler.hpp\<close> and \<^verbatim>\<open>.cpp\<close>; the operations of
    the scheduler, then its thread, one definition per phase of an iteration. The functions of
    llama.cpp are the fields of a record over an abstract state.
  \<^item> \<open>Batch_Frame\<close> (what each phase leaves alone), \<open>Batch_Channel\<close> and \<open>Batch_Rounds\<close> (the token
    channels through a round and the loop), \<open>Batch_Assembly\<close> (what a batch holds), \<open>Batch_Prefix\<close>
    (reuse of the cache), \<open>Batch_Pool\<close> (reservations), \<open>Batch_Progress\<close> (text requests end),
    \<open>Batch_Reach\<close> (states between rounds, as an inductive relation).
  \<^item> \<open>Llama_Model\<close>: \<^verbatim>\<open>llama_cpp_model.hpp\<close>, \<^verbatim>\<open>llama_cpp_runtime.ipp\<close>; the state of a llama.cpp model
    and its lifecycle: loading, the allocation of its context, growing it for a request, giving idle
    context back, resizing, unloading, the slots. \<open>Llama_Contract\<close>: the invariant of that state, kept
    by every operation, and the interpretation of \<open>backend_contract\<close>. \<open>Llama_Embedding\<close>:
    \<^verbatim>\<open>llama_cpp_embedding.ipp\<close>.
  \<^item> \<open>Chat_Adapter\<close>: the request types of \<^verbatim>\<open>inference/domain.hpp\<close> and \<^verbatim>\<open>llama_chat_adapter.cpp\<close>.
    \<open>Llama_Prompt\<close>, \<open>Llama_Prompt_Facts\<close>: \<^verbatim>\<open>llama_cpp_prompt_cache.ipp\<close>; rendering, truncation, the
    demand of a request, the choice of the cached sequence. \<open>Chat_Parsing\<close>: the parser state and the
    fallback tool calls of \<^verbatim>\<open>llama_cpp_model.cpp\<close>. \<open>Llama_Decoding\<close>, \<open>Llama_Decoding_Facts\<close>:
    \<^verbatim>\<open>llama_cpp_decoding.ipp\<close>; the events of the scheduler become text, deltas and the result.
  \<^item> \<open>Llama_Safety\<close>: the life of a llama.cpp model as the inductive relation \<open>llama_step\<close>.
  \<^item> \<open>Example_Deployment\<close>, \<open>Example_Scheduler\<close>, \<open>Example_Llama\<close>: the concrete values of the witnesses.
  \<^item> \<open>Coordinator_Properties\<close>, \<open>Lifecycle_Properties\<close>, \<open>Component_Properties\<close>,
    \<open>Gateway_Properties\<close>, \<open>Scheduler_Properties\<close>, \<open>Llama_Properties\<close>, \<open>Request_Properties\<close>: the
    properties.

  \<^bold>\<open>Concurrency.\<close> The state of the coordinator is a record; what a method does while it holds
  \<^verbatim>\<open>mutex_\<close> is one atomic definition on it. A method that releases the mutex in between (to call a
  backend, to wait on the condition variable) is a sequence of such sections, and between two of
  them the schedule inserts any sequence of sections of other threads. The schedule is part of the
  \<open>world\<close>, together with the clock: a critical section reads the clock once. Interference is every
  \<open>shared_step\<close>: queueing, leasing, releasing, sessions, telemetry and the cancel flag. Lifecycle
  operations exclude each other on one model by the mutexes of the code; interference by a
  lifecycle operation on another model, or by a change of the registry, is not part of it.

  \<^bold>\<open>Loops.\<close> Loops over data are structural or have a measure. The waiting loops of
  \<^verbatim>\<open>acquire_slot\<close> and of draining are \<open>partial_function (option)\<close>: the value \<open>None\<close> is a schedule
  that ends before the loop does. That they return is proved where the code bounds the wait. The loop
  of the scheduler's thread is a recursion over a schedule of rounds, and its loop over media chunks
  has fuel: as many turns as the prompt has tokens, which is proved to be enough when every chunk
  stands for at least one token.

  The allocation of a context tries at most 17 times, which is the measure of its loop; the buffer for
  the text of a token grows at every turn and stays within two gigabytes, the measure of the other.

  \<^bold>\<open>Native libraries.\<close> The answers of llama.cpp are functions of the number of calls made so far, so
  that a second call may answer otherwise than the first: the theorems hold for every such function.
  A prediction is two steps on the model, the binding of its slot and the record of its end, with the
  scheduler's work between them: as an operation it is the composition of both around a scheduler
  that is a parameter, as a step of \<open>llama_step\<close> each of them interleaves with everything else.

  \<^bold>\<open>Not modelled.\<close> The HTTP routes and their JSON adapters (text assembly around the components
  above), the statistics, the model store and the configuration files, template engine,
  tokenizer and JSON library, the sampling parameters, the inside of SQLite, llama.cpp, whisper.cpp, piper and stable-diffusion (parameters
  of the model, with what the code relies on stated as contracts), the applications' command lines,
  the dashboard and the MCP server. Durations are ticks of a clock and probabilities integers: the
  conversion to floating point is left out.
\<close>

end
